(* ===== verification/Prelude.thy ===== *)
theory Prelude
  imports Main "HOL-Library.Word" "HOL-Library.Multiset"
begin

section \<open>Prelude: C integers, shared lemmas and collections\<close>

text \<open>
  Conventions shared by every component.

  \<^item> A C \<open>int\<close> is an HOL \<open>int\<close>. Signed overflow is undefined in C, so the
    components prove that the values they compute stay within \<open>in_int\<close>.
  \<^item> A \<open>uint32_t\<close> is a \<open>32 word\<close> and a \<open>uint8_t\<close> an \<open>8 word\<close>; \<open>to_u32\<close> and
    \<open>to_int\<close> are the implicit conversions between \<open>int\<close> and \<open>uint32_t\<close>.
  \<^item> A pointer result that may be \<open>NULL\<close> is an \<open>option\<close>. Where the C code would
    have undefined behaviour (a \<open>NULL\<close> dereference, an access out of bounds, locking
    a plain mutex twice) the model returns \<open>None\<close>, and the components prove when
    this does not happen.
  \<^item> Functions that hold a lock for their whole body are single steps on the state.
  \<^item> Logging, sleeping and \<open>free\<close> have no counterpart.
\<close>

type_synonym u8 = "8 word"
type_synonym u32 = "32 word"
type_synonym bytes = "8 word list"

named_theorems c_conv \<open>conversions between C integer types\<close>
named_theorems abs_simps \<open>a concrete operation seen through its abstraction\<close>
named_theorems inv_intros \<open>operations keep the invariant of their component\<close>

subsection \<open>Conversions between C integers\<close>

definition to_u32 :: "int \<Rightarrow> u32" where
  "to_u32 i = word_of_int i"

definition to_int :: "u32 \<Rightarrow> int" where
  "to_int w = sint w"

definition INT_MAX :: int where
  "INT_MAX = 2 ^ 31 - 1"

definition in_int :: "int \<Rightarrow> bool" where
  "in_int i \<longleftrightarrow> - (2 ^ 31) \<le> i \<and> i \<le> INT_MAX"

lemma to_int_to_u32 [c_conv]: "in_int i \<Longrightarrow> to_int (to_u32 i) = i"
  by (simp add: to_int_def to_u32_def in_int_def INT_MAX_def sint_sbintrunc'
      signed_take_bit_int_eq_self)

lemma to_u32_to_int: "to_u32 (to_int w) = w"
  by (simp add: to_u32_def to_int_def)

lemma uint_to_u32 [c_conv]: "0 \<le> i \<Longrightarrow> i < 2 ^ 32 \<Longrightarrow> uint (to_u32 i) = i"
  by (simp add: to_u32_def uint_word_of_int)

lemma to_u32_add [c_conv]: "to_u32 a + to_u32 b = to_u32 (a + b)"
  by (simp add: to_u32_def)

lemma to_u32_diff [c_conv]: "to_u32 a - to_u32 b = to_u32 (a - b)"
  by (simp add: to_u32_def)

lemma to_u32_le [c_conv]:
  assumes "0 \<le> a" "a < 2 ^ 32" "0 \<le> b" "b < 2 ^ 32"
  shows "to_u32 a \<le> to_u32 b \<longleftrightarrow> a \<le> b"
  using assms by (simp add: word_le_def uint_to_u32)

lemma to_u32_less [c_conv]:
  assumes "0 \<le> a" "a < 2 ^ 32" "0 \<le> b" "b < 2 ^ 32"
  shows "to_u32 a < to_u32 b \<longleftrightarrow> a < b"
  using assms by (simp add: word_less_def uint_to_u32)

lemma to_u32_uint [c_conv]: "to_u32 (uint w) = w"
  by (simp add: to_u32_def)

lemma in_int_nonneg: "0 \<le> i \<Longrightarrow> i < 2 ^ 31 \<Longrightarrow> in_int i"
  by (simp add: in_int_def INT_MAX_def)

subsection \<open>Lists\<close>

lemma take_append_nth_drop:
  "n < length xs \<Longrightarrow> take n xs @ xs ! n # drop (Suc n) xs = xs"
  by (rule id_take_nth_drop [symmetric])

lemma remove1_split:
  assumes "x \<in> set xs"
  obtains ys zs where "xs = ys @ x # zs" "x \<notin> set ys" "remove1 x xs = ys @ zs"
  using split_list_first [OF assms] by (metis remove1.simps(2) remove1_append)

lemma length_filter_eq_count: "length (filter (\<lambda>y. y = x) xs) = count (mset xs) x"
  by (induction xs) auto


subsection \<open>Guarded request systems\<close>

text \<open>
  A component that serves requests one at a time: \<open>step r s\<close> is the new state with the
  replies it sends, or \<open>None\<close> where the code would dereference \<open>NULL\<close>. \<open>ok r s\<close> is what
  the environment promises of a request.
\<close>

inductive reachable :: "('r \<Rightarrow> 's \<Rightarrow> bool) \<Rightarrow> ('r \<Rightarrow> 's \<Rightarrow> ('s \<times> 'o) option) \<Rightarrow> 's \<Rightarrow> 's \<Rightarrow> bool"
  for ok step s0 where
  reachable_init: "reachable ok step s0 s0"
| reachable_step: "reachable ok step s0 s \<Longrightarrow> ok r s \<Longrightarrow> step r s = Some (s', out) \<Longrightarrow> reachable ok step s0 s'"

locale invariant_system =
  fixes ok :: "'r \<Rightarrow> 's \<Rightarrow> bool"
    and step :: "'r \<Rightarrow> 's \<Rightarrow> ('s \<times> 'o) option"
    and inv :: "'s \<Rightarrow> bool"
  assumes step_inv: "inv s \<Longrightarrow> ok r s \<Longrightarrow> step r s = Some (s', out) \<Longrightarrow> inv s'"
begin

lemma reachable_inv:
  assumes "reachable ok step s0 s" "inv s0"
  shows "inv s"
  using assms by (induction rule: reachable.induct) (auto intro: step_inv)

end

text \<open>Where the requests need no answer from outside, every allowed request is served.\<close>

locale guarded_system = invariant_system +
  assumes served: "inv s \<Longrightarrow> ok r s \<Longrightarrow> \<exists>s' out. step r s = Some (s', out)"
begin

lemma never_stuck:
  assumes "reachable ok step s0 s" "inv s0" "ok r s"
  shows "\<exists>s' out. step r s = Some (s', out)"
  using served [OF reachable_inv [OF assms(1,2)] assms(3)] by blast

end

end
