(* ===== verification/Linked_List.thy ===== *)
theory Linked_List
  imports Prelude
begin

section \<open>The singly linked list of utils/collections\<close>

text \<open>
  \<open>t_list\<close> of \<open>utils/src/utils/collections/list.c\<close>: a \<open>head\<close> pointer to a chain of
  nodes and a separate \<open>elements_count\<close>. The chain is the HOL list of the nodes' data
  (\<open>NULL\<close> is the empty chain) and a slot (\<open>t_link_element**\<close>) is the number of
  \<open>next\<close> pointers followed from \<open>head\<close>; \<open>*slot == NULL\<close> is a slot at the end of the
  chain. The counter is kept apart from the chain as in the code, so that the
  agreement of the two is an invariant to be proved. A dereference of \<open>NULL\<close>
  is the value \<open>None\<close> of the outer option.

  The other components hold such a list as the HOL list of its elements: the lemmas
  collected in \<open>abs_simps\<close> and the interpretation \<open>linked\<close> of the interface
  \<open>sequence\<close> say that the operations act on it as append, indexing, deletion and
  ordered insertion do.
\<close>

subsection \<open>The structure and its operations\<close>

record 'a t_list =
  head :: "'a list"
  elements_count :: int

record 'a t_list_iterator =
  it_list :: "'a t_list"
  it_current :: nat
  it_next :: nat
  it_index :: int

definition list_create :: "'a t_list" where
  "list_create = \<lparr>head = [], elements_count = 0\<rparr>"

fun list_get_slot :: "'a list \<Rightarrow> int \<Rightarrow> nat" where
  "list_get_slot [] index = 0"
| "list_get_slot (x # chain) index = (if 0 < index then Suc (list_get_slot chain (index - 1)) else 0)"

definition list_add :: "'a t_list \<Rightarrow> 'a \<Rightarrow> 'a t_list \<times> int" where
  "list_add self element =
     (let slot = list_get_slot (head self) (elements_count self)
      in (self\<lparr>head := take slot (head self) @ [element],
               elements_count := elements_count self + 1\<rparr>, elements_count self))"

fun sorted_slot :: "('a \<Rightarrow> 'a \<Rightarrow> bool) \<Rightarrow> 'a \<Rightarrow> 'a list \<Rightarrow> nat" where
  "sorted_slot comparator data [] = 0"
| "sorted_slot comparator data (y # chain) =
     (if \<not> comparator data y then Suc (sorted_slot comparator data chain) else 0)"

definition list_add_sorted :: "'a t_list \<Rightarrow> 'a \<Rightarrow> ('a \<Rightarrow> 'a \<Rightarrow> bool) \<Rightarrow> 'a t_list \<times> int" where
  "list_add_sorted self data comparator =
     (let slot = sorted_slot comparator data (head self)
      in (self\<lparr>head := take slot (head self) @ data # drop slot (head self),
               elements_count := elements_count self + 1\<rparr>, int slot))"

definition deref :: "'a list \<Rightarrow> nat \<Rightarrow> 'a option" where
  "deref chain slot = (if slot < length chain then Some (chain ! slot) else None)"

definition list_get :: "'a t_list \<Rightarrow> int \<Rightarrow> 'a option option" where
  "list_get self index =
     (if index < 0 \<or> index \<ge> elements_count self then Some None
      else map_option Some (deref (head self) (list_get_slot (head self) index)))"

definition list_remove :: "'a t_list \<Rightarrow> int \<Rightarrow> ('a t_list \<times> 'a option) option" where
  "list_remove self index =
     (if index < 0 \<or> index \<ge> elements_count self then Some (self, None)
      else (let slot = list_get_slot (head self) index
            in map_option (\<lambda>data.
                 (self\<lparr>head := take slot (head self) @ drop (Suc slot) (head self),
                       elements_count := elements_count self - 1\<rparr>, Some data))
                 (deref (head self) slot)))"

fun remove_node :: "'a list \<Rightarrow> 'a \<Rightarrow> 'a list \<times> bool" where
  "remove_node [] element = ([], False)"
| "remove_node (y # chain) element =
     (if y = element then (chain, True)
      else (let (chain', found) = remove_node chain element in (y # chain', found)))"

definition list_remove_element :: "'a t_list \<Rightarrow> 'a \<Rightarrow> 'a t_list \<times> bool" where
  "list_remove_element self element =
     (case remove_node (head self) element of
        (chain, True) \<Rightarrow> (self\<lparr>head := chain, elements_count := elements_count self - 1\<rparr>, True)
      | (chain, False) \<Rightarrow> (self, False))"

text \<open>The destroyer's effect is the list of elements it was called with.\<close>

definition list_remove_and_destroy_element :: "'a t_list \<Rightarrow> int \<Rightarrow> ('a t_list \<times> 'a list) option" where
  "list_remove_and_destroy_element self index =
     map_option (\<lambda>(self', data). (self', case data of None \<Rightarrow> [] | Some d \<Rightarrow> [d])) (list_remove self index)"

fun list_clean :: "'a list \<Rightarrow> ('a \<Rightarrow> 's \<Rightarrow> 's) \<Rightarrow> 's \<Rightarrow> 's" where
  "list_clean [] destroyer s = s"
| "list_clean (x # chain) destroyer s = list_clean chain destroyer (destroyer x s)"

definition list_iterate :: "'a t_list \<Rightarrow> ('a \<Rightarrow> 's \<Rightarrow> 's) \<Rightarrow> 's \<Rightarrow> 's" where
  "list_iterate self closure s = fold closure (head self) s"

definition list_size :: "'a t_list \<Rightarrow> int" where
  "list_size self = elements_count self"

definition list_is_empty :: "'a t_list \<Rightarrow> bool" where
  "list_is_empty self \<longleftrightarrow> elements_count self = 0"

definition list_iterator_create :: "'a t_list \<Rightarrow> 'a t_list_iterator" where
  "list_iterator_create l = \<lparr>it_list = l, it_current = 0, it_next = 0, it_index = -1\<rparr>"

definition list_iterator_has_next :: "'a t_list_iterator \<Rightarrow> bool" where
  "list_iterator_has_next it \<longleftrightarrow> it_next it < length (head (it_list it))"

definition list_iterator_next :: "'a t_list_iterator \<Rightarrow> ('a t_list_iterator \<times> 'a) option" where
  "list_iterator_next it =
     map_option (Pair (it\<lparr>it_current := it_next it, it_index := it_index it + 1,
                          it_next := Suc (it_next it)\<rparr>))
       (deref (head (it_list it)) (it_next it))"

definition list_iterator_remove :: "'a t_list_iterator \<Rightarrow> 'a t_list_iterator option" where
  "list_iterator_remove it =
     map_option (\<lambda>_. it\<lparr>it_list := (it_list it)
                          \<lparr>head := take (it_current it) (head (it_list it)) @
                                   drop (Suc (it_current it)) (head (it_list it)),
                           elements_count := elements_count (it_list it) - 1\<rparr>,
                        it_next := it_current it, it_index := it_index it - 1\<rparr>)
       (deref (head (it_list it)) (it_current it))"

text \<open>
  The loop in which the clients of the iterator look for the first element with a
  property and remove it (\<open>find_and_remove_segment\<close>, \<open>remove_priority_list\<close>,
  \<open>remove_pcb_list\<close>, \<open>update_hole_table\<close>): advance, test, remove and leave the loop.
\<close>

function iterator_remove_first :: "('a \<Rightarrow> bool) \<Rightarrow> 'a t_list_iterator \<Rightarrow> ('a t_list \<times> 'a option) option" where
  "iterator_remove_first test it =
     (if \<not> list_iterator_has_next it then Some (it_list it, None)
      else case list_iterator_next it of
             None \<Rightarrow> None
           | Some (it', x) \<Rightarrow>
               (if test x then map_option (\<lambda>it''. (it_list it'', Some x)) (list_iterator_remove it')
                else iterator_remove_first test it'))"
  by pat_completeness auto
termination
  by (relation "measure (\<lambda>(test, it). length (head (it_list it)) - it_next it)")
     (auto simp: list_iterator_has_next_def list_iterator_next_def)

declare iterator_remove_first.simps [simp del]

subsection \<open>Abstraction and invariant\<close>

definition list_inv :: "'a t_list \<Rightarrow> bool" where
  "list_inv l \<longleftrightarrow> elements_count l = int (length (head l))"

text \<open>Ordered insertion on HOL lists, as the clients see \<open>list_add_sorted\<close>.\<close>

definition add_sorted :: "('a \<Rightarrow> 'a \<Rightarrow> bool) \<Rightarrow> 'a \<Rightarrow> 'a list \<Rightarrow> 'a list" where
  "add_sorted cmp x xs = takeWhile (\<lambda>y. \<not> cmp x y) xs @ x # dropWhile (\<lambda>y. \<not> cmp x y) xs"

fun remove_first :: "('a \<Rightarrow> bool) \<Rightarrow> 'a list \<Rightarrow> 'a list" where
  "remove_first p [] = []"
| "remove_first p (x # xs) = (if p x then xs else x # remove_first p xs)"

lemma list_get_slot_eq:
  "list_get_slot chain index = min (nat index) (length chain)"
  by (induction chain index rule: list_get_slot.induct) (auto simp: nat_diff_distrib' min_def)

lemma sorted_slot_eq: "sorted_slot cmp x xs = length (takeWhile (\<lambda>y. \<not> cmp x y) xs)"
  by (induction xs) auto

lemma take_sorted_slot:
  "take (sorted_slot cmp x xs) xs = takeWhile (\<lambda>y. \<not> cmp x y) xs"
  "drop (sorted_slot cmp x xs) xs = dropWhile (\<lambda>y. \<not> cmp x y) xs"
  by (induction xs) auto

lemma remove_node_eq: "remove_node xs x = (remove1 x xs, x \<in> set xs)"
  by (induction xs) auto

lemma remove_first_eq: "remove_first (\<lambda>y. y = x) xs = remove1 x xs"
  by (induction xs) auto

lemma list_clean_fold: "list_clean chain f s = fold f chain s"
  by (induction chain arbitrary: s) auto

lemma head_list_add [abs_simps]: "list_inv l \<Longrightarrow> head (fst (list_add l x)) = head l @ [x]"
  by (simp add: list_add_def list_inv_def list_get_slot_eq Let_def)

lemma index_list_add [abs_simps]: "list_inv l \<Longrightarrow> snd (list_add l x) = int (length (head l))"
  by (simp add: list_add_def list_inv_def Let_def)

lemma list_inv_create [inv_intros]: "list_inv list_create"
  by (simp add: list_inv_def list_create_def)

lemma list_inv_add [inv_intros]: "list_inv l \<Longrightarrow> list_inv (fst (list_add l x))"
  by (simp add: list_add_def list_inv_def list_get_slot_eq Let_def)

lemma head_list_add_sorted [abs_simps]:
  "head (fst (list_add_sorted l x cmp)) = add_sorted cmp x (head l)"
  by (simp add: list_add_sorted_def add_sorted_def Let_def take_sorted_slot)

lemma list_inv_add_sorted [inv_intros]: "list_inv l \<Longrightarrow> list_inv (fst (list_add_sorted l x cmp))"
  by (simp add: list_add_sorted_def list_inv_def Let_def)

lemma list_get_eq [abs_simps]:
  "list_inv l \<Longrightarrow> list_get l i =
     Some (if 0 \<le> i \<and> i < int (length (head l)) then Some (head l ! nat i) else None)"
  by (auto simp: list_get_def list_inv_def list_get_slot_eq deref_def)

lemma list_remove_eq [abs_simps]:
  "list_inv l \<Longrightarrow> 0 \<le> i \<Longrightarrow> i < int (length (head l)) \<Longrightarrow> list_remove l i =
     Some (\<lparr>head = take (nat i) (head l) @ drop (Suc (nat i)) (head l),
            elements_count = elements_count l - 1, \<dots> = t_list.more l\<rparr>, Some (head l ! nat i))"
  by (cases l) (auto simp: list_remove_def list_inv_def list_get_slot_eq deref_def Let_def)

lemma list_remove_out_of_range [abs_simps]:
  "list_inv l \<Longrightarrow> i < 0 \<or> int (length (head l)) \<le> i \<Longrightarrow> list_remove l i = Some (l, None)"
  by (auto simp: list_remove_def list_inv_def)

lemma list_remove_element_eq [abs_simps]:
  "head (fst (list_remove_element l x)) = remove1 x (head l)"
  "snd (list_remove_element l x) \<longleftrightarrow> x \<in> set (head l)"
  by (auto simp: list_remove_element_def remove_node_eq remove1_idem split: bool.splits)

lemma list_inv_remove_element [inv_intros]:
  "list_inv l \<Longrightarrow> list_inv (fst (list_remove_element l x))"
  by (auto simp: list_remove_element_def remove_node_eq list_inv_def length_remove1
      length_pos_if_in_set int_ops split: bool.splits)


subsection \<open>The iterator\<close>

text \<open>
  An iterator whose \<open>next\<close> slot is \<open>k\<close> has visited the first \<open>k\<close> elements; removing
  the element just returned re-targets \<open>next\<close> at the slot of the removed node.
\<close>

lemma iterator_next_eq:
  "list_iterator_has_next it \<Longrightarrow> list_iterator_next it =
     Some (it\<lparr>it_current := it_next it, it_index := it_index it + 1, it_next := Suc (it_next it)\<rparr>,
           head (it_list it) ! it_next it)"
  by (simp add: list_iterator_has_next_def list_iterator_next_def deref_def)

lemma iterator_remove_first_from:
  assumes "it_next it \<le> length (head (it_list it))"
  shows "iterator_remove_first p it =
    (let k = it_next it; xs = head (it_list it) in
     Some (case find p (drop k xs) of
             None \<Rightarrow> (it_list it, None)
           | Some x \<Rightarrow> ((it_list it)\<lparr>head := take k xs @ remove_first p (drop k xs),
                                  elements_count := elements_count (it_list it) - 1\<rparr>, Some x)))"
  using assms
proof (induction p it rule: iterator_remove_first.induct)
  case (1 p it)
  let ?xs = "head (it_list it)" and ?k = "it_next it"
  show ?case
  proof (cases "list_iterator_has_next it")
    case False
    with "1.prems" have "?k = length ?xs" by (simp add: list_iterator_has_next_def)
    with False show ?thesis by (simp add: iterator_remove_first.simps [of p it])
  next
    case True
    then have k: "?k < length ?xs" by (simp add: list_iterator_has_next_def)
    then have d: "drop ?k ?xs = ?xs ! ?k # drop (Suc ?k) ?xs" by (rule Cons_nth_drop_Suc [symmetric])
    let ?it' = "it\<lparr>it_current := ?k, it_index := it_index it + 1, it_next := Suc ?k\<rparr>"
    note unfold1 = iterator_remove_first.simps [of p it] iterator_next_eq [OF True]
    show ?thesis
    proof (cases "p (?xs ! ?k)")
      case True
      with k \<open>list_iterator_has_next it\<close> show ?thesis
        by (simp add: unfold1 d list_iterator_remove_def deref_def Let_def)
    next
      case False
      with True have "iterator_remove_first p it = iterator_remove_first p ?it'"
        by (simp add: unfold1)
      also have "\<dots> = (let k = it_next ?it'; xs = head (it_list ?it') in
         Some (case find p (drop k xs) of
             None \<Rightarrow> (it_list ?it', None)
           | Some x \<Rightarrow> ((it_list ?it')\<lparr>head := take k xs @ remove_first p (drop k xs),
                                  elements_count := elements_count (it_list ?it') - 1\<rparr>, Some x)))"
        using "1.IH" [OF _ iterator_next_eq [OF True] refl] True False k by simp
      also have "\<dots> = (let k = ?k; xs = ?xs in
         Some (case find p (drop k xs) of
             None \<Rightarrow> (it_list it, None)
           | Some x \<Rightarrow> ((it_list it)\<lparr>head := take k xs @ remove_first p (drop k xs),
                                  elements_count := elements_count (it_list it) - 1\<rparr>, Some x)))"
        using False k by (simp add: d take_Suc_conv_app_nth Let_def split: option.split)
      finally show ?thesis .
    qed
  qed
qed

lemma length_remove_first: "find p xs = Some x \<Longrightarrow> Suc (length (remove_first p xs)) = length xs"
  by (induction xs) (auto split: if_splits)

lemma remove_first_idem: "find p xs = None \<Longrightarrow> remove_first p xs = xs"
  by (induction xs) (auto split: if_splits)

lemma mset_remove_first: "find p xs = Some x \<Longrightarrow> mset xs = add_mset x (mset (remove_first p xs))"
  by (induction xs) (auto split: if_splits)

subsection \<open>Ordered insertion\<close>

lemma mset_add_sorted [simp]: "mset (add_sorted cmp x xs) = add_mset x (mset xs)"
  by (simp add: add_sorted_def) (metis mset_append takeWhile_dropWhile_id)

lemma set_add_sorted [simp]: "set (add_sorted cmp x xs) = insert x (set xs)"
  by (metis mset_add_sorted set_mset_add_mset_insert set_mset_mset)

lemma length_add_sorted [simp]: "length (add_sorted cmp x xs) = Suc (length xs)"
  by (metis mset_add_sorted size_add_mset size_mset)

lemma add_sorted_Nil [simp]: "add_sorted cmp x [] = [x]"
  by (simp add: add_sorted_def)

lemma add_sorted_Cons [simp]:
  "add_sorted cmp x (y # ys) = (if cmp x y then x # y # ys else y # add_sorted cmp x ys)"
  by (simp add: add_sorted_def)

text \<open>
  Both comparators of the repository compare a key: \<open>\<le>\<close> of the priority
  (\<open>is_highest_priority\<close>, the IO request queues) and \<open><\<close> (\<open>has_higher_priority_than\<close>).
  Either keeps the list ordered by the key; they differ in where an equal key goes.
\<close>

lemma sorted_add_sorted_le:
  fixes f :: "'a \<Rightarrow> 'b::linorder"
  shows "sorted (map f xs) \<Longrightarrow> sorted (map f (add_sorted (\<lambda>a b. f a \<le> f b) x xs))"
  by (induction xs) auto

lemma sorted_add_sorted_less:
  fixes f :: "'a \<Rightarrow> 'b::linorder"
  shows "sorted (map f xs) \<Longrightarrow> sorted (map f (add_sorted (\<lambda>a b. f a < f b) x xs))"
  by (induction xs) auto

lemma add_sorted_le_split:
  fixes f :: "'a \<Rightarrow> 'b::linorder"
  assumes "sorted (map f xs)"
  shows "add_sorted (\<lambda>a b. f a \<le> f b) x xs =
    filter (\<lambda>y. f y < f x) xs @ x # filter (\<lambda>y. f x \<le> f y) xs"
  using assms
proof (induction xs)
  case (Cons y ys)
  show ?case
  proof (cases "f x \<le> f y")
    case True
    with Cons.prems have ge: "\<forall>z \<in> set ys. f x \<le> f z" by auto
    then have "filter (\<lambda>z. f z < f x) ys = []" "filter (\<lambda>z. f x \<le> f z) ys = ys"
      by (auto simp: filter_empty_conv)
    with True show ?thesis by simp
  next
    case False
    with Cons show ?thesis by simp
  qed
qed simp

subsection \<open>The sequence interface\<close>

text \<open>
  What the other modules rely on: a representation with an abstraction to HOL lists
  on which the operations append, index and delete, and keep the representation's
  invariant. The lemmas about queue use are proved once from this interface.
\<close>

locale sequence =
  fixes create :: 'l
    and add :: "'l \<Rightarrow> 'a \<Rightarrow> 'l"
    and get :: "'l \<Rightarrow> int \<Rightarrow> 'a option"
    and remove :: "'l \<Rightarrow> int \<Rightarrow> 'l \<times> 'a option"
    and items :: "'l \<Rightarrow> 'a list"
    and invar :: "'l \<Rightarrow> bool"
  assumes items_create: "items create = []"
    and invar_create: "invar create"
    and items_add: "invar l \<Longrightarrow> items (add l x) = items l @ [x]"
    and invar_add: "invar l \<Longrightarrow> invar (add l x)"
    and get_items: "invar l \<Longrightarrow> get l i =
          (if 0 \<le> i \<and> i < int (length (items l)) then Some (items l ! nat i) else None)"
    and remove_items: "invar l \<Longrightarrow> 0 \<le> i \<Longrightarrow> i < int (length (items l)) \<Longrightarrow>
          items (fst (remove l i)) = take (nat i) (items l) @ drop (Suc (nat i)) (items l)
          \<and> snd (remove l i) = Some (items l ! nat i)"
    and remove_out: "invar l \<Longrightarrow> i < 0 \<or> int (length (items l)) \<le> i \<Longrightarrow> remove l i = (l, None)"
    and invar_remove: "invar l \<Longrightarrow> invar (fst (remove l i))"
begin

lemma items_adds: "invar l \<Longrightarrow> items (foldl add l xs) = items l @ xs \<and> invar (foldl add l xs)"
  by (induction xs arbitrary: l) (simp_all add: items_add invar_add)

lemma remove_front: "invar l \<Longrightarrow> items l = x # xs \<Longrightarrow>
    snd (remove l 0) = Some x \<and> items (fst (remove l 0)) = xs \<and> invar (fst (remove l 0))"
  using remove_items [of l 0] invar_remove [of l 0] by simp

text \<open>Draining from the front \<open>n\<close> times.\<close>

fun drain :: "nat \<Rightarrow> 'l \<Rightarrow> 'a list" where
  "drain 0 l = []"
| "drain (Suc n) l = (case remove l 0 of (l', None) \<Rightarrow> [] | (l', Some x) \<Rightarrow> x # drain n l')"

lemma drain_eq: "invar l \<Longrightarrow> drain n l = take n (items l)"
proof (induction n arbitrary: l)
  case (Suc n)
  show ?case
  proof (cases "items l")
    case Nil
    then show ?thesis using remove_out [OF Suc.prems, of 0] by simp
  next
    case (Cons x xs)
    from remove_front [OF Suc.prems Cons] Cons Suc.IH show ?thesis
      by (auto split: prod.splits)
  qed
qed simp

lemma fifo: "drain (length xs) (foldl add create xs) = xs"
  using items_adds [OF invar_create, of xs] by (simp add: drain_eq items_create)

end

lemma list_inv_remove [inv_intros]:
  "list_inv l \<Longrightarrow> list_remove l i = Some (l', d) \<Longrightarrow> list_inv l'"
  by (auto simp: list_remove_def list_inv_def list_get_slot_eq deref_def Let_def split: if_splits)

lemma list_remove_total: "list_inv l \<Longrightarrow> \<exists>r. list_remove l i = Some r"
  by (cases "0 \<le> i \<and> i < int (length (head l))") (auto simp: abs_simps)

definition seq_add :: "'a t_list \<Rightarrow> 'a \<Rightarrow> 'a t_list" where
  "seq_add l x = fst (list_add l x)"

definition seq_get :: "'a t_list \<Rightarrow> int \<Rightarrow> 'a option" where
  "seq_get l i = Option.bind (list_get l i) id"

definition seq_remove :: "'a t_list \<Rightarrow> int \<Rightarrow> 'a t_list \<times> 'a option" where
  "seq_remove l i = (case list_remove l i of None \<Rightarrow> (l, None) | Some r \<Rightarrow> r)"

interpretation linked: sequence list_create seq_add seq_get seq_remove head list_inv
proof unfold_locales
  fix l :: "'a t_list" and i :: int
  assume inv: "list_inv l"
  show "seq_get l i = (if 0 \<le> i \<and> i < int (length (head l)) then Some (head l ! nat i) else None)"
    using inv by (simp add: seq_get_def abs_simps)
  show "list_inv (fst (seq_remove l i))"
    using inv list_inv_remove [OF inv] by (auto simp: seq_remove_def split: option.splits)
  show "seq_remove l i = (l, None)" if "i < 0 \<or> int (length (head l)) \<le> i"
    using inv that by (simp add: seq_remove_def abs_simps)
  show "head (fst (seq_remove l i)) = take (nat i) (head l) @ drop (Suc (nat i)) (head l)
      \<and> snd (seq_remove l i) = Some (head l ! nat i)" if "0 \<le> i" "i < int (length (head l))"
    using inv that by (simp add: seq_remove_def abs_simps)
qed (auto simp: seq_add_def abs_simps inv_intros, simp add: list_create_def)

end
