(* ===== verification/Msg.thy ===== *)
theory Msg
  imports Linked_List
begin

section \<open>The message layer of utils/msg.c\<close>

text \<open>
  Every module talks to the others through the packets of \<open>utils/src/utils/msg.c\<close>: an
  operation code, the size of the payload, and the payload; a packet's payload is a
  sequence of size-prefixed elements. An \<open>int\<close> crosses the wire as its four bytes in
  memory, least significant first on the machines the modules run on. The bytes still to
  be read from a socket are a byte list; an exhausted stream is a closed connection.
  \<open>None\<close> marks a read outside a received buffer.
\<close>

subsection \<open>Operation codes and module identifiers\<close>

text \<open>The enumerators of \<open>t_op_code\<close>, which the code serializes as plain \<open>int\<close>s.\<close>

abbreviation (input) OP_CODE_ERROR :: int where
  "OP_CODE_ERROR \<equiv> 0"

abbreviation (input) OP_HANDSHAKE :: int where
  "OP_HANDSHAKE \<equiv> 1"

abbreviation (input) OP_ID_CPU :: int where
  "OP_ID_CPU \<equiv> 2"

abbreviation (input) OP_RESUME_PROCESS :: int where
  "OP_RESUME_PROCESS \<equiv> 3"

abbreviation (input) OP_INTERRUPT :: int where
  "OP_INTERRUPT \<equiv> 4"

abbreviation (input) OP_NO_INTERRUPT :: int where
  "OP_NO_INTERRUPT \<equiv> 5"

abbreviation (input) OP_CPU_CYCLE_OK :: int where
  "OP_CPU_CYCLE_OK \<equiv> 6"

abbreviation (input) OP_SEG_FAULT :: int where
  "OP_SEG_FAULT \<equiv> 7"

abbreviation (input) OP_SYSCALL_MUTEX_CREATE :: int where
  "OP_SYSCALL_MUTEX_CREATE \<equiv> 8"

abbreviation (input) OP_SYSCALL_MUTEX_LOCK :: int where
  "OP_SYSCALL_MUTEX_LOCK \<equiv> 9"

abbreviation (input) OP_SYSCALL_MUTEX_UNLOCK :: int where
  "OP_SYSCALL_MUTEX_UNLOCK \<equiv> 10"

abbreviation (input) OP_SYSCALL_MEM_ALLOC :: int where
  "OP_SYSCALL_MEM_ALLOC \<equiv> 11"

abbreviation (input) OP_SYSCALL_MEM_FREE :: int where
  "OP_SYSCALL_MEM_FREE \<equiv> 12"

abbreviation (input) OP_SYSCALL_SLEEP :: int where
  "OP_SYSCALL_SLEEP \<equiv> 13"

abbreviation (input) OP_SYSCALL_STDOUT :: int where
  "OP_SYSCALL_STDOUT \<equiv> 14"

abbreviation (input) OP_SYSCALL_STDIN :: int where
  "OP_SYSCALL_STDIN \<equiv> 15"

abbreviation (input) OP_SYSCALL_INIT_PROC :: int where
  "OP_SYSCALL_INIT_PROC \<equiv> 16"

abbreviation (input) OP_SYSCALL_EXIT :: int where
  "OP_SYSCALL_EXIT \<equiv> 17"

abbreviation (input) OP_KERNEL_MEMORY_RUNNING :: int where
  "OP_KERNEL_MEMORY_RUNNING \<equiv> 18"

abbreviation (input) OP_NEW_PROCESS :: int where
  "OP_NEW_PROCESS \<equiv> 19"

abbreviation (input) OP_END_PROCESS :: int where
  "OP_END_PROCESS \<equiv> 20"

abbreviation (input) OP_CREATE_SEGMENT :: int where
  "OP_CREATE_SEGMENT \<equiv> 21"

abbreviation (input) OP_DELETE_SEGMENT :: int where
  "OP_DELETE_SEGMENT \<equiv> 22"

abbreviation (input) OP_REQUEST_FREE_MEMORY :: int where
  "OP_REQUEST_FREE_MEMORY \<equiv> 23"

abbreviation (input) OP_REQUEST_PROCESS_SIZE :: int where
  "OP_REQUEST_PROCESS_SIZE \<equiv> 24"

abbreviation (input) OP_SUSPEND_PROCESS :: int where
  "OP_SUSPEND_PROCESS \<equiv> 25"

abbreviation (input) OP_RESUME_SUSPENDED_PROCESS :: int where
  "OP_RESUME_SUSPENDED_PROCESS \<equiv> 26"

abbreviation (input) OP_CAN_COMPACT :: int where
  "OP_CAN_COMPACT \<equiv> 27"

abbreviation (input) OP_KERNEL_SCHEDULER_SHUTDOWN :: int where
  "OP_KERNEL_SCHEDULER_SHUTDOWN \<equiv> 28"

abbreviation (input) OP_PROCESS_STARTED :: int where
  "OP_PROCESS_STARTED \<equiv> 29"

abbreviation (input) OP_FREE_MEMORY :: int where
  "OP_FREE_MEMORY \<equiv> 30"

abbreviation (input) OP_PROCESS_SIZE :: int where
  "OP_PROCESS_SIZE \<equiv> 31"

abbreviation (input) OP_MEMORY_ALLOCATED :: int where
  "OP_MEMORY_ALLOCATED \<equiv> 32"

abbreviation (input) OP_MEMORY_FREED :: int where
  "OP_MEMORY_FREED \<equiv> 33"

abbreviation (input) OP_SEGMENT_SIZE_EXCEEDED :: int where
  "OP_SEGMENT_SIZE_EXCEEDED \<equiv> 34"

abbreviation (input) OP_NOT_ENOUGH_MEMORY :: int where
  "OP_NOT_ENOUGH_MEMORY \<equiv> 35"

abbreviation (input) OP_COMPACTION_NEEDED :: int where
  "OP_COMPACTION_NEEDED \<equiv> 36"

abbreviation (input) OP_COMPACTION_DONE :: int where
  "OP_COMPACTION_DONE \<equiv> 37"

abbreviation (input) OP_SUSPENSION_OK :: int where
  "OP_SUSPENSION_OK \<equiv> 38"

abbreviation (input) OP_SUSPENSION_FAILED :: int where
  "OP_SUSPENSION_FAILED \<equiv> 39"

abbreviation (input) OP_RESUME_SUSPENSION_OK :: int where
  "OP_RESUME_SUSPENSION_OK \<equiv> 40"

abbreviation (input) OP_RESUME_SUSPENSION_FAILED :: int where
  "OP_RESUME_SUSPENSION_FAILED \<equiv> 41"

abbreviation (input) OP_NEW_MEMORY_STICK :: int where
  "OP_NEW_MEMORY_STICK \<equiv> 42"

abbreviation (input) OP_MEMORY_CORRUPTED :: int where
  "OP_MEMORY_CORRUPTED \<equiv> 43"

abbreviation (input) OP_IO_TYPE :: int where
  "OP_IO_TYPE \<equiv> 44"

abbreviation (input) OP_IO_STDIN_REQUEST :: int where
  "OP_IO_STDIN_REQUEST \<equiv> 45"

abbreviation (input) OP_IO_STDOUT_REQUEST :: int where
  "OP_IO_STDOUT_REQUEST \<equiv> 46"

abbreviation (input) OP_IO_SLEEP_REQUEST :: int where
  "OP_IO_SLEEP_REQUEST \<equiv> 47"

abbreviation (input) OP_STDIN_RESPONSE :: int where
  "OP_STDIN_RESPONSE \<equiv> 48"

abbreviation (input) OP_STDOUT_RESPONSE :: int where
  "OP_STDOUT_RESPONSE \<equiv> 49"

abbreviation (input) OP_SLEEP_RESPONSE :: int where
  "OP_SLEEP_RESPONSE \<equiv> 50"

abbreviation (input) OP_REQUEST_CONTEXT :: int where
  "OP_REQUEST_CONTEXT \<equiv> 51"

abbreviation (input) OP_UPDATED_CONTEXT :: int where
  "OP_UPDATED_CONTEXT \<equiv> 52"

abbreviation (input) OP_NEXT_INSTRUCTION :: int where
  "OP_NEXT_INSTRUCTION \<equiv> 53"

abbreviation (input) OP_UPDATED_SEGMENT_TABLE :: int where
  "OP_UPDATED_SEGMENT_TABLE \<equiv> 54"

abbreviation (input) OP_STICK_DISCONNECTED :: int where
  "OP_STICK_DISCONNECTED \<equiv> 55"

abbreviation (input) OP_SEND_CONTEXT :: int where
  "OP_SEND_CONTEXT \<equiv> 56"

abbreviation (input) OP_SEND_INSTRUCTION :: int where
  "OP_SEND_INSTRUCTION \<equiv> 57"

abbreviation (input) OP_SEGMENT_TABLE :: int where
  "OP_SEGMENT_TABLE \<equiv> 58"

abbreviation (input) OP_MAX_SEGMENT_SIZE :: int where
  "OP_MAX_SEGMENT_SIZE \<equiv> 59"

abbreviation (input) OP_PACKET :: int where
  "OP_PACKET \<equiv> 60"

abbreviation (input) OP_MEMORY_SIZE :: int where
  "OP_MEMORY_SIZE \<equiv> 61"

abbreviation (input) OP_PORT :: int where
  "OP_PORT \<equiv> 62"

abbreviation (input) OP_MEMORY_STICK_READ :: int where
  "OP_MEMORY_STICK_READ \<equiv> 63"

abbreviation (input) OP_MEMORY_STICK_WRITE :: int where
  "OP_MEMORY_STICK_WRITE \<equiv> 64"

abbreviation (input) OP_MEMORY_STICK_READ_DONE :: int where
  "OP_MEMORY_STICK_READ_DONE \<equiv> 65"

abbreviation (input) OP_MEMORY_STICK_WRITE_DONE :: int where
  "OP_MEMORY_STICK_WRITE_DONE \<equiv> 66"

abbreviation (input) OP_INFO_SWAP :: int where
  "OP_INFO_SWAP \<equiv> 67"

abbreviation (input) OP_DISK_WRITE :: int where
  "OP_DISK_WRITE \<equiv> 68"

abbreviation (input) OP_DISK_READ :: int where
  "OP_DISK_READ \<equiv> 69"

abbreviation (input) OP_DISK_WRITE_DONE :: int where
  "OP_DISK_WRITE_DONE \<equiv> 70"

abbreviation (input) OP_DISK_READ_DONE :: int where
  "OP_DISK_READ_DONE \<equiv> 71"

datatype t_module_id =
    MID_KERNEL_SCHEDULER | MID_KERNEL_MEMORY | MID_CPU | MID_MEMORY_STICK
  | MID_SWAP | MID_IO | MID_MODULE_ID_ERROR

definition HANDSHAKE_MSG :: "(string \<times> t_module_id) list" where
  "HANDSHAKE_MSG =
     [(''kernel_scheduler'', MID_KERNEL_SCHEDULER), (''kernel_memory'', MID_KERNEL_MEMORY),
      (''cpu'', MID_CPU), (''memory_stick'', MID_MEMORY_STICK), (''swap'', MID_SWAP), (''io'', MID_IO)]"

subsection \<open>Values in memory\<close>

definition u32_bytes :: "u32 \<Rightarrow> bytes" where
  "u32_bytes w = map (\<lambda>k. word_of_int (uint w div 256 ^ k)) [0, 1, 2, 3]"

definition bytes_u32 :: "bytes \<Rightarrow> u32" where
  "bytes_u32 bs = word_of_int (horner_sum uint 256 (take 4 bs))"

definition int_bytes :: "int \<Rightarrow> bytes" where
  "int_bytes i = u32_bytes (to_u32 i)"

definition bytes_int :: "bytes \<Rightarrow> int" where
  "bytes_int bs = to_int (bytes_u32 bs)"

definition c_string :: "string \<Rightarrow> bytes" where
  "c_string s = map of_char s @ [0]"

definition string_of_bytes :: "bytes \<Rightarrow> string" where
  "string_of_bytes bs = map (\<lambda>b. char_of (unat b)) (takeWhile (\<lambda>b. b \<noteq> 0) bs)"

subsection \<open>Packets\<close>

record t_buffer =
  b_size :: int
  b_stream :: bytes

record t_packet =
  p_op_code :: int
  p_buffer :: t_buffer

definition create_buffer :: t_buffer where
  "create_buffer = \<lparr>b_size = 0, b_stream = []\<rparr>"

definition create_packet :: "int \<Rightarrow> t_packet" where
  "create_packet op_code = \<lparr>p_op_code = op_code, p_buffer = create_buffer\<rparr>"

definition packet_append :: "t_packet \<Rightarrow> bytes \<Rightarrow> t_packet" where
  "packet_append packet value =
     (let b = p_buffer packet; sz = int (length value)
      in packet\<lparr>p_buffer := \<lparr>b_size = b_size b + (sz + 4),
                             b_stream = b_stream b @ int_bytes sz @ value\<rparr>\<rparr>)"

definition packet_append_string :: "t_packet \<Rightarrow> string \<Rightarrow> t_packet" where
  "packet_append_string packet value = packet_append packet (c_string value)"

definition serialize_packet :: "t_packet \<Rightarrow> bytes" where
  "serialize_packet packet =
     int_bytes (p_op_code packet) @ int_bytes (b_size (p_buffer packet)) @ b_stream (p_buffer packet)"

text \<open>The bytes the sending functions put on the socket.\<close>

definition send_packet :: "t_packet \<Rightarrow> bytes" where
  "send_packet packet = serialize_packet packet"

definition send_buffer :: "int \<Rightarrow> bytes \<Rightarrow> bytes" where
  "send_buffer op_code buffer =
     serialize_packet \<lparr>p_op_code = op_code,
       p_buffer = \<lparr>b_size = int (length buffer), b_stream = buffer\<rparr>\<rparr>"

definition send_string :: "int \<Rightarrow> string \<Rightarrow> bytes" where
  "send_string op_code message =
     serialize_packet \<lparr>p_op_code = op_code,
       p_buffer = \<lparr>b_size = int (length message) + 1, b_stream = c_string message\<rparr>\<rparr>"

subsection \<open>Receiving\<close>

text \<open>
  \<open>socket_receive\<close> of \<open>n\<close> bytes: all of them, or failure once the peer has closed. A peer that closes inside
  the value is taken for one that closed before it; \<open>Sockets\<close> says what the code does there.
\<close>

definition socket_receive :: "bytes \<Rightarrow> nat \<Rightarrow> (bytes \<times> bytes) option" where
  "socket_receive stream n =
     (if n \<le> length stream then Some (take n stream, drop n stream) else None)"

definition receive_op_code :: "bytes \<Rightarrow> int \<times> bytes" where
  "receive_op_code stream =
     (case socket_receive stream 4 of
        Some (bs, rest) \<Rightarrow> (bytes_int bs, rest)
      | None \<Rightarrow> (OP_CODE_ERROR, []))"

text \<open>
  The buffer (\<open>None\<close> for \<open>NULL\<close>), the size and the rest of the stream. The second
  receive is not checked by the code: when the peer closes inside the payload the buffer
  has undefined contents.
\<close>

definition receive_buffer :: "bytes \<Rightarrow> (bytes option \<times> int \<times> bytes) option" where
  "receive_buffer stream =
     (case socket_receive stream 4 of
        None \<Rightarrow> Some (None, 0, [])
      | Some (bs, rest) \<Rightarrow>
          (let sz = bytes_int bs
           in if sz = 0 then Some (None, 0, rest)
              else if sz < 0 then None
              else case socket_receive rest (nat sz) of
                     None \<Rightarrow> None
                   | Some (buffer, rest') \<Rightarrow> Some (Some buffer, sz, rest')))"

definition receive_string :: "bytes \<Rightarrow> (bytes option \<times> bytes) option" where
  "receive_string stream = map_option (\<lambda>(buffer, sz, rest). (buffer, rest)) (receive_buffer stream)"

text \<open>
  The loop of \<open>receive_packet\<close> on what is left of the buffer at the current offset. An
  element size of 0 leaves the loop.
\<close>

function packet_values :: "bytes \<Rightarrow> bytes list option" where
  "packet_values buffer =
     (if buffer = [] then Some []
      else if length buffer < 4 then None
      else (let element_size = bytes_int (take 4 buffer); rest = drop 4 buffer
            in if element_size = 0 then Some []
               else if element_size < 0 \<or> int (length rest) < element_size then None
               else map_option (Cons (take (nat element_size) rest))
                      (packet_values (drop (nat element_size) rest))))"
  by pat_completeness auto
termination
  by (relation "measure length") auto

declare packet_values.simps [simp del]

definition receive_packet :: "bytes \<Rightarrow> (bytes list \<times> bytes) option" where
  "receive_packet stream =
     (case receive_buffer stream of
        None \<Rightarrow> None
      | Some (buffer, sz, rest) \<Rightarrow>
          map_option (\<lambda>values. (values, rest)) (packet_values (case buffer of None \<Rightarrow> [] | Some b \<Rightarrow> b)))"

fun strcmp_index :: "(string \<times> t_module_id) list \<Rightarrow> string \<Rightarrow> t_module_id" where
  "strcmp_index [] msg = MID_MODULE_ID_ERROR"
| "strcmp_index ((name, mid) # rest) msg = (if msg = name then mid else strcmp_index rest msg)"

definition handshake_msg_to_module_id :: "string \<Rightarrow> t_module_id" where
  "handshake_msg_to_module_id handshake_msg = strcmp_index HANDSHAKE_MSG handshake_msg"

fun handshake_name :: "(string \<times> t_module_id) list \<Rightarrow> t_module_id \<Rightarrow> string option" where
  "handshake_name [] mid = None"
| "handshake_name ((name, m) # rest) mid = (if m = mid then Some name else handshake_name rest mid)"

definition send_handshake :: "t_module_id \<Rightarrow> bytes option" where
  "send_handshake module_id =
     map_option (send_string OP_HANDSHAKE) (handshake_name HANDSHAKE_MSG module_id)"

definition receive_handshake :: "bytes \<Rightarrow> (t_module_id \<times> bytes) option" where
  "receive_handshake stream =
     (case receive_op_code stream of
        (op, rest) \<Rightarrow>
          (if op \<noteq> OP_HANDSHAKE then Some (MID_MODULE_ID_ERROR, rest)
           else case receive_string rest of
                  Some (Some msg, rest') \<Rightarrow> Some (handshake_msg_to_module_id (string_of_bytes msg), rest')
                | _ \<Rightarrow> None))"


subsection \<open>Round trips\<close>

lemma length_int_bytes [simp]: "length (int_bytes i) = 4" "length (u32_bytes w) = 4"
  by (simp_all add: int_bytes_def u32_bytes_def)

lemma base256:
  fixes n :: int
  assumes "0 \<le> n" "n < 2 ^ 32"
  shows "n mod 256 + 256 * (n div 256 mod 256 + 256 * (n div 256 div 256 mod 256
    + 256 * (n div 256 div 256 div 256 mod 256))) = n"
proof -
  have "n div 256 div 256 div 256 mod 256 = n div 256 div 256 div 256"
    using assms by (simp add: zdiv_zmult2_eq [symmetric])
  then show ?thesis by (simp only: mod_mult_div_eq)
qed

lemma bytes_u32_bytes: "bytes_u32 (u32_bytes w @ rest) = w"
proof -
  have bound: "uint w < 2 ^ 32" using uint_lt2p [of w] by simp
  have take: "take 4 (u32_bytes w @ rest) = u32_bytes w"
    by simp
  have "map uint (u32_bytes w) = [uint w mod 256, uint w div 256 mod 256,
      uint w div 256 div 256 mod 256, uint w div 256 div 256 div 256 mod 256]"
    by (simp add: u32_bytes_def uint_word_of_int zdiv_zmult2_eq [symmetric]
        unsigned_ucast_eq take_bit_eq_mod)
  moreover have "horner_sum uint 256 (u32_bytes w) = horner_sum id 256 (map uint (u32_bytes w))"
    by (simp add: horner_sum_foldr foldr_map comp_def)
  ultimately have "horner_sum uint 256 (u32_bytes w) = uint w"
    using base256 [of "uint w"] bound by simp
  then show ?thesis by (simp only: bytes_u32_def take word_of_int_uint)
qed

lemma bytes_int_bytes: "in_int i \<Longrightarrow> bytes_int (int_bytes i @ rest) = i"
  by (simp add: bytes_int_def int_bytes_def bytes_u32_bytes to_int_to_u32)

lemma socket_receive_append [simp]:
  "length bs = n \<Longrightarrow> socket_receive (bs @ rest) n = Some (bs, rest)"
  by (simp add: socket_receive_def)

lemma receive_op_code_bytes:
  "in_int op \<Longrightarrow> receive_op_code (int_bytes op @ rest) = (op, rest)"
  using bytes_int_bytes [of op "[]"] by (simp add: receive_op_code_def)

lemma receive_buffer_bytes:
  assumes "buffer \<noteq> []" "int (length buffer) \<le> INT_MAX"
  shows "receive_buffer (int_bytes (int (length buffer)) @ buffer @ rest) =
    Some (Some buffer, int (length buffer), rest)"
proof -
  have "in_int (int (length buffer))" using assms by (simp add: in_int_def)
  then have "bytes_int (int_bytes (int (length buffer))) = int (length buffer)"
    using bytes_int_bytes [of "int (length buffer)" "[]"] by simp
  then show ?thesis using assms(1) by (simp add: receive_buffer_def)
qed

text \<open>The payload a sequence of appends builds.\<close>

definition encode_values :: "bytes list \<Rightarrow> bytes" where
  "encode_values vs = concat (map (\<lambda>v. int_bytes (int (length v)) @ v) vs)"

definition packet_appends :: "t_packet \<Rightarrow> bytes list \<Rightarrow> t_packet" where
  "packet_appends packet vs = foldl packet_append packet vs"

lemma packet_appends_buffer:
  "b_size (p_buffer p) = int (length (b_stream (p_buffer p))) \<Longrightarrow>
   p_op_code (packet_appends p vs) = p_op_code p
   \<and> b_stream (p_buffer (packet_appends p vs)) = b_stream (p_buffer p) @ encode_values vs
   \<and> b_size (p_buffer (packet_appends p vs)) =
       int (length (b_stream (p_buffer p) @ encode_values vs))"
  by (induction vs arbitrary: p) (simp_all add: packet_appends_def encode_values_def packet_append_def Let_def)

lemma packet_values_encode:
  assumes "\<forall>v \<in> set vs. v \<noteq> [] \<and> int (length v) \<le> INT_MAX"
  shows "packet_values (encode_values vs) = Some vs"
  using assms
proof (induction vs)
  case Nil
  show ?case by (simp add: encode_values_def packet_values.simps)
next
  case (Cons v vs)
  then have v: "v \<noteq> []" "in_int (int (length v))" by (auto simp: in_int_def)
  have enc: "encode_values (v # vs) = int_bytes (int (length v)) @ v @ encode_values vs"
    by (simp add: encode_values_def)
  have ne: "int_bytes (int (length v)) \<noteq> []"
    by (metis length_int_bytes(1) list.size(3) zero_neq_numeral)
  have "bytes_int (int_bytes (int (length v))) = int (length v)"
    using bytes_int_bytes [OF v(2), of "[]"] by simp
  with v ne Cons show ?case
    by (subst packet_values.simps) (simp add: enc)
qed

lemma receive_packet_send:
  assumes "vs \<noteq> []" "\<forall>v \<in> set vs. v \<noteq> []" "int (length (encode_values vs)) \<le> INT_MAX" "in_int op"
  shows "\<exists>body. send_packet (packet_appends (create_packet op) vs) @ rest = int_bytes op @ body
    \<and> receive_packet body = Some (vs, rest)"
proof -
  have len: "int (length v) \<le> INT_MAX" if "v \<in> set vs" for v
  proof -
    from that have "length v \<le> length (encode_values vs)"
      by (induction vs) (auto simp: encode_values_def)
    with assms(3) show ?thesis by simp
  qed
  have ne: "encode_values vs \<noteq> []"
    using assms(1,2) by (cases vs) (auto simp: encode_values_def)
  let ?p = "packet_appends (create_packet op) vs"
  have p: "p_op_code ?p = op" "b_stream (p_buffer ?p) = encode_values vs"
      "b_size (p_buffer ?p) = int (length (encode_values vs))"
    using packet_appends_buffer [of "create_packet op" vs]
    by (simp_all add: create_packet_def create_buffer_def)
  have "receive_packet (int_bytes (int (length (encode_values vs))) @ encode_values vs @ rest) = Some (vs, rest)"
    using assms len by (simp add: receive_packet_def receive_buffer_bytes [OF ne assms(3)] packet_values_encode)
  with p show ?thesis by (simp add: send_packet_def serialize_packet_def)
qed

lemma char_of_of_char [simp]: "char_of (unat (of_char c :: u8)) = c"
proof -
  have "unat (of_char c :: u8) = unat (of_nat (of_char c) :: u8)"
    by (simp only: of_nat_of_char)
  also have "\<dots> = of_char c"
    by (simp add: unat_of_nat)
  finally show ?thesis by simp
qed


lemma of_char_u8_eq_0_iff: "(of_char c :: u8) = 0 \<longleftrightarrow> c = CHR 0x00"
  using char_of_of_char [of c] char_of_of_char [of "CHR 0x00"] by (auto simp del: char_of_of_char)

lemma string_of_c_string:
  assumes "CHR 0x00 \<notin> set s"
  shows "string_of_bytes (c_string s) = s"
proof -
  from assms have "takeWhile (\<lambda>b. b \<noteq> 0) (c_string s) = map of_char s"
    by (induction s) (auto simp: c_string_def of_char_u8_eq_0_iff)
  then show ?thesis by (simp add: string_of_bytes_def comp_def)
qed

lemma receive_string_send:
  assumes "int (length s) < INT_MAX" "in_int op"
  shows "receive_op_code (send_string op s @ rest) = (op, int_bytes (int (length s) + 1) @ c_string s @ rest)"
    and "receive_string (int_bytes (int (length s) + 1) @ c_string s @ rest) = Some (Some (c_string s), rest)"
proof -
  show "receive_op_code (send_string op s @ rest) = (op, int_bytes (int (length s) + 1) @ c_string s @ rest)"
    using assms(2) by (simp add: send_string_def serialize_packet_def receive_op_code_bytes)
  have "int (length (c_string s)) = int (length s) + 1" by (simp add: c_string_def)
  moreover have "c_string s \<noteq> []" by (simp add: c_string_def)
  ultimately show "receive_string (int_bytes (int (length s) + 1) @ c_string s @ rest) = Some (Some (c_string s), rest)"
    using receive_buffer_bytes [of "c_string s" rest] assms(1)
    by (simp add: receive_string_def)
qed

lemma receive_handshake_send:
  assumes "send_handshake mid = Some bs"
  shows "receive_handshake (bs @ rest) = Some (mid, rest)"
proof -
  obtain name where name: "handshake_name HANDSHAKE_MSG mid = Some name" "bs = send_string OP_HANDSHAKE name"
    using assms by (auto simp: send_handshake_def)
  have ok: "CHR 0x00 \<notin> set name" "int (length name) < INT_MAX" "handshake_msg_to_module_id name = mid"
    using name(1) by (auto simp: HANDSHAKE_MSG_def handshake_msg_to_module_id_def INT_MAX_def split: if_splits)
  have "in_int OP_HANDSHAKE" by (simp add: in_int_def INT_MAX_def)
  from receive_string_send [OF ok(2) this] ok show ?thesis
    by (simp add: receive_handshake_def name(2) string_of_c_string)
qed

end
