(* ===== verification/Dictionary.thy ===== *)
theory Dictionary
  imports Prelude
begin

section \<open>The string dictionary of utils/collections/dictionary.c\<close>

text \<open>
  A hash table of 20 buckets with chaining and the Jenkins one-at-a-time hash. Every module
  keeps its configuration in one; the CPU looks up the instruction handlers and the Kernel
  Scheduler its mutexes in it. The locale \<open>string_map\<close> is what the clients rely on and the
  interpretation \<open>dictionary\<close> shows that the buckets provide it.
\<close>

unbundle bit_operations_syntax

record 'a t_hash_element =
  he_key :: string
  he_hashcode :: u32
  he_data :: 'a

record 'a t_dictionary =
  elements :: "'a t_hash_element list list"
  table_size :: nat
  elements_amount :: int

abbreviation (input) DICTIONARY_INITIAL_SIZE :: nat where
  "DICTIONARY_INITIAL_SIZE \<equiv> 20"

definition hash_step :: "u32 \<Rightarrow> char \<Rightarrow> u32" where
  "hash_step h c =
     (let h1 = h + of_char c; h2 = h1 + push_bit 10 h1 in h2 XOR drop_bit 6 h2)"

definition dictionary_hash :: "string \<Rightarrow> u32" where
  "dictionary_hash key =
     (let h = foldl hash_step 0 key; h1 = h + push_bit 3 h; h2 = h1 XOR drop_bit 11 h1
      in h2 + push_bit 15 h2)"

definition dictionary_create :: "'a t_dictionary" where
  "dictionary_create =
     \<lparr>elements = replicate DICTIONARY_INITIAL_SIZE [], table_size = DICTIONARY_INITIAL_SIZE, elements_amount = 0\<rparr>"

definition bucket_index :: "'a t_dictionary \<Rightarrow> u32 \<Rightarrow> nat" where
  "bucket_index self hashcode = unat hashcode mod table_size self"

definition element_matches :: "string \<Rightarrow> 'a t_hash_element \<Rightarrow> bool" where
  "element_matches key e \<longleftrightarrow> he_hashcode e = dictionary_hash key \<and> he_key e = key"

definition dictionary_find :: "'a t_dictionary \<Rightarrow> string \<Rightarrow> 'a t_hash_element option" where
  "dictionary_find self key =
     find (element_matches key) (elements self ! bucket_index self (dictionary_hash key))"

fun assign_data :: "string \<Rightarrow> 'a \<Rightarrow> 'a t_hash_element list \<Rightarrow> 'a t_hash_element list" where
  "assign_data key v [] = []"
| "assign_data key v (e # es) =
     (if element_matches key e then e\<lparr>he_data := v\<rparr> # es else e # assign_data key v es)"

definition dictionary_put :: "'a t_dictionary \<Rightarrow> string \<Rightarrow> 'a \<Rightarrow> 'a t_dictionary" where
  "dictionary_put self key v =
     (let index = bucket_index self (dictionary_hash key); bucket = elements self ! index
      in if dictionary_find self key \<noteq> None
         then self\<lparr>elements := (elements self)[index := assign_data key v bucket]\<rparr>
         else self\<lparr>elements := (elements self)[index :=
                     \<lparr>he_key = key, he_hashcode = dictionary_hash key, he_data = v\<rparr> # bucket],
                   elements_amount := elements_amount self + 1\<rparr>)"

definition dictionary_get :: "'a t_dictionary \<Rightarrow> string \<Rightarrow> 'a option" where
  "dictionary_get self key = map_option he_data (dictionary_find self key)"

definition dictionary_has_key :: "'a t_dictionary \<Rightarrow> string \<Rightarrow> bool" where
  "dictionary_has_key self key \<longleftrightarrow> dictionary_find self key \<noteq> None"

text \<open>What \<open>data_destroyer\<close> is called on, in order, and the emptied table.\<close>

definition dictionary_clean :: "'a t_dictionary \<Rightarrow> 'a t_dictionary \<times> 'a list" where
  "dictionary_clean self =
     (self\<lparr>elements := replicate (table_size self) [], elements_amount := 0\<rparr>,
      map he_data (concat (elements self)))"

subsection \<open>The table is a finite map\<close>

definition bucket_ok :: "'a t_dictionary \<Rightarrow> nat \<Rightarrow> 'a t_hash_element list \<Rightarrow> bool" where
  "bucket_ok self i es \<longleftrightarrow> distinct (map he_key es)
     \<and> (\<forall>e \<in> set es. he_hashcode e = dictionary_hash (he_key e) \<and> bucket_index self (he_hashcode e) = i)"

definition dict_inv :: "'a t_dictionary \<Rightarrow> bool" where
  "dict_inv self \<longleftrightarrow> 0 < table_size self \<and> length (elements self) = table_size self
     \<and> (\<forall>i < table_size self. bucket_ok self i (elements self ! i))
     \<and> elements_amount self = int (length (concat (elements self)))"

lemma bucket_index_less: "dict_inv self \<Longrightarrow> bucket_index self h < length (elements self)"
  by (simp add: dict_inv_def bucket_index_def)

lemma matches_simps:
  "element_matches key (e\<lparr>he_data := v\<rparr>) = element_matches key e"
  "element_matches key \<lparr>he_key = k, he_hashcode = dictionary_hash k, he_data = v\<rparr> \<longleftrightarrow> key = k"
  by (auto simp: element_matches_def)

lemma matches_unique: "element_matches key e \<Longrightarrow> element_matches k e \<longleftrightarrow> k = key"
  by (auto simp: element_matches_def)

lemma find_assign_data:
  "find (element_matches k) (assign_data key v es) =
     (if k = key then map_option (\<lambda>e. e\<lparr>he_data := v\<rparr>) (find (element_matches key) es)
      else find (element_matches k) es)"
  by (induction es) (auto simp: matches_simps matches_unique)

lemma assign_data_keys: "map he_key (assign_data key v es) = map he_key es"
  by (induction es) auto

lemma assign_data_hashes: "map he_hashcode (assign_data key v es) = map he_hashcode es"
  by (induction es) auto

lemma bucket_ok_assign:
  assumes "bucket_ok self i es"
  shows "bucket_ok self i (assign_data key v es)"
proof -
  have "\<forall>e \<in> set (assign_data key v es). \<exists>e' \<in> set es. he_key e = he_key e' \<and> he_hashcode e = he_hashcode e'"
    by (induction es) (auto split: if_splits)
  with assms show ?thesis by (fastforce simp: bucket_ok_def assign_data_keys)
qed

lemma find_None_key: "bucket_ok self i es \<Longrightarrow> find (element_matches key) es = None \<Longrightarrow> key \<notin> he_key ` set es"
  by (auto simp: find_None_iff element_matches_def bucket_ok_def)

lemma bucket_ok_cong: "table_size d = table_size d' \<Longrightarrow> bucket_ok d i es = bucket_ok d' i es"
  by (simp add: bucket_ok_def bucket_index_def)

lemma bucket_ok_add:
  assumes "bucket_ok self i es" "find (element_matches key) es = None" "i = bucket_index self (dictionary_hash key)"
  shows "bucket_ok self i (\<lparr>he_key = key, he_hashcode = dictionary_hash key, he_data = v\<rparr> # es)"
  using find_None_key [OF assms(1,2)] assms by (auto simp: bucket_ok_def)

definition put_bucket :: "string \<Rightarrow> 'a \<Rightarrow> 'a t_hash_element list \<Rightarrow> 'a t_hash_element list" where
  "put_bucket key v es =
     (if find (element_matches key) es \<noteq> None then assign_data key v es
      else \<lparr>he_key = key, he_hashcode = dictionary_hash key, he_data = v\<rparr> # es)"

lemma dictionary_put_fields:
  "elements (dictionary_put self key v) =
     (elements self)[bucket_index self (dictionary_hash key) :=
        put_bucket key v (elements self ! bucket_index self (dictionary_hash key))]"
  "table_size (dictionary_put self key v) = table_size self"
  "bucket_index (dictionary_put self key v) = bucket_index self"
  by (auto simp: dictionary_put_def put_bucket_def dictionary_find_def bucket_index_def Let_def fun_eq_iff)

lemma find_put_bucket:
  "map_option he_data (find (element_matches k) (put_bucket key v es)) =
     (if k = key then Some v else map_option he_data (find (element_matches k) es))"
  by (auto simp: put_bucket_def find_assign_data matches_simps)

lemma dictionary_find_put:
  assumes "dict_inv self"
  shows "dictionary_get (dictionary_put self key v) k = (if k = key then Some v else dictionary_get self k)"
  using bucket_index_less [OF assms]
  by (cases "bucket_index self (dictionary_hash k) = bucket_index self (dictionary_hash key)")
    (auto simp: dictionary_get_def dictionary_find_def dictionary_put_fields find_put_bucket)

lemma length_assign_data [simp]: "length (assign_data key v es) = length es"
  by (metis assign_data_keys length_map)

lemma length_concat_update:
  "i < length xss \<Longrightarrow> length (concat (xss[i := ys])) + length (xss ! i) = length (concat xss) + length ys"
  by (induction xss arbitrary: i) (auto simp: less_Suc_eq_0_disj)

lemma dict_inv_put:
  assumes "dict_inv self"
  shows "dict_inv (dictionary_put self key v)"
proof -
  let ?i = "bucket_index self (dictionary_hash key)"
  have i: "?i < length (elements self)" using bucket_index_less [OF assms] .
  have ok: "bucket_ok self ?i (elements self ! ?i)" using assms i by (simp add: dict_inv_def)
  have upd: "dict_inv (self\<lparr>elements := (elements self)[?i := es], elements_amount := n\<rparr>)"
    if "bucket_ok self ?i es" "n + int (length (elements self ! ?i)) = elements_amount self + int (length es)" for es n
  proof -
    have "int (length (concat ((elements self)[?i := es]))) = n"
      using length_concat_update [OF i, of es] that(2) assms by (simp add: dict_inv_def)
    moreover have "bucket_ok self j ((elements self)[?i := es] ! j)" if "j < table_size self" for j
      using assms \<open>bucket_ok self ?i es\<close> that by (cases "j = ?i") (simp_all add: dict_inv_def)
    moreover have "bucket_ok (self\<lparr>elements := (elements self)[?i := es], elements_amount := n\<rparr>) = bucket_ok self"
      by (intro ext bucket_ok_cong) simp
    ultimately show ?thesis
      using assms by (simp add: dict_inv_def)
  qed
  show ?thesis
  proof (cases "dictionary_find self key")
    case None
    then show ?thesis
      using upd [OF bucket_ok_add [OF ok _ refl], of "elements_amount self + 1" v]
      by (simp add: dictionary_put_def dictionary_find_def Let_def)
  next
    case (Some e)
    then show ?thesis
      using upd [OF bucket_ok_assign [OF ok], of "elements_amount self" key v]
      by (simp add: dictionary_put_def Let_def)
  qed
qed

locale string_map =
  fixes empty :: 'd
    and put :: "'d \<Rightarrow> string \<Rightarrow> 'v \<Rightarrow> 'd"
    and lookup :: "'d \<Rightarrow> string \<Rightarrow> 'v option"
    and ok :: "'d \<Rightarrow> bool"
  assumes ok_empty: "ok empty"
    and ok_put: "ok d \<Longrightarrow> ok (put d k v)"
    and lookup_empty: "lookup empty k = None"
    and lookup_put: "ok d \<Longrightarrow> lookup (put d k v) k' = (if k' = k then Some v else lookup d k')"
begin

lemma ok_puts: "ok d \<Longrightarrow> ok (foldl (\<lambda>d (k, v). put d k v) d kvs)"
  by (induction kvs arbitrary: d) (auto intro: ok_put)

lemma lookup_puts:
  "ok d \<Longrightarrow> lookup (foldl (\<lambda>d (k, v). put d k v) d kvs) k =
     (case map_of (rev kvs) k of None \<Rightarrow> lookup d k | Some v \<Rightarrow> Some v)"
proof (induction kvs rule: rev_induct)
  case (snoc kv kvs)
  then show ?case by (cases kv) (simp add: lookup_put ok_puts)
qed simp

lemma table_lookup: "lookup (foldl (\<lambda>d (k, v). put d k v) empty kvs) k = map_of (rev kvs) k"
  by (simp add: lookup_puts ok_empty lookup_empty split: option.split)

end

interpretation dictionary: string_map dictionary_create dictionary_put dictionary_get dict_inv
proof unfold_locales
  show "dict_inv dictionary_create"
    by (simp add: dict_inv_def dictionary_create_def bucket_ok_def)
  show "dictionary_get dictionary_create k = None" for k
    by (simp add: dictionary_get_def dictionary_find_def dictionary_create_def bucket_index_def)
qed (simp_all add: dict_inv_put dictionary_find_put)

end
