(* ===== verification/Strings.thy ===== *)
theory Strings
  imports Dictionary
begin

section \<open>Strings and configuration files: utils/string.c, utils/file.c and utils/config.c\<close>

text \<open>
  C strings are HOL strings without a NUL character. \<open>string_split\<close> runs a loop that does
  not end for an empty separator, so it is a partial function with \<open>None\<close> for not returning;
  the lemmas show that it returns for every other separator. A configuration file is the
  string of its contents; the values end up in a \<open>t_dictionary\<close>.
\<close>

subsection \<open>The C library functions used\<close>

definition isspace :: "char \<Rightarrow> bool" where
  "isspace c \<longleftrightarrow> c \<in> {CHR '' '', CHR 0x09, CHR 0x0A, CHR 0x0B, CHR 0x0C, CHR 0x0D}"

definition isdigit :: "char \<Rightarrow> bool" where
  "isdigit c \<longleftrightarrow> (of_char c :: nat) \<in> {48..57}"

definition digits_value :: "string \<Rightarrow> int" where
  "digits_value ds = foldl (\<lambda>n c. 10 * n + (of_char c - 48)) 0 ds"

text \<open>\<open>atoi\<close>: the result is undefined when the number does not fit an \<open>int\<close>.\<close>

definition atoi :: "string \<Rightarrow> int" where
  "atoi s =
     (let t = dropWhile isspace s
      in case t of
           [] \<Rightarrow> 0
         | c # cs \<Rightarrow>
             if c = CHR ''-'' then - digits_value (takeWhile isdigit cs)
             else if c = CHR ''+'' then digits_value (takeWhile isdigit cs)
             else digits_value (takeWhile isdigit t))"

fun strstr :: "string \<Rightarrow> string \<Rightarrow> nat option" where
  "strstr text sep =
     (if take (length sep) text = sep then Some 0
      else case text of [] \<Rightarrow> None | c # cs \<Rightarrow> map_option Suc (strstr cs sep))"

declare strstr.simps [simp del]

text \<open>\<open>snprintf\<close> with \<open>%u\<close>.\<close>

fun show_nat :: "nat \<Rightarrow> string" where
  "show_nat n = (if n < 10 then [char_of (48 + n)] else show_nat (n div 10) @ [char_of (48 + n mod 10)])"

declare show_nat.simps [simp del]

definition to_lower :: "char \<Rightarrow> char" where
  "to_lower c = (let n = (of_char c :: nat) in if 65 \<le> n \<and> n \<le> 90 then char_of (n + 32) else c)"

subsection \<open>string.c\<close>

definition string_duplicate :: "string option \<Rightarrow> string option" where
  "string_duplicate original = (case original of None \<Rightarrow> None | Some s \<Rightarrow> Some s)"

definition string_is_empty :: "string option \<Rightarrow> bool" where
  "string_is_empty text = (case text of None \<Rightarrow> True | Some s \<Rightarrow> s = [])"

definition string_starts_with :: "string \<Rightarrow> string \<Rightarrow> bool" where
  "string_starts_with text prefix \<longleftrightarrow> take (length prefix) text = prefix"

definition string_equals_ignore_case :: "string \<Rightarrow> string \<Rightarrow> bool" where
  "string_equals_ignore_case a b \<longleftrightarrow> map to_lower a = map to_lower b"

definition string_trim :: "string \<Rightarrow> string" where
  "string_trim text = (let start = dropWhile isspace text in rev (dropWhile isspace (rev start)))"

partial_function (option) split_loop :: "string \<Rightarrow> string \<Rightarrow> string list \<Rightarrow> string list option" where
  "split_loop sep start substrings =
     (case strstr start sep of
        None \<Rightarrow> Some (substrings @ [start])
      | Some k \<Rightarrow> split_loop sep (drop (k + length sep) start) (substrings @ [take k start]))"

declare split_loop.simps [code]

definition string_split :: "string \<Rightarrow> string \<Rightarrow> string list option" where
  "string_split text separator = split_loop separator text []"

definition string_get_string_as_array :: "string option \<Rightarrow> string list option" where
  "string_get_string_as_array text =
     (case text of
        None \<Rightarrow> Some []
      | Some s \<Rightarrow>
          (let inner_length = (if length s \<ge> 2 then length s - 2 else 0)
           in if inner_length = 0 then Some []
              else map_option (map string_trim) (string_split (take inner_length (drop 1 s)) '','')))"

subsection \<open>file.c\<close>

text \<open>The line read, without its newline, and what is left of the file.\<close>

definition file_read_line :: "string \<Rightarrow> (string \<times> string) option" where
  "file_read_line file =
     (if file = [] then None
      else Some (takeWhile (\<lambda>c. c \<noteq> CHR 0x0A) file, drop 1 (dropWhile (\<lambda>c. c \<noteq> CHR 0x0A) file)))"

subsection \<open>config.c\<close>

type_synonym t_config = "string t_dictionary"

definition config_load_line :: "t_config \<Rightarrow> string \<Rightarrow> t_config" where
  "config_load_line self line =
     (let trimmed = string_trim line
      in if string_is_empty (Some trimmed) \<or> string_starts_with trimmed ''#'' then self
         else if CHR ''='' \<notin> set trimmed then self
         else (let key = takeWhile (\<lambda>c. c \<noteq> CHR ''='') trimmed;
                   val = drop 1 (dropWhile (\<lambda>c. c \<noteq> CHR ''='') trimmed)
               in dictionary_put self (string_trim key) (string_trim val)))"

function config_load_lines :: "t_config \<Rightarrow> string \<Rightarrow> t_config" where
  "config_load_lines self file =
     (case file_read_line file of
        None \<Rightarrow> self
      | Some (line, rest) \<Rightarrow> config_load_lines (config_load_line self line) rest)"
  by pat_completeness auto
termination
proof (relation "measure (length \<circ> snd)")
  fix self :: t_config and contents x line rest
  assume "file_read_line contents = Some x" "(line, rest) = x"
  then have "contents \<noteq> []" "rest = drop 1 (dropWhile (\<lambda>c. c \<noteq> CHR 0x0A) contents)"
    by (auto simp: file_read_line_def split: if_splits)
  moreover have "length (dropWhile (\<lambda>c. c \<noteq> CHR 0x0A) contents) \<le> length contents"
    by (rule length_dropWhile_le)
  ultimately show "((config_load_line self line, rest), (self, contents)) \<in> measure (length \<circ> snd)"
    by (cases contents) auto
qed simp

declare config_load_lines.simps [simp del]

text \<open>\<open>None\<close> when the file cannot be opened.\<close>

definition config_create :: "string option \<Rightarrow> t_config option" where
  "config_create contents = map_option (config_load_lines dictionary_create) contents"

definition config_get_string_value :: "t_config \<Rightarrow> string \<Rightarrow> string option" where
  "config_get_string_value self key = dictionary_get self key"

text \<open>\<open>atoi\<close> of \<open>NULL\<close> for a missing key is a crash, here \<open>None\<close>.\<close>

definition config_get_int_value :: "t_config \<Rightarrow> string \<Rightarrow> int option" where
  "config_get_int_value self key = map_option atoi (config_get_string_value self key)"

definition config_get_array_value :: "t_config \<Rightarrow> string \<Rightarrow> string list option" where
  "config_get_array_value self key = string_get_string_as_array (config_get_string_value self key)"

subsection \<open>Splitting\<close>

fun string_join :: "string \<Rightarrow> string list \<Rightarrow> string" where
  "string_join sep [] = []"
| "string_join sep [p] = p"
| "string_join sep (p # ps) = p @ sep @ string_join sep ps"

lemma string_join_Cons: "ps \<noteq> [] \<Longrightarrow> string_join sep (p # ps) = p @ sep @ string_join sep ps"
  by (cases ps) simp_all

lemma strstr_Some:
  "strstr t sep = Some k \<Longrightarrow> k + length sep \<le> length t
     \<and> t = take k t @ sep @ drop (k + length sep) t"
proof (induction t arbitrary: k)
  case Nil
  then show ?case by (simp add: strstr.simps split: if_splits)
next
  case (Cons c t)
  show ?case
  proof (cases "take (length sep) (c # t) = sep")
    case True
    with Cons.prems have "k = 0" by (simp add: strstr.simps)
    with True show ?thesis
      by (metis add_0 append_take_drop_id append.left_neutral length_take min.cobounded1 take0)
  next
    case False
    with Cons.prems obtain j where "strstr t sep = Some j" "k = Suc j"
      by (subst (asm) strstr.simps) auto
    with Cons.IH show ?thesis by auto
  qed
qed

lemma split_loop_returns:
  assumes "sep \<noteq> []"
  shows "\<exists>ps. split_loop sep t acc = Some (acc @ ps) \<and> ps \<noteq> [] \<and> string_join sep ps = t"
proof (induction t arbitrary: acc rule: length_induct)
  case (1 t)
  show ?case
  proof (cases "strstr t sep")
    case None
    then show ?thesis by (intro exI [of _ "[t]"]) (simp add: split_loop.simps)
  next
    case (Some k)
    note split = strstr_Some [OF Some]
    then have "0 < length sep \<and> k + length sep \<le> length t" using assms by blast
    then have "length (drop (k + length sep) t) < length t" unfolding length_drop by linarith
    with 1 obtain ps where ps: "split_loop sep (drop (k + length sep) t) (acc @ [take k t]) = Some (acc @ [take k t] @ ps)"
        "ps \<noteq> []" "string_join sep ps = drop (k + length sep) t" by (metis append.assoc)
    with split show ?thesis
      by (intro exI [of _ "take k t # ps"]) (auto simp: split_loop.simps [of sep t] Some string_join_Cons)
  qed
qed

lemma strstr_char:
  "strstr t [c] = (if c \<in> set t then Some (length (takeWhile (\<lambda>d. d \<noteq> c) t)) else None)"
proof (induction t)
  case (Cons d t)
  then show ?case by (subst strstr.simps) auto
qed (simp add: strstr.simps)

lemma split_loop_join:
  assumes "ps \<noteq> []" "\<forall>p \<in> set ps. c \<notin> set p"
  shows "split_loop [c] (string_join [c] ps) acc = Some (acc @ ps)"
  using assms
proof (induction ps arbitrary: acc)
  case (Cons p ps)
  show ?case
  proof (cases ps)
    case Nil
    with Cons.prems show ?thesis by (subst split_loop.simps) (simp add: strstr_char)
  next
    case (Cons q qs)
    then have "string_join [c] (p # ps) = p @ c # string_join [c] ps" by simp
    moreover have "takeWhile (\<lambda>d. d \<noteq> c) (p @ c # string_join [c] ps) = p"
      using \<open>\<forall>p \<in> set (p # ps). c \<notin> set p\<close> by (subst takeWhile_append2) auto
    ultimately show ?thesis
      using Cons.IH [of "acc @ [p]"] Cons.prems \<open>ps = q # qs\<close>
      by (subst split_loop.simps) (simp add: strstr_char)
  qed
qed simp

subsection \<open>Trimming\<close>

definition is_trimmed :: "string \<Rightarrow> bool" where
  "is_trimmed s \<longleftrightarrow> s = [] \<or> \<not> isspace (hd s) \<and> \<not> isspace (last s)"

lemma dropWhile_hd: "s = [] \<or> \<not> p (hd s) \<Longrightarrow> dropWhile p s = s"
  by (cases s) auto

lemma string_trim_trimmed: "is_trimmed s \<Longrightarrow> string_trim s = s"
  by (auto simp: is_trimmed_def string_trim_def dropWhile_hd hd_rev)

lemma trimmed_string_trim: "is_trimmed (string_trim s)"
proof -
  let ?t = "dropWhile isspace s"
  have hd: "?t \<noteq> [] \<Longrightarrow> \<not> isspace (hd ?t)" by (rule hd_dropWhile)
  show ?thesis
  proof (cases "string_trim s")
    case (Cons c cs)
    let ?r = "dropWhile isspace (rev ?t)"
    have r: "?r \<noteq> []" "string_trim s = rev ?r" using Cons by (auto simp: string_trim_def)
    then have "\<not> isspace (last (string_trim s))" by (simp add: last_rev hd_dropWhile)
    moreover obtain w where "rev ?t = w @ ?r" by (metis takeWhile_dropWhile_id)
    then have "?t = rev ?r @ rev w" by (metis rev_append rev_rev_ident)
    with r hd have "\<not> isspace (hd (string_trim s))" by (metis append_is_Nil_conv hd_append2 rev_is_Nil_conv)
    ultimately show ?thesis by (simp add: is_trimmed_def)
  qed (simp add: is_trimmed_def)
qed

lemma isspace_eq: "\<not> isspace CHR ''=''"
  by (simp add: isspace_def)

subsection \<open>Configuration files\<close>

definition config_line :: "string \<times> string \<Rightarrow> string" where
  "config_line kv = fst kv @ ''='' @ snd kv"

definition config_text :: "(string \<times> string) list \<Rightarrow> string" where
  "config_text kvs = concat (map (\<lambda>kv. config_line kv @ [CHR 0x0A]) kvs)"

definition config_entry_ok :: "string \<times> string \<Rightarrow> bool" where
  "config_entry_ok kv \<longleftrightarrow> fst kv \<noteq> [] \<and> is_trimmed (fst kv) \<and> is_trimmed (snd kv)
     \<and> CHR ''='' \<notin> set (fst kv) \<and> CHR 0x0A \<notin> set (fst kv) \<union> set (snd kv) \<and> hd (fst kv) \<noteq> CHR ''#''"

lemma while_sep:
  "c \<notin> set xs \<Longrightarrow> takeWhile (\<lambda>d. d \<noteq> c) (xs @ c # ys) = xs"
  "c \<notin> set xs \<Longrightarrow> dropWhile (\<lambda>d. d \<noteq> c) (xs @ c # ys) = c # ys"
  by (induction xs) auto

lemma config_load_line_entry:
  assumes "config_entry_ok (k, v)"
  shows "config_load_line d (config_line (k, v)) = dictionary_put d k v"
proof -
  have k: "k \<noteq> []" "is_trimmed k" "is_trimmed v" "CHR ''='' \<notin> set k" "hd k \<noteq> CHR ''#''"
    using assms by (simp_all add: config_entry_ok_def)
  have "is_trimmed (config_line (k, v))"
    using k isspace_eq by (auto simp: is_trimmed_def config_line_def)
  then have "string_trim (config_line (k, v)) = k @ ''='' @ v"
    by (simp add: string_trim_trimmed config_line_def)
  moreover have "takeWhile (\<lambda>c. c \<noteq> CHR ''='') (k @ ''='' @ v) = k"
      "dropWhile (\<lambda>c. c \<noteq> CHR ''='') (k @ ''='' @ v) = ''='' @ v"
    using while_sep [OF k(4)] by simp_all
  moreover have "\<not> string_starts_with (k @ ''='' @ v) ''#''"
    using k(1,5) by (cases k) (simp_all add: string_starts_with_def)
  ultimately show ?thesis
    using k by (simp add: config_load_line_def string_is_empty_def string_trim_trimmed)
qed

lemma file_read_line_append:
  "CHR 0x0A \<notin> set line \<Longrightarrow> file_read_line (line @ CHR 0x0A # rest) = Some (line, rest)"
  by (simp add: file_read_line_def while_sep)

lemma config_load_lines_text:
  assumes "\<forall>kv \<in> set kvs. config_entry_ok kv"
  shows "config_load_lines d (config_text kvs) = foldl (\<lambda>d (k, v). dictionary_put d k v) d kvs"
  using assms
proof (induction kvs arbitrary: d)
  case Nil
  show ?case by (simp add: config_text_def config_load_lines.simps file_read_line_def)
next
  case (Cons kv kvs)
  obtain k v where kv: "kv = (k, v)" by (cases kv)
  have "CHR 0x0A \<notin> set (config_line kv)"
    using Cons.prems by (auto simp: config_line_def config_entry_ok_def kv)
  moreover have "config_text (kv # kvs) = config_line kv @ CHR 0x0A # config_text kvs"
    by (simp add: config_text_def)
  ultimately have "config_load_lines d (config_text (kv # kvs)) =
      config_load_lines (config_load_line d (config_line kv)) (config_text kvs)"
    using file_read_line_append [of "config_line kv" "config_text kvs"]
    by (subst config_load_lines.simps) (simp del: config_load_lines.simps)
  moreover have "config_entry_ok (k, v)" "\<forall>kv \<in> set kvs. config_entry_ok kv"
    using Cons.prems by (simp_all add: kv)
  ultimately show ?case
    using Cons.IH [of "dictionary_put d k v"] config_load_line_entry [of k v d] by (simp add: kv)
qed

lemma is_trimmed_parts:
  "map_option (map string_trim) (split_loop '','' t []) = Some ps \<Longrightarrow> \<forall>p \<in> set ps. is_trimmed p"
  using trimmed_string_trim by auto

end
