(* ===== verification/Memory_Stick.thy ===== *)
theory Memory_Stick
  imports Msg Strings
begin

section \<open>The Memory Stick module\<close>

text \<open>
  \<open>memory_stick/src/memory_stick\<close>: a stick holds \<open>size\<close> bytes and serves read and write
  requests of Kernel Memory (\<open>main.c\<close>) and of the CPUs (\<open>cpu.c\<close>). A request is the bytes
  that arrive on the socket and the reply the bytes sent back; \<open>None\<close> is an access outside
  the stick's buffer or outside a received element, which the code does not check.
\<close>

subsection \<open>The stick\<close>

record t_ms =
  memory_delay :: int
  memory :: bytes

definition get_args :: "string list \<Rightarrow> (string \<times> string \<times> int) option" where
  "get_args argv =
     (case argv of
        [program, config_path, size_str] \<Rightarrow>
          (let sz = atoi size_str in if sz > 0 then Some (config_path, size_str, sz) else None)
      | _ \<Rightarrow> None)"

definition init_stick :: "int \<Rightarrow> string \<Rightarrow> t_ms" where
  "init_stick delay size_str = \<lparr>memory_delay = delay, memory = replicate (nat (atoi size_str)) 0\<rparr>"

definition read_memory_ms :: "t_ms \<Rightarrow> int \<Rightarrow> int \<Rightarrow> bytes option" where
  "read_memory_ms ms start_position byte_count =
     (if 0 \<le> start_position \<and> 0 \<le> byte_count \<and> start_position + byte_count \<le> int (length (memory ms))
      then Some (send_buffer OP_MEMORY_STICK_READ_DONE
                   (take (nat byte_count) (drop (nat start_position) (memory ms))))
      else None)"

definition overwrite :: "nat \<Rightarrow> 'a list \<Rightarrow> 'a list \<Rightarrow> 'a list" where
  "overwrite i ys xs = take i xs @ ys @ drop (i + length ys) xs"

definition write_memory_ms :: "t_ms \<Rightarrow> int \<Rightarrow> bytes \<Rightarrow> int \<Rightarrow> (t_ms \<times> bytes) option" where
  "write_memory_ms ms start_position bytes_to_write byte_count =
     (if 0 \<le> start_position \<and> 0 \<le> byte_count \<and> byte_count \<le> int (length bytes_to_write)
         \<and> start_position + byte_count \<le> int (length (memory ms))
      then Some (ms\<lparr>memory := overwrite (nat start_position) (take (nat byte_count) bytes_to_write) (memory ms)\<rparr>,
                 send_string OP_MEMORY_STICK_WRITE_DONE ''Write successful'')
      else None)"

text \<open>\<open>*(int*)list_get(packet, k)\<close>: four bytes are read whatever the element's size.\<close>

definition element_int :: "bytes \<Rightarrow> int option" where
  "element_int b = (if 4 \<le> length b then Some (bytes_int b) else None)"

definition serve_read :: "t_ms \<Rightarrow> bytes \<Rightarrow> (t_ms \<times> bytes \<times> bytes) option" where
  "serve_read ms stream =
     (case receive_packet stream of
        None \<Rightarrow> None
      | Some (packet, rest) \<Rightarrow>
          (if length packet \<noteq> 2 then Some (ms, [], rest)
           else case (element_int (packet ! 0), element_int (packet ! 1)) of
                  (Some start_position, Some byte_count) \<Rightarrow>
                    map_option (\<lambda>reply. (ms, reply, rest)) (read_memory_ms ms start_position byte_count)
                | _ \<Rightarrow> None))"

definition serve_write :: "t_ms \<Rightarrow> bytes \<Rightarrow> (t_ms \<times> bytes \<times> bytes) option" where
  "serve_write ms stream =
     (case receive_packet stream of
        None \<Rightarrow> None
      | Some (packet, rest) \<Rightarrow>
          (if length packet \<noteq> 3 then Some (ms, [], rest)
           else case (element_int (packet ! 0), element_int (packet ! 2)) of
                  (Some start_position, Some byte_count) \<Rightarrow>
                    map_option (\<lambda>(ms', reply). (ms', reply, rest))
                      (write_memory_ms ms start_position (packet ! 1) byte_count)
                | _ \<Rightarrow> None))"

text \<open>
  One iteration of the loop of \<open>main\<close> on the Kernel Memory socket: the stick, the reply, the
  unread bytes and whether the loop goes on.
\<close>

definition km_request :: "t_ms \<Rightarrow> bytes \<Rightarrow> (t_ms \<times> bytes \<times> bytes \<times> bool) option" where
  "km_request ms stream =
     (case receive_op_code stream of
        (op_code, rest) \<Rightarrow>
          (if op_code = OP_MEMORY_STICK_READ then
             map_option (\<lambda>(ms', reply, rest'). (ms', reply, rest', True)) (serve_read ms rest)
           else if op_code = OP_MEMORY_STICK_WRITE then
             map_option (\<lambda>(ms', reply, rest'). (ms', reply, rest', True)) (serve_write ms rest)
           else if op_code = OP_KERNEL_MEMORY_RUNNING then
             map_option (\<lambda>(buffer, rest'). (ms, [], rest', True)) (receive_string rest)
           else Some (ms, [], rest, False)))"

text \<open>One iteration of \<open>handle_cpu_client\<close>; \<open>False\<close> closes the thread.\<close>

definition cpu_request :: "t_ms \<Rightarrow> bytes \<Rightarrow> (t_ms \<times> bytes \<times> bytes \<times> bool) option" where
  "cpu_request ms stream =
     (case receive_op_code stream of
        (op_code, rest) \<Rightarrow>
          (if op_code = OP_MEMORY_STICK_READ then
             map_option (\<lambda>(ms', reply, rest'). (ms', reply, rest', True)) (serve_read ms rest)
           else if op_code = OP_MEMORY_STICK_WRITE then
             map_option (\<lambda>(ms', reply, rest'). (ms', reply, rest', True)) (serve_write ms rest)
           else Some (ms, [], rest, False)))"

subsection \<open>Connections\<close>

definition send_cpu_server_port_to_km :: "16 word \<Rightarrow> bytes" where
  "send_cpu_server_port_to_km port = send_string OP_PORT (show_nat (unat port))"

definition send_size :: "string \<Rightarrow> bytes" where
  "send_size size_str = send_string OP_MEMORY_SIZE size_str"

text \<open>The bytes the stick sends and whether the peer identified itself as expected.\<close>

definition handshake_km :: "bytes \<Rightarrow> (bool \<times> bytes option \<times> bytes) option" where
  "handshake_km stream =
     map_option (\<lambda>(mid, rest). (mid = MID_KERNEL_MEMORY, send_handshake MID_MEMORY_STICK, rest))
       (receive_handshake stream)"

definition handshake_cpu :: "bytes \<Rightarrow> (bool \<times> bytes option \<times> bytes) option" where
  "handshake_cpu stream =
     map_option (\<lambda>(mid, rest). (mid = MID_CPU, if mid = MID_CPU then send_handshake MID_MEMORY_STICK else None, rest))
       (receive_handshake stream)"

definition receive_cpu_id :: "bytes \<Rightarrow> (string option \<times> bytes) option" where
  "receive_cpu_id stream =
     (case receive_op_code stream of
        (op, rest) \<Rightarrow>
          (if op \<noteq> OP_ID_CPU then Some (None, rest)
           else map_option (\<lambda>(b, rest'). (map_option string_of_bytes b, rest')) (receive_string rest)))"

text \<open>
  The sockets of the connected CPUs. A socket joins the list once the handshake and the id
  are in, before its thread starts, and leaves it when the thread cannot be started or ends;
  \<open>close_listen_thread\<close> shuts every listed socket down and waits for the list to be empty.
\<close>

definition handle_new_cpu :: "'s list \<Rightarrow> 's \<Rightarrow> bytes \<Rightarrow> bool \<Rightarrow> ('s list \<times> bool \<times> bytes) option" where
  "handle_new_cpu socket_list socket_cpu stream thread_started =
     (case handshake_cpu stream of
        None \<Rightarrow> None
      | Some (False, _, rest) \<Rightarrow> Some (socket_list, False, rest)
      | Some (True, _, rest) \<Rightarrow>
          (case receive_cpu_id rest of
             None \<Rightarrow> None
           | Some (None, rest') \<Rightarrow> Some (socket_list, False, rest')
           | Some (Some cpu_id, rest') \<Rightarrow>
               (let socket_list' = socket_list @ [socket_cpu]
                in if thread_started then Some (socket_list', True, rest')
                   else Some (remove1 socket_cpu socket_list', False, rest'))))"

definition close_cpu_thread :: "'s list \<Rightarrow> 's \<Rightarrow> 's list \<times> bool" where
  "close_cpu_thread socket_list socket_cpu =
     (let socket_list' = remove1 socket_cpu socket_list in (socket_list', socket_list' = []))"

subsection \<open>The loops end when the stream does\<close>

lemma receive_op_code_shrinks:
  "receive_op_code stream = (op, rest) \<Longrightarrow> length rest \<le> length stream \<and> (op \<noteq> 0 \<longrightarrow> length rest < length stream)"
  by (auto simp: receive_op_code_def socket_receive_def split: option.splits if_splits)

lemma receive_buffer_shrinks:
  "receive_buffer stream = Some (b, n, rest) \<Longrightarrow> length rest \<le> length stream"
  by (auto simp: receive_buffer_def socket_receive_def Let_def split: option.splits if_splits)

lemma receive_packet_shrinks:
  "receive_packet stream = Some (vs, rest) \<Longrightarrow> length rest \<le> length stream"
  by (auto simp: receive_packet_def dest: receive_buffer_shrinks split: option.splits)

lemma receive_string_shrinks:
  "receive_string stream = Some (b, rest) \<Longrightarrow> length rest \<le> length stream"
  by (auto simp: receive_string_def dest: receive_buffer_shrinks)

lemma serve_shrinks:
  "serve_read ms stream = Some (ms', reply, rest) \<Longrightarrow> length rest \<le> length stream"
  "serve_write ms stream = Some (ms'', reply', rest') \<Longrightarrow> length rest' \<le> length stream"
  by (auto simp: serve_read_def serve_write_def dest: receive_packet_shrinks split: option.splits if_splits)

lemma km_request_shrinks:
  "km_request ms stream = Some (ms', reply, rest, True) \<Longrightarrow> length rest < length stream"
  by (auto simp: km_request_def split: prod.splits if_splits
      dest!: receive_op_code_shrinks serve_shrinks receive_string_shrinks)

lemma cpu_request_shrinks:
  "cpu_request ms stream = Some (ms', reply, rest, True) \<Longrightarrow> length rest < length stream"
  by (auto simp: cpu_request_def split: prod.splits if_splits
      dest!: receive_op_code_shrinks serve_shrinks)

text \<open>The loop of \<open>main\<close> until Kernel Memory closes the connection: the stick and all it sent.\<close>

function km_loop :: "t_ms \<Rightarrow> bytes \<Rightarrow> (t_ms \<times> bytes) option" where
  "km_loop ms stream =
     (case km_request ms stream of
        None \<Rightarrow> None
      | Some (ms', reply, rest, keep_running) \<Rightarrow>
          (if keep_running then map_option (\<lambda>(ms'', replies). (ms'', reply @ replies)) (km_loop ms' rest)
           else Some (ms', reply)))"
  by pat_completeness auto
termination
  by (relation "measure (length \<circ> snd)") (auto dest: km_request_shrinks)

declare km_loop.simps [simp del]

function handle_cpu_client :: "t_ms \<Rightarrow> bytes \<Rightarrow> (t_ms \<times> bytes) option" where
  "handle_cpu_client ms stream =
     (case cpu_request ms stream of
        None \<Rightarrow> None
      | Some (ms', reply, rest, keep_running) \<Rightarrow>
          (if keep_running then map_option (\<lambda>(ms'', replies). (ms'', reply @ replies)) (handle_cpu_client ms' rest)
           else Some (ms', reply)))"
  by pat_completeness auto
termination
  by (relation "measure (length \<circ> snd)") (auto dest: cpu_request_shrinks)

declare handle_cpu_client.simps [simp del]

end
