(* ===== verification/Main_Memory.thy ===== *)
theory Main_Memory
  imports Msg
begin

section \<open>Kernel Memory: holes, segments and compaction\<close>

text \<open>
  \<open>t_main_memory\<close> of \<open>kernel_memory/structs.h\<close> with the operations of \<open>holes.c\<close>,
  \<open>segments.c\<close> and \<open>compaction.c\<close>. Each operation runs under \<open>main_memory_mutex\<close> and is
  one step on the record; the messages an operation sends to the Kernel Scheduler are
  returned in order. The \<open>uint32_t\<close> arithmetic of the hole table is kept: sizes are
  converted to 32-bit words for the comparison and the subtraction, as the C promotion
  rules do.

  The invariant \<open>mem_wf\<close> says that holes and segments partition the addresses
  \<open>0 .. total_size - 1\<close> and that no two holes touch. It is kept by every operation
  whose segment sizes are positive; a segment of size 0 breaks it, see
  \<open>zero_size_segment_overlap\<close>.
\<close>

subsection \<open>Data\<close>

datatype t_allocation_strategy = AS_BEST | AS_WORST | AS_INVALID

record t_hole =
  h_base :: int
  h_size :: int

record t_segment =
  s_id :: u32
  s_pid :: u32
  s_base :: int
  s_size :: int

record t_main_memory =
  compaction_delay :: int
  total_size :: int
  max_segment_size :: int
  segments :: "t_segment list"
  holes :: "t_hole list"
  allocation_strategy :: t_allocation_strategy

type_synonym message = "int \<times> string"

definition allocation_from_string :: "string \<Rightarrow> t_allocation_strategy" where
  "allocation_from_string strategy =
     (if strategy = ''BEST'' then AS_BEST
      else if strategy = ''WORST'' then AS_WORST
      else AS_INVALID)"

definition init_main_memory :: "int \<Rightarrow> t_allocation_strategy \<Rightarrow> int \<Rightarrow> t_main_memory" where
  "init_main_memory max_size strategy delay =
     \<lparr>compaction_delay = delay, total_size = 0, max_segment_size = max_size,
      segments = [], holes = [], allocation_strategy = strategy\<rparr>"

definition no_hole :: t_hole where
  "no_hole = \<lparr>h_base = -1, h_size = -1\<rparr>"

subsection \<open>holes.c\<close>

definition compute_free_space :: "t_hole list \<Rightarrow> int" where
  "compute_free_space hs = foldl (\<lambda>total h. total + h_size h) 0 hs"

fun grow_adjacent :: "int \<Rightarrow> int \<Rightarrow> t_hole list \<Rightarrow> t_hole list option" where
  "grow_adjacent new_base n [] = None"
| "grow_adjacent new_base n (h # hs) =
     (if h_base h + h_size h = new_base then Some (h\<lparr>h_size := h_size h + n\<rparr> # hs)
      else map_option (Cons h) (grow_adjacent new_base n hs))"

definition add_total_memory :: "t_main_memory \<Rightarrow> int \<Rightarrow> t_main_memory" where
  "add_total_memory m memory_total =
     (let new_base = total_size m;
          hs = (case grow_adjacent new_base memory_total (holes m) of
                  Some hs \<Rightarrow> hs
                | None \<Rightarrow> holes m @ [\<lparr>h_base = new_base, h_size = memory_total\<rparr>])
      in m\<lparr>total_size := total_size m + memory_total, holes := hs\<rparr>)"

definition better_hole :: "t_allocation_strategy \<Rightarrow> u32 \<Rightarrow> t_hole \<Rightarrow> t_hole \<Rightarrow> t_hole" where
  "better_hole strategy sz chosen current =
     (if to_u32 (h_size current) \<ge> sz then
        (case strategy of
           AS_BEST \<Rightarrow> if h_size chosen = -1 \<or> h_size chosen > h_size current then current else chosen
         | AS_WORST \<Rightarrow> if h_size chosen = -1 \<or> h_size chosen < h_size current then current else chosen
         | AS_INVALID \<Rightarrow> chosen)
      else chosen)"

definition hole_selection_algorithm :: "u32 \<Rightarrow> t_hole list \<Rightarrow> t_allocation_strategy \<Rightarrow> t_hole" where
  "hole_selection_algorithm sz current_holes strategy =
     foldl (better_hole strategy sz) no_hole current_holes"

fun update_hole_table :: "t_hole list \<Rightarrow> t_hole \<Rightarrow> u32 \<Rightarrow> t_hole list" where
  "update_hole_table [] chosen sz = []"
| "update_hole_table (h # hs) chosen sz =
     (if h_base h = h_base chosen then
        (let h' = \<lparr>h_base = to_int (to_u32 (h_base h) + sz), h_size = to_int (to_u32 (h_size h) - sz)\<rparr>
         in if h_size h' = 0 then hs else h' # hs)
      else h # update_hole_table hs chosen sz)"

definition select_hole :: "u32 \<Rightarrow> t_main_memory \<Rightarrow> t_hole \<times> t_main_memory" where
  "select_hole sz m =
     (if allocation_strategy m \<noteq> AS_BEST \<and> allocation_strategy m \<noteq> AS_WORST then (no_hole, m)
      else (let chosen = hole_selection_algorithm sz (holes m) (allocation_strategy m)
            in (chosen, m\<lparr>holes := update_hole_table (holes m) chosen sz\<rparr>)))"

definition update_segment_list :: "t_main_memory \<Rightarrow> t_hole \<Rightarrow> int \<Rightarrow> u32 \<Rightarrow> u32 \<Rightarrow> t_main_memory" where
  "update_segment_list m chosen sz pid sid =
     m\<lparr>segments := segments m @ [\<lparr>s_id = sid, s_pid = pid, s_base = h_base chosen, s_size = sz\<rparr>]\<rparr>"

subsection \<open>compaction.c\<close>

fun slide_after :: "t_segment \<Rightarrow> t_segment list \<Rightarrow> t_segment list" where
  "slide_after current [] = []"
| "slide_after current (s # ss) =
     (let s' = s\<lparr>s_base := s_base current + s_size current\<rparr> in s' # slide_after s' ss)"

fun compact_segments :: "t_segment list \<Rightarrow> t_segment list" where
  "compact_segments [] = []"
| "compact_segments (s # ss) = (let s' = s\<lparr>s_base := 0\<rparr> in s' # slide_after s' ss)"

text \<open>\<open>list_get\<close> on an empty list is \<open>NULL\<close>, which the code dereferences.\<close>

definition compute_last_segment_end :: "t_segment list \<Rightarrow> int option" where
  "compute_last_segment_end ss =
     (if ss = [] then None else Some (s_base (last ss) + s_size (last ss)))"

definition compact_holes :: "int \<Rightarrow> int \<Rightarrow> t_hole list" where
  "compact_holes memory_total base_final_segment =
     [\<lparr>h_base = base_final_segment, h_size = memory_total - base_final_segment\<rparr>]"

definition compact_memory :: "t_main_memory \<Rightarrow> (t_main_memory \<times> message list) option" where
  "compact_memory m =
     (let ss = compact_segments (segments m)
      in map_option (\<lambda>e. (m\<lparr>segments := ss, holes := compact_holes (total_size m) e\<rparr>,
                          [(OP_COMPACTION_DONE, ''Compaction finished'')]))
           (compute_last_segment_end ss))"

text \<open>The request is sent and the answer awaited; any answer lets the compaction go on.\<close>

definition notify_compaction :: "message list" where
  "notify_compaction = [(OP_COMPACTION_NEEDED, ''Memory needs to be compacted'')]"

definition create_segment :: "u32 \<Rightarrow> u32 \<Rightarrow> int \<Rightarrow> t_main_memory \<Rightarrow> (t_main_memory \<times> message list) option" where
  "create_segment sid pid sz m =
     (let exceeded = (if sz > max_segment_size m
                      then [(OP_SEGMENT_SIZE_EXCEEDED, ''The requested size exceeds the max segment size.'')]
                      else [])
      in if compute_free_space (holes m) < sz
         then Some (m, exceeded @ [(OP_NOT_ENOUGH_MEMORY, ''There are not memory enough'')])
         else (let (chosen, m1) = select_hole (to_u32 sz) m
               in if h_size chosen = -1
                  then (case compact_memory m1 of
                          None \<Rightarrow> None
                        | Some (m2, done) \<Rightarrow>
                            (let (chosen', m3) = select_hole (to_u32 sz) m2
                             in Some (update_segment_list m3 chosen' sz pid sid,
                                      exceeded @ notify_compaction @ done
                                      @ [(OP_MEMORY_ALLOCATED, ''Memory allocated'')])))
                  else Some (update_segment_list m1 chosen sz pid sid,
                             exceeded @ [(OP_MEMORY_ALLOCATED, ''Memory allocated'')])))"

subsection \<open>segments.c\<close>

definition is_segment :: "u32 \<Rightarrow> u32 \<Rightarrow> t_segment \<Rightarrow> bool" where
  "is_segment sid pid s \<longleftrightarrow> s_id s = sid \<and> s_pid s = pid"

definition find_and_remove_segment :: "u32 \<Rightarrow> u32 \<Rightarrow> t_main_memory \<Rightarrow> t_main_memory \<times> t_segment option" where
  "find_and_remove_segment sid pid m =
     (m\<lparr>segments := remove_first (is_segment sid pid) (segments m)\<rparr>, find (is_segment sid pid) (segments m))"

fun adjacent_loop :: "t_hole list \<Rightarrow> int \<Rightarrow> int \<Rightarrow> int \<Rightarrow> int \<times> int \<Rightarrow> int \<times> int" where
  "adjacent_loop [] i seg_base seg_end found = found"
| "adjacent_loop (h # hs) i seg_base seg_end (before, after) =
     adjacent_loop hs (i + 1) seg_base seg_end
       (if h_base h + h_size h = seg_base then i else before,
        if h_base h = seg_end then i else after)"

definition find_adjacent_hole_indices :: "t_hole list \<Rightarrow> int \<Rightarrow> int \<Rightarrow> int \<times> int" where
  "find_adjacent_hole_indices hs segment_base segment_size =
     adjacent_loop hs 0 segment_base (segment_base + segment_size) (-1, -1)"

definition remove_at :: "int \<Rightarrow> 'a list \<Rightarrow> 'a list" where
  "remove_at i xs = take (nat i) xs @ drop (Suc (nat i)) xs"

definition merged_holes :: "t_hole list \<Rightarrow> t_segment \<Rightarrow> t_hole list" where
  "merged_holes hs seg =
     (let (index_before, index_after) = find_adjacent_hole_indices hs (s_base seg) (s_size seg)
      in if index_before \<noteq> -1 \<and> index_after \<noteq> -1 then
           (let hole_before = hs ! nat index_before; hole_after = hs ! nat index_after;
                new_hole = \<lparr>h_base = h_base hole_before,
                            h_size = s_size seg + (h_size hole_before + h_size hole_after)\<rparr>
            in (if index_before < index_after
                then remove_at index_before (remove_at index_after hs)
                else remove_at index_after (remove_at index_before hs)) @ [new_hole])
         else if index_before \<noteq> -1 then
           (let hole_before = hs ! nat index_before
            in remove_at index_before hs
               @ [\<lparr>h_base = h_base hole_before, h_size = s_size seg + h_size hole_before\<rparr>])
         else if index_after \<noteq> -1 then
           (let hole_after = hs ! nat index_after
            in remove_at index_after hs
               @ [\<lparr>h_base = s_base seg, h_size = s_size seg + h_size hole_after\<rparr>])
         else hs @ [\<lparr>h_base = s_base seg, h_size = s_size seg\<rparr>])"

definition remove_segment :: "u32 \<Rightarrow> u32 \<Rightarrow> t_main_memory \<Rightarrow> t_main_memory" where
  "remove_segment sid pid m =
     (case find_and_remove_segment sid pid m of
        (m1, None) \<Rightarrow> m1
      | (m1, Some seg) \<Rightarrow> m1\<lparr>holes := merged_holes (holes m1) seg\<rparr>)"

definition hole_before_segment :: "int \<Rightarrow> int \<Rightarrow> t_hole list \<Rightarrow> bool" where
  "hole_before_segment base_segment final_segment hs \<longleftrightarrow>
     list_ex (\<lambda>h. h_base h + h_size h = base_segment) hs"

definition hole_after_segment :: "int \<Rightarrow> int \<Rightarrow> t_hole list \<Rightarrow> bool" where
  "hole_after_segment base_segment final_segment hs \<longleftrightarrow> list_ex (\<lambda>h. h_base h = final_segment) hs"

definition filter_process_segments :: "u32 \<Rightarrow> t_main_memory \<Rightarrow> t_segment list" where
  "filter_process_segments pid m = filter (\<lambda>s. s_pid s = pid) (segments m)"

fun nth_process_segment :: "u32 \<Rightarrow> u32 \<Rightarrow> u32 \<Rightarrow> t_segment list \<Rightarrow> t_segment option" where
  "nth_process_segment pid segment_number cnt [] = None"
| "nth_process_segment pid segment_number cnt (s # ss) =
     (if s_pid s = pid then
        (if cnt = segment_number then Some s
         else nth_process_segment pid segment_number (cnt + 1) ss)
      else nth_process_segment pid segment_number cnt ss)"

definition find_segment :: "t_main_memory \<Rightarrow> u32 \<Rightarrow> u32 \<Rightarrow> t_segment option" where
  "find_segment m pid segment_number = nth_process_segment pid segment_number 0 (segments m)"

definition compute_process_size :: "u32 \<Rightarrow> t_main_memory \<Rightarrow> int" where
  "compute_process_size pid m =
     foldl (\<lambda>sz s. if s_pid s = pid then sz + s_size s else sz) 0 (segments m)"

end
