(* ===== verification/Main_Memory_Inv.thy ===== *)
theory Main_Memory_Inv
  imports Main_Memory
begin

section \<open>Kernel Memory: the partition of memory\<close>

text \<open>
  The invariant \<open>mem_wf\<close> of \<open>t_main_memory\<close>: every address below \<open>total_size\<close> is in exactly
  one hole or segment, no address outside is in any, and no two holes touch. Ranges are
  compared through the number of ranges that cover an address (\<open>cover\<close>), so that the order
  of the two lists does not matter. It holds at start and is kept by the registration of a
  stick, by \<open>create_segment\<close> (with or without compaction) and by \<open>remove_segment\<close>, for
  segments of positive size. The last section shows how requests of size 0 break it.
\<close>

subsection \<open>The invariant: holes and segments partition the memory\<close>

definition cov :: "int \<times> int \<Rightarrow> int \<Rightarrow> nat" where
  "cov r a = (if fst r \<le> a \<and> a < fst r + snd r then 1 else 0)"

definition cover :: "(int \<times> int) list \<Rightarrow> int \<Rightarrow> nat" where
  "cover rs a = (\<Sum>r\<leftarrow>rs. cov r a)"

definition hole_range :: "t_hole \<Rightarrow> int \<times> int" where
  "hole_range h = (h_base h, h_size h)"

definition segment_range :: "t_segment \<Rightarrow> int \<times> int" where
  "segment_range s = (s_base s, s_size s)"

definition mem_ranges :: "t_main_memory \<Rightarrow> (int \<times> int) list" where
  "mem_ranges m = map hole_range (holes m) @ map segment_range (segments m)"

definition coalesced :: "t_hole list \<Rightarrow> bool" where
  "coalesced hs \<longleftrightarrow> (\<forall>h \<in> set hs. \<forall>h' \<in> set hs. h_base h + h_size h \<noteq> h_base h')"

definition mem_wf :: "t_main_memory \<Rightarrow> bool" where
  "mem_wf m \<longleftrightarrow>
     0 \<le> total_size m \<and> total_size m < 2 ^ 31
     \<and> (\<forall>r \<in> set (mem_ranges m). 0 < snd r)
     \<and> coalesced (holes m)
     \<and> (\<forall>a. cover (mem_ranges m) a = cov (0, total_size m) a)"

lemma cover_simps [simp]:
  "cover [] a = 0"
  "cover (r # rs) a = cov r a + cover rs a"
  "cover (rs @ rs') a = cover rs a + cover rs' a"
  by (simp_all add: cover_def)

lemma cover_mem: "r \<in> set rs \<Longrightarrow> cov r a \<le> cover rs a"
  by (auto simp: cover_def intro: member_le_sum_list)

lemma cov_join: "0 \<le> s \<Longrightarrow> 0 \<le> t \<Longrightarrow> cov (b, s) a + cov (b + s, t) a = cov (b, s + t) a"
  by (auto simp: cov_def)

lemma cov_empty [simp]: "cov (b, 0) a = 0"
  by (simp add: cov_def)

lemma mem_ranges_simps [simp]:
  "mem_ranges (m\<lparr>holes := hs\<rparr>) = map hole_range hs @ map segment_range (segments m)"
  "mem_ranges (m\<lparr>segments := ss\<rparr>) = map hole_range (holes m) @ map segment_range ss"
  "mem_ranges (m\<lparr>total_size := t\<rparr>) = mem_ranges m"
  by (simp_all add: mem_ranges_def)

lemma mem_wfD:
  assumes "mem_wf m"
  shows "0 \<le> total_size m" "total_size m < 2 ^ 31" "r \<in> set (mem_ranges m) \<Longrightarrow> 0 < snd r"
    "coalesced (holes m)" "cover (mem_ranges m) a = cov (0, total_size m) a"
  using assms by (auto simp: mem_wf_def)

lemma range_bounds:
  assumes "mem_wf m" "r \<in> set (mem_ranges m)"
  shows "0 \<le> fst r" "fst r + snd r \<le> total_size m" "0 < snd r"
proof -
  show s: "0 < snd r" using mem_wfD(3) [OF assms] .
  have "cov r a \<le> cov (0, total_size m) a" for a
    using cover_mem [OF assms(2)] mem_wfD(5) [OF assms(1)] by metis
  from this [of "fst r"] this [of "fst r + snd r - 1"] s
  show "0 \<le> fst r" "fst r + snd r \<le> total_size m"
    by (auto simp: cov_def split: if_splits)
qed

lemma hole_in_ranges: "h \<in> set (holes m) \<Longrightarrow> hole_range h \<in> set (mem_ranges m)"
  by (simp add: mem_ranges_def)

lemma segment_in_ranges: "s \<in> set (segments m) \<Longrightarrow> segment_range s \<in> set (mem_ranges m)"
  by (simp add: mem_ranges_def)

lemma hole_bounds:
  assumes "mem_wf m" "h \<in> set (holes m)"
  shows "0 \<le> h_base h" "h_base h + h_size h \<le> total_size m" "0 < h_size h"
    "h_size h < 2 ^ 31" "h_base h < 2 ^ 31"
  using range_bounds [OF assms(1) hole_in_ranges [OF assms(2)]] mem_wfD(2) [OF assms(1)]
  by (simp_all add: hole_range_def)

text \<open>No address is covered twice, so two ranges at different positions do not meet.\<close>

lemma cover_le_1: "mem_wf m \<Longrightarrow> cover (mem_ranges m) a \<le> 1"
  by (simp add: mem_wfD(5) cov_def)

lemma no_double_hole:
  assumes "mem_wf m" "holes m = xs @ h # ys" "g \<in> set (xs @ ys)"
  shows "cov (hole_range h) a + cov (hole_range g) a \<le> 1"
proof -
  have "cov (hole_range g) a \<le> cover (map hole_range (xs @ ys)) a"
    using assms(3) by (intro cover_mem) auto
  moreover have "cover (mem_ranges m) a = cov (hole_range h) a + cover (map hole_range (xs @ ys)) a
      + cover (map segment_range (segments m)) a"
    by (simp add: mem_ranges_def assms(2))
  ultimately show ?thesis using cover_le_1 [OF assms(1), of a] by linarith
qed

lemma hole_bases_differ:
  assumes "mem_wf m" "holes m = xs @ h # ys" "g \<in> set (xs @ ys)"
  shows "h_base g \<noteq> h_base h"
  using no_double_hole [OF assms, of "h_base h"] hole_bounds(3) [OF assms(1), of h]
    hole_bounds(3) [OF assms(1), of g] assms(2,3)
  by (auto simp: cov_def hole_range_def)

subsubsection \<open>Accounting of free space\<close>

lemma sum_cov:
  assumes "0 \<le> s" "l \<le> b" "b + s \<le> u"
  shows "(\<Sum>a = l..<u. int (cov (b, s) a)) = s"
proof -
  have "(\<Sum>a = l..<u. int (cov (b, s) a)) = (\<Sum>a = b..<b + s. int (cov (b, s) a))"
    using assms by (intro sum.mono_neutral_right) (auto simp: cov_def)
  also have "\<dots> = (\<Sum>a = b..<b + s. 1)"
    by (intro sum.cong) (auto simp: cov_def)
  finally show ?thesis using assms(1) by simp
qed

lemma sum_cover:
  assumes "\<forall>r \<in> set rs. 0 \<le> snd r \<and> l \<le> fst r \<and> fst r + snd r \<le> u"
  shows "(\<Sum>a = l..<u. int (cover rs a)) = (\<Sum>r\<leftarrow>rs. snd r)"
  using assms
proof (induction rs)
  case (Cons r rs)
  obtain b s where r: "r = (b, s)" by (cases r)
  from Cons sum_cov [of s l b u] show ?case by (simp add: r sum.distrib)
qed simp

lemma total_size_eq:
  assumes "mem_wf m"
  shows "(\<Sum>r\<leftarrow>mem_ranges m. snd r) = total_size m"
proof -
  let ?T = "total_size m"
  have "(\<Sum>r\<leftarrow>mem_ranges m. snd r) = (\<Sum>a = 0..<?T. int (cover (mem_ranges m) a))"
    using range_bounds [OF assms] by (intro sum_cover [symmetric]) (auto intro: less_imp_le)
  also have "\<dots> = (\<Sum>a = 0..<?T. int (cov (0, ?T) a))"
    by (simp add: mem_wfD(5) [OF assms])
  also have "\<dots> = ?T" using mem_wfD(1) [OF assms] by (intro sum_cov) auto
  finally show ?thesis .
qed

lemma foldl_add_sum: "foldl (\<lambda>t x. t + f x) (t::int) xs = t + (\<Sum>x\<leftarrow>xs. f x)"
  by (induction xs arbitrary: t) (simp_all add: add.assoc)

lemma compute_free_space_sum: "compute_free_space hs = (\<Sum>h\<leftarrow>hs. h_size h)"
  by (simp add: compute_free_space_def foldl_add_sum)

definition used_space :: "t_segment list \<Rightarrow> int" where
  "used_space ss = (\<Sum>s\<leftarrow>ss. s_size s)"

lemma free_plus_used:
  assumes "mem_wf m"
  shows "compute_free_space (holes m) + used_space (segments m) = total_size m"
  using total_size_eq [OF assms]
  by (simp add: compute_free_space_sum used_space_def mem_ranges_def comp_def hole_range_def segment_range_def)

lemma free_space_bounds:
  assumes "mem_wf m"
  shows "0 \<le> compute_free_space (holes m)" "compute_free_space (holes m) \<le> total_size m"
proof -
  have "0 \<le> compute_free_space (holes m)"
    using hole_bounds(3) [OF assms] unfolding compute_free_space_sum
    by (intro sum_list_nonneg) (auto intro: less_imp_le)
  moreover have "0 \<le> used_space (segments m)"
    using range_bounds(3) [OF assms segment_in_ranges] unfolding used_space_def
    by (intro sum_list_nonneg) (auto simp: segment_range_def intro: less_imp_le)
  ultimately show "0 \<le> compute_free_space (holes m)" "compute_free_space (holes m) \<le> total_size m"
    using free_plus_used [OF assms] by linarith+
qed


subsubsection \<open>Hole selection\<close>

lemma to_u32_ge_iff:
  "0 \<le> a \<Longrightarrow> a < 2 ^ 31 \<Longrightarrow> 0 \<le> b \<Longrightarrow> b < 2 ^ 31 \<Longrightarrow> to_u32 b \<le> to_u32 a \<longleftrightarrow> b \<le> a"
  by (simp add: to_u32_le)

definition size_better :: "t_allocation_strategy \<Rightarrow> int \<Rightarrow> int \<Rightarrow> bool" where
  "size_better strategy a b \<longleftrightarrow> (if strategy = AS_WORST then a \<ge> b else a \<le> b)"

lemma foldl_better_hole:
  assumes "strategy \<noteq> AS_INVALID" "0 \<le> sz" "sz < 2 ^ 31"
    and "\<forall>h \<in> set hs. 0 < h_size h \<and> h_size h < 2 ^ 31"
    and "chosen = no_hole \<or> 0 < h_size chosen"
    and "r = foldl (better_hole strategy (to_u32 sz)) chosen hs"
  shows "(if chosen = no_hole \<and> (\<forall>h \<in> set hs. h_size h < sz) then r = no_hole
          else (r \<in> set hs \<and> sz \<le> h_size r \<or> r = chosen \<and> chosen \<noteq> no_hole)
            \<and> (chosen \<noteq> no_hole \<longrightarrow> size_better strategy (h_size r) (h_size chosen))
            \<and> (\<forall>h \<in> set hs. sz \<le> h_size h \<longrightarrow> size_better strategy (h_size r) (h_size h)))"
  using assms(4-)
proof (induction hs arbitrary: chosen)
  case Nil
  then show ?case by (auto simp: size_better_def)
next
  case (Cons h hs)
  have ge: "to_u32 sz \<le> to_u32 (h_size h) \<longleftrightarrow> sz \<le> h_size h"
    using Cons.prems(1) assms(2,3) by (intro to_u32_ge_iff) auto
  let ?c = "better_hole strategy (to_u32 sz) chosen h"
  have c: "?c = no_hole \<or> 0 < h_size ?c"
    using Cons.prems(1,2) by (auto simp: better_hole_def split: t_allocation_strategy.splits)
  have r: "r = foldl (better_hole strategy (to_u32 sz)) ?c hs"
    using Cons.prems(3) by simp
  note IH = Cons.IH [OF _ c r]
  have nh: "h_size no_hole = -1" "h \<noteq> no_hole"
    using Cons.prems(1) by (auto simp: no_hole_def)
  show ?case
  proof (cases "sz \<le> h_size h")
    case False
    then have "?c = chosen" by (simp add: better_hole_def ge)
    with IH False Cons.prems(1) show ?thesis by (auto split: if_splits)
  next
    case True
    then have "?c \<noteq> no_hole" "?c = h \<or> ?c = chosen \<and> chosen \<noteq> no_hole"
        "size_better strategy (h_size ?c) (h_size h)"
        "chosen \<noteq> no_hole \<longrightarrow> size_better strategy (h_size ?c) (h_size chosen)"
      using Cons.prems(1,2) assms(1) nh
      by (auto simp: better_hole_def ge size_better_def split: t_allocation_strategy.splits)
    with IH True Cons.prems(1) show ?thesis
      by (auto simp: size_better_def split: if_splits)
  qed
qed

lemma hole_selection_spec:
  assumes "mem_wf m" "allocation_strategy m \<noteq> AS_INVALID" "0 \<le> sz" "sz < 2 ^ 31"
    and "r = hole_selection_algorithm (to_u32 sz) (holes m) (allocation_strategy m)"
  shows "if \<forall>h \<in> set (holes m). h_size h < sz then r = no_hole
         else r \<in> set (holes m) \<and> sz \<le> h_size r
           \<and> (\<forall>h \<in> set (holes m). sz \<le> h_size h \<longrightarrow>
                size_better (allocation_strategy m) (h_size r) (h_size h))"
proof -
  have "\<forall>h \<in> set (holes m). 0 < h_size h \<and> h_size h < 2 ^ 31"
    using hole_bounds [OF assms(1)] by blast
  from foldl_better_hole [OF assms(2-4) this, of no_hole r] assms(5) show ?thesis
    by (auto simp: hole_selection_algorithm_def split: if_splits)
qed

lemma update_hole_table_split:
  assumes "mem_wf m" "holes m = xs @ h # ys" "0 \<le> sz" "sz \<le> h_size h"
  shows "update_hole_table (holes m) h (to_u32 sz) =
    xs @ (if h_size h = sz then [] else [\<lparr>h_base = h_base h + sz, h_size = h_size h - sz\<rparr>]) @ ys"
proof -
  have h: "h \<in> set (holes m)" using assms(2) by simp
  note b = hole_bounds [OF assms(1) h] mem_wfD(2) [OF assms(1)]
  have conv: "to_int (to_u32 (h_base h) + to_u32 sz) = h_base h + sz"
      "to_int (to_u32 (h_size h) - to_u32 sz) = h_size h - sz"
    using b assms(3,4) by (simp_all add: to_u32_add to_u32_diff to_int_to_u32 in_int_def INT_MAX_def)
  have "\<forall>g \<in> set xs. h_base g \<noteq> h_base h"
    using hole_bases_differ [OF assms(1,2)] by auto
  then have "update_hole_table (xs @ h # ys) h (to_u32 sz) = xs @ update_hole_table (h # ys) h (to_u32 sz)"
    by (induction xs) auto
  then show ?thesis using assms(2) by (simp add: conv)
qed

subsubsection \<open>Allocation keeps the invariant\<close>

lemma coalesced_carve:
  assumes "mem_wf m" "holes m = xs @ h # ys" "0 < sz" "sz \<le> h_size h"
  shows "coalesced (xs @ (if h_size h = sz then [] else [\<lparr>h_base = h_base h + sz, h_size = h_size h - sz\<rparr>]) @ ys)"
proof -
  have co: "h_base g + h_size g \<noteq> h_base g'" if "g \<in> set (xs @ h # ys)" "g' \<in> set (xs @ h # ys)" for g g'
    using mem_wfD(4) [OF assms(1)] that assms(2) unfolding coalesced_def by metis
  have "h_base g + h_size g \<noteq> h_base h + sz" if g: "g \<in> set (xs @ ys)" for g
  proof
    assume e: "h_base g + h_size g = h_base h + sz"
    have "0 < h_size g" using hole_bounds(3) [OF assms(1), of g] g assms(2) by auto
    with no_double_hole [OF assms(1,2) g, of "h_base h + sz - 1"] e assms(3,4)
    show False by (simp add: cov_def hole_range_def)
  qed
  with co assms(4) show ?thesis unfolding coalesced_def by auto
qed

lemma mem_wf_update:
  assumes "mem_wf m" "coalesced hs" "\<forall>h \<in> set hs. 0 < h_size h" "\<forall>s \<in> set ss. 0 < s_size s"
    and "\<And>a. cover (map hole_range hs) a + cover (map segment_range ss) a = cover (mem_ranges m) a"
  shows "mem_wf (m\<lparr>holes := hs, segments := ss\<rparr>)"
  using assms(2-4) mem_wfD(1,2,5) [OF assms(1)] assms(5)
  by (auto simp: mem_wf_def mem_ranges_def hole_range_def segment_range_def)

lemma mem_wf_positive:
  assumes "mem_wf m"
  shows "\<forall>h \<in> set (holes m). 0 < h_size h" "\<forall>s \<in> set (segments m). 0 < s_size s"
proof -
  show "\<forall>h \<in> set (holes m). 0 < h_size h"
    using hole_bounds(3) [OF assms] by blast
  show "\<forall>s \<in> set (segments m). 0 < s_size s"
    using mem_wfD(3) [OF assms segment_in_ranges] by (simp add: segment_range_def)
qed

lemma mem_wf_carve:
  assumes "mem_wf m" "holes m = xs @ h # ys" "0 < sz" "sz \<le> h_size h"
  shows "mem_wf (update_segment_list (m\<lparr>holes := update_hole_table (holes m) h (to_u32 sz)\<rparr>) h sz pid sid)"
proof -
  let ?rest = "if h_size h = sz then [] else [\<lparr>h_base = h_base h + sz, h_size = h_size h - sz\<rparr>]"
  have upd: "update_hole_table (holes m) h (to_u32 sz) = xs @ ?rest @ ys"
    using update_hole_table_split [OF assms(1,2)] assms(3,4) by simp
  let ?s = "\<lparr>s_id = sid, s_pid = pid, s_base = h_base h, s_size = sz\<rparr>"
  have "cov (hole_range h) a = cov (h_base h, sz) a + cover (map hole_range ?rest) a" for a
    using cov_join [of sz "h_size h - sz" "h_base h" a] assms(3,4)
    by (simp add: hole_range_def)
  then have cov: "cover (map hole_range (xs @ ?rest @ ys)) a + cover (map segment_range (segments m @ [?s])) a
      = cover (mem_ranges m) a" for a
    by (simp add: mem_ranges_def assms(2) segment_range_def)
  have "mem_wf (m\<lparr>holes := xs @ ?rest @ ys, segments := segments m @ [?s]\<rparr>)"
    using mem_wf_positive [OF assms(1)] assms(2-4)
    by (intro mem_wf_update [OF assms(1) coalesced_carve [OF assms] _ _ cov]) auto
  then show ?thesis by (simp add: update_segment_list_def upd)
qed

lemma grow_adjacent_cases:
  "(\<exists>xs h ys. hs = xs @ h # ys \<and> h_base h + h_size h = t
        \<and> grow_adjacent t n hs = Some (xs @ h\<lparr>h_size := h_size h + n\<rparr> # ys))
   \<or> grow_adjacent t n hs = None \<and> (\<forall>h \<in> set hs. h_base h + h_size h \<noteq> t)"
proof (induction hs)
  case (Cons h hs)
  show ?case
  proof (cases "h_base h + h_size h = t")
    case True
    then show ?thesis by (intro disjI1 exI [of _ "[]"] exI [of _ h] exI [of _ hs]) simp
  next
    case False
    from Cons.IH show ?thesis
    proof (elim disjE exE conjE)
      fix xs g ys
      assume "hs = xs @ g # ys" "h_base g + h_size g = t"
        "grow_adjacent t n hs = Some (xs @ g\<lparr>h_size := h_size g + n\<rparr> # ys)"
      with False show ?thesis
        by (intro disjI1 exI [of _ "h # xs"] exI [of _ g] exI [of _ ys]) simp
    next
      assume "grow_adjacent t n hs = None" "\<forall>h \<in> set hs. h_base h + h_size h \<noteq> t"
      with False show ?thesis by simp
    qed
  qed
qed simp

lemma coalesced_grown_end:
  assumes wf: "mem_wf m" and hs: "holes m = xs @ h # ys" and e: "h_base h + h_size h = total_size m"
    and n: "0 < n"
  shows "coalesced (xs @ h\<lparr>h_size := h_size h + n\<rparr> # ys)"
proof -
  have co: "h_base g + h_size g \<noteq> h_base g'" if "g \<in> set (xs @ h # ys)" "g' \<in> set (xs @ h # ys)" for g g'
    using mem_wfD(4) [OF wf] that hs unfolding coalesced_def by metis
  have "h_base g < h_base h + h_size h + n" if "g \<in> set (xs @ h # ys)" for g
    using hole_bounds(2,3) [OF wf, of g] that hs e n by simp
  then have far: "h_base h + (h_size h + n) \<noteq> h_base g" if "g \<in> set (xs @ h # ys)" for g
    using that by (metis add.assoc less_irrefl)
  show ?thesis unfolding coalesced_def
  proof (intro ballI)
    fix g g'
    assume "g \<in> set (xs @ h\<lparr>h_size := h_size h + n\<rparr> # ys)" "g' \<in> set (xs @ h\<lparr>h_size := h_size h + n\<rparr> # ys)"
    then show "h_base g + h_size g \<noteq> h_base g'"
      using co [of g g'] co [of g h] far [of g'] far [of h] by auto
  qed
qed

lemma coalesced_append_end:
  assumes wf: "mem_wf m" and g: "\<forall>h \<in> set (holes m). h_base h + h_size h \<noteq> total_size m" and n: "0 < n"
  shows "coalesced (holes m @ [\<lparr>h_base = total_size m, h_size = n\<rparr>])"
proof -
  have far: "total_size m + n \<noteq> h_base h" if "h \<in> set (holes m)" for h
    using hole_bounds(2,3) [OF wf that] n by linarith
  from g far n mem_wfD(4) [OF wf] show ?thesis unfolding coalesced_def by auto
qed

lemma mem_wf_grow:
  assumes "mem_wf m" "0 < n" "total_size m + n < 2 ^ 31" "coalesced hs" "\<forall>h \<in> set hs. 0 < h_size h"
    and "\<And>a. cover (map hole_range hs) a = cover (map hole_range (holes m)) a + cov (total_size m, n) a"
  shows "mem_wf (m\<lparr>total_size := total_size m + n, holes := hs\<rparr>)"
proof -
  have "cov (0, total_size m) a + cov (total_size m, n) a = cov (0, total_size m + n) a" for a
    using cov_join [of "total_size m" n 0 a] mem_wfD(1) [OF assms(1)] assms(2) by simp
  moreover have "cover (map hole_range (holes m)) a + cover (map segment_range (segments m)) a = cov (0, total_size m) a" for a
    using mem_wfD(5) [OF assms(1), of a] by (simp add: mem_ranges_def)
  ultimately have "cover (map hole_range hs) a + cover (map segment_range (segments m)) a = cov (0, total_size m + n) a" for a
    using assms(6) [of a] by (metis add.assoc add.commute)
  then show ?thesis
    using mem_wfD(1) [OF assms(1)] mem_wf_positive(2) [OF assms(1)] assms(2-5)
    by (simp add: mem_wf_def mem_ranges_def ball_Un hole_range_def segment_range_def)
qed

lemma mem_wf_add_total_memory:
  assumes wf: "mem_wf m" and n: "0 < n" "total_size m + n < 2 ^ 31"
  shows "mem_wf (add_total_memory m n)"
proof -
  let ?T = "total_size m"
  from grow_adjacent_cases [of "holes m" ?T n] show ?thesis
  proof (elim disjE exE conjE)
    fix xs h ys
    assume hs: "holes m = xs @ h # ys" and e: "h_base h + h_size h = ?T"
      and g: "grow_adjacent ?T n (holes m) = Some (xs @ h\<lparr>h_size := h_size h + n\<rparr> # ys)"
    let ?hs = "xs @ h\<lparr>h_size := h_size h + n\<rparr> # ys"
    have pos: "0 < h_size h" using hole_bounds(3) [OF wf, of h] hs by simp
    have "cov (hole_range h) a + cov (?T, n) a = cov (h_base h, h_size h + n) a" for a
      using cov_join [of "h_size h" n "h_base h" a] pos n e by (simp add: hole_range_def)
    then have c: "cover (map hole_range ?hs) a = cover (map hole_range (holes m)) a + cov (?T, n) a" for a
      by (simp add: hs hole_range_def algebra_simps)
    have "\<forall>h \<in> set ?hs. 0 < h_size h"
      using mem_wf_positive(1) [OF wf] n pos hs by auto
    from mem_wf_grow [OF wf n coalesced_grown_end [OF wf hs e n(1)] this c] show ?thesis
      by (simp add: add_total_memory_def g Let_def)
  next
    assume g: "grow_adjacent ?T n (holes m) = None" "\<forall>h \<in> set (holes m). h_base h + h_size h \<noteq> ?T"
    have pos: "\<forall>h \<in> set (holes m @ [\<lparr>h_base = ?T, h_size = n\<rparr>]). 0 < h_size h"
      using mem_wf_positive(1) [OF wf] n by auto
    have "cover (map hole_range (holes m @ [\<lparr>h_base = ?T, h_size = n\<rparr>])) a
        = cover (map hole_range (holes m)) a + cov (?T, n) a" for a
      by (simp add: hole_range_def)
    from mem_wf_grow [OF wf n coalesced_append_end [OF wf g(2) n(1)] pos this] show ?thesis
      by (simp add: add_total_memory_def g Let_def)
  qed
qed


subsubsection \<open>Compaction\<close>

lemma used_space_simps [simp]:
  "used_space [] = 0" "used_space (s # ss) = s_size s + used_space ss"
  "used_space (ss @ ss') = used_space ss + used_space ss'"
  by (simp_all add: used_space_def)

lemma used_space_nonneg: "\<forall>s \<in> set ss. 0 < s_size s \<Longrightarrow> 0 \<le> used_space ss"
  by (induction ss) auto

lemma slide_after_cover:
  assumes "\<forall>s \<in> set ss. 0 < s_size s"
  shows "cover (map segment_range (slide_after s ss)) a = cov (s_base s + s_size s, used_space ss) a"
  using assms
proof (induction ss arbitrary: s)
  case (Cons t ss)
  have "cov (s_base s + s_size s, s_size t) a + cov (s_base s + s_size s + s_size t, used_space ss) a
      = cov (s_base s + s_size s, s_size t + used_space ss) a"
    using Cons.prems used_space_nonneg [of ss] by (intro cov_join) auto
  with Cons show ?case by (simp add: Let_def segment_range_def)
qed simp

lemma compact_segments_cover:
  assumes "\<forall>s \<in> set ss. 0 < s_size s"
  shows "cover (map segment_range (compact_segments ss)) a = cov (0, used_space ss) a"
proof (cases ss)
  case (Cons s ss')
  have "cov (0, s_size s) a + cov (0 + s_size s, used_space ss') a = cov (0, s_size s + used_space ss') a"
    using assms used_space_nonneg [of ss'] by (intro cov_join) (auto simp: Cons)
  with assms show ?thesis by (simp add: Cons Let_def slide_after_cover segment_range_def)
qed simp

lemma slide_after_map: "map s_size (slide_after s ss) = map s_size ss"
  by (induction ss arbitrary: s) (simp_all add: Let_def)

lemma compact_segments_keeps:
  "map s_size (compact_segments ss) = map s_size ss"
  "map s_id (compact_segments ss) = map s_id ss"
  "map s_pid (compact_segments ss) = map s_pid ss"
proof -
  have "map s_id (slide_after s ss) = map s_id ss" "map s_pid (slide_after s ss) = map s_pid ss" for s ss
    by (induction ss arbitrary: s) (simp_all add: Let_def)
  then show "map s_size (compact_segments ss) = map s_size ss"
    "map s_id (compact_segments ss) = map s_id ss" "map s_pid (compact_segments ss) = map s_pid ss"
    by (cases ss; simp add: Let_def slide_after_map)+
qed

lemma used_space_map: "used_space ss = sum_list (map s_size ss)"
  by (simp add: used_space_def)

lemma used_space_compact [simp]: "used_space (compact_segments ss) = used_space ss"
  by (simp add: used_space_map compact_segments_keeps)

lemma positive_compact:
  assumes "\<forall>s \<in> set ss. 0 < s_size s"
  shows "\<forall>s \<in> set (compact_segments ss). 0 < s_size s"
proof -
  have "set (map s_size (compact_segments ss)) = set (map s_size ss)"
    by (simp only: compact_segments_keeps)
  with assms show ?thesis by (metis (no_types, lifting) image_eqI image_iff list.set_map)
qed

lemma slide_after_last_end:
  "s_base (last (s # slide_after s ss)) + s_size (last (s # slide_after s ss)) = s_base s + s_size s + used_space ss"
proof (induction ss arbitrary: s)
  case (Cons t ss)
  from Cons.IH [of "t\<lparr>s_base := s_base s + s_size s\<rparr>"] show ?case
    by (simp add: Let_def algebra_simps)
qed simp

lemma last_segment_end_compact:
  "ss \<noteq> [] \<Longrightarrow> compute_last_segment_end (compact_segments ss) = Some (used_space ss)"
proof (cases ss)
  case (Cons s ss')
  then show ?thesis
    using slide_after_last_end [of "s\<lparr>s_base := 0\<rparr>" ss']
    by (simp add: compute_last_segment_end_def Let_def)
qed simp

lemma compact_memory_eq:
  assumes "mem_wf m" "segments m \<noteq> []"
  shows "compact_memory m =
    Some (m\<lparr>segments := compact_segments (segments m),
            holes := [\<lparr>h_base = used_space (segments m), h_size = compute_free_space (holes m)\<rparr>]\<rparr>,
          [(OP_COMPACTION_DONE, ''Compaction finished'')])"
  using free_plus_used [OF assms(1)] last_segment_end_compact [OF assms(2)]
  by (simp add: compact_memory_def compact_holes_def Let_def)

lemma compact_memory_wf:
  assumes wf: "mem_wf m" and free: "0 < compute_free_space (holes m)"
  shows "mem_wf (m\<lparr>segments := compact_segments (segments m),
            holes := [\<lparr>h_base = used_space (segments m), h_size = compute_free_space (holes m)\<rparr>]\<rparr>)"
proof -
  let ?hs = "[\<lparr>h_base = used_space (segments m), h_size = compute_free_space (holes m)\<rparr>]"
  note pos = mem_wf_positive(2) [OF wf]
  have "cov (0, used_space (segments m)) a + cov (0 + used_space (segments m), compute_free_space (holes m)) a
      = cov (0, total_size m) a" for a
    using cov_join [of "used_space (segments m)" "compute_free_space (holes m)" 0 a]
      free_plus_used [OF wf] used_space_nonneg [OF pos] free by (simp add: add.commute)
  then have c: "cover (map hole_range ?hs) a + cover (map segment_range (compact_segments (segments m))) a
      = cover (mem_ranges m) a" for a
    by (simp add: compact_segments_cover [OF pos] mem_wfD(5) [OF wf] hole_range_def add.commute)
  have "coalesced ?hs" using free by (simp add: coalesced_def)
  from mem_wf_update [OF wf this _ positive_compact [OF pos] c] free show ?thesis
    by (cases m) simp
qed

text \<open>Without segments the memory is one hole, so the compaction never reads past an empty list.\<close>

lemma holes_disjoint:
  assumes "mem_wf m" "h \<in> set (holes m)" "g \<in> set (holes m)" "h \<noteq> g"
  shows "cov (hole_range h) a + cov (hole_range g) a \<le> 1"
proof -
  obtain xs ys where "holes m = xs @ h # ys" using assms(2) by (auto dest: split_list)
  with no_double_hole [OF assms(1) this, of g a] assms(3,4) show ?thesis by auto
qed

lemma cover_member: "0 < cover rs a \<Longrightarrow> \<exists>r \<in> set rs. cov r a = 1"
  by (induction rs) (auto simp: cov_def split: if_splits)

lemma no_segments_one_hole:
  assumes wf: "mem_wf m" and none: "segments m = []" and pos: "0 < total_size m"
  shows "\<exists>h \<in> set (holes m). h_size h = total_size m"
proof -
  have cov: "\<exists>h \<in> set (holes m). cov (hole_range h) a = 1" if "0 \<le> a" "a < total_size m" for a
  proof -
    have "cover (map hole_range (holes m)) a = 1"
      using mem_wfD(5) [OF wf, of a] that none by (simp add: mem_ranges_def cov_def)
    with cover_member [of "map hole_range (holes m)" a] show ?thesis by auto
  qed
  obtain h where h: "h \<in> set (holes m)" "cov (hole_range h) 0 = 1" using cov [of 0] pos by auto
  then have base: "h_base h = 0"
    using hole_bounds(1) [OF wf h(1)] by (auto simp: cov_def hole_range_def split: if_splits)
  have "h_size h = total_size m"
  proof (rule ccontr)
    assume ne: "h_size h \<noteq> total_size m"
    with hole_bounds [OF wf h(1)] base obtain g where
      g: "g \<in> set (holes m)" "cov (hole_range g) (h_size h) = 1" using cov [of "h_size h"] by auto
    have "h \<noteq> g" using g(2) base by (auto simp: cov_def hole_range_def)
    from holes_disjoint [OF wf h(1) g(1) this, of "h_size h - 1"] g(2) hole_bounds(3) [OF wf h(1)] base
    have "h_base g = h_size h" by (auto simp: cov_def hole_range_def split: if_splits)
    with mem_wfD(4) [OF wf] h(1) g(1) base show False by (fastforce simp: coalesced_def)
  qed
  with h(1) show ?thesis by blast
qed

subsubsection \<open>Deallocation\<close>

lemma adjacent_loop_cases:
  assumes "adjacent_loop hs i b e (x, y) = (bf, af)"
  shows "(bf = x \<and> (\<forall>h \<in> set hs. h_base h + h_size h \<noteq> b)
           \<or> (\<exists>k < length hs. bf = i + int k \<and> h_base (hs ! k) + h_size (hs ! k) = b))
       \<and> (af = y \<and> (\<forall>h \<in> set hs. h_base h \<noteq> e)
           \<or> (\<exists>k < length hs. af = i + int k \<and> h_base (hs ! k) = e))"
  using assms
proof (induction hs arbitrary: i x y)
  case (Cons h hs)
  have step: "(\<exists>k < length hs. z = i + 1 + int k \<and> P (hs ! k)) \<Longrightarrow>
      (\<exists>k < length (h # hs). z = i + int k \<and> P ((h # hs) ! k))" for z and P :: "t_hole \<Rightarrow> bool"
    by (metis Suc_less_eq add.assoc add.commute length_Cons nth_Cons_Suc of_nat_Suc)
  have here: "P h \<Longrightarrow> \<exists>k < length (h # hs). i = i + int k \<and> P ((h # hs) ! k)" for P :: "t_hole \<Rightarrow> bool"
    by (intro exI [of _ 0]) simp
  let ?x = "if h_base h + h_size h = b then i else x"
  let ?y = "if h_base h = e then i else y"
  have "adjacent_loop hs (i + 1) b e (?x, ?y) = (bf, af)" using Cons.prems by simp
  from Cons.IH [OF this] show ?case
  proof (intro conjI, goal_cases)
    case 1
    then show ?case
      using step [of bf "\<lambda>h. h_base h + h_size h = b"] here [of "\<lambda>h. h_base h + h_size h = b"]
      by (cases "h_base h + h_size h = b") auto
  next
    case 2
    then show ?case
      using step [of af "\<lambda>h. h_base h = e"] here [of "\<lambda>h. h_base h = e"]
      by (cases "h_base h = e") auto
  qed
qed simp

lemma remove_at_split: "i < length xs \<Longrightarrow> mset xs = add_mset (xs ! i) (mset (remove_at (int i) xs))"
  by (metis (no_types, lifting) id_take_nth_drop mset_append mset.simps(2) nat_int remove_at_def union_mset_add_mset_right)

lemma remove_at_two:
  assumes "i < j" "j < length xs"
  shows "mset xs = add_mset (xs ! i) (add_mset (xs ! j) (mset (remove_at (int i) (remove_at (int j) xs))))"
proof -
  have "i < length (remove_at (int j) xs)" "remove_at (int j) xs ! i = xs ! i"
    using assms by (simp_all add: remove_at_def nth_append)
  with remove_at_split [of i "remove_at (int j) xs"] remove_at_split [of j xs] assms show ?thesis
    by simp
qed

text \<open>What a deallocation does to the hole table: at most one hole on each side is absorbed.\<close>

definition absorbed :: "t_hole list \<Rightarrow> (t_hole \<Rightarrow> bool) \<Rightarrow> t_hole option \<Rightarrow> bool" where
  "absorbed hs p x \<longleftrightarrow> (case x of None \<Rightarrow> \<forall>h \<in> set hs. \<not> p h | Some h \<Rightarrow> p h)"

definition opt_size :: "t_hole option \<Rightarrow> int" where
  "opt_size x = (case x of None \<Rightarrow> 0 | Some h \<Rightarrow> h_size h)"

definition opt_hole :: "t_hole option \<Rightarrow> t_hole multiset" where
  "opt_hole x = (case x of None \<Rightarrow> {#} | Some h \<Rightarrow> {#h#})"

lemma merged_holes_cases:
  assumes pos: "\<forall>h \<in> set hs. 0 < h_size h" "0 < s_size seg"
  obtains rest bf af where
    "merged_holes hs seg = rest @ [\<lparr>h_base = (case bf of None \<Rightarrow> s_base seg | Some h \<Rightarrow> h_base h),
        h_size = s_size seg + (opt_size bf + opt_size af)\<rparr>]"
    "mset hs = opt_hole bf + opt_hole af + mset rest"
    "absorbed hs (\<lambda>h. h_base h + h_size h = s_base seg) bf"
    "absorbed hs (\<lambda>h. h_base h = s_base seg + s_size seg) af"
proof -
  let ?b = "s_base seg" and ?e = "s_base seg + s_size seg"
  obtain i j where ij: "find_adjacent_hole_indices hs ?b (s_size seg) = (i, j)" by fastforce
  from adjacent_loop_cases [OF this [unfolded find_adjacent_hole_indices_def]]
  consider (none) "i = -1" "j = -1" "\<forall>h \<in> set hs. h_base h + h_size h \<noteq> ?b" "\<forall>h \<in> set hs. h_base h \<noteq> ?e"
    | (before) k where "i = int k" "k < length hs" "j = -1" "h_base (hs ! k) + h_size (hs ! k) = ?b"
        "\<forall>h \<in> set hs. h_base h \<noteq> ?e"
    | (after) k where "i = -1" "j = int k" "k < length hs" "h_base (hs ! k) = ?e"
        "\<forall>h \<in> set hs. h_base h + h_size h \<noteq> ?b"
    | (both) k l where "i = int k" "k < length hs" "j = int l" "l < length hs"
        "h_base (hs ! k) + h_size (hs ! k) = ?b" "h_base (hs ! l) = ?e"
    by auto
  then show ?thesis
  proof cases
    case none
    then show ?thesis
      by (intro that [of hs None None])
        (simp_all add: merged_holes_def ij absorbed_def opt_size_def opt_hole_def Let_def)
  next
    case before
    then show ?thesis
      using remove_at_split [of k hs]
      by (intro that [of "remove_at i hs" "Some (hs ! k)" None])
        (simp_all add: merged_holes_def ij absorbed_def opt_size_def opt_hole_def Let_def)
  next
    case after
    then show ?thesis
      using remove_at_split [of k hs]
      by (intro that [of "remove_at j hs" None "Some (hs ! k)"])
        (simp_all add: merged_holes_def ij absorbed_def opt_size_def opt_hole_def Let_def)
  next
    case both
    have "0 < h_size (hs ! k)" using pos(1) both(2) by auto
    with both(5,6) pos(2) have "k \<noteq> l" by auto
    let ?rest = "if i < j then remove_at i (remove_at j hs) else remove_at j (remove_at i hs)"
    have "mset hs = {#hs ! k#} + {#hs ! l#} + mset ?rest"
      using remove_at_two [of k l hs] remove_at_two [of l k hs] both \<open>k \<noteq> l\<close>
      by (cases "k < l") auto
    with both show ?thesis
      by (intro that [of ?rest "Some (hs ! k)" "Some (hs ! l)"])
        (simp_all add: merged_holes_def ij absorbed_def opt_size_def opt_hole_def Let_def)
  qed
qed

lemma cover_mset: "cover rs a = (\<Sum>r\<in>#mset rs. cov r a)"
  by (simp add: cover_def flip: sum_mset_sum_list)

lemma merged_holes_cover:
  assumes "\<forall>h \<in> set hs. 0 < h_size h" "0 < s_size seg"
  shows "cover (map hole_range (merged_holes hs seg)) a
      = cover (map hole_range hs) a + cov (segment_range seg) a"
proof -
  let ?b = "s_base seg" and ?e = "s_base seg + s_size seg"
  obtain rest bf af where
    m: "merged_holes hs seg = rest @ [\<lparr>h_base = (case bf of None \<Rightarrow> ?b | Some h \<Rightarrow> h_base h),
        h_size = s_size seg + (opt_size bf + opt_size af)\<rparr>]"
    and hs: "mset hs = opt_hole bf + opt_hole af + mset rest"
    and bf: "absorbed hs (\<lambda>h. h_base h + h_size h = ?b) bf"
    and af: "absorbed hs (\<lambda>h. h_base h = ?e) af"
    using merged_holes_cases [OF assms] by blast
  have "set_mset (opt_hole bf + opt_hole af) \<subseteq> set hs"
    by (metis hs mset_subset_eq_add_left set_mset_mono set_mset_mset)
  then have pos: "0 \<le> opt_size bf" "0 \<le> opt_size af"
    using assms(1) by (auto simp: opt_size_def opt_hole_def intro: less_imp_le split: option.splits)
  have b: "(case bf of None \<Rightarrow> ?b | Some h \<Rightarrow> h_base h) = ?b - opt_size bf"
    using bf by (auto simp: absorbed_def opt_size_def split: option.splits)
  have "cov (?b - opt_size bf, s_size seg + (opt_size bf + opt_size af)) a
      = cov (?b - opt_size bf, opt_size bf) a + cov (?b, s_size seg) a + cov (?e, opt_size af) a"
    using pos assms(2) cov_join [of "opt_size bf" "s_size seg" "?b - opt_size bf" a]
      cov_join [of "opt_size bf + s_size seg" "opt_size af" "?b - opt_size bf" a]
    by (simp add: algebra_simps)
  moreover have "(\<Sum>h\<in>#opt_hole bf. cov (hole_range h) a) = cov (?b - opt_size bf, opt_size bf) a"
    unfolding b [symmetric] by (cases bf) (simp_all add: opt_size_def opt_hole_def hole_range_def)
  moreover have "(\<Sum>h\<in>#opt_hole af. cov (hole_range h) a) = cov (?e, opt_size af) a"
    using af by (auto simp: absorbed_def opt_size_def opt_hole_def hole_range_def split: option.splits)
  moreover have "cover (map hole_range hs) a
      = (\<Sum>h\<in>#opt_hole bf. cov (hole_range h) a) + (\<Sum>h\<in>#opt_hole af. cov (hole_range h) a)
        + cover (map hole_range rest) a"
    by (simp add: cover_mset hs multiset.map_comp comp_def)
  ultimately show ?thesis
    by (simp add: m b hole_range_def segment_range_def)
qed

lemma merged_holes_coalesced:
  assumes "\<forall>h \<in> set hs. 0 < h_size h" "0 < s_size seg" "coalesced hs"
  shows "coalesced (merged_holes hs seg) \<and> (\<forall>h \<in> set (merged_holes hs seg). 0 < h_size h)"
proof -
  let ?b = "s_base seg" and ?e = "s_base seg + s_size seg"
  obtain rest bf af where
    m: "merged_holes hs seg = rest @ [\<lparr>h_base = (case bf of None \<Rightarrow> ?b | Some h \<Rightarrow> h_base h),
        h_size = s_size seg + (opt_size bf + opt_size af)\<rparr>]"
    and hs: "mset hs = opt_hole bf + opt_hole af + mset rest"
    and bf: "absorbed hs (\<lambda>h. h_base h + h_size h = ?b) bf"
    and af: "absorbed hs (\<lambda>h. h_base h = ?e) af"
    using merged_holes_cases [OF assms(1,2)] by blast
  have sub: "set rest \<subseteq> set hs" "set_mset (opt_hole bf) \<subseteq> set hs" "set_mset (opt_hole af) \<subseteq> set hs"
    by (metis hs set_mset_mset set_mset_union Un_subset_iff order_refl)+
  let ?new = "last (merged_holes hs seg)"
  have new: "h_base ?new = ?b - opt_size bf" "h_size ?new = s_size seg + (opt_size bf + opt_size af)"
    using bf by (auto simp: m absorbed_def opt_size_def split: option.splits)
  have pos: "0 \<le> opt_size bf" "0 \<le> opt_size af"
    using assms(1) sub by (auto simp: opt_size_def opt_hole_def intro: less_imp_le split: option.splits)
  have co: "h_base g + h_size g \<noteq> h_base g'" if "g \<in> set hs" "g' \<in> set hs" for g g'
    using assms(3) that by (auto simp: coalesced_def)
  have left: "h_base g + h_size g \<noteq> h_base ?new" if "g \<in> set rest" for g
  proof (cases bf)
    case None
    with new bf that sub(1) show ?thesis by (auto simp: absorbed_def opt_size_def)
  next
    case (Some h)
    then have "h_base ?new = h_base h" "h \<in> set hs"
      using bf new sub(2) by (auto simp: absorbed_def opt_size_def opt_hole_def)
    with co [of g h] that sub(1) show ?thesis by auto
  qed
  have right: "h_base ?new + h_size ?new \<noteq> h_base g" if "g \<in> set rest" for g
  proof (cases af)
    case None
    with new af that sub(1) show ?thesis by (auto simp: absorbed_def opt_size_def)
  next
    case (Some h)
    then have "h_base ?new + h_size ?new = h_base h + h_size h" "h \<in> set hs"
      using af new sub(3) by (auto simp: absorbed_def opt_size_def opt_hole_def)
    with co [of h g] that sub(1) show ?thesis by auto
  qed
  have "merged_holes hs seg = rest @ [?new]" by (simp add: m)
  moreover have "h_base g + h_size g \<noteq> h_base g'" if "g \<in> set rest" "g' \<in> set rest" for g g'
    using co that sub(1) by blast
  then have "coalesced (rest @ [?new])"
    using left right new(2) pos assms(2) unfolding coalesced_def by auto
  moreover have "\<forall>h \<in> set (rest @ [?new]). 0 < h_size h"
    using assms(1) sub(1) new(2) pos assms(2) by auto
  ultimately show ?thesis by metis
qed

lemma find_remove_first_split:
  "find p xs = Some x \<Longrightarrow> \<exists>ys zs. xs = ys @ x # zs \<and> remove_first p xs = ys @ zs \<and> p x"
proof (induction xs)
  case (Cons y xs)
  show ?case
  proof (cases "p y")
    case True
    with Cons.prems show ?thesis by (intro exI [of _ "[]"] exI [of _ xs]) simp
  next
    case False
    with Cons obtain ys zs where "xs = ys @ x # zs" "remove_first p xs = ys @ zs" "p x" by auto
    with False show ?thesis by (intro exI [of _ "y # ys"] exI [of _ zs]) simp
  qed
qed simp

lemma mem_wf_remove_segment:
  assumes wf: "mem_wf m"
  shows "mem_wf (remove_segment sid pid m)"
proof (cases "find (is_segment sid pid) (segments m)")
  case None
  then show ?thesis using wf by (simp add: remove_segment_def find_and_remove_segment_def remove_first_idem)
next
  case (Some seg)
  then obtain ys zs where split: "segments m = ys @ seg # zs"
      "remove_first (is_segment sid pid) (segments m) = ys @ zs"
    using find_remove_first_split by metis
  note pos = mem_wf_positive [OF wf]
  have "0 < s_size seg" using pos(2) split(1) by simp
  note merged = merged_holes_coalesced [OF pos(1) this mem_wfD(4) [OF wf]]
    merged_holes_cover [OF pos(1) this]
  have "mem_wf (m\<lparr>holes := merged_holes (holes m) seg, segments := ys @ zs\<rparr>)"
    using merged pos split(1) by (intro mem_wf_update [OF wf]) (auto simp: mem_ranges_def)
  moreover have "remove_segment sid pid m = m\<lparr>holes := merged_holes (holes m) seg, segments := ys @ zs\<rparr>"
    by (simp add: remove_segment_def find_and_remove_segment_def Some split(2))
  ultimately show ?thesis by simp
qed

subsubsection \<open>\<open>create_segment\<close> on every branch\<close>

definition new_segment :: "u32 \<Rightarrow> u32 \<Rightarrow> int \<Rightarrow> t_hole \<Rightarrow> t_segment" where
  "new_segment sid pid sz h = \<lparr>s_id = sid, s_pid = pid, s_base = h_base h, s_size = sz\<rparr>"

definition exceeded_reply :: "int \<Rightarrow> t_main_memory \<Rightarrow> message list" where
  "exceeded_reply sz m = (if sz > max_segment_size m
     then [(OP_SEGMENT_SIZE_EXCEEDED, ''The requested size exceeds the max segment size.'')] else [])"

abbreviation (input) allocated_reply :: message where
  "allocated_reply \<equiv> (OP_MEMORY_ALLOCATED, ''Memory allocated'')"

lemma update_hole_table_none:
  assumes "mem_wf m"
  shows "update_hole_table (holes m) no_hole sz = holes m"
proof -
  have "\<forall>h \<in> set hs. h_base h \<noteq> -1 \<Longrightarrow> update_hole_table hs no_hole sz = hs" for hs
    by (induction hs) (auto simp: no_hole_def)
  moreover have "\<forall>h \<in> set (holes m). h_base h \<noteq> -1"
    using hole_bounds(1) [OF assms] by fastforce
  ultimately show ?thesis by blast
qed

lemma select_hole_fit:
  assumes "mem_wf m" "allocation_strategy m \<noteq> AS_INVALID" "0 < sz" "h \<in> set (holes m)" "sz \<le> h_size h"
  obtains c xs ys where "select_hole (to_u32 sz) m = (c, m\<lparr>holes := update_hole_table (holes m) c (to_u32 sz)\<rparr>)"
    "holes m = xs @ c # ys" "sz \<le> h_size c" "h_size c \<noteq> -1"
    "\<forall>g \<in> set (holes m). sz \<le> h_size g \<longrightarrow> size_better (allocation_strategy m) (h_size c) (h_size g)"
proof -
  let ?c = "hole_selection_algorithm (to_u32 sz) (holes m) (allocation_strategy m)"
  have "sz < 2 ^ 31" using hole_bounds(4) [OF assms(1,4)] assms(5) by linarith
  from hole_selection_spec [OF assms(1,2) less_imp_le [OF assms(3)] this refl] assms(4,5)
  have c: "?c \<in> set (holes m)" "sz \<le> h_size ?c"
    "\<forall>g \<in> set (holes m). sz \<le> h_size g \<longrightarrow> size_better (allocation_strategy m) (h_size ?c) (h_size g)"
    by (auto split: if_splits)
  moreover have "select_hole (to_u32 sz) m = (?c, m\<lparr>holes := update_hole_table (holes m) ?c (to_u32 sz)\<rparr>)"
    using assms(2) by (cases "allocation_strategy m") (simp_all add: select_hole_def Let_def)
  moreover have "h_size ?c \<noteq> -1" using c(2) assms(3) by linarith
  ultimately show ?thesis using that split_list [OF c(1)] by metis
qed

lemma select_hole_no_fit:
  assumes "mem_wf m" "allocation_strategy m \<noteq> AS_INVALID" "0 < sz" "sz < 2 ^ 31"
    "\<forall>h \<in> set (holes m). h_size h < sz"
  shows "select_hole (to_u32 sz) m = (no_hole, m)"
proof -
  have "hole_selection_algorithm (to_u32 sz) (holes m) (allocation_strategy m) = no_hole"
    using hole_selection_spec [OF assms(1,2) less_imp_le [OF assms(3)] assms(4) refl] assms(5) by simp
  with assms(2) show ?thesis
    by (cases "allocation_strategy m") (simp_all add: select_hole_def update_hole_table_none [OF assms(1)])
qed

lemma create_segment_not_enough:
  "compute_free_space (holes m) < sz \<Longrightarrow> create_segment sid pid sz m =
     Some (m, exceeded_reply sz m @ [(OP_NOT_ENOUGH_MEMORY, ''There are not memory enough'')])"
  by (simp add: create_segment_def exceeded_reply_def Let_def)

lemma hole_le_free:
  assumes "mem_wf m" "h \<in> set (holes m)"
  shows "h_size h \<le> compute_free_space (holes m)"
proof -
  obtain xs ys where xs: "holes m = xs @ h # ys" using assms(2) by (auto dest: split_list)
  have "0 \<le> (\<Sum>h\<leftarrow>zs. h_size h)" if "set zs \<subseteq> set (holes m)" for zs
    using hole_bounds(3) [OF assms(1)] that by (intro sum_list_nonneg) (auto intro: less_imp_le)
  then have "0 \<le> (\<Sum>h\<leftarrow>xs. h_size h)" "0 \<le> (\<Sum>h\<leftarrow>ys. h_size h)" using xs by auto
  then show ?thesis by (simp add: compute_free_space_sum xs)
qed

lemma create_segment_fit:
  assumes "mem_wf m" "allocation_strategy m \<noteq> AS_INVALID" "0 < sz" "h \<in> set (holes m)" "sz \<le> h_size h"
  obtains c m' where "create_segment sid pid sz m = Some (m', exceeded_reply sz m @ [allocated_reply])"
    "mem_wf m'" "c \<in> set (holes m)" "sz \<le> h_size c"
    "\<forall>g \<in> set (holes m). sz \<le> h_size g \<longrightarrow> size_better (allocation_strategy m) (h_size c) (h_size g)"
    "segments m' = segments m @ [new_segment sid pid sz c]" "total_size m' = total_size m"
    "max_segment_size m' = max_segment_size m" "allocation_strategy m' = allocation_strategy m"
proof -
  obtain c xs ys where c: "select_hole (to_u32 sz) m = (c, m\<lparr>holes := update_hole_table (holes m) c (to_u32 sz)\<rparr>)"
    "holes m = xs @ c # ys" "sz \<le> h_size c" "h_size c \<noteq> -1"
    "\<forall>g \<in> set (holes m). sz \<le> h_size g \<longrightarrow> size_better (allocation_strategy m) (h_size c) (h_size g)"
    by (rule select_hole_fit [OF assms])
  let ?m = "update_segment_list (m\<lparr>holes := update_hole_table (holes m) c (to_u32 sz)\<rparr>) c sz pid sid"
  have "\<not> compute_free_space (holes m) < sz" using hole_le_free [OF assms(1,4)] assms(5) by linarith
  with c(1,4) have "create_segment sid pid sz m = Some (?m, exceeded_reply sz m @ [allocated_reply])"
    by (simp add: create_segment_def exceeded_reply_def Let_def)
  then show ?thesis
    using c(2) by (intro that [OF _ mem_wf_carve [OF assms(1) c(2) assms(3) c(3)] _ c(3,5)])
      (simp_all add: update_segment_list_def new_segment_def)
qed

lemma create_segment_compact:
  assumes "mem_wf m" "allocation_strategy m \<noteq> AS_INVALID" "0 < sz"
    "\<forall>h \<in> set (holes m). h_size h < sz" "sz \<le> compute_free_space (holes m)"
  obtains c m' where "create_segment sid pid sz m = Some (m', exceeded_reply sz m
      @ [(OP_COMPACTION_NEEDED, ''Memory needs to be compacted''), (OP_COMPACTION_DONE, ''Compaction finished''),
         allocated_reply])"
    "mem_wf m'" "h_base c = used_space (segments m)"
    "segments m' = compact_segments (segments m) @ [new_segment sid pid sz c]" "total_size m' = total_size m"
    "max_segment_size m' = max_segment_size m" "allocation_strategy m' = allocation_strategy m"
proof -
  let ?h = "\<lparr>h_base = used_space (segments m), h_size = compute_free_space (holes m)\<rparr>"
  let ?m = "m\<lparr>segments := compact_segments (segments m), holes := [?h]\<rparr>"
  have sz: "sz < 2 ^ 31"
    using free_space_bounds(2) [OF assms(1)] mem_wfD(2) [OF assms(1)] assms(5) by linarith
  have ne: "segments m \<noteq> []"
  proof
    assume e: "segments m = []"
    then have T: "total_size m = compute_free_space (holes m)" using free_plus_used [OF assms(1)] by simp
    with no_segments_one_hole [OF assms(1) e] assms(3,5) obtain h where "h \<in> set (holes m)" "h_size h = total_size m"
      by auto
    with assms(4,5) T show False by fastforce
  qed
  have wf: "mem_wf ?m" using compact_memory_wf [OF assms(1)] assms(3,5) by simp
  have hyp: "allocation_strategy ?m \<noteq> AS_INVALID" "?h \<in> set (holes ?m)" "sz \<le> h_size ?h"
    using assms(2,5) by simp_all
  obtain c xs ys where c: "select_hole (to_u32 sz) ?m = (c, ?m\<lparr>holes := update_hole_table (holes ?m) c (to_u32 sz)\<rparr>)"
    "holes ?m = xs @ c # ys" "sz \<le> h_size c"
    by (rule select_hole_fit [OF wf hyp(1) assms(3) hyp(2,3)])
  let ?m' = "update_segment_list (?m\<lparr>holes := update_hole_table (holes ?m) c (to_u32 sz)\<rparr>) c sz pid sid"
  have "create_segment sid pid sz m = Some (?m', exceeded_reply sz m
      @ [(OP_COMPACTION_NEEDED, ''Memory needs to be compacted''), (OP_COMPACTION_DONE, ''Compaction finished''),
         allocated_reply])"
    using select_hole_no_fit [OF assms(1-3) sz assms(4)] assms(5) compact_memory_eq [OF assms(1) ne] c(1)
    by (simp add: create_segment_def exceeded_reply_def no_hole_def notify_compaction_def Let_def)
  moreover have "c = ?h" using c(2) by (auto simp: Cons_eq_append_conv)
  ultimately show ?thesis
    by (intro that [where c = c, OF _ mem_wf_carve [OF wf c(2) assms(3) c(3)]])
      (simp_all add: update_segment_list_def new_segment_def)
qed

subsubsection \<open>Request sequences\<close>

text \<open>The requests that reach the memory: a stick brings memory, a process gets or frees a segment.\<close>

datatype mem_request = Add_stick int | Create u32 u32 int | Remove u32 u32

fun mem_apply :: "mem_request \<Rightarrow> t_main_memory \<Rightarrow> (t_main_memory \<times> message list) option" where
  "mem_apply (Add_stick n) m = Some (add_total_memory m n, [])"
| "mem_apply (Create sid pid sz) m = create_segment sid pid sz m"
| "mem_apply (Remove sid pid) m = Some (remove_segment sid pid m, [])"

fun request_ok :: "mem_request \<Rightarrow> t_main_memory \<Rightarrow> bool" where
  "request_ok (Add_stick n) m \<longleftrightarrow> 0 < n \<and> total_size m + n < 2 ^ 31"
| "request_ok (Create sid pid sz) m \<longleftrightarrow> 0 < sz"
| "request_ok (Remove sid pid) m \<longleftrightarrow> True"

lemma create_segment_keeps:
  assumes "mem_wf m" "allocation_strategy m \<noteq> AS_INVALID" "0 < sz"
  obtains m' msgs where "create_segment sid pid sz m = Some (m', msgs)" "mem_wf m'"
    "allocation_strategy m' = allocation_strategy m"
proof -
  consider (no) "compute_free_space (holes m) < sz"
    | (fit) h where "h \<in> set (holes m)" "sz \<le> h_size h"
    | (compact) "\<forall>h \<in> set (holes m). h_size h < sz" "sz \<le> compute_free_space (holes m)"
    by (meson not_le_imp_less)
  then show ?thesis
  proof cases
    case no
    from that [OF create_segment_not_enough [OF no] assms(1)] show ?thesis by simp
  next
    case fit
    from create_segment_fit [OF assms fit, of sid pid thesis] that show ?thesis by metis
  next
    case compact
    from create_segment_compact [OF assms compact, of sid pid thesis] that show ?thesis by metis
  qed
qed

lemma mem_apply_keeps:
  assumes "mem_wf m" "allocation_strategy m \<noteq> AS_INVALID" "request_ok r m"
  obtains m' msgs where "mem_apply r m = Some (m', msgs)" "mem_wf m'"
    "allocation_strategy m' = allocation_strategy m"
proof (cases r)
  case (Add_stick n)
  with assms mem_wf_add_total_memory [OF assms(1), of n] that show ?thesis
    by (simp add: add_total_memory_def Let_def)
next
  case (Create sid pid sz)
  with create_segment_keeps [OF assms(1,2), of sz sid pid thesis] assms(3) that show ?thesis by simp
next
  case (Remove sid pid)
  with assms mem_wf_remove_segment [OF assms(1), of sid pid] that show ?thesis
    by (simp add: remove_segment_def find_and_remove_segment_def split: option.splits)
qed

lemma mem_wf_init: "mem_wf (init_main_memory mx st d)"
  by (simp add: mem_wf_def init_main_memory_def mem_ranges_def coalesced_def cov_def)

interpretation memory: guarded_system request_ok mem_apply
  "\<lambda>m. mem_wf m \<and> allocation_strategy m \<noteq> AS_INVALID"
  by unfold_locales (metis mem_apply_keeps option.inject prod.inject)+

subsection \<open>Properties\<close>

lemma nth_pair_split:
  assumes "i < j" "j < length xs"
  obtains us vs ws where "xs = us @ xs ! i # vs @ xs ! j # ws"
proof -
  have "xs = take i xs @ xs ! i # drop (Suc i) xs" using assms by (intro id_take_nth_drop) simp
  moreover have "drop (Suc i) xs = take (j - Suc i) (drop (Suc i) xs) @ drop (Suc i) xs ! (j - Suc i)
      # drop (Suc (j - Suc i)) (drop (Suc i) xs)"
    using assms by (intro id_take_nth_drop) simp
  moreover have "drop (Suc i) xs ! (j - Suc i) = xs ! j" using assms by simp
  ultimately show ?thesis using that by metis
qed

lemma segments_disjoint:
  assumes wf: "mem_wf m" and ij: "i < j" "j < length (segments m)"
  shows "s_base (segments m ! i) + s_size (segments m ! i) \<le> s_base (segments m ! j)
       \<or> s_base (segments m ! j) + s_size (segments m ! j) \<le> s_base (segments m ! i)"
proof -
  let ?s = "segments m ! i" and ?t = "segments m ! j"
  obtain us vs ws where split: "segments m = us @ ?s # vs @ ?t # ws" using nth_pair_split [OF ij] by metis
  have "cover (mem_ranges m) a = cover (map hole_range (holes m)) a + cover (map segment_range (us @ ?s # vs @ ?t # ws)) a" for a
    using split by (metis cover_simps(3) mem_ranges_def)
  then have one: "cov (segment_range ?s) a + cov (segment_range ?t) a \<le> 1" for a
    using cover_le_1 [OF wf, of a] by simp
  have pos: "0 < s_size ?s" "0 < s_size ?t" using mem_wf_positive(2) [OF wf] ij by simp_all
  show ?thesis
    using one [of "s_base ?s"] one [of "s_base ?t"] pos
    by (auto simp: cov_def segment_range_def split: if_splits)
qed

text \<open>C1: Whatever sticks are registered and whatever segments of positive size are created
  and removed, the holes and the segments of Kernel Memory partition the addresses
  \<open>0 .. total_size - 1\<close> with no two holes adjacent, two segments never share an address,
  free plus used space is the total, and every further request of this kind is served: none of them leaves
  the allocation routines without a result (a NULL that is dereferenced).\<close>

theorem memory_partition_invariant:
  assumes "reachable request_ok mem_apply (init_main_memory mx st delay) m" "st \<noteq> AS_INVALID"
  shows "mem_wf m \<and> compute_free_space (holes m) + used_space (segments m) = total_size m
    \<and> (\<forall>i j. i < j \<and> j < length (segments m) \<longrightarrow>
          s_base (segments m ! i) + s_size (segments m ! i) \<le> s_base (segments m ! j)
        \<or> s_base (segments m ! j) + s_size (segments m ! j) \<le> s_base (segments m ! i))
    \<and> (\<forall>r. request_ok r m \<longrightarrow> (\<exists>m' replies. mem_apply r m = Some (m', replies)))"
proof -
  have start: "mem_wf (init_main_memory mx st delay) \<and> allocation_strategy (init_main_memory mx st delay) \<noteq> AS_INVALID"
    using assms(2) mem_wf_init by (simp add: init_main_memory_def)
  have "mem_wf m" using memory.reachable_inv [OF assms(1) start] by simp
  with free_plus_used segments_disjoint memory.never_stuck [OF assms(1) start] show ?thesis by blast
qed

text \<open>The run of the witnesses below: one stick of 64 bytes and three segments, the middle one freed.\<close>

definition demo_memory :: t_main_memory where
  "demo_memory = \<lparr>compaction_delay = 0, total_size = 64, max_segment_size = 32,
     segments = [\<lparr>s_id = 0, s_pid = 1, s_base = 0, s_size = 16\<rparr>, \<lparr>s_id = 2, s_pid = 1, s_base = 32, s_size = 20\<rparr>],
     holes = [\<lparr>h_base = 52, h_size = 12\<rparr>, \<lparr>h_base = 16, h_size = 16\<rparr>], allocation_strategy = AS_BEST\<rparr>"

lemma demo_memory_reachable: "reachable request_ok mem_apply (init_main_memory 32 AS_BEST 0) demo_memory"
proof -
  note step = reachable.reachable_step [where ok = request_ok and step = mem_apply]
  show ?thesis
    unfolding demo_memory_def
    apply (rule step [where r = "Remove 1 1"])
      apply (rule step [where r = "Create 2 1 20"])
        apply (rule step [where r = "Create 1 1 16"])
          apply (rule step [where r = "Create 0 1 16"])
            apply (rule step [where r = "Add_stick 64"])
              apply (rule reachable.reachable_init)
    by code_simp+
qed

lemma demo_memory_wf: "mem_wf demo_memory"
proof -
  have "AS_BEST \<noteq> AS_INVALID" by simp
  then show ?thesis
    using memory.reachable_inv [OF demo_memory_reachable] mem_wf_init by (simp add: init_main_memory_def)
qed

theorem memory_partition_invariant_witness:
  "reachable request_ok mem_apply (init_main_memory 32 AS_BEST 0) demo_memory \<and> mem_wf demo_memory
   \<and> compute_free_space (holes demo_memory) = 28"
  using memory_partition_invariant [OF demo_memory_reachable] demo_memory_reachable
  by (simp add: demo_memory_def compute_free_space_def)

text \<open>C2: \<open>create_segment\<close> on a well-formed memory answers \<open>NOT_ENOUGH_MEMORY\<close> exactly when the
  free space is smaller than the request and then changes nothing; otherwise it always
  succeeds. A hole large enough is used if there is one, and it is the smallest (BEST) or
  the largest (WORST) such hole; if none is, memory is compacted first and the segment starts
  right after the slid segments. The new memory is well formed in each case.\<close>

theorem create_segment_correct:
  assumes "mem_wf m" "allocation_strategy m \<noteq> AS_INVALID" "0 < sz" "sz \<le> max_segment_size m"
  shows "if compute_free_space (holes m) < sz
         then create_segment sid pid sz m = Some (m, [(OP_NOT_ENOUGH_MEMORY, ''There are not memory enough'')])
         else if \<exists>h \<in> set (holes m). sz \<le> h_size h
         then \<exists>c m'. create_segment sid pid sz m = Some (m', [(OP_MEMORY_ALLOCATED, ''Memory allocated'')])
           \<and> mem_wf m' \<and> c \<in> set (holes m) \<and> sz \<le> h_size c
           \<and> (\<forall>h \<in> set (holes m). sz \<le> h_size h \<longrightarrow>
                (if allocation_strategy m = AS_WORST then h_size h \<le> h_size c else h_size c \<le> h_size h))
           \<and> segments m' = segments m @ [\<lparr>s_id = sid, s_pid = pid, s_base = h_base c, s_size = sz\<rparr>]
         else \<exists>m'. create_segment sid pid sz m = Some (m',
               [(OP_COMPACTION_NEEDED, ''Memory needs to be compacted''),
                (OP_COMPACTION_DONE, ''Compaction finished''), (OP_MEMORY_ALLOCATED, ''Memory allocated'')])
           \<and> mem_wf m'
           \<and> segments m' = compact_segments (segments m)
               @ [\<lparr>s_id = sid, s_pid = pid, s_base = used_space (segments m), s_size = sz\<rparr>]"
proof -
  have ex: "exceeded_reply sz m = []" using assms(4) by (simp add: exceeded_reply_def)
  consider (no) "compute_free_space (holes m) < sz"
    | (fit) h where "h \<in> set (holes m)" "sz \<le> h_size h"
    | (compact) "\<forall>h \<in> set (holes m). h_size h < sz" "sz \<le> compute_free_space (holes m)"
    by (meson not_le_imp_less)
  then show ?thesis
  proof cases
    case no
    then show ?thesis by (simp add: create_segment_not_enough ex)
  next
    case fit
    then have "\<not> compute_free_space (holes m) < sz" using hole_le_free [OF assms(1)] by fastforce
    moreover obtain c m' where "create_segment sid pid sz m = Some (m', exceeded_reply sz m @ [allocated_reply])"
      "mem_wf m'" "c \<in> set (holes m)" "sz \<le> h_size c"
      "\<forall>g \<in> set (holes m). sz \<le> h_size g \<longrightarrow> size_better (allocation_strategy m) (h_size c) (h_size g)"
      "segments m' = segments m @ [new_segment sid pid sz c]"
      by (rule create_segment_fit [OF assms(1-3) fit])
    ultimately show ?thesis
      using fit unfolding ex new_segment_def size_better_def by auto
  next
    case compact
    then have "\<not> compute_free_space (holes m) < sz" "\<not> (\<exists>h \<in> set (holes m). sz \<le> h_size h)" by auto
    moreover obtain c m' where "create_segment sid pid sz m = Some (m', exceeded_reply sz m
        @ [(OP_COMPACTION_NEEDED, ''Memory needs to be compacted''), (OP_COMPACTION_DONE, ''Compaction finished''),
           allocated_reply])"
      "mem_wf m'" "h_base c = used_space (segments m)"
      "segments m' = compact_segments (segments m) @ [new_segment sid pid sz c]"
      by (rule create_segment_compact [OF assms(1-3) compact])
    ultimately show ?thesis unfolding ex new_segment_def by auto
  qed
qed

text \<open>A request of 20 bytes on two holes of 12 and 16 bytes: the memory is compacted.\<close>

theorem create_segment_correct_witness:
  "\<exists>m'. create_segment 7 2 20 demo_memory = Some (m',
      [(OP_COMPACTION_NEEDED, ''Memory needs to be compacted''),
       (OP_COMPACTION_DONE, ''Compaction finished''), (OP_MEMORY_ALLOCATED, ''Memory allocated'')])
    \<and> map s_base (segments m') = [0, 16, 36]"
  using create_segment_correct [OF demo_memory_wf, of 20 7 2]
  by (auto simp: demo_memory_def compute_free_space_def used_space_def Let_def)

text \<open>C3: Removing a segment gives its bytes back as free space, merges them with the holes
  on both sides so that no two holes touch, removes exactly the first segment with that id
  and pid, and does nothing if there is none.\<close>

theorem remove_segment_correct:
  assumes "mem_wf m"
  shows "mem_wf (remove_segment sid pid m)
    \<and> total_size (remove_segment sid pid m) = total_size m
    \<and> (case find (is_segment sid pid) (segments m) of
         None \<Rightarrow> remove_segment sid pid m = m
       | Some s \<Rightarrow> segments (remove_segment sid pid m) = remove_first (is_segment sid pid) (segments m)
           \<and> compute_free_space (holes (remove_segment sid pid m)) = compute_free_space (holes m) + s_size s)"
proof -
  let ?m = "remove_segment sid pid m"
  have wf: "mem_wf ?m" using assms by (rule mem_wf_remove_segment)
  have total: "total_size ?m = total_size m"
    by (simp add: remove_segment_def find_and_remove_segment_def split: option.splits)
  show ?thesis
  proof (cases "find (is_segment sid pid) (segments m)")
    case None
    then have "?m = m" by (simp add: remove_segment_def find_and_remove_segment_def remove_first_idem)
    with wf None show ?thesis by simp
  next
    case (Some s)
    have segs: "segments ?m = remove_first (is_segment sid pid) (segments m)"
      by (simp add: remove_segment_def find_and_remove_segment_def Some)
    have "used_space (segments m) = used_space (segments ?m) + s_size s"
      using find_remove_first_split [OF Some] segs by auto
    with free_plus_used [OF assms] free_plus_used [OF wf] total
    have "compute_free_space (holes ?m) = compute_free_space (holes m) + s_size s" by linarith
    with wf total segs Some show ?thesis by simp
  qed
qed

theorem remove_segment_correct_witness:
  "mem_wf (remove_segment 2 1 demo_memory)
   \<and> holes (remove_segment 2 1 demo_memory) = [\<lparr>h_base = 16, h_size = 48\<rparr>]"
proof -
  have "holes (remove_segment 2 1 demo_memory) = [\<lparr>h_base = 16, h_size = 48\<rparr>]" by code_simp
  with remove_segment_correct [OF demo_memory_wf, of 2 1] show ?thesis by simp
qed

subsection \<open>Requests of size 0\<close>

text \<open>Two segments of size 0 around one of size \<open>n\<close>, all removed again, and then three of positive size.\<close>

definition zero_size_requests :: "u32 \<Rightarrow> int \<Rightarrow> mem_request list" where
  "zero_size_requests pid n =
     [Create 0 pid 0, Create 1 pid n, Create 2 pid 0, Remove 1 pid, Remove 2 pid, Remove 0 pid,
      Create 3 pid n, Create 4 pid 1, Create 5 pid 1]"

fun mem_run :: "mem_request list \<Rightarrow> t_main_memory \<Rightarrow> t_main_memory option" where
  "mem_run [] m = Some m"
| "mem_run (r # rs) m = (case mem_apply r m of None \<Rightarrow> None | Some (m', msgs) \<Rightarrow> mem_run rs m')"

lemmas create_defs = create_segment_def select_hole_def hole_selection_algorithm_def better_hole_def no_hole_def
  update_segment_list_def compute_free_space_def Let_def

lemma create_in_one:
  assumes "holes m = [\<lparr>h_base = b, h_size = k\<rparr>]" "allocation_strategy m \<noteq> AS_INVALID" "0 \<le> sz" "sz < k" "0 \<le> b" "b + k < 2 ^ 31"
  shows "\<exists>msgs. create_segment sid pid sz m
    = Some (m\<lparr>holes := [\<lparr>h_base = b + sz, h_size = k - sz\<rparr>], segments := segments m @ [\<lparr>s_id = sid, s_pid = pid, s_base = b, s_size = sz\<rparr>]\<rparr>, msgs)"
proof -
  have fits: "to_u32 sz \<le> to_u32 k" using assms(3-6) by (simp add: to_u32_ge_iff)
  have conv: "to_int (to_u32 b + to_u32 sz) = b + sz" "to_int (to_u32 k - to_u32 sz) = k - sz"
    using assms(3-6) by (simp_all add: to_u32_add to_u32_diff to_int_to_u32 in_int_def INT_MAX_def)
  show ?thesis using assms(1-4) fits by (cases "allocation_strategy m") (simp_all add: create_defs conv)
qed

text \<open>A hole of size 0 or \<open>-1\<close> is never chosen, but it is the one that shrinks when it has the base of the chosen one.\<close>

lemma create_in_two:
  assumes "holes m = [\<lparr>h_base = c, h_size = e\<rparr>, \<lparr>h_base = b, h_size = k\<rparr>]" "allocation_strategy m \<noteq> AS_INVALID" "e = 0 \<or> e = -1"
    and "0 < sz" "sz + 1 < k" "0 \<le> b" "b + k < 2 ^ 31"
  shows "\<exists>msgs. create_segment sid pid sz m
    = Some (m\<lparr>holes := (if c = b then [\<lparr>h_base = c + sz, h_size = e - sz\<rparr>, \<lparr>h_base = b, h_size = k\<rparr>]
                         else [\<lparr>h_base = c, h_size = e\<rparr>, \<lparr>h_base = b + sz, h_size = k - sz\<rparr>]),
                segments := segments m @ [\<lparr>s_id = sid, s_pid = pid, s_base = b, s_size = sz\<rparr>]\<rparr>, msgs)"
proof -
  have fits: "to_u32 sz \<le> to_u32 k" using assms(4-7) by (simp add: to_u32_ge_iff)
  have none: "\<not> to_u32 sz \<le> to_u32 0" using assms(4-7) to_u32_ge_iff [of 0 sz] by simp
  have conv: "to_int (to_u32 b + to_u32 sz) = b + sz" "to_int (to_u32 k - to_u32 sz) = k - sz" "to_int (to_u32 e - to_u32 sz) = e - sz"
    using assms(3-7) by (auto simp: to_u32_add to_u32_diff to_int_to_u32 in_int_def INT_MAX_def)
  show ?thesis using assms fits none conv by (cases "allocation_strategy m") (auto simp: create_defs)
qed

lemma remove_own:
  assumes "segments m = ss @ us @ s # vs" "\<forall>s \<in> set ss. s_pid s \<noteq> pid" "\<forall>s \<in> set us. \<not> is_segment sid pid s" "is_segment sid pid s"
  shows "remove_segment sid pid m = m\<lparr>segments := ss @ us @ vs, holes := merged_holes (holes m) s\<rparr>"
proof -
  have "\<forall>s \<in> set (ss @ us). \<not> is_segment sid pid s" using assms(2,3) by (auto simp: is_segment_def)
  then have "find (is_segment sid pid) (xs @ s # vs) = Some s" "remove_first (is_segment sid pid) (xs @ s # vs) = xs @ vs"
    if "set xs \<subseteq> set (ss @ us)" for xs using that assms(4) by (induction xs) auto
  from this [of "ss @ us"] show ?thesis using assms(1) by (simp add: remove_segment_def find_and_remove_segment_def)
qed

text \<open>C30: A create request of size 0 passes the size check of \<open>handle_create_segment\<close> and breaks
  the partition. From every well-formed memory with a single hole, with either strategy, for a
  process without segments and for every size \<open>n\<close> that leaves more than two bytes of the hole: the requests
  of \<open>zero_size_requests\<close> are all served, and at the end the segments 4 and 5 of one byte each both
  start at the same address, so the memory is not well formed. (The hole of size 0 that the removal of a
  segment of size 0 leaves has the base of the next hole, and \<open>update_hole_table\<close> looks for the
  hole to shrink by its base only.)\<close>

theorem zero_size_segment_overlap:
  assumes "mem_wf m" "allocation_strategy m \<noteq> AS_INVALID" "holes m = [h]" "\<forall>s \<in> set (segments m). s_pid s \<noteq> pid"
    and "0 < n" "n + 2 < h_size h"
  defines "b \<equiv> h_base h"
  shows "\<exists>m'. mem_run (zero_size_requests pid n) m = Some m' \<and> \<not> mem_wf m'
    \<and> segments m' = segments m @ [\<lparr>s_id = 3, s_pid = pid, s_base = b, s_size = n\<rparr>,
        \<lparr>s_id = 4, s_pid = pid, s_base = b + n, s_size = 1\<rparr>, \<lparr>s_id = 5, s_pid = pid, s_base = b + n, s_size = 1\<rparr>]"
proof -
  define k where "k = h_size h"
  have h: "holes m = [\<lparr>h_base = b, h_size = k\<rparr>]" and bk: "0 \<le> b" "b + k < 2 ^ 31" "n + 2 < k"
    using assms(3,6) hole_bounds [OF assms(1), of h] mem_wfD(2) [OF assms(1)] by (simp_all add: b_def k_def)
  let ?seg = "\<lambda>i base sz. \<lparr>s_id = i, s_pid = pid, s_base = base, s_size = sz\<rparr>"
  let ?ss = "segments m" and ?m = "\<lambda>hs ts. m\<lparr>holes := hs, segments := segments m @ ts\<rparr>"
  have "\<exists>msgs. create_segment 0 pid 0 m = Some (?m [\<lparr>h_base = b, h_size = k\<rparr>] [?seg 0 b 0], msgs)"
    using create_in_one [OF h assms(2), of 0 0 pid] assms(5) bk by simp
  moreover have "\<exists>msgs. create_segment 1 pid n (?m [\<lparr>h_base = b, h_size = k\<rparr>] [?seg 0 b 0])
      = Some (?m [\<lparr>h_base = b + n, h_size = k - n\<rparr>] [?seg 0 b 0, ?seg 1 b n], msgs)"
    using create_in_one [of "?m [\<lparr>h_base = b, h_size = k\<rparr>] [?seg 0 b 0]" b k n 1 pid] assms(2,5) bk by simp
  moreover have "\<exists>msgs. create_segment 2 pid 0 (?m [\<lparr>h_base = b + n, h_size = k - n\<rparr>] [?seg 0 b 0, ?seg 1 b n])
      = Some (?m [\<lparr>h_base = b + n, h_size = k - n\<rparr>] [?seg 0 b 0, ?seg 1 b n, ?seg 2 (b + n) 0], msgs)"
    using create_in_one [of "?m [\<lparr>h_base = b + n, h_size = k - n\<rparr>] [?seg 0 b 0, ?seg 1 b n]" "b + n" "k - n" 0 2 pid] assms(2,5) bk by simp
  moreover have "remove_segment 1 pid (?m [\<lparr>h_base = b + n, h_size = k - n\<rparr>] [?seg 0 b 0, ?seg 1 b n, ?seg 2 (b + n) 0])
      = ?m [\<lparr>h_base = b, h_size = k\<rparr>] [?seg 0 b 0, ?seg 2 (b + n) 0]"
    using remove_own [of "?m [\<lparr>h_base = b + n, h_size = k - n\<rparr>] [?seg 0 b 0, ?seg 1 b n, ?seg 2 (b + n) 0]" ?ss "[?seg 0 b 0]" "?seg 1 b n" _ pid 1] assms(4,5) bk
    by (simp add: is_segment_def merged_holes_def find_adjacent_hole_indices_def remove_at_def Let_def)
  moreover have "remove_segment 2 pid (?m [\<lparr>h_base = b, h_size = k\<rparr>] [?seg 0 b 0, ?seg 2 (b + n) 0])
      = ?m [\<lparr>h_base = b, h_size = k\<rparr>, \<lparr>h_base = b + n, h_size = 0\<rparr>] [?seg 0 b 0]"
    using remove_own [of "?m [\<lparr>h_base = b, h_size = k\<rparr>] [?seg 0 b 0, ?seg 2 (b + n) 0]" ?ss "[?seg 0 b 0]" "?seg 2 (b + n) 0" _ pid 2] assms(4,5) bk
    by (simp add: is_segment_def merged_holes_def find_adjacent_hole_indices_def remove_at_def Let_def)
  moreover have "remove_segment 0 pid (?m [\<lparr>h_base = b, h_size = k\<rparr>, \<lparr>h_base = b + n, h_size = 0\<rparr>] [?seg 0 b 0])
      = ?m [\<lparr>h_base = b + n, h_size = 0\<rparr>, \<lparr>h_base = b, h_size = k\<rparr>] []"
    using remove_own [of "?m [\<lparr>h_base = b, h_size = k\<rparr>, \<lparr>h_base = b + n, h_size = 0\<rparr>] [?seg 0 b 0]" ?ss "[]" "?seg 0 b 0" _ pid 0] assms(4,5) bk
    by (simp add: is_segment_def merged_holes_def find_adjacent_hole_indices_def remove_at_def Let_def)
  moreover have "\<exists>msgs. create_segment 3 pid n (?m [\<lparr>h_base = b + n, h_size = 0\<rparr>, \<lparr>h_base = b, h_size = k\<rparr>] [])
      = Some (?m [\<lparr>h_base = b + n, h_size = 0\<rparr>, \<lparr>h_base = b + n, h_size = k - n\<rparr>] [?seg 3 b n], msgs)"
    using create_in_two [of "?m [\<lparr>h_base = b + n, h_size = 0\<rparr>, \<lparr>h_base = b, h_size = k\<rparr>] []" "b + n" 0 b k n 3 pid] assms(2,5) bk by simp
  moreover have "\<exists>msgs. create_segment 4 pid 1 (?m [\<lparr>h_base = b + n, h_size = 0\<rparr>, \<lparr>h_base = b + n, h_size = k - n\<rparr>] [?seg 3 b n])
      = Some (?m [\<lparr>h_base = b + n + 1, h_size = -1\<rparr>, \<lparr>h_base = b + n, h_size = k - n\<rparr>] [?seg 3 b n, ?seg 4 (b + n) 1], msgs)"
    using create_in_two [of "?m [\<lparr>h_base = b + n, h_size = 0\<rparr>, \<lparr>h_base = b + n, h_size = k - n\<rparr>] [?seg 3 b n]" "b + n" 0 "b + n" "k - n" 1 4 pid] assms(2,5) bk by simp
  moreover have "\<exists>msgs. create_segment 5 pid 1 (?m [\<lparr>h_base = b + n + 1, h_size = -1\<rparr>, \<lparr>h_base = b + n, h_size = k - n\<rparr>] [?seg 3 b n, ?seg 4 (b + n) 1])
      = Some (?m [\<lparr>h_base = b + n + 1, h_size = -1\<rparr>, \<lparr>h_base = b + n + 1, h_size = k - n - 1\<rparr>] [?seg 3 b n, ?seg 4 (b + n) 1, ?seg 5 (b + n) 1], msgs)"
    using create_in_two [of "?m [\<lparr>h_base = b + n + 1, h_size = -1\<rparr>, \<lparr>h_base = b + n, h_size = k - n\<rparr>] [?seg 3 b n, ?seg 4 (b + n) 1]" "b + n + 1" "-1" "b + n" "k - n" 1 5 pid]
      assms(2,5) bk by simp
  ultimately have run: "mem_run (zero_size_requests pid n) m = Some (?m [\<lparr>h_base = b + n + 1, h_size = -1\<rparr>, \<lparr>h_base = b + n + 1, h_size = k - n - 1\<rparr>]
      [?seg 3 b n, ?seg 4 (b + n) 1, ?seg 5 (b + n) 1])"
    by (elim exE) (simp add: zero_size_requests_def)
  have "\<not> mem_wf (?m [\<lparr>h_base = b + n + 1, h_size = -1\<rparr>, \<lparr>h_base = b + n + 1, h_size = k - n - 1\<rparr>] [?seg 3 b n, ?seg 4 (b + n) 1, ?seg 5 (b + n) 1])"
    using mem_wf_positive(1) by fastforce
  with run show ?thesis by auto
qed

text \<open>A memory of one stick of 8 bytes: the segments 4 and 5 of process 1 both occupy the byte 1.\<close>

theorem zero_size_segment_overlap_witness:
  "\<exists>m m' msgs. mem_apply (Add_stick 8) (init_main_memory 64 AS_BEST 0) = Some (m, msgs) \<and> mem_wf m
     \<and> mem_run (zero_size_requests 1 1) m = Some m'
     \<and> map (\<lambda>s. (s_id s, s_base s, s_size s)) (segments m') = [(3, 0, 1), (4, 1, 1), (5, 1, 1)] \<and> \<not> mem_wf m'"
proof -
  let ?m0 = "init_main_memory 64 AS_BEST 0" and ?m = "add_total_memory (init_main_memory 64 AS_BEST 0) 8"
  have m: "holes ?m = [\<lparr>h_base = 0, h_size = 8\<rparr>]" "segments ?m = []" "allocation_strategy ?m = AS_BEST"
    by (simp_all add: add_total_memory_def init_main_memory_def Let_def)
  have wf: "mem_wf ?m" using mem_wf_add_total_memory [OF mem_wf_init] by (simp add: init_main_memory_def)
  show ?thesis using zero_size_segment_overlap [OF wf _ m(1), of 1 1] m wf by auto
qed

end
