(* ===== verification/Sticks.thy ===== *)
theory Sticks
  imports Memory_Stick Main_Memory_Inv
begin

section \<open>Kernel Memory: physical memory over the sticks\<close>

text \<open>
  \<open>kernel_memory/address_translation.c\<close>. The connected sticks, in order of registration, make
  up the physical addresses. A read or a write is cut into one request per stick; each
  request travels as the bytes of \<open>Msg\<close> to the stick, is served there by \<open>km_request\<close>, and the
  reply is decoded. A link that is down fails at the send or delivers no reply; a request
  that makes the stick itself fail is \<open>None\<close>. The abstraction \<open>flat\<close> is the concatenation of
  the sticks' bytes; the locale \<open>flat_memory\<close> states what a client of \<open>read_from_sticks\<close> and
  \<open>write_to_sticks\<close> relies on, and it is interpreted on them.
\<close>

subsection \<open>Data\<close>

datatype stick_link = Up t_ms | Send_fails | Closed

record t_stick_data =
  stick_size :: int
  socket_stick :: stick_link
  ip_memory_stick :: string
  stick_port :: int

definition read_request :: "int \<Rightarrow> int \<Rightarrow> bytes" where
  "read_request stick_offset byte_count =
     send_packet (packet_append (packet_append (create_packet OP_MEMORY_STICK_READ)
       (int_bytes stick_offset)) (int_bytes byte_count))"

definition write_request :: "int \<Rightarrow> bytes \<Rightarrow> int \<Rightarrow> bytes" where
  "write_request stick_offset buffer byte_count =
     send_packet (packet_append (packet_append (packet_append (create_packet OP_MEMORY_STICK_WRITE)
       (int_bytes stick_offset)) buffer) (int_bytes byte_count))"

text \<open>Whether the request was sent, the reply bytes, and the link afterwards.\<close>

definition stick_exchange :: "stick_link \<Rightarrow> bytes \<Rightarrow> (bool \<times> bytes \<times> stick_link) option" where
  "stick_exchange lnk request =
     (case lnk of
        Up ms \<Rightarrow> map_option (\<lambda>(ms', reply, rest, keep_running). (True, reply, Up ms')) (km_request ms request)
      | Send_fails \<Rightarrow> Some (False, [], Send_fails)
      | Closed \<Rightarrow> Some (True, [], Closed))"

subsection \<open>Operations\<close>

definition translate_logical_address :: "u32 \<Rightarrow> u32 \<Rightarrow> u32 \<Rightarrow> t_main_memory \<Rightarrow> int" where
  "translate_logical_address pid logical_address sz m =
     (let seg_max = to_u32 (max_segment_size m);
          segment_number = logical_address div seg_max;
          offset_in_segment = logical_address mod seg_max
      in case find_segment m pid segment_number of
           None \<Rightarrow> -1
         | Some seg \<Rightarrow> to_int (to_u32 (s_base seg) + offset_in_segment))"

fun find_stick_loop :: "int \<Rightarrow> int \<Rightarrow> int \<Rightarrow> t_stick_data list \<Rightarrow> int \<times> int" where
  "find_stick_loop physical_address accumulated_base current_index [] = (-1, 0)"
| "find_stick_loop physical_address accumulated_base current_index (s # ss) =
     (if physical_address \<ge> accumulated_base \<and> physical_address < accumulated_base + stick_size s
      then (current_index, physical_address - accumulated_base)
      else find_stick_loop physical_address (accumulated_base + stick_size s) (current_index + 1) ss)"

definition find_stick :: "int \<Rightarrow> t_stick_data list \<Rightarrow> int \<times> int" where
  "find_stick physical_address connected_sticks = find_stick_loop physical_address 0 0 connected_sticks"

definition notify_stick_corrupted :: message where
  "notify_stick_corrupted = (OP_MEMORY_CORRUPTED, ''Stick not available'')"

definition stick_chunk_size :: "t_stick_data \<Rightarrow> int \<Rightarrow> int \<Rightarrow> int" where
  "stick_chunk_size stick offs remaining =
     (let space_left_in_stick = stick_size stick - offs
      in if remaining < space_left_in_stick then remaining else space_left_in_stick)"

lemma find_stick_loop_spec:
  "find_stick_loop a acc i ss = (j, off) \<Longrightarrow> 0 \<le> i \<Longrightarrow> j \<noteq> -1 \<Longrightarrow>
     \<exists>xs s ys. ss = xs @ s # ys \<and> j = i + int (length xs) \<and> 0 \<le> off \<and> off < stick_size s
       \<and> a = acc + (\<Sum>s\<leftarrow>xs. stick_size s) + off"
proof (induction ss arbitrary: acc i)
  case (Cons s ss)
  show ?case
  proof (cases "acc \<le> a \<and> a < acc + stick_size s")
    case True
    with Cons.prems(1) show ?thesis by (intro exI [of _ "[]"] exI [of _ s] exI [of _ ss]) auto
  next
    case False
    with Cons.prems(1) have "find_stick_loop a (acc + stick_size s) (i + 1) ss = (j, off)" by auto
    from Cons.IH [OF this] Cons.prems(2,3) obtain xs t ys where
      "ss = xs @ t # ys" "j = i + 1 + int (length xs)" "0 \<le> off" "off < stick_size t"
      "a = acc + stick_size s + (\<Sum>s\<leftarrow>xs. stick_size s) + off" by auto
    then show ?thesis by (intro exI [of _ "s # xs"] exI [of _ t] exI [of _ ys]) simp
  qed
qed simp

lemma find_stick_spec:
  assumes "find_stick a ss = (j, off)" "j \<noteq> -1"
  shows "\<exists>xs s ys. ss = xs @ s # ys \<and> j = int (length xs) \<and> ss ! nat j = s \<and> 0 \<le> off \<and> off < stick_size s
       \<and> a = (\<Sum>s\<leftarrow>xs. stick_size s) + off"
  using find_stick_loop_spec [of a 0 0 ss j off] assms by (fastforce simp: find_stick_def)

lemma stick_chunk_positive:
  assumes "find_stick a ss = (j, off)" "j \<noteq> -1" "0 < remaining"
  shows "0 < stick_chunk_size (ss ! nat j) off remaining"
  using find_stick_spec [OF assms(1,2)] assms(3) by (auto simp: stick_chunk_size_def Let_def)

text \<open>The loop of \<open>read_from_sticks\<close>. A read leaves the stick as it is.\<close>

function read_sticks_loop :: "t_stick_data list \<Rightarrow> int \<Rightarrow> int \<Rightarrow> int \<Rightarrow> bytes \<Rightarrow> (bytes option \<times> message list) option" where
  "read_sticks_loop connected_sticks sz bytes_read current_address result =
     (if \<not> bytes_read < sz then Some (Some result, [])
      else (case find_stick current_address connected_sticks of
        (index, stick_offset) \<Rightarrow>
          (if index = -1 then Some (None, [])
           else (let stick = connected_sticks ! nat index;
                     bytes_to_read_count = stick_chunk_size stick stick_offset (sz - bytes_read)
                 in case stick_exchange (socket_stick stick) (read_request stick_offset bytes_to_read_count) of
                      None \<Rightarrow> None
                    | Some (False, _, _) \<Rightarrow> Some (None, [notify_stick_corrupted])
                    | Some (True, reply, _) \<Rightarrow>
                        (case receive_op_code reply of
                          (op, rest) \<Rightarrow>
                            (if op = 0 then Some (None, [notify_stick_corrupted])
                             else if op \<noteq> OP_MEMORY_STICK_READ_DONE then Some (None, [])
                             else case receive_buffer rest of
                                    Some (Some fragment, received_size, _) \<Rightarrow>
                                      (if int (length fragment) < bytes_to_read_count then None
                                       else read_sticks_loop connected_sticks sz (bytes_read + bytes_to_read_count)
                                              (current_address + bytes_to_read_count)
                                              (result @ take (nat bytes_to_read_count) fragment))
                                  | _ \<Rightarrow> None))))))"
  by pat_completeness auto
termination
  by (relation "measure (\<lambda>(ss, sz, r, a, res). nat (sz - r))") (auto intro!: stick_chunk_positive [OF sym])

declare read_sticks_loop.simps [simp del]

definition read_from_sticks :: "int \<Rightarrow> int \<Rightarrow> t_stick_data list \<Rightarrow> (bytes option \<times> message list) option" where
  "read_from_sticks physical_address sz connected_sticks =
     read_sticks_loop connected_sticks sz 0 physical_address []"

text \<open>
  The loop of \<open>write_to_sticks\<close> on the sticks from \<open>index\<close> on: the sticks, the result, and the
  messages to the Kernel Scheduler. A wrong reply is reported but does not end the loop.
\<close>

fun write_sticks_loop :: "t_stick_data list \<Rightarrow> int \<Rightarrow> int \<Rightarrow> bytes \<Rightarrow> (t_stick_data list \<times> bool \<times> message list) option" where
  "write_sticks_loop [] current_offset remaining buffer =
     Some ([], \<not> remaining > 0, if remaining > 0 then [notify_stick_corrupted] else [])"
| "write_sticks_loop (s # ss) current_offset remaining buffer =
     (if \<not> remaining > 0 then Some (s # ss, True, [])
      else (let to_write = stick_chunk_size s current_offset remaining
            in case stick_exchange (socket_stick s) (write_request current_offset (take (nat to_write) buffer) to_write) of
                 None \<Rightarrow> None
               | Some (False, _, lnk) \<Rightarrow> Some (s\<lparr>socket_stick := lnk\<rparr> # ss, False, [notify_stick_corrupted])
               | Some (True, reply, lnk) \<Rightarrow>
                   (case receive_op_code reply of
                     (op, rest) \<Rightarrow>
                       map_option (\<lambda>(ss', ok, msgs).
                           (s\<lparr>socket_stick := lnk\<rparr> # ss', ok,
                            (if op = OP_MEMORY_STICK_WRITE_DONE then [] else [notify_stick_corrupted]) @ msgs))
                         (write_sticks_loop ss 0 (remaining - to_write) (drop (nat to_write) buffer)))))"

definition write_to_sticks :: "int \<Rightarrow> int \<Rightarrow> bytes \<Rightarrow> t_stick_data list \<Rightarrow> (t_stick_data list \<times> bool \<times> message list) option" where
  "write_to_sticks physical_address bytes_to_write write_buffer connected_sticks =
     (case find_stick physical_address connected_sticks of
        (index, stick_offset) \<Rightarrow>
          (if index < 0 then
             (if bytes_to_write > 0 then Some (connected_sticks, False, [notify_stick_corrupted])
              else Some (connected_sticks, True, []))
           else map_option (\<lambda>(ss, ok, msgs). (take (nat index) connected_sticks @ ss, ok, msgs))
                  (write_sticks_loop (drop (nat index) connected_sticks) stick_offset bytes_to_write write_buffer)))"

subsection \<open>One request end to end\<close>

lemma in_int_ops: "in_int OP_MEMORY_STICK_READ" "in_int OP_MEMORY_STICK_WRITE"
    "in_int OP_MEMORY_STICK_READ_DONE" "in_int OP_MEMORY_STICK_WRITE_DONE"
  by (simp_all add: in_int_def INT_MAX_def)

lemma element_int_bytes: "in_int i \<Longrightarrow> element_int (int_bytes i) = Some i"
  using bytes_int_bytes [of i "[]"] by (simp add: element_int_def)

lemma int_bytes_ne [simp]: "int_bytes i \<noteq> []"
  by (metis length_int_bytes(1) list.size(3) zero_neq_numeral)

lemma km_request_read:
  assumes "0 \<le> off" "0 \<le> n" "off + n \<le> int (length (memory ms))" "int (length (memory ms)) \<le> INT_MAX"
  shows "km_request ms (read_request off n) =
    Some (ms, send_buffer OP_MEMORY_STICK_READ_DONE (take (nat n) (drop (nat off) (memory ms))), [], True)"
proof -
  let ?vs = "[int_bytes off, int_bytes n]"
  have in_int: "in_int off" "in_int n" using assms by (simp_all add: in_int_def)
  have len: "int (length (encode_values ?vs)) \<le> INT_MAX" by (simp add: encode_values_def INT_MAX_def)
  obtain body where "send_packet (packet_appends (create_packet OP_MEMORY_STICK_READ) ?vs) @ [] = int_bytes OP_MEMORY_STICK_READ @ body"
    "receive_packet body = Some (?vs, [])"
    using receive_packet_send [OF _ _ len in_int_ops(1), of "[]"] by auto
  then have body: "read_request off n = int_bytes OP_MEMORY_STICK_READ @ body" "receive_packet body = Some (?vs, [])"
    by (simp_all add: read_request_def packet_appends_def)
  show ?thesis
    unfolding km_request_def body(1) receive_op_code_bytes [OF in_int_ops(1)]
    using assms by (simp add: serve_read_def body(2) element_int_bytes in_int read_memory_ms_def)
qed

lemma km_request_write:
  assumes "0 \<le> off" "buf \<noteq> []" "off + int (length buf) \<le> int (length (memory ms))"
    "int (length (memory ms)) + 20 \<le> INT_MAX"
  shows "km_request ms (write_request off buf (int (length buf))) =
    Some (ms\<lparr>memory := overwrite (nat off) buf (memory ms)\<rparr>,
          send_string OP_MEMORY_STICK_WRITE_DONE ''Write successful'', [], True)"
proof -
  let ?vs = "[int_bytes off, buf, int_bytes (int (length buf))]"
  have in_int: "in_int off" "in_int (int (length buf))" using assms by (simp_all add: in_int_def)
  have len: "int (length (encode_values ?vs)) \<le> INT_MAX" using assms by (simp add: encode_values_def)
  obtain body where "send_packet (packet_appends (create_packet OP_MEMORY_STICK_WRITE) ?vs) @ [] = int_bytes OP_MEMORY_STICK_WRITE @ body"
    "receive_packet body = Some (?vs, [])"
    using receive_packet_send [OF _ _ len in_int_ops(2), of "[]"] assms(2) by auto
  then have body: "write_request off buf (int (length buf)) = int_bytes OP_MEMORY_STICK_WRITE @ body"
      "receive_packet body = Some (?vs, [])"
    by (simp_all add: write_request_def packet_appends_def)
  show ?thesis
    unfolding km_request_def body(1) receive_op_code_bytes [OF in_int_ops(2)]
    using assms by (simp add: serve_write_def body(2) element_int_bytes in_int write_memory_ms_def)
qed

lemma read_reply:
  assumes "buf \<noteq> []" "int (length buf) \<le> INT_MAX"
  shows "receive_op_code (send_buffer OP_MEMORY_STICK_READ_DONE buf) = (OP_MEMORY_STICK_READ_DONE, int_bytes (int (length buf)) @ buf)"
    and "receive_buffer (int_bytes (int (length buf)) @ buf) = Some (Some buf, int (length buf), [])"
  using receive_op_code_bytes [OF in_int_ops(3)] receive_buffer_bytes [OF assms, of "[]"]
  by (simp_all add: send_buffer_def serialize_packet_def)

lemma write_reply:
  "receive_op_code (send_string OP_MEMORY_STICK_WRITE_DONE ''Write successful'') =
    (OP_MEMORY_STICK_WRITE_DONE, int_bytes 17 @ c_string ''Write successful'')"
  using receive_op_code_bytes [OF in_int_ops(4)] by (simp add: send_string_def serialize_packet_def)

subsection \<open>Flat memory\<close>

definition stick_bytes :: "t_stick_data \<Rightarrow> bytes" where
  "stick_bytes s = (case socket_stick s of Up ms \<Rightarrow> memory ms | _ \<Rightarrow> [])"

definition flat :: "t_stick_data list \<Rightarrow> bytes" where
  "flat ss = concat (map stick_bytes ss)"

definition stick_ok :: "t_stick_data \<Rightarrow> bool" where
  "stick_ok s \<longleftrightarrow> (\<exists>ms. socket_stick s = Up ms) \<and> stick_size s = int (length (stick_bytes s)) \<and> 0 < stick_size s"

text \<open>The sum of the stick sizes and the 20 bytes around a request's data fit an \<open>int\<close>.\<close>

definition sticks_ok :: "t_stick_data list \<Rightarrow> bool" where
  "sticks_ok ss \<longleftrightarrow> (\<forall>s \<in> set ss. stick_ok s) \<and> int (length (flat ss)) + 20 \<le> INT_MAX"

lemma flat_simps [simp]:
  "flat [] = []" "flat (s # ss) = stick_bytes s @ flat ss" "flat (ss @ ss') = flat ss @ flat ss'"
  by (simp_all add: flat_def)

lemma stick_okD: "stick_ok s \<Longrightarrow> stick_size s = int (length (stick_bytes s))" "stick_ok s \<Longrightarrow> 0 < stick_size s"
  by (auto simp: stick_ok_def)

lemma flat_length: "\<forall>s \<in> set ss. stick_ok s \<Longrightarrow> int (length (flat ss)) = (\<Sum>s\<leftarrow>ss. stick_size s)"
  by (induction ss) (simp_all add: stick_okD)

lemma find_stick_loop_hit:
  assumes "\<forall>s \<in> set ss. stick_ok s" "acc \<le> a" "a < acc + int (length (flat ss))" "0 \<le> i"
  shows "fst (find_stick_loop a acc i ss) \<noteq> -1"
  using assms
proof (induction ss arbitrary: acc i)
  case (Cons s ss)
  then have "stick_size s = int (length (stick_bytes s))" by (simp add: stick_ok_def)
  with Cons show ?case by auto
qed simp

lemma find_stick_loop_miss:
  assumes "\<forall>s \<in> set ss. stick_ok s" "acc + int (length (flat ss)) \<le> a"
  shows "find_stick_loop a acc i ss = (-1, 0)"
  using assms
proof (induction ss arbitrary: acc i)
  case (Cons s ss)
  then have "stick_size s = int (length (stick_bytes s))" by (simp add: stick_ok_def)
  with Cons show ?case by auto
qed simp

lemma find_stick_flat:
  assumes "\<forall>s \<in> set ss. stick_ok s" "0 \<le> a" "a < int (length (flat ss))"
  obtains xs s ys off where "ss = xs @ s # ys" "find_stick a ss = (int (length xs), off)"
    "0 \<le> off" "off < int (length (stick_bytes s))" "a = int (length (flat xs)) + off"
proof -
  obtain j off where f: "find_stick a ss = (j, off)" by fastforce
  with find_stick_loop_hit [OF assms(1), of 0 a 0] assms(2,3) have "j \<noteq> -1" by (simp add: find_stick_def)
  from find_stick_spec [OF f this] obtain xs s ys where
    *: "ss = xs @ s # ys" "j = int (length xs)" "0 \<le> off" "off < stick_size s"
      "a = (\<Sum>s\<leftarrow>xs. stick_size s) + off" by blast
  have "stick_ok s" "\<forall>s \<in> set xs. stick_ok s" using assms(1) *(1) by auto
  then have "int (length (stick_bytes s)) = stick_size s" "int (length (flat xs)) = (\<Sum>s\<leftarrow>xs. stick_size s)"
    using stick_okD(1) flat_length by simp_all
  with * f show ?thesis by (intro that [of xs s ys off]) simp_all
qed

definition chunk :: "nat \<Rightarrow> nat \<Rightarrow> 'a list \<Rightarrow> 'a list" where
  "chunk i n xs = take n (drop i xs)"

lemma chunk_append: "i + n \<le> length xs \<Longrightarrow> chunk (length us + i) n (us @ xs @ vs) = chunk i n xs"
  by (simp add: chunk_def)

lemma chunk_extend: "chunk i n xs @ chunk (i + n) m xs = chunk i (n + m) xs"
  by (simp add: chunk_def take_add add.commute [of i n])

text \<open>A part of a part of the memory.\<close>

lemma chunk_chunk: "j + m \<le> n \<Longrightarrow> chunk j m (chunk i n xs) = chunk (i + j) m xs"
  by (simp add: chunk_def drop_take min_absorb1 add.commute)

lemma exchange_read:
  assumes "stick_ok s" "int (length (stick_bytes s)) \<le> INT_MAX" "0 \<le> off" "0 < n" "off + n \<le> int (length (stick_bytes s))"
  shows "\<exists>reply rest. stick_exchange (socket_stick s) (read_request off n) = Some (True, reply, socket_stick s)
    \<and> receive_op_code reply = (OP_MEMORY_STICK_READ_DONE, rest)
    \<and> receive_buffer rest = Some (Some (chunk (nat off) (nat n) (stick_bytes s)), n, [])"
proof -
  obtain ms where ms: "socket_stick s = Up ms" "stick_bytes s = memory ms"
    using assms(1) by (auto simp: stick_ok_def stick_bytes_def)
  let ?buf = "chunk (nat off) (nat n) (memory ms)"
  have len: "int (length ?buf) = n" using assms(3-5) ms(2) by (simp add: chunk_def)
  have "?buf \<noteq> []" using len assms(4) by auto
  from read_reply [OF this] len assms(2-5) ms km_request_read [of off n ms] show ?thesis
    by (simp add: stick_exchange_def chunk_def)
qed

lemma chunk_size_bounds:
  assumes "stick_ok s" "0 \<le> off" "off < int (length (stick_bytes s))" "0 < remaining"
  shows "0 < stick_chunk_size s off remaining" "stick_chunk_size s off remaining \<le> remaining"
    "off + stick_chunk_size s off remaining \<le> int (length (stick_bytes s))"
    "stick_chunk_size s off remaining < remaining \<longrightarrow> off + stick_chunk_size s off remaining = int (length (stick_bytes s))"
  using assms(2-) stick_okD(1) [OF assms(1)] by (simp_all add: stick_chunk_size_def Let_def)

lemma read_loop_flat:
  assumes ok: "sticks_ok ss" and "0 \<le> a" "r \<le> sz" "a + (sz - r) \<le> int (length (flat ss))"
  shows "read_sticks_loop ss sz r a res = Some (Some (res @ chunk (nat a) (nat (sz - r)) (flat ss)), [])"
  using assms(2-)
proof (induction "nat (sz - r)" arbitrary: r a res rule: less_induct)
  case less
  show ?case
  proof (cases "r < sz")
    case False
    with less.prems show ?thesis by (simp add: read_sticks_loop.simps chunk_def)
  next
    case True
    have "\<forall>s \<in> set ss. stick_ok s" using ok by (simp add: sticks_ok_def)
    moreover have "a < int (length (flat ss))" using less.prems True by linarith
    ultimately obtain xs s ys off where f: "ss = xs @ s # ys" "find_stick a ss = (int (length xs), off)"
      "0 \<le> off" "off < int (length (stick_bytes s))" "a = int (length (flat xs)) + off"
      using find_stick_flat less.prems(1) by blast
    let ?n = "stick_chunk_size s off (sz - r)"
    have s: "stick_ok s" "int (length (stick_bytes s)) \<le> INT_MAX"
      using ok f(1) by (auto simp: sticks_ok_def)
    note n = chunk_size_bounds [OF s(1) f(3,4), of "sz - r"]
    have n: "0 < ?n" "?n \<le> sz - r" "off + ?n \<le> int (length (stick_bytes s))" using n True by simp_all
    let ?frag = "chunk (nat off) (nat ?n) (stick_bytes s)"
    have len: "int (length ?frag) = ?n" using n f(3) by (simp add: chunk_def)
    have nth: "ss ! length xs = s" and frag: "take (nat ?n) ?frag = ?frag" using f(1) by (simp_all add: chunk_def)
    obtain reply rest where "stick_exchange (socket_stick s) (read_request off ?n) = Some (True, reply, socket_stick s)"
      "receive_op_code reply = (OP_MEMORY_STICK_READ_DONE, rest)" "receive_buffer rest = Some (Some ?frag, ?n, [])"
      using exchange_read [OF s f(3) n(1,3)] by blast
    then have "read_sticks_loop ss sz r a res = read_sticks_loop ss sz (r + ?n) (a + ?n) (res @ ?frag)"
      using True len by (subst read_sticks_loop.simps) (simp add: f(2) nth frag Let_def)
    also have "\<dots> = Some (Some ((res @ ?frag) @ chunk (nat (a + ?n)) (nat (sz - (r + ?n))) (flat ss)), [])"
      using n less.prems True by (intro less.hyps) auto
    also have "?frag = chunk (nat a) (nat ?n) (flat ss)"
    proof -
      have "nat a = length (flat xs) + nat off" using f(3,5) by simp
      moreover have "nat off + nat ?n \<le> length (stick_bytes s)" using n f(3) by linarith
      ultimately show ?thesis using chunk_append [of "nat off" "nat ?n" "stick_bytes s" "flat xs" "flat ys"]
        by (simp add: f(1))
    qed
    finally show ?thesis
      using chunk_extend [of "nat a" "nat ?n" "flat ss" "nat (sz - (r + ?n))"] n less.prems(1)
      by (simp add: nat_add_distrib [symmetric])
  qed
qed

lemma read_loop_beyond:
  assumes ok: "sticks_ok ss" and "0 \<le> a" "r < sz" "int (length (flat ss)) < a + (sz - r)"
  shows "read_sticks_loop ss sz r a res = Some (None, [])"
  using assms(2-)
proof (induction "nat (sz - r)" arbitrary: r a res rule: less_induct)
  case less
  have all: "\<forall>s \<in> set ss. stick_ok s" using ok by (simp add: sticks_ok_def)
  show ?case
  proof (cases "a < int (length (flat ss))")
    case False
    then have "find_stick a ss = (-1, 0)"
      using find_stick_loop_miss [OF all, of 0 a 0] by (simp add: find_stick_def)
    with less.prems(2) show ?thesis by (simp add: read_sticks_loop.simps)
  next
    case True
    then obtain xs s ys off where f: "ss = xs @ s # ys" "find_stick a ss = (int (length xs), off)"
      "0 \<le> off" "off < int (length (stick_bytes s))" "a = int (length (flat xs)) + off"
      using find_stick_flat [OF all less.prems(1)] by blast
    let ?n = "stick_chunk_size s off (sz - r)"
    have s: "stick_ok s" "int (length (stick_bytes s)) \<le> INT_MAX"
      using ok f(1) by (auto simp: sticks_ok_def)
    have n: "0 < ?n" "?n \<le> sz - r" "off + ?n \<le> int (length (stick_bytes s))"
      using chunk_size_bounds [OF s(1) f(3,4), of "sz - r"] less.prems by simp_all
    let ?frag = "chunk (nat off) (nat ?n) (stick_bytes s)"
    have len: "int (length ?frag) = ?n" using n f(3) by (simp add: chunk_def)
    have nth: "ss ! length xs = s" and frag: "take (nat ?n) ?frag = ?frag" using f(1) by (simp_all add: chunk_def)
    obtain reply rest where "stick_exchange (socket_stick s) (read_request off ?n) = Some (True, reply, socket_stick s)"
      "receive_op_code reply = (OP_MEMORY_STICK_READ_DONE, rest)" "receive_buffer rest = Some (Some ?frag, ?n, [])"
      using exchange_read [OF s f(3) n(1,3)] by blast
    then have "read_sticks_loop ss sz r a res = read_sticks_loop ss sz (r + ?n) (a + ?n) (res @ ?frag)"
      using less.prems(2) len by (subst read_sticks_loop.simps) (simp add: f(2) nth frag Let_def)
    also have "r + ?n < sz"
      using n f(1,5) less.prems(3) by simp
    then have "read_sticks_loop ss sz (r + ?n) (a + ?n) (res @ ?frag) = Some (None, [])"
      using n less.prems by (intro less.hyps) simp_all
    finally show ?thesis .
  qed
qed

subsubsection \<open>Writes\<close>

lemma length_overwrite [simp]: "i + length ys \<le> length xs \<Longrightarrow> length (overwrite i ys xs) = length xs"
  by (simp add: overwrite_def)

lemma overwrite_prefix: "overwrite (length us + i) ys (us @ xs) = us @ overwrite i ys xs"
  by (simp add: overwrite_def add.assoc)

lemma overwrite_suffix: "i + length ys \<le> length xs \<Longrightarrow> overwrite i ys (xs @ vs) = overwrite i ys xs @ vs"
  by (simp add: overwrite_def)

lemma overwrite_split:
  assumes "i + length ys = length us"
  shows "overwrite i ys us @ overwrite 0 zs vs = overwrite i (ys @ zs) (us @ vs)"
proof -
  have "length zs = i + (length ys + length zs) - length us" using assms by linarith
  with assms show ?thesis by (simp add: overwrite_def)
qed

lemma overwrite_next:
  "p + length xs \<le> length f \<Longrightarrow> overwrite (p + length xs) ys (overwrite p xs f) = overwrite p (xs @ ys) f"
  by (simp add: overwrite_def ac_simps)

lemma overwrite_Nil [simp]: "overwrite i [] xs = xs"
  by (simp add: overwrite_def)

lemma exchange_write:
  assumes "stick_ok s" "int (length (stick_bytes s)) + 20 \<le> INT_MAX" "0 \<le> off" "buf \<noteq> []"
    "off + int (length buf) \<le> int (length (stick_bytes s))"
  shows "\<exists>reply rest lnk. stick_exchange (socket_stick s) (write_request off buf (int (length buf))) = Some (True, reply, lnk)
    \<and> receive_op_code reply = (OP_MEMORY_STICK_WRITE_DONE, rest)
    \<and> stick_ok (s\<lparr>socket_stick := lnk\<rparr>) \<and> stick_bytes (s\<lparr>socket_stick := lnk\<rparr>) = overwrite (nat off) buf (stick_bytes s)"
proof -
  obtain ms where ms: "socket_stick s = Up ms" "stick_bytes s = memory ms"
    using assms(1) by (auto simp: stick_ok_def stick_bytes_def)
  have "nat off + length buf \<le> length (memory ms)" using assms(3,5) unfolding ms(2) by linarith
  with km_request_write [of off buf ms] assms ms write_reply show ?thesis
    by (auto simp: stick_exchange_def stick_ok_def stick_bytes_def)
qed

lemma write_loop_flat:
  assumes "\<forall>s \<in> set ss. stick_ok s" "int (length (flat ss)) + 20 \<le> INT_MAX"
    and "0 \<le> off" "0 \<le> n" "off + n \<le> int (length (flat ss))" "n \<le> int (length buf)"
    and "0 < n \<longrightarrow> ss \<noteq> [] \<and> off < int (length (stick_bytes (hd ss)))"
  shows "\<exists>ss'. write_sticks_loop ss off n buf = Some (ss', True, []) \<and> (\<forall>s \<in> set ss'. stick_ok s)
    \<and> map stick_size ss' = map stick_size ss \<and> flat ss' = overwrite (nat off) (take (nat n) buf) (flat ss)"
  using assms
proof (induction ss arbitrary: off n buf)
  case Nil
  then show ?case by (simp add: overwrite_def)
next
  case (Cons s ss)
  show ?case
  proof (cases "0 < n")
    case False
    with Cons.prems show ?thesis by simp
  next
    case True
    let ?k = "stick_chunk_size s off n"
    have s: "stick_ok s" "int (length (stick_bytes s)) + 20 \<le> INT_MAX" using Cons.prems(1,2) by auto
    have off: "off < int (length (stick_bytes s))" using Cons.prems(7) True by simp
    note k = chunk_size_bounds [OF s(1) Cons.prems(3) off True]
    let ?buf = "take (nat ?k) buf"
    have len: "int (length ?buf) = ?k" using k Cons.prems(6) by simp
    then have ne: "?buf \<noteq> []" using k(1) by auto
    obtain reply rest lnk where ex:
      "stick_exchange (socket_stick s) (write_request off ?buf (int (length ?buf))) = Some (True, reply, lnk)"
      "receive_op_code reply = (OP_MEMORY_STICK_WRITE_DONE, rest)"
      "stick_ok (s\<lparr>socket_stick := lnk\<rparr>)" "stick_bytes (s\<lparr>socket_stick := lnk\<rparr>) = overwrite (nat off) ?buf (stick_bytes s)"
      using exchange_write [OF s Cons.prems(3) ne] len k(3) by auto
    have "\<exists>ss'. write_sticks_loop ss 0 (n - ?k) (drop (nat ?k) buf) = Some (ss', True, []) \<and> (\<forall>s \<in> set ss'. stick_ok s)
      \<and> map stick_size ss' = map stick_size ss \<and> flat ss' = overwrite (nat 0) (take (nat (n - ?k)) (drop (nat ?k) buf)) (flat ss)"
    proof (intro Cons.IH)
      show "0 < n - ?k \<longrightarrow> ss \<noteq> [] \<and> 0 < int (length (stick_bytes (hd ss)))"
        using k(4) Cons.prems(1,5) stick_okD [of "hd ss"] by (cases ss) auto
      show "0 + (n - ?k) \<le> int (length (flat ss))"
      proof (cases "?k < n")
        case True
        with k(4) have "off + ?k = int (length (stick_bytes s))" by blast
        with Cons.prems(5) show ?thesis by simp
      qed (use k(2) in simp)
    qed (use Cons.prems k in auto)
    then obtain ss' where ss': "write_sticks_loop ss 0 (n - ?k) (drop (nat ?k) buf) = Some (ss', True, [])"
      "\<forall>s \<in> set ss'. stick_ok s" "map stick_size ss' = map stick_size ss"
      "flat ss' = overwrite 0 (take (nat (n - ?k)) (drop (nat ?k) buf)) (flat ss)" by auto
    have split: "take (nat n) buf = ?buf @ take (nat (n - ?k)) (drop (nat ?k) buf)"
      using k by (simp add: take_add [symmetric] nat_add_distrib [symmetric])
    have "overwrite (nat off) ?buf (stick_bytes s) @ flat ss' = overwrite (nat off) (take (nat n) buf) (stick_bytes s @ flat ss)"
    proof (cases "?k < n")
      case True
      with k(4) len have "nat off + length ?buf = length (stick_bytes s)" using Cons.prems(3) by linarith
      then show ?thesis unfolding split ss'(4) by (rule overwrite_split)
    next
      case False
      with k(2) have "?k = n" by simp
      with k(3) len Cons.prems(3) show ?thesis
        unfolding split ss'(4) by (subst overwrite_suffix) (simp_all add: overwrite_def)
    qed
    with ex ss' len True Cons.prems(1) show ?thesis
      by (intro exI [of _ "s\<lparr>socket_stick := lnk\<rparr> # ss'"]) (simp add: Let_def)
  qed
qed

lemma write_to_sticks_prefix:
  assumes ok: "sticks_ok ss" and "0 \<le> a" "0 \<le> n" "n \<le> int (length buf)" "a + n \<le> int (length (flat ss))"
  shows "\<exists>ss'. write_to_sticks a n buf ss = Some (ss', True, []) \<and> sticks_ok ss'
    \<and> map stick_size ss' = map stick_size ss \<and> flat ss' = overwrite (nat a) (take (nat n) buf) (flat ss)"
proof (cases "a < int (length (flat ss))")
  case False
  then have "n = 0" "a = int (length (flat ss))" using assms by linarith+
  moreover have "find_stick a ss = (-1, 0)"
    using find_stick_loop_miss [of ss 0 a 0] ok False by (simp add: find_stick_def sticks_ok_def)
  ultimately show ?thesis using ok by (simp add: write_to_sticks_def)
next
  case True
  have all: "\<forall>s \<in> set ss. stick_ok s" using ok by (simp add: sticks_ok_def)
  obtain xs s ys off where f: "ss = xs @ s # ys" "find_stick a ss = (int (length xs), off)"
    "0 \<le> off" "off < int (length (stick_bytes s))" "a = int (length (flat xs)) + off"
    using find_stick_flat [OF all assms(2) True] by blast
  have len: "int (length (flat (s # ys))) + 20 \<le> INT_MAX" using ok f(1) by (simp add: sticks_ok_def)
  obtain ss' where ss': "write_sticks_loop (s # ys) off n buf = Some (ss', True, [])"
    "\<forall>s \<in> set ss'. stick_ok s" "map stick_size ss' = map stick_size (s # ys)"
    "flat ss' = overwrite (nat off) (take (nat n) buf) (flat (s # ys))"
    using write_loop_flat [OF _ len f(3), of n buf] all f assms(3-5) by auto
  have na: "nat a = length (flat xs) + nat off" using f(3,5) by simp
  have flat: "flat (xs @ ss') = overwrite (nat a) (take (nat n) buf) (flat ss)"
    unfolding na by (simp add: f(1) ss'(4) overwrite_prefix)
  moreover have "sticks_ok (xs @ ss')"
    using ok all ss'(2) f(1) assms(2-5) flat unfolding sticks_ok_def by auto
  moreover have "write_to_sticks a n buf ss = Some (xs @ ss', True, [])"
  proof -
    have "drop (length xs) ss = s # ys" "take (length xs) ss = xs" using f(1) by simp_all
    with ss'(1) show ?thesis by (simp add: write_to_sticks_def f(2) del: write_sticks_loop.simps)
  qed
  ultimately show ?thesis using ss'(3) f(1) by auto
qed

lemma write_to_sticks_flat:
  assumes "sticks_ok ss" "0 \<le> a" "a + int (length buf) \<le> int (length (flat ss))"
  shows "\<exists>ss'. write_to_sticks a (int (length buf)) buf ss = Some (ss', True, []) \<and> sticks_ok ss'
    \<and> map stick_size ss' = map stick_size ss \<and> flat ss' = overwrite (nat a) buf (flat ss)"
  using write_to_sticks_prefix [OF assms(1,2), of "int (length buf)" buf] assms(3) by simp

subsection \<open>The memory interface\<close>

locale flat_memory =
  fixes rd :: "'s \<Rightarrow> int \<Rightarrow> int \<Rightarrow> bytes option"
    and wr :: "'s \<Rightarrow> int \<Rightarrow> bytes \<Rightarrow> 's option"
    and contents :: "'s \<Rightarrow> bytes"
    and ok :: "'s \<Rightarrow> bool"
  assumes rd_contents: "ok s \<Longrightarrow> 0 \<le> a \<Longrightarrow> 0 \<le> n \<Longrightarrow> a + n \<le> int (length (contents s)) \<Longrightarrow>
      rd s a n = Some (chunk (nat a) (nat n) (contents s))"
    and wr_contents: "ok s \<Longrightarrow> 0 \<le> a \<Longrightarrow> a + int (length b) \<le> int (length (contents s)) \<Longrightarrow>
      \<exists>s'. wr s a b = Some s' \<and> ok s' \<and> contents s' = overwrite (nat a) b (contents s)"
begin

lemma write_then_read:
  assumes "ok s" "0 \<le> a" "a + int (length b) \<le> int (length (contents s))"
    and "0 \<le> a'" "0 \<le> n" "a' + n \<le> int (length (contents s))"
  shows "\<exists>s'. wr s a b = Some s' \<and> ok s' \<and> length (contents s') = length (contents s)
    \<and> rd s' a' n = Some (chunk (nat a') (nat n) (overwrite (nat a) b (contents s)))"
proof -
  obtain s' where s': "wr s a b = Some s'" "ok s'" "contents s' = overwrite (nat a) b (contents s)"
    using wr_contents [OF assms(1-3)] by blast
  have "length (contents s') = length (contents s)" using s'(3) assms(2,3) by (simp add: overwrite_def)
  with s' rd_contents [OF s'(2) assms(4,5)] assms(6) show ?thesis by simp
qed

lemma read_back:
  assumes "ok s" "0 \<le> a" "a + int (length b) \<le> int (length (contents s))"
  shows "\<exists>s'. wr s a b = Some s' \<and> ok s' \<and> rd s' a (int (length b)) = Some b"
proof -
  have "chunk (nat a) (nat (int (length b))) (overwrite (nat a) b (contents s)) = b"
    using assms(2,3) by (simp add: chunk_def overwrite_def)
  with write_then_read [OF assms assms(2) _ assms(3)] show ?thesis by auto
qed

lemma read_elsewhere:
  assumes "ok s" "0 \<le> a" "a + int (length b) \<le> int (length (contents s))"
    and "0 \<le> a'" "0 \<le> n" "a' + n \<le> int (length (contents s))" "a' + n \<le> a \<or> a + int (length b) \<le> a'"
  shows "\<exists>s'. wr s a b = Some s' \<and> ok s' \<and> rd s' a' n = rd s a' n"
proof -
  have "chunk (nat a') (nat n) (overwrite (nat a) b (contents s)) = chunk (nat a') (nat n) (contents s)"
    using assms(7)
  proof
    assume "a' + n \<le> a"
    then have "nat a' + nat n \<le> nat a" using assms(2,4,5) by linarith
    then show ?thesis using assms(2,3)
      by (simp add: chunk_def overwrite_def take_drop min_absorb1 nat_add_distrib [symmetric])
  next
    assume le: "a + int (length b) \<le> a'"
    have "drop (nat a') (overwrite (nat a) b (contents s)) = drop (nat a') (contents s)"
      using le assms(2,3) by (simp add: overwrite_def nat_le_iff nat_diff_distrib)
    then show ?thesis by (simp add: chunk_def)
  qed
  with write_then_read [OF assms(1-6)] rd_contents [OF assms(1,4-6)] show ?thesis by auto
qed

end

definition km_read :: "t_stick_data list \<Rightarrow> int \<Rightarrow> int \<Rightarrow> bytes option" where
  "km_read ss a n = (case read_from_sticks a n ss of Some (r, msgs) \<Rightarrow> r | None \<Rightarrow> None)"

definition km_write :: "t_stick_data list \<Rightarrow> int \<Rightarrow> bytes \<Rightarrow> t_stick_data list option" where
  "km_write ss a b = (case write_to_sticks a (int (length b)) b ss of Some (ss', True, msgs) \<Rightarrow> Some ss' | _ \<Rightarrow> None)"

interpretation sticks: flat_memory km_read km_write flat sticks_ok
proof unfold_locales
  fix s a n
  assume "sticks_ok s" "0 \<le> a" "0 \<le> n" "a + n \<le> int (length (flat s))"
  then show "km_read s a n = Some (chunk (nat a) (nat n) (flat s))"
    using read_loop_flat [of s a 0 n "[]"] by (simp add: km_read_def read_from_sticks_def)
next
  fix s a and b :: bytes
  assume "sticks_ok s" "0 \<le> a" "a + int (length b) \<le> int (length (flat s))"
  then show "\<exists>s'. km_write s a b = Some s' \<and> sticks_ok s' \<and> flat s' = overwrite (nat a) b (flat s)"
    using write_to_sticks_flat [of s a b] by (auto simp: km_write_def)
qed

subsection \<open>Properties\<close>

text \<open>C4: Writing bytes through \<open>write_to_sticks\<close> and reading any range back through
  \<open>read_from_sticks\<close> gives the memory with exactly those bytes replaced, however many sticks
  the two ranges span: each request is encoded, decoded and served by the sticks. No message
  goes to the Kernel Scheduler and the sizes of the sticks do not change.\<close>

theorem sticks_write_read:
  assumes "sticks_ok ss" "0 \<le> a" "a + int (length b) \<le> int (length (flat ss))"
    and "0 \<le> a'" "0 \<le> n" "a' + n \<le> int (length (flat ss))"
  shows "\<exists>ss'. write_to_sticks a (int (length b)) b ss = Some (ss', True, [])
    \<and> map stick_size ss' = map stick_size ss
    \<and> read_from_sticks a' n ss' = Some (Some (take (nat n) (drop (nat a') (overwrite (nat a) b (flat ss)))), [])"
proof -
  obtain ss' where ss': "write_to_sticks a (int (length b)) b ss = Some (ss', True, [])" "sticks_ok ss'"
    "map stick_size ss' = map stick_size ss" "flat ss' = overwrite (nat a) b (flat ss)"
    using write_to_sticks_flat [OF assms(1-3)] by blast
  have "length (flat ss') = length (flat ss)" using ss'(4) assms(2,3) by simp
  with read_loop_flat [OF ss'(2) assms(4), of 0 n "[]"] assms(5,6) ss' show ?thesis
    by (simp add: read_from_sticks_def chunk_def)
qed

definition demo_sticks :: "t_stick_data list" where
  "demo_sticks =
     [\<lparr>stick_size = 40, socket_stick = Up \<lparr>memory_delay = 0, memory = replicate 40 0\<rparr>,
       ip_memory_stick = '''', stick_port = -1\<rparr>,
      \<lparr>stick_size = 24, socket_stick = Up \<lparr>memory_delay = 0, memory = replicate 24 0\<rparr>,
       ip_memory_stick = '''', stick_port = -1\<rparr>]"

lemma demo_sticks_ok: "sticks_ok demo_sticks" "flat demo_sticks = replicate 64 0"
  by (simp_all add: sticks_ok_def demo_sticks_def stick_ok_def stick_bytes_def INT_MAX_def flip: replicate_add)

text \<open>Six bytes written over the border of the two sticks.\<close>

theorem sticks_write_read_witness:
  "\<exists>ss'. write_to_sticks 37 6 [1, 2, 3, 4, 5, 6] demo_sticks = Some (ss', True, [])
    \<and> read_from_sticks 36 8 ss' = Some (Some [0, 1, 2, 3, 4, 5, 6, 0], [])"
proof -
  have "take (nat 8) (drop (nat 36) (overwrite (nat 37) [1, 2, 3, 4, 5, 6] (replicate 64 (0::u8))))
      = [0, 1, 2, 3, 4, 5, 6, 0]"
    by code_simp
  with sticks_write_read [OF demo_sticks_ok(1), of 37 "[1, 2, 3, 4, 5, 6]" 36 8] demo_sticks_ok(2)
  show ?thesis by auto
qed

text \<open>A read that runs past the end of the last stick returns \<open>NULL\<close> instead of bytes.\<close>

lemma read_past_end_fails:
  assumes "sticks_ok ss" "0 \<le> a" "0 < n" "int (length (flat ss)) < a + n"
  shows "read_from_sticks a n ss = Some (None, [])"
  using read_loop_beyond [OF assms(1,2), of 0 n "[]"] assms(3,4) by (simp add: read_from_sticks_def)

text \<open>\<open>write_to_sticks\<close> returns true although no byte was stored when the stick closes the
  connection instead of answering; only a \<open>MEMORY_CORRUPTED\<close> message reports it.\<close>

lemma write_true_on_lost_stick:
  "write_to_sticks 0 4 [1, 2, 3, 4] [\<lparr>stick_size = 8, socket_stick = Closed, ip_memory_stick = '''', stick_port = -1\<rparr>] =
     Some ([\<lparr>stick_size = 8, socket_stick = Closed, ip_memory_stick = '''', stick_port = -1\<rparr>], True, [(OP_MEMORY_CORRUPTED, ''Stick not available'')])"
  by code_simp

end
