(* ===== verification/Swap_Store.thy ===== *)
theory Swap_Store
  imports Sticks
begin

section \<open>The Swap module\<close>

text \<open>
  \<open>swap/src\<close>: a file of \<open>SWAP_FILE_SIZE\<close> zero bytes, cut into blocks of \<open>BLOCK_SIZE\<close>, that
  serves block reads and writes of Kernel Memory. The file is a byte list; a write past the
  end extends it with zeros, a read past the end leaves the buffer undefined (\<open>None\<close>).
\<close>

record t_swap =
  sw_swap_size :: int
  sw_block_size :: int
  swap_file :: bytes

record t_swap_config =
  sc_swap_size :: int
  sc_block_size :: int

definition init_swap_file :: "int \<Rightarrow> int \<Rightarrow> t_swap" where
  "init_swap_file size_of_file size_of_block =
     \<lparr>sw_swap_size = size_of_file, sw_block_size = size_of_block, swap_file = replicate (nat size_of_file) 0\<rparr>"

definition swap_init_config :: "t_config \<Rightarrow> t_swap option" where
  "swap_init_config config =
     (case (config_get_int_value config ''SWAP_FILE_SIZE'', config_get_int_value config ''BLOCK_SIZE'') of
        (Some size_of_file, Some size_of_block) \<Rightarrow> Some (init_swap_file size_of_file size_of_block)
      | _ \<Rightarrow> None)"

definition swap_geometry :: "t_swap \<Rightarrow> bytes" where
  "swap_geometry swap =
     send_buffer OP_INFO_SWAP (int_bytes (sw_swap_size swap) @ int_bytes (sw_block_size swap))"

definition seek_block :: "int \<Rightarrow> int \<Rightarrow> int" where
  "seek_block block_number size_of_block = block_number * size_of_block"

text \<open>The file after the write; \<open>None\<close> for a negative offset or a content shorter than a block.\<close>

definition write_block :: "bytes \<Rightarrow> int \<Rightarrow> int \<Rightarrow> bytes \<Rightarrow> bytes option" where
  "write_block file_bytes block_number size_of_block content =
     (let pos = seek_block block_number size_of_block
      in if pos < 0 \<or> size_of_block < 0 \<or> int (length content) < size_of_block then None
         else (let padded = file_bytes @ replicate (nat pos - length file_bytes) 0
               in Some (overwrite (nat pos) (take (nat size_of_block) content) padded)))"

definition read_block :: "bytes \<Rightarrow> int \<Rightarrow> int \<Rightarrow> bytes option" where
  "read_block file_bytes block_number size_of_block =
     (let pos = seek_block block_number size_of_block
      in if pos < 0 \<or> size_of_block < 0 \<or> int (length file_bytes) < pos + size_of_block then None
         else Some (take (nat size_of_block) (drop (nat pos) file_bytes)))"

text \<open>One iteration of the loop of \<open>swap/src/main.c\<close>.\<close>

definition swap_request :: "t_swap \<Rightarrow> bytes \<Rightarrow> (t_swap \<times> bytes \<times> bytes \<times> bool) option" where
  "swap_request swap stream =
     (case receive_op_code stream of
        (op_code, rest) \<Rightarrow>
          (if op_code = OP_DISK_WRITE then
             (case receive_packet rest of
                None \<Rightarrow> None
              | Some (packet, rest') \<Rightarrow>
                  (if length packet \<noteq> 2 then Some (swap, [], rest', True)
                   else case element_int (packet ! 0) of
                          None \<Rightarrow> None
                        | Some block_number \<Rightarrow>
                            map_option (\<lambda>f. (swap\<lparr>swap_file := f\<rparr>, send_string OP_DISK_WRITE_DONE [], rest', True))
                              (write_block (swap_file swap) block_number (sw_block_size swap) (packet ! 1))))
           else if op_code = OP_DISK_READ then
             (case receive_buffer rest of
                None \<Rightarrow> None
              | Some (None, _, rest') \<Rightarrow> Some (swap, [], rest', True)
              | Some (Some buffer, _, rest') \<Rightarrow>
                  (case element_int buffer of
                     None \<Rightarrow> None
                   | Some block_number \<Rightarrow>
                       map_option (\<lambda>content. (swap, send_buffer OP_DISK_READ_DONE content, rest', True))
                         (read_block (swap_file swap) block_number (sw_block_size swap))))
           else Some (swap, [], rest, False)))"

subsection \<open>A block written is the block read\<close>

definition swap_ok :: "t_swap \<Rightarrow> bool" where
  "swap_ok swap \<longleftrightarrow> 0 < sw_block_size swap \<and> int (length (swap_file swap)) = sw_swap_size swap
     \<and> sw_swap_size swap + 20 \<le> INT_MAX"

definition valid_block :: "t_swap \<Rightarrow> int \<Rightarrow> bool" where
  "valid_block swap k \<longleftrightarrow> 0 \<le> k \<and> k < sw_swap_size swap div sw_block_size swap"

definition block_bytes :: "t_swap \<Rightarrow> int \<Rightarrow> bytes" where
  "block_bytes swap k = chunk (nat (k * sw_block_size swap)) (nat (sw_block_size swap)) (swap_file swap)"

lemma valid_block_range:
  assumes "swap_ok swap" "valid_block swap k"
  shows "0 \<le> k * sw_block_size swap" "k * sw_block_size swap + sw_block_size swap \<le> int (length (swap_file swap))"
proof -
  let ?b = "sw_block_size swap"
  have "(k + 1) * ?b \<le> sw_swap_size swap div ?b * ?b"
    using assms by (intro mult_right_mono) (auto simp: valid_block_def swap_ok_def)
  also have "\<dots> \<le> sw_swap_size swap"
    using assms(1) by (simp add: swap_ok_def pos_mod_sign minus_mod_eq_div_mult [symmetric])
  finally show "k * ?b + ?b \<le> int (length (swap_file swap))"
    using assms(1) by (simp add: swap_ok_def algebra_simps)
  show "0 \<le> k * ?b" using assms by (simp add: valid_block_def swap_ok_def)
qed

lemma read_block_eq:
  assumes "swap_ok swap" "valid_block swap k"
  shows "read_block (swap_file swap) k (sw_block_size swap) = Some (block_bytes swap k)"
  using valid_block_range [OF assms] assms
  by (simp add: read_block_def seek_block_def block_bytes_def chunk_def Let_def swap_ok_def)

lemma write_block_eq:
  assumes "swap_ok swap" "valid_block swap k" "int (length content) = sw_block_size swap"
  shows "write_block (swap_file swap) k (sw_block_size swap) content =
    Some (overwrite (nat (k * sw_block_size swap)) content (swap_file swap))"
proof -
  note r = valid_block_range [OF assms(1,2)]
  have "0 < sw_block_size swap" using assms(1) by (simp add: swap_ok_def)
  with r have "nat (k * sw_block_size swap) - length (swap_file swap) = 0" by linarith
  then have pad: "replicate (nat (k * sw_block_size swap) - length (swap_file swap)) (0::u8) = []" by simp
  show ?thesis
    using r assms by (simp add: write_block_def seek_block_def Let_def swap_ok_def pad)
qed

subsection \<open>The Kernel Memory side of the connection\<close>

text \<open>The connection of Kernel Memory to the module: a lost one never answers.\<close>

datatype swap_link = Swap_up t_swap | Swap_down

definition swap_exchange :: "swap_link \<Rightarrow> bytes \<Rightarrow> (bytes \<times> swap_link) option" where
  "swap_exchange lnk request =
     (case lnk of
        Swap_up swap \<Rightarrow> map_option (\<lambda>(swap', reply, rest, keep_running). (reply, Swap_up swap')) (swap_request swap request)
      | Swap_down \<Rightarrow> Some ([], Swap_down))"

definition disk_write_request :: "int \<Rightarrow> bytes \<Rightarrow> bytes" where
  "disk_write_request block_number aux_buffer =
     send_packet (packet_append (packet_append (create_packet OP_DISK_WRITE) (int_bytes block_number)) aux_buffer)"

text \<open>\<open>content\<close> is \<open>NULL\<close> when the sticks could not be read; \<open>memcpy\<close> then crashes.\<close>

definition write_block_to_swap :: "int \<Rightarrow> bytes option \<Rightarrow> int \<Rightarrow> int \<Rightarrow> swap_link \<Rightarrow> swap_link option" where
  "write_block_to_swap block_number content byte_count size_of_block lnk =
     (case content of
        None \<Rightarrow> None
      | Some c \<Rightarrow>
          (if byte_count < 0 \<or> int (length c) < byte_count \<or> size_of_block < byte_count then None
           else (let aux_buffer = take (nat byte_count) c @ replicate (nat size_of_block - nat byte_count) 0
                 in map_option snd (swap_exchange lnk (disk_write_request block_number aux_buffer)))))"

definition read_block_from_swap :: "int \<Rightarrow> swap_link \<Rightarrow> (bytes option \<times> swap_link) option" where
  "read_block_from_swap block_number lnk =
     (case swap_exchange lnk (send_buffer OP_DISK_READ (int_bytes block_number)) of
        None \<Rightarrow> None
      | Some (reply, lnk') \<Rightarrow>
          (case receive_op_code reply of
             (op_code, rest) \<Rightarrow>
               (if op_code \<noteq> OP_DISK_READ_DONE then Some (None, lnk')
                else map_option (\<lambda>(buffer, n, rest'). (buffer, lnk')) (receive_buffer rest))))"

subsubsection \<open>The module as a block device\<close>

lemma in_int_disk_ops: "in_int OP_DISK_WRITE" "in_int OP_DISK_READ" "in_int OP_DISK_READ_DONE"
  by (simp_all add: in_int_def INT_MAX_def)

lemma valid_block_in_int: "swap_ok swap \<Longrightarrow> valid_block swap k \<Longrightarrow> in_int k"
proof -
  assume a: "swap_ok swap" "valid_block swap k"
  note r = valid_block_range [OF a]
  have "k * 1 \<le> k * sw_block_size swap"
    using a by (intro mult_left_mono) (auto simp: swap_ok_def valid_block_def)
  with r a show "in_int k" by (simp add: in_int_def swap_ok_def valid_block_def)
qed

lemma swap_request_write:
  assumes "swap_ok swap" "valid_block swap k" "int (length content) = sw_block_size swap"
  shows "swap_request swap (disk_write_request k content) =
    Some (swap\<lparr>swap_file := overwrite (nat (k * sw_block_size swap)) content (swap_file swap)\<rparr>,
          send_string OP_DISK_WRITE_DONE [], [], True)"
proof -
  let ?vs = "[int_bytes k, content]"
  have ne: "content \<noteq> []" using assms by (auto simp: swap_ok_def)
  have k: "in_int k" using assms(1,2) by (rule valid_block_in_int)
  have "sw_block_size swap \<le> sw_swap_size swap"
    using valid_block_range [OF assms(1,2)] assms(1) by (simp add: swap_ok_def)
  then have len: "int (length (encode_values ?vs)) \<le> INT_MAX"
    using assms by (simp add: encode_values_def swap_ok_def)
  obtain body where "send_packet (packet_appends (create_packet OP_DISK_WRITE) ?vs) @ [] = int_bytes OP_DISK_WRITE @ body"
    "receive_packet body = Some (?vs, [])"
    using receive_packet_send [OF _ _ len in_int_disk_ops(1), of "[]"] ne by auto
  then have body: "disk_write_request k content = int_bytes OP_DISK_WRITE @ body" "receive_packet body = Some (?vs, [])"
    by (simp_all add: disk_write_request_def packet_appends_def)
  show ?thesis
    unfolding swap_request_def body(1) receive_op_code_bytes [OF in_int_disk_ops(1)]
    using assms by (simp add: body(2) element_int_bytes k write_block_eq)
qed

lemma swap_request_read:
  assumes "swap_ok swap" "valid_block swap k"
  shows "swap_request swap (send_buffer OP_DISK_READ (int_bytes k)) =
    Some (swap, send_buffer OP_DISK_READ_DONE (block_bytes swap k), [], True)"
proof -
  have "receive_buffer (int_bytes 4 @ int_bytes k) = Some (Some (int_bytes k), 4, [])"
    using receive_buffer_bytes [of "int_bytes k" "[]"] by (simp add: INT_MAX_def)
  moreover have "send_buffer OP_DISK_READ (int_bytes k) = int_bytes OP_DISK_READ @ int_bytes 4 @ int_bytes k"
    by (simp add: send_buffer_def serialize_packet_def)
  ultimately show ?thesis
    unfolding swap_request_def using assms
    by (simp add: receive_op_code_bytes [OF in_int_disk_ops(2)] element_int_bytes valid_block_in_int read_block_eq)
qed

lemma length_block_bytes: "swap_ok swap \<Longrightarrow> valid_block swap k \<Longrightarrow> int (length (block_bytes swap k)) = sw_block_size swap"
  using valid_block_range [of swap k] by (simp add: block_bytes_def chunk_def swap_ok_def nat_le_iff)

text \<open>What Kernel Memory relies on: blocks are independent and keep what was written.\<close>

locale block_store =
  fixes rd :: "'s \<Rightarrow> int \<Rightarrow> bytes option"
    and wr :: "'s \<Rightarrow> int \<Rightarrow> bytes \<Rightarrow> 's option"
    and valid :: "'s \<Rightarrow> int \<Rightarrow> bool"
    and bsize :: "'s \<Rightarrow> int"
    and ok :: "'s \<Rightarrow> bool"
  assumes wr_ok: "ok s \<Longrightarrow> valid s k \<Longrightarrow> int (length b) = bsize s \<Longrightarrow>
      \<exists>s'. wr s k b = Some s' \<and> ok s' \<and> valid s' = valid s \<and> bsize s' = bsize s \<and> rd s' k = Some b
        \<and> (\<forall>j. valid s j \<longrightarrow> j \<noteq> k \<longrightarrow> rd s' j = rd s j)"
begin

lemma writes_kept:
  assumes "ok s" "distinct (map fst kbs)" "\<forall>(k, b) \<in> set kbs. valid s k \<and> int (length b) = bsize s"
  shows "\<exists>s'. foldl (\<lambda>t (k, b). Option.bind t (\<lambda>t. wr t k b)) (Some s) kbs = Some s' \<and> ok s' \<and> valid s' = valid s
    \<and> bsize s' = bsize s \<and> (\<forall>k b. (k, b) \<in> set kbs \<longrightarrow> rd s' k = Some b)
    \<and> (\<forall>j. valid s j \<longrightarrow> j \<notin> fst ` set kbs \<longrightarrow> rd s' j = rd s j)"
  using assms
proof (induction kbs rule: rev_induct)
  case (snoc kb kbs)
  obtain k b where kb: "kb = (k, b)" by (cases kb)
  obtain t where t: "foldl (\<lambda>t (k, b). Option.bind t (\<lambda>t. wr t k b)) (Some s) kbs = Some t" "ok t"
    "valid t = valid s" "bsize t = bsize s" "\<forall>k b. (k, b) \<in> set kbs \<longrightarrow> rd t k = Some b"
    "\<forall>j. valid s j \<longrightarrow> j \<notin> fst ` set kbs \<longrightarrow> rd t j = rd s j"
    using snoc by auto
  have "valid t k" "int (length b) = bsize t" using snoc.prems(3) t(3,4) kb by auto
  from wr_ok [OF t(2) this] obtain s' where s': "wr t k b = Some s'" "ok s'" "valid s' = valid t"
    "bsize s' = bsize t" "rd s' k = Some b" "\<forall>j. valid t j \<longrightarrow> j \<noteq> k \<longrightarrow> rd s' j = rd t j" by blast
  have "rd s' j = Some c" if "(j, c) \<in> set kbs" for j c
  proof -
    have "j \<noteq> k" using snoc.prems(2) that kb by (auto simp: image_iff)
    moreover have "valid t j" using snoc.prems(3) that t(3) by auto
    ultimately show ?thesis using s'(6) t(5) that by simp
  qed
  with t s' kb show ?case by (intro exI [of _ s']) auto
qed simp

end

definition link_read :: "t_swap \<Rightarrow> int \<Rightarrow> bytes option" where
  "link_read swap k = (case read_block_from_swap k (Swap_up swap) of Some (b, lnk) \<Rightarrow> b | None \<Rightarrow> None)"

definition link_write :: "t_swap \<Rightarrow> int \<Rightarrow> bytes \<Rightarrow> t_swap option" where
  "link_write swap k b =
     (case write_block_to_swap k (Some b) (int (length b)) (sw_block_size swap) (Swap_up swap) of
        Some (Swap_up swap') \<Rightarrow> Some swap'
      | _ \<Rightarrow> None)"

lemma read_block_from_swap_eq:
  assumes "swap_ok swap" "valid_block swap k"
  shows "read_block_from_swap k (Swap_up swap) = Some (Some (block_bytes swap k), Swap_up swap)"
proof -
  let ?b = "block_bytes swap k"
  have len: "int (length ?b) = sw_block_size swap" using assms by (rule length_block_bytes)
  have "sw_block_size swap \<le> sw_swap_size swap"
    using valid_block_range [OF assms] assms(1) by (simp add: swap_ok_def)
  then have "?b \<noteq> []" "int (length ?b) \<le> INT_MAX" using len assms(1) by (auto simp: swap_ok_def)
  from receive_buffer_bytes [OF this, of "[]"] show ?thesis
    using receive_op_code_bytes [OF in_int_disk_ops(3), of "int_bytes (int (length ?b)) @ ?b"]
    unfolding read_block_from_swap_def swap_exchange_def swap_link.case swap_request_read [OF assms]
    by (simp add: send_buffer_def serialize_packet_def)
qed

lemma blocks_disjoint:
  assumes "0 \<le> j" "0 \<le> k" "j \<noteq> k" "0 < (b::int)"
  shows "j * b + b \<le> k * b \<or> k * b + b \<le> j * b"
proof (cases "j < k")
  case True
  then have "(j + 1) * b \<le> k * b" using assms(4) by (intro mult_right_mono) auto
  then show ?thesis by (simp add: algebra_simps)
next
  case False
  then have "(k + 1) * b \<le> j * b" using assms by (intro mult_right_mono) auto
  then show ?thesis by (simp add: algebra_simps)
qed

lemma chunk_overwrite_same: "i + length b \<le> length xs \<Longrightarrow> chunk i (length b) (overwrite i b xs) = b"
  by (simp add: chunk_def overwrite_def)

lemma chunk_overwrite_other:
  assumes "i + n \<le> j \<or> j + length b \<le> i" "j + length b \<le> length xs"
  shows "chunk i n (overwrite j b xs) = chunk i n xs"
  using assms(1)
proof
  assume "i + n \<le> j"
  with assms(2) show ?thesis by (simp add: chunk_def overwrite_def take_drop min_absorb1 add.commute)
next
  assume "j + length b \<le> i"
  with assms(2) have "drop i (overwrite j b xs) = drop i xs" by (simp add: overwrite_def)
  then show ?thesis by (simp add: chunk_def)
qed

interpretation swap_disk: block_store link_read link_write valid_block sw_block_size swap_ok
proof unfold_locales
  fix s k and b :: bytes
  assume a: "swap_ok s" "valid_block s k" "int (length b) = sw_block_size s"
  let ?B = "sw_block_size s"
  let ?s = "s\<lparr>swap_file := overwrite (nat (k * ?B)) b (swap_file s)\<rparr>"
  note r = valid_block_range [OF a(1,2)]
  have range: "nat (k * ?B) + length b \<le> length (swap_file s)" using r a(3) by linarith
  have ok: "swap_ok ?s" using a(1) range by (simp add: swap_ok_def)
  have v: "valid_block ?s = valid_block s" by (simp add: valid_block_def fun_eq_iff)
  have w: "link_write s k b = Some ?s"
    using a(3) by (simp add: link_write_def write_block_to_swap_def swap_exchange_def swap_request_write [OF a] Let_def)
  have rd: "link_read t j = Some (block_bytes t j)" if "swap_ok t" "valid_block t j" for t j
    using read_block_from_swap_eq [OF that] by (simp add: link_read_def)
  have "block_bytes ?s k = b"
    using chunk_overwrite_same [OF range] a(3) by (simp add: block_bytes_def) (metis nat_int)
  moreover have "block_bytes ?s j = block_bytes s j" if "valid_block s j" "j \<noteq> k" for j
  proof -
    have B: "0 < ?B" using a(1) by (simp add: swap_ok_def)
    have "j * ?B + ?B \<le> k * ?B \<or> k * ?B + ?B \<le> j * ?B"
      using blocks_disjoint [of j k ?B] that a(2) B by (simp add: valid_block_def)
    moreover have "0 \<le> j * ?B" "0 \<le> k * ?B" using valid_block_range(1) [OF a(1)] that a(2) by auto
    ultimately have "nat (j * ?B) + nat ?B \<le> nat (k * ?B) \<or> nat (k * ?B) + length b \<le> nat (j * ?B)"
      using a(3) B by linarith
    from chunk_overwrite_other [OF this range] show ?thesis by (simp add: block_bytes_def)
  qed
  ultimately show "\<exists>s'. link_write s k b = Some s' \<and> swap_ok s' \<and> valid_block s' = valid_block s
      \<and> sw_block_size s' = sw_block_size s \<and> link_read s' k = Some b
      \<and> (\<forall>j. valid_block s j \<longrightarrow> j \<noteq> k \<longrightarrow> link_read s' j = link_read s j)"
    using w ok v rd a by (intro exI [of _ ?s]) auto
qed

end
