(* ===== verification/Registers.thy ===== *)
theory Registers
  imports Msg
begin

section \<open>CPU registers\<close>

text \<open>
  \<open>t_registers\<close> of \<open>utils/registers_cpu.h\<close> with \<open>cpu/registers.c\<close>: four 8-bit and seven 32-bit
  registers addressed by name. A write to an 8-bit register keeps the low byte; an unknown
  name reads as 0 and is not written. The struct crosses the wire as its 32 bytes in memory.
\<close>

unbundle bit_operations_syntax

record t_registers =
  AX :: u8
  BX :: u8
  CX :: u8
  DX :: u8
  PC :: u32
  EAX :: u32
  EBX :: u32
  ECX :: u32
  EDX :: u32
  SI :: u32
  DI :: u32

definition zero_registers :: t_registers where
  "zero_registers = \<lparr>AX = 0, BX = 0, CX = 0, DX = 0, PC = 0, EAX = 0, EBX = 0, ECX = 0, EDX = 0, SI = 0, DI = 0\<rparr>"

definition get_register :: "t_registers \<Rightarrow> string \<Rightarrow> u32" where
  "get_register r name =
     (if name = ''PC'' then PC r
      else if name = ''AX'' then ucast (AX r)
      else if name = ''BX'' then ucast (BX r)
      else if name = ''CX'' then ucast (CX r)
      else if name = ''DX'' then ucast (DX r)
      else if name = ''EAX'' then EAX r
      else if name = ''EBX'' then EBX r
      else if name = ''ECX'' then ECX r
      else if name = ''EDX'' then EDX r
      else if name = ''SI'' then SI r
      else if name = ''DI'' then DI r
      else 0)"

definition set_register :: "t_registers \<Rightarrow> string \<Rightarrow> u32 \<Rightarrow> t_registers" where
  "set_register r name v =
     (if name = ''PC'' then r\<lparr>PC := v\<rparr>
      else if name = ''AX'' then r\<lparr>AX := ucast v\<rparr>
      else if name = ''BX'' then r\<lparr>BX := ucast v\<rparr>
      else if name = ''CX'' then r\<lparr>CX := ucast v\<rparr>
      else if name = ''DX'' then r\<lparr>DX := ucast v\<rparr>
      else if name = ''EAX'' then r\<lparr>EAX := v\<rparr>
      else if name = ''EBX'' then r\<lparr>EBX := v\<rparr>
      else if name = ''ECX'' then r\<lparr>ECX := v\<rparr>
      else if name = ''EDX'' then r\<lparr>EDX := v\<rparr>
      else if name = ''SI'' then r\<lparr>SI := v\<rparr>
      else if name = ''DI'' then r\<lparr>DI := v\<rparr>
      else r)"

definition registers_bytes :: "t_registers \<Rightarrow> bytes" where
  "registers_bytes r =
     [AX r, BX r, CX r, DX r] @ u32_bytes (PC r) @ u32_bytes (EAX r) @ u32_bytes (EBX r)
     @ u32_bytes (ECX r) @ u32_bytes (EDX r) @ u32_bytes (SI r) @ u32_bytes (DI r)"

definition bytes_registers :: "bytes \<Rightarrow> t_registers option" where
  "bytes_registers bs =
     (if length bs < 32 then None
      else Some \<lparr>AX = bs ! 0, BX = bs ! 1, CX = bs ! 2, DX = bs ! 3,
                 PC = bytes_u32 (drop 4 bs), EAX = bytes_u32 (drop 8 bs), EBX = bytes_u32 (drop 12 bs),
                 ECX = bytes_u32 (drop 16 bs), EDX = bytes_u32 (drop 20 bs), SI = bytes_u32 (drop 24 bs),
                 DI = bytes_u32 (drop 28 bs)\<rparr>)"

definition byte_registers :: "string set" where
  "byte_registers = {''AX'', ''BX'', ''CX'', ''DX''}"

definition word_registers :: "string set" where
  "word_registers = {''PC'', ''EAX'', ''EBX'', ''ECX'', ''EDX'', ''SI'', ''DI''}"

lemma ucast_byte_mask: "(ucast (ucast (v::u32) :: u8) :: u32) = v AND 255"
proof -
  have "(255::u32) = mask 8" by (simp add: mask_eq_exp_minus_1)
  then show ?thesis
    by (simp add: flip: take_bit_eq_mask) (auto simp: bit_eq_iff bit_simps)
qed

lemma get_set_same:
  "get_register (set_register r name v) name =
     (if name \<in> byte_registers then v AND 255 else if name \<in> word_registers then v else 0)"
  by (auto simp: get_register_def set_register_def byte_registers_def word_registers_def ucast_byte_mask)

lemma get_set_other: "other \<noteq> name \<Longrightarrow> get_register (set_register r name v) other = get_register r other"
  by (auto simp: get_register_def set_register_def)

lemma registers_roundtrip: "bytes_registers (registers_bytes r @ rest) = Some r"
proof -
  have "drop 4 (registers_bytes r @ rest) = u32_bytes (PC r) @ drop 8 (registers_bytes r @ rest)"
       "drop 8 (registers_bytes r @ rest) = u32_bytes (EAX r) @ drop 12 (registers_bytes r @ rest)"
       "drop 12 (registers_bytes r @ rest) = u32_bytes (EBX r) @ drop 16 (registers_bytes r @ rest)"
       "drop 16 (registers_bytes r @ rest) = u32_bytes (ECX r) @ drop 20 (registers_bytes r @ rest)"
       "drop 20 (registers_bytes r @ rest) = u32_bytes (EDX r) @ drop 24 (registers_bytes r @ rest)"
       "drop 24 (registers_bytes r @ rest) = u32_bytes (SI r) @ drop 28 (registers_bytes r @ rest)"
       "drop 28 (registers_bytes r @ rest) = u32_bytes (DI r) @ rest"
    by (simp_all add: registers_bytes_def)
  then show ?thesis
    by (simp add: bytes_registers_def bytes_u32_bytes) (simp add: registers_bytes_def)
qed

end
