(* ===== verification/Kernel_Memory.thy ===== *)
theory Kernel_Memory
  imports Swap_Store Registers
begin

section \<open>Kernel Memory: processes, swapping and the request listeners\<close>

text \<open>
  The state \<open>t_kernel_memory_data\<close> of the module with \<open>swap.c\<close>, \<open>scheduler_listener.c\<close>,
  \<open>cpu_listener.c\<close>, \<open>registry.c\<close>, \<open>initializer.c\<close>, \<open>connections.c\<close> and \<open>server.c\<close>. A handler
  takes the bytes still unread on its socket, so the layout of every request is part of the
  model, and returns the new state, the bytes sent back, the unread bytes and whether the
  listener goes on. \<open>None\<close> is a dereference of \<open>NULL\<close> or an access outside a buffer. The
  contents of the script files are the argument \<open>scripts\<close>.
\<close>

subsection \<open>Data\<close>

record t_block_data =
  block_number :: int
  bd_pid :: u32
  segment_number :: int
  segment_block_number :: int
  segment_size :: int

record t_swap_data =
  block_list :: "t_block_data list"
  swap_size :: int
  block_size :: int
  socket_swap :: swap_link

record t_process =
  pr_pid :: u32
  instructions :: "string list"
  pr_registers :: t_registers

text \<open>A process that could not be loaded is in the list as \<open>NULL\<close>.\<close>

record t_kernel_memory =
  main_memory :: t_main_memory
  connected_sticks :: "t_stick_data list"
  swap_data :: "t_swap_data option"
  processes :: "t_process option list"

abbreviation (input) NO_PID :: u32 where
  "NO_PID \<equiv> -1"

definition send_messages :: "message list \<Rightarrow> bytes" where
  "send_messages msgs = concat (map (\<lambda>(op, s). send_string op s) msgs)"

subsection \<open>initializer.c\<close>

definition init_kernel_memory_data :: "int \<Rightarrow> int \<Rightarrow> t_allocation_strategy \<Rightarrow> t_kernel_memory" where
  "init_kernel_memory_data delay segment_max_size strategy =
     \<lparr>main_memory = init_main_memory segment_max_size strategy delay, connected_sticks = [],
      swap_data = None, processes = []\<rparr>"

definition free_block_data :: "int \<Rightarrow> t_block_data" where
  "free_block_data i = \<lparr>block_number = i, bd_pid = NO_PID, segment_number = -1,
     segment_block_number = -1, segment_size = -1\<rparr>"

text \<open>A block size of 0 divides by zero.\<close>

definition init_block_list :: "int \<Rightarrow> int \<Rightarrow> t_block_data list option" where
  "init_block_list size_of_swap size_of_block =
     (if size_of_block = 0 then None else Some (map free_block_data [0..size_of_swap div size_of_block - 1]))"

definition init_swap_data :: "swap_link \<Rightarrow> bytes \<Rightarrow> (t_swap_data option \<times> bytes) option" where
  "init_swap_data lnk stream =
     (case receive_op_code stream of
        (op, rest) \<Rightarrow>
          (if op \<noteq> OP_INFO_SWAP then Some (None, rest)
           else case receive_buffer rest of
                  Some (Some b, n, rest') \<Rightarrow>
                    (if length b < 8 then None
                     else (let size_of_swap = bytes_int b; size_of_block = bytes_int (drop 4 b)
                           in map_option (\<lambda>bl. (Some \<lparr>block_list = bl, swap_size = size_of_swap,
                                  block_size = size_of_block, socket_swap = lnk\<rparr>, rest'))
                                (init_block_list size_of_swap size_of_block)))
                | _ \<Rightarrow> None))"

text \<open>
  \<open>init_process\<close> on the contents of the script file, \<open>None\<close> when it cannot be opened: one
  instruction per line, all registers zero. Lines are shorter than the 256-byte buffer.
\<close>

fun script_lines :: "nat \<Rightarrow> string \<Rightarrow> string list" where
  "script_lines 0 contents = []"
| "script_lines (Suc n) contents =
     (case file_read_line contents of None \<Rightarrow> [] | Some (line, rest) \<Rightarrow> line # script_lines n rest)"

definition init_process :: "u32 \<Rightarrow> string option \<Rightarrow> t_process option" where
  "init_process pid contents =
     map_option (\<lambda>c. \<lparr>pr_pid = pid, instructions = script_lines (length c) c, pr_registers = zero_registers\<rparr>) contents"

subsection \<open>registry.c\<close>

text \<open>The outer \<open>None\<close> is the dereference of a process that is \<open>NULL\<close>.\<close>

fun find_process :: "t_process option list \<Rightarrow> u32 \<Rightarrow> t_process option option" where
  "find_process [] pid = Some None"
| "find_process (None # ps) pid = None"
| "find_process (Some p # ps) pid = (if pr_pid p = pid then Some (Some p) else find_process ps pid)"

subsection \<open>swap.c\<close>

fun find_free_block_from :: "nat \<Rightarrow> int \<Rightarrow> t_block_data list \<Rightarrow> int option" where
  "find_free_block_from 0 i blocks = Some (-1)"
| "find_free_block_from (Suc n) i blocks =
     (if int (length blocks) \<le> i then None
      else if bd_pid (blocks ! nat i) = NO_PID then Some i
      else find_free_block_from n (i + 1) blocks)"

definition find_free_block :: "t_swap_data \<Rightarrow> int option" where
  "find_free_block swap =
     (if block_size swap = 0 then None
      else find_free_block_from (nat (swap_size swap div block_size swap)) 0 (block_list swap))"

definition add_block_to_swap :: "t_segment \<Rightarrow> int \<Rightarrow> t_swap_data \<Rightarrow> (t_swap_data \<times> int) option" where
  "add_block_to_swap seg counter swap =
     (case find_free_block swap of
        None \<Rightarrow> None
      | Some free_block_number \<Rightarrow>
          (if free_block_number \<noteq> -1 then
             Some (swap\<lparr>block_list := (block_list swap)[nat free_block_number :=
                     (block_list swap ! nat free_block_number)
                       \<lparr>segment_number := to_int (s_id seg), segment_block_number := counter,
                        bd_pid := s_pid seg, segment_size := s_size seg\<rparr>]\<rparr>, free_block_number)
           else Some (swap, free_block_number)))"

definition bytes_in_block :: "int \<Rightarrow> int \<Rightarrow> int \<Rightarrow> int" where
  "bytes_in_block size_of_segment offs size_of_block =
     (if size_of_segment - offs < size_of_block then size_of_segment - offs else size_of_block)"

text \<open>The blocks \<open>i, i + 1, \<dots>\<close> of a segment, \<open>n\<close> of them left.\<close>

fun suspend_blocks :: "nat \<Rightarrow> int \<Rightarrow> t_segment \<Rightarrow> t_stick_data list \<Rightarrow> t_swap_data
    \<Rightarrow> (t_swap_data \<times> bool \<times> message list) option" where
  "suspend_blocks 0 i seg sticks swap = Some (swap, True, [])"
| "suspend_blocks (Suc n) i seg sticks swap =
     (let offs = i * block_size swap; bytes_to_read = bytes_in_block (s_size seg) offs (block_size swap)
      in case read_from_sticks (s_base seg + offs) bytes_to_read sticks of
           None \<Rightarrow> None
         | Some (content, msgs) \<Rightarrow>
             (case add_block_to_swap seg i swap of
                None \<Rightarrow> None
              | Some (swap', number) \<Rightarrow>
                  (if number = -1
                   then Some (swap', False, msgs @ [(OP_SUSPENSION_FAILED, ''Could not suspend the process because swap is full.'')])
                   else case write_block_to_swap number content bytes_to_read (block_size swap) (socket_swap swap') of
                          None \<Rightarrow> None
                        | Some lnk \<Rightarrow>
                            map_option (\<lambda>(sw, ok, msgs'). (sw, ok, msgs @ msgs'))
                              (suspend_blocks n (i + 1) seg sticks (swap'\<lparr>socket_swap := lnk\<rparr>)))))"

definition suspend_segment :: "t_segment \<Rightarrow> t_stick_data list \<Rightarrow> t_swap_data \<Rightarrow> (t_swap_data \<times> bool \<times> message list) option" where
  "suspend_segment seg sticks swap =
     (if block_size swap = 0 then None
      else suspend_blocks (nat ((s_size seg + block_size swap - 1) div block_size swap)) 0 seg sticks swap)"

text \<open>The loop over the segments: the swap, \<open>Some\<close> of the segments to remove or \<open>None\<close> on a failure.\<close>

fun suspend_segments :: "u32 \<Rightarrow> t_segment list \<Rightarrow> t_stick_data list \<Rightarrow> t_swap_data
    \<Rightarrow> (t_swap_data \<times> t_segment list option \<times> message list) option" where
  "suspend_segments pid [] sticks swap = Some (swap, Some [], [])"
| "suspend_segments pid (s # ss) sticks swap =
     (if s_pid s \<noteq> pid then suspend_segments pid ss sticks swap
      else case suspend_segment s sticks swap of
             None \<Rightarrow> None
           | Some (swap', False, msgs) \<Rightarrow> Some (swap', None, msgs)
           | Some (swap', True, msgs) \<Rightarrow>
               map_option (\<lambda>(sw, to_remove, msgs'). (sw, map_option (Cons s) to_remove, msgs @ msgs'))
                 (suspend_segments pid ss sticks swap'))"

definition remove_process_segments :: "t_segment list \<Rightarrow> u32 \<Rightarrow> t_main_memory \<Rightarrow> t_main_memory" where
  "remove_process_segments segments_to_remove pid m =
     foldl (\<lambda>m seg. remove_segment (s_id seg) pid m) m segments_to_remove"

definition suspend_process :: "t_process option \<Rightarrow> t_kernel_memory \<Rightarrow> (t_kernel_memory \<times> message list) option" where
  "suspend_process process_to_suspend km =
     (case process_to_suspend of
        None \<Rightarrow> Some (km, [])
      | Some process \<Rightarrow>
          (case swap_data km of
             None \<Rightarrow> Some (km, [(OP_SUSPENSION_FAILED, ''Swap module is not connected yet.'')])
           | Some swap \<Rightarrow>
               (case suspend_segments (pr_pid process) (segments (main_memory km)) (connected_sticks km) swap of
                  None \<Rightarrow> None
                | Some (swap', None, msgs) \<Rightarrow> Some (km\<lparr>swap_data := Some swap'\<rparr>, msgs)
                | Some (swap', Some to_remove, msgs) \<Rightarrow>
                    Some (km\<lparr>swap_data := Some swap',
                             main_memory := remove_process_segments to_remove (pr_pid process) (main_memory km)\<rparr>,
                          msgs @ (if to_remove \<noteq> [] then [(OP_SUSPENSION_OK, [])]
                                  else [(OP_SUSPENSION_FAILED, ''Could not suspend the process because its pid was not found.'')])))))"

definition suspended_size :: "u32 \<Rightarrow> t_block_data list \<Rightarrow> int" where
  "suspended_size pid blocks =
     foldl (\<lambda>sz b. if bd_pid b = pid \<and> segment_block_number b = 0 then sz + segment_size b else sz) 0 blocks"

definition can_resume :: "u32 \<Rightarrow> t_kernel_memory \<Rightarrow> bool" where
  "can_resume pid km =
     (case swap_data km of
        None \<Rightarrow> False
      | Some swap \<Rightarrow> suspended_size pid (block_list swap) \<le> compute_free_space (holes (main_memory km)))"

definition regenerate_segment :: "u32 \<Rightarrow> u32 \<Rightarrow> int \<Rightarrow> t_main_memory \<Rightarrow> t_main_memory \<times> bool \<times> message list" where
  "regenerate_segment sid pid sz m =
     (if compute_free_space (holes m) < sz
      then (m, False, [(OP_RESUME_SUSPENSION_FAILED, ''There are not memory enough'')])
      else (let (chosen, m1) = select_hole (to_u32 sz) m
            in if h_size chosen = -1
               then (m1, False, [(OP_RESUME_SUSPENSION_FAILED, ''Could not allocate holes.'')])
               else (update_segment_list m1 chosen sz pid sid, True, [])))"

definition remove_block_from_swap :: "int \<Rightarrow> t_swap_data \<Rightarrow> t_swap_data \<times> int" where
  "remove_block_from_swap number swap =
     (if number < 0 \<or> int (length (block_list swap)) \<le> number then (swap, -1)
      else (swap\<lparr>block_list := (block_list swap)[nat number :=
                  (block_list swap ! nat number)\<lparr>segment_number := -1, segment_block_number := -1,
                     bd_pid := NO_PID, segment_size := -1\<rparr>]\<rparr>, number))"

definition compute_address_with_offset :: "int \<Rightarrow> t_main_memory \<Rightarrow> u32 \<Rightarrow> t_block_data \<Rightarrow> int option" where
  "compute_address_with_offset size_of_block m pid block =
     map_option (\<lambda>seg. s_base seg + size_of_block * segment_block_number block)
       (find_segment m pid (to_u32 (segment_number block)))"

text \<open>One block of the process: the memory, the sticks, the swap, and whether to go on.\<close>

definition resume_block :: "t_block_data \<Rightarrow> u32 \<Rightarrow> t_main_memory \<Rightarrow> t_stick_data list \<Rightarrow> t_swap_data
    \<Rightarrow> (t_main_memory \<times> t_stick_data list \<times> t_swap_data \<times> bool \<times> message list) option" where
  "resume_block block pid m sticks swap =
     (let (m1, regen_ok, msgs) =
            (if segment_block_number block = 0
             then regenerate_segment (to_u32 (segment_number block)) pid (segment_size block) m
             else (m, True, []))
      in if \<not> regen_ok then Some (m1, sticks, swap, False, msgs)
         else case read_block_from_swap (block_number block) (socket_swap swap) of
                None \<Rightarrow> None
              | Some (None, lnk) \<Rightarrow>
                  Some (m1, sticks, swap\<lparr>socket_swap := lnk\<rparr>, False,
                        msgs @ [(OP_RESUME_SUSPENSION_FAILED, ''Error reading swap block'')])
              | Some (Some content, lnk) \<Rightarrow>
                  (let real_bytes = bytes_in_block (segment_size block)
                         (segment_block_number block * block_size swap) (block_size swap)
                   in case compute_address_with_offset (block_size swap) m1 pid block of
                        None \<Rightarrow> None
                      | Some write_address \<Rightarrow>
                          (case write_to_sticks write_address real_bytes content sticks of
                             None \<Rightarrow> None
                           | Some (sticks', ok, msgs') \<Rightarrow>
                               (case remove_block_from_swap (block_number block) (swap\<lparr>socket_swap := lnk\<rparr>) of
                                  (swap', removed) \<Rightarrow>
                                    Some (m1, sticks', swap', block_number block = removed,
                                      msgs @ msgs' @ (if block_number block = removed then []
                                        else [(OP_RESUME_SUSPENSION_FAILED, ''Could not remove the swap block.'')]))))))"

text \<open>The loop over the block list from index \<open>k\<close>: \<open>None\<close> in the result for an early return.\<close>

fun resume_blocks :: "nat \<Rightarrow> nat \<Rightarrow> u32 \<Rightarrow> bool \<Rightarrow> t_main_memory \<Rightarrow> t_stick_data list \<Rightarrow> t_swap_data
    \<Rightarrow> (t_main_memory \<times> t_stick_data list \<times> t_swap_data \<times> bool option \<times> message list) option" where
  "resume_blocks 0 k pid process_found m sticks swap = Some (m, sticks, swap, Some process_found, [])"
| "resume_blocks (Suc n) k pid process_found m sticks swap =
     (let block = block_list swap ! k
      in if bd_pid block \<noteq> pid then resume_blocks n (Suc k) pid process_found m sticks swap
         else case resume_block block pid m sticks swap of
                None \<Rightarrow> None
              | Some (m', sticks', swap', False, msgs) \<Rightarrow> Some (m', sticks', swap', None, msgs)
              | Some (m', sticks', swap', True, msgs) \<Rightarrow>
                  map_option (\<lambda>(m, st, sw, r, msgs'). (m, st, sw, r, msgs @ msgs'))
                    (resume_blocks n (Suc k) pid True m' sticks' swap'))"

definition resume_process :: "u32 \<Rightarrow> t_kernel_memory \<Rightarrow> (t_kernel_memory \<times> message list) option" where
  "resume_process pid km =
     (case swap_data km of
        None \<Rightarrow> Some (km, [(OP_RESUME_SUSPENSION_FAILED, ''Swap module is not connected yet.'')])
      | Some swap \<Rightarrow>
          (if \<not> can_resume pid km
           then Some (km, [(OP_RESUME_SUSPENSION_FAILED, ''The process does not fit in memory'')])
           else map_option (\<lambda>(m, sticks, swap', found, msgs).
                  (km\<lparr>main_memory := m, connected_sticks := sticks, swap_data := Some swap'\<rparr>,
                   msgs @ (case found of
                             None \<Rightarrow> []
                           | Some False \<Rightarrow> [(OP_RESUME_SUSPENSION_FAILED,
                               ''The process was not resumed because its blocks found on disk.'')]
                           | Some True \<Rightarrow> [(OP_RESUME_SUSPENSION_OK, [])])))
                (resume_blocks (length (block_list swap)) 0 pid False (main_memory km) (connected_sticks km) swap)))"

end
