(* ===== verification/KM_Listeners.thy ===== *)
theory KM_Listeners
  imports Kernel_Memory
begin

section \<open>Kernel Memory: the listeners\<close>

text \<open>
  \<open>scheduler_listener.c\<close>, \<open>cpu_listener.c\<close>, \<open>connections.c\<close> and \<open>server.c\<close>. Each handler of
  the two dispatchers is a function on the module's state and the unread bytes of its
  socket; the bytes it sends back and whether the listener keeps running are part of the
  result. The contents of the script files are the argument \<open>scripts\<close>.
\<close>

type_synonym handler_result = "(t_kernel_memory \<times> bytes \<times> bytes \<times> bool) option"

subsection \<open>Requests of the Kernel Scheduler\<close>

record t_syscall_memory =
  sm_pid :: u32
  sm_segment_id :: u32
  sm_size :: u32

record t_stdin_request =
  in_pid :: u32
  bytes_to_read :: u32
  in_logical_address :: u32

record t_stdout_request =
  out_pid :: u32
  bytes_to_write :: u32
  out_logical_address :: u32

definition decode_syscall_memory :: "bytes \<Rightarrow> t_syscall_memory option" where
  "decode_syscall_memory b =
     (if length b < 12 then None
      else Some \<lparr>sm_pid = bytes_u32 b, sm_segment_id = bytes_u32 (drop 4 b), sm_size = bytes_u32 (drop 8 b)\<rparr>)"

definition encode_syscall_memory :: "t_syscall_memory \<Rightarrow> bytes" where
  "encode_syscall_memory r = u32_bytes (sm_pid r) @ u32_bytes (sm_segment_id r) @ u32_bytes (sm_size r)"

definition decode_stdin_request :: "bytes \<Rightarrow> t_stdin_request option" where
  "decode_stdin_request b =
     (if length b < 12 then None
      else Some \<lparr>in_pid = bytes_u32 b, bytes_to_read = bytes_u32 (drop 4 b), in_logical_address = bytes_u32 (drop 8 b)\<rparr>)"

definition encode_stdin_request :: "t_stdin_request \<Rightarrow> bytes" where
  "encode_stdin_request r = u32_bytes (in_pid r) @ u32_bytes (bytes_to_read r) @ u32_bytes (in_logical_address r)"

definition decode_stdout_request :: "bytes \<Rightarrow> t_stdout_request option" where
  "decode_stdout_request b =
     (if length b < 12 then None
      else Some \<lparr>out_pid = bytes_u32 b, bytes_to_write = bytes_u32 (drop 4 b), out_logical_address = bytes_u32 (drop 8 b)\<rparr>)"

definition encode_stdout_request :: "t_stdout_request \<Rightarrow> bytes" where
  "encode_stdout_request r = u32_bytes (out_pid r) @ u32_bytes (bytes_to_write r) @ u32_bytes (out_logical_address r)"

text \<open>A \<open>NULL\<close> buffer or one shorter than the struct it is cast to is \<open>None\<close>.\<close>

definition receive_struct :: "(bytes \<Rightarrow> 'a option) \<Rightarrow> bytes \<Rightarrow> ('a \<times> bytes) option" where
  "receive_struct decode stream =
     (case receive_buffer stream of
        Some (Some b, n, rest) \<Rightarrow> map_option (\<lambda>r. (r, rest)) (decode b)
      | _ \<Rightarrow> None)"

definition decode_u32 :: "bytes \<Rightarrow> u32 option" where
  "decode_u32 b = (if length b < 4 then None else Some (bytes_u32 b))"

definition receive_pid :: "bytes \<Rightarrow> (u32 \<times> bytes) option" where
  "receive_pid stream = receive_struct decode_u32 stream"

definition element :: "bytes list \<Rightarrow> nat \<Rightarrow> bytes option" where
  "element packet k = (if k < length packet then Some (packet ! k) else None)"

definition handle_new_process :: "(string \<Rightarrow> string option) \<Rightarrow> t_kernel_memory \<Rightarrow> bytes \<Rightarrow> handler_result" where
  "handle_new_process scripts km stream =
     (case receive_packet stream of
        None \<Rightarrow> None
      | Some (packet, rest) \<Rightarrow>
          (case (element packet 0, Option.bind (element packet 1) decode_u32) of
             (Some relative_path, Some pid) \<Rightarrow>
               Some (km\<lparr>processes := processes km @ [init_process pid (scripts (string_of_bytes relative_path))]\<rparr>,
                     send_string OP_PROCESS_STARTED ''Process created'', rest, True)
           | _ \<Rightarrow> None))"

text \<open>After a \<open>COMPACTION_NEEDED\<close> message \<open>notify_compaction\<close> reads the answer.\<close>

definition compaction_answer :: "message list \<Rightarrow> bytes \<Rightarrow> bytes option" where
  "compaction_answer msgs stream =
     (if list_ex (\<lambda>(op, s). op = OP_COMPACTION_NEEDED) msgs
      then (case receive_op_code stream of
              (op, rest) \<Rightarrow> if op = OP_CAN_COMPACT then map_option snd (receive_string rest) else Some rest)
      else Some stream)"

definition handle_create_segment :: "t_kernel_memory \<Rightarrow> bytes \<Rightarrow> handler_result" where
  "handle_create_segment km stream =
     (case receive_struct decode_syscall_memory stream of
        None \<Rightarrow> None
      | Some (syscall, rest) \<Rightarrow>
          (if sm_size syscall > to_u32 (max_segment_size (main_memory km))
           then Some (km, send_string OP_SEGMENT_SIZE_EXCEEDED ''Requested size is larger than the max segment size'', rest, True)
           else case create_segment (sm_segment_id syscall) (sm_pid syscall) (to_int (sm_size syscall)) (main_memory km) of
                  None \<Rightarrow> None
                | Some (m, msgs) \<Rightarrow>
                    map_option (\<lambda>rest'. (km\<lparr>main_memory := m\<rparr>, send_messages msgs, rest', True))
                      (compaction_answer msgs rest)))"

definition handle_delete_segment :: "t_kernel_memory \<Rightarrow> bytes \<Rightarrow> handler_result" where
  "handle_delete_segment km stream =
     map_option (\<lambda>(syscall, rest).
         (km\<lparr>main_memory := remove_segment (sm_segment_id syscall) (sm_pid syscall) (main_memory km)\<rparr>,
          send_string OP_MEMORY_FREED ''Memory freed'', rest, True))
       (receive_struct decode_syscall_memory stream)"

text \<open>
  \<open>strnlen\<close> stops at the first NUL or at \<open>requested_size\<close>; a shorter element without a NUL is
  read past its end.
\<close>

definition safe_stdin_buffer :: "bytes \<Rightarrow> nat \<Rightarrow> bytes option" where
  "safe_stdin_buffer write_buffer requested_size =
     (let prefix = takeWhile (\<lambda>b. b \<noteq> 0) (take requested_size write_buffer)
      in if 0 \<in> set write_buffer \<or> requested_size \<le> length write_buffer
         then Some (prefix @ replicate (requested_size - length prefix) 0) else None)"

definition handle_stdin_request :: "t_kernel_memory \<Rightarrow> bytes \<Rightarrow> handler_result" where
  "handle_stdin_request km stream =
     (case receive_packet stream of
        None \<Rightarrow> None
      | Some (packet, rest) \<Rightarrow>
          (case (Option.bind (element packet 0) decode_stdin_request, element packet 1) of
             (Some r, Some write_buffer) \<Rightarrow>
               (let physical_address = translate_logical_address (in_pid r) (in_logical_address r) (bytes_to_read r) (main_memory km)
                in if physical_address = -1
                   then Some (km, send_string OP_STDIN_RESPONSE ''Segmentation Fault'', rest, True)
                   else case safe_stdin_buffer write_buffer (unat (bytes_to_read r)) of
                          None \<Rightarrow> None
                        | Some safe_buffer \<Rightarrow>
                            (case write_to_sticks physical_address (to_int (bytes_to_read r)) safe_buffer (connected_sticks km) of
                               None \<Rightarrow> None
                             | Some (sticks, ok, msgs) \<Rightarrow>
                                 Some (km\<lparr>connected_sticks := sticks\<rparr>,
                                       send_messages msgs @ (if ok then send_string OP_STDIN_RESPONSE ''Memory written'' else []),
                                       rest, ok)))
           | _ \<Rightarrow> None))"

text \<open>
  The bytes read are sent with \<open>send_string\<close>, whose \<open>strlen\<close> needs a NUL among them: the buffer
  has exactly the requested size and no terminator is added.
\<close>

definition handle_stdout_request :: "t_kernel_memory \<Rightarrow> bytes \<Rightarrow> handler_result" where
  "handle_stdout_request km stream =
     (case receive_struct decode_stdout_request stream of
        None \<Rightarrow> None
      | Some (r, rest) \<Rightarrow>
          (let physical_address = translate_logical_address (out_pid r) (out_logical_address r) (bytes_to_write r) (main_memory km)
           in if physical_address = -1
              then Some (km, send_string OP_STDOUT_RESPONSE ''Segmentation Fault'', rest, True)
              else case read_from_sticks physical_address (to_int (bytes_to_write r)) (connected_sticks km) of
                     None \<Rightarrow> None
                   | Some (None, msgs) \<Rightarrow>
                       Some (km, send_messages msgs @ send_string OP_STDOUT_RESPONSE ''Stick read error'', rest, False)
                   | Some (Some buffer, msgs) \<Rightarrow>
                       (if 0 \<in> set buffer
                        then Some (km, send_messages msgs @ send_string OP_STDOUT_RESPONSE (string_of_bytes buffer), rest, True)
                        else None)))"

fun list_remove_process :: "t_process option list \<Rightarrow> u32 \<Rightarrow> t_process option list" where
  "list_remove_process [] pid = []"
| "list_remove_process (p # ps) pid =
     (if map_option pr_pid p = Some pid then ps else p # list_remove_process ps pid)"

definition handle_end_process :: "t_kernel_memory \<Rightarrow> bytes \<Rightarrow> handler_result" where
  "handle_end_process km stream =
     (case receive_pid stream of
        None \<Rightarrow> None
      | Some (pid, rest) \<Rightarrow>
          (case find_process (processes km) pid of
             None \<Rightarrow> None
           | Some None \<Rightarrow> Some (km, [], rest, True)
           | Some (Some process) \<Rightarrow>
               Some (km\<lparr>processes := list_remove_process (processes km) pid,
                        main_memory := foldl (\<lambda>m seg. remove_segment (s_id seg) (pr_pid process) m) (main_memory km)
                          (filter_process_segments pid (main_memory km))\<rparr>, [], rest, True)))"

definition handle_request_free_memory :: "t_kernel_memory \<Rightarrow> bytes \<Rightarrow> handler_result" where
  "handle_request_free_memory km stream =
     map_option (\<lambda>(s, rest).
         (km, send_buffer OP_FREE_MEMORY (int_bytes (compute_free_space (holes (main_memory km)))), rest, True))
       (receive_string stream)"

definition handle_request_process_size :: "t_kernel_memory \<Rightarrow> bytes \<Rightarrow> handler_result" where
  "handle_request_process_size km stream =
     (case receive_pid stream of
        None \<Rightarrow> None
      | Some (pid, rest) \<Rightarrow>
          (case find_process (processes km) pid of
             None \<Rightarrow> None
           | Some process \<Rightarrow>
               (let sz = (case process of None \<Rightarrow> 0 | Some p \<Rightarrow> compute_process_size (pr_pid p) (main_memory km))
                in Some (km, send_buffer OP_PROCESS_SIZE (int_bytes sz), rest, True))))"

definition handle_suspend_process :: "t_kernel_memory \<Rightarrow> bytes \<Rightarrow> handler_result" where
  "handle_suspend_process km stream =
     (case receive_pid stream of
        None \<Rightarrow> None
      | Some (pid, rest) \<Rightarrow>
          (case find_process (processes km) pid of
             None \<Rightarrow> None
           | Some process \<Rightarrow>
               map_option (\<lambda>(km', msgs). (km', send_messages msgs, rest, True)) (suspend_process process km)))"

definition handle_resume_suspended_process :: "t_kernel_memory \<Rightarrow> bytes \<Rightarrow> handler_result" where
  "handle_resume_suspended_process km stream =
     (case receive_pid stream of
        None \<Rightarrow> None
      | Some (pid, rest) \<Rightarrow>
          map_option (\<lambda>(km', msgs). (km', send_messages msgs, rest, True)) (resume_process pid km))"

definition handle_shutdown :: "t_kernel_memory \<Rightarrow> bytes \<Rightarrow> handler_result" where
  "handle_shutdown km stream = Some (km, [], stream, False)"

definition handle_kernel_memory_running :: "t_kernel_memory \<Rightarrow> bytes \<Rightarrow> handler_result" where
  "handle_kernel_memory_running km stream =
     map_option (\<lambda>(s, rest). (km, [], rest, True)) (receive_string stream)"

definition handle_unrecognized_op :: "t_kernel_memory \<Rightarrow> bytes \<Rightarrow> handler_result" where
  "handle_unrecognized_op km stream = Some (km, [], stream, False)"

text \<open>One iteration of \<open>listen_scheduler\<close>; when it ends the goodbye message is sent.\<close>

definition listen_scheduler :: "(string \<Rightarrow> string option) \<Rightarrow> t_kernel_memory \<Rightarrow> bytes \<Rightarrow> handler_result" where
  "listen_scheduler scripts km stream =
     map_option (\<lambda>(km', out, rest, alive).
         (km', out @ (if alive then [] else send_string OP_MEMORY_CORRUPTED ''Kernel shutdown''), rest, alive))
       (case receive_op_code stream of
          (op, rest) \<Rightarrow>
            (if op = OP_NEW_PROCESS then handle_new_process scripts km rest
             else if op = OP_CREATE_SEGMENT then handle_create_segment km rest
             else if op = OP_DELETE_SEGMENT then handle_delete_segment km rest
             else if op = OP_IO_STDIN_REQUEST then handle_stdin_request km rest
             else if op = OP_IO_STDOUT_REQUEST then handle_stdout_request km rest
             else if op = OP_END_PROCESS then handle_end_process km rest
             else if op = OP_REQUEST_FREE_MEMORY then handle_request_free_memory km rest
             else if op = OP_REQUEST_PROCESS_SIZE then handle_request_process_size km rest
             else if op = OP_SUSPEND_PROCESS then handle_suspend_process km rest
             else if op = OP_RESUME_SUSPENDED_PROCESS then handle_resume_suspended_process km rest
             else if op = OP_KERNEL_SCHEDULER_SHUTDOWN then handle_shutdown km rest
             else if op = OP_KERNEL_MEMORY_RUNNING then handle_kernel_memory_running km rest
             else if op = OP_CODE_ERROR then Some (km, [], rest, False)
             else handle_unrecognized_op km rest))"

subsection \<open>Requests of a CPU\<close>

definition segment_bytes :: "t_segment \<Rightarrow> bytes" where
  "segment_bytes s = u32_bytes (s_id s) @ u32_bytes (s_pid s) @ int_bytes (s_base s) @ int_bytes (s_size s)"

definition decode_segment :: "bytes \<Rightarrow> t_segment option" where
  "decode_segment b =
     (if length b < 16 then None
      else Some \<lparr>s_id = bytes_u32 b, s_pid = bytes_u32 (drop 4 b), s_base = bytes_int (drop 8 b), s_size = bytes_int (drop 12 b)\<rparr>)"

definition add_segments_to_packet :: "t_segment list \<Rightarrow> t_packet \<Rightarrow> t_packet" where
  "add_segments_to_packet ss process_segment_table =
     foldl (\<lambda>packet s. packet_append packet (segment_bytes s)) process_segment_table ss"

definition send_segment_table :: "t_kernel_memory \<Rightarrow> u32 \<Rightarrow> bytes" where
  "send_segment_table km pid =
     send_packet (add_segments_to_packet (filter_process_segments pid (main_memory km)) (create_packet OP_SEGMENT_TABLE))"

text \<open>The program counter is not checked against the number of instructions.\<close>

definition handle_next_instruction :: "t_kernel_memory \<Rightarrow> bytes \<Rightarrow> handler_result" where
  "handle_next_instruction km stream =
     (case receive_packet stream of
        None \<Rightarrow> None
      | Some (packet, rest) \<Rightarrow>
          (case (Option.bind (element packet 0) decode_u32, Option.bind (element packet 1) decode_u32) of
             (Some pid, Some pc) \<Rightarrow>
               (case find_process (processes km) pid of
                  Some (Some process) \<Rightarrow>
                    (if unat pc < length (instructions process)
                     then Some (km, send_string OP_SEND_INSTRUCTION (instructions process ! unat pc), rest, True)
                     else None)
                | _ \<Rightarrow> None)
           | _ \<Rightarrow> None))"

definition handle_request_context :: "t_kernel_memory \<Rightarrow> bytes \<Rightarrow> handler_result" where
  "handle_request_context km stream =
     (case receive_pid stream of
        None \<Rightarrow> None
      | Some (pid, rest) \<Rightarrow>
          (case find_process (processes km) pid of
             None \<Rightarrow> None
           | Some None \<Rightarrow> Some (km, [], rest, True)
           | Some (Some process) \<Rightarrow>
               Some (km, send_buffer OP_SEND_CONTEXT (registers_bytes (pr_registers process)) @ send_segment_table km pid, rest, True)))"

fun assign_registers :: "t_process option list \<Rightarrow> u32 \<Rightarrow> t_registers \<Rightarrow> t_process option list" where
  "assign_registers [] pid r = []"
| "assign_registers (p # ps) pid r =
     (case p of
        Some q \<Rightarrow> if pr_pid q = pid then Some (q\<lparr>pr_registers := r\<rparr>) # ps else p # assign_registers ps pid r
      | None \<Rightarrow> p # assign_registers ps pid r)"

definition handle_updated_context :: "t_kernel_memory \<Rightarrow> bytes \<Rightarrow> handler_result" where
  "handle_updated_context km stream =
     (case receive_packet stream of
        None \<Rightarrow> None
      | Some (packet, rest) \<Rightarrow>
          (case (Option.bind (element packet 0) decode_u32, Option.bind (element packet 1) bytes_registers) of
             (Some pid, Some r) \<Rightarrow>
               (case find_process (processes km) pid of
                  None \<Rightarrow> None
                | Some None \<Rightarrow> Some (km, [], rest, True)
                | Some (Some process) \<Rightarrow> Some (km\<lparr>processes := assign_registers (processes km) pid r\<rparr>, [], rest, True))
           | _ \<Rightarrow> None))"

definition handle_updated_segment_table :: "t_kernel_memory \<Rightarrow> bytes \<Rightarrow> handler_result" where
  "handle_updated_segment_table km stream =
     (case receive_pid stream of
        None \<Rightarrow> None
      | Some (pid, rest) \<Rightarrow>
          (case find_process (processes km) pid of
             None \<Rightarrow> None
           | Some None \<Rightarrow> Some (km, [], rest, True)
           | Some (Some process) \<Rightarrow> Some (km, send_segment_table km pid, rest, True)))"

text \<open>The notification goes to the Kernel Scheduler; the CPU gets nothing.\<close>

definition handle_stick_disconnected :: "t_kernel_memory \<Rightarrow> bytes \<Rightarrow> handler_result" where
  "handle_stick_disconnected km stream = Some (km, [], stream, False)"

definition stick_disconnected_notice :: message where
  "stick_disconnected_notice = (OP_MEMORY_CORRUPTED, ''Corrupted memory'')"

definition listen_cpu :: "t_kernel_memory \<Rightarrow> bytes \<Rightarrow> handler_result" where
  "listen_cpu km stream =
     (case receive_op_code stream of
        (op, rest) \<Rightarrow>
          (if op = OP_NEXT_INSTRUCTION then handle_next_instruction km rest
           else if op = OP_REQUEST_CONTEXT then handle_request_context km rest
           else if op = OP_UPDATED_CONTEXT then handle_updated_context km rest
           else if op = OP_UPDATED_SEGMENT_TABLE then handle_updated_segment_table km rest
           else if op = OP_STICK_DISCONNECTED then handle_stick_disconnected km rest
           else Some (km, [], rest, False)))"

subsection \<open>Connections\<close>

text \<open>
  \<open>None\<close> when the string is missing; otherwise whether the field arrived, and its value. After a
  wrong operation code the socket is closed, so that nothing more is received on it.
\<close>

definition receive_int_field :: "int \<Rightarrow> int \<Rightarrow> bytes \<Rightarrow> (bool \<times> int \<times> bytes) option" where
  "receive_int_field expected_op previous stream =
     (case receive_op_code stream of
        (op, rest) \<Rightarrow>
          (if op \<noteq> expected_op then Some (False, previous, [])
           else case receive_string rest of
                  Some (Some b, rest') \<Rightarrow> Some (True, atoi (string_of_bytes b), rest')
                | _ \<Rightarrow> None))"

definition receive_stick_size :: "t_stick_data \<Rightarrow> bytes \<Rightarrow> (t_stick_data \<times> bool \<times> bytes) option" where
  "receive_stick_size stick stream =
     map_option (\<lambda>(ok, n, rest). (stick\<lparr>stick_size := n\<rparr>, ok, rest)) (receive_int_field OP_MEMORY_SIZE (stick_size stick) stream)"

definition receive_stick_listen_port :: "t_stick_data \<Rightarrow> bytes \<Rightarrow> (t_stick_data \<times> bool \<times> bytes) option" where
  "receive_stick_listen_port stick stream =
     map_option (\<lambda>(ok, n, rest). (stick\<lparr>stick_port := n\<rparr>, ok, rest)) (receive_int_field OP_PORT (stick_port stick) stream)"

text \<open>The address is not set by \<open>init_stick_data\<close>; one that cannot be resolved stays undefined in C.\<close>

definition init_stick_data :: "stick_link \<Rightarrow> t_stick_data" where
  "init_stick_data lnk = \<lparr>stick_size = -1, socket_stick = lnk, ip_memory_stick = '''', stick_port = -1\<rparr>"

definition resolve_stick_ip :: "string option \<Rightarrow> t_stick_data \<Rightarrow> t_stick_data \<times> bool" where
  "resolve_stick_ip peer_ip stick =
     (case peer_ip of Some ip \<Rightarrow> (stick\<lparr>ip_memory_stick := ip\<rparr>, True) | None \<Rightarrow> (stick, False))"

definition add_stick_connection :: "t_stick_data \<Rightarrow> t_kernel_memory \<Rightarrow> t_kernel_memory" where
  "add_stick_connection stick km = km\<lparr>connected_sticks := connected_sticks km @ [stick]\<rparr>"

definition compute_total_memory :: "t_stick_data list \<Rightarrow> int" where
  "compute_total_memory sticks = foldl (\<lambda>total s. total + stick_size s) 0 sticks"

text \<open>
  The Memory Stick case of \<open>handshake\<close>: the size and the port are received, the stick joins
  the list whatever happened, and only the last check decides whether its memory is added.
  When the size does not arrive the socket is closed, so neither does the port.
\<close>

definition register_stick :: "string option \<Rightarrow> stick_link \<Rightarrow> t_kernel_memory \<Rightarrow> bytes
    \<Rightarrow> (t_kernel_memory \<times> t_stick_data \<times> bool \<times> message list) option" where
  "register_stick peer_ip lnk km stream =
     (case receive_stick_size (fst (resolve_stick_ip peer_ip (init_stick_data lnk))) stream of
        None \<Rightarrow> None
      | Some (stick1, _, rest) \<Rightarrow>
          (case receive_stick_listen_port stick1 rest of
             None \<Rightarrow> None
           | Some (stick, True, _) \<Rightarrow>
               (let km1 = add_stick_connection stick km
                in Some (km1\<lparr>main_memory := add_total_memory (main_memory km1) (stick_size stick)\<rparr>, stick, True,
                         [(OP_NEW_MEMORY_STICK, ''A new memory stick connected'')]))
           | Some (stick, False, _) \<Rightarrow>
               (let stick' = stick\<lparr>socket_stick := Send_fails\<rparr> in Some (add_stick_connection stick' km, stick', False, []))))"

definition register_swap :: "swap_link \<Rightarrow> t_kernel_memory \<Rightarrow> bytes \<Rightarrow> (t_kernel_memory \<times> bytes) option" where
  "register_swap lnk km stream =
     map_option (\<lambda>(sd, rest). (km\<lparr>swap_data := sd\<rparr>, rest)) (init_swap_data lnk stream)"

text \<open>The watchdog pings the sticks in order and stops at the first that cannot be reached.\<close>

definition any_stick_unreachable :: "t_stick_data list \<Rightarrow> bool" where
  "any_stick_unreachable sticks \<longleftrightarrow> list_ex (\<lambda>s. socket_stick s = Send_fails) sticks"

definition notify_scheduler_memory_corrupted :: "bool \<Rightarrow> bool \<Rightarrow> bool \<times> message list" where
  "notify_scheduler_memory_corrupted already_notified scheduler_connected =
     (if already_notified \<or> \<not> scheduler_connected then (already_notified, [])
      else (True, [(OP_MEMORY_CORRUPTED, ''Stick not available'')]))"

definition watch_sticks :: "t_stick_data list \<Rightarrow> bool \<Rightarrow> bool \<Rightarrow> bool \<times> message list" where
  "watch_sticks sticks scheduler_connected already_notified =
     (if any_stick_unreachable sticks then notify_scheduler_memory_corrupted already_notified scheduler_connected
      else (already_notified, []))"

end
