(* ===== verification/Cpu_Memory.thy ===== *)
theory Cpu_Memory
  imports KM_Listeners
begin

section \<open>CPU: memory access\<close>

text \<open>
  \<open>cpu/memory.c\<close> and the stick connections of \<open>cpu/connections.c\<close>. The CPU talks to the sticks
  directly: it keeps the size and the offset of each, finds the stick of an address, and
  splits a transfer at the borders in 32-bit arithmetic. A stick is named by its position in
  the list. Messages to Kernel Memory and to the Kernel Scheduler are returned. The second
  interpretation of \<open>flat_memory\<close> shows that the CPU sees the same flat memory as Kernel
  Memory does.
\<close>

subsection \<open>Data\<close>

record t_memory_stick_info =
  ms_size :: u32
  ms_offset :: u32
  socket_ms :: stick_link

abbreviation (input) INVALID_ADDRESS :: u32 where
  "INVALID_ADDRESS \<equiv> -1"

definition notify_bsod :: message where
  "notify_bsod = (OP_STICK_DISCONNECTED, ''MS disconnected'')"

definition notify_seg_fault :: message where
  "notify_seg_fault = (OP_SEG_FAULT, ''SEGMENTATION FAULT'')"

subsection \<open>Address translation\<close>

fun find_segment_by_id :: "t_segment list \<Rightarrow> u32 \<Rightarrow> t_segment option" where
  "find_segment_by_id [] number = None"
| "find_segment_by_id (s # ss) number = (if s_id s = number then Some s else find_segment_by_id ss number)"

text \<open>
  The address and the messages sent to the Kernel Scheduler; \<open>ks_up\<close> tells whether a message
  can be sent. A maximum segment size of 0 divides by zero.
\<close>

definition mmu :: "u32 \<Rightarrow> bool \<Rightarrow> t_segment list \<Rightarrow> u32 \<Rightarrow> u32 \<Rightarrow> (u32 \<times> message list) option" where
  "mmu max_size ks_up segment_table logical_address sz =
     (if max_size = 0 then None
      else (let number = logical_address div max_size; offs = logical_address mod max_size
            in case find_segment_by_id segment_table number of
                 None \<Rightarrow> Some (INVALID_ADDRESS - 1, [])
               | Some segment \<Rightarrow>
                   (if offs + sz > to_u32 (s_size segment)
                    then (if ks_up then Some (INVALID_ADDRESS, [notify_seg_fault]) else Some (INVALID_ADDRESS - 1, []))
                    else Some (to_u32 (s_base segment) + offs, []))))"

subsection \<open>Transfers\<close>

fun find_stick_cpu :: "t_memory_stick_info list \<Rightarrow> u32 \<Rightarrow> nat option" where
  "find_stick_cpu [] physical_address = None"
| "find_stick_cpu (s # ss) physical_address =
     (if physical_address \<ge> ms_offset s \<and> physical_address < ms_offset s + ms_size s then Some 0
      else map_option Suc (find_stick_cpu ss physical_address))"

definition cpu_exchange :: "stick_link \<Rightarrow> bytes \<Rightarrow> (bool \<times> bytes \<times> stick_link) option" where
  "cpu_exchange lnk request =
     (case lnk of
        Up ms \<Rightarrow> map_option (\<lambda>(ms', reply, rest, keep_running). (True, reply, Up ms')) (cpu_request ms request)
      | Send_fails \<Rightarrow> Some (False, [], Send_fails)
      | Closed \<Rightarrow> Some (True, [], Closed))"

definition request_read :: "u32 \<Rightarrow> u32 \<Rightarrow> bytes" where
  "request_read address_in_stick cnt =
     send_packet (packet_append (packet_append (create_packet OP_MEMORY_STICK_READ)
       (u32_bytes address_in_stick)) (u32_bytes cnt))"

definition request_write :: "u32 \<Rightarrow> bytes \<Rightarrow> u32 \<Rightarrow> bytes" where
  "request_write address_in_stick data cnt =
     send_packet (packet_append (packet_append (packet_append (create_packet OP_MEMORY_STICK_WRITE)
       (u32_bytes address_in_stick)) data) (u32_bytes cnt))"

text \<open>The data or \<open>NULL\<close>, with the messages to Kernel Memory.\<close>

definition receive_read_response :: "bytes \<Rightarrow> (bytes option \<times> message list) option" where
  "receive_read_response reply =
     (case receive_op_code reply of
        (op, rest) \<Rightarrow>
          (if op = OP_MEMORY_STICK_READ_DONE then map_option (\<lambda>(b, rest'). (b, [])) (receive_string rest)
           else Some (None, [notify_bsod])))"

definition receive_write_response :: "bytes \<Rightarrow> (bool \<times> message list) option" where
  "receive_write_response reply =
     (case receive_op_code reply of
        (op, rest) \<Rightarrow>
          map_option (\<lambda>(b, rest').
              if op = OP_MEMORY_STICK_WRITE_DONE then (True, [])
              else if op = OP_CODE_ERROR then (False, [notify_bsod])
              else (False, []))
            (receive_string rest))"

definition transfer_size :: "t_memory_stick_info \<Rightarrow> u32 \<Rightarrow> u32 \<Rightarrow> u32" where
  "transfer_size stick address_in_stick remaining =
     (let available_bytes = ms_size stick - address_in_stick
      in if available_bytes < remaining then available_bytes else remaining)"

lemma find_stick_cpu_Some:
  "find_stick_cpu ss a = Some k \<Longrightarrow> k < length ss \<and> ms_offset (ss ! k) \<le> a \<and> a < ms_offset (ss ! k) + ms_size (ss ! k)"
  by (induction ss arbitrary: k) (auto split: if_splits)

lemma transfer_size_progress:
  assumes "find_stick_cpu ss (a + r) = Some k" "r < sz"
  shows "unat (sz - (r + transfer_size (ss ! k) (a + r - ms_offset (ss ! k)) (sz - r))) < unat (sz - r)"
proof -
  let ?s = "ss ! k"
  let ?n = "transfer_size ?s (a + r - ms_offset ?s) (sz - r)"
  have b: "ms_offset ?s \<le> a + r" "a + r < ms_offset ?s + ms_size ?s"
    using find_stick_cpu_Some [OF assms(1)] by auto
  have pos: "ms_size ?s - (a + r - ms_offset ?s) \<noteq> 0"
    using b by (metis add_diff_cancel_left' diff_add_cancel eq_iff_diff_eq_0 less_irrefl)
  have rem: "sz - r \<noteq> 0" using assms(2) by auto
  have n: "?n \<noteq> 0" "?n \<le> sz - r" using pos rem by (auto simp: transfer_size_def Let_def)
  have eq: "sz - (r + ?n) = (sz - r) - ?n" by simp
  have "unat ((sz - r) - ?n) = unat (sz - r) - unat ?n" using n(2) by (rule unat_sub)
  moreover have "0 < unat ?n" using n(1) by (simp add: unat_gt_0)
  moreover have "unat ?n \<le> unat (sz - r)" using n(2) by (simp add: word_le_nat_alt)
  ultimately show ?thesis unfolding eq by linarith
qed

function read_memory_loop :: "t_memory_stick_info list \<Rightarrow> u32 \<Rightarrow> u32 \<Rightarrow> u32 \<Rightarrow> bytes \<Rightarrow> (bytes option \<times> message list) option" where
  "read_memory_loop sticks physical_address sz read_bytes result =
     (if \<not> read_bytes < sz then Some (Some result, [])
      else (case find_stick_cpu sticks (physical_address + read_bytes) of
        None \<Rightarrow> Some (None, [])
      | Some k \<Rightarrow>
          (let stick = sticks ! k;
               address_in_stick = (physical_address + read_bytes) - ms_offset stick;
               cnt = transfer_size stick address_in_stick (sz - read_bytes)
           in case cpu_exchange (socket_ms stick) (request_read address_in_stick cnt) of
                None \<Rightarrow> None
              | Some (False, _, _) \<Rightarrow> Some (None, [notify_bsod])
              | Some (True, reply, _) \<Rightarrow>
                  (case receive_read_response reply of
                     None \<Rightarrow> None
                   | Some (None, msgs) \<Rightarrow> Some (None, msgs)
                   | Some (Some partial_read, msgs) \<Rightarrow>
                       (if length partial_read < unat cnt then None
                        else read_memory_loop sticks physical_address sz (read_bytes + cnt)
                               (result @ take (unat cnt) partial_read))))))"
  by pat_completeness auto
termination
  by (relation "measure (\<lambda>(ss, a, sz, r, res). unat (sz - r))") (auto intro: transfer_size_progress)

declare read_memory_loop.simps [simp del]

definition read_memory_cpu :: "t_memory_stick_info list \<Rightarrow> u32 \<Rightarrow> u32 \<Rightarrow> (bytes option \<times> message list) option" where
  "read_memory_cpu sticks physical_address sz = read_memory_loop sticks physical_address sz 0 []"

text \<open>The loop of \<open>write_memory\<close>: the sticks, whether all was written, and the messages.\<close>

function write_memory_loop :: "t_memory_stick_info list \<Rightarrow> u32 \<Rightarrow> bytes \<Rightarrow> u32 \<Rightarrow> u32
    \<Rightarrow> (t_memory_stick_info list \<times> bool \<times> message list) option" where
  "write_memory_loop sticks physical_address data sz written_bytes =
     (if \<not> written_bytes < sz then Some (sticks, True, [])
      else (case find_stick_cpu sticks (physical_address + written_bytes) of
        None \<Rightarrow> Some (sticks, False, [])
      | Some k \<Rightarrow>
          (let stick = sticks ! k;
               address_in_stick = (physical_address + written_bytes) - ms_offset stick;
               cnt = transfer_size stick address_in_stick (sz - written_bytes);
               part = take (unat cnt) (drop (unat written_bytes) data)
           in if length part < unat cnt then None
              else case cpu_exchange (socket_ms stick) (request_write address_in_stick part cnt) of
                None \<Rightarrow> None
              | Some (False, _, lnk) \<Rightarrow> Some (sticks[k := stick\<lparr>socket_ms := lnk\<rparr>], False, [notify_bsod])
              | Some (True, reply, lnk) \<Rightarrow>
                  (let sticks' = sticks[k := stick\<lparr>socket_ms := lnk\<rparr>]
                   in case receive_write_response reply of
                        None \<Rightarrow> None
                      | Some (False, msgs) \<Rightarrow> Some (sticks', False, msgs)
                      | Some (True, msgs) \<Rightarrow> write_memory_loop sticks' physical_address data sz (written_bytes + cnt)))))"
  by pat_completeness auto
termination
  by (relation "measure (\<lambda>(ss, a, d, sz, r). unat (sz - r))") (auto intro: transfer_size_progress)

declare write_memory_loop.simps [simp del]

definition write_memory_cpu :: "t_memory_stick_info list \<Rightarrow> u32 \<Rightarrow> bytes \<Rightarrow> u32 \<Rightarrow> (t_memory_stick_info list \<times> bool \<times> message list) option" where
  "write_memory_cpu sticks physical_address data sz = write_memory_loop sticks physical_address data sz 0"

subsection \<open>Connecting a stick\<close>

definition compute_offset :: "t_memory_stick_info list \<Rightarrow> u32" where
  "compute_offset sticks = foldl (\<lambda>offs s. offs + ms_size s) 0 sticks"

definition parse_stick_packet :: "bytes list \<Rightarrow> (string \<times> string \<times> u32) option option" where
  "parse_stick_packet packet =
     (if length packet \<noteq> 3 then Some None
      else map_option (\<lambda>sz. Some (string_of_bytes (packet ! 0), string_of_bytes (packet ! 1), to_u32 sz))
             (element_int (packet ! 2)))"

definition handshake_memory_stick :: "bytes \<Rightarrow> bool option" where
  "handshake_memory_stick answer = map_option (\<lambda>(mid, rest). mid = MID_MEMORY_STICK) (receive_handshake answer)"

text \<open>
  \<open>connect ip port\<close> is the network: the link to the stick, and the bytes with which it answers
  the handshake. \<open>None\<close> inside is a failure of the connection.
\<close>

definition connect_memory_stick :: "(string \<Rightarrow> string \<Rightarrow> (stick_link \<times> bytes) option) \<Rightarrow> t_memory_stick_info list \<Rightarrow> bytes
    \<Rightarrow> (t_memory_stick_info list \<times> bool \<times> bytes) option" where
  "connect_memory_stick connect sticks stream =
     (case receive_packet stream of
        None \<Rightarrow> None
      | Some (packet, rest) \<Rightarrow>
          (case parse_stick_packet packet of
             None \<Rightarrow> None
           | Some None \<Rightarrow> Some (sticks, False, rest)
           | Some (Some (ip, port, received_size)) \<Rightarrow>
               (case connect ip port of
                  None \<Rightarrow> Some (sticks, False, rest)
                | Some (lnk, answer) \<Rightarrow>
                    (case handshake_memory_stick answer of
                       None \<Rightarrow> None
                     | Some ok \<Rightarrow>
                         (if \<not> ok then Some (sticks, False, rest)
                          else Some (sticks @ [\<lparr>ms_size = received_size, ms_offset = compute_offset sticks, socket_ms = lnk\<rparr>],
                                     True, rest))))))"

subsection \<open>The CPU sees the flat memory of Kernel Memory\<close>

definition km_stick :: "t_memory_stick_info \<Rightarrow> t_stick_data" where
  "km_stick s = \<lparr>stick_size = uint (ms_size s), socket_stick = socket_ms s, ip_memory_stick = '''', stick_port = -1\<rparr>"

fun offsets_ok :: "int \<Rightarrow> t_memory_stick_info list \<Rightarrow> bool" where
  "offsets_ok acc [] = True"
| "offsets_ok acc (s # ss) = (uint (ms_offset s) = acc \<and> offsets_ok (acc + uint (ms_size s)) ss)"

definition cpu_flat :: "t_memory_stick_info list \<Rightarrow> bytes" where
  "cpu_flat ss = flat (map km_stick ss)"

definition cpu_sticks_ok :: "t_memory_stick_info list \<Rightarrow> bool" where
  "cpu_sticks_ok ss \<longleftrightarrow> sticks_ok (map km_stick ss) \<and> offsets_ok 0 ss"

lemma u32_bytes_int: "u32_bytes w = int_bytes (to_int w)"
  by (simp add: int_bytes_def to_u32_def to_int_def)

lemma int_bytes_u32: "u32_bytes (to_u32 i) = int_bytes i"
  by (simp add: int_bytes_def)

lemma packet_op_code: "receive_op_code (send_packet (packet_appends (create_packet op) vs)) =
    (op, int_bytes (int (length (encode_values vs))) @ encode_values vs)" if "in_int op"
  using packet_appends_buffer [of "create_packet op" vs] receive_op_code_bytes [OF that]
  by (simp add: send_packet_def serialize_packet_def create_packet_def create_buffer_def)

lemma cpu_request_eq:
  "fst (receive_op_code stream) \<in> {OP_MEMORY_STICK_READ, OP_MEMORY_STICK_WRITE} \<Longrightarrow> cpu_request ms stream = km_request ms stream"
  by (auto simp: cpu_request_def km_request_def split: prod.splits)

lemma cpu_exchange_read: "cpu_exchange lnk (request_read (to_u32 a) (to_u32 n)) = stick_exchange lnk (read_request a n)"
proof -
  have req: "request_read (to_u32 a) (to_u32 n) = read_request a n"
    by (simp add: request_read_def read_request_def int_bytes_u32)
  have "fst (receive_op_code (read_request a n)) = OP_MEMORY_STICK_READ"
    using packet_op_code [OF in_int_ops(1), of "[int_bytes a, int_bytes n]"]
    by (simp add: read_request_def packet_appends_def)
  then show ?thesis
    using cpu_request_eq by (simp add: req cpu_exchange_def stick_exchange_def split: stick_link.split)
qed

lemma cpu_exchange_write: "cpu_exchange lnk (request_write (to_u32 a) buf (to_u32 n)) = stick_exchange lnk (write_request a buf n)"
proof -
  have req: "request_write (to_u32 a) buf (to_u32 n) = write_request a buf n"
    by (simp add: request_write_def write_request_def int_bytes_u32)
  have "fst (receive_op_code (write_request a buf n)) = OP_MEMORY_STICK_WRITE"
    using packet_op_code [OF in_int_ops(2), of "[int_bytes a, buf, int_bytes n]"]
    by (simp add: write_request_def packet_appends_def)
  then show ?thesis
    using cpu_request_eq by (simp add: req cpu_exchange_def stick_exchange_def split: stick_link.split)
qed

lemma exchange_write_string:
  assumes "stick_ok s" "int (length (stick_bytes s)) + 20 \<le> INT_MAX" "0 \<le> off" "buf \<noteq> []"
    "off + int (length buf) \<le> int (length (stick_bytes s))"
  shows "\<exists>reply rest lnk. stick_exchange (socket_stick s) (write_request off buf (int (length buf))) = Some (True, reply, lnk)
    \<and> receive_op_code reply = (OP_MEMORY_STICK_WRITE_DONE, rest)
    \<and> receive_string rest = Some (Some (c_string ''Write successful''), [])
    \<and> stick_ok (s\<lparr>socket_stick := lnk\<rparr>) \<and> stick_bytes (s\<lparr>socket_stick := lnk\<rparr>) = overwrite (nat off) buf (stick_bytes s)"
proof -
  obtain ms where ms: "socket_stick s = Up ms" "stick_bytes s = memory ms"
    using assms(1) by (auto simp: stick_ok_def stick_bytes_def)
  have "nat off + length buf \<le> length (memory ms)" using assms(3,5) unfolding ms(2) by linarith
  moreover have "receive_string (int_bytes 17 @ c_string ''Write successful'') = Some (Some (c_string ''Write successful''), [])"
    using receive_string_send(2) [of "''Write successful''" 0 "[]"] by (simp add: INT_MAX_def in_int_def)
  ultimately show ?thesis
    using km_request_write [of off buf ms] assms ms write_reply
    by (auto simp: stick_exchange_def stick_ok_def stick_bytes_def)
qed

lemma find_stick_cpu_hit:
  assumes "offsets_ok acc ss" "\<forall>s \<in> set ss. stick_ok (km_stick s)"
    and "0 \<le> acc" "acc \<le> a" "a < acc + int (length (cpu_flat ss))" "acc + int (length (cpu_flat ss)) \<le> INT_MAX"
  shows "\<exists>xs s ys off. ss = xs @ s # ys \<and> find_stick_cpu ss (to_u32 a) = Some (length xs)
    \<and> ms_offset s = to_u32 (acc + int (length (cpu_flat xs))) \<and> a = acc + int (length (cpu_flat xs)) + off
    \<and> 0 \<le> off \<and> off < int (length (stick_bytes (km_stick s)))"
  using assms
proof (induction ss arbitrary: acc)
  case Nil
  then show ?case by (simp add: cpu_flat_def)
next
  case (Cons s ss)
  have off: "ms_offset s = to_u32 acc" using Cons.prems(1) to_u32_uint [of "ms_offset s"] by simp
  have "stick_ok (km_stick s)" using Cons.prems(2) by simp
  from stick_okD [OF this] have sz: "uint (ms_size s) = int (length (stick_bytes (km_stick s)))"
    by (simp add: km_stick_def)
  let ?n = "int (length (stick_bytes (km_stick s)))"
  have size: "ms_size s = to_u32 ?n" using sz by (metis to_u32_uint)
  have len: "int (length (cpu_flat (s # ss))) = ?n + int (length (cpu_flat ss))" by (simp add: cpu_flat_def)
  have conv: "ms_offset s \<le> to_u32 a" "to_u32 a < ms_offset s + ms_size s \<longleftrightarrow> a < acc + ?n"
    using Cons.prems(3-6) len by (simp_all add: off size to_u32_add to_u32_le to_u32_less INT_MAX_def)
  show ?case
  proof (cases "a < acc + ?n")
    case True
    then show ?thesis
      using conv off Cons.prems(4) by (intro exI [of _ "[]"] exI [of _ s] exI [of _ ss] exI [of _ "a - acc"]) (simp add: cpu_flat_def)
  next
    case False
    have "\<exists>xs t ys off. ss = xs @ t # ys \<and> find_stick_cpu ss (to_u32 a) = Some (length xs)
      \<and> ms_offset t = to_u32 (acc + ?n + int (length (cpu_flat xs))) \<and> a = acc + ?n + int (length (cpu_flat xs)) + off
      \<and> 0 \<le> off \<and> off < int (length (stick_bytes (km_stick t)))"
      using Cons.prems False len sz by (intro Cons.IH) auto
    then obtain xs t ys off where "ss = xs @ t # ys" "find_stick_cpu ss (to_u32 a) = Some (length xs)"
      "ms_offset t = to_u32 (acc + ?n + int (length (cpu_flat xs)))" "a = acc + ?n + int (length (cpu_flat xs)) + off"
      "0 \<le> off" "off < int (length (stick_bytes (km_stick t)))" by blast
    with conv False show ?thesis
      by (rule_tac x = "s # xs" in exI, rule_tac x = t in exI, rule_tac x = ys in exI, rule_tac x = off in exI)
        (simp add: cpu_flat_def add.assoc)
  qed
qed

lemma cpu_find_flat:
  assumes "cpu_sticks_ok ss" "0 \<le> a" "a < int (length (cpu_flat ss))"
  obtains xs s ys off where "ss = xs @ s # ys" "find_stick_cpu ss (to_u32 a) = Some (length xs)"
    "to_u32 a - ms_offset s = to_u32 off" "a = int (length (cpu_flat xs)) + off"
    "0 \<le> off" "off < int (length (stick_bytes (km_stick s)))" "stick_ok (km_stick s)"
    "int (length (stick_bytes (km_stick s))) + 20 \<le> INT_MAX" "ms_size s = to_u32 (int (length (stick_bytes (km_stick s))))"
proof -
  have ok: "sticks_ok (map km_stick ss)" "offsets_ok 0 ss" "\<forall>s \<in> set ss. stick_ok (km_stick s)"
    using assms(1) by (auto simp: cpu_sticks_ok_def sticks_ok_def)
  have "int (length (cpu_flat ss)) + 20 \<le> INT_MAX" using ok(1) by (simp add: sticks_ok_def cpu_flat_def)
  then obtain xs s ys off where *: "ss = xs @ s # ys" "find_stick_cpu ss (to_u32 a) = Some (length xs)"
    "ms_offset s = to_u32 (int (length (cpu_flat xs)))" "a = int (length (cpu_flat xs)) + off"
    "0 \<le> off" "off < int (length (stick_bytes (km_stick s)))"
    using find_stick_cpu_hit [OF ok(2,3), of a] assms(2,3) by auto
  have s: "stick_ok (km_stick s)" using ok(3) *(1) by simp
  have "ms_size s = to_u32 (int (length (stick_bytes (km_stick s))))"
    using stick_okD(1) [OF s] by (metis km_stick_def t_stick_data.select_convs(1) to_u32_uint)
  moreover have "int (length (stick_bytes (km_stick s))) + 20 \<le> INT_MAX"
    using ok(1) *(1) by (simp add: sticks_ok_def)
  ultimately show ?thesis using * s by (intro that) (simp_all add: to_u32_diff)
qed

lemma transfer_size_int:
  assumes "ms_size s = to_u32 len" "0 \<le> off" "off < len" "len \<le> INT_MAX" "0 < rem" "rem \<le> INT_MAX" "stick_size (km_stick s) = len"
  shows "transfer_size s (to_u32 off) (to_u32 rem) = to_u32 (stick_chunk_size (km_stick s) off rem)"
  using assms by (auto simp: transfer_size_def stick_chunk_size_def Let_def to_u32_diff to_u32_less INT_MAX_def)

lemma read_memory_loop_flat:
  assumes ok: "cpu_sticks_ok ss" and "0 \<le> a" "0 \<le> r" "r \<le> n" "a + n \<le> int (length (cpu_flat ss))"
  shows "read_memory_loop ss (to_u32 a) (to_u32 n) (to_u32 r) res =
    Some (Some (res @ chunk (nat (a + r)) (nat (n - r)) (cpu_flat ss)), [])"
  using assms(2-)
proof (induction "nat (n - r)" arbitrary: r res rule: less_induct)
  case less
  have max: "int (length (cpu_flat ss)) + 20 \<le> INT_MAX"
    using ok by (simp add: cpu_sticks_ok_def sticks_ok_def cpu_flat_def)
  have less_iff: "to_u32 r < to_u32 n \<longleftrightarrow> r < n"
    using less.prems max by (intro to_u32_less) (auto simp: INT_MAX_def)
  show ?case
  proof (cases "r < n")
    case False
    with less.prems less_iff show ?thesis by (subst read_memory_loop.simps) (simp add: chunk_def)
  next
    case True
    then have "0 \<le> a + r" "a + r < int (length (cpu_flat ss))" using less.prems by auto
    then obtain xs s ys off where f: "ss = xs @ s # ys" "find_stick_cpu ss (to_u32 (a + r)) = Some (length xs)"
      "to_u32 (a + r) - ms_offset s = to_u32 off" "a + r = int (length (cpu_flat xs)) + off"
      "0 \<le> off" "off < int (length (stick_bytes (km_stick s)))" "stick_ok (km_stick s)"
      "int (length (stick_bytes (km_stick s))) + 20 \<le> INT_MAX" "ms_size s = to_u32 (int (length (stick_bytes (km_stick s))))"
      using cpu_find_flat [OF ok] by metis
    let ?n = "stick_chunk_size (km_stick s) off (n - r)"
    let ?frag = "chunk (nat off) (nat ?n) (stick_bytes (km_stick s))"
    have n: "0 < ?n" "?n \<le> n - r" "off + ?n \<le> int (length (stick_bytes (km_stick s)))"
      using chunk_size_bounds [OF f(7,5,6), of "n - r"] True by simp_all
    have len: "int (length ?frag) = ?n" using n f(5) by (simp add: chunk_def)
    then have flen: "length ?frag = nat ?n" by linarith
    have nth: "ss ! length xs = s" and frag: "take (nat ?n) ?frag = ?frag" using f(1) by (simp_all add: chunk_def)
    have ts: "transfer_size s (to_u32 off) (to_u32 (n - r)) = to_u32 ?n"
      using transfer_size_int [OF f(9,5,6)] stick_okD(1) [OF f(7)] f(8) True less.prems max by simp
    have un: "unat (to_u32 ?n) = nat ?n"
      using n less.prems max by (simp add: unat_eq_nat_uint uint_to_u32 INT_MAX_def)
    obtain reply rest where "stick_exchange (socket_stick (km_stick s)) (read_request off ?n) = Some (True, reply, socket_stick (km_stick s))"
      "receive_op_code reply = (OP_MEMORY_STICK_READ_DONE, rest)" "receive_buffer rest = Some (Some ?frag, ?n, [])"
      using exchange_read [OF f(7) _ f(5) n(1,3)] f(8) by auto
    then have ex: "cpu_exchange (socket_ms s) (request_read (to_u32 off) (to_u32 ?n)) = Some (True, reply, socket_ms s)"
      "receive_read_response reply = Some (Some ?frag, [])"
      by (simp_all add: cpu_exchange_read km_stick_def receive_read_response_def receive_string_def)
    have "read_memory_loop ss (to_u32 a) (to_u32 n) (to_u32 r) res =
        read_memory_loop ss (to_u32 a) (to_u32 n) (to_u32 (r + ?n)) (res @ ?frag)"
      using True less_iff flen un ex
      by (subst read_memory_loop.simps) (simp add: to_u32_add to_u32_diff f(2,3) nth ts frag Let_def)
    also have "\<dots> = Some (Some ((res @ ?frag) @ chunk (nat (a + (r + ?n))) (nat (n - (r + ?n))) (cpu_flat ss)), [])"
      using n less.prems True by (intro less.hyps) auto
    also have "?frag = chunk (nat (a + r)) (nat ?n) (cpu_flat ss)"
    proof -
      have "nat (a + r) = length (cpu_flat xs) + nat off" using f(4,5) by simp
      moreover have "nat off + nat ?n \<le> length (stick_bytes (km_stick s))" using n f(5) by linarith
      ultimately show ?thesis
        using chunk_append [of "nat off" "nat ?n" "stick_bytes (km_stick s)" "cpu_flat xs" "cpu_flat ys"]
        by (simp add: f(1) cpu_flat_def)
    qed
    finally show ?thesis
      using chunk_extend [of "nat (a + r)" "nat ?n" "cpu_flat ss" "nat (n - (r + ?n))"] n less.prems
      by (simp add: nat_add_distrib [symmetric] add.assoc)
  qed
qed

lemma overwrite_overwrite:
  assumes "i + length ys + length zs \<le> length xs"
  shows "overwrite (i + length ys) zs (overwrite i ys xs) = overwrite i (ys @ zs) xs"
  using assms by (simp add: overwrite_def ac_simps)

lemma write_memory_loop_flat:
  assumes "cpu_sticks_ok ss" "0 \<le> a" "0 \<le> r" "r \<le> n" "a + n \<le> int (length (cpu_flat ss))" "int (length data) = n"
  shows "\<exists>ss'. write_memory_loop ss (to_u32 a) data (to_u32 n) (to_u32 r) = Some (ss', True, [])
    \<and> cpu_sticks_ok ss' \<and> map ms_size ss' = map ms_size ss
    \<and> cpu_flat ss' = overwrite (nat (a + r)) (drop (nat r) data) (cpu_flat ss)"
  using assms
proof (induction "nat (n - r)" arbitrary: r ss rule: less_induct)
  case less
  note ok = less.prems(1)
  have max: "int (length (cpu_flat ss)) + 20 \<le> INT_MAX"
    using ok by (simp add: cpu_sticks_ok_def sticks_ok_def cpu_flat_def)
  have less_iff: "to_u32 r < to_u32 n \<longleftrightarrow> r < n"
    using less.prems max by (intro to_u32_less) (auto simp: INT_MAX_def)
  show ?case
  proof (cases "r < n")
    case False
    then have "drop (nat r) data = []" using less.prems by simp
    with False ok less_iff show ?thesis by (subst write_memory_loop.simps) simp
  next
    case True
    then have "0 \<le> a + r" "a + r < int (length (cpu_flat ss))" using less.prems by auto
    then obtain xs s ys off where f: "ss = xs @ s # ys" "find_stick_cpu ss (to_u32 (a + r)) = Some (length xs)"
      "to_u32 (a + r) - ms_offset s = to_u32 off" "a + r = int (length (cpu_flat xs)) + off"
      "0 \<le> off" "off < int (length (stick_bytes (km_stick s)))" "stick_ok (km_stick s)"
      "int (length (stick_bytes (km_stick s))) + 20 \<le> INT_MAX" "ms_size s = to_u32 (int (length (stick_bytes (km_stick s))))"
      using cpu_find_flat [OF ok] by metis
    let ?n = "stick_chunk_size (km_stick s) off (n - r)"
    let ?part = "take (nat ?n) (drop (nat r) data)"
    have n: "0 < ?n" "?n \<le> n - r" "off + ?n \<le> int (length (stick_bytes (km_stick s)))"
      using chunk_size_bounds [OF f(7,5,6), of "n - r"] True by simp_all
    have len: "int (length ?part) = ?n" using n less.prems(3,6) by simp
    then have plen: "length ?part = nat ?n" by linarith
    have ne: "?part \<noteq> []" using len n(1) by auto
    have ts: "transfer_size s (to_u32 off) (to_u32 (n - r)) = to_u32 ?n"
      using transfer_size_int [OF f(9,5,6)] stick_okD(1) [OF f(7)] f(8) True less.prems max by simp
    have un: "unat (to_u32 ?n) = nat ?n" "unat (to_u32 r) = nat r"
      using n less.prems max by (simp_all add: unat_eq_nat_uint uint_to_u32 INT_MAX_def)
    have nth: "ss ! length xs = s" using f(1) by simp
    obtain reply rest lnk where ex:
      "stick_exchange (socket_stick (km_stick s)) (write_request off ?part (int (length ?part))) = Some (True, reply, lnk)"
      "receive_op_code reply = (OP_MEMORY_STICK_WRITE_DONE, rest)"
      "stick_ok (km_stick s\<lparr>socket_stick := lnk\<rparr>)"
      "stick_bytes (km_stick s\<lparr>socket_stick := lnk\<rparr>) = overwrite (nat off) ?part (stick_bytes (km_stick s))"
      "receive_string rest = Some (Some (c_string ''Write successful''), [])"
      using exchange_write_string [OF f(7,8,5) ne] len n(3) by auto
    let ?s = "s\<lparr>socket_ms := lnk\<rparr>" and ?ss = "xs @ s\<lparr>socket_ms := lnk\<rparr> # ys"
    have ks: "km_stick ?s = km_stick s\<lparr>socket_stick := lnk\<rparr>" by (simp add: km_stick_def)
    have cex: "cpu_exchange (socket_ms s) (request_write (to_u32 off) ?part (to_u32 ?n)) = Some (True, reply, lnk)"
      using ex(1) unfolding cpu_exchange_write len by (simp add: km_stick_def)
    have upd: "ss[length xs := ?s] = ?ss" by (simp add: f(1))
    have flat: "cpu_flat ?ss = overwrite (nat (a + r)) ?part (cpu_flat ss)"
    proof -
      have na: "nat (a + r) = length (cpu_flat xs) + nat off" using f(4,5) by simp
      have "nat off + length ?part \<le> length (stick_bytes (km_stick s))" using n f(5) plen by linarith
      then show ?thesis
        unfolding na by (simp add: cpu_flat_def f(1) ks ex(4) overwrite_prefix overwrite_suffix)
    qed
    have fl: "length (cpu_flat ?ss) = length (cpu_flat ss)"
      unfolding flat using less.prems n plen by (intro length_overwrite) linarith
    have "offsets_ok acc ?ss = offsets_ok acc ss" for acc
      by (simp add: f(1)) (induction xs arbitrary: acc, simp_all)
    then have ok': "cpu_sticks_ok ?ss"
      using ok ex(3) fl by (auto simp: cpu_sticks_ok_def sticks_ok_def f(1) ks cpu_flat_def)
    have "write_memory_loop ss (to_u32 a) data (to_u32 n) (to_u32 r)
        = write_memory_loop ?ss (to_u32 a) data (to_u32 n) (to_u32 (r + ?n))"
      using True less_iff plen un cex ex(2,5)
      by (subst write_memory_loop.simps)
        (simp add: to_u32_add to_u32_diff f(2,3) nth ts receive_write_response_def upd Let_def)
    moreover have "\<exists>ss'. write_memory_loop ?ss (to_u32 a) data (to_u32 n) (to_u32 (r + ?n)) = Some (ss', True, [])
        \<and> cpu_sticks_ok ss' \<and> map ms_size ss' = map ms_size ?ss
        \<and> cpu_flat ss' = overwrite (nat (a + (r + ?n))) (drop (nat (r + ?n)) data) (cpu_flat ?ss)"
      using n less.prems True ok' fl by (intro less.hyps) auto
    moreover have "overwrite (nat (a + (r + ?n))) (drop (nat (r + ?n)) data) (cpu_flat ?ss)
        = overwrite (nat (a + r)) (drop (nat r) data) (cpu_flat ss)"
    proof -
      have e: "nat (a + (r + ?n)) = nat (a + r) + length ?part" "nat (r + ?n) = nat ?n + nat r"
        using less.prems n plen by linarith+
      have "drop (nat r) data = ?part @ drop (nat ?n + nat r) data"
        by (metis append_take_drop_id drop_drop)
      moreover have "nat (a + r) + length ?part + length (drop (nat ?n + nat r) data) \<le> length (cpu_flat ss)"
        using less.prems n plen by simp
      ultimately show ?thesis
        unfolding e flat using overwrite_overwrite by metis
    qed
    ultimately show ?thesis by (simp add: f(1))
  qed
qed

definition cpu_read :: "t_memory_stick_info list \<Rightarrow> int \<Rightarrow> int \<Rightarrow> bytes option" where
  "cpu_read ss a n = (case read_memory_cpu ss (to_u32 a) (to_u32 n) of Some (r, msgs) \<Rightarrow> r | None \<Rightarrow> None)"

definition cpu_write :: "t_memory_stick_info list \<Rightarrow> int \<Rightarrow> bytes \<Rightarrow> t_memory_stick_info list option" where
  "cpu_write ss a b =
     (case write_memory_cpu ss (to_u32 a) b (to_u32 (int (length b))) of Some (ss', True, msgs) \<Rightarrow> Some ss' | _ \<Rightarrow> None)"

interpretation cpu_memory: flat_memory cpu_read cpu_write cpu_flat cpu_sticks_ok
proof unfold_locales
  fix s a n
  assume "cpu_sticks_ok s" "0 \<le> a" "0 \<le> n" "a + n \<le> int (length (cpu_flat s))"
  then show "cpu_read s a n = Some (chunk (nat a) (nat n) (cpu_flat s))"
    using read_memory_loop_flat [of s a 0 n "[]"] by (simp add: cpu_read_def read_memory_cpu_def to_u32_def)
next
  fix s a and b :: bytes
  assume "cpu_sticks_ok s" "0 \<le> a" "a + int (length b) \<le> int (length (cpu_flat s))"
  then show "\<exists>s'. cpu_write s a b = Some s' \<and> cpu_sticks_ok s' \<and> cpu_flat s' = overwrite (nat a) b (cpu_flat s)"
    using write_memory_loop_flat [of s a 0 "int (length b)" b] by (auto simp: cpu_write_def write_memory_cpu_def to_u32_def)
qed

lemma offsets_ok_append:
  "offsets_ok acc (ss @ [s]) \<longleftrightarrow> offsets_ok acc ss \<and> uint (ms_offset s) = acc + (\<Sum>s\<leftarrow>ss. uint (ms_size s))"
  by (induction ss arbitrary: acc) (auto simp: add.assoc)

lemma compute_offset_sum: "compute_offset ss = to_u32 (\<Sum>s\<leftarrow>ss. uint (ms_size s))"
proof -
  have "foldl (\<lambda>offs s. offs + ms_size s) w ss = w + to_u32 (\<Sum>s\<leftarrow>ss. uint (ms_size s))" for w
  proof (induction ss arbitrary: w)
    case Nil
    show ?case by (simp add: to_u32_def)
  next
    case (Cons s ss)
    have "to_u32 (uint (ms_size s) + (\<Sum>s\<leftarrow>ss. uint (ms_size s))) = ms_size s + to_u32 (\<Sum>s\<leftarrow>ss. uint (ms_size s))"
      by (simp add: to_u32_uint flip: to_u32_add)
    with Cons show ?case by (simp add: add.assoc)
  qed
  from this [of 0] show ?thesis by (simp add: compute_offset_def)
qed

subsection \<open>Properties\<close>

text \<open>C21: The CPU and Kernel Memory agree on physical memory: bytes the CPU writes over its own
  stick connections are what \<open>read_from_sticks\<close> of Kernel Memory then reads, at every address
  range inside the sticks, and nothing else changes.\<close>

theorem cpu_write_km_read:
  assumes "cpu_sticks_ok ss" "0 \<le> a" "a + int (length b) \<le> int (length (cpu_flat ss))"
    and "0 \<le> a'" "0 \<le> n" "a' + n \<le> int (length (cpu_flat ss))"
  shows "\<exists>ss'. write_memory_cpu ss (to_u32 a) b (to_u32 (int (length b))) = Some (ss', True, [])
    \<and> read_from_sticks a' n (map km_stick ss') =
        Some (Some (take (nat n) (drop (nat a') (overwrite (nat a) b (flat (map km_stick ss))))), [])"
proof -
  obtain ss' where ss': "write_memory_cpu ss (to_u32 a) b (to_u32 (int (length b))) = Some (ss', True, [])"
    "cpu_sticks_ok ss'" "cpu_flat ss' = overwrite (nat a) b (cpu_flat ss)"
    using write_memory_loop_flat [OF assms(1,2), of 0 "int (length b)" b] assms(3)
    by (auto simp: write_memory_cpu_def to_u32_def)
  have "length (cpu_flat ss') = length (cpu_flat ss)" using ss'(3) assms(2,3) by simp
  moreover have "sticks_ok (map km_stick ss')" using ss'(2) by (simp add: cpu_sticks_ok_def)
  ultimately show ?thesis
    using read_loop_flat [of "map km_stick ss'" a' 0 n "[]"] assms(4-6) ss'(1,3)
    by (simp add: read_from_sticks_def chunk_def cpu_flat_def)
qed

definition demo_cpu_sticks :: "t_memory_stick_info list" where
  "demo_cpu_sticks =
     [\<lparr>ms_size = 40, ms_offset = 0, socket_ms = Up \<lparr>memory_delay = 0, memory = replicate 40 0\<rparr>\<rparr>,
      \<lparr>ms_size = 24, ms_offset = 40, socket_ms = Up \<lparr>memory_delay = 0, memory = replicate 24 0\<rparr>\<rparr>]"

lemma demo_cpu_sticks_ok: "cpu_sticks_ok demo_cpu_sticks" "map km_stick demo_cpu_sticks = demo_sticks"
proof -
  show e: "map km_stick demo_cpu_sticks = demo_sticks"
    by (simp add: demo_cpu_sticks_def demo_sticks_def km_stick_def)
  show "cpu_sticks_ok demo_cpu_sticks"
    using demo_sticks_ok(1) by (simp add: cpu_sticks_ok_def e) (simp add: demo_cpu_sticks_def)
qed

theorem cpu_write_km_read_witness:
  "\<exists>ss'. write_memory_cpu demo_cpu_sticks (to_u32 38) [7, 8, 9, 10] (to_u32 4) = Some (ss', True, [])
    \<and> read_from_sticks 37 6 (map km_stick ss') = Some (Some [0, 7, 8, 9, 10, 0], [])"
proof -
  have "take (nat 6) (drop (nat 37) (overwrite (nat 38) [7, 8, 9, 10] (replicate 64 (0::u8)))) = [0, 7, 8, 9, 10, 0]"
    by code_simp
  moreover have "length (cpu_flat demo_cpu_sticks) = 64"
    by (simp add: cpu_flat_def demo_cpu_sticks_ok(2) demo_sticks_ok(2))
  ultimately show ?thesis
    using cpu_write_km_read [OF demo_cpu_sticks_ok(1), of 38 "[7, 8, 9, 10]" 37 6]
    by (simp add: demo_cpu_sticks_ok(2) demo_sticks_ok(2))
qed

text \<open>A successful translation of the CPU's \<open>mmu\<close> stays inside the segment that has the
  number as its id: the physical range lies within the segment's bytes, the offset is the
  address modulo the maximum segment size, and no message is sent.\<close>

lemma mmu_inside_segment:
  assumes "mmu max_size up table la sz = Some (pa, msgs)" "pa \<noteq> INVALID_ADDRESS" "pa \<noteq> INVALID_ADDRESS - 1"
    and "uint (la mod max_size) + uint sz < 2 ^ 32"
    and "\<forall>s \<in> set table. 0 \<le> s_base s \<and> 0 \<le> s_size s \<and> s_base s + s_size s < 2 ^ 31"
  shows "msgs = [] \<and> (\<exists>s \<in> set table. s_id s = la div max_size \<and> uint pa = s_base s + uint (la mod max_size)
    \<and> uint pa + uint sz \<le> s_base s + s_size s)"
proof -
  let ?off = "la mod max_size"
  obtain s where s: "find_segment_by_id table (la div max_size) = Some s" "\<not> ?off + sz > to_u32 (s_size s)"
    "pa = to_u32 (s_base s) + ?off" "msgs = []"
    using assms(1-3) by (auto simp: mmu_def Let_def split: if_splits option.splits)
  have mem: "s \<in> set table" "s_id s = la div max_size"
    using s(1) by (induction table) (auto split: if_splits)
  then have b: "0 \<le> s_base s" "0 \<le> s_size s" "s_base s + s_size s < 2 ^ 31" using assms(5) by auto
  have sum: "?off + sz = to_u32 (uint ?off + uint sz)" by (simp add: to_u32_uint flip: to_u32_add)
  have "to_u32 (uint ?off + uint sz) \<le> to_u32 (s_size s)" using s(2) sum by simp
  then have le: "uint ?off + uint sz \<le> s_size s"
    using b assms(4) by (subst (asm) to_u32_le) (auto intro: add_nonneg_nonneg)
  have "pa = to_u32 (s_base s + uint ?off)" using s(3) by (simp add: to_u32_uint flip: to_u32_add)
  moreover have r: "0 \<le> s_base s + uint ?off" "s_base s + uint ?off < 2 ^ 31"
    using b le uint_ge_0 [of ?off] uint_ge_0 [of sz] by linarith+
  moreover have "s_base s + uint ?off < 2 ^ 32" using r(2) by simp
  ultimately have "uint pa = s_base s + uint ?off" by (simp only: uint_to_u32)
  with mem le s(4) show ?thesis by auto
qed

end
