(* ===== verification/Cpu.thy ===== *)
theory Cpu
  imports Cpu_Memory
begin

section \<open>CPU: the instruction cycle\<close>

text \<open>
  \<open>cpu/cpu.c\<close>, \<open>cpu/handlers.c\<close>, \<open>cpu/initializer.c\<close> and \<open>cpu/kernel_memory_protocol.c\<close>.
  The state holds the bytes not yet read from Kernel Memory and from the Kernel Scheduler,
  whether messages to each can be sent, and what has been sent. A handler returns the state,
  the context and the \<open>t_extended_bool\<close> of the code; \<open>None\<close> is a crash or an access outside
  a buffer. The network, which answers when a Memory Stick is connected, is the argument
  \<open>connect\<close> of the functions that listen to Kernel Memory.
\<close>

subsection \<open>Data\<close>

datatype peer = To_KM | To_KS

record t_cpu =
  cpu_max_segment_size :: u32
  memory_sticks :: "t_memory_stick_info list"
  km_in :: bytes
  ks_in :: bytes
  km_up :: bool
  ks_up :: bool
  sent :: "(peer \<times> bytes) list"

record t_context =
  registers :: t_registers
  segment_table :: "t_segment list"
  segment_changed :: bool

record t_instruction =
  i_name :: string
  parameters :: "string list"

datatype t_extended_bool = EB_FALSE | EB_TRUE | EB_ERROR | EB_NO_TABLE

datatype t_handler =
    Handler_noop | Handler_set | Handler_sum | Handler_sub | Handler_jnz | Handler_mov_in
  | Handler_mov_out | Handler_copy_mem | Handler_mutex_create | Handler_mutex_lock
  | Handler_mutex_unlock | Handler_mem_alloc | Handler_mem_free | Handler_sleep
  | Handler_stdout | Handler_stdin | Handler_init_proc | Handler_exit

type_synonym handler_outcome = "(t_cpu \<times> t_context \<times> t_extended_bool) option"

definition send_ks :: "bytes \<Rightarrow> t_cpu \<Rightarrow> t_cpu \<times> bool" where
  "send_ks b cpu = (if ks_up cpu then (cpu\<lparr>sent := sent cpu @ [(To_KS, b)]\<rparr>, True) else (cpu, False))"

definition send_km :: "bytes \<Rightarrow> t_cpu \<Rightarrow> t_cpu \<times> bool" where
  "send_km b cpu = (if km_up cpu then (cpu\<lparr>sent := sent cpu @ [(To_KM, b)]\<rparr>, True) else (cpu, False))"

definition send_all_km :: "message list \<Rightarrow> t_cpu \<Rightarrow> t_cpu" where
  "send_all_km msgs cpu = foldl (\<lambda>cpu (op, s). fst (send_km (send_string op s) cpu)) cpu msgs"

definition send_all_ks :: "message list \<Rightarrow> t_cpu \<Rightarrow> t_cpu" where
  "send_all_ks msgs cpu = foldl (\<lambda>cpu (op, s). fst (send_ks (send_string op s) cpu)) cpu msgs"

definition param :: "nat \<Rightarrow> t_instruction \<Rightarrow> string option" where
  "param k instr = (if k < length (parameters instr) then Some (parameters instr ! k) else None)"

subsection \<open>Instructions executed by the CPU\<close>

definition handler_noop :: "t_cpu \<Rightarrow> t_context \<Rightarrow> t_instruction \<Rightarrow> u32 \<Rightarrow> handler_outcome" where
  "handler_noop cpu context instr pid = Some (cpu, context, EB_TRUE)"

definition handler_set :: "t_cpu \<Rightarrow> t_context \<Rightarrow> t_instruction \<Rightarrow> u32 \<Rightarrow> handler_outcome" where
  "handler_set cpu ctx instr pid =
     (case (param 0 instr, param 1 instr) of
        (Some reg, Some p1) \<Rightarrow>
          Some (cpu, ctx\<lparr>registers := set_register (registers ctx) reg (to_u32 (atoi p1))\<rparr>, EB_TRUE)
      | _ \<Rightarrow> None)"

definition handler_sum :: "t_cpu \<Rightarrow> t_context \<Rightarrow> t_instruction \<Rightarrow> u32 \<Rightarrow> handler_outcome" where
  "handler_sum cpu ctx instr pid =
     (case (param 0 instr, param 1 instr) of
        (Some dest_reg, Some p1) \<Rightarrow>
          (let result = get_register (registers ctx) dest_reg + get_register (registers ctx) p1
           in Some (cpu, ctx\<lparr>registers := set_register (registers ctx) dest_reg result\<rparr>, EB_TRUE))
      | _ \<Rightarrow> None)"

definition handler_sub :: "t_cpu \<Rightarrow> t_context \<Rightarrow> t_instruction \<Rightarrow> u32 \<Rightarrow> handler_outcome" where
  "handler_sub cpu ctx instr pid =
     (case (param 0 instr, param 1 instr) of
        (Some dest_reg, Some p1) \<Rightarrow>
          (let result = get_register (registers ctx) dest_reg - get_register (registers ctx) p1
           in Some (cpu, ctx\<lparr>registers := set_register (registers ctx) dest_reg result\<rparr>, EB_TRUE))
      | _ \<Rightarrow> None)"

definition handler_jnz :: "t_cpu \<Rightarrow> t_context \<Rightarrow> t_instruction \<Rightarrow> u32 \<Rightarrow> handler_outcome" where
  "handler_jnz cpu ctx instr pid =
     (case param 0 instr of
        None \<Rightarrow> None
      | Some p0 \<Rightarrow>
          (if get_register (registers ctx) p0 \<noteq> 0
           then map_option (\<lambda>p1. (cpu, ctx\<lparr>registers := set_register (registers ctx) ''PC'' (to_u32 (atoi p1))\<rparr>, EB_TRUE))
                  (param 1 instr)
           else Some (cpu, ctx, EB_TRUE)))"

subsection \<open>Instructions that touch memory\<close>

definition call_mmu :: "t_cpu \<Rightarrow> t_context \<Rightarrow> u32 \<Rightarrow> u32 \<Rightarrow> (t_cpu \<times> u32) option" where
  "call_mmu cpu ctx logical_address sz =
     map_option (\<lambda>(pa, msgs). (send_all_ks msgs cpu, pa))
       (mmu (cpu_max_segment_size cpu) (ks_up cpu) (segment_table ctx) logical_address sz)"

definition call_read :: "t_cpu \<Rightarrow> u32 \<Rightarrow> u32 \<Rightarrow> (t_cpu \<times> bytes option) option" where
  "call_read cpu physical_address sz =
     map_option (\<lambda>(b, msgs). (send_all_km msgs cpu, b)) (read_memory_cpu (memory_sticks cpu) physical_address sz)"

definition call_write :: "t_cpu \<Rightarrow> u32 \<Rightarrow> bytes \<Rightarrow> u32 \<Rightarrow> (t_cpu \<times> bool) option" where
  "call_write cpu physical_address data sz =
     map_option (\<lambda>(sticks, ok, msgs). (send_all_km msgs (cpu\<lparr>memory_sticks := sticks\<rparr>), ok))
       (write_memory_cpu (memory_sticks cpu) physical_address data sz)"

text \<open>The value read is dereferenced before the check for \<open>NULL\<close>.\<close>

definition handler_mov_in :: "t_cpu \<Rightarrow> t_context \<Rightarrow> t_instruction \<Rightarrow> u32 \<Rightarrow> handler_outcome" where
  "handler_mov_in cpu ctx instr pid =
     (case call_mmu cpu ctx (SI (registers ctx)) 4 of
        None \<Rightarrow> None
      | Some (cpu1, phys_addr) \<Rightarrow>
          (if phys_addr = INVALID_ADDRESS then Some (cpu1, ctx, EB_FALSE)
           else if phys_addr = INVALID_ADDRESS - 1 then Some (cpu1, ctx, EB_ERROR)
           else case call_read cpu1 phys_addr 4 of
                  Some (cpu2, Some read_value) \<Rightarrow>
                    map_option (\<lambda>p0. (cpu2, ctx\<lparr>registers := set_register (registers ctx) p0 (bytes_u32 read_value)\<rparr>, EB_TRUE))
                      (param 0 instr)
                | _ \<Rightarrow> None))"

definition handler_mov_out :: "t_cpu \<Rightarrow> t_context \<Rightarrow> t_instruction \<Rightarrow> u32 \<Rightarrow> handler_outcome" where
  "handler_mov_out cpu ctx instr pid =
     (case param 0 instr of
        None \<Rightarrow> None
      | Some p0 \<Rightarrow>
          (case call_mmu cpu ctx (DI (registers ctx)) 4 of
             None \<Rightarrow> None
           | Some (cpu1, phys_addr) \<Rightarrow>
               (if phys_addr = INVALID_ADDRESS then Some (cpu1, ctx, EB_FALSE)
                else if phys_addr = INVALID_ADDRESS - 1 then Some (cpu1, ctx, EB_ERROR)
                else map_option (\<lambda>(cpu2, ok). (cpu2, ctx, if ok then EB_TRUE else EB_ERROR))
                       (call_write cpu1 phys_addr (u32_bytes (get_register (registers ctx) p0)) 4))))"

text \<open>Both addresses are checked for \<open>sizeof(uint32_t)\<close> bytes, not for \<open>byte_count\<close>.\<close>

definition handler_copy_mem :: "t_cpu \<Rightarrow> t_context \<Rightarrow> t_instruction \<Rightarrow> u32 \<Rightarrow> handler_outcome" where
  "handler_copy_mem cpu ctx instr pid =
     (case param 0 instr of
        None \<Rightarrow> None
      | Some p0 \<Rightarrow>
          (let byte_count = get_register (registers ctx) p0
           in case call_mmu cpu ctx (SI (registers ctx)) 4 of
                None \<Rightarrow> None
              | Some (cpu1, src_addr) \<Rightarrow>
                  (if src_addr = INVALID_ADDRESS then Some (cpu1, ctx, EB_FALSE)
                   else if src_addr = INVALID_ADDRESS - 1 then Some (cpu1, ctx, EB_ERROR)
                   else case call_mmu cpu1 ctx (DI (registers ctx)) 4 of
                          None \<Rightarrow> None
                        | Some (cpu2, dst_addr) \<Rightarrow>
                            (if dst_addr = INVALID_ADDRESS then Some (cpu2, ctx, EB_TRUE)
                             else if dst_addr = INVALID_ADDRESS - 1 then Some (cpu2, ctx, EB_ERROR)
                             else case call_read cpu2 src_addr byte_count of
                                    None \<Rightarrow> None
                                  | Some (cpu3, None) \<Rightarrow> Some (cpu3, ctx, EB_ERROR)
                                  | Some (cpu3, Some read_bytes) \<Rightarrow>
                                      map_option (\<lambda>(cpu4, ok). (cpu4, ctx, if ok then EB_TRUE else EB_ERROR))
                                        (call_write cpu3 dst_addr read_bytes byte_count)))))"

subsection \<open>System calls\<close>

text \<open>The result of a syscall instruction: stop on success, abort when it cannot be sent.\<close>

definition syscall_sent :: "bytes \<Rightarrow> t_cpu \<Rightarrow> t_context \<Rightarrow> t_context \<Rightarrow> handler_outcome" where
  "syscall_sent b cpu ctx ctx_ok =
     (case send_ks b cpu of (cpu', ok) \<Rightarrow> Some (if ok then (cpu', ctx_ok, EB_FALSE) else (cpu', ctx, EB_ERROR)))"

definition handler_mutex_create :: "t_cpu \<Rightarrow> t_context \<Rightarrow> t_instruction \<Rightarrow> u32 \<Rightarrow> handler_outcome" where
  "handler_mutex_create cpu ctx instr pid =
     Option.bind (param 0 instr) (\<lambda>p0. syscall_sent (send_string OP_SYSCALL_MUTEX_CREATE p0) cpu ctx ctx)"

definition handler_mutex_lock :: "t_cpu \<Rightarrow> t_context \<Rightarrow> t_instruction \<Rightarrow> u32 \<Rightarrow> handler_outcome" where
  "handler_mutex_lock cpu ctx instr pid =
     Option.bind (param 0 instr) (\<lambda>p0. syscall_sent (send_string OP_SYSCALL_MUTEX_LOCK p0) cpu ctx ctx)"

definition handler_mutex_unlock :: "t_cpu \<Rightarrow> t_context \<Rightarrow> t_instruction \<Rightarrow> u32 \<Rightarrow> handler_outcome" where
  "handler_mutex_unlock cpu ctx instr pid =
     Option.bind (param 0 instr) (\<lambda>p0. syscall_sent (send_string OP_SYSCALL_MUTEX_UNLOCK p0) cpu ctx ctx)"

definition handler_mem_alloc :: "t_cpu \<Rightarrow> t_context \<Rightarrow> t_instruction \<Rightarrow> u32 \<Rightarrow> handler_outcome" where
  "handler_mem_alloc cpu ctx instr pid =
     (case (param 0 instr, param 1 instr) of
        (Some p0, Some p1) \<Rightarrow>
          (let syscall_data = \<lparr>sm_pid = pid, sm_segment_id = to_u32 (atoi p0), sm_size = to_u32 (atoi p1)\<rparr>
           in syscall_sent (send_buffer OP_SYSCALL_MEM_ALLOC (encode_syscall_memory syscall_data)) cpu ctx
                (ctx\<lparr>segment_changed := True\<rparr>))
      | _ \<Rightarrow> None)"

definition handler_mem_free :: "t_cpu \<Rightarrow> t_context \<Rightarrow> t_instruction \<Rightarrow> u32 \<Rightarrow> handler_outcome" where
  "handler_mem_free cpu ctx instr pid =
     Option.bind (param 0 instr) (\<lambda>p0.
       let syscall_data = \<lparr>sm_pid = pid, sm_segment_id = to_u32 (atoi p0), sm_size = 0\<rparr>
       in syscall_sent (send_buffer OP_SYSCALL_MEM_FREE (encode_syscall_memory syscall_data)) cpu ctx
            (ctx\<lparr>segment_changed := True\<rparr>))"

definition handler_sleep :: "t_cpu \<Rightarrow> t_context \<Rightarrow> t_instruction \<Rightarrow> u32 \<Rightarrow> handler_outcome" where
  "handler_sleep cpu ctx instr pid =
     Option.bind (param 0 instr) (\<lambda>p0.
       syscall_sent (send_buffer OP_SYSCALL_SLEEP (u32_bytes pid @ u32_bytes (to_u32 (atoi p0)))) cpu ctx ctx)"

definition handler_stdout :: "t_cpu \<Rightarrow> t_context \<Rightarrow> t_instruction \<Rightarrow> u32 \<Rightarrow> handler_outcome" where
  "handler_stdout cpu ctx instr pid =
     (case (param 0 instr, param 1 instr) of
        (Some p0, Some p1) \<Rightarrow>
          (let syscall_data = \<lparr>out_pid = pid, bytes_to_write = get_register (registers ctx) p1,
                               out_logical_address = get_register (registers ctx) p0\<rparr>
           in syscall_sent (send_buffer OP_SYSCALL_STDOUT (encode_stdout_request syscall_data)) cpu ctx ctx)
      | _ \<Rightarrow> None)"

definition handler_stdin :: "t_cpu \<Rightarrow> t_context \<Rightarrow> t_instruction \<Rightarrow> u32 \<Rightarrow> handler_outcome" where
  "handler_stdin cpu ctx instr pid =
     (case (param 0 instr, param 1 instr) of
        (Some p0, Some p1) \<Rightarrow>
          (let syscall_data = \<lparr>in_pid = pid, bytes_to_read = get_register (registers ctx) p1,
                               in_logical_address = get_register (registers ctx) p0\<rparr>
           in syscall_sent (send_buffer OP_SYSCALL_STDIN (encode_stdin_request syscall_data)) cpu ctx ctx)
      | _ \<Rightarrow> None)"

definition handler_init_proc :: "t_cpu \<Rightarrow> t_context \<Rightarrow> t_instruction \<Rightarrow> u32 \<Rightarrow> handler_outcome" where
  "handler_init_proc cpu ctx instr pid =
     (case (param 0 instr, param 1 instr) of
        (Some p0, Some p1) \<Rightarrow>
          syscall_sent (send_packet (packet_append (packet_append_string (create_packet OP_SYSCALL_INIT_PROC) p0)
            (int_bytes (atoi p1)))) cpu ctx ctx
      | _ \<Rightarrow> None)"

definition handler_exit :: "t_cpu \<Rightarrow> t_context \<Rightarrow> t_instruction \<Rightarrow> u32 \<Rightarrow> handler_outcome" where
  "handler_exit cpu ctx instr pid = syscall_sent (send_string OP_SYSCALL_EXIT ''PROCESS FINISHED'') cpu ctx ctx"

subsection \<open>The handler dictionary\<close>

definition handler_table :: "(string \<times> t_handler) list" where
  "handler_table =
     [(''NOOP'', Handler_noop), (''SET'', Handler_set), (''SUM'', Handler_sum), (''SUB'', Handler_sub),
      (''JNZ'', Handler_jnz), (''MOV_IN'', Handler_mov_in), (''MOV_OUT'', Handler_mov_out),
      (''COPY_MEM'', Handler_copy_mem), (''MUTEX_CREATE'', Handler_mutex_create),
      (''MUTEX_LOCK'', Handler_mutex_lock), (''MUTEX_UNLOCK'', Handler_mutex_unlock),
      (''MEM_ALLOC'', Handler_mem_alloc), (''MEM_FREE'', Handler_mem_free), (''SLEEP'', Handler_sleep),
      (''STDOUT'', Handler_stdout), (''STDIN'', Handler_stdin), (''INIT_PROC'', Handler_init_proc),
      (''EXIT'', Handler_exit)]"

definition register_handlers :: "t_handler t_dictionary \<Rightarrow> t_handler t_dictionary" where
  "register_handlers handlers = foldl (\<lambda>d (k, v). dictionary_put d k v) handlers handler_table"

fun run_handler :: "t_handler \<Rightarrow> t_cpu \<Rightarrow> t_context \<Rightarrow> t_instruction \<Rightarrow> u32 \<Rightarrow> handler_outcome" where
  "run_handler Handler_noop = handler_noop"
| "run_handler Handler_set = handler_set"
| "run_handler Handler_sum = handler_sum"
| "run_handler Handler_sub = handler_sub"
| "run_handler Handler_jnz = handler_jnz"
| "run_handler Handler_mov_in = handler_mov_in"
| "run_handler Handler_mov_out = handler_mov_out"
| "run_handler Handler_copy_mem = handler_copy_mem"
| "run_handler Handler_mutex_create = handler_mutex_create"
| "run_handler Handler_mutex_lock = handler_mutex_lock"
| "run_handler Handler_mutex_unlock = handler_mutex_unlock"
| "run_handler Handler_mem_alloc = handler_mem_alloc"
| "run_handler Handler_mem_free = handler_mem_free"
| "run_handler Handler_sleep = handler_sleep"
| "run_handler Handler_stdout = handler_stdout"
| "run_handler Handler_stdin = handler_stdin"
| "run_handler Handler_init_proc = handler_init_proc"
| "run_handler Handler_exit = handler_exit"

text \<open>An unknown instruction is an error.\<close>

definition execute_stage :: "t_cpu \<Rightarrow> t_context \<Rightarrow> t_instruction \<Rightarrow> u32 \<Rightarrow> handler_outcome" where
  "execute_stage cpu ctx instr pid =
     (case dictionary_get (register_handlers dictionary_create) (i_name instr) of
        None \<Rightarrow> Some (cpu, ctx, EB_ERROR)
      | Some handler \<Rightarrow> run_handler handler cpu ctx instr pid)"

text \<open>\<open>instruction->parameters\<close> has room for three.\<close>

definition decode_stage :: "string \<Rightarrow> t_instruction option" where
  "decode_stage raw_instruction =
     (case string_split raw_instruction '' '' of
        Some (name # params) \<Rightarrow> if length params \<le> 3 then Some \<lparr>i_name = name, parameters = params\<rparr> else None
      | _ \<Rightarrow> None)"

lemma handler_lookup: "dictionary_get (register_handlers dictionary_create) name = map_of (rev handler_table) name"
  unfolding register_handlers_def by (rule dictionary.table_lookup)

end
