(* ===== verification/Cpu_Cycle.thy ===== *)
theory Cpu_Cycle
  imports Cpu
begin

section \<open>CPU: the loop over processes\<close>

text \<open>
  The fetch-decode-execute cycle of \<open>run_instruction_cycle\<close> and the loop of
  \<open>run_instruction_loop\<close>, with the messages they exchange. Both end because every iteration
  reads an operation code from the Kernel Scheduler; \<open>connect\<close> stands for the Memory Sticks
  that answer when Kernel Memory announces one.
\<close>

type_synonym network = "string \<Rightarrow> string \<Rightarrow> (stick_link \<times> bytes) option"

subsection \<open>Messages of Kernel Memory\<close>

text \<open>The size arrives as the \<open>int\<close> of Kernel Memory's configuration.\<close>

definition receive_max_segment_size :: "t_cpu \<Rightarrow> (t_cpu \<times> bool) option" where
  "receive_max_segment_size cpu =
     (case receive_op_code (km_in cpu) of
        (op_code, rest) \<Rightarrow>
          (if op_code = OP_MAX_SEGMENT_SIZE then
             (case receive_buffer rest of
                Some (Some b, n, rest') \<Rightarrow>
                  map_option (\<lambda>sz. (cpu\<lparr>cpu_max_segment_size := to_u32 sz, km_in := rest'\<rparr>, True)) (element_int b)
              | _ \<Rightarrow> None)
           else map_option (\<lambda>(b, n, rest'). (cpu\<lparr>km_in := rest'\<rparr>, False)) (receive_buffer rest)))"

lemma connect_memory_stick_shrinks:
  "connect_memory_stick connect sticks stream = Some (sticks', ok, rest) \<Longrightarrow> length rest \<le> length stream"
  by (auto simp: connect_memory_stick_def dest: receive_packet_shrinks split: option.splits prod.splits if_splits)

text \<open>Waits for a reply and connects every stick announced before it.\<close>

function listen_kernel_memory :: "network \<Rightarrow> t_cpu \<Rightarrow> (t_cpu \<times> bool) option" where
  "listen_kernel_memory connect cpu =
     (case receive_op_code (km_in cpu) of
        (op_code, rest) \<Rightarrow>
          (if op_code \<in> {OP_SEGMENT_TABLE, OP_SEND_CONTEXT, OP_SEND_INSTRUCTION} then Some (cpu\<lparr>km_in := rest\<rparr>, True)
           else if op_code = OP_PACKET then
             (case connect_memory_stick connect (memory_sticks cpu) rest of
                None \<Rightarrow> None
              | Some (sticks, ok, rest') \<Rightarrow>
                  (let cpu' = cpu\<lparr>memory_sticks := sticks, km_in := rest'\<rparr>
                   in if ok then listen_kernel_memory connect cpu' else Some (cpu', False)))
           else Some (cpu\<lparr>km_in := rest\<rparr>, False)))"
  by pat_completeness auto
termination
  by (relation "measure (\<lambda>(c, cpu). length (km_in cpu))")
    (force dest!: connect_memory_stick_shrinks dest: receive_op_code_shrinks [OF sym])+

declare listen_kernel_memory.simps [simp del]

definition request_context :: "t_cpu \<Rightarrow> u32 \<Rightarrow> t_cpu \<times> bool" where
  "request_context cpu pid = send_km (send_buffer OP_REQUEST_CONTEXT (u32_bytes pid)) cpu"

definition receive_context :: "t_cpu \<Rightarrow> (t_cpu \<times> t_registers) option" where
  "receive_context cpu =
     (case receive_buffer (km_in cpu) of
        Some (Some b, n, rest) \<Rightarrow> map_option (\<lambda>r. (cpu\<lparr>km_in := rest\<rparr>, r)) (bytes_registers b)
      | _ \<Rightarrow> None)"

fun decode_segments :: "bytes list \<Rightarrow> t_segment list option" where
  "decode_segments [] = Some []"
| "decode_segments (b # bs) =
     (case decode_segment b of None \<Rightarrow> None | Some s \<Rightarrow> map_option (Cons s) (decode_segments bs))"

definition receive_segment_table :: "t_cpu \<Rightarrow> (t_cpu \<times> t_segment list) option" where
  "receive_segment_table cpu =
     (case receive_packet (km_in cpu) of
        None \<Rightarrow> None
      | Some (packet, rest) \<Rightarrow> map_option (\<lambda>ss. (cpu\<lparr>km_in := rest\<rparr>, ss)) (decode_segments packet))"

definition request_instruction :: "t_cpu \<Rightarrow> u32 \<Rightarrow> u32 \<Rightarrow> t_cpu \<times> bool" where
  "request_instruction cpu pid pc =
     send_km (send_packet (packet_append (packet_append (create_packet OP_NEXT_INSTRUCTION) (u32_bytes pid)) (u32_bytes pc))) cpu"

text \<open>The instruction, or \<open>None\<close> inside for \<open>NULL\<close>.\<close>

definition fetch_stage :: "network \<Rightarrow> t_cpu \<Rightarrow> u32 \<Rightarrow> u32 \<Rightarrow> (t_cpu \<times> string option) option" where
  "fetch_stage connect cpu pid pc =
     (case request_instruction cpu pid pc of
        (cpu1, False) \<Rightarrow> Some (cpu1, None)
      | (cpu1, True) \<Rightarrow>
          (case listen_kernel_memory connect cpu1 of
             None \<Rightarrow> None
           | Some (cpu2, False) \<Rightarrow> Some (cpu2, None)
           | Some (cpu2, True) \<Rightarrow>
               map_option (\<lambda>(b, rest). (cpu2\<lparr>km_in := rest\<rparr>, map_option string_of_bytes b)) (receive_string (km_in cpu2))))"

definition send_updated_context :: "t_cpu \<Rightarrow> u32 \<Rightarrow> t_registers \<Rightarrow> t_cpu \<times> bool" where
  "send_updated_context cpu pid updated_context =
     send_km (send_packet (packet_append (packet_append (create_packet OP_UPDATED_CONTEXT) (u32_bytes pid))
       (registers_bytes updated_context))) cpu"

definition update_segment_table :: "network \<Rightarrow> t_cpu \<Rightarrow> u32 \<Rightarrow> t_context \<Rightarrow> (t_cpu \<times> t_context \<times> bool) option" where
  "update_segment_table connect cpu pid ctx =
     (case send_km (send_buffer OP_UPDATED_SEGMENT_TABLE (u32_bytes pid)) cpu of
        (cpu1, False) \<Rightarrow> Some (cpu1, ctx, False)
      | (cpu1, True) \<Rightarrow>
          (case listen_kernel_memory connect cpu1 of
             None \<Rightarrow> None
           | Some (cpu2, False) \<Rightarrow> Some (cpu2, ctx, False)
           | Some (cpu2, True) \<Rightarrow>
               map_option (\<lambda>(cpu3, ss). (cpu3, ctx\<lparr>segment_table := ss\<rparr>, True)) (receive_segment_table cpu2)))"

subsection \<open>Messages of the Kernel Scheduler\<close>

text \<open>\<open>UINT32_MAX\<close> for a disconnection or another operation.\<close>

definition receive_pid_ks :: "t_cpu \<Rightarrow> (t_cpu \<times> u32) option" where
  "receive_pid_ks cpu =
     (case receive_op_code (ks_in cpu) of
        (op_code, rest) \<Rightarrow>
          (if op_code = OP_RESUME_PROCESS then
             map_option (\<lambda>(pid, rest'). (cpu\<lparr>ks_in := rest'\<rparr>, pid)) (receive_struct decode_u32 rest)
           else Some (cpu\<lparr>ks_in := rest\<rparr>, -1)))"

definition check_interrupt :: "t_cpu \<Rightarrow> (t_cpu \<times> t_extended_bool) option" where
  "check_interrupt cpu =
     (case receive_op_code (ks_in cpu) of
        (code, rest) \<Rightarrow>
          (if code = OP_INTERRUPT then
             (case receive_string rest of
                Some (Some interrupt_reason, rest') \<Rightarrow>
                  Some (cpu\<lparr>ks_in := rest'\<rparr>,
                        if string_of_bytes interrupt_reason = ''there is not enough memory for this instruction''
                        then EB_NO_TABLE else EB_FALSE)
              | _ \<Rightarrow> None)
           else if code = OP_NO_INTERRUPT then
             map_option (\<lambda>(b, rest'). (cpu\<lparr>ks_in := rest'\<rparr>, EB_TRUE)) (receive_string rest)
           else Some (cpu\<lparr>ks_in := rest\<rparr>, EB_ERROR)))"

lemma check_interrupt_shrinks:
  "check_interrupt cpu = Some (cpu', r) \<Longrightarrow> length (ks_in cpu') \<le> length (ks_in cpu) \<and> (r \<noteq> EB_ERROR \<longrightarrow> length (ks_in cpu') < length (ks_in cpu))"
  by (auto simp: check_interrupt_def split: prod.splits if_splits option.splits
      dest!: receive_op_code_shrinks receive_string_shrinks)

subsection \<open>Nothing but \<open>receive_pid\<close> and \<open>check_interrupt\<close> reads from the Kernel Scheduler\<close>

lemma send_ks_in [simp]:
  "ks_in (fst (send_ks b cpu)) = ks_in cpu" "ks_in (fst (send_km b cpu)) = ks_in cpu"
  by (simp_all add: send_ks_def send_km_def)

lemma send_ks_in' : "send_ks b cpu = (cpu', ok) \<Longrightarrow> ks_in cpu' = ks_in cpu" "send_km b cpu = (cpu', ok) \<Longrightarrow> ks_in cpu' = ks_in cpu"
  using send_ks_in [of b cpu] by (metis fst_conv)+

lemma send_all_in [simp]: "ks_in (send_all_km msgs cpu) = ks_in cpu" "ks_in (send_all_ks msgs cpu) = ks_in cpu"
proof -
  have "ks_in (foldl (\<lambda>cpu (op, s). fst (send_km (send_string op s) cpu)) cpu msgs) = ks_in cpu"
    by (induction msgs arbitrary: cpu) (auto split: prod.splits)
  moreover have "ks_in (foldl (\<lambda>cpu (op, s). fst (send_ks (send_string op s) cpu)) cpu msgs) = ks_in cpu"
    by (induction msgs arbitrary: cpu) (auto split: prod.splits)
  ultimately show "ks_in (send_all_km msgs cpu) = ks_in cpu" "ks_in (send_all_ks msgs cpu) = ks_in cpu"
    by (simp_all add: send_all_km_def send_all_ks_def)
qed

lemma call_in:
  "call_mmu cpu ctx a sz = Some (cpu', pa) \<Longrightarrow> ks_in cpu' = ks_in cpu"
  "call_read cpu a sz = Some (cpu', b) \<Longrightarrow> ks_in cpu' = ks_in cpu"
  "call_write cpu a d sz = Some (cpu', ok) \<Longrightarrow> ks_in cpu' = ks_in cpu"
  by (auto simp: call_mmu_def call_read_def call_write_def)

lemma syscall_sent_in: "syscall_sent b cpu ctx ctx' = Some (cpu', c, r) \<Longrightarrow> ks_in cpu' = ks_in cpu"
  by (auto simp: syscall_sent_def send_ks_def split: if_splits)

lemma memory_handlers_in:
  "handler_mov_in cpu ctx instr pid = Some (cpu', c, r) \<Longrightarrow> ks_in cpu' = ks_in cpu"
  "handler_mov_out cpu ctx instr pid = Some (cpu', c, r) \<Longrightarrow> ks_in cpu' = ks_in cpu"
  "handler_copy_mem cpu ctx instr pid = Some (cpu', c, r) \<Longrightarrow> ks_in cpu' = ks_in cpu"
  by (auto simp: handler_mov_in_def handler_mov_out_def handler_copy_mem_def Let_def
      split: option.splits if_splits dest!: call_in)

lemma register_handlers_in:
  "handler_noop cpu ctx instr pid = Some (cpu', c, r) \<Longrightarrow> cpu' = cpu"
  "handler_set cpu ctx instr pid = Some (cpu', c, r) \<Longrightarrow> cpu' = cpu"
  "handler_sum cpu ctx instr pid = Some (cpu', c, r) \<Longrightarrow> cpu' = cpu"
  "handler_sub cpu ctx instr pid = Some (cpu', c, r) \<Longrightarrow> cpu' = cpu"
  "handler_jnz cpu ctx instr pid = Some (cpu', c, r) \<Longrightarrow> cpu' = cpu"
  by (auto simp: handler_noop_def handler_set_def handler_sum_def handler_sub_def handler_jnz_def Let_def
      split: option.splits if_splits)

lemma syscall_handlers_in:
  "handler_mutex_create cpu ctx instr pid = Some (cpu', c, r) \<Longrightarrow> ks_in cpu' = ks_in cpu"
  "handler_mutex_lock cpu ctx instr pid = Some (cpu', c, r) \<Longrightarrow> ks_in cpu' = ks_in cpu"
  "handler_mutex_unlock cpu ctx instr pid = Some (cpu', c, r) \<Longrightarrow> ks_in cpu' = ks_in cpu"
  "handler_mem_alloc cpu ctx instr pid = Some (cpu', c, r) \<Longrightarrow> ks_in cpu' = ks_in cpu"
  "handler_mem_free cpu ctx instr pid = Some (cpu', c, r) \<Longrightarrow> ks_in cpu' = ks_in cpu"
  "handler_sleep cpu ctx instr pid = Some (cpu', c, r) \<Longrightarrow> ks_in cpu' = ks_in cpu"
  "handler_stdout cpu ctx instr pid = Some (cpu', c, r) \<Longrightarrow> ks_in cpu' = ks_in cpu"
  "handler_stdin cpu ctx instr pid = Some (cpu', c, r) \<Longrightarrow> ks_in cpu' = ks_in cpu"
  "handler_init_proc cpu ctx instr pid = Some (cpu', c, r) \<Longrightarrow> ks_in cpu' = ks_in cpu"
  "handler_exit cpu ctx instr pid = Some (cpu', c, r) \<Longrightarrow> ks_in cpu' = ks_in cpu"
  by (auto simp: handler_mutex_create_def handler_mutex_lock_def handler_mutex_unlock_def handler_mem_alloc_def
      handler_mem_free_def handler_sleep_def handler_stdout_def handler_stdin_def handler_init_proc_def
      handler_exit_def Let_def bind_eq_Some_conv split: option.splits dest!: syscall_sent_in)

lemma execute_stage_in:
  assumes "execute_stage cpu ctx instr pid = Some (cpu', c, r)"
  shows "ks_in cpu' = ks_in cpu"
proof (cases "dictionary_get (register_handlers dictionary_create) (i_name instr)")
  case None
  with assms show ?thesis by (simp add: execute_stage_def)
next
  case (Some h)
  with assms have "run_handler h cpu ctx instr pid = Some (cpu', c, r)" by (simp add: execute_stage_def)
  then show ?thesis
    by (cases h) (auto dest: memory_handlers_in register_handlers_in syscall_handlers_in)
qed

lemma listen_kernel_memory_in: "listen_kernel_memory connect cpu = Some (cpu', ok) \<Longrightarrow> ks_in cpu' = ks_in cpu"
proof (induction "length (km_in cpu)" arbitrary: cpu rule: less_induct)
  case less
  obtain op rest where op: "receive_op_code (km_in cpu) = (op, rest)" by fastforce
  show ?case
  proof (cases "op = OP_PACKET")
    case False
    with less.prems op show ?thesis by (subst (asm) listen_kernel_memory.simps) (auto split: if_splits)
  next
    case True
    show ?thesis
    proof (cases "connect_memory_stick connect (memory_sticks cpu) rest")
      case None
      with less.prems op True show ?thesis by (subst (asm) listen_kernel_memory.simps) simp
    next
      case (Some x)
      obtain sticks k rest' where x: "x = (sticks, k, rest')" by (cases x)
      let ?cpu = "cpu\<lparr>memory_sticks := sticks, km_in := rest'\<rparr>"
      have "length rest' < length (km_in cpu)"
        using connect_memory_stick_shrinks [OF Some [unfolded x]] receive_op_code_shrinks [OF op] True by simp
      with less.hyps [of ?cpu] less.prems op True Some x show ?thesis
        by (subst (asm) listen_kernel_memory.simps) (auto simp: Let_def split: if_splits)
    qed
  qed
qed

lemma fetch_stage_in: "fetch_stage connect cpu pid pc = Some (cpu', i) \<Longrightarrow> ks_in cpu' = ks_in cpu"
  by (auto simp: fetch_stage_def request_instruction_def split: prod.splits bool.splits option.splits
      dest!: listen_kernel_memory_in send_ks_in'(2))

lemma update_segment_table_in: "update_segment_table connect cpu pid ctx = Some (cpu', c, ok) \<Longrightarrow> ks_in cpu' = ks_in cpu"
  by (auto simp: update_segment_table_def receive_segment_table_def split: prod.splits bool.splits option.splits
      dest!: listen_kernel_memory_in send_ks_in'(2))

subsection \<open>The cycle\<close>

text \<open>
  One iteration of \<open>run_instruction_cycle\<close>: \<open>Inl ok\<close> when the function returns \<open>ok\<close>,
  \<open>Inr ctx\<close> when the loop goes on. The program counter moves on unless the instruction
  changed it.
\<close>

definition advance_pc :: "u32 \<Rightarrow> t_context \<Rightarrow> t_context" where
  "advance_pc initial_pc ctx =
     (if initial_pc = PC (registers ctx) then ctx\<lparr>registers := (registers ctx)\<lparr>PC := PC (registers ctx) + 1\<rparr>\<rparr> else ctx)"

definition confirm_cycle :: "t_extended_bool \<Rightarrow> t_cpu \<Rightarrow> t_cpu \<times> bool" where
  "confirm_cycle syscall cpu =
     (if syscall \<noteq> EB_FALSE then send_ks (send_string OP_CPU_CYCLE_OK ''OK'') cpu else (cpu, True))"

definition after_execute :: "network \<Rightarrow> t_cpu \<Rightarrow> u32 \<Rightarrow> t_context \<Rightarrow> (t_cpu \<times> t_context \<times> (bool + unit)) option" where
  "after_execute connect cpu pid ctx =
     (case check_interrupt cpu of
        None \<Rightarrow> None
      | Some (cpu1, interrupt) \<Rightarrow>
          (if interrupt = EB_ERROR then Some (cpu1, ctx, Inl False)
           else (let refresh = segment_changed ctx \<and> interrupt \<noteq> EB_NO_TABLE
                 in case (if refresh then update_segment_table connect cpu1 pid ctx else Some (cpu1, ctx, True)) of
                      None \<Rightarrow> None
                    | Some (cpu2, ctx2, False) \<Rightarrow> Some (cpu2, ctx2, Inl False)
                    | Some (cpu2, ctx2, True) \<Rightarrow>
                        (let ctx3 = (if refresh \<or> interrupt = EB_NO_TABLE then ctx2\<lparr>segment_changed := False\<rparr> else ctx2)
                         in if interrupt = EB_TRUE then Some (cpu2, ctx3, Inr ())
                            else (case send_updated_context cpu2 pid (registers ctx3) of
                                    (cpu3, ok) \<Rightarrow> Some (cpu3, ctx3, Inl ok))))))"

definition cycle_step :: "network \<Rightarrow> t_cpu \<Rightarrow> u32 \<Rightarrow> t_context \<Rightarrow> (t_cpu \<times> t_context \<times> (bool + unit)) option" where
  "cycle_step connect cpu pid ctx =
     (case fetch_stage connect cpu pid (PC (registers ctx)) of
        None \<Rightarrow> None
      | Some (cpu1, None) \<Rightarrow> Some (cpu1, ctx, Inl False)
      | Some (cpu1, Some raw_instruction) \<Rightarrow>
          (case decode_stage raw_instruction of
             None \<Rightarrow> None
           | Some instr \<Rightarrow>
               (case execute_stage cpu1 ctx instr pid of
                  None \<Rightarrow> None
                | Some (cpu2, ctx2, syscall) \<Rightarrow>
                    (if syscall = EB_ERROR then Some (cpu2, ctx2, Inl False)
                     else (let ctx3 = advance_pc (PC (registers ctx)) ctx2
                           in case confirm_cycle syscall cpu2 of
                                (cpu3, False) \<Rightarrow> Some (cpu3, ctx3, Inl False)
                              | (cpu3, True) \<Rightarrow> after_execute connect cpu3 pid ctx3)))))"

lemma after_execute_shrinks:
  "after_execute connect cpu pid ctx = Some (cpu', ctx', r) \<Longrightarrow>
     length (ks_in cpu') \<le> length (ks_in cpu) \<and> (r = Inr () \<longrightarrow> length (ks_in cpu') < length (ks_in cpu))"
  by (auto simp: after_execute_def send_updated_context_def Let_def split: option.splits prod.splits if_splits bool.splits
      dest!: check_interrupt_shrinks update_segment_table_in send_ks_in'(2))

lemma confirm_cycle_in: "confirm_cycle syscall cpu = (cpu', ok) \<Longrightarrow> ks_in cpu' = ks_in cpu"
  by (auto simp: confirm_cycle_def split: if_splits dest: send_ks_in')

lemma cycle_step_shrinks:
  assumes "cycle_step connect cpu pid ctx = Some (cpu', ctx', r)"
  shows "length (ks_in cpu') \<le> length (ks_in cpu) \<and> (r = Inr () \<longrightarrow> length (ks_in cpu') < length (ks_in cpu))"
proof -
  obtain cpu1 raw where f: "fetch_stage connect cpu pid (PC (registers ctx)) = Some (cpu1, raw)"
    using assms by (auto simp: cycle_step_def split: option.splits)
  note in1 = fetch_stage_in [OF f]
  show ?thesis
  proof (cases raw)
    case None
    with assms f in1 show ?thesis by (auto simp: cycle_step_def)
  next
    case (Some raw_instruction)
    with assms f obtain instr cpu2 ctx2 syscall where
      e: "decode_stage raw_instruction = Some instr" "execute_stage cpu1 ctx instr pid = Some (cpu2, ctx2, syscall)"
      by (auto simp: cycle_step_def split: option.splits)
    obtain cpu3 ok where c: "confirm_cycle syscall cpu2 = (cpu3, ok)" by fastforce
    have "ks_in cpu2 = ks_in cpu" "ks_in cpu3 = ks_in cpu"
      using in1 execute_stage_in [OF e(2)] confirm_cycle_in [OF c] by simp_all
    with assms f Some e c show ?thesis
      by (cases ok) (auto simp: cycle_step_def Let_def split: if_splits dest!: after_execute_shrinks)
  qed
qed

function run_instruction_cycle :: "network \<Rightarrow> t_cpu \<Rightarrow> u32 \<Rightarrow> t_context \<Rightarrow> (t_cpu \<times> t_context \<times> bool) option" where
  "run_instruction_cycle connect cpu pid ctx =
     (case cycle_step connect cpu pid ctx of
        None \<Rightarrow> None
      | Some (cpu', ctx', Inl ok) \<Rightarrow> Some (cpu', ctx', ok)
      | Some (cpu', ctx', Inr u) \<Rightarrow> run_instruction_cycle connect cpu' pid ctx')"
  by pat_completeness auto
termination
  by (relation "measure (\<lambda>(c, cpu, pid, ctx). length (ks_in cpu))") (auto dest: cycle_step_shrinks)

declare run_instruction_cycle.simps [simp del]

lemma run_instruction_cycle_shrinks:
  "run_instruction_cycle connect cpu pid ctx = Some (cpu', ctx', ok) \<Longrightarrow> length (ks_in cpu') \<le> length (ks_in cpu)"
proof (induction "length (ks_in cpu)" arbitrary: cpu ctx rule: less_induct)
  case less
  from less.prems obtain cpu1 ctx1 r where s: "cycle_step connect cpu pid ctx = Some (cpu1, ctx1, r)"
    by (subst (asm) run_instruction_cycle.simps) (auto split: option.splits)
  note sh = cycle_step_shrinks [OF s]
  show ?case
  proof (cases r)
    case (Inl k)
    with less.prems s sh show ?thesis by (subst (asm) run_instruction_cycle.simps) simp
  next
    case (Inr u)
    with less.prems s have "run_instruction_cycle connect cpu1 pid ctx1 = Some (cpu', ctx', ok)"
      by (subst (asm) run_instruction_cycle.simps) simp
    with less.hyps [of cpu1 ctx1] sh Inr show ?thesis by fastforce
  qed
qed

subsection \<open>The loop over processes\<close>

text \<open>One iteration: \<open>None\<close> in the result when the loop is left.\<close>

definition loop_step :: "network \<Rightarrow> t_cpu \<Rightarrow> t_context \<Rightarrow> (t_cpu \<times> t_context option) option" where
  "loop_step connect cpu ctx =
     (case receive_pid_ks cpu of
        None \<Rightarrow> None
      | Some (cpu1, pid) \<Rightarrow>
          (if pid = -1 then Some (cpu1, None)
           else (case request_context cpu1 pid of
                   (cpu2, False) \<Rightarrow> Some (cpu2, None)
                 | (cpu2, True) \<Rightarrow>
                     (case listen_kernel_memory connect cpu2 of
                        None \<Rightarrow> None
                      | Some (cpu3, False) \<Rightarrow> Some (cpu3, None)
                      | Some (cpu3, True) \<Rightarrow>
                          (case receive_context cpu3 of
                             None \<Rightarrow> None
                           | Some (cpu4, regs) \<Rightarrow>
                               (case listen_kernel_memory connect cpu4 of
                                  None \<Rightarrow> None
                                | Some (cpu5, False) \<Rightarrow> Some (cpu5, None)
                                | Some (cpu5, True) \<Rightarrow>
                                    (case receive_segment_table cpu5 of
                                       None \<Rightarrow> None
                                     | Some (cpu6, table) \<Rightarrow>
                                         (case run_instruction_cycle connect cpu6 pid (ctx\<lparr>registers := regs, segment_table := table\<rparr>) of
                                            None \<Rightarrow> None
                                          | Some (cpu7, ctx', ok) \<Rightarrow> Some (cpu7, if ok then Some ctx' else None)))))))))"

lemma receive_buffer_in: "receive_struct d stream = Some (x, rest) \<Longrightarrow> length rest \<le> length stream"
  by (auto simp: receive_struct_def dest: receive_buffer_shrinks split: option.splits)

lemma receive_pid_ks_shrinks:
  "receive_pid_ks cpu = Some (cpu', pid) \<Longrightarrow> pid \<noteq> -1 \<Longrightarrow> length (ks_in cpu') < length (ks_in cpu)"
  by (auto simp: receive_pid_ks_def split: prod.splits if_splits option.splits
      dest!: receive_op_code_shrinks receive_buffer_in)

lemma receive_in:
  "receive_context cpu = Some (cpu', r) \<Longrightarrow> ks_in cpu' = ks_in cpu"
  "receive_segment_table cpu = Some (cpu'', t) \<Longrightarrow> ks_in cpu'' = ks_in cpu"
  "request_context cpu pid = (cpu3, ok) \<Longrightarrow> ks_in cpu3 = ks_in cpu"
  by (auto simp: receive_context_def receive_segment_table_def request_context_def split: option.splits
      dest: send_ks_in'(2))

lemma loop_step_shrinks:
  assumes "loop_step connect cpu ctx = Some (cpu', Some ctx')"
  shows "length (ks_in cpu') < length (ks_in cpu)"
proof -
  obtain cpu1 pid where p: "receive_pid_ks cpu = Some (cpu1, pid)" "pid \<noteq> -1"
    using assms by (auto simp: loop_step_def split: option.splits if_splits)
  obtain cpu2 where r: "request_context cpu1 pid = (cpu2, True)"
    using assms p by (auto simp: loop_step_def split: prod.splits bool.splits)
  obtain cpu3 where l: "listen_kernel_memory connect cpu2 = Some (cpu3, True)"
    using assms p r by (auto simp: loop_step_def split: option.splits bool.splits)
  obtain cpu4 regs where c: "receive_context cpu3 = Some (cpu4, regs)"
    using assms p r l by (auto simp: loop_step_def split: option.splits)
  obtain cpu5 where l2: "listen_kernel_memory connect cpu4 = Some (cpu5, True)"
    using assms p r l c by (auto simp: loop_step_def split: option.splits bool.splits)
  obtain cpu6 table where t: "receive_segment_table cpu5 = Some (cpu6, table)"
    using assms p r l c l2 by (auto simp: loop_step_def split: option.splits)
  have "\<exists>ctx1. run_instruction_cycle connect cpu6 pid (ctx\<lparr>registers := regs, segment_table := table\<rparr>) = Some (cpu', ctx1, True)"
    using assms p r l c l2 t by (auto simp: loop_step_def split: option.splits if_splits)
  then have "length (ks_in cpu') \<le> length (ks_in cpu6)" by (auto dest: run_instruction_cycle_shrinks)
  moreover have "ks_in cpu6 = ks_in cpu1"
    using receive_in(3) [OF r] listen_kernel_memory_in [OF l] receive_in(1) [OF c]
      listen_kernel_memory_in [OF l2] receive_in(2) [OF t] by simp
  ultimately show ?thesis using receive_pid_ks_shrinks [OF p] by simp
qed

function run_instruction_loop :: "network \<Rightarrow> t_cpu \<Rightarrow> t_context \<Rightarrow> t_cpu option" where
  "run_instruction_loop connect cpu ctx =
     (case loop_step connect cpu ctx of
        None \<Rightarrow> None
      | Some (cpu', None) \<Rightarrow> Some cpu'
      | Some (cpu', Some ctx') \<Rightarrow> run_instruction_loop connect cpu' ctx')"
  by pat_completeness auto
termination
  by (relation "measure (\<lambda>(c, cpu, ctx). length (ks_in cpu))") (auto dest: loop_step_shrinks)

declare run_instruction_loop.simps [simp del]

end
