(* ===== verification/Context_Switch.thy ===== *)
theory Context_Switch
  imports Cpu_Cycle "HOL-Library.Monad_Syntax"
begin

section \<open>The context of a process between a CPU and Kernel Memory\<close>

text \<open>
  A CPU saves the registers of a process in Kernel Memory when it leaves it and another CPU asks for
  them, with the segment table, when it goes on with the process. Both sides are here: the messages
  of \<open>cpu.c\<close> and \<open>kernel_memory_protocol.c\<close> and the handlers of \<open>cpu_listener.c\<close>. What the CPU does
  with the program counter in between closes the theory.
\<close>

subsection \<open>Messages\<close>

lemma packet_two: "packet_append (packet_append p a) b = packet_appends p [a, b]"
  by (simp add: packet_appends_def)

lemma send_packet_receive:
  assumes "\<forall>v \<in> set vs. v \<noteq> []" "int (length (encode_values vs)) \<le> INT_MAX" "in_int op"
  shows "\<exists>body. send_packet (packet_appends (create_packet op) vs) @ rest = int_bytes op @ body \<and> receive_packet body = Some (vs, rest)"
proof (cases "vs = []")
  case True
  have "receive_packet (int_bytes 0 @ rest) = Some ([], rest)"
    using bytes_int_bytes [of 0 "[]"] by (simp add: receive_packet_def receive_buffer_def packet_values.simps in_int_def INT_MAX_def)
  with True show ?thesis
    by (simp add: packet_appends_def send_packet_def serialize_packet_def create_packet_def create_buffer_def)
qed (use receive_packet_send assms in blast)

lemma send_buffer_receive:
  assumes "b \<noteq> []" "int (length b) \<le> INT_MAX" "in_int op"
  shows "\<exists>body. send_buffer op b @ rest = int_bytes op @ body \<and> receive_buffer body = Some (Some b, int (length b), rest)"
  using receive_buffer_bytes [OF assms(1,2)] by (auto simp: send_buffer_def serialize_packet_def)

lemma u32_bytes_not_empty [simp]: "u32_bytes w \<noteq> []"
  by (metis length_int_bytes(2) list.size(3) zero_neq_numeral)

lemma decode_u32_bytes [simp]: "decode_u32 (u32_bytes w) = Some w"
  using bytes_u32_bytes [of w "[]"] by (simp add: decode_u32_def)

lemma length_registers_bytes [simp]: "length (registers_bytes r) = 32"
  by (simp add: registers_bytes_def)

lemma registers_bytes_decode [simp]: "bytes_registers (registers_bytes r) = Some r" "registers_bytes r \<noteq> []"
  using registers_roundtrip [of r "[]"] by (auto simp: registers_bytes_def)

lemma receive_pid_bytes:
  assumes "receive_buffer body = Some (Some (u32_bytes pid), n, rest)"
  shows "receive_pid body = Some (pid, rest)"
  using assms by (simp add: receive_pid_def receive_struct_def)

subsection \<open>The segment table\<close>

lemma decode_segment_bytes:
  assumes "in_int (s_base s)" "in_int (s_size s)"
  shows "decode_segment (segment_bytes s) = Some s"
proof -
  have "drop 4 (segment_bytes s) = u32_bytes (s_pid s) @ drop 8 (segment_bytes s)" "drop 8 (segment_bytes s) = int_bytes (s_base s) @ drop 12 (segment_bytes s)"
    "drop 12 (segment_bytes s) = int_bytes (s_size s) @ []" "segment_bytes s = u32_bytes (s_id s) @ drop 4 (segment_bytes s)"
    by (simp_all add: segment_bytes_def)
  then have "bytes_u32 (segment_bytes s) = s_id s" "bytes_u32 (drop 4 (segment_bytes s)) = s_pid s"
    "bytes_int (drop 8 (segment_bytes s)) = s_base s" "bytes_int (drop 12 (segment_bytes s)) = s_size s"
    using bytes_u32_bytes bytes_int_bytes assms by metis+
  moreover have "length (segment_bytes s) = 16" by (simp add: segment_bytes_def)
  ultimately show ?thesis by (simp add: decode_segment_def)
qed

lemma decode_segments_bytes:
  "\<forall>s \<in> set ss. in_int (s_base s) \<and> in_int (s_size s) \<Longrightarrow> decode_segments (map segment_bytes ss) = Some ss"
  by (induction ss) (simp_all add: decode_segment_bytes)

lemma add_segments_eq: "add_segments_to_packet ss p = packet_appends p (map segment_bytes ss)"
  by (simp add: add_segments_to_packet_def packet_appends_def foldl_map)

lemma length_encode_segments: "length (encode_values (map segment_bytes ss)) = 20 * length ss"
  by (induction ss) (simp_all add: encode_values_def segment_bytes_def)

subsection \<open>The process table\<close>

lemma find_assign_registers:
  assumes "find_process ps pid = Some (Some p)"
  shows "find_process (assign_registers ps pid r) pid' = (if pid' = pid then Some (Some (p\<lparr>pr_registers := r\<rparr>)) else find_process ps pid')"
  using assms by (induction ps pid rule: find_process.induct) (auto split: if_splits)

lemma find_process_pid: "find_process ps pid = Some (Some p) \<Longrightarrow> pr_pid p = pid"
  by (induction ps pid rule: find_process.induct) (auto split: if_splits)

subsection \<open>Saving and restoring\<close>

text \<open>The bytes of the last message a CPU has sent.\<close>

definition last_message :: "t_cpu \<times> bool \<Rightarrow> bytes" where
  "last_message r = snd (last (sent (fst r)))"

lemma save_context:
  assumes "km_up cpu" "find_process (processes km) pid = Some (Some p)"
  shows "listen_cpu km (last_message (send_updated_context cpu pid r) @ rest) =
    Some (km\<lparr>processes := assign_registers (processes km) pid r\<rparr>, [], rest, True)"
proof -
  let ?vs = "[u32_bytes pid, registers_bytes r]"
  have "last_message (send_updated_context cpu pid r) = send_packet (packet_appends (create_packet OP_UPDATED_CONTEXT) ?vs)"
    using assms(1) by (simp add: last_message_def send_updated_context_def send_km_def packet_two)
  moreover obtain body where "send_packet (packet_appends (create_packet OP_UPDATED_CONTEXT) ?vs) @ rest = int_bytes OP_UPDATED_CONTEXT @ body"
    "receive_packet body = Some (?vs, rest)"
    using send_packet_receive [of ?vs OP_UPDATED_CONTEXT rest] by (auto simp: encode_values_def INT_MAX_def in_int_def)
  ultimately show ?thesis
    using assms(2) by (simp add: listen_cpu_def receive_op_code_bytes in_int_def INT_MAX_def handle_updated_context_def element_def)
qed

lemma ask_context:
  assumes "km_up cpu" "find_process (processes km) pid = Some (Some p)"
  shows "listen_cpu km (last_message (request_context cpu pid) @ rest) =
    Some (km, send_buffer OP_SEND_CONTEXT (registers_bytes (pr_registers p)) @ send_segment_table km pid, rest, True)"
proof -
  have "last_message (request_context cpu pid) = send_buffer OP_REQUEST_CONTEXT (u32_bytes pid)"
    using assms(1) by (simp add: last_message_def request_context_def send_km_def)
  moreover obtain body where "send_buffer OP_REQUEST_CONTEXT (u32_bytes pid) @ rest = int_bytes OP_REQUEST_CONTEXT @ body"
    "receive_buffer body = Some (Some (u32_bytes pid), 4, rest)"
    using send_buffer_receive [of "u32_bytes pid" OP_REQUEST_CONTEXT rest] by (auto simp: INT_MAX_def in_int_def)
  ultimately show ?thesis
    using assms(2) receive_pid_bytes [of body pid 4 rest]
    by (simp add: listen_cpu_def receive_op_code_bytes in_int_def INT_MAX_def handle_request_context_def)
qed

text \<open>What the CPU reads of the answer, as in \<open>run_instruction_loop\<close>.\<close>

definition load_context :: "network \<Rightarrow> t_cpu \<Rightarrow> (t_registers \<times> t_segment list \<times> bytes) option" where
  "load_context connect cpu = do {
     (cpu1, ok1) \<leftarrow> listen_kernel_memory connect cpu;
     (cpu2, r) \<leftarrow> receive_context cpu1;
     (cpu3, ok3) \<leftarrow> listen_kernel_memory connect cpu2;
     (cpu4, table) \<leftarrow> receive_segment_table cpu3;
     if ok1 \<and> ok3 then Some (r, table, km_in cpu4) else None }"

lemma load_context_answer:
  fixes pid :: u32 and km :: t_kernel_memory
  defines "ss \<equiv> filter_process_segments pid (main_memory km)"
  assumes "\<forall>s \<in> set ss. in_int (s_base s) \<and> in_int (s_size s)" "20 * int (length ss) \<le> INT_MAX"
  shows "load_context connect (cpu\<lparr>km_in := send_buffer OP_SEND_CONTEXT (registers_bytes r) @ send_segment_table km pid @ rest\<rparr>) = Some (r, ss, rest)"
proof -
  obtain table where t: "send_segment_table km pid @ rest = int_bytes OP_SEGMENT_TABLE @ table"
      "receive_packet table = Some (map segment_bytes ss, rest)"
    using send_packet_receive [of "map segment_bytes ss" OP_SEGMENT_TABLE rest] assms(3)
    by (auto simp: send_segment_table_def add_segments_eq ss_def [symmetric] length_encode_segments segment_bytes_def in_int_def INT_MAX_def)
  obtain body where b: "send_buffer OP_SEND_CONTEXT (registers_bytes r) @ send_segment_table km pid @ rest = int_bytes OP_SEND_CONTEXT @ body"
      "receive_buffer body = Some (Some (registers_bytes r), 32, send_segment_table km pid @ rest)"
    using send_buffer_receive [of "registers_bytes r" OP_SEND_CONTEXT] by (force simp: INT_MAX_def in_int_def)
  have op: "receive_op_code (int_bytes OP_SEND_CONTEXT @ x) = (OP_SEND_CONTEXT, x)" "receive_op_code (int_bytes OP_SEGMENT_TABLE @ x) = (OP_SEGMENT_TABLE, x)" for x
    by (simp_all add: receive_op_code_bytes in_int_def INT_MAX_def)
  show ?thesis unfolding load_context_def b(1)
    by (simp add: listen_kernel_memory.simps op receive_context_def b(2) t receive_segment_table_def decode_segments_bytes [OF assms(2)])
qed

text \<open>C16: A process goes on with the registers it had: after a CPU has sent the updated context, Kernel
  Memory answers any CPU that asks for the context of the process with those registers and with
  exactly its segments, both read back without loss and with the rest of the stream untouched;
  the registers of the other processes and the memory stay as they were.\<close>

theorem context_round_trip:
  fixes km :: t_kernel_memory and pid :: u32
  defines "ss \<equiv> filter_process_segments pid (main_memory km)"
  assumes "find_process (processes km) pid = Some (Some p)" "km_up cpu" "km_up cpu'"
    and "\<forall>s \<in> set ss. in_int (s_base s) \<and> in_int (s_size s)" "20 * int (length ss) \<le> INT_MAX"
  shows "\<exists>km' answer. listen_cpu km (last_message (send_updated_context cpu pid r) @ rest) = Some (km', [], rest, True)
    \<and> (\<forall>x. x \<noteq> pid \<longrightarrow> find_process (processes km') x = find_process (processes km) x) \<and> main_memory km' = main_memory km
    \<and> listen_cpu km' (last_message (request_context cpu' pid) @ rest') = Some (km', answer, rest', True)
    \<and> load_context connect (cpu'\<lparr>km_in := answer @ later\<rparr>) = Some (r, ss, later)"
proof -
  let ?km = "km\<lparr>processes := assign_registers (processes km) pid r\<rparr>"
  have find: "find_process (processes ?km) x = (if x = pid then Some (Some (p\<lparr>pr_registers := r\<rparr>)) else find_process (processes km) x)" for x
    using find_assign_registers [OF assms(2)] by simp
  have own: "find_process (processes ?km) pid = Some (Some (p\<lparr>pr_registers := r\<rparr>))" using find by simp
  have segs: "filter_process_segments pid (main_memory ?km) = ss" by (simp add: ss_def)
  have "load_context connect (cpu'\<lparr>km_in := (send_buffer OP_SEND_CONTEXT (registers_bytes r) @ send_segment_table ?km pid) @ later\<rparr>) = Some (r, ss, later)"
    using load_context_answer [where pid = pid and km = ?km and r = r and connect = connect and cpu = cpu' and rest = later] segs assms(5,6) by simp
  then show ?thesis
    using save_context [OF assms(3,2)] ask_context [OF assms(4) own, of rest'] find
    by (intro exI [of _ ?km] exI [of _ "send_buffer OP_SEND_CONTEXT (registers_bytes r) @ send_segment_table ?km pid"]) simp
qed

text \<open>Process 7 has one segment of 16 bytes, and stopped with 3 in AX and its program counter at 5.\<close>

definition demo_km :: t_kernel_memory where
  "demo_km = (init_kernel_memory_data 0 32 AS_BEST)\<lparr>processes := [init_process 4 (Some ''NOOP''), init_process 7 (Some ''EXIT'')],
     main_memory := (init_main_memory 32 AS_BEST 0)\<lparr>total_size := 16, segments := [\<lparr>s_id = 0, s_pid = 7, s_base = 0, s_size = 16\<rparr>]\<rparr>\<rparr>"

definition demo_cpu :: t_cpu where
  "demo_cpu = \<lparr>cpu_max_segment_size = 32, memory_sticks = [], km_in = [], ks_in = [], km_up = True, ks_up = True, sent = []\<rparr>"

theorem context_round_trip_witness:
  "\<exists>km' answer. listen_cpu demo_km (last_message (send_updated_context demo_cpu 7 (zero_registers\<lparr>AX := 3, PC := 5\<rparr>))) = Some (km', [], [], True)
    \<and> load_context (\<lambda>_ _. None) (demo_cpu\<lparr>km_in := answer\<rparr>) =
        Some (zero_registers\<lparr>AX := 3, PC := 5\<rparr>, [\<lparr>s_id = 0, s_pid = 7, s_base = 0, s_size = 16\<rparr>], [])"
proof -
  have "\<exists>p. find_process (processes demo_km) 7 = Some (Some p)" by (simp add: demo_km_def init_process_def)
  then obtain p where p: "find_process (processes demo_km) 7 = Some (Some p)" by blast
  have ss: "filter_process_segments 7 (main_memory demo_km) = [\<lparr>s_id = 0, s_pid = 7, s_base = 0, s_size = 16\<rparr>]"
    by (simp add: demo_km_def filter_process_segments_def)
  have "km_up demo_cpu" by (simp add: demo_cpu_def)
  moreover have "\<forall>s \<in> set (filter_process_segments 7 (main_memory demo_km)). in_int (s_base s) \<and> in_int (s_size s)"
    "20 * int (length (filter_process_segments 7 (main_memory demo_km))) \<le> INT_MAX"
    by (simp_all add: ss in_int_def INT_MAX_def)
  ultimately show ?thesis
    using context_round_trip [OF p, where cpu = demo_cpu and cpu' = demo_cpu and r = "zero_registers\<lparr>AX := 3, PC := 5\<rparr>" and rest = "[]"
        and rest' = "[]" and connect = "\<lambda>_ _. None" and later = "[]"] ss by auto
qed

subsection \<open>The program counter\<close>

lemma words_no_blank:
  "r \<in> byte_registers \<union> word_registers \<Longrightarrow> CHR '' '' \<notin> set r"
  by (auto simp: byte_registers_def word_registers_def)

lemma decode_words:
  assumes "\<forall>w \<in> set (n # ws). CHR '' '' \<notin> set w" "length ws \<le> 3"
  shows "decode_stage (string_join '' '' (n # ws)) = Some \<lparr>i_name = n, parameters = ws\<rparr>"
  using split_loop_join [of "n # ws" "CHR '' ''" "[]"] assms by (simp add: decode_stage_def string_split_def)

text \<open>C39: A jump lands where it says: \<open>JNZ\<close> with a register that is not 0 goes on at its target, and
  with a register that is 0 at the next instruction. One target is the exception: a jump to the
  instruction itself, the only way to write a wait in a single instruction, goes on at the next
  one, because the cycle takes a program counter that has not changed for one that was not set.\<close>

theorem jump_target:
  fixes ctx :: t_context
  assumes "x \<in> byte_registers \<union> word_registers" "CHR '' '' \<notin> set target" "t = to_u32 (atoi target)"
  defines "pc \<equiv> PC (registers ctx)"
  shows "\<exists>instr ctx'. decode_stage (string_join '' '' [''JNZ'', x, target]) = Some instr \<and> execute_stage cpu ctx instr pid = Some (cpu, ctx', EB_TRUE)
    \<and> PC (registers (advance_pc pc ctx')) = (if get_register (registers ctx) x \<noteq> 0 \<and> t \<noteq> pc then t else pc + 1)"
proof -
  let ?i = "\<lparr>i_name = ''JNZ'', parameters = [x, target]\<rparr>"
  have "decode_stage (string_join '' '' [''JNZ'', x, target]) = Some ?i"
    using assms(2) words_no_blank [OF assms(1)] by (intro decode_words) auto
  moreover have "execute_stage cpu ctx ?i pid = handler_jnz cpu ctx ?i pid"
    by (simp add: execute_stage_def handler_lookup handler_table_def)
  ultimately show ?thesis
    by (auto simp: handler_jnz_def param_def set_register_def advance_pc_def assms(3) pc_def)
qed

theorem jump_target_witness:
  "\<exists>instr ctx'. decode_stage ''JNZ AX 5'' = Some instr
    \<and> execute_stage demo_cpu \<lparr>registers = zero_registers\<lparr>AX := 3, PC := 5\<rparr>, segment_table = [], segment_changed = False\<rparr> instr 7 = Some (demo_cpu, ctx', EB_TRUE)
    \<and> PC (registers (advance_pc 5 ctx')) = 6"
proof -
  have "string_join '' '' [''JNZ'', ''AX'', ''5''] = ''JNZ AX 5''" by code_simp
  moreover have "''AX'' \<in> byte_registers \<union> word_registers" "CHR '' '' \<notin> set ''5''" by (simp_all add: byte_registers_def)
  moreover have "to_u32 (atoi ''5'') = 5" by code_simp
  ultimately show ?thesis
    using jump_target [where x = "''AX''" and target = "''5''" and t = 5 and ctx = "\<lparr>registers = zero_registers\<lparr>AX := 3, PC := 5\<rparr>, segment_table = [], segment_changed = False\<rparr>" and cpu = demo_cpu and pid = 7] by auto
qed

end
