(* ===== verification/Isolation.thy ===== *)
theory Isolation
  imports Context_Switch Main_Memory_Inv
begin

section \<open>Processes do not touch each other's memory\<close>

text \<open>
  What a CPU does to the bytes of the sticks while it runs an instruction of a process, against the
  segments Kernel Memory has given to all processes. Every instruction changes bytes of the
  process's own segments only, as long as \<open>COPY_MEM\<close> copies at most the four bytes it checks; with
  more it reaches the memory of others.
\<close>

subsection \<open>A CPU on the memory of Kernel Memory\<close>

definition cpu_sees :: "t_cpu \<Rightarrow> t_main_memory \<Rightarrow> bool" where
  "cpu_sees cpu m \<longleftrightarrow> cpu_sticks_ok (memory_sticks cpu) \<and> int (length (cpu_flat (memory_sticks cpu))) = total_size m"

definition own_address :: "t_main_memory \<Rightarrow> u32 \<Rightarrow> int \<Rightarrow> bool" where
  "own_address m pid a \<longleftrightarrow> (\<exists>s \<in> set (segments m). s_pid s = pid \<and> s_base s \<le> a \<and> a < s_base s + s_size s)"

definition confined :: "t_main_memory \<Rightarrow> u32 \<Rightarrow> t_cpu \<Rightarrow> t_cpu \<Rightarrow> bool" where
  "confined m pid cpu cpu' \<longleftrightarrow> cpu_sees cpu' m \<and>
     (\<forall>a. int a < total_size m \<and> cpu_flat (memory_sticks cpu') ! a \<noteq> cpu_flat (memory_sticks cpu) ! a \<longrightarrow> own_address m pid (int a))"

lemma confined_refl: "cpu_sees cpu m \<Longrightarrow> memory_sticks cpu' = memory_sticks cpu \<Longrightarrow> confined m pid cpu cpu'"
  by (simp add: confined_def cpu_sees_def)

lemma overwrite_nth:
  assumes "i + length ys \<le> length xs" "a < length xs"
  shows "overwrite i ys xs ! a = (if i \<le> a \<and> a < i + length ys then ys ! (a - i) else xs ! a)"
  using assms by (auto simp: overwrite_def nth_append min_def)

lemma send_all_sticks [simp]:
  "memory_sticks (send_all_km msgs cpu) = memory_sticks cpu" "memory_sticks (send_all_ks msgs cpu) = memory_sticks cpu"
proof -
  have "memory_sticks (foldl (\<lambda>cpu (op, s). fst (send_km (send_string op s) cpu)) cpu msgs) = memory_sticks cpu"
    by (induction msgs arbitrary: cpu) (auto simp: send_km_def split: prod.splits)
  moreover have "memory_sticks (foldl (\<lambda>cpu (op, s). fst (send_ks (send_string op s) cpu)) cpu msgs) = memory_sticks cpu"
    by (induction msgs arbitrary: cpu) (auto simp: send_ks_def split: prod.splits)
  ultimately show "memory_sticks (send_all_km msgs cpu) = memory_sticks cpu" "memory_sticks (send_all_ks msgs cpu) = memory_sticks cpu"
    by (simp_all add: send_all_km_def send_all_ks_def)
qed

lemma length_chunk: "i + n \<le> length xs \<Longrightarrow> length (chunk i n xs) = n"
  by (simp add: chunk_def)

subsection \<open>Translation\<close>

text \<open>A translated range lies in a segment of the process; otherwise the CPU gets one of the two markers.\<close>

lemma mmu_own:
  assumes "mem_wf m" "mmu mx up (filter_process_segments pid m) la sz = Some (pa, msgs)"
    and "pa \<noteq> INVALID_ADDRESS" "pa \<noteq> INVALID_ADDRESS - 1" "uint mx < 2 ^ 31" "uint sz < 2 ^ 31"
  shows "\<exists>s \<in> set (segments m). s_pid s = pid \<and> s_base s \<le> uint pa \<and> uint pa + uint sz \<le> s_base s + s_size s"
proof -
  have seg: "0 \<le> s_base s \<and> 0 < s_size s \<and> s_base s + s_size s < 2 ^ 31" if "s \<in> set (segments m)" for s
    using range_bounds [OF assms(1) segment_in_ranges [OF that]] mem_wfD(2) [OF assms(1)] by (simp add: segment_range_def)
  have "mx \<noteq> 0" using assms(2) by (auto simp: mmu_def)
  then have "0 < uint mx" using uint_ge_0 [of mx] uint_0_iff [of mx] by linarith
  then have "uint (la mod mx) < uint mx" by (simp only: uint_mod pos_mod_bound)
  then have "uint (la mod mx) + uint sz < 2 ^ 32" using assms(5,6) by simp
  from mmu_inside_segment [OF assms(2-4) this] seg
  obtain s where s: "s \<in> set (filter_process_segments pid m)" "uint pa = s_base s + uint (la mod mx)" "uint pa + uint sz \<le> s_base s + s_size s"
    by (fastforce simp: filter_process_segments_def)
  have "s_base s \<le> uint pa" using s(2) uint_ge_0 [of "la mod mx"] by linarith
  then show ?thesis using s by (auto simp: filter_process_segments_def)
qed

lemma call_mmu_own:
  assumes "mem_wf m" "call_mmu cpu ctx la 4 = Some (cpu', pa)" "segment_table ctx = filter_process_segments pid m"
    and "uint (cpu_max_segment_size cpu) < 2 ^ 31" "pa \<noteq> INVALID_ADDRESS" "pa \<noteq> INVALID_ADDRESS - 1"
  shows "\<exists>s \<in> set (segments m). s_pid s = pid \<and> s_base s \<le> uint pa \<and> uint pa + 4 \<le> s_base s + s_size s"
  using assms mmu_own [OF assms(1), of "cpu_max_segment_size cpu" "ks_up cpu" pid la 4 pa] by (auto simp: call_mmu_def)

lemma call_mmu_sticks: "call_mmu cpu ctx la sz = Some (cpu', pa) \<Longrightarrow>
    memory_sticks cpu' = memory_sticks cpu \<and> cpu_max_segment_size cpu' = cpu_max_segment_size cpu"
proof -
  have "cpu_max_segment_size (foldl (\<lambda>cpu (op, s). fst (send_ks (send_string op s) cpu)) cpu msgs) = cpu_max_segment_size cpu" for msgs
    by (induction msgs arbitrary: cpu) (auto simp: send_ks_def split: prod.splits)
  then show "call_mmu cpu ctx la sz = Some (cpu', pa) \<Longrightarrow>
      memory_sticks cpu' = memory_sticks cpu \<and> cpu_max_segment_size cpu' = cpu_max_segment_size cpu"
    by (auto simp: call_mmu_def) (simp add: send_all_ks_def)
qed

lemma call_read_sticks: "call_read cpu pa sz = Some (cpu', b) \<Longrightarrow> memory_sticks cpu' = memory_sticks cpu"
  by (auto simp: call_read_def)

subsection \<open>Writes\<close>

lemma segment_in_memory:
  assumes "mem_wf m" "s \<in> set (segments m)"
  shows "0 \<le> s_base s" "s_base s + s_size s \<le> total_size m"
  using range_bounds [OF assms(1) segment_in_ranges [OF assms(2)]] by (simp_all add: segment_range_def)

lemma call_write_confined:
  assumes "mem_wf m" "cpu_sees cpu m" "s \<in> set (segments m)" "s_pid s = pid" "s_base s \<le> uint pa"
    and "uint pa + uint sz \<le> s_base s + s_size s" "int (length data) = uint sz" "call_write cpu pa data sz = Some (cpu', ok)"
  shows "confined m pid cpu cpu' \<and> ok \<and> cpu_flat (memory_sticks cpu') = overwrite (nat (uint pa)) data (cpu_flat (memory_sticks cpu))"
proof -
  let ?ss = "memory_sticks cpu"
  have b: "0 \<le> uint pa" "uint pa + uint sz \<le> total_size m" using segment_in_memory [OF assms(1,3)] assms(6) by simp_all
  have sees: "cpu_sticks_ok ?ss" "int (length (cpu_flat ?ss)) = total_size m" using assms(2) by (simp_all add: cpu_sees_def)
  have conv: "to_u32 (uint pa) = pa" "to_u32 (uint sz) = sz" "to_u32 0 = 0" by (simp_all add: to_u32_uint) (simp add: to_u32_def)
  obtain ss' where w: "write_memory_cpu ?ss pa data sz = Some (ss', True, [])" "cpu_sticks_ok ss'"
      "cpu_flat ss' = overwrite (nat (uint pa)) data (cpu_flat ?ss)"
    using write_memory_loop_flat [OF sees(1), of "uint pa" 0 "uint sz" data] b sees(2) assms(7)
    by (auto simp: write_memory_cpu_def conv)
  then have c: "memory_sticks cpu' = ss'" "ok" using assms(8) by (auto simp: call_write_def)
  have len: "nat (uint pa) + length data \<le> length (cpu_flat ?ss)" using b sees(2) assms(7) by linarith
  have "own_address m pid (int a)" if "int a < total_size m" "cpu_flat ss' ! a \<noteq> cpu_flat ?ss ! a" for a
  proof -
    have "a < length (cpu_flat ?ss)" using that(1) sees(2) by simp
    then have "nat (uint pa) \<le> a" "a < nat (uint pa) + length data"
      using that(2) overwrite_nth [OF len] by (auto simp: w(3) split: if_splits)
    then have "uint pa \<le> int a" "int a < uint pa + int (length data)" using b(1) by linarith+
    then have "s_base s \<le> int a" "int a < s_base s + s_size s" using assms(5-7) by linarith+
    with assms(3,4) show ?thesis by (auto simp: own_address_def)
  qed
  moreover have "int (length (cpu_flat ss')) = total_size m" using len sees(2) by (simp add: w(3))
  ultimately show ?thesis using c w by (simp add: confined_def cpu_sees_def)
qed

lemma mov_out_confined:
  assumes "mem_wf m" "cpu_sees cpu m" "segment_table ctx = filter_process_segments pid m" "uint (cpu_max_segment_size cpu) < 2 ^ 31"
    and "handler_mov_out cpu ctx instr pid' = Some (cpu', ctx', r)"
  shows "confined m pid cpu cpu'"
proof -
  obtain p0 cpu1 pa where c: "param 0 instr = Some p0" "call_mmu cpu ctx (DI (registers ctx)) 4 = Some (cpu1, pa)"
    using assms(5) by (auto simp: handler_mov_out_def split: option.splits)
  note keep = call_mmu_sticks [OF c(2)]
  show ?thesis
  proof (cases "pa = INVALID_ADDRESS \<or> pa = INVALID_ADDRESS - 1")
    case True
    then have "cpu' = cpu1" using assms(5) c by (auto simp: handler_mov_out_def split: if_splits)
    then show ?thesis using keep assms(2) by (simp add: confined_refl)
  next
    case False
    then obtain ok where w: "call_write cpu1 pa (u32_bytes (get_register (registers ctx) p0)) 4 = Some (cpu', ok)"
      using assms(5) c by (auto simp: handler_mov_out_def)
    obtain s where s: "s \<in> set (segments m)" "s_pid s = pid" "s_base s \<le> uint pa" "uint pa + 4 \<le> s_base s + s_size s"
      using call_mmu_own [OF assms(1) c(2) assms(3,4)] False by blast
    have "cpu_sees cpu1 m" using assms(2) keep by (simp add: cpu_sees_def)
    from call_write_confined [OF assms(1) this s(1-3) _ _ w] s(4) keep show ?thesis by (simp add: confined_def)
  qed
qed

lemma copy_mem_confined:
  assumes "mem_wf m" "cpu_sees cpu m" "segment_table ctx = filter_process_segments pid m" "uint (cpu_max_segment_size cpu) < 2 ^ 31"
    and "handler_copy_mem cpu ctx instr pid' = Some (cpu', ctx', r)" "\<forall>p. param 0 instr = Some p \<longrightarrow> get_register (registers ctx) p \<le> 4"
  shows "confined m pid cpu cpu'"
proof -
  obtain p0 cpu1 src where c: "param 0 instr = Some p0" "call_mmu cpu ctx (SI (registers ctx)) 4 = Some (cpu1, src)"
    using assms(5) by (auto simp: handler_copy_mem_def Let_def split: option.splits)
  let ?n = "get_register (registers ctx) p0"
  have n: "uint ?n \<le> 4" using assms(6) c(1) by (simp add: word_le_def)
  note keep1 = call_mmu_sticks [OF c(2)]
  show ?thesis
  proof (cases "src = INVALID_ADDRESS \<or> src = INVALID_ADDRESS - 1")
    case True
    then have "cpu' = cpu1" using assms(5) c by (auto simp: handler_copy_mem_def Let_def split: if_splits)
    then show ?thesis using keep1 assms(2) by (simp add: confined_refl)
  next
    case src: False
    then obtain cpu2 dst where d: "call_mmu cpu1 ctx (DI (registers ctx)) 4 = Some (cpu2, dst)"
      using assms(5) c by (auto simp: handler_copy_mem_def Let_def split: option.splits)
    note keep2 = call_mmu_sticks [OF d]
    show ?thesis
    proof (cases "dst = INVALID_ADDRESS \<or> dst = INVALID_ADDRESS - 1")
      case True
      then have "cpu' = cpu2" using assms(5) c d src by (auto simp: handler_copy_mem_def Let_def split: if_splits)
      then show ?thesis using keep1 keep2 assms(2) by (simp add: confined_refl)
    next
      case False
      then obtain cpu3 b where rd: "call_read cpu2 src ?n = Some (cpu3, b)"
        using assms(5) c d src by (auto simp: handler_copy_mem_def Let_def split: option.splits)
      note keep3 = call_read_sticks [OF rd]
      have sees: "cpu_sees cpu3 m" using assms(2) keep1 keep2 keep3 by (simp add: cpu_sees_def)
      obtain t where t: "t \<in> set (segments m)" "s_base t \<le> uint src" "uint src + 4 \<le> s_base t + s_size t"
        using call_mmu_own [OF assms(1) c(2) assms(3,4)] src by blast
      obtain s where s: "s \<in> set (segments m)" "s_pid s = pid" "s_base s \<le> uint dst" "uint dst + 4 \<le> s_base s + s_size s"
        using call_mmu_own [OF assms(1) d assms(3)] assms(4) keep1 False by (metis (no_types, lifting))
      have "read_memory_cpu (memory_sticks cpu2) src ?n = Some (Some (chunk (nat (uint src)) (nat (uint ?n)) (cpu_flat (memory_sticks cpu2))), [])"
        using read_memory_loop_flat [of "memory_sticks cpu2" "uint src" 0 "uint ?n" "[]"] sees keep3 n t(3) segment_in_memory(2) [OF assms(1) t(1)]
        by (simp add: read_memory_cpu_def cpu_sees_def to_u32_uint) (simp add: to_u32_def)
      then have b: "b = Some (chunk (nat (uint src)) (nat (uint ?n)) (cpu_flat (memory_sticks cpu2)))" using rd by (auto simp: call_read_def)
      let ?d = "chunk (nat (uint src)) (nat (uint ?n)) (cpu_flat (memory_sticks cpu2))"
      have "int (length (cpu_flat (memory_sticks cpu2))) = total_size m" using sees keep3 by (simp add: cpu_sees_def)
      then have "nat (uint src) + nat (uint ?n) \<le> length (cpu_flat (memory_sticks cpu2))"
        using n t(3) segment_in_memory(2) [OF assms(1) t(1)] uint_ge_0 [of src] uint_ge_0 [of ?n] by linarith
      then have "length ?d = nat (uint ?n)" by (rule length_chunk)
      then have "int (length ?d) = uint ?n" using uint_ge_0 [of ?n] by linarith
      moreover obtain ok where w: "call_write cpu3 dst ?d ?n = Some (cpu', ok)"
        using assms(5) c d src False rd b by (auto simp: handler_copy_mem_def Let_def)
      moreover have "uint dst + uint ?n \<le> s_base s + s_size s" using s(4) n by linarith
      ultimately show ?thesis
        using call_write_confined [OF assms(1) sees s(1-3) _ _ w] keep1 keep2 keep3 by (simp add: confined_def)
    qed
  qed
qed

subsection \<open>All instructions\<close>

lemma syscall_sent_sticks: "syscall_sent b cpu ctx ctx' = Some (cpu', c, r) \<Longrightarrow> memory_sticks cpu' = memory_sticks cpu"
  by (auto simp: syscall_sent_def send_ks_def split: if_splits)

lemma other_handlers_sticks:
  assumes "run_handler h cpu ctx instr pid = Some (cpu', ctx', r)" "h \<noteq> Handler_mov_out" "h \<noteq> Handler_copy_mem"
  shows "memory_sticks cpu' = memory_sticks cpu"
proof (cases h)
  case Handler_mov_in
  then show ?thesis using assms(1)
    by (auto simp: handler_mov_in_def split: option.splits if_splits dest!: call_mmu_sticks call_read_sticks)
qed (use assms in \<open>auto simp: handler_mutex_create_def handler_mutex_lock_def handler_mutex_unlock_def handler_mem_alloc_def
      handler_mem_free_def handler_sleep_def handler_stdout_def handler_stdin_def handler_init_proc_def handler_exit_def Let_def
      bind_eq_Some_conv split: option.splits dest!: syscall_sent_sticks register_handlers_in\<close>)

text \<open>Where the translations succeed, \<open>COPY_MEM\<close> and \<open>MOV_OUT\<close> write what they say.\<close>

lemma call_write_effect:
  assumes "cpu_sticks_ok (memory_sticks cpu)" "uint pa + uint sz \<le> int (length (cpu_flat (memory_sticks cpu)))" "int (length data) = uint sz"
  shows "\<exists>cpu'. call_write cpu pa data sz = Some (cpu', True)
    \<and> cpu_flat (memory_sticks cpu') = overwrite (nat (uint pa)) data (cpu_flat (memory_sticks cpu))"
proof -
  obtain ss' where w: "write_memory_cpu (memory_sticks cpu) pa data sz = Some (ss', True, [])"
      "cpu_flat ss' = overwrite (nat (uint pa)) data (cpu_flat (memory_sticks cpu))"
    using write_memory_loop_flat [OF assms(1), of "uint pa" 0 "uint sz" data] assms(2,3)
    by (auto simp: write_memory_cpu_def to_u32_uint to_u32_def [of 0])
  then show ?thesis by (intro exI [of _ "cpu\<lparr>memory_sticks := ss'\<rparr>"]) (simp add: call_write_def send_all_km_def)
qed

lemma call_mmu_silent: "mmu (cpu_max_segment_size cpu) (ks_up cpu) (segment_table ctx) la sz = Some (pa, []) \<Longrightarrow> call_mmu cpu ctx la sz = Some (cpu, pa)"
  by (simp add: call_mmu_def send_all_ks_def)

lemma mov_out_effect:
  assumes "cpu_sticks_ok (memory_sticks cpu)" "uint pa + 4 \<le> int (length (cpu_flat (memory_sticks cpu)))"
    and "param 0 instr = Some p" "mmu (cpu_max_segment_size cpu) (ks_up cpu) (segment_table ctx) (DI (registers ctx)) 4 = Some (pa, [])"
    and "pa \<noteq> INVALID_ADDRESS" "pa \<noteq> INVALID_ADDRESS - 1"
  shows "\<exists>cpu'. handler_mov_out cpu ctx instr pid = Some (cpu', ctx, EB_TRUE)
    \<and> cpu_flat (memory_sticks cpu') = overwrite (nat (uint pa)) (u32_bytes (get_register (registers ctx) p)) (cpu_flat (memory_sticks cpu))"
  using call_write_effect [OF assms(1), of pa 4 "u32_bytes (get_register (registers ctx) p)"] assms(2-) call_mmu_silent [OF assms(4)]
  by (auto simp: handler_mov_out_def)

lemma copy_mem_effect:
  fixes n :: u32
  assumes "cpu_sticks_ok (memory_sticks cpu)" "param 0 instr = Some p" "n = get_register (registers ctx) p"
    and "mmu (cpu_max_segment_size cpu) (ks_up cpu) (segment_table ctx) (SI (registers ctx)) 4 = Some (src, [])"
    and "mmu (cpu_max_segment_size cpu) (ks_up cpu) (segment_table ctx) (DI (registers ctx)) 4 = Some (dst, [])"
    and "src \<noteq> INVALID_ADDRESS" "src \<noteq> INVALID_ADDRESS - 1" "dst \<noteq> INVALID_ADDRESS" "dst \<noteq> INVALID_ADDRESS - 1"
    and "uint src + uint n \<le> int (length (cpu_flat (memory_sticks cpu)))" "uint dst + uint n \<le> int (length (cpu_flat (memory_sticks cpu)))"
  shows "\<exists>cpu'. handler_copy_mem cpu ctx instr pid = Some (cpu', ctx, EB_TRUE)
    \<and> cpu_flat (memory_sticks cpu') =
        overwrite (nat (uint dst)) (chunk (nat (uint src)) (nat (uint n)) (cpu_flat (memory_sticks cpu))) (cpu_flat (memory_sticks cpu))"
proof -
  let ?d = "chunk (nat (uint src)) (nat (uint n)) (cpu_flat (memory_sticks cpu))"
  have "read_memory_cpu (memory_sticks cpu) src n = Some (Some ?d, [])"
    using read_memory_loop_flat [of "memory_sticks cpu" "uint src" 0 "uint n" "[]"] assms(1,10)
    by (simp add: read_memory_cpu_def to_u32_uint) (simp add: to_u32_def)
  then have "call_read cpu src n = Some (cpu, Some ?d)" by (simp add: call_read_def send_all_km_def)
  moreover have "nat (uint src) + nat (uint n) \<le> length (cpu_flat (memory_sticks cpu))" using assms(10) uint_ge_0 [of src] uint_ge_0 [of n] by linarith
  then have "length ?d = nat (uint n)" by (rule length_chunk)
  then have "int (length ?d) = uint n" using uint_ge_0 [of n] by linarith
  then obtain cpu' where "call_write cpu dst ?d n = Some (cpu', True)" "cpu_flat (memory_sticks cpu') = overwrite (nat (uint dst)) ?d (cpu_flat (memory_sticks cpu))"
    using call_write_effect [OF assms(1,11)] by blast
  ultimately show ?thesis using assms(2,3,6-9) call_mmu_silent [OF assms(4)] call_mmu_silent [OF assms(5)]
    by (simp add: handler_copy_mem_def Let_def)
qed

text \<open>C24: Processes are isolated: whatever instruction a CPU runs for a process, with whatever operands,
  the only bytes of the Memory Sticks that can change are bytes of segments of that process, also
  when the address is outside of its segments or the access fails. For \<open>COPY_MEM\<close> this holds up to
  the 4 bytes whose addresses it checks.\<close>

theorem instruction_isolation:
  assumes "mem_wf m" "cpu_sees cpu m" "segment_table ctx = filter_process_segments pid m" "uint (cpu_max_segment_size cpu) < 2 ^ 31"
    and "execute_stage cpu ctx instr pid = Some (cpu', ctx', r)"
    and "\<forall>p. i_name instr = ''COPY_MEM'' \<and> param 0 instr = Some p \<longrightarrow> get_register (registers ctx) p \<le> 4"
  shows "cpu_sees cpu' m \<and> (\<forall>a. int a < total_size m \<and> cpu_flat (memory_sticks cpu') ! a \<noteq> cpu_flat (memory_sticks cpu) ! a \<longrightarrow>
      (\<exists>s \<in> set (segments m). s_pid s = pid \<and> s_base s \<le> int a \<and> int a < s_base s + s_size s))"
proof -
  have "confined m pid cpu cpu'"
  proof (cases "map_of (rev handler_table) (i_name instr)")
    case None
    then have "cpu' = cpu" using assms(5) by (simp add: execute_stage_def handler_lookup)
    then show ?thesis using assms(2) by (simp add: confined_refl)
  next
    case (Some h)
    then have run: "run_handler h cpu ctx instr pid = Some (cpu', ctx', r)" using assms(5) by (simp add: execute_stage_def handler_lookup)
    have name: "h = Handler_copy_mem \<Longrightarrow> i_name instr = ''COPY_MEM''"
      using Some by (auto simp: handler_table_def split: if_splits)
    consider (out) "h = Handler_mov_out" | (copy) "h = Handler_copy_mem" | (other) "h \<noteq> Handler_mov_out" "h \<noteq> Handler_copy_mem" by blast
    then show ?thesis
    proof cases
      case out
      with run mov_out_confined [OF assms(1-4)] show ?thesis by simp
    next
      case copy
      with run name assms(6) show ?thesis by (intro copy_mem_confined [OF assms(1-4)]) auto
    next
      case other
      with other_handlers_sticks [OF run] assms(2) show ?thesis by (simp add: confined_refl)
    qed
  qed
  then show ?thesis by (simp add: confined_def own_address_def)
qed

text \<open>Processes 1 and 2 with a segment of 8 and one of 16 bytes in one stick of 24.\<close>

definition two_processes :: t_main_memory where
  "two_processes = (init_main_memory 32 AS_BEST 0)\<lparr>total_size := 24,
     segments := [\<lparr>s_id = 0, s_pid = 1, s_base = 0, s_size = 8\<rparr>, \<lparr>s_id = 0, s_pid = 2, s_base = 8, s_size = 16\<rparr>]\<rparr>"

definition cpu_of_two :: t_cpu where
  "cpu_of_two = demo_cpu\<lparr>memory_sticks := [\<lparr>ms_size = 24, ms_offset = 0, socket_ms = Up \<lparr>memory_delay = 0, memory = map word_of_nat [0..<24]\<rparr>\<rparr>]\<rparr>"

definition context_of_one :: "u32 \<Rightarrow> t_context" where
  "context_of_one n = \<lparr>registers = zero_registers\<lparr>EAX := n, SI := 0, DI := 4\<rparr>, segment_table = filter_process_segments 1 two_processes,
     segment_changed = False\<rparr>"

lemma two_processes_ok: "mem_wf two_processes" "cpu_sees cpu_of_two two_processes"
proof -
  show "mem_wf two_processes"
    by (auto simp: mem_wf_def two_processes_def init_main_memory_def mem_ranges_def segment_range_def coalesced_def cov_def)
  show "cpu_sees cpu_of_two two_processes"
    by (simp add: cpu_sees_def cpu_of_two_def two_processes_def cpu_sticks_ok_def sticks_ok_def stick_ok_def km_stick_def stick_bytes_def cpu_flat_def
        INT_MAX_def init_main_memory_def)
qed

lemma two_processes_flat: "cpu_flat (memory_sticks cpu_of_two) = [0, 1, 2, 3, 4, 5, 6, 7, 8, 9, 10, 11, 12, 13, 14, 15, 16, 17, 18, 19, 20, 21, 22, 23]"
  by (simp add: cpu_flat_def cpu_of_two_def km_stick_def stick_bytes_def upt_rec)

theorem instruction_isolation_witness:
  "\<exists>cpu' ctx' r. execute_stage cpu_of_two (context_of_one 9) \<lparr>i_name = ''MOV_OUT'', parameters = [''EAX'']\<rparr> 1 = Some (cpu', ctx', r)
    \<and> cpu_flat (memory_sticks cpu') ! 4 = 9 \<and> (\<forall>a < 24. 8 \<le> a \<longrightarrow> cpu_flat (memory_sticks cpu') ! a = cpu_flat (memory_sticks cpu_of_two) ! a)"
proof -
  let ?i = "\<lparr>i_name = ''MOV_OUT'', parameters = [''EAX'']\<rparr>"
  have mmu: "mmu (cpu_max_segment_size cpu_of_two) (ks_up cpu_of_two) (segment_table (context_of_one 9)) (DI (registers (context_of_one 9))) 4 = Some (4, [])"
    by code_simp
  have "get_register (registers (context_of_one 9)) ''EAX'' = 9" by (simp add: context_of_one_def get_register_def)
  moreover have "overwrite (nat (uint (4::u32))) (u32_bytes 9) [0, 1, 2, 3, 4, 5, 6, 7, 8, 9, 10, 11, 12, 13, 14, 15, 16, 17, 18, 19, 20, 21, 22, 23] ! 4 = 9" by code_simp
  ultimately obtain cpu' where w: "handler_mov_out cpu_of_two (context_of_one 9) ?i 1 = Some (cpu', context_of_one 9, EB_TRUE)" "cpu_flat (memory_sticks cpu') ! 4 = 9"
    using mov_out_effect [of cpu_of_two 4 ?i "''EAX''" "context_of_one 9" 1] two_processes_ok(2) mmu
    by (auto simp: cpu_sees_def two_processes_flat param_def)
  then have e: "execute_stage cpu_of_two (context_of_one 9) ?i 1 = Some (cpu', context_of_one 9, EB_TRUE)"
    by (simp add: execute_stage_def handler_lookup handler_table_def)
  have "segment_table (context_of_one 9) = filter_process_segments 1 two_processes" "uint (cpu_max_segment_size cpu_of_two) < 2 ^ 31"
    by (simp_all add: context_of_one_def cpu_of_two_def demo_cpu_def)
  from instruction_isolation [OF two_processes_ok this e]
  have "\<forall>a < 24. 8 \<le> a \<longrightarrow> cpu_flat (memory_sticks cpu') ! a = cpu_flat (memory_sticks cpu_of_two) ! a"
    by (fastforce simp: two_processes_def)
  with e w show ?thesis by blast
qed

lemma owner_unique:
  assumes "mem_wf m" "s \<in> set (segments m)" "t \<in> set (segments m)" "s_base s \<le> a" "a < s_base s + s_size s" "s_base t \<le> a" "a < s_base t + s_size t"
  shows "s = t"
proof -
  obtain i j where ij: "i < length (segments m)" "s = segments m ! i" "j < length (segments m)" "t = segments m ! j"
    using assms(2,3) by (auto simp: in_set_conv_nth)
  have "\<not> i < j" using segments_disjoint [OF assms(1), of i j] ij assms(4-) by auto
  moreover have "\<not> j < i" using segments_disjoint [OF assms(1), of j i] ij assms(4-) by auto
  ultimately have "i = j" by simp
  then show ?thesis using ij by simp
qed

text \<open>C32: \<open>COPY_MEM\<close> breaks the isolation: it checks four bytes at each of its two addresses and
  copies as many as the register says. Whenever both checks succeed (the segment table being Kernel
  Memory's) and both ranges lie inside the sticks, the instruction reports success, exactly the \<open>n\<close> bytes from the
  destination on become those that were at the source, and every byte of a segment of another process
  in that range, which is never one of the four bytes checked, is overwritten.\<close>

theorem copy_mem_escapes:
  fixes n src dst :: u32
  assumes mem: "mem_wf m" "cpu_sees cpu m" "segment_table ctx = filter_process_segments pid m" "uint (cpu_max_segment_size cpu) < 2 ^ 31"
    and instr: "i_name instr = ''COPY_MEM''" "param 0 instr = Some p" "n = get_register (registers ctx) p"
    and checked: "mmu (cpu_max_segment_size cpu) (ks_up cpu) (segment_table ctx) (SI (registers ctx)) 4 = Some (src, [])"
      "mmu (cpu_max_segment_size cpu) (ks_up cpu) (segment_table ctx) (DI (registers ctx)) 4 = Some (dst, [])"
      "src \<noteq> INVALID_ADDRESS" "src \<noteq> INVALID_ADDRESS - 1" "dst \<noteq> INVALID_ADDRESS" "dst \<noteq> INVALID_ADDRESS - 1"
    and inside: "uint src + uint n \<le> total_size m" "uint dst + uint n \<le> total_size m"
  shows "\<exists>cpu'. execute_stage cpu ctx instr pid = Some (cpu', ctx, EB_TRUE)
    \<and> (\<forall>a. int a < total_size m \<longrightarrow> cpu_flat (memory_sticks cpu') ! a =
          (if uint dst \<le> int a \<and> int a < uint dst + uint n
           then cpu_flat (memory_sticks cpu) ! (a + unat src - unat dst) else cpu_flat (memory_sticks cpu) ! a))
    \<and> (\<forall>t \<in> set (segments m). \<forall>x. s_pid t \<noteq> pid \<and> s_base t \<le> int x \<and> int x < s_base t + s_size t
          \<and> uint dst \<le> int x \<and> int x < uint dst + uint n \<longrightarrow>
        uint dst + 4 \<le> int x \<and> cpu_flat (memory_sticks cpu') ! x = cpu_flat (memory_sticks cpu) ! (x + unat src - unat dst))"
proof -
  let ?flat = "cpu_flat (memory_sticks cpu)"
  let ?d = "chunk (unat src) (unat n) ?flat"
  have sees: "cpu_sticks_ok (memory_sticks cpu)" "int (length ?flat) = total_size m" using mem(2) by (simp_all add: cpu_sees_def)
  have nats: "nat (uint w) = unat w" "uint w = int (unat w)" for w :: u32 by simp_all
  have len: "unat src + unat n \<le> length ?flat" "unat dst + unat n \<le> length ?flat" using inside unfolding sees(2) [symmetric] nats(2) by linarith+
  obtain cpu' where c: "handler_copy_mem cpu ctx instr pid = Some (cpu', ctx, EB_TRUE)" "cpu_flat (memory_sticks cpu') = overwrite (unat dst) ?d ?flat"
    using copy_mem_effect [OF sees(1) instr(2,3) checked, of pid] inside sees(2) by auto
  have run: "execute_stage cpu ctx instr pid = Some (cpu', ctx, EB_TRUE)"
    using c(1) instr(1) by (simp add: execute_stage_def handler_lookup handler_table_def)
  have d: "length ?d = unat n" using len(1) by (rule length_chunk)
  have byte: "cpu_flat (memory_sticks cpu') ! a = (if uint dst \<le> int a \<and> int a < uint dst + uint n then ?flat ! (a + unat src - unat dst) else ?flat ! a)"
    if "int a < total_size m" for a
  proof -
    have range: "(uint dst \<le> int a \<and> int a < uint dst + uint n) = (unat dst \<le> a \<and> a < unat dst + unat n)"
      unfolding nats(2) by linarith
    have "?d ! (a - unat dst) = ?flat ! (a + unat src - unat dst)" if "unat dst \<le> a" "a < unat dst + unat n"
      using that len(1) by (simp add: chunk_def add.commute)
    moreover have "a < length ?flat" using that sees(2) by simp
    then have "cpu_flat (memory_sticks cpu') ! a = (if unat dst \<le> a \<and> a < unat dst + unat n then ?d ! (a - unat dst) else ?flat ! a)"
      unfolding c(2) using overwrite_nth [of "unat dst" ?d ?flat a] d len(2) by simp
    ultimately show ?thesis unfolding range by simp
  qed
  obtain s where s: "s \<in> set (segments m)" "s_pid s = pid" "s_base s \<le> uint dst" "uint dst + 4 \<le> s_base s + s_size s"
    using mmu_own [OF mem(1) checked(2) [unfolded mem(3)] checked(5,6) mem(4)] by auto
  have "uint dst + 4 \<le> int x \<and> int x < total_size m"
    if t: "t \<in> set (segments m)" "s_pid t \<noteq> pid" and x: "s_base t \<le> int x" "int x < s_base t + s_size t" "uint dst \<le> int x" for t x
  proof -
    have "s \<noteq> t" using s(2) t(2) by auto
    then have "\<not> int x < s_base s + s_size s" using owner_unique [OF mem(1) s(1) t(1) _ _ x(1,2)] s(3) x(3) by linarith
    then have "uint dst + 4 \<le> int x" using s(4) by linarith
    with segment_in_memory(2) [OF mem(1) t(1)] x(2) show ?thesis by simp
  qed
  with run byte show ?thesis by fastforce
qed

text \<open>Process 1 copies 12 bytes from its address 0 to its address 4.\<close>

theorem copy_mem_escapes_witness:
  "\<exists>cpu'. execute_stage cpu_of_two (context_of_one 12) \<lparr>i_name = ''COPY_MEM'', parameters = [''EAX'']\<rparr> 1 = Some (cpu', context_of_one 12, EB_TRUE)
    \<and> cpu_flat (memory_sticks cpu_of_two) ! 8 = 8 \<and> cpu_flat (memory_sticks cpu') ! 8 = 4 \<and> cpu_flat (memory_sticks cpu') ! 15 = 11
    \<and> \<lparr>s_id = 0, s_pid = 2, s_base = 8, s_size = 16\<rparr> \<in> set (segments two_processes)"
proof -
  let ?i = "\<lparr>i_name = ''COPY_MEM'', parameters = [''EAX'']\<rparr>"
  have mmu: "mmu (cpu_max_segment_size cpu_of_two) (ks_up cpu_of_two) (segment_table (context_of_one 12)) (SI (registers (context_of_one 12))) 4 = Some (0, [])"
    "mmu (cpu_max_segment_size cpu_of_two) (ks_up cpu_of_two) (segment_table (context_of_one 12)) (DI (registers (context_of_one 12))) 4 = Some (4, [])"
    by code_simp+
  have n: "12 = get_register (registers (context_of_one 12)) ''EAX''" by (simp add: context_of_one_def get_register_def)
  have ctx: "segment_table (context_of_one 12) = filter_process_segments 1 two_processes" "uint (cpu_max_segment_size cpu_of_two) < 2 ^ 31"
    "total_size two_processes = 24"
    by (simp_all add: context_of_one_def cpu_of_two_def demo_cpu_def two_processes_def)
  obtain cpu' where c: "execute_stage cpu_of_two (context_of_one 12) ?i 1 = Some (cpu', context_of_one 12, EB_TRUE)"
    "\<forall>a. int a < 24 \<longrightarrow> cpu_flat (memory_sticks cpu') ! a = (if 4 \<le> int a \<and> int a < 16
        then cpu_flat (memory_sticks cpu_of_two) ! (a + 0 - 4) else cpu_flat (memory_sticks cpu_of_two) ! a)"
    using copy_mem_escapes [OF two_processes_ok ctx(1,2) _ _ n mmu, of ?i] ctx(3) by (auto simp: param_def)
  have "cpu_flat (memory_sticks cpu') ! 8 = 4" "cpu_flat (memory_sticks cpu') ! 15 = 11"
    using c(2) [rule_format, of 8] c(2) [rule_format, of 15] by (simp_all add: two_processes_flat)
  with c(1) show ?thesis by (auto simp: two_processes_flat two_processes_def)
qed

end
