(* ===== verification/KM_System.thy ===== *)
theory KM_System
  imports KM_Listeners Main_Memory_Inv
begin

section \<open>Kernel Memory: every request keeps the partition of memory\<close>

text \<open>
  The invariant of \<open>Main_Memory_Inv\<close> for the whole module: a handler that returns leaves a memory that is
  partitioned, for any bytes from the Kernel Scheduler, the CPUs, a new Memory Stick or the swap module,
  except create requests of size 0 and sticks that announce a size that does not fit. Suspended segments
  carry their sizes through the block table of the swap, so the table has an invariant of its own. The
  last section is about the bytes of the sticks when a create request compacts the memory.
\<close>

subsection \<open>The invariant\<close>

definition memory_ok :: "t_main_memory \<Rightarrow> bool" where
  "memory_ok m \<longleftrightarrow> mem_wf m \<and> allocation_strategy m \<noteq> AS_INVALID \<and> 0 \<le> max_segment_size m \<and> max_segment_size m < 2 ^ 31"

definition blocks_ok :: "t_swap_data \<Rightarrow> bool" where
  "blocks_ok sw \<longleftrightarrow> (\<forall>b \<in> set (block_list sw). segment_block_number b = 0 \<longrightarrow> 0 < segment_size b \<and> segment_size b < 2 ^ 31)"

definition km_inv :: "t_kernel_memory \<Rightarrow> bool" where
  "km_inv km \<longleftrightarrow> memory_ok (main_memory km) \<and> (\<forall>sw. swap_data km = Some sw \<longrightarrow> blocks_ok sw)"

lemma km_inv_update [inv_intros]:
  "km_inv km \<Longrightarrow> memory_ok m \<Longrightarrow> km_inv (km\<lparr>main_memory := m\<rparr>)"
  "km_inv km \<Longrightarrow> km_inv (km\<lparr>connected_sticks := ss\<rparr>)"
  "km_inv km \<Longrightarrow> km_inv (km\<lparr>processes := ps\<rparr>)"
  "km_inv km \<Longrightarrow> blocks_ok sw \<Longrightarrow> km_inv (km\<lparr>swap_data := Some sw\<rparr>)"
  by (simp_all add: km_inv_def)

subsection \<open>Segments\<close>

lemma memory_ok_remove [inv_intros]: "memory_ok m \<Longrightarrow> memory_ok (remove_segment sid pid m)"
  using mem_wf_remove_segment [of m sid pid]
  by (auto simp: memory_ok_def remove_segment_def find_and_remove_segment_def split: option.splits)

lemma memory_ok_remove_all [inv_intros]: "memory_ok m \<Longrightarrow> memory_ok (foldl (\<lambda>m seg. remove_segment (s_id seg) pid m) m ss)"
  by (induction ss arbitrary: m) (auto intro: memory_ok_remove)

lemma select_hole_frame:
  "select_hole sz m = (c, m') \<Longrightarrow> max_segment_size m' = max_segment_size m \<and> allocation_strategy m' = allocation_strategy m"
  by (auto simp: select_hole_def Let_def split: if_splits)

lemma create_segment_frame:
  "create_segment sid pid sz m = Some (m', msgs) \<Longrightarrow>
     max_segment_size m' = max_segment_size m \<and> allocation_strategy m' = allocation_strategy m"
  by (auto simp: create_segment_def compact_memory_def update_segment_list_def Let_def split: if_splits prod.splits option.splits
      dest!: select_hole_frame)

lemma memory_ok_create [inv_intros]:
  assumes "memory_ok m" "0 < sz" "create_segment sid pid sz m = Some (m', msgs)"
  shows "memory_ok m'"
  using create_segment_keeps [of m sz sid pid "memory_ok m'"] create_segment_frame [OF assms(3)] assms
  by (auto simp: memory_ok_def)

lemma memory_ok_add_total [inv_intros]:
  "memory_ok m \<Longrightarrow> 0 < n \<Longrightarrow> total_size m + n < 2 ^ 31 \<Longrightarrow> memory_ok (add_total_memory m n)"
  using mem_wf_add_total_memory [of m n] by (auto simp: memory_ok_def add_total_memory_def Let_def)

lemma memory_ok_regenerate [inv_intros]:
  assumes "memory_ok m" "0 < sz" "sz < 2 ^ 31" "regenerate_segment sid pid sz m = (m', ok, msgs)"
  shows "memory_ok m'"
proof (cases "\<exists>h \<in> set (holes m). sz \<le> h_size h")
  case True
  then obtain h where h: "h \<in> set (holes m)" "sz \<le> h_size h" by blast
  have wf: "mem_wf m" "allocation_strategy m \<noteq> AS_INVALID" using assms(1) by (simp_all add: memory_ok_def)
  obtain c xs ys where c: "select_hole (to_u32 sz) m = (c, m\<lparr>holes := update_hole_table (holes m) c (to_u32 sz)\<rparr>)"
    "holes m = xs @ c # ys" "sz \<le> h_size c" "h_size c \<noteq> -1" by (rule select_hole_fit [OF wf assms(2) h])
  have "m' = update_segment_list (m\<lparr>holes := update_hole_table (holes m) c (to_u32 sz)\<rparr>) c sz pid sid \<or> m' = m"
    using assms(4) c(1,4) by (auto simp: regenerate_segment_def split: if_splits)
  then show ?thesis using mem_wf_carve [OF wf(1) c(2) assms(2) c(3)] assms(1)
    by (auto simp: memory_ok_def update_segment_list_def)
next
  case False
  then have "select_hole (to_u32 sz) m = (no_hole, m)"
    using assms(1) by (intro select_hole_no_fit [OF _ _ assms(2,3)]) (auto simp: memory_ok_def not_le)
  then have "m' = m" using assms(4) by (auto simp: regenerate_segment_def no_hole_def split: if_splits)
  then show ?thesis using assms(1) by simp
qed

lemma segment_sizes:
  assumes "memory_ok m" "s \<in> set (segments m)"
  shows "0 < s_size s" "s_size s < 2 ^ 31"
proof -
  have wf: "mem_wf m" using assms(1) by (simp add: memory_ok_def)
  note b = range_bounds [OF wf segment_in_ranges [OF assms(2)]]
  from b mem_wfD(2) [OF wf] show "0 < s_size s" "s_size s < 2 ^ 31" by (auto simp: segment_range_def)
qed

subsection \<open>Suspension\<close>

lemma blocks_ok_socket [inv_intros]: "blocks_ok sw \<Longrightarrow> blocks_ok (sw\<lparr>socket_swap := l\<rparr>)"
  by (simp add: blocks_ok_def)

lemma blocks_ok_add_block:
  assumes "blocks_ok sw" "0 < s_size seg" "s_size seg < 2 ^ 31" "add_block_to_swap seg i sw = Some (sw', n)"
  shows "blocks_ok sw'"
  using assms by (auto simp: add_block_to_swap_def blocks_ok_def split: option.splits if_splits dest!: set_update_subset_insert [THEN subsetD])

lemma blocks_ok_suspend_blocks:
  assumes "suspend_blocks n i seg sticks sw = Some (sw', ok, msgs)" "blocks_ok sw" "0 < s_size seg" "s_size seg < 2 ^ 31"
  shows "blocks_ok sw'"
  using assms(1,2)
proof (induction n arbitrary: i sw ok msgs)
  case (Suc n)
  from Suc.prems(1) obtain sw1 number where add: "add_block_to_swap seg i sw = Some (sw1, number)"
    by (auto simp: Let_def split: option.splits)
  note sw1 = blocks_ok_add_block [OF Suc.prems(2) assms(3,4) add]
  show ?case
  proof (cases "number = -1")
    case True
    with Suc.prems(1) add sw1 show ?thesis by (auto simp: Let_def split: option.splits)
  next
    case False
    with Suc.prems(1) add obtain l ok1 msgs1 where
      "suspend_blocks n (i + 1) seg sticks (sw1\<lparr>socket_swap := l\<rparr>) = Some (sw', ok1, msgs1)"
      by (auto simp: Let_def split: option.splits)
    then show ?thesis by (rule Suc.IH) (rule blocks_ok_socket [OF sw1])
  qed
qed simp

lemma blocks_ok_suspend_segments:
  assumes "suspend_segments pid ss sticks sw = Some (sw', r, msgs)" "blocks_ok sw" "\<forall>s \<in> set ss. 0 < s_size s \<and> s_size s < 2 ^ 31"
  shows "blocks_ok sw'"
  using assms
  by (induction ss arbitrary: sw r msgs)
     (auto simp: suspend_segment_def split: option.splits if_splits bool.splits prod.splits dest!: blocks_ok_suspend_blocks)

lemma km_inv_suspend [inv_intros]:
  assumes "km_inv km" "suspend_process p km = Some (km', msgs)"
  shows "km_inv km'"
proof -
  have "\<forall>s \<in> set (segments (main_memory km)). 0 < s_size s \<and> s_size s < 2 ^ 31"
    using assms(1) segment_sizes by (auto simp: km_inv_def)
  note ok = blocks_ok_suspend_segments [OF _ _ this]
  from assms show ?thesis
    by (auto simp: suspend_process_def remove_process_segments_def km_inv_def memory_ok_remove_all split: option.splits dest!: ok)
qed

subsection \<open>Resumption\<close>

lemma blocks_ok_remove [inv_intros]: "blocks_ok sw \<Longrightarrow> remove_block_from_swap n sw = (sw', r) \<Longrightarrow> blocks_ok sw'"
  by (auto simp: remove_block_from_swap_def blocks_ok_def split: if_splits dest!: set_update_subset_insert [THEN subsetD])

lemma resume_block_keeps:
  assumes "resume_block b pid m sticks sw = Some (m', sticks', sw', ok, msgs)" "memory_ok m" "blocks_ok sw"
    "segment_block_number b = 0 \<longrightarrow> 0 < segment_size b \<and> segment_size b < 2 ^ 31"
  shows "memory_ok m' \<and> blocks_ok sw'"
  using assms
  by (auto simp: resume_block_def Let_def split: if_splits option.splits prod.splits
      dest: memory_ok_regenerate blocks_ok_remove [OF blocks_ok_socket] intro: blocks_ok_socket)

lemma block_list_length:
  assumes "resume_block b pid m sticks sw = Some (m', sticks', sw', ok, msgs)"
  shows "length (block_list sw') = length (block_list sw)"
  using assms by (auto simp: resume_block_def remove_block_from_swap_def Let_def split: if_splits option.splits prod.splits)

lemma resume_blocks_keeps:
  assumes "resume_blocks n k pid found m sticks sw = Some (m', sticks', sw', r, msgs)" "memory_ok m" "blocks_ok sw"
    "k + n \<le> length (block_list sw)"
  shows "memory_ok m' \<and> blocks_ok sw'"
  using assms
proof (induction n arbitrary: k found m sticks sw r msgs)
  case (Suc n)
  show ?case
  proof (cases "bd_pid (block_list sw ! k) = pid")
    case False
    with Suc show ?thesis by (auto simp: Let_def)
  next
    case True
    with Suc.prems(1) obtain m1 sticks1 sw1 ok msgs1 where
      b: "resume_block (block_list sw ! k) pid m sticks sw = Some (m1, sticks1, sw1, ok, msgs1)"
      by (auto simp: Let_def split: option.splits)
    have "block_list sw ! k \<in> set (block_list sw)" using Suc.prems(4) by simp
    then have keep: "memory_ok m1 \<and> blocks_ok sw1"
      using Suc.prems(3) by (intro resume_block_keeps [OF b Suc.prems(2,3)]) (auto simp: blocks_ok_def)
    with b True Suc.prems Suc.IH [of "Suc k" True m1 sticks1 sw1] block_list_length [OF b] show ?thesis
      by (cases ok) (auto simp: Let_def)
  qed
qed simp

lemma km_inv_resume [inv_intros]:
  assumes "km_inv km" "resume_process pid km = Some (km', msgs)"
  shows "km_inv km'"
proof (cases "swap_data km")
  case (Some sw)
  show ?thesis
  proof (cases "can_resume pid km")
    case True
    with assms(2) Some obtain m' sticks' sw' r msgs' where
      r: "resume_blocks (length (block_list sw)) 0 pid False (main_memory km) (connected_sticks km) sw = Some (m', sticks', sw', r, msgs')"
        "km' = km\<lparr>main_memory := m', connected_sticks := sticks', swap_data := Some sw'\<rparr>"
      by (auto simp: resume_process_def)
    have "memory_ok m' \<and> blocks_ok sw'" using assms(1) Some by (intro resume_blocks_keeps [OF r(1)]) (simp_all add: km_inv_def)
    then show ?thesis using r(2) by (simp add: km_inv_def)
  qed (use assms Some in \<open>simp add: resume_process_def\<close>)
qed (use assms in \<open>simp add: resume_process_def\<close>)

subsection \<open>Everything that reaches the module\<close>

text \<open>
  The bytes of one request of the Kernel Scheduler or of a CPU, and the handshakes of a Memory Stick
  and of the swap module, with the bytes that are sent back.
\<close>

datatype km_event = From_scheduler bytes | From_cpu bytes | New_stick "string option" stick_link bytes | New_swap swap_link bytes

fun km_serve :: "(string \<Rightarrow> string option) \<Rightarrow> km_event \<Rightarrow> t_kernel_memory \<Rightarrow> (t_kernel_memory \<times> bytes) option" where
  "km_serve scripts (From_scheduler b) km = map_option (\<lambda>(km', out, rest, alive). (km', out)) (listen_scheduler scripts km b)"
| "km_serve scripts (From_cpu b) km = map_option (\<lambda>(km', out, rest, alive). (km', out)) (listen_cpu km b)"
| "km_serve scripts (New_stick ip lnk b) km = map_option (\<lambda>(km', stick, ok, msgs). (km', send_messages msgs)) (register_stick ip lnk km b)"
| "km_serve scripts (New_swap lnk b) km = map_option (\<lambda>(km', rest). (km', [])) (register_swap lnk km b)"

text \<open>A segment is not created with size 0, and a stick announces a size that fits.\<close>

fun km_event_ok :: "km_event \<Rightarrow> t_kernel_memory \<Rightarrow> bool" where
  "km_event_ok (From_scheduler b) km \<longleftrightarrow>
     (case receive_op_code b of (op, body) \<Rightarrow> op = OP_CREATE_SEGMENT \<longrightarrow>
        (case receive_struct decode_syscall_memory body of None \<Rightarrow> True | Some (r, rest) \<Rightarrow> sm_size r \<noteq> 0))"
| "km_event_ok (New_stick ip lnk b) km \<longleftrightarrow>
     (case receive_int_field OP_MEMORY_SIZE (-1) b of None \<Rightarrow> True
      | Some (ok, n, rest) \<Rightarrow> ok \<longrightarrow> 0 < n \<and> total_size (main_memory km) + n < 2 ^ 31)"
| "km_event_ok _ km \<longleftrightarrow> True"

lemma handle_create_segment_inv:
  assumes "km_inv km" "handle_create_segment km body = Some (km', out, rest, alive)"
    and "case receive_struct decode_syscall_memory body of None \<Rightarrow> True | Some (r, rest) \<Rightarrow> sm_size r \<noteq> 0"
  shows "km_inv km'"
proof -
  obtain r rest' where r: "receive_struct decode_syscall_memory body = Some (r, rest')" "sm_size r \<noteq> 0"
    using assms(2,3) by (auto simp: handle_create_segment_def split: option.splits)
  show ?thesis
  proof (cases "sm_size r > to_u32 (max_segment_size (main_memory km))")
    case True
    then show ?thesis using assms(1,2) r by (simp add: handle_create_segment_def)
  next
    case False
    have max: "0 \<le> max_segment_size (main_memory km)" "max_segment_size (main_memory km) < 2 ^ 31"
      using assms(1) by (simp_all add: km_inv_def memory_ok_def)
    have "uint (sm_size r) \<le> max_segment_size (main_memory km)"
      using False max by (simp add: not_less word_le_def uint_to_u32)
    then have small: "uint (sm_size r) < 2 ^ 31" using max(2) by linarith
    have "sm_size r = to_u32 (uint (sm_size r))" by (simp add: c_conv)
    then have "to_int (sm_size r) = uint (sm_size r)" using small to_int_to_u32 [OF in_int_nonneg [OF _ small]] by (metis uint_ge_0)
    moreover have "uint (sm_size r) \<noteq> 0" using r(2) by (simp add: uint_0_iff)
    moreover have "0 \<le> uint (sm_size r)" by simp
    ultimately have pos: "0 < to_int (sm_size r)" by linarith
    from False assms(2) r(1) obtain m msgs where
      "create_segment (sm_segment_id r) (sm_pid r) (to_int (sm_size r)) (main_memory km) = Some (m, msgs)" "km' = km\<lparr>main_memory := m\<rparr>"
      by (auto simp: handle_create_segment_def split: option.splits)
    then show ?thesis using memory_ok_create [OF _ pos] assms(1) by (auto simp: km_inv_def)
  qed
qed

lemma simple_handlers_inv:
  assumes "km_inv km"
  shows "handle_new_process scripts km b = Some (km', out, rest, alive) \<Longrightarrow> km_inv km'"
    "handle_delete_segment km b = Some (km', out, rest, alive) \<Longrightarrow> km_inv km'"
    "handle_request_free_memory km b = Some (km', out, rest, alive) \<Longrightarrow> km_inv km'"
    "handle_request_process_size km b = Some (km', out, rest, alive) \<Longrightarrow> km_inv km'"
    "handle_shutdown km b = Some (km', out, rest, alive) \<Longrightarrow> km_inv km'"
    "handle_kernel_memory_running km b = Some (km', out, rest, alive) \<Longrightarrow> km_inv km'"
    "handle_unrecognized_op km b = Some (km', out, rest, alive) \<Longrightarrow> km_inv km'"
  using assms
  by (auto simp: handle_new_process_def handle_delete_segment_def handle_request_free_memory_def handle_request_process_size_def
      handle_shutdown_def handle_kernel_memory_running_def handle_unrecognized_op_def km_inv_def memory_ok_remove split: option.splits)

lemma io_handlers_inv:
  assumes "km_inv km"
  shows "handle_stdin_request km b = Some (km', out, rest, alive) \<Longrightarrow> km_inv km'"
    "handle_stdout_request km b = Some (km', out, rest, alive) \<Longrightarrow> km_inv km'"
  using assms by (auto simp: handle_stdin_request_def handle_stdout_request_def km_inv_def Let_def split: option.splits if_splits)

lemma process_handlers_inv:
  assumes "km_inv km"
  shows "handle_end_process km b = Some (km', out, rest, alive) \<Longrightarrow> km_inv km'"
    "handle_suspend_process km b = Some (km', out, rest, alive) \<Longrightarrow> km_inv km'"
    "handle_resume_suspended_process km b = Some (km', out, rest, alive) \<Longrightarrow> km_inv km'"
proof -
  assume "handle_end_process km b = Some (km', out, rest, alive)"
  then show "km_inv km'" using assms by (auto simp: handle_end_process_def km_inv_def memory_ok_remove_all split: option.splits)
next
  assume "handle_suspend_process km b = Some (km', out, rest, alive)"
  then show "km_inv km'" using km_inv_suspend [OF assms] by (auto simp: handle_suspend_process_def split: option.splits)
next
  assume "handle_resume_suspended_process km b = Some (km', out, rest, alive)"
  then show "km_inv km'" using km_inv_resume [OF assms] by (auto simp: handle_resume_suspended_process_def split: option.splits)
qed

lemmas handlers_inv = simple_handlers_inv io_handlers_inv process_handlers_inv

lemma cpu_handlers_inv:
  assumes "listen_cpu km b = Some (km', out, rest, alive)" "km_inv km"
  shows "km_inv km'"
  using assms
  by (auto simp: listen_cpu_def handle_next_instruction_def handle_request_context_def handle_updated_context_def
      handle_updated_segment_table_def handle_stick_disconnected_def km_inv_def split: option.splits if_splits prod.splits)

lemma listen_scheduler_inv:
  assumes "listen_scheduler scripts km b = Some (km', out, rest, alive)" "km_event_ok (From_scheduler b) km" "km_inv km"
  shows "km_inv km'"
proof -
  obtain op body where b: "receive_op_code b = (op, body)" by fastforce
  show ?thesis using assms b
    by (auto simp: listen_scheduler_def split: if_splits dest: handle_create_segment_inv handlers_inv [OF assms(3)])
qed

lemma register_stick_cases:
  assumes "register_stick ip lnk km b = Some (km', stick, ok, msgs)"
  shows "ok \<Longrightarrow> \<exists>rest. receive_int_field OP_MEMORY_SIZE (-1) b = Some (True, stick_size stick, rest)
      \<and> km' = km\<lparr>connected_sticks := connected_sticks km @ [stick], main_memory := add_total_memory (main_memory km) (stick_size stick)\<rparr>"
    and "\<not> ok \<Longrightarrow> km' = km\<lparr>connected_sticks := connected_sticks km @ [stick]\<rparr>"
  using assms
  by (auto simp: register_stick_def receive_stick_size_def receive_stick_listen_port_def receive_int_field_def init_stick_data_def
      resolve_stick_ip_def add_stick_connection_def receive_op_code_def socket_receive_def Let_def split: option.splits bool.splits prod.splits if_splits)

lemma handshakes_inv:
  "register_stick ip lnk km b = Some (km', stick, ok, msgs) \<Longrightarrow> km_event_ok (New_stick ip lnk b) km \<Longrightarrow> km_inv km \<Longrightarrow> km_inv km'"
  "register_swap slnk km b = Some (km'', rest) \<Longrightarrow> km_inv km \<Longrightarrow> km_inv km''"
proof -
  assume r: "register_stick ip lnk km b = Some (km', stick, ok, msgs)" "km_event_ok (New_stick ip lnk b) km" "km_inv km"
  show "km_inv km'"
  proof (cases ok)
    case True
    from register_stick_cases(1) [OF r(1) this] r(2,3) show ?thesis by (auto simp: km_inv_def memory_ok_add_total)
  next
    case False
    from register_stick_cases(2) [OF r(1) this] r(3) show ?thesis by (simp add: km_inv_def)
  qed
next
  assume "register_swap slnk km b = Some (km'', rest)" "km_inv km"
  then show "km_inv km''"
    by (auto simp: register_swap_def init_swap_data_def init_block_list_def km_inv_def blocks_ok_def free_block_data_def Let_def split: option.splits if_splits prod.splits)
qed

interpretation kernel_memory: invariant_system km_event_ok "km_serve scripts" km_inv for scripts
proof
  fix km r km' out assume "km_inv km" "km_event_ok r km" "km_serve scripts r km = Some (km', out)"
  then show "km_inv km'"
    by (cases r) (auto dest: listen_scheduler_inv cpu_handlers_inv handshakes_inv)
qed

text \<open>C17: Kernel Memory serves the bytes of the Kernel Scheduler and of the CPUs and lets Memory Sticks and swap
  modules connect, in any order. In every state it reaches by events that satisfy \<open>km_event_ok\<close> (no create request
  of size 0, every stick announces a positive size with which the total stays below \<open>2 ^ 31\<close>)
  segments and holes partition the memory, also after processes were suspended to the swap, resumed
  from it and ended. \<open>zero_size_requests\<close> in \<open>Main_Memory_Inv\<close> shows what a request of size 0 does.\<close>

theorem km_requests_keep_partition:
  assumes "st \<noteq> AS_INVALID" "0 \<le> mx" "mx < 2 ^ 31"
    and "reachable km_event_ok (km_serve scripts) (init_kernel_memory_data delay mx st) km"
  defines "m \<equiv> main_memory km"
  shows "mem_wf m \<and> compute_free_space (holes m) + used_space (segments m) = total_size m
    \<and> (\<forall>i j. i < j \<and> j < length (segments m) \<longrightarrow>
          s_base (segments m ! i) + s_size (segments m ! i) \<le> s_base (segments m ! j)
        \<or> s_base (segments m ! j) + s_size (segments m ! j) \<le> s_base (segments m ! i))"
proof -
  have "km_inv (init_kernel_memory_data delay mx st)"
    using assms(1-3) by (simp add: km_inv_def memory_ok_def init_kernel_memory_data_def mem_wf_init) (simp add: init_main_memory_def)
  then have "km_inv km" by (rule kernel_memory.reachable_inv [OF assms(4)])
  then have "mem_wf m" by (simp add: km_inv_def memory_ok_def m_def)
  then show ?thesis using free_plus_used segments_disjoint by blast
qed

text \<open>A stick of 64 bytes connects, process 1 gets segments 0 and 1, and segment 0 is deleted.\<close>

definition demo_events :: "km_event list" where
  "demo_events =
     [New_stick (Some ''10.0.0.1'') Closed (send_string OP_MEMORY_SIZE ''64'' @ send_string OP_PORT ''9000''),
      From_scheduler (send_buffer OP_CREATE_SEGMENT (encode_syscall_memory \<lparr>sm_pid = 1, sm_segment_id = 0, sm_size = 10\<rparr>)),
      From_scheduler (send_buffer OP_CREATE_SEGMENT (encode_syscall_memory \<lparr>sm_pid = 1, sm_segment_id = 1, sm_size = 20\<rparr>)),
      From_scheduler (send_buffer OP_DELETE_SEGMENT (encode_syscall_memory \<lparr>sm_pid = 1, sm_segment_id = 0, sm_size = 0\<rparr>))]"

primrec km_run :: "(string \<Rightarrow> string option) \<Rightarrow> km_event list \<Rightarrow> t_kernel_memory \<Rightarrow> t_kernel_memory option" where
  "km_run scripts [] km = Some km"
| "km_run scripts (e # es) km =
     (if km_event_ok e km then Option.bind (km_serve scripts e km) (km_run scripts es \<circ> fst) else None)"

lemma km_run_reachable:
  "km_run scripts es km = Some km' \<Longrightarrow> reachable km_event_ok (km_serve scripts) km0 km \<Longrightarrow> reachable km_event_ok (km_serve scripts) km0 km'"
  by (induction es arbitrary: km) (auto simp: bind_eq_Some_conv split: if_splits intro: reachable_step)

theorem km_requests_keep_partition_witness:
  "\<exists>km. km_run (\<lambda>_. None) demo_events (init_kernel_memory_data 0 32 AS_BEST) = Some km
     \<and> map hole_range (holes (main_memory km)) = [(30, 34), (0, 10)] \<and> compute_free_space (holes (main_memory km)) + used_space (segments (main_memory km)) = 64"
proof -
  have "map_option (\<lambda>km. (map hole_range (holes (main_memory km)), total_size (main_memory km)))
      (km_run (\<lambda>_. None) demo_events (init_kernel_memory_data 0 32 AS_BEST)) = Some ([(30, 34), (0, 10)], 64)" by code_simp
  then obtain km where km: "km_run (\<lambda>_. None) demo_events (init_kernel_memory_data 0 32 AS_BEST) = Some km"
    "map hole_range (holes (main_memory km)) = [(30, 34), (0, 10)]" "total_size (main_memory km) = 64" by auto
  have "reachable km_event_ok (km_serve (\<lambda>_. None)) (init_kernel_memory_data 0 32 AS_BEST) km"
    by (rule km_run_reachable [OF km(1) reachable_init])
  from km_requests_keep_partition [OF _ _ _ this] km show ?thesis by auto
qed

subsection \<open>Compaction\<close>

lemma slide_after_nth:
  "i < length ss \<Longrightarrow> slide_after s ss ! i = (ss ! i)\<lparr>s_base := s_base s + s_size s + used_space (take i ss)\<rparr>"
proof (induction ss arbitrary: s i)
  case (Cons t ss)
  then show ?case by (cases i) (simp_all add: Let_def add.assoc)
qed simp

lemma compact_segments_nth:
  assumes "i < length ss"
  shows "compact_segments ss ! i = (ss ! i)\<lparr>s_base := used_space (take i ss)\<rparr>"
proof (cases ss)
  case (Cons s ss')
  then show ?thesis using assms by (cases i) (simp_all add: Let_def slide_after_nth)
qed (use assms in simp)

lemma length_compact_segments: "length (compact_segments ss) = length ss"
  by (metis compact_segments_keeps(1) length_map)

text \<open>C31: Compaction moves the segments of the table and no byte of the sticks. Take any consistent state
  of Kernel Memory, a segment \<open>s\<close> with the bytes \<open>b\<close> stored in it, and any create request that fits into the free
  space but into no hole. When \<open>handle_create_segment\<close> returns, \<open>s\<close> still has its place in the segment table, its id, process and size,
  but its base is the sum of the sizes of the segments before it; the bytes are still at the old physical
  address, and what the process finds at the new one is what was there before (when the two ranges do not
  overlap).\<close>

theorem compaction_loses_data:
  assumes km: "memory_ok (main_memory km)" "sticks_ok (connected_sticks km)" "total_size (main_memory km) = int (length (flat (connected_sticks km)))"
    and s: "i < length (segments (main_memory km))" "s = segments (main_memory km) ! i"
    and stored: "0 \<le> off" "off + int (length b) \<le> s_size s" "km_write (connected_sticks km) (s_base s + off) b = Some ss"
    and request: "receive_struct decode_syscall_memory body = Some (r, rest)" "sm_size r \<noteq> 0" "sm_size r \<le> to_u32 (max_segment_size (main_memory km))"
    and compacts: "\<forall>h \<in> set (holes (main_memory km)). h_size h < uint (sm_size r)" "uint (sm_size r) \<le> compute_free_space (holes (main_memory km))"
    and create: "handle_create_segment (km\<lparr>connected_sticks := ss\<rparr>) body = Some (km', out, rest', alive)"
  shows "\<exists>s'. segments (main_memory km') ! i = s' \<and> s_id s' = s_id s \<and> s_pid s' = s_pid s \<and> s_size s' = s_size s
    \<and> s_base s' = used_space (take i (segments (main_memory km)))
    \<and> km_read (connected_sticks km') (s_base s + off) (int (length b)) = Some b
    \<and> (s_base s' + int (length b) \<le> s_base s \<longrightarrow>
        km_read (connected_sticks km') (s_base s' + off) (int (length b)) = km_read (connected_sticks km) (s_base s' + off) (int (length b)))"
proof -
  let ?m = "main_memory km" and ?n = "uint (sm_size r)" and ?flat = "flat (connected_sticks km)"
  have wf: "mem_wf ?m" "allocation_strategy ?m \<noteq> AS_INVALID" "0 \<le> max_segment_size ?m" "max_segment_size ?m < 2 ^ 31"
    using km(1) by (simp_all add: memory_ok_def)
  have n: "0 < ?n" "?n < 2 ^ 31"
    using request(2,3) wf(3,4) by (simp_all add: word_le_def uint_to_u32 uint_0_iff order.strict_iff_order)
  have size: "to_int (sm_size r) = ?n"
    using n to_int_to_u32 [of ?n] by (simp add: in_int_def INT_MAX_def to_u32_uint)
  obtain c m' where m': "create_segment (sm_segment_id r) (sm_pid r) ?n ?m = Some (m', exceeded_reply ?n ?m
        @ [(OP_COMPACTION_NEEDED, ''Memory needs to be compacted''), (OP_COMPACTION_DONE, ''Compaction finished''), allocated_reply])"
      "segments m' = compact_segments (segments ?m) @ [new_segment (sm_segment_id r) (sm_pid r) ?n c]"
    by (rule create_segment_compact [OF wf(1,2) n(1) compacts])
  have "\<not> to_u32 (max_segment_size ?m) < sm_size r" using request(3) by simp
  then have km': "main_memory km' = m'" "connected_sticks km' = ss"
    using create request(1) m'(1) by (auto simp: handle_create_segment_def size)
  let ?s' = "compact_segments (segments ?m) ! i"
  have s': "segments m' ! i = ?s'" "?s' = s\<lparr>s_base := used_space (take i (segments ?m))\<rparr>"
    using s m'(2) compact_segments_nth [OF s(1)] by (simp_all add: nth_append length_compact_segments)
  have "s \<in> set (segments ?m)" using s by simp
  from range_bounds [OF wf(1) segment_in_ranges [OF this]] have s_in: "0 \<le> s_base s" "s_base s + s_size s \<le> int (length ?flat)"
    using km(3) by (simp_all add: segment_range_def)
  then have at: "0 \<le> s_base s + off" "s_base s + off + int (length b) \<le> int (length ?flat)" using stored(1,2) by linarith+
  have old: "km_read ss (s_base s + off) (int (length b)) = Some b"
    using sticks.read_back [OF km(2) at] stored(3) by auto
  have new0: "0 \<le> used_space (take i (segments ?m))"
    using mem_wf_positive(2) [OF wf(1)] by (intro used_space_nonneg) (auto dest: in_set_takeD)
  have "km_read ss (s_base ?s' + off) (int (length b)) = km_read (connected_sticks km) (s_base ?s' + off) (int (length b))"
    if "s_base ?s' + int (length b) \<le> s_base s"
    using sticks.read_elsewhere [OF km(2) at, of "s_base ?s' + off" "int (length b)"] stored(1,3) at(2) that new0 s'(2) by auto
  then show ?thesis using s' km' old by simp
qed

definition demo_compacting :: t_kernel_memory where
  "demo_compacting = (init_kernel_memory_data 0 32 AS_BEST)\<lparr>main_memory := demo_memory, connected_sticks := demo_sticks\<rparr>"

theorem compaction_loses_data_witness:
  "\<exists>ss km' out rest' alive. km_write (connected_sticks demo_compacting) 32 [1, 2, 3, 4] = Some ss
    \<and> handle_create_segment (demo_compacting\<lparr>connected_sticks := ss\<rparr>)
        (drop 4 (send_buffer OP_CREATE_SEGMENT (encode_syscall_memory \<lparr>sm_pid = 2, sm_segment_id = 7, sm_size = 20\<rparr>)) @ send_string OP_CAN_COMPACT ''go'')
        = Some (km', out, rest', alive)
    \<and> s_base (segments (main_memory km') ! 1) = 16 \<and> km_read (connected_sticks km') 16 4 = Some [0, 0, 0, 0]"
proof -
  let ?body = "drop 4 (send_buffer OP_CREATE_SEGMENT (encode_syscall_memory \<lparr>sm_pid = 2, sm_segment_id = 7, sm_size = 20\<rparr>)) @ send_string OP_CAN_COMPACT ''go''"
  let ?r = "\<lparr>sm_pid = 2, sm_segment_id = 7, sm_size = 20\<rparr>"
  have km: "memory_ok (main_memory demo_compacting)" "sticks_ok (connected_sticks demo_compacting)"
    "total_size (main_memory demo_compacting) = int (length (flat (connected_sticks demo_compacting)))"
    using demo_memory_wf demo_sticks_ok by (simp_all add: memory_ok_def demo_compacting_def) (simp_all add: demo_memory_def)
  obtain ss where ss: "km_write (connected_sticks demo_compacting) (32 + 0) [1, 2, 3, 4] = Some ss"
    using sticks.read_back [OF km(2), of 32 "[1, 2, 3, 4]"] by (auto simp: demo_compacting_def demo_sticks_ok(2))
  have body: "receive_struct decode_syscall_memory ?body = Some (?r, send_string OP_CAN_COMPACT ''go'')" by code_simp
  have "map_option (\<lambda>(m, msgs). compaction_answer msgs (send_string OP_CAN_COMPACT ''go'')) (create_segment 7 2 20 demo_memory) = Some (Some [])" by code_simp
  moreover have "to_u32 32 < 20 \<longleftrightarrow> False" "to_int 20 = 20" by (simp_all add: to_u32_def to_int_def)
  ultimately obtain km' out rest' alive where c: "handle_create_segment (demo_compacting\<lparr>connected_sticks := ss\<rparr>) ?body = Some (km', out, rest', alive)"
    using body by (auto simp: handle_create_segment_def demo_compacting_def) (auto simp: demo_memory_def)
  have zeros: "km_read (connected_sticks demo_compacting) 16 4 = Some [0, 0, 0, 0]" by code_simp
  have seg: "1 < length (segments (main_memory demo_compacting))" "segments demo_memory ! 1 = segments (main_memory demo_compacting) ! 1"
    "s_base (segments demo_memory ! 1) = 32" "s_size (segments demo_memory ! 1) = 20" "used_space (take 1 (segments (main_memory demo_compacting))) = 16"
    by (simp_all add: demo_compacting_def demo_memory_def)
  have fits: "sm_size ?r \<noteq> 0" "sm_size ?r \<le> to_u32 (max_segment_size (main_memory demo_compacting))"
    "\<forall>h \<in> set (holes (main_memory demo_compacting)). h_size h < uint (sm_size ?r)"
    "uint (sm_size ?r) \<le> compute_free_space (holes (main_memory demo_compacting))"
    by (simp_all add: demo_compacting_def demo_memory_def compute_free_space_def to_u32_def)
  have "s_base (segments (main_memory km') ! 1) = 16 \<and> km_read (connected_sticks km') (16 + 0) 4 = km_read (connected_sticks demo_compacting) (16 + 0) 4"
    using compaction_loses_data [OF km seg(1,2) _ _ _ body fits c, of 0 "[1, 2, 3, 4]"] ss seg(3-5) by auto
  then show ?thesis using ss c zeros by auto
qed

end
