(* ===== verification/KM_Server.thy ===== *)
theory KM_Server
  imports KM_System
begin

section \<open>Kernel Memory: accepting the other modules\<close>

text \<open>
  \<open>server.c\<close>, the sending half of \<open>connections.c\<close>, \<open>error.c\<close>, the start in \<open>main.c\<close> with
  \<open>configurator.c\<close>, and what \<open>cleanup.c\<close> does before it frees. The state is that of \<open>Kernel_Memory\<close>
  with the sockets of the scheduler and of the CPUs, everything sent on them, and the number of
  listener threads. A listener runs exactly as long as its socket is not closed.
\<close>

subsection \<open>Sockets\<close>

datatype t_socket_state = Sock_open | Sock_shut | Sock_closed

record t_cpu_data =
  cd_id :: int
  socket_cpu :: t_socket_state
  cd_out :: "bytes list"

record t_km_server =
  sv_km :: t_kernel_memory
  accepting :: bool
  socket_scheduler :: "t_socket_state option"
  scheduler_out :: "bytes list"
  connected_cpus :: "t_cpu_data list"
  active_threads :: int

text \<open>Nothing arrives on a socket that was shut down.\<close>

definition arriving :: "t_socket_state \<Rightarrow> bytes \<Rightarrow> bytes" where
  "arriving st b = (if st = Sock_open then b else [])"

definition shut :: "t_socket_state \<Rightarrow> t_socket_state" where
  "shut st = (if st = Sock_open then Sock_shut else st)"

definition send_cpu_data :: "bytes \<Rightarrow> t_cpu_data \<Rightarrow> t_cpu_data" where
  "send_cpu_data b c = (if socket_cpu c = Sock_open \<and> b \<noteq> [] then c\<lparr>cd_out := cd_out c @ [b]\<rparr> else c)"

definition send_scheduler :: "bytes \<Rightarrow> t_km_server \<Rightarrow> t_km_server" where
  "send_scheduler b srv =
     (if socket_scheduler srv = Some Sock_open \<and> b \<noteq> [] then srv\<lparr>scheduler_out := scheduler_out srv @ [b]\<rparr> else srv)"

subsection \<open>Announcing sticks\<close>

text \<open>The port is printed with \<open>%u\<close> into six bytes.\<close>

definition stick_packet :: "t_stick_data \<Rightarrow> bytes" where
  "stick_packet stick =
     send_packet (packet_append
       (packet_append_string
         (packet_append_string (create_packet OP_PACKET) (ip_memory_stick stick))
         (take 5 (show_nat (unat (to_u32 (stick_port stick))))))
       (int_bytes (stick_size stick)))"

definition send_connected_sticks :: "t_stick_data list \<Rightarrow> t_cpu_data \<Rightarrow> t_cpu_data" where
  "send_connected_sticks sticks c = foldl (\<lambda>c s. send_cpu_data (stick_packet s) c) c sticks"

definition send_cpu_connection :: "t_stick_data \<Rightarrow> t_cpu_data list \<Rightarrow> t_cpu_data list" where
  "send_cpu_connection stick cpus = (if cpus = [] then [] else map (send_cpu_data (stick_packet stick)) cpus)"

subsection \<open>Connections\<close>

text \<open>An accepted socket: what its peer sends, whether it can be sent to, its address, and the link it becomes.\<close>

record t_client =
  cl_in :: bytes
  cl_open :: bool
  cl_ip :: "string option"
  cl_stick :: stick_link
  cl_swap :: swap_link

definition init_cpu_data :: "bool \<Rightarrow> t_cpu_data" where
  "init_cpu_data up = \<lparr>cd_id = -1, socket_cpu = (if up then Sock_open else Sock_shut), cd_out = []\<rparr>"

definition receive_cpu_id_km :: "t_cpu_data \<Rightarrow> bytes \<Rightarrow> (t_cpu_data \<times> bool) option" where
  "receive_cpu_id_km c stream =
     map_option (\<lambda>(ok, n, rest). (c\<lparr>cd_id := n, socket_cpu := (if ok then socket_cpu c else Sock_closed)\<rparr>, ok))
       (receive_int_field OP_ID_CPU (cd_id c) stream)"

definition add_cpu_connection :: "t_cpu_data \<Rightarrow> t_km_server \<Rightarrow> t_km_server" where
  "add_cpu_connection c srv = srv\<lparr>connected_cpus := connected_cpus srv @ [c]\<rparr>"

definition accept_scheduler :: "bytes \<Rightarrow> t_km_server \<Rightarrow> t_km_server" where
  "accept_scheduler hello srv =
     srv\<lparr>active_threads := active_threads srv + 1, socket_scheduler := Some Sock_open, scheduler_out := [hello]\<rparr>"

text \<open>The id is read first; a CPU that does not send it stays in the list with its socket closed.\<close>

definition accept_cpu :: "bytes \<Rightarrow> bytes \<Rightarrow> t_km_server \<Rightarrow> t_km_server option" where
  "accept_cpu hello stream srv =
     (case receive_cpu_id_km (send_cpu_data hello (init_cpu_data True)) stream of
        None \<Rightarrow> None
      | Some (c, init_ok) \<Rightarrow>
          (let c1 = send_cpu_data (send_buffer OP_MAX_SEGMENT_SIZE (int_bytes (max_segment_size (main_memory (sv_km srv))))) c
           in Some (if init_ok
                then (add_cpu_connection (send_connected_sticks (connected_sticks (sv_km srv)) c1) srv)
                       \<lparr>active_threads := active_threads srv + 1\<rparr>
                else add_cpu_connection c1 srv)))"

definition accept_stick :: "t_client \<Rightarrow> bytes \<Rightarrow> t_km_server \<Rightarrow> t_km_server option" where
  "accept_stick cl stream srv =
     map_option (\<lambda>(km', stick, init_ok, msgs).
         if init_ok
         then send_scheduler (send_messages msgs)
                (srv\<lparr>sv_km := km', connected_cpus := send_cpu_connection stick (connected_cpus srv)\<rparr>)
         else srv\<lparr>sv_km := km'\<rparr>)
       (register_stick (cl_ip cl) (cl_stick cl) (sv_km srv) stream)"

definition accept_swap :: "t_client \<Rightarrow> bytes \<Rightarrow> t_km_server \<Rightarrow> t_km_server option" where
  "accept_swap cl stream srv = map_option (\<lambda>(km', rest). srv\<lparr>sv_km := km'\<rparr>) (register_swap (cl_swap cl) (sv_km srv) stream)"

text \<open>
  \<open>handshake\<close>: the state and whether the server goes on accepting. \<open>None\<close> as the client is a socket
  that could not be accepted. A CPU that comes before the scheduler is sent away.
\<close>

definition handshake :: "t_km_server \<Rightarrow> t_client option \<Rightarrow> (t_km_server \<times> bool) option" where
  "handshake srv client =
     (case client of
        None \<Rightarrow> Some (srv, False)
      | Some cl \<Rightarrow>
          (case (receive_handshake (cl_in cl), send_handshake MID_KERNEL_MEMORY) of
             (Some (identifier, rest), Some hello) \<Rightarrow>
               (case identifier of
                  MID_KERNEL_SCHEDULER \<Rightarrow>
                    Some (if cl_open cl then (accept_scheduler hello srv, True) else (srv, False))
                | MID_CPU \<Rightarrow>
                    (if socket_scheduler srv = None then Some (srv, True)
                     else if \<not> cl_open cl then Some (srv, False)
                     else map_option (\<lambda>s. (s, True)) (accept_cpu hello rest srv))
                | MID_MEMORY_STICK \<Rightarrow>
                    (if \<not> cl_open cl then Some (srv, False) else map_option (\<lambda>s. (s, True)) (accept_stick cl rest srv))
                | MID_SWAP \<Rightarrow>
                    (if \<not> cl_open cl then Some (srv, False) else map_option (\<lambda>s. (s, True)) (accept_swap cl rest srv))
                | _ \<Rightarrow> Some (srv, False))
           | _ \<Rightarrow> None))"

text \<open>\<open>accept\<close> fails once the listening socket was shut down, and the loop of \<open>main\<close> ends with the first failure.\<close>

definition accept_client :: "t_km_server \<Rightarrow> t_client option \<Rightarrow> t_km_server option" where
  "accept_client srv client =
     map_option (\<lambda>(srv', alive). srv'\<lparr>accepting := alive\<rparr>) (handshake srv (if accepting srv then client else None))"

subsection \<open>Listener threads\<close>

text \<open>One round of \<open>listen_cpu\<close> of the CPU at position \<open>i\<close>, on the bytes \<open>b\<close>.\<close>

definition stick_disconnected :: "t_km_server \<Rightarrow> t_km_server" where
  "stick_disconnected srv =
     (send_scheduler (send_string (fst stick_disconnected_notice) (snd stick_disconnected_notice)) srv)
       \<lparr>socket_scheduler := map_option shut (socket_scheduler srv)\<rparr>"

definition cpu_round :: "nat \<Rightarrow> bytes \<Rightarrow> t_km_server \<Rightarrow> t_km_server option" where
  "cpu_round i b srv =
     (let c = connected_cpus srv ! i; stream = arriving (socket_cpu c) b in
      map_option (\<lambda>(km', out, rest, alive).
          (let srv1 = srv\<lparr>sv_km := km', connected_cpus := (connected_cpus srv)[i := send_cpu_data out c]\<rparr>;
               srv2 = (if fst (receive_op_code stream) = OP_STICK_DISCONNECTED then stick_disconnected srv1 else srv1)
           in if alive then srv2
              else srv2\<lparr>connected_cpus := (connected_cpus srv2)[i := (connected_cpus srv2 ! i)\<lparr>socket_cpu := Sock_closed\<rparr>],
                        active_threads := active_threads srv2 - 1\<rparr>))
        (listen_cpu (sv_km srv) stream))"

text \<open>
  One round of \<open>listen_scheduler\<close>. When it ends, \<open>free_scheduler_data\<close> closes its socket and shuts the
  listening socket down.
\<close>

definition scheduler_round :: "(string \<Rightarrow> string option) \<Rightarrow> bytes \<Rightarrow> t_km_server \<Rightarrow> t_km_server option" where
  "scheduler_round scripts b srv =
     (case socket_scheduler srv of
        None \<Rightarrow> None
      | Some st \<Rightarrow>
          map_option (\<lambda>(km', out, rest, alive).
              (let srv1 = send_scheduler out (srv\<lparr>sv_km := km'\<rparr>)
               in if alive then srv1
                  else srv1\<lparr>active_threads := active_threads srv1 - 1, socket_scheduler := Some Sock_closed, accepting := False\<rparr>))
            (listen_scheduler scripts (sv_km srv) (arriving st b)))"

subsection \<open>Start\<close>

definition get_allocation_strategy :: "t_config \<Rightarrow> t_allocation_strategy option" where
  "get_allocation_strategy config = map_option allocation_from_string (config_get_string_value config ''ALLOCATION_STRATEGY'')"

definition start_server :: "t_kernel_memory \<Rightarrow> t_km_server" where
  "start_server km =
     \<lparr>sv_km = km, accepting = True, socket_scheduler = None, scheduler_out = [], connected_cpus = [], active_threads = 0\<rparr>"

text \<open>
  \<open>main\<close> up to the accept loop; \<open>files\<close> are the files that can be opened. A configuration that cannot be
  read is \<open>NULL\<close>, which \<open>init_logger\<close> dereferences.
\<close>

definition start_kernel_memory :: "string list \<Rightarrow> (string \<Rightarrow> string option) \<Rightarrow> t_km_server option option" where
  "start_kernel_memory argv files =
     (case argv of
        [program, config_path] \<Rightarrow>
          (case config_create (files config_path) of
             None \<Rightarrow> None
           | Some config \<Rightarrow>
               (case (config_get_string_value config ''LOG_LEVEL'', config_get_int_value config ''INSTRUCTION_DELAY'',
                      config_get_int_value config ''COMPACTION_DELAY'', config_get_int_value config ''SEGMENT_MAX_SIZE'',
                      get_allocation_strategy config) of
                  (Some level, Some fetch_delay, Some delay, Some segment_max_size, Some strategy) \<Rightarrow>
                    Some (Some (start_server (init_kernel_memory_data delay segment_max_size strategy)))
                | _ \<Rightarrow> None))
      | _ \<Rightarrow> Some None)"

subsection \<open>The end\<close>

definition disconnect_all_peers :: "t_km_server \<Rightarrow> t_km_server" where
  "disconnect_all_peers srv =
     srv\<lparr>connected_cpus := map (\<lambda>c. c\<lparr>socket_cpu := shut (socket_cpu c)\<rparr>) (connected_cpus srv),
         socket_scheduler := map_option shut (socket_scheduler srv)\<rparr>"

text \<open>\<open>None\<close> while the wait is not over.\<close>

definition wait_for_listener_threads :: "t_km_server \<Rightarrow> t_km_server option" where
  "wait_for_listener_threads srv = (if active_threads srv > 0 then None else Some srv)"

end
