(* ===== verification/KM_Server_Inv.thy ===== *)
theory KM_Server_Inv
  imports KM_Server Cpu_Memory
begin

section \<open>Kernel Memory: what connecting, serving and shutting down keep\<close>

text \<open>
  The invariant of the server of \<open>KM_Server\<close>: the memory stays partitioned, the sizes of the sticks add up
  to it, every CPU that is connected was sent an announcement of each stick, in order, and the
  counter of the threads is the number of listeners. From it: the shutdown ends.
\<close>

subsection \<open>Requests do not change which sticks there are\<close>

definition stick_view :: "t_stick_data \<Rightarrow> int \<times> string \<times> int" where
  "stick_view s = (stick_size s, ip_memory_stick s, stick_port s)"

definition km_view :: "t_kernel_memory \<Rightarrow> (int \<times> string \<times> int) list \<times> int" where
  "km_view km = (map stick_view (connected_sticks km), total_size (main_memory km))"

lemma stick_packet_view: "stick_view s = stick_view t \<Longrightarrow> stick_packet s = stick_packet t"
  by (simp add: stick_view_def stick_packet_def)

lemma km_view_update [simp]:
  "km_view (km\<lparr>processes := ps\<rparr>) = km_view km" "km_view (km\<lparr>swap_data := sw\<rparr>) = km_view km"
  by (simp_all add: km_view_def)

lemma write_sticks_loop_view:
  "write_sticks_loop ss offs n buf = Some (ss', ok, msgs) \<Longrightarrow> map stick_view ss' = map stick_view ss"
proof (induction ss arbitrary: offs n buf ss' ok msgs)
  case (Cons s ss)
  have v: "stick_view (s\<lparr>socket_stick := l\<rparr>) = stick_view s" for l by (simp add: stick_view_def)
  show ?case
  proof (cases "n > 0")
    case False
    then show ?thesis using Cons.prems by auto
  next
    case True
    let ?n = "stick_chunk_size s offs n"
    obtain sent reply l where x: "stick_exchange (socket_stick s) (write_request offs (take (nat ?n) buf) ?n) = Some (sent, reply, l)"
      using Cons.prems True by (auto simp: Let_def split: option.splits)
    show ?thesis
    proof (cases sent)
      case False
      then show ?thesis using Cons.prems True x by (auto simp: Let_def v)
    next
      case sent: True
      then obtain zs ok' ms where "write_sticks_loop ss 0 (n - ?n) (drop (nat ?n) buf) = Some (zs, ok', ms)" "ss' = s\<lparr>socket_stick := l\<rparr> # zs"
        using Cons.prems True x by (auto simp: Let_def split: prod.splits)
      with Cons.IH show ?thesis by (auto simp: v)
    qed
  qed
qed auto

lemma write_to_sticks_view:
  assumes "write_to_sticks a n buf ss = Some (ss', ok, msgs)"
  shows "map stick_view ss' = map stick_view ss"
proof (cases "fst (find_stick a ss) < 0")
  case True
  then show ?thesis using assms by (auto simp: write_to_sticks_def split: prod.splits if_splits)
next
  case False
  then obtain i offs where i: "find_stick a ss = (i, offs)" "\<not> i < 0" by (cases "find_stick a ss") auto
  with assms obtain zs where "ss' = take (nat i) ss @ zs" "write_sticks_loop (drop (nat i) ss) offs n buf = Some (zs, ok, msgs)"
    by (auto simp: write_to_sticks_def)
  then have "map stick_view ss' = map stick_view (take (nat i) ss @ drop (nat i) ss)" by (simp only: write_sticks_loop_view map_append)
  then show ?thesis by simp
qed

lemma total_size_remove [simp]: "total_size (remove_segment sid pid m) = total_size m"
  by (auto simp: remove_segment_def find_and_remove_segment_def split: option.splits)

lemma total_size_remove_all [simp]: "total_size (foldl (\<lambda>m seg. remove_segment (s_id seg) pid m) m ss) = total_size m"
  by (induction ss arbitrary: m) simp_all

lemma total_size_select: "select_hole sz m = (c, m') \<Longrightarrow> total_size m' = total_size m"
  by (auto simp: select_hole_def Let_def split: if_splits)

lemma total_size_create: "create_segment sid pid sz m = Some (m', msgs) \<Longrightarrow> total_size m' = total_size m"
  by (auto simp: create_segment_def compact_memory_def update_segment_list_def Let_def split: if_splits prod.splits option.splits
      dest!: total_size_select)

lemma total_size_regenerate: "regenerate_segment sid pid sz m = (m', ok, msgs) \<Longrightarrow> total_size m' = total_size m"
  by (auto simp: regenerate_segment_def update_segment_list_def Let_def split: if_splits prod.splits dest!: total_size_select)

lemma resume_block_view:
  assumes "resume_block b pid m ss sw = Some (m', ss', sw', go, msgs)"
  shows "total_size m' = total_size m \<and> map stick_view ss' = map stick_view ss"
proof -
  obtain m1 ok msgs1 where r: "(if segment_block_number b = 0 then regenerate_segment (to_u32 (segment_number b)) pid (segment_size b) m
      else (m, True, [])) = (m1, ok, msgs1)" by (metis prod_cases3)
  then have m1: "total_size m1 = total_size m" by (auto split: if_splits dest: total_size_regenerate)
  show ?thesis using assms m1 unfolding resume_block_def r Let_def
    by (auto split: if_splits option.splits prod.splits dest!: write_to_sticks_view)
qed

lemma resume_blocks_view:
  "resume_blocks n k pid f m ss sw = Some (m', ss', sw', found, msgs) \<Longrightarrow> total_size m' = total_size m \<and> map stick_view ss' = map stick_view ss"
proof (induction n arbitrary: k f m ss sw m' ss' sw' found msgs)
  case (Suc n)
  show ?case
  proof (cases "bd_pid (block_list sw ! k) \<noteq> pid")
    case True
    then show ?thesis using Suc.prems Suc.IH by auto
  next
    case False
    with Suc.prems obtain m1 ss1 sw1 go msgs1 where b: "resume_block (block_list sw ! k) pid m ss sw = Some (m1, ss1, sw1, go, msgs1)"
      by (auto simp: Let_def split: option.splits)
    note v = resume_block_view [OF b]
    show ?thesis
    proof (cases go)
      case True
      with Suc.prems False b obtain msgs2 where "resume_blocks n (Suc k) pid True m1 ss1 sw1 = Some (m', ss', sw', found, msgs2)"
        by (auto simp: Let_def)
      from Suc.IH [OF this] v show ?thesis by simp
    next
      case False
      with Suc.prems \<open>\<not> bd_pid (block_list sw ! k) \<noteq> pid\<close> b v show ?thesis by (auto simp: Let_def)
    qed
  qed
qed auto

lemma resume_process_view: "resume_process pid km = Some (km', msgs) \<Longrightarrow> km_view km' = km_view km"
proof (cases "swap_data km = None \<or> \<not> can_resume pid km")
  case False
  then obtain sw where sw: "swap_data km = Some sw" "can_resume pid km" by auto
  assume "resume_process pid km = Some (km', msgs)"
  with sw obtain m ss sw' found ms where
    "resume_blocks (length (block_list sw)) 0 pid False (main_memory km) (connected_sticks km) sw = Some (m, ss, sw', found, ms)"
    "km' = km\<lparr>main_memory := m, connected_sticks := ss, swap_data := Some sw'\<rparr>"
    by (auto simp: resume_process_def simp del: resume_blocks.simps)
  with resume_blocks_view show ?thesis by (simp add: km_view_def del: resume_blocks.simps)
qed (auto simp: resume_process_def split: option.splits)

lemma suspend_process_view: "suspend_process p km = Some (km', msgs) \<Longrightarrow> km_view km' = km_view km"
  by (auto simp: suspend_process_def remove_process_segments_def km_view_def split: option.splits)

lemma listen_scheduler_view:
  assumes "listen_scheduler scripts km b = Some (km', out, rest, alive)"
  shows "km_view km' = km_view km"
proof -
  obtain op body where b: "receive_op_code b = (op, body)" by fastforce
  have c: "handle_create_segment km body = Some (km1, o1, r1, a1) \<Longrightarrow> km_view km1 = km_view km" for km1 o1 r1 a1
    by (auto simp: handle_create_segment_def km_view_def split: option.splits if_splits dest!: total_size_create)
  have i: "handle_stdin_request km body = Some (km1, o1, r1, a1) \<Longrightarrow> km_view km1 = km_view km" for km1 o1 r1 a1
    by (auto simp: handle_stdin_request_def km_view_def Let_def split: option.splits if_splits dest!: write_to_sticks_view)
  have o: "handle_stdout_request km body = Some (km1, o1, r1, a1) \<Longrightarrow> km_view km1 = km_view km" for km1 o1 r1 a1
    by (auto simp: handle_stdout_request_def Let_def split: option.splits if_splits)
  have p: "handle_new_process scripts km body = Some (km1, o1, r1, a1) \<Longrightarrow> km_view km1 = km_view km"
      "handle_end_process km body = Some (km1, o1, r1, a1) \<Longrightarrow> km_view km1 = km_view km"
      "handle_delete_segment km body = Some (km1, o1, r1, a1) \<Longrightarrow> km_view km1 = km_view km" for km1 o1 r1 a1
    by (auto simp: handle_new_process_def handle_end_process_def handle_delete_segment_def km_view_def split: option.splits)
  have s: "handle_suspend_process km body = Some (km1, o1, r1, a1) \<Longrightarrow> km_view km1 = km_view km"
      "handle_resume_suspended_process km body = Some (km1, o1, r1, a1) \<Longrightarrow> km_view km1 = km_view km" for km1 o1 r1 a1
    by (auto simp: handle_suspend_process_def handle_resume_suspended_process_def split: option.splits
        dest: suspend_process_view resume_process_view)
  have q: "handle_request_free_memory km body = Some (km1, o1, r1, a1) \<Longrightarrow> km_view km1 = km_view km"
      "handle_request_process_size km body = Some (km1, o1, r1, a1) \<Longrightarrow> km_view km1 = km_view km"
      "handle_shutdown km body = Some (km1, o1, r1, a1) \<Longrightarrow> km_view km1 = km_view km"
      "handle_kernel_memory_running km body = Some (km1, o1, r1, a1) \<Longrightarrow> km_view km1 = km_view km"
      "handle_unrecognized_op km body = Some (km1, o1, r1, a1) \<Longrightarrow> km_view km1 = km_view km" for km1 o1 r1 a1
    by (auto simp: handle_request_free_memory_def handle_request_process_size_def handle_shutdown_def handle_kernel_memory_running_def
        handle_unrecognized_op_def split: option.splits)
  show ?thesis using assms b
    by (auto simp: listen_scheduler_def split: if_splits dest: c i o p s q)
qed

lemma listen_cpu_view:
  assumes "listen_cpu km b = Some (km', out, rest, alive)"
  shows "km_view km' = km_view km"
  using assms
  by (auto simp: listen_cpu_def handle_next_instruction_def handle_request_context_def handle_updated_context_def
      handle_updated_segment_table_def handle_stick_disconnected_def split: option.splits if_splits prod.splits)


subsection \<open>The invariant of the server\<close>

definition announcements :: "t_cpu_data \<Rightarrow> bytes list" where
  "announcements c = filter (\<lambda>b. fst (receive_op_code b) = OP_PACKET) (cd_out c)"

definition stick_addressed :: "t_stick_data \<Rightarrow> bool" where
  "stick_addressed s \<longleftrightarrow> 0 < stick_size s \<and> stick_size s < 2 ^ 31 \<and> CHR 0x00 \<notin> set (ip_memory_stick s) \<and> length (ip_memory_stick s) < 16
     \<and> 0 \<le> stick_port s \<and> stick_port s < 2 ^ 16"

definition listeners :: "t_km_server \<Rightarrow> nat" where
  "listeners srv = length (filter (\<lambda>c. socket_cpu c \<noteq> Sock_closed) (connected_cpus srv))
     + (if socket_scheduler srv = None \<or> socket_scheduler srv = Some Sock_closed then 0 else 1)"

definition server_ok :: "t_km_server \<Rightarrow> bool" where
  "server_ok srv \<longleftrightarrow> km_inv (sv_km srv)
     \<and> (\<forall>s \<in> set (connected_sticks (sv_km srv)). stick_addressed s)
     \<and> (\<Sum>s\<leftarrow>connected_sticks (sv_km srv). stick_size s) = total_size (main_memory (sv_km srv))
     \<and> (\<forall>c \<in> set (connected_cpus srv). socket_cpu c = Sock_open \<longrightarrow> announcements c = map stick_packet (connected_sticks (sv_km srv)))
     \<and> active_threads srv = int (listeners srv)"

datatype server_event = Accept "t_client option" | Cpu_sends nat bytes | Scheduler_sends bytes

fun server_step :: "(string \<Rightarrow> string option) \<Rightarrow> server_event \<Rightarrow> t_km_server \<Rightarrow> (t_km_server \<times> unit) option" where
  "server_step scripts (Accept client) srv = map_option (\<lambda>s. (s, ())) (accept_client srv client)"
| "server_step scripts (Cpu_sends i b) srv = map_option (\<lambda>s. (s, ())) (cpu_round i b srv)"
| "server_step scripts (Scheduler_sends b) srv = map_option (\<lambda>s. (s, ())) (scheduler_round scripts b srv)"

text \<open>
  What the environment promises: one scheduler at a time, sticks that give a size, a port and an address
  and fit, no segment of size 0, and listeners run only while their socket is not closed.
\<close>

definition stick_arrives :: "t_client \<Rightarrow> bytes \<Rightarrow> t_kernel_memory \<Rightarrow> bool" where
  "stick_arrives cl rest km \<longleftrightarrow>
     (case register_stick (cl_ip cl) (cl_stick cl) km rest of
        None \<Rightarrow> True
      | Some (km', stick, ok, msgs) \<Rightarrow> ok \<and> stick_addressed stick \<and> total_size (main_memory km) + stick_size stick < 2 ^ 31)"

fun server_event_ok :: "server_event \<Rightarrow> t_km_server \<Rightarrow> bool" where
  "server_event_ok (Accept None) srv \<longleftrightarrow> True"
| "server_event_ok (Accept (Some cl)) srv \<longleftrightarrow>
     (case receive_handshake (cl_in cl) of
        Some (MID_KERNEL_SCHEDULER, rest) \<Rightarrow> socket_scheduler srv = None \<or> socket_scheduler srv = Some Sock_closed
      | Some (MID_MEMORY_STICK, rest) \<Rightarrow> stick_arrives cl rest (sv_km srv)
      | _ \<Rightarrow> True)"
| "server_event_ok (Cpu_sends i b) srv \<longleftrightarrow> i < length (connected_cpus srv) \<and> socket_cpu (connected_cpus srv ! i) \<noteq> Sock_closed"
| "server_event_ok (Scheduler_sends b) srv \<longleftrightarrow>
     (case socket_scheduler srv of
        None \<Rightarrow> False | Some st \<Rightarrow> st \<noteq> Sock_closed \<and> km_event_ok (From_scheduler (arriving st b)) (sv_km srv))"

lemma server_ok_view:
  assumes "server_ok srv" "km_view km' = km_view (sv_km srv)" "km_inv km'"
  shows "server_ok (srv\<lparr>sv_km := km'\<rparr>)"
proof -
  have v: "map stick_view (connected_sticks km') = map stick_view (connected_sticks (sv_km srv))"
      "total_size (main_memory km') = total_size (main_memory (sv_km srv))"
    using assms(2) by (simp_all add: km_view_def)
  have l: "list_all2 (\<lambda>s t. stick_view s = stick_view t) (connected_sticks km') (connected_sticks (sv_km srv))"
    using v(1) by (simp add: list_all2_conv_all_nth list_eq_iff_nth_eq)
  have p: "map stick_packet (connected_sticks km') = map stick_packet (connected_sticks (sv_km srv))"
    using l by (induction rule: list_all2_induct) (auto dest: stick_packet_view)
  have z: "(\<Sum>s\<leftarrow>connected_sticks km'. stick_size s) = (\<Sum>s\<leftarrow>connected_sticks (sv_km srv). stick_size s)"
    using l by (induction rule: list_all2_induct) (auto simp: stick_view_def)
  have e: "stick_view s = stick_view t \<Longrightarrow> stick_addressed s = stick_addressed t" for s t by (simp add: stick_view_def stick_addressed_def)
  have "(\<forall>s \<in> set (connected_sticks km'). stick_addressed s) = (\<forall>s \<in> set (connected_sticks (sv_km srv)). stick_addressed s)"
    using l by (induction rule: list_all2_induct) (auto dest: e)
  then have a: "\<forall>s \<in> set (connected_sticks km'). stick_addressed s" using assms(1) by (simp add: server_ok_def)
  show ?thesis using assms(1,3) p z v(2) a by (simp add: server_ok_def listeners_def)
qed

lemma server_ok_send_scheduler [simp]: "server_ok (send_scheduler b srv) = server_ok srv"
  by (simp add: send_scheduler_def server_ok_def listeners_def)

lemma op_code_send_string: "in_int op \<Longrightarrow> receive_op_code (send_string op s @ rest) = (op, int_bytes (int (length s) + 1) @ c_string s @ rest)"
  by (simp add: send_string_def serialize_packet_def receive_op_code_bytes)

lemma op_code_send_buffer: "in_int op \<Longrightarrow> receive_op_code (send_buffer op b @ rest) = (op, int_bytes (int (length b)) @ b @ rest)"
  by (simp add: send_buffer_def serialize_packet_def receive_op_code_bytes)

definition stick_values :: "t_stick_data \<Rightarrow> bytes list" where
  "stick_values s = [c_string (ip_memory_stick s), c_string (take 5 (show_nat (unat (to_u32 (stick_port s))))), int_bytes (stick_size s)]"

lemma stick_packet_values: "stick_packet s = send_packet (packet_appends (create_packet OP_PACKET) (stick_values s))"
  by (simp add: stick_packet_def stick_values_def packet_appends_def packet_append_string_def)

lemma op_code_stick_packet: "fst (receive_op_code (stick_packet s)) = OP_PACKET"
  using packet_op_code [of OP_PACKET "stick_values s"] by (simp add: stick_packet_values in_int_def INT_MAX_def)

lemma op_code_hello: "send_handshake mid = Some hello \<Longrightarrow> fst (receive_op_code hello) = OP_HANDSHAKE"
  using op_code_send_string [of OP_HANDSHAKE _ "[]"] by (auto simp: send_handshake_def in_int_def INT_MAX_def)

lemma add_segments_appends: "add_segments_to_packet ss p = packet_appends p (map segment_bytes ss)"
  by (simp add: add_segments_to_packet_def packet_appends_def foldl_map)

lemma listen_cpu_replies:
  assumes "listen_cpu km b = Some (km', out, rest, alive)"
  shows "out = [] \<or> fst (receive_op_code out) \<noteq> OP_PACKET"
  using assms op_code_send_string [of OP_SEND_INSTRUCTION _ "[]"] op_code_send_buffer [of OP_SEND_CONTEXT]
    packet_op_code [of OP_SEGMENT_TABLE]
  by (auto simp: listen_cpu_def handle_next_instruction_def handle_request_context_def handle_updated_context_def
      handle_updated_segment_table_def handle_stick_disconnected_def in_int_def INT_MAX_def send_segment_table_def add_segments_appends
      split: option.splits if_splits prod.splits)

lemma announcements_send [simp]:
  "announcements (send_cpu_data b c) = announcements c @ (if socket_cpu c = Sock_open \<and> fst (receive_op_code b) = OP_PACKET then [b] else [])"
  by (auto simp: announcements_def send_cpu_data_def receive_op_code_def socket_receive_def)

lemma socket_send_cpu_data [simp]: "socket_cpu (send_cpu_data b c) = socket_cpu c"
  by (simp add: send_cpu_data_def)

lemma send_connected_sticks_out:
  "socket_cpu (send_connected_sticks ss c) = socket_cpu c
   \<and> announcements (send_connected_sticks ss c) = announcements c @ (if socket_cpu c = Sock_open then map stick_packet ss else [])"
  by (induction ss arbitrary: c) (auto simp: send_connected_sticks_def op_code_stick_packet)

lemma server_ok_cpus:
  assumes "server_ok srv" "length (filter (\<lambda>c. socket_cpu c \<noteq> Sock_closed) cs) + n = length (filter (\<lambda>c. socket_cpu c \<noteq> Sock_closed) (connected_cpus srv)) + m"
    and "\<forall>c \<in> set cs. socket_cpu c = Sock_open \<longrightarrow> announcements c = map stick_packet (connected_sticks (sv_km srv))"
  shows "server_ok (srv\<lparr>connected_cpus := cs, active_threads := active_threads srv + int m - int n\<rparr>)"
proof -
  have "int (length (filter (\<lambda>c. socket_cpu c \<noteq> Sock_closed) cs)) + int n
      = int (length (filter (\<lambda>c. socket_cpu c \<noteq> Sock_closed) (connected_cpus srv))) + int m"
    using assms(2) by (metis of_nat_add)
  with assms(1,3) show ?thesis by (auto simp: server_ok_def listeners_def)
qed

lemma accept_cpu_ok:
  assumes "server_ok srv" "send_handshake MID_KERNEL_MEMORY = Some hello" "accept_cpu hello stream srv = Some srv'"
  shows "server_ok srv'"
proof -
  let ?c0 = "send_cpu_data hello (init_cpu_data True)" and ?ss = "connected_sticks (sv_km srv)"
  let ?max = "send_buffer OP_MAX_SEGMENT_SIZE (int_bytes (max_segment_size (main_memory (sv_km srv))))"
  have ann: "announcements ?c0 = []" "socket_cpu ?c0 = Sock_open"
    by (simp_all add: op_code_hello [OF assms(2)]) (simp_all add: init_cpu_data_def announcements_def)
  have max: "fst (receive_op_code ?max) = OP_MAX_SEGMENT_SIZE"
    using op_code_send_buffer [of OP_MAX_SEGMENT_SIZE _ "[]"] by (simp add: in_int_def INT_MAX_def)
  obtain c ok where c: "receive_cpu_id_km ?c0 stream = Some (c, ok)" using assms(3) by (auto simp: accept_cpu_def split: option.splits)
  have c1: "announcements c = []" "socket_cpu c = (if ok then Sock_open else Sock_closed)"
    using c ann by (auto simp: receive_cpu_id_km_def announcements_def)
  show ?thesis
  proof (cases ok)
    case True
    let ?c = "send_connected_sticks ?ss (send_cpu_data ?max c)"
    have new: "socket_cpu ?c = Sock_open" "announcements ?c = map stick_packet ?ss"
      using send_connected_sticks_out [of ?ss "send_cpu_data ?max c"] c1 True max by simp_all
    have "server_ok (srv\<lparr>connected_cpus := connected_cpus srv @ [?c], active_threads := active_threads srv + int 1 - int 0\<rparr>)"
      using assms(1) new by (intro server_ok_cpus [OF assms(1)]) (auto simp: server_ok_def)
    with assms(3) c True show ?thesis by (simp add: accept_cpu_def add_cpu_connection_def)
  next
    case False
    have "server_ok (srv\<lparr>connected_cpus := connected_cpus srv @ [send_cpu_data ?max c], active_threads := active_threads srv + int 0 - int 0\<rparr>)"
      using assms(1) c1 False by (intro server_ok_cpus [OF assms(1)]) (auto simp: server_ok_def)
    moreover have "srv' = srv\<lparr>connected_cpus := connected_cpus srv @ [send_cpu_data ?max c], active_threads := active_threads srv + int 0 - int 0\<rparr>"
      using assms(3) c False by (auto simp: accept_cpu_def add_cpu_connection_def Let_def)
    ultimately show ?thesis by simp
  qed
qed

lemma register_stick_total:
  assumes "register_stick ip lnk km b = Some (km', stick, True, msgs)" 
  shows "connected_sticks km' = connected_sticks km @ [stick]" "total_size (main_memory km') = total_size (main_memory km) + stick_size stick"
  using register_stick_cases(1) [OF assms] by (auto simp: add_total_memory_def Let_def)

lemma accept_stick_ok:
  assumes "server_ok srv" "stick_arrives cl b (sv_km srv)" "accept_stick cl b srv = Some srv'"
  shows "server_ok srv'"
proof -
  obtain km' stick ok msgs where r: "register_stick (cl_ip cl) (cl_stick cl) (sv_km srv) b = Some (km', stick, ok, msgs)"
    using assms(3) by (auto simp: accept_stick_def)
  with assms(2) have ok: "ok" "stick_addressed stick" "total_size (main_memory (sv_km srv)) + stick_size stick < 2 ^ 31"
    by (simp_all add: stick_arrives_def)
  from r ok(1) have r': "register_stick (cl_ip cl) (cl_stick cl) (sv_km srv) b = Some (km', stick, True, msgs)" by simp
  have inv: "km_inv (sv_km srv)" using assms(1) by (simp add: server_ok_def)
  have ev: "km_event_ok (New_stick (cl_ip cl) (cl_stick cl) b) (sv_km srv)"
    using register_stick_cases(1) [OF r'] ok by (auto simp: stick_addressed_def)
  let ?cs = "send_cpu_connection stick (connected_cpus srv)"
  let ?s = "srv\<lparr>sv_km := km', connected_cpus := ?cs\<rparr>"
  have cs: "?cs = map (send_cpu_data (stick_packet stick)) (connected_cpus srv)" by (simp add: send_cpu_connection_def)
  have n: "length (filter (\<lambda>c. socket_cpu c \<noteq> Sock_closed) ?cs) = length (filter (\<lambda>c. socket_cpu c \<noteq> Sock_closed) (connected_cpus srv))"
    by (simp add: cs filter_map comp_def)
  have "announcements c = map stick_packet (connected_sticks km')" if "c \<in> set ?cs" "socket_cpu c = Sock_open" for c
    using that assms(1) register_stick_total(1) [OF r'] by (auto simp: cs server_ok_def op_code_stick_packet)
  then have "server_ok ?s"
    using assms(1) n ok(2) register_stick_total [OF r'] handshakes_inv(1) [OF r ev inv] by (auto simp: server_ok_def listeners_def)
  moreover have "srv' = send_scheduler (send_messages msgs) ?s" using assms(3) r ok(1) by (simp add: accept_stick_def)
  ultimately show ?thesis by simp
qed

lemma accept_swap_ok:
  assumes "server_ok srv" "accept_swap cl b srv = Some srv'"
  shows "server_ok srv'"
proof -
  obtain km' rest where r: "register_swap (cl_swap cl) (sv_km srv) b = Some (km', rest)" "srv' = srv\<lparr>sv_km := km'\<rparr>"
    using assms(2) by (auto simp: accept_swap_def)
  then have "km_view km' = km_view (sv_km srv)" by (auto simp: register_swap_def)
  moreover have "km_inv km'" using handshakes_inv(2) [OF r(1)] assms(1) by (simp add: server_ok_def)
  ultimately show ?thesis using server_ok_view [OF assms(1)] r(2) by simp
qed

lemma accept_client_ok:
  assumes "server_ok srv" "server_event_ok (Accept client) srv" "accept_client srv client = Some srv'"
  shows "server_ok srv'"
proof -
  obtain s alive where s: "handshake srv (if accepting srv then client else None) = Some (s, alive)" "srv' = s\<lparr>accepting := alive\<rparr>"
    using assms(3) by (auto simp: accept_client_def)
  have "server_ok s"
  proof (cases "if accepting srv then client else None")
    case None
    with s(1) assms(1) show ?thesis by (simp add: handshake_def)
  next
    case (Some cl)
    then have ev: "server_event_ok (Accept (Some cl)) srv" using assms(2) by (auto split: if_splits)
    from s(1) Some obtain mid rest hello where h: "receive_handshake (cl_in cl) = Some (mid, rest)" "send_handshake MID_KERNEL_MEMORY = Some hello"
      by (auto simp: handshake_def split: option.splits)
    have sched: "server_ok (accept_scheduler hello srv)" if "mid = MID_KERNEL_SCHEDULER"
      using assms(1) ev h(1) that by (auto simp: accept_scheduler_def server_ok_def listeners_def)
    show ?thesis
      using s(1) Some h ev assms(1) sched
      by (cases mid) (auto simp: handshake_def split: if_splits dest: accept_cpu_ok accept_stick_ok accept_swap_ok)
  qed
  then show ?thesis using s(2) by (simp add: server_ok_def listeners_def)
qed

lemma count_update:
  assumes "i < length cs" "P (cs ! i)"
  shows "length (filter P (cs[i := x])) + (if P x then 0 else 1) = length (filter P cs)"
proof -
  let ?p = "take i cs" and ?q = "drop (Suc i) cs"
  have "length (filter P cs) = length (filter P (?p @ cs ! i # ?q))" by (simp only: take_append_nth_drop [OF assms(1)])
  moreover have "length (filter P (cs[i := x])) = length (filter P (?p @ x # ?q))" by (simp only: upd_conv_take_nth_drop [OF assms(1)])
  ultimately show ?thesis using assms(2) by simp
qed

lemma update_cpu_ok:
  assumes "server_ok srv" "i < length (connected_cpus srv)" "socket_cpu (connected_cpus srv ! i) \<noteq> Sock_closed"
    and "socket_cpu x = Sock_open \<Longrightarrow> announcements x = announcements (connected_cpus srv ! i) \<and> socket_cpu (connected_cpus srv ! i) = Sock_open"
    and n: "n = (if socket_cpu x = Sock_closed then 1 else 0)"
  shows "server_ok (srv\<lparr>connected_cpus := (connected_cpus srv)[i := x], active_threads := active_threads srv - int n\<rparr>)"
proof -
  have "\<forall>c \<in> set ((connected_cpus srv)[i := x]). socket_cpu c = Sock_open \<longrightarrow> announcements c = map stick_packet (connected_sticks (sv_km srv))"
    using assms(1,4) nth_mem [OF assms(2)] by (auto simp: server_ok_def dest!: set_update_subset_insert [THEN subsetD])
  moreover have "length (filter (\<lambda>c. socket_cpu c \<noteq> Sock_closed) ((connected_cpus srv)[i := x])) + n
      = length (filter (\<lambda>c. socket_cpu c \<noteq> Sock_closed) (connected_cpus srv)) + 0"
    using count_update [OF assms(2), of "\<lambda>c. socket_cpu c \<noteq> Sock_closed" x] assms(3) by (simp add: n split: if_splits)
  ultimately show ?thesis using server_ok_cpus [OF assms(1), of "(connected_cpus srv)[i := x]" n 0] by simp
qed

lemma cpu_round_ok:
  assumes "server_ok srv" "server_event_ok (Cpu_sends i b) srv" "cpu_round i b srv = Some srv'"
  shows "server_ok srv'"
proof -
  let ?c = "connected_cpus srv ! i"
  let ?b = "arriving (socket_cpu ?c) b"
  have i: "i < length (connected_cpus srv)" "socket_cpu ?c \<noteq> Sock_closed" using assms(2) by simp_all
  obtain km' out rest alive where l: "listen_cpu (sv_km srv) ?b = Some (km', out, rest, alive)"
    using assms(3) by (auto simp: cpu_round_def Let_def)
  let ?x = "send_cpu_data out ?c" and ?s0 = "srv\<lparr>sv_km := km'\<rparr>"
  let ?s1 = "srv\<lparr>sv_km := km', connected_cpus := (connected_cpus srv)[i := ?x]\<rparr>"
  have s0: "server_ok ?s0"
    using server_ok_view [OF assms(1) listen_cpu_view [OF l]] cpu_handlers_inv [OF l] assms(1) by (simp add: server_ok_def)
  have same: "fst (receive_op_code out) \<noteq> OP_PACKET" using listen_cpu_replies [OF l] by (auto simp: receive_op_code_def socket_receive_def)
  have "server_ok (?s0\<lparr>connected_cpus := (connected_cpus ?s0)[i := ?x], active_threads := active_threads ?s0 - int 0\<rparr>)"
    using i by (intro update_cpu_ok [OF s0]) (simp_all add: same)
  moreover have "?s0\<lparr>connected_cpus := (connected_cpus ?s0)[i := ?x], active_threads := active_threads ?s0 - int 0\<rparr> = ?s1" by simp
  ultimately have s1: "server_ok ?s1" by (simp only:)
  define s2 where "s2 = (if fst (receive_op_code ?b) = OP_STICK_DISCONNECTED then stick_disconnected ?s1 else ?s1)"
  have sd: "server_ok (stick_disconnected s)" if "server_ok s" for s
    using that by (cases "socket_scheduler s") (auto simp: stick_disconnected_def server_ok_def listeners_def shut_def send_scheduler_def)
  have s2: "server_ok s2" by (simp only: s2_def s1 sd [OF s1] simp_thms split: if_split)
  have c2: "connected_cpus s2 = (connected_cpus srv)[i := ?x]" by (simp add: s2_def stick_disconnected_def send_scheduler_def)
  have e: "srv' = (if alive then s2 else s2\<lparr>connected_cpus := (connected_cpus s2)[i := (connected_cpus s2 ! i)\<lparr>socket_cpu := Sock_closed\<rparr>],
      active_threads := active_threads s2 - int 1\<rparr>)"
    using assms(3) unfolding cpu_round_def Let_def l s2_def option.map prod.case option.inject of_nat_1 by (rule sym)
  have "server_ok (s2\<lparr>connected_cpus := (connected_cpus s2)[i := (connected_cpus s2 ! i)\<lparr>socket_cpu := Sock_closed\<rparr>],
      active_threads := active_threads s2 - int 1\<rparr>)"
    using i by (intro update_cpu_ok [OF s2]) (simp_all add: c2)
  with e s2 show ?thesis by (simp only: simp_thms split: if_split)
qed

lemma scheduler_round_ok:
  assumes "server_ok srv" "server_event_ok (Scheduler_sends b) srv" "scheduler_round scripts b srv = Some srv'"
  shows "server_ok srv'"
proof -
  obtain st km' out rest alive where st: "socket_scheduler srv = Some st" "st \<noteq> Sock_closed" "km_event_ok (From_scheduler (arriving st b)) (sv_km srv)"
      and l: "listen_scheduler scripts (sv_km srv) (arriving st b) = Some (km', out, rest, alive)"
    using assms(2,3) by (auto simp: scheduler_round_def simp del: km_event_ok.simps split: option.splits)
  let ?s = "send_scheduler out (srv\<lparr>sv_km := km'\<rparr>)"
  have "km_inv km'" using listen_scheduler_inv [OF l st(3)] assms(1) by (simp add: server_ok_def)
  then have s: "server_ok ?s" using server_ok_view [OF assms(1) listen_scheduler_view [OF l]] by simp
  have "socket_scheduler ?s = Some st" using st(1) by (simp add: send_scheduler_def)
  with s st(2) have "server_ok (?s\<lparr>active_threads := active_threads ?s - 1, socket_scheduler := Some Sock_closed, accepting := False\<rparr>)"
    by (simp add: server_ok_def listeners_def)
  with assms(3) st(1) l s show ?thesis by (auto simp: scheduler_round_def Let_def split: if_splits)
qed

interpretation server: invariant_system server_event_ok "server_step scripts" server_ok for scripts
proof
  fix srv e srv' u assume "server_ok srv" "server_event_ok e srv" "server_step scripts e srv = Some (srv', u)"
  then show "server_ok srv'"
    by (cases e) (auto dest: accept_client_ok cpu_round_ok scheduler_round_ok)
qed

lemma server_ok_init:
  assumes "st \<noteq> AS_INVALID" "0 \<le> mx" "mx < 2 ^ 31"
  shows "server_ok (start_server (init_kernel_memory_data delay mx st))"
proof -
  have "km_inv (init_kernel_memory_data delay mx st)"
    using assms by (simp add: km_inv_def memory_ok_def init_kernel_memory_data_def mem_wf_init) (simp add: init_main_memory_def)
  then show ?thesis
    by (simp add: server_ok_def start_server_def listeners_def init_kernel_memory_data_def) (simp add: init_main_memory_def)
qed

subsection \<open>A run\<close>

text \<open>The scheduler, a CPU and a stick of 64 bytes connect.\<close>

definition demo_client :: "t_module_id \<Rightarrow> bytes \<Rightarrow> t_client" where
  "demo_client mid b = \<lparr>cl_in = (case send_handshake mid of Some hs \<Rightarrow> hs @ b | None \<Rightarrow> b), cl_open = True, cl_ip = Some ''10.0.0.1'',
     cl_stick = Closed, cl_swap = Swap_down\<rparr>"

definition demo_connections :: "server_event list" where
  "demo_connections =
     [Accept (Some (demo_client MID_KERNEL_SCHEDULER [])), Accept (Some (demo_client MID_CPU (send_string OP_ID_CPU ''1''))),
      Accept (Some (demo_client MID_MEMORY_STICK (send_string OP_MEMORY_SIZE ''64'' @ send_string OP_PORT ''9000'')))]"

primrec server_run :: "(string \<Rightarrow> string option) \<Rightarrow> server_event list \<Rightarrow> t_km_server \<Rightarrow> t_km_server option" where
  "server_run scripts [] srv = Some srv"
| "server_run scripts (e # es) srv =
     (if server_event_ok e srv then Option.bind (server_step scripts e srv) (server_run scripts es \<circ> fst) else None)"

lemma server_run_reachable:
  "server_run scripts es srv = Some srv' \<Longrightarrow> reachable server_event_ok (server_step scripts) srv0 srv
    \<Longrightarrow> reachable server_event_ok (server_step scripts) srv0 srv'"
  by (induction es arbitrary: srv) (auto simp: bind_eq_Some_conv split: if_splits intro: reachable_step)

lemma receive_int_field_send:
  assumes "in_int op" "CHR 0x00 \<notin> set s" "int (length s) < INT_MAX"
  shows "receive_int_field op prev (send_string op s @ rest) = Some (True, atoi s, rest)"
  using receive_string_send [OF assms(3,1)] string_of_c_string [OF assms(2)] by (simp add: receive_int_field_def)

lemma demo_fields:
  "receive_int_field OP_ID_CPU prev (send_string OP_ID_CPU ''1'' @ rest) = Some (True, 1, rest)"
  "receive_int_field OP_MEMORY_SIZE prev (send_string OP_MEMORY_SIZE ''64'' @ rest) = Some (True, 64, rest)"
  "receive_int_field OP_PORT prev (send_string OP_PORT ''9000'' @ rest) = Some (True, 9000, rest)"
proof -
  have "atoi ''1'' = 1" "atoi ''64'' = 64" "atoi ''9000'' = 9000" by code_simp+
  then show "receive_int_field OP_ID_CPU prev (send_string OP_ID_CPU ''1'' @ rest) = Some (True, 1, rest)"
    "receive_int_field OP_MEMORY_SIZE prev (send_string OP_MEMORY_SIZE ''64'' @ rest) = Some (True, 64, rest)"
    "receive_int_field OP_PORT prev (send_string OP_PORT ''9000'' @ rest) = Some (True, 9000, rest)"
    by (simp_all add: receive_int_field_send in_int_def INT_MAX_def)
qed

lemma demo_client_in: "mid \<noteq> MID_MODULE_ID_ERROR \<Longrightarrow> receive_handshake (cl_in (demo_client mid b)) = Some (mid, b)"
proof -
  assume "mid \<noteq> MID_MODULE_ID_ERROR"
  then have "\<exists>hs. send_handshake mid = Some hs" by (cases mid) (simp_all add: send_handshake_def HANDSHAKE_MSG_def)
  then show ?thesis using receive_handshake_send [of mid _ b] by (auto simp: demo_client_def)
qed

lemma demo_server_run: "\<exists>srv. server_run (\<lambda>_. None) demo_connections (start_server (init_kernel_memory_data 0 32 AS_BEST)) = Some srv
  \<and> map stick_view (connected_sticks (sv_km srv)) = [(64, ''10.0.0.1'', 9000)] \<and> (\<exists>c. connected_cpus srv = [c] \<and> socket_cpu c = Sock_open \<and> socket_scheduler srv = Some Sock_open)"
proof -
  obtain hello where h: "send_handshake MID_KERNEL_MEMORY = Some hello" by (simp add: send_handshake_def HANDSHAKE_MSG_def)
  have sel: "cl_open (demo_client mid b)" "cl_ip (demo_client mid b) = Some ''10.0.0.1''" "cl_stick (demo_client mid b) = Closed" for mid b
    by (simp_all add: demo_client_def)
  note fields = demo_fields [where rest = "[]", simplified] demo_fields
  show ?thesis
    by (simp add: demo_connections_def accept_client_def handshake_def demo_client_in h start_server_def accept_scheduler_def
        accept_cpu_def receive_cpu_id_km_def fields add_cpu_connection_def sel init_kernel_memory_data_def stick_arrives_def
        register_stick_def receive_stick_size_def receive_stick_listen_port_def init_stick_data_def resolve_stick_ip_def add_stick_connection_def
        stick_addressed_def accept_stick_def send_connected_sticks_def send_cpu_connection_def stick_view_def send_scheduler_def init_cpu_data_def
        init_main_memory_def Let_def)
qed

subsection \<open>The end of the module\<close>

text \<open>
  \<open>free_kernel_memory_data\<close> shuts the sockets of the CPUs and of the scheduler down and waits for the
  listener threads. From then on the listeners have their rounds, in any order.
\<close>

fun is_round :: "server_event \<Rightarrow> bool" where
  "is_round (Accept client) \<longleftrightarrow> False"
| "is_round _ \<longleftrightarrow> True"

definition round_ok :: "server_event \<Rightarrow> t_km_server \<Rightarrow> bool" where
  "round_ok e srv \<longleftrightarrow> is_round e \<and> server_event_ok e srv"

definition peers_shut :: "t_km_server \<Rightarrow> bool" where
  "peers_shut srv \<longleftrightarrow> server_ok srv \<and> (\<forall>c \<in> set (connected_cpus srv). socket_cpu c \<noteq> Sock_open) \<and> socket_scheduler srv \<noteq> Some Sock_open"

lemma listeners_positive:
  "0 < listeners srv \<longleftrightarrow> (\<exists>i < length (connected_cpus srv). socket_cpu (connected_cpus srv ! i) \<noteq> Sock_closed)
     \<or> (socket_scheduler srv \<noteq> None \<and> socket_scheduler srv \<noteq> Some Sock_closed)"
proof -
  have "(\<exists>i < length (connected_cpus srv). socket_cpu (connected_cpus srv ! i) \<noteq> Sock_closed)
      \<longleftrightarrow> (\<exists>c \<in> set (connected_cpus srv). socket_cpu c \<noteq> Sock_closed)" by (metis in_set_conv_nth)
  then show ?thesis by (auto simp: listeners_def filter_empty_conv)
qed

lemma shut_listener_ends:
  assumes "peers_shut srv" "round_ok e srv"
  shows "\<exists>srv'. server_step scripts e srv = Some (srv', ()) \<and> peers_shut srv' \<and> listeners srv' + 1 = listeners srv"
proof (cases e)
  case (Cpu_sends i b)
  let ?c = "connected_cpus srv ! i"
  have i: "i < length (connected_cpus srv)" "socket_cpu ?c \<noteq> Sock_closed" using assms(2) Cpu_sends by (simp_all add: round_ok_def)
  have "?c \<in> set (connected_cpus srv)" using i(1) by simp
  then have "arriving (socket_cpu ?c) b = []" "socket_cpu ?c \<noteq> Sock_open" using assms(1) by (auto simp: peers_shut_def arriving_def)
  moreover have "listen_cpu km [] = Some (km, [], [], False)" for km by (simp add: listen_cpu_def receive_op_code_def socket_receive_def)
  ultimately have e: "cpu_round i b srv = Some (srv\<lparr>connected_cpus := (connected_cpus srv)[i := ?c\<lparr>socket_cpu := Sock_closed\<rparr>], active_threads := active_threads srv - 1\<rparr>)"
      (is "_ = Some ?s")
    using i(1) by (simp add: cpu_round_def Let_def send_cpu_data_def receive_op_code_def socket_receive_def)
  have "server_ok ?s" using cpu_round_ok [OF _ _ e] assms Cpu_sends by (simp add: peers_shut_def round_ok_def)
  moreover have "\<forall>c \<in> set (connected_cpus ?s). socket_cpu c \<noteq> Sock_open"
    using assms(1) by (auto simp: peers_shut_def dest!: set_update_subset_insert [THEN subsetD])
  moreover have "listeners ?s + 1 = listeners srv"
    using count_update [OF i(1), of "\<lambda>c. socket_cpu c \<noteq> Sock_closed" "?c\<lparr>socket_cpu := Sock_closed\<rparr>"] i(2) by (simp add: listeners_def)
  ultimately show ?thesis using e assms(1) Cpu_sends by (auto simp: peers_shut_def)
next
  case (Scheduler_sends b)
  obtain st where st: "socket_scheduler srv = Some st" "st \<noteq> Sock_closed" using assms(2) Scheduler_sends by (auto simp: round_ok_def split: option.splits)
  then have "arriving st b = []" "socket_scheduler srv \<noteq> Some Sock_open" using assms(1) by (auto simp: peers_shut_def arriving_def)
  moreover have "listen_scheduler scripts km [] = Some (km, send_string OP_MEMORY_CORRUPTED ''Kernel shutdown'', [], False)" for km
    by (simp add: listen_scheduler_def receive_op_code_def socket_receive_def)
  ultimately have e: "scheduler_round scripts b srv
      = Some (srv\<lparr>active_threads := active_threads srv - 1, socket_scheduler := Some Sock_closed, accepting := False\<rparr>)" (is "_ = Some ?s")
    using st(1) by (simp add: scheduler_round_def Let_def send_scheduler_def)
  have "server_ok ?s" using scheduler_round_ok [OF _ _ e] assms Scheduler_sends by (simp add: peers_shut_def round_ok_def)
  moreover have "listeners ?s + 1 = listeners srv" using st by (simp add: listeners_def)
  ultimately show ?thesis using e assms(1) Scheduler_sends by (auto simp: peers_shut_def)
qed (use assms(2) in \<open>simp add: round_ok_def\<close>)

lemma disconnect_peers_shut: "server_ok srv \<Longrightarrow> peers_shut (disconnect_all_peers srv)"
proof -
  assume ok: "server_ok srv"
  have eq: "(\<lambda>c. socket_cpu c \<noteq> Sock_open \<longrightarrow> socket_cpu c \<noteq> Sock_closed) = (\<lambda>c. socket_cpu c \<noteq> Sock_closed)" by auto
  then have "listeners (disconnect_all_peers srv) = listeners srv"
    by (cases "socket_scheduler srv") (auto simp: disconnect_all_peers_def listeners_def shut_def filter_map comp_def eq split: if_splits)
  then show ?thesis using ok
    by (cases "socket_scheduler srv") (auto simp: peers_shut_def server_ok_def disconnect_all_peers_def shut_def)
qed

interpretation last_rounds: guarded_system round_ok "server_step scripts" peers_shut for scripts
proof
  show "peers_shut s'" if "peers_shut s" "round_ok e s" "server_step scripts e s = Some (s', u)" for s e s' u
    using shut_listener_ends [OF that(1,2), of scripts] that(3) by auto
  show "\<exists>s' u. server_step scripts e s = Some (s', u)" if "peers_shut s" "round_ok e s" for s e
    using shut_listener_ends [OF that, of scripts] by blast
qed

text \<open>C29: Whatever happened before, once Kernel Memory has shut its peers down every further round of a listener
  succeeds and is its last one, as long as the wait is not over some listener has a round to run,
  and the wait returns exactly when none is left: after as many rounds as there were listeners.\<close>

theorem km_shutdown_returns:
  assumes "reachable server_event_ok (server_step scripts) (start_server (init_kernel_memory_data delay mx st)) srv"
    and "st \<noteq> AS_INVALID" "0 \<le> mx" "mx < 2 ^ 31"
    and "reachable round_ok (server_step scripts) (disconnect_all_peers srv) s"
  shows "(wait_for_listener_threads s = Some s \<longleftrightarrow> listeners s = 0) \<and> (0 < listeners s \<longrightarrow> (\<exists>e. round_ok e s))
    \<and> (\<forall>e. round_ok e s \<longrightarrow> (\<exists>s'. server_step scripts e s = Some (s', ()) \<and> listeners s' + 1 = listeners s))"
proof -
  have "peers_shut (disconnect_all_peers srv)"
    by (rule disconnect_peers_shut [OF server.reachable_inv [OF assms(1) server_ok_init [OF assms(2-4)]]])
  then have s: "peers_shut s" by (rule last_rounds.reachable_inv [OF assms(5)])
  then have "wait_for_listener_threads s = Some s \<longleftrightarrow> listeners s = 0"
    by (simp add: wait_for_listener_threads_def peers_shut_def server_ok_def)
  moreover have "\<exists>e. round_ok e s" if p: "0 < listeners s"
  proof (cases "\<exists>i < length (connected_cpus s). socket_cpu (connected_cpus s ! i) \<noteq> Sock_closed")
    case True
    then obtain i where "round_ok (Cpu_sends i []) s" by (auto simp: round_ok_def)
    then show ?thesis by blast
  next
    case False
    with p obtain st where "socket_scheduler s = Some st" "st \<noteq> Sock_closed" by (auto simp: listeners_positive)
    then have "round_ok (Scheduler_sends []) s" using s by (auto simp: round_ok_def arriving_def receive_op_code_def socket_receive_def)
    then show ?thesis by blast
  qed
  ultimately show ?thesis using shut_listener_ends [OF s, of _ scripts] by blast
qed

theorem km_shutdown_returns_witness:
  "\<exists>srv. server_run (\<lambda>_. None) demo_connections (start_server (init_kernel_memory_data 0 32 AS_BEST)) = Some srv
     \<and> listeners (disconnect_all_peers srv) = 2 \<and> wait_for_listener_threads (disconnect_all_peers srv) = None"
proof -
  obtain srv c where run: "server_run (\<lambda>_. None) demo_connections (start_server (init_kernel_memory_data 0 32 AS_BEST)) = Some srv"
    and c: "connected_cpus srv = [c]" "socket_cpu c = Sock_open" "socket_scheduler srv = Some Sock_open"
    using demo_server_run by (elim exE conjE) (rule that)
  have r: "reachable server_event_ok (server_step (\<lambda>_. None)) (start_server (init_kernel_memory_data 0 32 AS_BEST)) srv"
    by (rule server_run_reachable [OF run reachable_init])
  have l: "listeners (disconnect_all_peers srv) = 2" using c by (simp add: listeners_def disconnect_all_peers_def shut_def)
  have "wait_for_listener_threads (disconnect_all_peers srv) \<noteq> Some (disconnect_all_peers srv)"
    using km_shutdown_returns [OF r _ _ _ reachable_init] l by simp
  then have "wait_for_listener_threads (disconnect_all_peers srv) = None" by (simp add: wait_for_listener_threads_def split: if_splits)
  with run l show ?thesis by (intro exI [of _ srv] conjI)
qed

subsection \<open>A stick that does not finish connecting\<close>

text \<open>A stick that gives its size and then closes instead of giving its port stays in the list of sticks:
  its memory is not added and no CPU is told of it, but Kernel Memory looks addresses up with
  it, a CPU that connects later is told of it, and the watchdog finds it unreachable and reports corrupted
  memory to the scheduler, which ends the system.\<close>

lemma failed_stick_stays:
  assumes "accepting srv" "cl_open cl" "receive_handshake (cl_in cl) = Some (MID_MEMORY_STICK, rest)"
    and "receive_int_field OP_MEMORY_SIZE (-1) rest = Some (True, n, rest')" "receive_int_field OP_PORT (-1) rest' = Some (False, p, rest'')"
  shows "\<exists>srv'. accept_client srv (Some cl) = Some srv' \<and> connected_cpus srv' = connected_cpus srv
    \<and> main_memory (sv_km srv') = main_memory (sv_km srv)
    \<and> map stick_size (connected_sticks (sv_km srv')) = map stick_size (connected_sticks (sv_km srv)) @ [n]
    \<and> watch_sticks (connected_sticks (sv_km srv')) True False = (True, [(OP_MEMORY_CORRUPTED, ''Stick not available'')])"
proof -
  obtain hello where "send_handshake MID_KERNEL_MEMORY = Some hello" by (simp add: send_handshake_def HANDSHAKE_MSG_def)
  then have h: "handshake srv (Some cl) = map_option (\<lambda>s. (s, True)) (accept_stick cl rest srv)"
    using assms(2,3) by (simp add: handshake_def)
  define stick where "stick = (fst (resolve_stick_ip (cl_ip cl) (init_stick_data (cl_stick cl))))\<lparr>stick_size := n, stick_port := p, socket_stick := Send_fails\<rparr>"
  have "register_stick (cl_ip cl) (cl_stick cl) (sv_km srv) rest = Some (add_stick_connection stick (sv_km srv), stick, False, [])"
    using assms(4,5) by (cases "cl_ip cl") (simp_all add: register_stick_def receive_stick_size_def receive_stick_listen_port_def init_stick_data_def
      resolve_stick_ip_def stick_def Let_def)
  then have a: "accept_client srv (Some cl) = Some (srv\<lparr>sv_km := add_stick_connection stick (sv_km srv), accepting := True\<rparr>)"
    using assms(1) h by (simp add: accept_client_def accept_stick_def)
  have "stick_size stick = n" "socket_stick stick = Send_fails" by (simp_all add: stick_def)
  then show ?thesis unfolding a
    by (simp add: add_stick_connection_def watch_sticks_def any_stick_unreachable_def notify_scheduler_memory_corrupted_def)
qed

end
