(* ===== verification/Stick_Tables.thy ===== *)
theory Stick_Tables
  imports KM_Server_Inv Cpu_Cycle
begin

section \<open>Every CPU learns the same sticks as Kernel Memory\<close>

text \<open>
  Sticks and CPUs connect in any order. Kernel Memory announces the sticks it has to a CPU that
  connects, and a stick that connects to the CPUs it has. By \<open>KM_Server_Inv\<close> what a CPU was sent
  announces exactly the sticks of Kernel Memory; here: a CPU that reads it ends up with the same
  table, so that both translate an address to the same stick and offset.
\<close>

subsection \<open>What a CPU reads\<close>

lemma length_show_nat: "n < 10 ^ k \<Longrightarrow> 0 < k \<Longrightarrow> length (show_nat n) \<le> k"
proof (induction k arbitrary: n)
  case (Suc k)
  show ?case
  proof (cases "n < 10")
    case True
    then show ?thesis by (simp add: show_nat.simps)
  next
    case False
    with Suc.prems have "0 < k" by (cases k) auto
    moreover have "n div 10 < 10 ^ k" using Suc.prems(1) by (simp add: less_mult_imp_div_less mult.commute)
    ultimately show ?thesis using Suc.IH [of "n div 10"] False by (subst show_nat.simps) simp
  qed
qed simp

lemma show_nat_no_nul: "CHR 0x00 \<notin> set (show_nat n)"
proof (induction n rule: show_nat.induct)
  case (1 n)
  have "char_of (48 + k) \<noteq> CHR 0x00" if "k < 10" for k :: nat
  proof
    assume "char_of (48 + k) = CHR 0x00"
    then have "of_char (char_of (48 + k) :: char) = (0::nat)" by simp
    then show False using that by (simp add: of_char_of)
  qed
  from this [of n] this [of "n mod 10"] 1 show ?case by (subst show_nat.simps) auto
qed

definition port_string :: "t_stick_data \<Rightarrow> string" where
  "port_string s = show_nat (nat (stick_port s))"

definition network_has :: "network \<Rightarrow> (string \<times> string \<Rightarrow> stick_link) \<Rightarrow> t_stick_data \<Rightarrow> bool" where
  "network_has connect lnk s \<longleftrightarrow>
     (case connect (ip_memory_stick s) (port_string s) of
        None \<Rightarrow> False
      | Some (l, answer) \<Rightarrow> l = lnk (ip_memory_stick s, port_string s) \<and> map_option fst (receive_handshake answer) = Some MID_MEMORY_STICK)"

text \<open>What a CPU knows about a stick, and what it should know about a stick of Kernel Memory.\<close>

definition cpu_row :: "t_memory_stick_info \<Rightarrow> int \<times> stick_link" where
  "cpu_row i = (uint (ms_size i), socket_ms i)"

definition km_row :: "(string \<times> string \<Rightarrow> stick_link) \<Rightarrow> t_stick_data \<Rightarrow> int \<times> stick_link" where
  "km_row lnk s = (stick_size s, lnk (ip_memory_stick s, port_string s))"

lemma length_port: "stick_addressed s \<Longrightarrow> length (port_string s) \<le> 5"
  using length_show_nat [of "nat (stick_port s)" 5] by (auto simp: port_string_def stick_addressed_def nat_less_iff)

lemma stick_values_port: "stick_addressed s \<Longrightarrow> stick_values s = [c_string (ip_memory_stick s), c_string (port_string s), int_bytes (stick_size s)]"
  using length_port [of s]
  by (simp add: stick_values_def port_string_def stick_addressed_def unat_eq_nat_uint uint_to_u32)

lemma connect_stick_packet:
  assumes "stick_addressed s" "network_has connect lnk s"
  shows "\<exists>body. receive_op_code (stick_packet s @ rest) = (OP_PACKET, body)
    \<and> connect_memory_stick connect sticks body
        = Some (sticks @ [\<lparr>ms_size = to_u32 (stick_size s), ms_offset = compute_offset sticks, socket_ms = lnk (ip_memory_stick s, port_string s)\<rparr>], True, rest)"
proof -
  let ?vs = "stick_values s"
  have vs: "?vs = [c_string (ip_memory_stick s), c_string (port_string s), int_bytes (stick_size s)]" by (rule stick_values_port [OF assms(1)])
  have len: "length (port_string s) \<le> 5" by (rule length_port [OF assms(1)])
  have in60: "in_int OP_PACKET" by (simp add: in_int_def INT_MAX_def)
  obtain body where b: "send_packet (packet_appends (create_packet OP_PACKET) ?vs) @ rest = int_bytes OP_PACKET @ body" "receive_packet body = Some (?vs, rest)"
    using receive_packet_send [of ?vs OP_PACKET rest] in60 len assms(1)
    by (auto simp: vs c_string_def encode_values_def INT_MAX_def stick_addressed_def)
  have op: "receive_op_code (stick_packet s @ rest) = (OP_PACKET, body)"
    using receive_op_code_bytes [OF in60, of body] by (simp add: stick_packet_values b(1))
  have sz: "element_int (int_bytes (stick_size s)) = Some (stick_size s)"
    using assms(1) by (intro element_int_bytes in_int_nonneg) (simp_all add: stick_addressed_def)
  have parse: "parse_stick_packet ?vs = Some (Some (ip_memory_stick s, port_string s, to_u32 (stick_size s)))"
    using assms(1) show_nat_no_nul by (simp add: parse_stick_packet_def vs sz string_of_c_string stick_addressed_def port_string_def)
  obtain answer where "connect (ip_memory_stick s) (port_string s) = Some (lnk (ip_memory_stick s, port_string s), answer)"
    "map_option fst (receive_handshake answer) = Some MID_MEMORY_STICK"
    using assms(2) by (auto simp: network_has_def split: option.splits)
  then have "connect_memory_stick connect sticks body
      = Some (sticks @ [\<lparr>ms_size = to_u32 (stick_size s), ms_offset = compute_offset sticks, socket_ms = lnk (ip_memory_stick s, port_string s)\<rparr>], True, rest)"
    by (auto simp: connect_memory_stick_def handshake_memory_stick_def b(2) parse)
  with op show ?thesis by blast
qed

lemma listen_reads_sticks:
  assumes "\<forall>s \<in> set ss. stick_addressed s \<and> network_has connect lnk s" "op \<in> {OP_SEGMENT_TABLE, OP_SEND_CONTEXT, OP_SEND_INSTRUCTION}"
    and "offsets_ok 0 (memory_sticks cpu)" "(\<Sum>s\<leftarrow>memory_sticks cpu. uint (ms_size s)) + (\<Sum>s\<leftarrow>ss. stick_size s) < 2 ^ 31"
    and "km_in cpu = concat (map stick_packet ss) @ int_bytes op @ rest"
  shows "\<exists>cpu'. listen_kernel_memory connect cpu = Some (cpu', True) \<and> km_in cpu' = rest
    \<and> map cpu_row (memory_sticks cpu') = map cpu_row (memory_sticks cpu) @ map (km_row lnk) ss \<and> offsets_ok 0 (memory_sticks cpu')"
  using assms
proof (induction ss arbitrary: cpu)
  case Nil
  have "in_int op" using Nil.prems(2) by (auto simp: in_int_def INT_MAX_def)
  then have "receive_op_code (km_in cpu) = (op, rest)" using Nil.prems(5) receive_op_code_bytes by simp
  then show ?case using Nil.prems(2,3) by (subst listen_kernel_memory.simps) auto
next
  case (Cons s ss)
  have s: "stick_addressed s" "network_has connect lnk s" using Cons.prems(1) by simp_all
  let ?rest = "concat (map stick_packet ss) @ int_bytes op @ rest"
  let ?i = "\<lparr>ms_size = to_u32 (stick_size s), ms_offset = compute_offset (memory_sticks cpu), socket_ms = lnk (ip_memory_stick s, port_string s)\<rparr>"
  obtain body where b: "receive_op_code (km_in cpu) = (OP_PACKET, body)"
    "connect_memory_stick connect (memory_sticks cpu) body = Some (memory_sticks cpu @ [?i], True, ?rest)"
    using connect_stick_packet [OF s, of ?rest "memory_sticks cpu"] Cons.prems(5) by auto
  let ?cpu = "cpu\<lparr>memory_sticks := memory_sticks cpu @ [?i], km_in := ?rest\<rparr>"
  have step: "listen_kernel_memory connect cpu = listen_kernel_memory connect ?cpu"
    by (subst listen_kernel_memory.simps) (simp add: b)
  have pos: "0 \<le> (\<Sum>s\<leftarrow>memory_sticks cpu. uint (ms_size s))" "0 \<le> (\<Sum>s\<leftarrow>ss. stick_size s)"
    using Cons.prems(1) by (auto intro!: sum_list_nonneg simp: stick_addressed_def less_imp_le)
  have size: "uint (to_u32 (stick_size s)) = stick_size s" using s(1) by (simp add: stick_addressed_def uint_to_u32)
  have "uint (compute_offset (memory_sticks cpu)) = (\<Sum>s\<leftarrow>memory_sticks cpu. uint (ms_size s))"
    using Cons.prems(4) pos s(1) by (simp add: compute_offset_sum stick_addressed_def uint_to_u32)
  then have "offsets_ok 0 (memory_sticks ?cpu)" using Cons.prems(3) by (simp add: offsets_ok_append)
  moreover have "(\<Sum>s\<leftarrow>memory_sticks ?cpu. uint (ms_size s)) + (\<Sum>s\<leftarrow>ss. stick_size s) < 2 ^ 31" using Cons.prems(4) size by simp
  ultimately obtain cpu' where "listen_kernel_memory connect ?cpu = Some (cpu', True)" "km_in cpu' = rest"
    "map cpu_row (memory_sticks cpu') = map cpu_row (memory_sticks ?cpu) @ map (km_row lnk) ss" "offsets_ok 0 (memory_sticks cpu')"
    using Cons.IH [of ?cpu] Cons.prems(1,2) by auto
  moreover have "cpu_row ?i = km_row lnk s" using size by (simp add: cpu_row_def km_row_def)
  ultimately show ?case using step by auto
qed

text \<open>Equal rows give equal translations.\<close>

lemma find_stick_agree:
  assumes "offsets_ok acc is" "map (uint \<circ> ms_size) is = map stick_size ss" "\<forall>s \<in> set ss. 0 < stick_size s"
    and "0 \<le> acc" "acc \<le> a" "a < 2 ^ 31" "acc + (\<Sum>s\<leftarrow>ss. stick_size s) < 2 ^ 31" "0 \<le> i"
  shows "find_stick_cpu is (to_u32 a) = (if fst (find_stick_loop a acc i ss) = -1 then None else Some (nat (fst (find_stick_loop a acc i ss) - i)))"
  using assms
proof (induction ss arbitrary: acc i "is")
  case (Cons s ss)
  obtain t ts where is': "is = t # ts" using Cons.prems(2) by (cases "is") auto
  have t: "uint (ms_offset t) = acc" "uint (ms_size t) = stick_size s" "offsets_ok (acc + stick_size s) ts"
    using Cons.prems(1,2) by (auto simp: is')
  have pos: "0 < stick_size s" "0 \<le> (\<Sum>s\<leftarrow>ss. stick_size s)" using Cons.prems(3) by (auto intro!: sum_list_nonneg simp: less_imp_le)
  have w: "ms_offset t = to_u32 acc" "ms_size t = to_u32 (stick_size s)" using t(1,2) by (metis to_u32_uint)+
  have c: "to_u32 a \<ge> ms_offset t" "to_u32 a < ms_offset t + ms_size t \<longleftrightarrow> a < acc + stick_size s"
    using Cons.prems(4-7) pos by (simp_all add: w to_u32_add to_u32_le to_u32_less)
  show ?case
  proof (cases "a < acc + stick_size s")
    case True
    then show ?thesis using c Cons.prems(5,8) by (simp add: is')
  next
    case False
    have "i \<le> fst (find_stick_loop a acc' i ss') \<or> fst (find_stick_loop a acc' i ss') = -1" for acc' i ss'
    proof (induction ss' arbitrary: acc' i)
      case (Cons u us)
      from Cons.IH [of "i + 1" "acc' + stick_size u"] show ?case by auto
    qed simp
    then have ge: "i + 1 \<le> fst (find_stick_loop a (acc + stick_size s) (i + 1) ss) \<or> fst (find_stick_loop a (acc + stick_size s) (i + 1) ss) = -1" by blast
    have "find_stick_cpu ts (to_u32 a) = (if fst (find_stick_loop a (acc + stick_size s) (i + 1) ss) = -1 then None
        else Some (nat (fst (find_stick_loop a (acc + stick_size s) (i + 1) ss) - (i + 1))))"
      using Cons.prems False t pos by (intro Cons.IH) (auto simp: is')
    then show ?thesis using False c ge Cons.prems(8) by (auto simp: is' nat_diff_distrib' Suc_nat_eq_nat_zadd1)
  qed
qed simp

subsection \<open>The tables agree\<close>

text \<open>C22: Sticks and CPUs connect to Kernel Memory in any order, among the requests of the scheduler and of the
  CPUs. A CPU that has read the first \<open>k\<close> announcements sent to it and waits for a reply connects the
  sticks it was not told about yet and gets the reply; then it has exactly the sticks of Kernel Memory, with
  the same sizes, in the same order and with the offsets that follow from them, and both
  find the same stick for every address.\<close>

theorem stick_tables_agree:
  assumes "reachable server_event_ok (server_step scripts) (start_server (init_kernel_memory_data delay mx st)) srv"
    and "st \<noteq> AS_INVALID" "0 \<le> mx" "mx < 2 ^ 31"
    and "c \<in> set (connected_cpus srv)" "socket_cpu c = Sock_open"
  defines "sticks \<equiv> connected_sticks (sv_km srv)"
  assumes "\<forall>s \<in> set sticks. network_has connect lnk s"
    and "map cpu_row (memory_sticks cpu) = map (km_row lnk) (take k sticks)" "offsets_ok 0 (memory_sticks cpu)"
    and "op \<in> {OP_SEGMENT_TABLE, OP_SEND_CONTEXT, OP_SEND_INSTRUCTION}"
    and "km_in cpu = concat (drop k (announcements c)) @ int_bytes op @ rest"
  shows "\<exists>cpu'. listen_kernel_memory connect cpu = Some (cpu', True) \<and> km_in cpu' = rest
    \<and> map cpu_row (memory_sticks cpu') = map (km_row lnk) sticks \<and> offsets_ok 0 (memory_sticks cpu')
    \<and> (\<forall>a. 0 \<le> a \<and> a < 2 ^ 31 \<longrightarrow> find_stick_cpu (memory_sticks cpu') (to_u32 a)
          = (if fst (find_stick a sticks) = -1 then None else Some (nat (fst (find_stick a sticks)))))"
proof -
  have ok: "server_ok srv" by (rule server.reachable_inv [OF assms(1) server_ok_init [OF assms(2-4)]])
  then have ann: "announcements c = map stick_packet sticks" and addressed: "\<forall>s \<in> set sticks. stick_addressed s"
      and total: "(\<Sum>s\<leftarrow>sticks. stick_size s) < 2 ^ 31"
    using assms(5,6) mem_wfD(2) [of "main_memory (sv_km srv)"] by (auto simp: server_ok_def sticks_def km_inv_def memory_ok_def)
  have row: "cpu_row i = km_row lnk s \<Longrightarrow> uint (ms_size i) = stick_size s" for i s by (simp add: cpu_row_def km_row_def)
  have rows: "map cpu_row is = map (km_row lnk) ss \<Longrightarrow> map (uint \<circ> ms_size) is = map stick_size ss" for "is" ss
    by (induction "is" arbitrary: ss) (auto simp: Cons_eq_map_conv dest: row)
  have "(\<Sum>s\<leftarrow>memory_sticks cpu. uint (ms_size s)) + (\<Sum>s\<leftarrow>drop k sticks. stick_size s) = (\<Sum>s\<leftarrow>take k sticks @ drop k sticks. stick_size s)"
    using rows [OF assms(9)] by (simp only: comp_def map_append sum_list_append)
  then have "(\<Sum>s\<leftarrow>memory_sticks cpu. uint (ms_size s)) + (\<Sum>s\<leftarrow>drop k sticks. stick_size s) < 2 ^ 31"
    using total by simp
  moreover have "\<forall>s \<in> set (drop k sticks). stick_addressed s \<and> network_has connect lnk s"
    using addressed assms(8) by (auto dest: in_set_dropD)
  moreover have "km_in cpu = concat (map stick_packet (drop k sticks)) @ int_bytes op @ rest"
    using assms(12) by (simp add: ann drop_map)
  ultimately obtain cpu' where l: "listen_kernel_memory connect cpu = Some (cpu', True)" "km_in cpu' = rest"
      and r: "map cpu_row (memory_sticks cpu') = map cpu_row (memory_sticks cpu) @ map (km_row lnk) (drop k sticks)" "offsets_ok 0 (memory_sticks cpu')"
    using listen_reads_sticks assms(10,11) by blast
  have table: "map cpu_row (memory_sticks cpu') = map (km_row lnk) sticks"
    using r(1) by (simp add: assms(9) flip: map_append)
  have "find_stick_cpu (memory_sticks cpu') (to_u32 a)
          = (if fst (find_stick a sticks) = -1 then None else Some (nat (fst (find_stick a sticks))))" if "0 \<le> a" "a < 2 ^ 31" for a
    using find_stick_agree [OF r(2) rows [OF table], of a 0] addressed total that by (simp add: stick_addressed_def find_stick_def)
  with l r(2) table show ?thesis by blast
qed

definition waiting_cpu :: "bytes \<Rightarrow> t_cpu" where
  "waiting_cpu b = \<lparr>cpu_max_segment_size = 32, memory_sticks = [], km_in = b, ks_in = [], km_up = True, ks_up = True, sent = []\<rparr>"

theorem stick_tables_agree_witness:
  "\<exists>srv c connect cpu'. server_run (\<lambda>_. None) demo_connections (start_server (init_kernel_memory_data 0 32 AS_BEST)) = Some srv
     \<and> connected_cpus srv = [c]
     \<and> listen_kernel_memory connect (waiting_cpu (concat (announcements c) @ int_bytes OP_SEND_CONTEXT @ [1, 2])) = Some (cpu', True)
     \<and> km_in cpu' = [1, 2] \<and> map cpu_row (memory_sticks cpu') = [(64, Closed)] \<and> find_stick_cpu (memory_sticks cpu') 63 = Some 0"
proof -
  obtain srv c where run: "server_run (\<lambda>_. None) demo_connections (start_server (init_kernel_memory_data 0 32 AS_BEST)) = Some srv"
    and view: "map stick_view (connected_sticks (sv_km srv)) = [(64, ''10.0.0.1'', 9000)]" and c: "connected_cpus srv = [c]" "socket_cpu c = Sock_open" "socket_scheduler srv = Some Sock_open"
    using demo_server_run by (elim exE conjE) (rule that)
  have r: "reachable server_event_ok (server_step (\<lambda>_. None)) (start_server (init_kernel_memory_data 0 32 AS_BEST)) srv"
    by (rule server_run_reachable [OF run reachable_init])
  obtain s where s: "connected_sticks (sv_km srv) = [s]" "stick_size s = 64" using view by (auto simp: stick_view_def)
  obtain answer where a: "send_handshake MID_MEMORY_STICK = Some answer" by (simp add: send_handshake_def HANDSHAKE_MSG_def)
  define connect :: network where "connect = (\<lambda>ip port. Some (Closed, answer))"
  have "network_has connect (\<lambda>_. Closed) s"
    using receive_handshake_send [OF a, of "[]"] by (simp add: network_has_def connect_def)
  then have n: "\<forall>s \<in> set (connected_sticks (sv_km srv)). network_has connect (\<lambda>_. Closed) s" by (simp add: s)
  let ?cpu = "waiting_cpu (concat (announcements c) @ int_bytes OP_SEND_CONTEXT @ [1, 2])"
  have "\<exists>cpu'. listen_kernel_memory connect ?cpu = Some (cpu', True) \<and> km_in cpu' = [1, 2]
    \<and> map cpu_row (memory_sticks cpu') = map (km_row (\<lambda>_. Closed)) (connected_sticks (sv_km srv)) \<and> offsets_ok 0 (memory_sticks cpu')
    \<and> (\<forall>a. 0 \<le> a \<and> a < 2 ^ 31 \<longrightarrow> find_stick_cpu (memory_sticks cpu') (to_u32 a)
          = (if fst (find_stick a (connected_sticks (sv_km srv))) = -1 then None else Some (nat (fst (find_stick a (connected_sticks (sv_km srv)))))))"
    using stick_tables_agree [OF r _ _ _ _ c(2) n, of ?cpu 0 OP_SEND_CONTEXT "[1, 2]"] c by (simp add: waiting_cpu_def)
  then obtain cpu' where cpu': "listen_kernel_memory connect ?cpu = Some (cpu', True)" "km_in cpu' = [1, 2]"
    "map cpu_row (memory_sticks cpu') = [(64, Closed)]"
    "\<forall>a. 0 \<le> a \<and> a < 2 ^ 31 \<longrightarrow> find_stick_cpu (memory_sticks cpu') (to_u32 a) = (if fst (find_stick a [s]) = -1 then None else Some (nat (fst (find_stick a [s]))))"
    by (auto simp: s km_row_def)
  have "find_stick_cpu (memory_sticks cpu') (to_u32 63) = Some 0" using cpu'(4) by (simp add: find_stick_def s(2))
  then have "find_stick_cpu (memory_sticks cpu') 63 = Some 0" by (simp add: to_u32_def)
  with run c cpu' show ?thesis
    by (intro exI [of _ srv] exI [of _ c] exI [of _ connect] exI [of _ cpu'] conjI)
qed

end
