(* ===== verification/Logging.thy ===== *)
theory Logging
  imports Strings
begin

section \<open>utils: the logger\<close>

text \<open>
  \<open>log.c\<close>: what a logger has written to its file and to the console. A level is the unsigned number
  of the C enumeration, so that \<open>-1\<close>, the answer for an unknown name, is the largest one. The text
  of an entry is an argument: \<open>vsnprintf\<close> makes it from the template.
\<close>

subsection \<open>Levels\<close>

definition LEVEL_NAMES :: "string list" where
  "LEVEL_NAMES = [''TRACE'', ''DEBUG'', ''INFO'', ''WARNING'', ''ERROR'']"

definition LEVEL_COLORS :: "string list" where
  "LEVEL_COLORS = [CHR 0x1B # ''[36m'', CHR 0x1B # ''[32m'', '''', CHR 0x1B # ''[33m'', CHR 0x1B # ''[31m'']"

definition COLOR_RESET :: string where
  "COLOR_RESET = CHR 0x1B # ''[0m''"

definition log_level_as_string :: "u32 \<Rightarrow> string option" where
  "log_level_as_string level = (if unat level < length LEVEL_NAMES then Some (LEVEL_NAMES ! unat level) else None)"

fun level_index :: "nat \<Rightarrow> string \<Rightarrow> string list \<Rightarrow> u32" where
  "level_index i level [] = -1"
| "level_index i level (name # names) =
     (if string_equals_ignore_case level name then of_nat i else level_index (Suc i) level names)"

text \<open>\<open>None\<close> is \<open>strcasecmp\<close> of \<open>NULL\<close>.\<close>

definition log_level_from_string :: "string option \<Rightarrow> u32 option" where
  "log_level_from_string level = map_option (\<lambda>name. level_index 0 name LEVEL_NAMES) level"

subsection \<open>Writing\<close>

record t_log =
  log_file :: "string option"
  log_console :: string
  is_active_console :: bool
  detail :: u32
  program_name :: string
  log_pid :: int

text \<open>\<open>contents\<close> is what the file holds when it is opened for appending, \<open>None\<close> when it cannot be opened.\<close>

definition log_create :: "string option \<Rightarrow> string option \<Rightarrow> string \<Rightarrow> bool \<Rightarrow> u32 \<Rightarrow> int \<Rightarrow> t_log option" where
  "log_create file contents name active_console level process_id =
     (if file \<noteq> None \<and> contents = None then None
      else Some \<lparr>log_file = (if file = None then None else contents), log_console = '''', is_active_console = active_console,
                 detail = level, program_name = name, log_pid = process_id\<rparr>)"

definition pad_nat :: "nat \<Rightarrow> nat \<Rightarrow> string" where
  "pad_nat width n = replicate (width - length (show_nat n)) (CHR ''0'') @ show_nat n"

definition show_int :: "int \<Rightarrow> string" where
  "show_int i = (if i < 0 then CHR ''-'' # show_nat (nat (- i)) else show_nat (nat i))"

definition format_timestamp :: "nat \<times> nat \<times> nat \<times> nat \<Rightarrow> string" where
  "format_timestamp now =
     (case now of (h, mi, s, ms) \<Rightarrow> pad_nat 2 h @ '':'' @ pad_nat 2 mi @ '':'' @ pad_nat 2 s @ '':'' @ pad_nat 3 ms)"

definition is_level_enabled :: "t_log \<Rightarrow> u32 \<Rightarrow> bool" where
  "is_level_enabled logger level \<longleftrightarrow> level \<ge> detail logger"

definition log_entry :: "t_log \<Rightarrow> string \<Rightarrow> string \<Rightarrow> int \<Rightarrow> string \<Rightarrow> string" where
  "log_entry logger name timestamp tid message =
     ''['' @ name @ ''] '' @ timestamp @ '' '' @ program_name logger @ ''/('' @ show_int (log_pid logger) @ '':''
       @ show_int tid @ ''): '' @ message"

definition log_write :: "t_log \<Rightarrow> u32 \<Rightarrow> nat \<times> nat \<times> nat \<times> nat \<Rightarrow> int \<Rightarrow> string \<Rightarrow> t_log option" where
  "log_write logger level now tid message =
     (if \<not> is_level_enabled logger level then Some logger
      else case log_level_as_string level of
             None \<Rightarrow> None
           | Some name \<Rightarrow>
               (let entry = log_entry logger name (format_timestamp now) tid message
                in Some (logger\<lparr>log_file := map_option (\<lambda>text. text @ entry @ ''\<newline>'') (log_file logger),
                     log_console := (if is_active_console logger
                       then log_console logger @ LEVEL_COLORS ! unat level @ entry @ COLOR_RESET @ ''\<newline>'' else log_console logger)\<rparr>)))"

definition log_trace :: "t_log \<Rightarrow> nat \<times> nat \<times> nat \<times> nat \<Rightarrow> int \<Rightarrow> string \<Rightarrow> t_log option" where
  "log_trace logger now tid message = log_write logger 0 now tid message"

definition log_debug :: "t_log \<Rightarrow> nat \<times> nat \<times> nat \<times> nat \<Rightarrow> int \<Rightarrow> string \<Rightarrow> t_log option" where
  "log_debug logger now tid message = log_write logger 1 now tid message"

definition log_info :: "t_log \<Rightarrow> nat \<times> nat \<times> nat \<times> nat \<Rightarrow> int \<Rightarrow> string \<Rightarrow> t_log option" where
  "log_info logger now tid message = log_write logger 2 now tid message"

definition log_warning :: "t_log \<Rightarrow> nat \<times> nat \<times> nat \<times> nat \<Rightarrow> int \<Rightarrow> string \<Rightarrow> t_log option" where
  "log_warning logger now tid message = log_write logger 3 now tid message"

definition log_error :: "t_log \<Rightarrow> nat \<times> nat \<times> nat \<times> nat \<Rightarrow> int \<Rightarrow> string \<Rightarrow> t_log option" where
  "log_error logger now tid message = log_write logger 4 now tid message"

subsection \<open>Levels and entries\<close>

text \<open>The names are read back in upper or lower case.\<close>

lemma log_level_names:
  assumes "log_level_as_string level = Some name"
  shows "log_level_from_string (Some name) = Some level" "log_level_from_string (Some (map to_lower name)) = Some level"
proof -
  have "log_level_from_string (Some (LEVEL_NAMES ! n)) = Some (of_nat n) \<and> log_level_from_string (Some (map to_lower (LEVEL_NAMES ! n))) = Some (of_nat n)"
    if "n < 5" for n
  proof -
    have "n \<in> {0, 1, 2, 3, 4}" using that by auto
    then show ?thesis by (elim insertE emptyE; hypsubst; code_simp)
  qed
  moreover have "unat level < 5" "name = LEVEL_NAMES ! unat level"
    using assms by (auto simp: log_level_as_string_def LEVEL_NAMES_def split: if_splits)
  ultimately show "log_level_from_string (Some name) = Some level" "log_level_from_string (Some (map to_lower name)) = Some level"
    by simp_all
qed

text \<open>A logger with a known level logs exactly the entries of that level and above; with an unknown one not even errors.\<close>

lemma log_write_file:
  assumes "log_file logger = Some text" "detail logger < 5" "level < 5"
  shows "\<exists>logger'. log_write logger level now tid message = Some logger' \<and> detail logger' = detail logger
    \<and> log_file logger' = Some (if detail logger \<le> level
        then text @ log_entry logger (LEVEL_NAMES ! unat level) (format_timestamp now) tid message @ ''\<newline>'' else text)"
proof -
  have "unat level < 5" using assms(3) by (simp add: word_less_nat_alt)
  then show ?thesis using assms(1) by (simp add: log_write_def is_level_enabled_def log_level_as_string_def LEVEL_NAMES_def Let_def)
qed

lemma unknown_level_mutes:
  assumes "detail logger = -1" "level < 5"
  shows "log_write logger level now tid message = Some logger"
proof -
  have "\<not> (-1::u32) \<le> level" using assms(2) by (metis leD word_n1_ge order.strict_trans1 not_less_iff_gr_or_eq word_order.extremum_strict)
  then show ?thesis using assms(1) by (simp add: log_write_def is_level_enabled_def)
qed

end
