(* ===== verification/Sched_Types.thy ===== *)
theory Sched_Types
  imports KM_Listeners "HOL-Library.Monad_Syntax"
begin

section \<open>Kernel Scheduler: processes and scheduler state\<close>

text \<open>
  \<open>domain/pcb.[ch]\<close>, \<open>scheduler/queue_types.h\<close>, \<open>scheduler/counter.c\<close>,
  \<open>scheduler/process_counter.c\<close> and \<open>common/time.c\<close>. A \<open>t_pcb*\<close> is a reference into the store
  \<open>pcbs\<close>; \<open>malloc\<close> gives a fresh one, \<open>destroy_pcb\<close> removes it, and using a reference that is
  not in the store is \<open>None\<close>. The pid is the 32-bit value of the creation counter.

  The state also holds what is outside the module: the time, the bytes from Kernel Memory
  not yet read, whether messages to it can be sent and which were, and whether threads can
  be created. A thread that a function starts is put in \<open>spawned\<close> and runs later as a step of
  its own. Signals on condition variables have no counterpart: who waits tests its condition
  again, so a wait is a step that is only taken once the condition holds.
\<close>

subsection \<open>Data\<close>

type_synonym pcb_ref = nat
type_synonym u64 = "64 word"

datatype t_process_state = PS_NEW | PS_READY | PS_EXEC | PS_BLOCK | PS_SUSP_BLOCK | PS_SUSP_READY | PS_EXIT

record t_pcb =
  pcb_pid :: u32
  pcb_priority :: int
  priority_list :: "int list"
  blocked_time :: u64
  pcb_state :: t_process_state
  active_instances :: int
  blocking_mutex :: "string option"

datatype t_scheduling_algorithm = SA_FIFO | SA_RR | SA_MULTILEVEL_QUEUES

datatype t_process_end_reason =
    PER_INVALID_PRIORITY | PER_EXIT_INSTRUCTION | PER_SYSTEM_SHUTDOWN | PER_IO_FAILURE
  | PER_NOT_ENOUGH_MEMORY | PER_SEGMENTATION_FAULT | PER_MUTEX_NAME_ALREADY_EXISTS
  | PER_MUTEX_NAME_NOT_FOUND | PER_PROCESS_HAS_NO_LOCKED_MUTEX

datatype t_shutdown_reason =
    SR_NO_PROCESSES | SR_CORRUPTED_MEMORY | SR_KERNEL_MEMORY_CONNECTION_FAILURE
  | SR_UNKNOWN_CAUSE | SR_KERNEL_MEMORY_SEND_ERROR

datatype t_thread_state = TS_RUNNING | TS_WAITING_PROCESS | TS_BLOCKED | TS_FINISHING | TS_FINISHED

record t_ready_queue =
  multilevel_queue :: bool
  subqueues :: "(t_scheduling_algorithm \<times> pcb_ref list) list"
  ready_process_count :: int
  highest_priority :: int
  terminate_queue :: bool
  preempt_all :: bool

record t_execute_list =
  exec_list :: "pcb_ref list"
  lowest_priority :: int
  quantum :: int
  preemption :: bool

record t_blocking_list =
  bl_list :: "pcb_ref list"
  new_process :: bool

record t_mutex =
  next_priority :: int
  priority_active :: bool
  mutex_waiters :: "pcb_ref list"
  current_process :: "pcb_ref option"
  mutex_state :: int

datatype t_routine_thread = Resumption_routine_thread | Unlock_queue_ready_thread

record t_queues =
  pcbs :: "pcb_ref \<Rightarrow> t_pcb option"
  next_ref :: pcb_ref
  ready :: t_ready_queue
  exec :: t_execute_list
  block :: t_blocking_list
  susp_block :: t_blocking_list
  susp_ready :: t_blocking_list
  active_process_count :: int
  thread_counter :: int
  syscall_counter :: int
  routine_active :: bool
  terminate_routines :: bool
  compaction_active :: bool
  resume_active :: bool
  suspender :: t_thread_state
  resumer :: t_thread_state
  suspension_timeout :: int
  mutex_list :: "string \<Rightarrow> t_mutex option"
  shutdown :: "t_shutdown_reason option"
  now :: u64
  from_km :: bytes
  km_open :: bool
  to_km :: "bytes list"
  threads_ok :: bool
  spawned :: "t_routine_thread list"

abbreviation (input) INT_MAX_PRIORITY :: int where
  "INT_MAX_PRIORITY \<equiv> 2147483647"

definition queue_count :: "t_ready_queue \<Rightarrow> int" where
  "queue_count rd = int (length (subqueues rd))"

subsection \<open>Time\<close>

definition millis :: "t_queues \<Rightarrow> u64" where
  "millis q = now q"

definition time_diff :: "u64 \<Rightarrow> u64 \<Rightarrow> u64" where
  "time_diff time_1 time_2 = (if time_1 > time_2 then time_1 - time_2 else time_2 - time_1)"

subsection \<open>The process control block\<close>

definition update_pcb :: "pcb_ref \<Rightarrow> (t_pcb \<Rightarrow> t_pcb) \<Rightarrow> t_queues \<Rightarrow> t_queues option" where
  "update_pcb r f q = map_option (\<lambda>p. q\<lparr>pcbs := (pcbs q)(r \<mapsto> f p)\<rparr>) (pcbs q r)"

definition create_pcb :: "t_process_state \<Rightarrow> int \<Rightarrow> t_queues \<Rightarrow> pcb_ref \<times> t_queues" where
  "create_pcb st prio q =
     (next_ref q,
      q\<lparr>pcbs := (pcbs q)(next_ref q \<mapsto>
           \<lparr>pcb_pid = of_nat (next_ref q), pcb_priority = prio, priority_list = [prio], blocked_time = 0,
            pcb_state = st, active_instances = 0, blocking_mutex = None\<rparr>),
        next_ref := next_ref q + 1\<rparr>)"

definition destroy_pcb :: "pcb_ref \<Rightarrow> t_queues \<Rightarrow> t_queues" where
  "destroy_pcb r q = q\<lparr>pcbs := (pcbs q)(r := None)\<rparr>"

definition get_state_pcb :: "pcb_ref \<Rightarrow> t_queues \<Rightarrow> t_process_state option" where
  "get_state_pcb r q = map_option pcb_state (pcbs q r)"

definition get_priority_pcb :: "pcb_ref \<Rightarrow> t_queues \<Rightarrow> int option" where
  "get_priority_pcb r q = map_option pcb_priority (pcbs q r)"

definition increment_active_instances :: "pcb_ref \<Rightarrow> t_queues \<Rightarrow> t_queues option" where
  "increment_active_instances r q = update_pcb r (\<lambda>p. p\<lparr>active_instances := active_instances p + 1\<rparr>) q"

definition decrement_active_instances :: "pcb_ref \<Rightarrow> t_queues \<Rightarrow> t_queues option" where
  "decrement_active_instances r q = update_pcb r (\<lambda>p. p\<lparr>active_instances := active_instances p - 1\<rparr>) q"

text \<open>The wait is over only in a state without active instances.\<close>

definition wait_zero_active_instances :: "pcb_ref \<Rightarrow> t_queues \<Rightarrow> t_queues option" where
  "wait_zero_active_instances r q =
     (case pcbs q r of None \<Rightarrow> None | Some p \<Rightarrow> if active_instances p = 0 then Some q else None)"

definition set_mutex_blocking :: "pcb_ref \<Rightarrow> string option \<Rightarrow> t_queues \<Rightarrow> t_queues option" where
  "set_mutex_blocking r mutex q = update_pcb r (\<lambda>p. p\<lparr>blocking_mutex := mutex\<rparr>) q"

definition get_mutex_blocking :: "pcb_ref \<Rightarrow> t_queues \<Rightarrow> string option option" where
  "get_mutex_blocking r q = map_option blocking_mutex (pcbs q r)"

definition set_blocked_time :: "pcb_ref \<Rightarrow> u64 \<Rightarrow> t_queues \<Rightarrow> t_queues option" where
  "set_blocked_time r time q = update_pcb r (\<lambda>p. p\<lparr>blocked_time := time\<rparr>) q"

text \<open>
  \<open>list_add_sorted\<close> with \<open>is_highest_priority\<close>: the new element goes before the first one
  whose priority is not better than its own. All elements are read, so all must be alive.
\<close>

definition is_highest_priority :: "(pcb_ref \<Rightarrow> int) \<Rightarrow> pcb_ref \<Rightarrow> pcb_ref \<Rightarrow> bool" where
  "is_highest_priority prio pcb1 pcb2 \<longleftrightarrow> prio pcb1 \<le> prio pcb2"

definition insert_pcb_sorted :: "pcb_ref list \<Rightarrow> pcb_ref \<Rightarrow> t_queues \<Rightarrow> (pcb_ref list \<times> nat) option" where
  "insert_pcb_sorted xs pcb q =
     (if list_all (\<lambda>r. pcbs q r \<noteq> None) (pcb # xs)
      then (let slot = sorted_slot (is_highest_priority (\<lambda>r. case pcbs q r of Some p \<Rightarrow> pcb_priority p | None \<Rightarrow> 0)) pcb xs
            in Some (take slot xs @ pcb # drop slot xs, slot))
      else None)"

subsection \<open>Messages to Kernel Memory\<close>

definition send_to_km :: "bytes \<Rightarrow> t_queues \<Rightarrow> bool \<times> t_queues" where
  "send_to_km b q = (if km_open q then (True, q\<lparr>to_km := to_km q @ [b]\<rparr>) else (False, q))"

text \<open>\<open>close_kernel_scheduler\<close>, of which only the first call has an effect.\<close>

function read_shutdown_reason :: "bytes \<Rightarrow> (t_shutdown_reason \<times> bytes) option" where
  "read_shutdown_reason stream =
     (case receive_op_code stream of
        (op, rest) \<Rightarrow>
          (if op = OP_CODE_ERROR then Some (SR_KERNEL_MEMORY_CONNECTION_FAILURE, rest)
           else if op = OP_MEMORY_CORRUPTED then Some (SR_CORRUPTED_MEMORY, rest)
           else case receive_string rest of
                  None \<Rightarrow> None
                | Some (s, rest') \<Rightarrow> read_shutdown_reason rest'))"
  by pat_completeness auto
termination
proof (relation "measure length")
  fix stream op rest x s rest'
  assume *: "(op, rest) = receive_op_code stream" "op \<noteq> OP_CODE_ERROR" "receive_string rest = Some x" "(s, rest') = x"
  have "length rest' \<le> length rest" "length rest < length stream"
    using receive_string_shrinks [of rest s rest'] receive_op_code_shrinks [of stream op rest] * by auto
  then show "(rest', stream) \<in> measure length" by simp
qed simp

declare read_shutdown_reason.simps [simp del]

definition check_reason_shutdown :: "t_shutdown_reason \<Rightarrow> t_queues \<Rightarrow> (t_shutdown_reason \<times> t_queues) option" where
  "check_reason_shutdown reason q =
     (if reason \<noteq> SR_KERNEL_MEMORY_SEND_ERROR then Some (reason, q)
      else map_option (\<lambda>(reason', rest). (reason', q\<lparr>from_km := rest\<rparr>)) (read_shutdown_reason (from_km q)))"

definition notify_shutdown_kernel_memory :: "t_shutdown_reason \<Rightarrow> t_queues \<Rightarrow> t_queues" where
  "notify_shutdown_kernel_memory reason q =
     (if reason = SR_NO_PROCESSES
      then snd (send_to_km (send_string OP_KERNEL_SCHEDULER_SHUTDOWN ''No more processes to run'') q) else q)"

definition close_kernel_scheduler :: "t_shutdown_reason \<Rightarrow> t_queues \<Rightarrow> t_queues option" where
  "close_kernel_scheduler reason q =
     (if shutdown q \<noteq> None then Some q
      else map_option (\<lambda>(reason', q'). q'\<lparr>shutdown := Some reason'\<rparr>)
             (check_reason_shutdown reason (notify_shutdown_kernel_memory reason q)))"

subsection \<open>Counters\<close>

definition create_counter :: int where
  [simp]: "create_counter = 0"

definition counter_increment :: "int \<Rightarrow> int" where
  [simp]: "counter_increment counter = counter + 1"

definition init_counter_processes :: int where
  [simp]: "init_counter_processes = 0"

definition increment_thread_counter :: "t_queues \<Rightarrow> t_queues" where
  "increment_thread_counter q = q\<lparr>thread_counter := counter_increment (thread_counter q)\<rparr>"

definition decrement_thread_counter :: "t_queues \<Rightarrow> t_queues" where
  "decrement_thread_counter q = q\<lparr>thread_counter := thread_counter q - 1\<rparr>"

definition increment_syscall_counter :: "t_queues \<Rightarrow> t_queues" where
  "increment_syscall_counter q = q\<lparr>syscall_counter := counter_increment (syscall_counter q)\<rparr>"

definition decrement_syscall_counter :: "t_queues \<Rightarrow> t_queues" where
  "decrement_syscall_counter q = q\<lparr>syscall_counter := syscall_counter q - 1\<rparr>"

definition increment_process_count :: "t_queues \<Rightarrow> t_queues" where
  "increment_process_count q = q\<lparr>active_process_count := active_process_count q + 1\<rparr>"

definition decrement_process_count :: "t_queues \<Rightarrow> t_queues option" where
  "decrement_process_count q =
     (let q' = q\<lparr>active_process_count := active_process_count q - 1\<rparr>
      in if active_process_count q = 1 then close_kernel_scheduler SR_NO_PROCESSES q' else Some q')"

end
