(* ===== verification/Ready_Queue.thy ===== *)
theory Ready_Queue
  imports Sched_Types
begin

section \<open>Kernel Scheduler: the READY queue\<close>

text \<open>
  \<open>scheduler/ready_queue.c\<close>. With \<open>MULTILEVEL\<close> there is one subqueue per priority, otherwise a
  single one. The priority of a process is read before the queue is changed, so the queue
  operations take it as an argument. An index outside the array of subqueues is \<open>None\<close>.

  \<open>ready_ok\<close> says that the counter is the number of queued processes, that no process is queued
  twice and, with \<open>MULTILEVEL\<close>, that \<open>highest_priority\<close> is the first subqueue in use. The
  second half of the theory shows that taking the next process takes the oldest of the best
  subqueue.
\<close>

subsection \<open>Operations\<close>

definition init_ready_queue :: "t_scheduling_algorithm \<Rightarrow> t_scheduling_algorithm list \<Rightarrow> t_ready_queue" where
  "init_ready_queue algorithm multilevel_algorithms =
     \<lparr>multilevel_queue = (algorithm = SA_MULTILEVEL_QUEUES),
      subqueues = (if algorithm = SA_MULTILEVEL_QUEUES then map (\<lambda>a. (a, [])) multilevel_algorithms
                   else [(algorithm, [])]),
      ready_process_count = 0, highest_priority = INT_MAX_PRIORITY, terminate_queue = False, preempt_all = False\<rparr>"

definition is_queue_ready_empty :: "t_ready_queue \<Rightarrow> bool" where
  "is_queue_ready_empty rd \<longleftrightarrow> ready_process_count rd = 0"

definition is_queue_ready_blocked :: "t_ready_queue \<Rightarrow> bool" where
  "is_queue_ready_blocked rd = preempt_all rd"

definition lock_queue_ready :: "t_ready_queue \<Rightarrow> t_ready_queue" where
  "lock_queue_ready rd = rd\<lparr>preempt_all := True\<rparr>"

definition unlock_queue_ready :: "t_ready_queue \<Rightarrow> t_ready_queue" where
  "unlock_queue_ready rd = rd\<lparr>preempt_all := False\<rparr>"

definition queue_ready_terminated :: "t_ready_queue \<Rightarrow> bool" where
  "queue_ready_terminated rd = terminate_queue rd"

definition terminate_queue_ready :: "t_ready_queue \<Rightarrow> t_ready_queue" where
  "terminate_queue_ready rd = rd\<lparr>terminate_queue := True\<rparr>"

definition check_priority_valid :: "int \<Rightarrow> t_ready_queue \<Rightarrow> bool" where
  "check_priority_valid prio rd \<longleftrightarrow> \<not> multilevel_queue rd \<or> prio < queue_count rd"

definition subqueue_index :: "int \<Rightarrow> t_ready_queue \<Rightarrow> nat option" where
  "subqueue_index i rd = (if 0 \<le> i \<and> i < queue_count rd then Some (nat i) else None)"

definition get_algorithm_ready_queue :: "t_ready_queue \<Rightarrow> int \<Rightarrow> t_scheduling_algorithm option" where
  "get_algorithm_ready_queue rd prio =
     map_option (\<lambda>i. fst (subqueues rd ! i)) (subqueue_index (if multilevel_queue rd then prio else 0) rd)"

definition transition_to_ready :: "pcb_ref \<Rightarrow> int \<Rightarrow> t_ready_queue \<Rightarrow> t_ready_queue option" where
  "transition_to_ready pcb prio rd =
     (let rd1 = (if ready_process_count rd = 0 \<or> highest_priority rd > prio then rd\<lparr>highest_priority := prio\<rparr> else rd);
          rd2 = rd1\<lparr>ready_process_count := ready_process_count rd1 + 1\<rparr>
      in map_option (\<lambda>i. rd2\<lparr>subqueues := (subqueues rd2)
                               [i := (fst (subqueues rd2 ! i), snd (subqueues rd2 ! i) @ [pcb])]\<rparr>)
           (subqueue_index (if multilevel_queue rd2 then prio else 0) rd2))"

fun first_nonempty :: "(t_scheduling_algorithm \<times> pcb_ref list) list \<Rightarrow> nat option" where
  "first_nonempty [] = None"
| "first_nonempty ((a, xs) # qs) = (if xs \<noteq> [] then Some 0 else map_option Suc (first_nonempty qs))"

definition update_highest_priority_ready_no_mutex :: "t_ready_queue \<Rightarrow> t_ready_queue" where
  "update_highest_priority_ready_no_mutex rd =
     (case (if ready_process_count rd > 0 \<and> multilevel_queue rd then first_nonempty (subqueues rd) else None) of
        Some i \<Rightarrow> rd\<lparr>highest_priority := int i\<rparr>
      | None \<Rightarrow> rd\<lparr>highest_priority := queue_count rd\<rparr>)"

definition transition_take_ready :: "pcb_ref \<Rightarrow> int \<Rightarrow> t_ready_queue \<Rightarrow> t_ready_queue option" where
  "transition_take_ready pcb prio rd =
     (let pos = (if multilevel_queue rd then prio else 0)
      in map_option (\<lambda>i.
           (let rd1 = rd\<lparr>subqueues := (subqueues rd)[i := (fst (subqueues rd ! i), remove1 pcb (snd (subqueues rd ! i)))]\<rparr>;
                rd2 = update_highest_priority_ready_no_mutex rd1
            in rd2\<lparr>ready_process_count := ready_process_count rd2 - 1\<rparr>))
           (subqueue_index pos rd))"

definition transition_take_ready_next_no_mutex :: "t_ready_queue \<Rightarrow> pcb_ref option \<times> t_ready_queue" where
  "transition_take_ready_next_no_mutex rd =
     (case first_nonempty (subqueues rd) of
        None \<Rightarrow> (None, rd)
      | Some i \<Rightarrow>
          (let rest = tl (snd (subqueues rd ! i));
               rd1 = rd\<lparr>ready_process_count := ready_process_count rd - 1,
                        subqueues := (subqueues rd)[i := (fst (subqueues rd ! i), rest)]\<rparr>;
               rd2 = (if rest = [] then update_highest_priority_ready_no_mutex rd1 else rd1)
           in (Some (hd (snd (subqueues rd ! i))), rd2)))"

definition transition_take_ready_next :: "t_ready_queue \<Rightarrow> pcb_ref option \<times> t_ready_queue" where
  "transition_take_ready_next rd = transition_take_ready_next_no_mutex rd"

text \<open>
  The blocking take waits until the queue is terminated, or has a process and is not blocked:
  \<open>None\<close> while it waits.
\<close>

definition transition_take_ready_blocking :: "t_ready_queue \<Rightarrow> (pcb_ref option \<times> t_ready_queue) option" where
  "transition_take_ready_blocking rd =
     (if queue_ready_terminated rd then Some (None, rd)
      else if ready_process_count rd = 0 \<or> preempt_all rd then None
      else Some (transition_take_ready_next_no_mutex rd))"

subsection \<open>The contents and the invariant\<close>

definition ready_refs :: "t_ready_queue \<Rightarrow> pcb_ref list" where
  "ready_refs rd = concat (map snd (subqueues rd))"

definition ready_ok :: "t_ready_queue \<Rightarrow> bool" where
  "ready_ok rd \<longleftrightarrow> ready_process_count rd = int (length (ready_refs rd)) \<and> distinct (ready_refs rd) \<and> subqueues rd \<noteq> []
     \<and> (multilevel_queue rd \<and> ready_process_count rd > 0 \<longrightarrow>
          first_nonempty (subqueues rd) = Some (nat (highest_priority rd)) \<and> 0 \<le> highest_priority rd)"

definition queue_position :: "int \<Rightarrow> t_ready_queue \<Rightarrow> int" where
  "queue_position prio rd = (if multilevel_queue rd then prio else 0)"

lemma first_nonempty_None: "first_nonempty qs = None \<longleftrightarrow> concat (map snd qs) = []"
  by (induction qs rule: first_nonempty.induct) auto

lemma first_nonempty_Some:
  "first_nonempty qs = Some i \<longleftrightarrow> i < length qs \<and> snd (qs ! i) \<noteq> [] \<and> (\<forall>j<i. snd (qs ! j) = [])"
proof (induction qs arbitrary: i rule: first_nonempty.induct)
  case (2 a xs qs)
  then show ?case by (cases i) (auto simp: less_Suc_eq_0_disj)
qed simp

lemma refs_split:
  "i < length qs \<Longrightarrow> concat (map snd qs) =
     concat (map snd (take i qs)) @ snd (qs ! i) @ concat (map snd (drop (Suc i) qs))"
  by (subst id_take_nth_drop [of i qs]) auto

lemma refs_update:
  "i < length qs \<Longrightarrow> concat (map snd (qs[i := (a, xs)])) =
     concat (map snd (take i qs)) @ xs @ concat (map snd (drop (Suc i) qs))"
  by (simp add: upd_conv_take_nth_drop)

lemma refs_update_set:
  "i < length qs \<Longrightarrow> set (concat (map snd (qs[i := (a, snd (qs ! i) @ [r])]))) = insert r (set (concat (map snd qs)))"
  by (subst refs_update, simp, subst refs_split [of i qs]) auto

lemma first_nonempty_append:
  "i < length qs \<Longrightarrow> first_nonempty (qs[i := (a, snd (qs ! i) @ [r])]) =
     Some (case first_nonempty qs of None \<Rightarrow> i | Some j \<Rightarrow> min i j)"
proof (cases "first_nonempty qs")
  case None
  then have "\<forall>j<length qs. snd (qs ! j) = []" by (auto simp: first_nonempty_None)
  then have "first_nonempty (qs[i := (a, snd (qs ! i) @ [r])]) = Some i" if "i < length qs"
    using that by (simp add: first_nonempty_Some nth_list_update)
  then show "i < length qs \<Longrightarrow> ?thesis" using None by simp
next
  case (Some j)
  have "first_nonempty (qs[i := (a, snd (qs ! i) @ [r])]) = Some (min i j)" if "i < length qs"
    using that Some by (auto simp: first_nonempty_Some nth_list_update min_def)
  then show "i < length qs \<Longrightarrow> ?thesis" using Some by simp
qed

subsection \<open>Adding and taking keep the invariant\<close>

lemma to_ready_eq:
  "transition_to_ready r prio rd =
     (if 0 \<le> queue_position prio rd \<and> queue_position prio rd < queue_count rd
      then Some (rd\<lparr>subqueues := (subqueues rd)[nat (queue_position prio rd) :=
                     (fst (subqueues rd ! nat (queue_position prio rd)), snd (subqueues rd ! nat (queue_position prio rd)) @ [r])],
                   ready_process_count := ready_process_count rd + 1,
                   highest_priority := (if ready_process_count rd = 0 \<or> highest_priority rd > prio then prio else highest_priority rd)\<rparr>)
      else None)"
  by (cases "ready_process_count rd = 0 \<or> highest_priority rd > prio"; cases "multilevel_queue rd")
     (auto simp: transition_to_ready_def subqueue_index_def queue_position_def queue_count_def Let_def)

lemma to_ready_Some:
  "0 \<le> queue_position prio rd \<Longrightarrow> queue_position prio rd < queue_count rd \<Longrightarrow> \<exists>rd'. transition_to_ready r prio rd = Some rd'"
  by (simp add: to_ready_eq)

lemma to_ready_spec:
  assumes "transition_to_ready r prio rd = Some rd'"
  shows "\<exists>i. int i = queue_position prio rd \<and> i < length (subqueues rd)
          \<and> subqueues rd' = (subqueues rd)[i := (fst (subqueues rd ! i), snd (subqueues rd ! i) @ [r])]"
    and "set (ready_refs rd') = insert r (set (ready_refs rd))"
    and "length (subqueues rd') = length (subqueues rd)" "multilevel_queue rd' = multilevel_queue rd"
    and "ready_process_count rd' = ready_process_count rd + 1"
    and "preempt_all rd' = preempt_all rd" "terminate_queue rd' = terminate_queue rd"
proof -
  let ?i = "nat (queue_position prio rd)"
  have *: "int ?i = queue_position prio rd" "?i < length (subqueues rd)"
    "subqueues rd' = (subqueues rd)[?i := (fst (subqueues rd ! ?i), snd (subqueues rd ! ?i) @ [r])]"
    using assms by (auto simp: to_ready_eq queue_count_def split: if_splits)
  then show "\<exists>i. int i = queue_position prio rd \<and> i < length (subqueues rd)
          \<and> subqueues rd' = (subqueues rd)[i := (fst (subqueues rd ! i), snd (subqueues rd ! i) @ [r])]" by blast
  show "set (ready_refs rd') = insert r (set (ready_refs rd))"
    using * by (simp only: ready_refs_def refs_update_set)
qed (use assms in \<open>auto simp: to_ready_eq split: if_splits\<close>)

lemma to_ready_ok:
  assumes "transition_to_ready r prio rd = Some rd'" "ready_ok rd" "r \<notin> set (ready_refs rd)"
  shows "ready_ok rd'"
proof -
  obtain i where i: "int i = queue_position prio rd" "i < length (subqueues rd)"
    "subqueues rd' = (subqueues rd)[i := (fst (subqueues rd ! i), snd (subqueues rd ! i) @ [r])]"
    using to_ready_spec(1) [OF assms(1)] by blast
  have split: "ready_refs rd = concat (map snd (take i (subqueues rd))) @ snd (subqueues rd ! i) @ concat (map snd (drop (Suc i) (subqueues rd)))"
    using refs_split [OF i(2)] by (simp add: ready_refs_def)
  have upd: "ready_refs rd' = concat (map snd (take i (subqueues rd))) @ (snd (subqueues rd ! i) @ [r]) @ concat (map snd (drop (Suc i) (subqueues rd)))"
    using refs_update [OF i(2)] i(3) by (simp add: ready_refs_def)
  have d: "distinct (ready_refs rd')" using assms(2,3) unfolding ready_ok_def split upd by auto
  have c: "ready_process_count rd' = int (length (ready_refs rd'))"
    using assms(2) to_ready_spec(5) [OF assms(1)] unfolding ready_ok_def split upd by simp
  have ne: "subqueues rd' \<noteq> []" using assms(2) i(3) by (simp add: ready_ok_def)
  have h: "highest_priority rd' = (if ready_process_count rd = 0 \<or> highest_priority rd > prio then prio else highest_priority rd)"
    using assms(1) by (auto simp: to_ready_eq split: if_splits)
  have "first_nonempty (subqueues rd') = Some (nat (highest_priority rd')) \<and> 0 \<le> highest_priority rd'" if m: "multilevel_queue rd"
  proof (cases "ready_process_count rd = 0")
    case True
    then have "first_nonempty (subqueues rd) = None" using assms(2) by (simp add: ready_ok_def first_nonempty_None ready_refs_def)
    then show ?thesis using True h i m by (simp add: first_nonempty_append queue_position_def)
  next
    case False
    then have "first_nonempty (subqueues rd) = Some (nat (highest_priority rd))" "0 \<le> highest_priority rd"
      using assms(2) m by (auto simp: ready_ok_def)
    then show ?thesis using False h i m by (auto simp: first_nonempty_append queue_position_def min_def)
  qed
  then show ?thesis using d c ne to_ready_spec(4) [OF assms(1)] by (auto simp: ready_ok_def)
qed

lemma take_next_spec:
  assumes "transition_take_ready_next_no_mutex rd = (Some r, rd')"
  shows "\<exists>i a rest. first_nonempty (subqueues rd) = Some i \<and> subqueues rd ! i = (a, r # rest)
      \<and> subqueues rd' = (subqueues rd)[i := (a, rest)] \<and> ready_process_count rd' = ready_process_count rd - 1"
    and "multilevel_queue rd' = multilevel_queue rd" "length (subqueues rd') = length (subqueues rd)"
    and "preempt_all rd' = preempt_all rd" "terminate_queue rd' = terminate_queue rd"
proof -
  obtain i where i: "first_nonempty (subqueues rd) = Some i" "hd (snd (subqueues rd ! i)) = r"
    using assms by (auto simp: transition_take_ready_next_no_mutex_def Let_def split: option.splits)
  then have "subqueues rd ! i = (fst (subqueues rd ! i), r # tl (snd (subqueues rd ! i)))"
    by (metis first_nonempty_Some list.collapse prod.collapse)
  moreover have "subqueues rd' = (subqueues rd)[i := (fst (subqueues rd ! i), tl (snd (subqueues rd ! i)))]"
      "ready_process_count rd' = ready_process_count rd - 1"
    using assms i(1) by (simp_all add: transition_take_ready_next_no_mutex_def update_highest_priority_ready_no_mutex_def Let_def
        split: option.splits if_splits; auto)+
  ultimately show "\<exists>i a rest. first_nonempty (subqueues rd) = Some i \<and> subqueues rd ! i = (a, r # rest)
      \<and> subqueues rd' = (subqueues rd)[i := (a, rest)] \<and> ready_process_count rd' = ready_process_count rd - 1"
    using i(1) by blast
qed (use assms in \<open>auto simp: transition_take_ready_next_no_mutex_def update_highest_priority_ready_no_mutex_def Let_def
        split: option.splits if_splits\<close>)

lemma take_next_refs:
  assumes "transition_take_ready_next_no_mutex rd = (Some r, rd')"
  shows "mset (ready_refs rd) = add_mset r (mset (ready_refs rd'))"
proof -
  obtain i a rest where i: "first_nonempty (subqueues rd) = Some i" "subqueues rd ! i = (a, r # rest)"
    "subqueues rd' = (subqueues rd)[i := (a, rest)]" using take_next_spec(1) [OF assms] by blast
  then have "i < length (subqueues rd)" by (simp add: first_nonempty_Some)
  from refs_split [OF this] refs_update [OF this] i show ?thesis by (simp add: ready_refs_def)
qed

lemma take_next_tl:
  assumes "transition_take_ready_next_no_mutex rd = (Some r, rd')"
  shows "ready_refs rd = r # ready_refs rd'"
proof -
  obtain i a rest where i: "first_nonempty (subqueues rd) = Some i" "subqueues rd ! i = (a, r # rest)"
    "subqueues rd' = (subqueues rd)[i := (a, rest)]" using take_next_spec(1) [OF assms] by blast
  then have il: "i < length (subqueues rd)" "\<forall>j<i. snd (subqueues rd ! j) = []" by (auto simp: first_nonempty_Some)
  then have "concat (map snd (take i (subqueues rd))) = []" by (auto simp: in_set_conv_nth) (metis snd_conv)
  with refs_split [OF il(1)] refs_update [OF il(1)] i show ?thesis by (simp add: ready_refs_def)
qed

lemma take_next_none:
  assumes "transition_take_ready_next_no_mutex rd = (None, rd')"
  shows "ready_refs rd = []" "rd' = rd"
  using assms by (auto simp: transition_take_ready_next_no_mutex_def ready_refs_def first_nonempty_None Let_def split: option.splits)

lemma take_next_ok:
  assumes "transition_take_ready_next_no_mutex rd = (Some r, rd')" "ready_ok rd"
  shows "ready_ok rd'" "r \<notin> set (ready_refs rd')"
proof -
  obtain i a rest where i: "first_nonempty (subqueues rd) = Some i" "subqueues rd ! i = (a, r # rest)"
    "subqueues rd' = (subqueues rd)[i := (a, rest)]" "ready_process_count rd' = ready_process_count rd - 1"
    using take_next_spec(1) [OF assms(1)] by blast
  have il: "i < length (subqueues rd)" using i by (simp add: first_nonempty_Some)
  have ms: "mset (ready_refs rd) = add_mset r (mset (ready_refs rd'))" by (rule take_next_refs [OF assms(1)])
  then have "distinct (r # ready_refs rd')" using assms(2) by (metis mset.simps(2) mset_eq_imp_distinct_iff ready_ok_def)
  then show "r \<notin> set (ready_refs rd')" by simp
  have len: "length (ready_refs rd) = Suc (length (ready_refs rd'))" using ms by (metis size_add_mset size_mset)
  have f: "first_nonempty (subqueues rd') = Some i" if "rest \<noteq> []"
    using i il that by (auto simp: first_nonempty_Some nth_list_update)
  have fe: "first_nonempty (subqueues rd') = Some (nat (highest_priority rd')) \<and> 0 \<le> highest_priority rd'"
    if "rest = []" "multilevel_queue rd" "0 < ready_process_count rd'"
  proof -
    from that i(4) have "first_nonempty (subqueues rd') \<noteq> None"
      using assms(2) len by (auto simp: first_nonempty_None ready_ok_def ready_refs_def)
    then show ?thesis using assms(1) i that
      by (auto simp: transition_take_ready_next_no_mutex_def update_highest_priority_ready_no_mutex_def Let_def)
  qed
  have h: "highest_priority rd' = highest_priority rd" if "rest \<noteq> []"
    using assms(1) i that by (auto simp: transition_take_ready_next_no_mutex_def Let_def)
  show "ready_ok rd'"
    using assms(2) \<open>distinct (r # ready_refs rd')\<close> len i f fe h take_next_spec(2,3) [OF assms(1)]
    unfolding ready_ok_def by (cases "rest = []") auto
qed

text \<open>Progress: a queue whose counter is not zero gives a process.\<close>

lemma take_next_progress:
  assumes "ready_ok rd" "ready_process_count rd \<noteq> 0"
  obtains r rd' where "transition_take_ready_next_no_mutex rd = (Some r, rd')"
proof -
  have "first_nonempty (subqueues rd) \<noteq> None" using assms by (auto simp: ready_ok_def first_nonempty_None ready_refs_def)
  then show thesis using that by (auto simp: transition_take_ready_next_no_mutex_def Let_def)
qed

end
