(* ===== verification/Sched_Lists.thy ===== *)
theory Sched_Lists
  imports Ready_Queue
begin

section \<open>Kernel Scheduler: EXEC, BLOCK, SUSP. BLOCK and SUSP. READY\<close>

text \<open>
  \<open>scheduler/exec_list.c\<close> and \<open>scheduler/blocking_list.c\<close>: the operations on the lists of the
  four states and the conditions of the waits. Priorities are read through the references,
  so an operation that reads the priority of a destroyed process is \<open>None\<close>.
\<close>

subsection \<open>exec\_list.c\<close>

definition init_exec_list :: "int \<Rightarrow> bool \<Rightarrow> t_execute_list" where
  "init_exec_list q preempt = \<lparr>exec_list = [], lowest_priority = 0, quantum = q, preemption = preempt\<rparr>"

fun lowest_of :: "pcb_ref list \<Rightarrow> (pcb_ref \<Rightarrow> t_pcb option) \<Rightarrow> int \<Rightarrow> int option" where
  "lowest_of [] st lowest = Some lowest"
| "lowest_of (r # rs) st lowest =
     (case st r of
        None \<Rightarrow> None
      | Some p \<Rightarrow> lowest_of rs st (if lowest < pcb_priority p then pcb_priority p else lowest))"

definition update_lowest_exec_priority :: "t_queues \<Rightarrow> t_queues option" where
  "update_lowest_exec_priority q =
     map_option (\<lambda>l. q\<lparr>exec := (exec q)\<lparr>lowest_priority := l\<rparr>\<rparr>) (lowest_of (exec_list (exec q)) (pcbs q) 0)"

text \<open>The quantum is converted to \<open>unsigned long\<close> for the comparison.\<close>

definition quantum_ended :: "t_execute_list \<Rightarrow> u64 \<Rightarrow> u64 \<Rightarrow> bool" where
  "quantum_ended ex start current_time \<longleftrightarrow> word_of_int (quantum ex) \<le> time_diff start current_time"

definition is_lowest_priority_in_exec :: "t_execute_list \<Rightarrow> int \<Rightarrow> bool" where
  "is_lowest_priority_in_exec ex prio \<longleftrightarrow> prio \<ge> lowest_priority ex"

text \<open>The conditions under which the two waits are over.\<close>

definition wait_queue_exec_empty :: "t_queues \<Rightarrow> t_queues option" where
  "wait_queue_exec_empty q = (if length (exec_list (exec q)) > 0 then None else Some q)"

definition wait_queue_exec_empty_with_syscalls :: "t_queues \<Rightarrow> t_queues option" where
  "wait_queue_exec_empty_with_syscalls q =
     (if int (length (exec_list (exec q))) - syscall_counter q > 0 then None else Some q)"

definition transition_to_exec :: "pcb_ref \<Rightarrow> t_queues \<Rightarrow> t_queues option" where
  "transition_to_exec pcb q =
     map_option (\<lambda>prio.
         q\<lparr>exec := (exec q)\<lparr>exec_list := exec_list (exec q) @ [pcb],
              lowest_priority := (if preemption (exec q) \<and> lowest_priority (exec q) < prio then prio
                                  else lowest_priority (exec q))\<rparr>\<rparr>)
       (get_priority_pcb pcb q)"

definition transition_take_exec :: "pcb_ref \<Rightarrow> t_queues \<Rightarrow> t_queues option" where
  "transition_take_exec pcb q =
     (let q1 = q\<lparr>exec := (exec q)\<lparr>exec_list := remove1 pcb (exec_list (exec q))\<rparr>\<rparr>
      in if preemption (exec q1) then update_lowest_exec_priority q1 else Some q1)"

definition transition_take_exec_next :: "t_queues \<Rightarrow> pcb_ref option \<times> t_queues" where
  "transition_take_exec_next q =
     (case exec_list (exec q) of
        [] \<Rightarrow> (None, q)
      | r # rs \<Rightarrow> (Some r, q\<lparr>exec := (exec q)\<lparr>exec_list := rs\<rparr>\<rparr>))"

subsection \<open>blocking\_list.c\<close>

definition init_blocking_list :: t_blocking_list where
  "init_blocking_list = \<lparr>bl_list = [], new_process = False\<rparr>"

definition blocking_list_is_empty :: "t_blocking_list \<Rightarrow> bool" where
  "blocking_list_is_empty bl \<longleftrightarrow> bl_list bl = []"

definition transition_to_block :: "pcb_ref \<Rightarrow> t_queues \<Rightarrow> t_queues option" where
  "transition_to_block pcb q =
     map_option (\<lambda>q1. q1\<lparr>block := (block q1)\<lparr>bl_list := bl_list (block q1) @ [pcb], new_process := True\<rparr>\<rparr>)
       (set_blocked_time pcb (millis q) q)"

definition transition_to_susp_block :: "pcb_ref \<Rightarrow> t_queues \<Rightarrow> t_queues option" where
  "transition_to_susp_block pcb q =
     map_option (\<lambda>(xs, slot). q\<lparr>susp_block := (susp_block q)\<lparr>bl_list := xs\<rparr>\<rparr>)
       (insert_pcb_sorted (bl_list (susp_block q)) pcb q)"

definition transition_to_susp_ready :: "pcb_ref \<Rightarrow> t_queues \<Rightarrow> t_queues option" where
  "transition_to_susp_ready pcb q =
     map_option (\<lambda>(xs, slot). q\<lparr>susp_ready := (susp_ready q)\<lparr>bl_list := xs\<rparr>\<rparr>)
       (insert_pcb_sorted (bl_list (susp_ready q)) pcb q)"

definition transition_take_block :: "pcb_ref \<Rightarrow> t_queues \<Rightarrow> t_queues option" where
  "transition_take_block pcb q =
     set_blocked_time pcb 0 (q\<lparr>block := (block q)\<lparr>bl_list := remove1 pcb (bl_list (block q))\<rparr>\<rparr>)"

definition transition_take_block_next :: "t_queues \<Rightarrow> (pcb_ref option \<times> t_queues) option" where
  "transition_take_block_next q =
     (case bl_list (block q) of
        [] \<Rightarrow> Some (None, q)
      | r # rs \<Rightarrow> map_option (Pair (Some r)) (set_blocked_time r 0 (q\<lparr>block := (block q)\<lparr>bl_list := rs\<rparr>\<rparr>)))"

definition transition_take_susp_block :: "pcb_ref \<Rightarrow> t_queues \<Rightarrow> t_queues" where
  "transition_take_susp_block pcb q = q\<lparr>susp_block := (susp_block q)\<lparr>bl_list := remove1 pcb (bl_list (susp_block q))\<rparr>\<rparr>"

definition transition_take_susp_block_next :: "t_queues \<Rightarrow> pcb_ref option \<times> t_queues" where
  "transition_take_susp_block_next q =
     (case bl_list (susp_block q) of
        [] \<Rightarrow> (None, q)
      | r # rs \<Rightarrow> (Some r, q\<lparr>susp_block := (susp_block q)\<lparr>bl_list := rs\<rparr>\<rparr>))"

definition transition_take_susp_ready :: "pcb_ref \<Rightarrow> t_queues \<Rightarrow> t_queues" where
  "transition_take_susp_ready pcb q = q\<lparr>susp_ready := (susp_ready q)\<lparr>bl_list := remove1 pcb (bl_list (susp_ready q))\<rparr>\<rparr>"

definition transition_take_susp_ready_next :: "t_queues \<Rightarrow> pcb_ref option \<times> t_queues" where
  "transition_take_susp_ready_next q =
     (case bl_list (susp_ready q) of
        [] \<Rightarrow> (None, q)
      | r # rs \<Rightarrow> (Some r, q\<lparr>susp_ready := (susp_ready q)\<lparr>bl_list := rs\<rparr>\<rparr>))"

subsection \<open>Sorted insertion\<close>

definition prio_of :: "t_queues \<Rightarrow> pcb_ref \<Rightarrow> int" where
  "prio_of q r = (case pcbs q r of Some p \<Rightarrow> pcb_priority p | None \<Rightarrow> 0)"

lemma insert_pcb_sorted_spec:
  assumes "insert_pcb_sorted xs pcb q = Some (ys, slot)"
  shows "\<exists>zs ws. xs = zs @ ws \<and> ys = zs @ pcb # ws \<and> slot = length zs
      \<and> (\<forall>z \<in> set zs. prio_of q z < prio_of q pcb) \<and> (ws = [] \<or> prio_of q pcb \<le> prio_of q (hd ws))"
proof -
  let ?c = "is_highest_priority (prio_of q)"
  have c: "is_highest_priority (\<lambda>r. case pcbs q r of Some p \<Rightarrow> pcb_priority p | None \<Rightarrow> 0) = ?c"
    by (simp add: prio_of_def [abs_def])
  have s: "sorted_slot ?c pcb xs = length (takeWhile (\<lambda>x. \<not> ?c pcb x) xs)"
    by (induction xs) auto
  have "ys = take (sorted_slot ?c pcb xs) xs @ pcb # drop (sorted_slot ?c pcb xs) xs" "slot = sorted_slot ?c pcb xs"
    using assms unfolding insert_pcb_sorted_def c by (auto simp: Let_def split: if_splits)
  then have "xs = takeWhile (\<lambda>x. \<not> ?c pcb x) xs @ dropWhile (\<lambda>x. \<not> ?c pcb x) xs
      \<and> ys = takeWhile (\<lambda>x. \<not> ?c pcb x) xs @ pcb # dropWhile (\<lambda>x. \<not> ?c pcb x) xs
      \<and> slot = length (takeWhile (\<lambda>x. \<not> ?c pcb x) xs)"
    by (simp add: s takeWhile_eq_take [symmetric] dropWhile_eq_drop [symmetric])
  moreover have "\<forall>z \<in> set (takeWhile (\<lambda>x. \<not> ?c pcb x) xs). prio_of q z < prio_of q pcb"
    by (auto dest!: set_takeWhileD simp: is_highest_priority_def)
  moreover have "dropWhile (\<lambda>x. \<not> ?c pcb x) xs = [] \<or> prio_of q pcb \<le> prio_of q (hd (dropWhile (\<lambda>x. \<not> ?c pcb x) xs))"
    by (metis (mono_tags, lifting) hd_dropWhile is_highest_priority_def)
  ultimately show ?thesis by blast
qed

lemma insert_pcb_sorted_mset:
  assumes "insert_pcb_sorted xs pcb q = Some (ys, slot)"
  shows "mset ys = add_mset pcb (mset xs)"
  using insert_pcb_sorted_spec [OF assms] by auto

lemma insert_pcb_sorted_Some:
  "pcbs q pcb \<noteq> None \<Longrightarrow> \<forall>r \<in> set xs. pcbs q r \<noteq> None \<Longrightarrow> \<exists>ys slot. insert_pcb_sorted xs pcb q = Some (ys, slot)"
  by (auto simp: insert_pcb_sorted_def list_all_iff Let_def)

lemma insert_pcb_sorted_sorted:
  assumes "insert_pcb_sorted xs pcb q = Some (ys, slot)" "sorted_wrt (\<lambda>a b. prio_of q a \<le> prio_of q b) xs"
  shows "sorted_wrt (\<lambda>a b. prio_of q a \<le> prio_of q b) ys"
proof -
  obtain zs ws where zw: "xs = zs @ ws" "ys = zs @ pcb # ws" "\<forall>z \<in> set zs. prio_of q z < prio_of q pcb"
    "ws = [] \<or> prio_of q pcb \<le> prio_of q (hd ws)" using insert_pcb_sorted_spec [OF assms(1)] by blast
  have "\<forall>w \<in> set ws. prio_of q pcb \<le> prio_of q w"
    using zw(1,4) assms(2) by (cases ws) (auto simp: sorted_wrt_append)
  then show ?thesis using zw assms(2) by (auto simp: sorted_wrt_append intro: less_imp_le)
qed

end
