(* ===== verification/Sched_Memory.thy ===== *)
theory Sched_Memory
  imports Sched_Lists
begin

section \<open>Kernel Scheduler: the conversation with Kernel Memory\<close>

text \<open>
  \<open>scheduler/kernel_memory_reply.c\<close>, \<open>scheduler/memory_query.c\<close>, \<open>connections/kernel_memory.c\<close>
  and the start of the resumption routine of \<open>scheduler/compaction.c\<close>. The caller holds the
  mutex of the socket, so a request and its reply are one step. While it waits for a reply
  the scheduler also reads the notifications about new sticks and lost memory.
\<close>

subsection \<open>Starting the resumption routine\<close>

definition is_compacting :: "t_queues \<Rightarrow> bool" where
  "is_compacting q = compaction_active q"

definition is_resuming :: "t_queues \<Rightarrow> bool" where
  "is_resuming q = resume_active q"

text \<open>\<open>set_is_\<dots>\<close> return the previous value.\<close>

definition set_is_resuming :: "bool \<Rightarrow> t_queues \<Rightarrow> bool \<times> t_queues" where
  "set_is_resuming new_state q = (resume_active q, q\<lparr>resume_active := new_state\<rparr>)"

definition set_is_compacting :: "bool \<Rightarrow> t_queues \<Rightarrow> bool \<times> t_queues" where
  "set_is_compacting new_state q = (compaction_active q, q\<lparr>compaction_active := new_state\<rparr>)"

definition create_resumption_routine_thread :: "t_queues \<Rightarrow> t_queues" where
  "create_resumption_routine_thread q =
     (if is_compacting q then q
      else (case set_is_resuming True q of
              (True, q1) \<Rightarrow> q1
            | (False, q1) \<Rightarrow>
                (let q2 = increment_thread_counter q1
                 in if threads_ok q2 then q2\<lparr>spawned := spawned q2 @ [Resumption_routine_thread]\<rparr>
                    else decrement_thread_counter q2)))"

subsection \<open>Replies\<close>

text \<open>
  The loop of \<open>receive_km_opcode\<close> on the bytes that arrive: the op code, the bytes left and
  the number of notifications of a new stick and the reason to shut down, if any.
\<close>

definition is_expected :: "int \<Rightarrow> int list \<Rightarrow> bool" where
  "is_expected op expected \<longleftrightarrow> op \<in> set expected"

function receive_km_opcode :: "int list \<Rightarrow> t_queues \<Rightarrow> (int \<times> t_queues) option" where
  "receive_km_opcode expected q =
     (case receive_op_code (from_km q) of
        (op, rest) \<Rightarrow>
          (if is_expected op expected then Some (op, q\<lparr>from_km := rest\<rparr>)
           else case receive_string rest of
                  None \<Rightarrow> None
                | Some (s, rest') \<Rightarrow>
                    (if op = OP_NEW_MEMORY_STICK
                     then receive_km_opcode expected (create_resumption_routine_thread (q\<lparr>from_km := rest'\<rparr>))
                     else if op = OP_MEMORY_CORRUPTED
                     then map_option (Pair OP_CODE_ERROR) (close_kernel_scheduler SR_CORRUPTED_MEMORY (q\<lparr>from_km := rest'\<rparr>))
                     else map_option (Pair OP_CODE_ERROR)
                            (close_kernel_scheduler SR_KERNEL_MEMORY_CONNECTION_FAILURE (q\<lparr>from_km := rest'\<rparr>)))))"
  by pat_completeness auto
termination
proof (relation "measure (length \<circ> from_km \<circ> snd)")
  fix expected :: "int list" and q :: t_queues and op rest x s rest'
  assume *: "(op, rest) = receive_op_code (from_km q)" "receive_string rest = Some x" "(s, rest') = x"
    "op = OP_NEW_MEMORY_STICK"
  have "length rest' \<le> length rest" "length rest < length (from_km q)"
    using receive_string_shrinks [of rest s rest'] receive_op_code_shrinks [of "from_km q" op rest] * by auto
  moreover have "from_km (create_resumption_routine_thread (q\<lparr>from_km := rest'\<rparr>)) = rest'"
    by (simp add: create_resumption_routine_thread_def set_is_resuming_def increment_thread_counter_def
        decrement_thread_counter_def Let_def split: bool.splits)
  ultimately show "((expected, create_resumption_routine_thread (q\<lparr>from_km := rest'\<rparr>)), (expected, q))
      \<in> measure (length \<circ> from_km \<circ> snd)" by simp
qed simp

declare receive_km_opcode.simps [simp del]

text \<open>A reply with a number: \<open>-1\<close> once the scheduler shuts down.\<close>

definition receive_number :: "int \<Rightarrow> t_queues \<Rightarrow> (int \<times> t_queues) option" where
  "receive_number expected_op q =
     (case receive_km_opcode [expected_op] q of
        None \<Rightarrow> None
      | Some (op, q1) \<Rightarrow>
          (if op = OP_CODE_ERROR then Some (-1, q1)
           else (case receive_buffer (from_km q1) of
                   Some (Some b, n, rest) \<Rightarrow>
                     (if length b < 4 then None else Some (bytes_int b, q1\<lparr>from_km := rest\<rparr>))
                 | _ \<Rightarrow> None)))"

definition receive_space :: "t_queues \<Rightarrow> (int \<times> t_queues) option" where
  "receive_space q = receive_number OP_FREE_MEMORY q"

definition receive_size :: "t_queues \<Rightarrow> (int \<times> t_queues) option" where
  "receive_size q = receive_number OP_PROCESS_SIZE q"

text \<open>A text reply that is only consumed.\<close>

definition skip_string :: "t_queues \<Rightarrow> t_queues option" where
  "skip_string q = map_option (\<lambda>(s, rest). q\<lparr>from_km := rest\<rparr>) (receive_string (from_km q))"

subsection \<open>Queries\<close>

definition space_available_no_mutex :: "t_queues \<Rightarrow> (int \<times> t_queues) option" where
  "space_available_no_mutex q =
     (case send_to_km (send_string OP_REQUEST_FREE_MEMORY ''Requesting the available space'') q of
        (False, q1) \<Rightarrow> map_option (Pair (-1)) (close_kernel_scheduler SR_KERNEL_MEMORY_SEND_ERROR q1)
      | (True, q1) \<Rightarrow> receive_space q1)"

text \<open>The socket is locked around the question and its answer.\<close>

definition space_available :: "t_queues \<Rightarrow> (int \<times> t_queues) option" where
  [simp]: "space_available q = space_available_no_mutex q"

definition process_size_no_mutex :: "u32 \<Rightarrow> t_queues \<Rightarrow> (int \<times> t_queues) option" where
  "process_size_no_mutex pid q =
     (case send_to_km (send_buffer OP_REQUEST_PROCESS_SIZE (u32_bytes pid)) q of
        (False, q1) \<Rightarrow> map_option (Pair (-1)) (close_kernel_scheduler SR_KERNEL_MEMORY_SEND_ERROR q1)
      | (True, q1) \<Rightarrow> receive_size q1)"

definition process_size :: "u32 \<Rightarrow> t_queues \<Rightarrow> (int \<times> t_queues) option" where
  [simp]: "process_size pid q = process_size_no_mutex pid q"

text \<open>The suspender asks without a log line.\<close>

definition receive_size_no_logger :: "t_queues \<Rightarrow> (int \<times> t_queues) option" where
  [simp]: "receive_size_no_logger q = receive_number OP_PROCESS_SIZE q"

definition process_size_no_mutex_no_logger :: "u32 \<Rightarrow> t_queues \<Rightarrow> (int \<times> t_queues) option" where
  "process_size_no_mutex_no_logger pid q =
     (case send_to_km (send_buffer OP_REQUEST_PROCESS_SIZE (u32_bytes pid)) q of
        (False, q1) \<Rightarrow> map_option (Pair (-1)) (close_kernel_scheduler SR_KERNEL_MEMORY_SEND_ERROR q1)
      | (True, q1) \<Rightarrow> receive_size_no_logger q1)"

definition process_size_no_logger :: "u32 \<Rightarrow> t_queues \<Rightarrow> (int \<times> t_queues) option" where
  "process_size_no_logger pid q = process_size_no_mutex_no_logger pid q"

lemma process_size_no_logger_eq [simp]: "process_size_no_logger pid q = process_size_no_mutex pid q"
  unfolding process_size_no_logger_def process_size_no_mutex_no_logger_def process_size_no_mutex_def receive_size_def
    receive_size_no_logger_def by (rule refl)

subsection \<open>Notifications\<close>

definition notify_terminate_process :: "u32 \<Rightarrow> t_queues \<Rightarrow> (bool \<times> t_queues) option" where
  "notify_terminate_process pid q =
     (case send_to_km (send_buffer OP_END_PROCESS (u32_bytes pid)) q of
        (False, q1) \<Rightarrow> map_option (Pair False) (close_kernel_scheduler SR_KERNEL_MEMORY_SEND_ERROR q1)
      | (True, q1) \<Rightarrow> Some (True, q1))"

definition notify_new_process :: "string \<Rightarrow> u32 \<Rightarrow> t_queues \<Rightarrow> (bool \<times> t_queues) option" where
  "notify_new_process instructions_file pid q =
     (case send_to_km (send_packet (packet_append (packet_append_string (create_packet OP_NEW_PROCESS) instructions_file)
              (u32_bytes pid))) q of
        (False, q1) \<Rightarrow> map_option (Pair False) (close_kernel_scheduler SR_KERNEL_MEMORY_SEND_ERROR q1)
      | (True, q1) \<Rightarrow>
          (case receive_km_opcode [OP_PROCESS_STARTED] q1 of
             None \<Rightarrow> None
           | Some (op, q2) \<Rightarrow>
               (if op = OP_PROCESS_STARTED then map_option (Pair True) (skip_string q2) else Some (False, q2))))"

definition receive_suspend_process_response :: "t_queues \<Rightarrow> (bool \<times> t_queues) option" where
  "receive_suspend_process_response q =
     (case receive_km_opcode [OP_SUSPENSION_OK, OP_SUSPENSION_FAILED] q of
        None \<Rightarrow> None
      | Some (op, q1) \<Rightarrow>
          (if op = OP_CODE_ERROR then Some (False, q1)
           else map_option (Pair (op = OP_SUSPENSION_OK)) (skip_string q1)))"

definition notify_process_suspended :: "u32 \<Rightarrow> t_queues \<Rightarrow> (bool \<times> t_queues) option" where
  "notify_process_suspended pid q =
     (case send_to_km (send_buffer OP_SUSPEND_PROCESS (u32_bytes pid)) q of
        (False, q1) \<Rightarrow> map_option (Pair False) (close_kernel_scheduler SR_KERNEL_MEMORY_SEND_ERROR q1)
      | (True, q1) \<Rightarrow> receive_suspend_process_response q1)"

definition fits_process :: "t_queues \<Rightarrow> (bool \<times> t_queues) option" where
  "fits_process q =
     (case receive_km_opcode [OP_RESUME_SUSPENSION_OK, OP_RESUME_SUSPENSION_FAILED] q of
        None \<Rightarrow> None
      | Some (op, q1) \<Rightarrow>
          (if op = OP_CODE_ERROR then Some (False, q1)
           else map_option (Pair (op = OP_RESUME_SUSPENSION_OK)) (skip_string q1)))"

definition notify_process_resume_suspended :: "u32 \<Rightarrow> t_queues \<Rightarrow> (bool \<times> t_queues) option" where
  "notify_process_resume_suspended pid q =
     (case send_to_km (send_buffer OP_RESUME_SUSPENDED_PROCESS (u32_bytes pid)) q of
        (False, q1) \<Rightarrow> map_option (Pair False) (close_kernel_scheduler SR_KERNEL_MEMORY_SEND_ERROR q1)
      | (True, q1) \<Rightarrow> fits_process q1)"

text \<open>C leaves the order of the two queries open; here the free space is asked first.\<close>

definition can_resume_suspended :: "u32 \<Rightarrow> t_queues \<Rightarrow> (bool \<times> t_queues) option" where
  "can_resume_suspended pid q =
     (case space_available q of
        None \<Rightarrow> None
      | Some (space, q1) \<Rightarrow>
          map_option (\<lambda>(sz, q2). (space \<ge> sz, q2)) (process_size pid q1))"

text \<open>One round of the connection check: whether the thread goes on.\<close>

definition thread_check_connection_kernel_memory :: "bool \<Rightarrow> t_queues \<Rightarrow> (bool \<times> t_queues) option" where
  "thread_check_connection_kernel_memory close_thread q =
     (case send_to_km (send_string OP_KERNEL_MEMORY_RUNNING ''Is Kernel Memory still connected?'') q of
        (False, q1) \<Rightarrow> map_option (Pair False) (close_kernel_scheduler SR_KERNEL_MEMORY_SEND_ERROR q1)
      | (True, q1) \<Rightarrow> Some (\<not> close_thread, q1))"

end
