(* ===== verification/Queues.thy ===== *)
theory Queues
  imports Sched_Memory
begin

section \<open>Kernel Scheduler: the seven-state machine\<close>

text \<open>
  \<open>scheduler/queues.c\<close> and the transitions of \<open>scheduler/suspension.c\<close>. A transition locks the
  state of the process for its whole body and is one step here. \<open>transition_to_exit\<close> waits
  until no worker uses the process and is \<open>None\<close> before that.
\<close>

subsection \<open>Creating the queues\<close>

text \<open>The worker threads run from the start; the fields before that are not initialised.\<close>

definition init_data_thread_suspended :: t_thread_state where
  [simp]: "init_data_thread_suspended = TS_RUNNING"

definition init_data_thread_suspender :: "int \<Rightarrow> t_queues \<Rightarrow> t_queues" where
  [simp]: "init_data_thread_suspender timeout q = q\<lparr>suspender := init_data_thread_suspended, suspension_timeout := timeout\<rparr>"

definition init_data_thread_resumer :: "t_queues \<Rightarrow> t_queues" where
  [simp]: "init_data_thread_resumer q = q\<lparr>resumer := init_data_thread_suspended\<rparr>"

definition start_threads_suspended :: "int \<Rightarrow> t_queues \<Rightarrow> t_queues" where
  [simp]: "start_threads_suspended timeout q = init_data_thread_resumer (init_data_thread_suspender timeout q)"

definition init_queues :: "t_scheduling_algorithm \<Rightarrow> t_scheduling_algorithm list \<Rightarrow> int \<Rightarrow> bool \<Rightarrow> int \<Rightarrow> t_queues" where
  "init_queues algorithm multilevel_algorithms q preempt timeout = start_threads_suspended timeout
     \<lparr>pcbs = (\<lambda>_. None), next_ref = 0, ready = init_ready_queue algorithm multilevel_algorithms,
      exec = init_exec_list q preempt, block = init_blocking_list, susp_block = init_blocking_list,
      susp_ready = init_blocking_list, active_process_count = init_counter_processes, thread_counter = create_counter, syscall_counter = create_counter,
      routine_active = False, terminate_routines = False, compaction_active = False, resume_active = False,
      suspender = TS_FINISHED, resumer = TS_FINISHED, suspension_timeout = 0, mutex_list = (\<lambda>_. None),
      shutdown = None, now = 0, from_km = [], km_open = True, to_km = [], threads_ok = True, spawned = []\<rparr>"

subsection \<open>Moving between READY and the store\<close>

definition put_ready :: "pcb_ref \<Rightarrow> t_queues \<Rightarrow> t_queues option" where
  "put_ready pcb q =
     (case get_priority_pcb pcb q of
        None \<Rightarrow> None
      | Some prio \<Rightarrow> map_option (\<lambda>rd. q\<lparr>ready := rd\<rparr>) (transition_to_ready pcb prio (ready q)))"

definition take_ready :: "pcb_ref \<Rightarrow> t_queues \<Rightarrow> t_queues option" where
  "take_ready pcb q =
     (case get_priority_pcb pcb q of
        None \<Rightarrow> None
      | Some prio \<Rightarrow> map_option (\<lambda>rd. q\<lparr>ready := rd\<rparr>) (transition_take_ready pcb prio (ready q)))"

definition manage_state_pcb :: "pcb_ref \<Rightarrow> t_process_state \<Rightarrow> t_process_state \<Rightarrow> t_queues \<Rightarrow> (bool \<times> t_queues) option" where
  "manage_state_pcb pcb expected_state next_state q =
     (case get_state_pcb pcb q of
        None \<Rightarrow> None
      | Some st \<Rightarrow>
          (if st = expected_state then map_option (Pair True) (update_pcb pcb (\<lambda>p. p\<lparr>pcb_state := next_state\<rparr>) q)
           else Some (False, q)))"

text \<open>A transition guarded by the state the process must be in.\<close>

definition guarded_move :: "pcb_ref \<Rightarrow> t_process_state \<Rightarrow> t_process_state \<Rightarrow> (t_queues \<Rightarrow> t_queues option) \<Rightarrow> t_queues \<Rightarrow> t_queues option" where
  "guarded_move pcb expected_state next_state move q =
     (case manage_state_pcb pcb expected_state next_state q of
        None \<Rightarrow> None
      | Some (moved, q1) \<Rightarrow> if moved then move q1 else Some q1)"

subsection \<open>EXIT and NEW\<close>

definition transition_to_exit :: "pcb_ref \<Rightarrow> t_process_end_reason \<Rightarrow> t_queues \<Rightarrow> t_queues option" where
  "transition_to_exit pcb reason q = do {
     q1 \<leftarrow> wait_zero_active_instances pcb q;
     p \<leftarrow> pcbs q1 pcb;
     q2 \<leftarrow> (if reason \<noteq> PER_SYSTEM_SHUTDOWN \<and> reason \<noteq> PER_INVALID_PRIORITY
            then do {
              (sz, q2) \<leftarrow> process_size (pcb_pid p) q1;
              (notified, q3) \<leftarrow> notify_terminate_process (pcb_pid p) q2;
              Some (if notified \<and> sz > 0 then create_resumption_routine_thread q3 else q3) }
            else Some q1);
     decrement_process_count (destroy_pcb pcb q2) }"

definition transition_take_new :: "string \<Rightarrow> int \<Rightarrow> t_queues \<Rightarrow> (pcb_ref option \<times> t_queues) option" where
  "transition_take_new instructions_file prio q =
     (case create_pcb PS_NEW prio q of
        (pcb, q1) \<Rightarrow> do {
          p \<leftarrow> pcbs q1 pcb;
          (started, q2) \<leftarrow> notify_new_process instructions_file (pcb_pid p) (increment_process_count q1);
          if started then Some (Some pcb, q2)
          else map_option (Pair None) (transition_to_exit pcb PER_SYSTEM_SHUTDOWN q2) })"

definition transition_new_ready :: "string \<Rightarrow> int \<Rightarrow> t_queues \<Rightarrow> t_queues option" where
  "transition_new_ready instructions_file prio q = do {
     (created, q1) \<leftarrow> transition_take_new instructions_file prio q;
     (case created of
        None \<Rightarrow> Some q1
      | Some pcb \<Rightarrow> do {
          p \<leftarrow> pcbs q1 pcb;
          if \<not> check_priority_valid (pcb_priority p) (ready q1)
          then transition_to_exit pcb PER_INVALID_PRIORITY q1
          else Option.bind (update_pcb pcb (\<lambda>p. p\<lparr>pcb_state := PS_READY\<rparr>) q1) (put_ready pcb) }) }"

subsection \<open>READY, EXEC and BLOCK\<close>

definition update_priority :: "pcb_ref \<Rightarrow> t_queues \<Rightarrow> t_queues option" where
  "update_priority pcb q =
     (if \<not> multilevel_queue (ready q) then Some q
      else do {
        st \<leftarrow> get_state_pcb pcb q;
        if st = PS_READY then Option.bind (take_ready pcb q) (put_ready pcb) else Some q })"

definition transition_ready_exec :: "pcb_ref \<Rightarrow> t_queues \<Rightarrow> t_queues option" where
  "transition_ready_exec pcb q = map_option snd (manage_state_pcb pcb PS_READY PS_EXEC q)"

definition transition_exec_ready :: "pcb_ref \<Rightarrow> t_queues \<Rightarrow> t_queues option" where
  "transition_exec_ready pcb q =
     guarded_move pcb PS_EXEC PS_READY (\<lambda>q1. Option.bind (transition_take_exec pcb q1) (put_ready pcb)) q"

definition transition_exec_exit :: "pcb_ref \<Rightarrow> t_process_end_reason \<Rightarrow> t_queues \<Rightarrow> t_queues option" where
  "transition_exec_exit pcb reason q =
     guarded_move pcb PS_EXEC PS_EXIT
       (\<lambda>q1. Option.bind (transition_take_exec pcb q1) (transition_to_exit pcb reason)) q"

definition transition_exec_block :: "pcb_ref \<Rightarrow> t_queues \<Rightarrow> t_queues option" where
  "transition_exec_block pcb q =
     guarded_move pcb PS_EXEC PS_BLOCK (\<lambda>q1. Option.bind (transition_take_exec pcb q1) (transition_to_block pcb)) q"

definition transition_block_ready_no_mutex :: "pcb_ref \<Rightarrow> t_queues \<Rightarrow> t_queues option" where
  "transition_block_ready_no_mutex pcb q =
     guarded_move pcb PS_BLOCK PS_READY (\<lambda>q1. Option.bind (transition_take_block pcb q1) (put_ready pcb)) q"

definition transition_susp_block :: "pcb_ref \<Rightarrow> t_queues \<Rightarrow> t_queues option" where
  "transition_susp_block pcb q =
     guarded_move pcb PS_SUSP_BLOCK PS_BLOCK (\<lambda>q1. transition_to_block pcb (transition_take_susp_block pcb q1)) q"

subsection \<open>Suspension\<close>

definition unlock_thread_suspended :: "t_thread_state \<Rightarrow> t_thread_state" where
  "unlock_thread_suspended st = (if st = TS_BLOCKED then TS_RUNNING else st)"

definition transition_block_susp_block_no_mutex :: "pcb_ref \<Rightarrow> t_queues \<Rightarrow> t_queues option" where
  "transition_block_susp_block_no_mutex pcb q = do {
     p \<leftarrow> pcbs q pcb;
     if pcb_state p \<noteq> PS_BLOCK then Some q
     else do {
       (suspended, q1) \<leftarrow> notify_process_suspended (pcb_pid p) q;
       if \<not> suspended then Some q1
       else do {
         q2 \<leftarrow> update_pcb pcb (\<lambda>p. p\<lparr>pcb_state := PS_SUSP_BLOCK\<rparr>) q1;
         q3 \<leftarrow> transition_take_block pcb q2;
         q4 \<leftarrow> transition_to_susp_block pcb q3;
         Some (if \<not> compaction_active q4 \<and> \<not> resume_active q4
               then q4\<lparr>resumer := unlock_thread_suspended (resumer q4)\<rparr> else q4) } } }"

definition transition_susp_block_susp_ready_no_mutex :: "pcb_ref \<Rightarrow> t_queues \<Rightarrow> t_queues option" where
  "transition_susp_block_susp_ready_no_mutex pcb q =
     guarded_move pcb PS_SUSP_BLOCK PS_SUSP_READY (\<lambda>q1. transition_to_susp_ready pcb (transition_take_susp_block pcb q1)) q"

definition transition_susp_ready_no_mutex :: "pcb_ref \<Rightarrow> t_queues \<Rightarrow> (bool \<times> t_queues) option" where
  "transition_susp_ready_no_mutex pcb q = do {
     p \<leftarrow> pcbs q pcb;
     if pcb_state p \<noteq> PS_SUSP_READY then Some (False, q)
     else do {
       (can_resume, q1) \<leftarrow> can_resume_suspended (pcb_pid p) q;
       if \<not> can_resume then Some (False, q1)
       else do {
         (resumed, q2) \<leftarrow> notify_process_resume_suspended (pcb_pid p) q1;
         if \<not> resumed then Some (False, q2)
         else do {
           q3 \<leftarrow> update_pcb pcb (\<lambda>p. p\<lparr>pcb_state := PS_READY\<rparr>) q2;
           q4 \<leftarrow> put_ready pcb (transition_take_susp_ready pcb q3);
           Some (True, q4) } } } }"

text \<open>The same moves with the lock of the process, for callers that do not hold it.\<close>

definition transition_block_ready :: "pcb_ref \<Rightarrow> t_queues \<Rightarrow> t_queues option" where
  "transition_block_ready pcb q = transition_block_ready_no_mutex pcb q"

definition transition_block_susp_block :: "pcb_ref \<Rightarrow> t_queues \<Rightarrow> t_queues option" where
  "transition_block_susp_block pcb q = transition_block_susp_block_no_mutex pcb q"

definition transition_susp_block_susp_ready :: "pcb_ref \<Rightarrow> t_queues \<Rightarrow> t_queues option" where
  "transition_susp_block_susp_ready pcb q = transition_susp_block_susp_ready_no_mutex pcb q"

definition transition_susp_ready :: "pcb_ref \<Rightarrow> t_queues \<Rightarrow> (bool \<times> t_queues) option" where
  "transition_susp_ready pcb q = transition_susp_ready_no_mutex pcb q"

definition transition_unlock :: "pcb_ref \<Rightarrow> t_queues \<Rightarrow> t_queues option" where
  "transition_unlock pcb q = do {
     st \<leftarrow> get_state_pcb pcb q;
     if st = PS_BLOCK then transition_block_ready_no_mutex pcb q else transition_susp_block_susp_ready_no_mutex pcb q }"

subsection \<open>Dispatching\<close>

text \<open>
  What a CPU thread does between taking a process from READY and putting it in EXEC: the take
  itself, \<open>transition_ready_exec\<close> and \<open>transition_to_exec\<close>.
\<close>

definition run_process :: "pcb_ref \<Rightarrow> t_queues \<Rightarrow> t_queues option" where
  "run_process pcb q = Option.bind (transition_ready_exec pcb q) (transition_to_exec pcb)"

definition dispatch :: "t_queues \<Rightarrow> (pcb_ref option \<times> t_queues) option" where
  "dispatch q =
     (case transition_take_ready_blocking (ready q) of
        None \<Rightarrow> None
      | Some (None, rd) \<Rightarrow> Some (None, q\<lparr>ready := rd\<rparr>)
      | Some (Some pcb, rd) \<Rightarrow> map_option (Pair (Some pcb)) (run_process pcb (q\<lparr>ready := rd\<rparr>)))"

subsection \<open>Shutting down\<close>

definition transition_any_exit :: "t_process_state \<Rightarrow> t_process_end_reason \<Rightarrow> t_queues \<Rightarrow> (bool \<times> t_queues) option" where
  "transition_any_exit st reason q = do {
     (taken, q1) \<leftarrow> (case st of
         PS_READY \<Rightarrow> (case transition_take_ready_next (ready q) of (r, rd) \<Rightarrow> Some (r, q\<lparr>ready := rd\<rparr>))
       | PS_EXEC \<Rightarrow> Some (transition_take_exec_next q)
       | PS_BLOCK \<Rightarrow> transition_take_block_next q
       | PS_SUSP_BLOCK \<Rightarrow> Some (transition_take_susp_block_next q)
       | PS_SUSP_READY \<Rightarrow> Some (transition_take_susp_ready_next q)
       | _ \<Rightarrow> Some (None, q));
     (case taken of
        None \<Rightarrow> Some (False, q1)
      | Some pcb \<Rightarrow> map_option (Pair True) (transition_to_exit pcb reason q1)) }"

end
