(* ===== verification/Queues_Inv.thy ===== *)
theory Queues_Inv
  imports Queues
begin

section \<open>The invariant of the seven-state machine\<close>

text \<open>
  \<open>queues_wf\<close>: every living process is in the list of its state and in no other, at most once;
  the list elements are alive; the READY queue is consistent; the process count is the number
  of living processes; every priority has a subqueue. Every transition keeps it, whatever
  Kernel Memory answers. The conversations with Kernel Memory change none of this
  (\<open>same_core\<close>).
\<close>

subsection \<open>What the conversations leave alone\<close>

definition same_core :: "t_queues \<Rightarrow> t_queues \<Rightarrow> bool" where
  "same_core q q' \<longleftrightarrow> pcbs q' = pcbs q \<and> next_ref q' = next_ref q \<and> ready q' = ready q \<and> exec q' = exec q
     \<and> block q' = block q \<and> susp_block q' = susp_block q \<and> susp_ready q' = susp_ready q
     \<and> active_process_count q' = active_process_count q \<and> mutex_list q' = mutex_list q
     \<and> syscall_counter q' = syscall_counter q \<and> compaction_active q' = compaction_active q \<and> now q' = now q
     \<and> suspension_timeout q' = suspension_timeout q"

named_theorems core_intros \<open>conversations keep the queues\<close>

lemma same_core_refl [simp, intro]: "same_core q q"
  by (simp add: same_core_def)

lemma same_core_trans [trans]: "same_core q q1 \<Longrightarrow> same_core q1 q2 \<Longrightarrow> same_core q q2"
  by (simp add: same_core_def)

lemma same_core_updates [simp]:
  "same_core q (q1\<lparr>from_km := x\<rparr>) = same_core q q1" "same_core (q\<lparr>from_km := x\<rparr>) q1 = same_core q q1"
  "same_core q (q1\<lparr>shutdown := y\<rparr>) = same_core q q1" "same_core q (q1\<lparr>to_km := x'\<rparr>) = same_core q q1"
  by (simp_all add: same_core_def)

lemma core_send_to_km [core_intros]: "send_to_km b q = (ok, q') \<Longrightarrow> same_core q q'"
  by (auto simp: send_to_km_def split: if_splits)

lemma core_close [core_intros]: "close_kernel_scheduler reason q = Some q' \<Longrightarrow> same_core q q'"
  by (auto simp: close_kernel_scheduler_def check_reason_shutdown_def notify_shutdown_kernel_memory_def send_to_km_def
      split: if_splits prod.splits)

lemma core_create_routine [core_intros]: "same_core q (create_resumption_routine_thread q)"
  by (simp add: create_resumption_routine_thread_def set_is_resuming_def increment_thread_counter_def
      decrement_thread_counter_def same_core_def Let_def split: bool.splits)

lemma core_receive_opcode [core_intros]: "receive_km_opcode expected q = Some (op, q') \<Longrightarrow> same_core q q'"
proof (induction expected q arbitrary: op q' rule: receive_km_opcode.induct)
  case (1 expected q)
  obtain o1 rest where o: "receive_op_code (from_km q) = (o1, rest)" by force
  show ?case
  proof (cases "is_expected o1 expected")
    case True
    with 1(2) o show ?thesis by (auto simp: receive_km_opcode.simps [of expected q])
  next
    case False
    with 1(2) o obtain s rest' where s: "receive_string rest = Some (s, rest')"
      by (auto simp: receive_km_opcode.simps [of expected q] split: option.splits)
    show ?thesis
    proof (cases "o1 = OP_NEW_MEMORY_STICK")
      case True
      with 1(2) o s False have "receive_km_opcode expected (create_resumption_routine_thread (q\<lparr>from_km := rest'\<rparr>)) = Some (op, q')"
        by (simp add: receive_km_opcode.simps [of expected q])
      from 1(1) [OF o [symmetric] False s refl True this]
      show ?thesis using core_create_routine [of "q\<lparr>from_km := rest'\<rparr>"] by (auto intro: same_core_trans)
    next
      case no: False
      with 1(2) o s False show ?thesis
        by (auto simp: receive_km_opcode.simps [of expected q] split: if_splits dest!: core_close)
    qed
  qed
qed

lemma core_receive_number [core_intros]: "receive_number op q = Some (i, q') \<Longrightarrow> same_core q q'"
  by (auto simp: receive_number_def split: option.splits if_splits dest!: core_receive_opcode)

lemma core_skip_string [core_intros]: "skip_string q = Some q' \<Longrightarrow> same_core q q'"
  by (auto simp: skip_string_def)

lemma core_space_available [core_intros]: "space_available_no_mutex q = Some (i, q') \<Longrightarrow> same_core q q'"
  by (auto simp: space_available_no_mutex_def receive_space_def split: prod.splits bool.splits
      dest!: core_send_to_km core_close core_receive_number intro: same_core_trans)

lemma core_process_size [core_intros]: "process_size_no_mutex pid q = Some (i, q') \<Longrightarrow> same_core q q'"
  by (auto simp: process_size_no_mutex_def receive_size_def split: prod.splits bool.splits
      dest!: core_send_to_km core_close core_receive_number intro: same_core_trans)

lemma core_notify_terminate [core_intros]: "notify_terminate_process pid q = Some (b, q') \<Longrightarrow> same_core q q'"
  by (auto simp: notify_terminate_process_def split: prod.splits bool.splits
      dest!: core_send_to_km core_close intro: same_core_trans)

lemma core_notify_new [core_intros]: "notify_new_process file pid q = Some (b, q') \<Longrightarrow> same_core q q'"
  by (auto simp: notify_new_process_def split: prod.splits bool.splits option.splits if_splits
      dest!: core_send_to_km core_close core_receive_opcode core_skip_string intro: same_core_trans)

lemma core_notify_suspended [core_intros]: "notify_process_suspended pid q = Some (b, q') \<Longrightarrow> same_core q q'"
  by (auto simp: notify_process_suspended_def receive_suspend_process_response_def
      split: prod.splits bool.splits option.splits if_splits
      dest!: core_send_to_km core_close core_receive_opcode core_skip_string intro: same_core_trans)

lemma core_notify_resume [core_intros]: "notify_process_resume_suspended pid q = Some (b, q') \<Longrightarrow> same_core q q'"
  by (auto simp: notify_process_resume_suspended_def fits_process_def
      split: prod.splits bool.splits option.splits if_splits
      dest!: core_send_to_km core_close core_receive_opcode core_skip_string intro: same_core_trans)

lemma core_can_resume [core_intros]: "can_resume_suspended pid q = Some (b, q') \<Longrightarrow> same_core q q'"
  by (auto simp: can_resume_suspended_def split: option.splits
      dest!: core_space_available core_process_size intro: same_core_trans)

subsection \<open>The invariant\<close>

fun refs_in :: "t_process_state \<Rightarrow> t_queues \<Rightarrow> pcb_ref list" where
  "refs_in PS_READY q = ready_refs (ready q)"
| "refs_in PS_EXEC q = exec_list (exec q)"
| "refs_in PS_BLOCK q = bl_list (block q)"
| "refs_in PS_SUSP_BLOCK q = bl_list (susp_block q)"
| "refs_in PS_SUSP_READY q = bl_list (susp_ready q)"
| "refs_in PS_NEW q = []"
| "refs_in PS_EXIT q = []"

definition lists_match :: "t_queues \<Rightarrow> bool" where
  "lists_match q \<longleftrightarrow> (\<forall>st r. r \<in> set (refs_in st q) \<longleftrightarrow> (\<exists>p. pcbs q r = Some p \<and> pcb_state p = st))
     \<and> (\<forall>st. distinct (refs_in st q))"

definition store_ok :: "t_queues \<Rightarrow> bool" where
  "store_ok q \<longleftrightarrow> finite (dom (pcbs q)) \<and> (\<forall>r \<in> dom (pcbs q). r < next_ref q)
     \<and> active_process_count q = int (card (dom (pcbs q)))
     \<and> (\<forall>r p. pcbs q r = Some p \<longrightarrow> 0 \<le> queue_position (pcb_priority p) (ready q)
          \<and> queue_position (pcb_priority p) (ready q) < queue_count (ready q) \<and> active_instances p = 0)"

text \<open>With \<open>MULTILEVEL\<close>, a READY process waits in the subqueue of its priority.\<close>

definition placed :: "t_queues \<Rightarrow> bool" where
  "placed q \<longleftrightarrow> (multilevel_queue (ready q) \<longrightarrow>
     (\<forall>i < length (subqueues (ready q)). \<forall>r \<in> set (snd (subqueues (ready q) ! i)). \<forall>p.
        pcbs q r = Some p \<longrightarrow> pcb_priority p = int i))"

definition queues_wf :: "t_queues \<Rightarrow> bool" where
  "queues_wf q \<longleftrightarrow> lists_match q \<and> store_ok q \<and> ready_ok (ready q) \<and> placed q"

lemma refs_in_core: "same_core q q' \<Longrightarrow> refs_in st q' = refs_in st q"
  by (cases st) (auto simp: same_core_def)

lemma queues_wf_core: "same_core q q' \<Longrightarrow> queues_wf q' = queues_wf q"
  using refs_in_core [of q q'] by (auto simp: queues_wf_def lists_match_def store_ok_def placed_def same_core_def)

text \<open>A process on the way between two lists: alive, in no list, in state \<open>st\<close>.\<close>

definition in_transit :: "pcb_ref \<Rightarrow> t_process_state \<Rightarrow> t_queues \<Rightarrow> bool" where
  "in_transit r st q \<longleftrightarrow> store_ok q \<and> ready_ok (ready q) \<and> placed q \<and> (\<exists>p. pcbs q r = Some p \<and> pcb_state p = st)
     \<and> (\<forall>st' r'. r' \<in> set (refs_in st' q) \<longleftrightarrow> r' \<noteq> r \<and> (\<exists>p. pcbs q r' = Some p \<and> pcb_state p = st'))
     \<and> (\<forall>st'. distinct (refs_in st' q))"

lemma in_transit_core: "same_core q q' \<Longrightarrow> in_transit r st q' = in_transit r st q"
  using refs_in_core [of q q'] by (auto simp: in_transit_def store_ok_def placed_def same_core_def)

lemma store_ok_update_pcb:
  assumes "store_ok q" "pcbs q r = Some p" "pcb_priority p' = pcb_priority p" "active_instances p' = active_instances p"
  shows "store_ok (q\<lparr>pcbs := (pcbs q)(r \<mapsto> p')\<rparr>)"
proof -
  have "dom ((pcbs q)(r \<mapsto> p')) = dom (pcbs q)" using assms(2) by auto
  with assms show ?thesis by (auto simp: store_ok_def)
qed

lemma refs_in_pcbs [simp]: "refs_in st (q\<lparr>pcbs := x\<rparr>) = refs_in st q"
  by (cases st) auto

text \<open>Leaving a list and joining one.\<close>

lemma depart:
  assumes wf: "queues_wf q" and p: "pcbs q r = Some p"
    and p': "pcb_priority p' = pcb_priority p" "active_instances p' = active_instances p"
    and q': "pcbs q' = (pcbs q)(r \<mapsto> p')" "next_ref q' = next_ref q" "ready q' = ready q"
      "active_process_count q' = active_process_count q" "refs_in (pcb_state p) q' = remove1 r (refs_in (pcb_state p) q)"
      "\<forall>st. st \<noteq> pcb_state p \<longrightarrow> refs_in st q' = refs_in st q"
  shows "in_transit r (pcb_state p') q'"
proof -
  have dom: "dom (pcbs q') = dom (pcbs q)" using p q'(1) by auto
  have store: "store_ok q'"
    using wf p p' q'(1-4) unfolding queues_wf_def store_ok_def dom by (auto split: if_splits)
  have d: "distinct (refs_in st q)" for st using wf by (simp add: queues_wf_def lists_match_def)
  have m: "r' \<in> set (refs_in st q) \<longleftrightarrow> (\<exists>p. pcbs q r' = Some p \<and> pcb_state p = st)" for st r'
    using wf by (simp add: queues_wf_def lists_match_def)
  have "distinct (refs_in st q')" for st using d q'(5,6) by (cases "st = pcb_state p") auto
  moreover have "r' \<in> set (refs_in st q') \<longleftrightarrow> r' \<noteq> r \<and> (\<exists>p. pcbs q' r' = Some p \<and> pcb_state p = st)" for st r'
    using d m p q'(1,5,6) by (cases "st = pcb_state p") (auto simp: set_remove1_eq)
  moreover have "placed q'" using wf p p' q'(1,3) by (auto simp: queues_wf_def placed_def split: if_splits)
  ultimately show ?thesis using store wf q'(1,3) by (auto simp: in_transit_def queues_wf_def)
qed

lemma arrive:
  assumes tr: "in_transit r st q" and p: "pcbs q r = Some p"
    and p': "pcb_priority p' = pcb_priority p" "active_instances p' = active_instances p" "pcb_state p' = st"
    and q': "pcbs q' = (pcbs q)(r \<mapsto> p')" "next_ref q' = next_ref q" "ready_ok (ready q')"
      "multilevel_queue (ready q') = multilevel_queue (ready q)" "length (subqueues (ready q')) = length (subqueues (ready q))"
      "active_process_count q' = active_process_count q" "mset (refs_in st q') = add_mset r (mset (refs_in st q))"
      "\<forall>st'. st' \<noteq> st \<longrightarrow> refs_in st' q' = refs_in st' q"
    and pl: "\<forall>i r'. i < length (subqueues (ready q)) \<longrightarrow> r' \<in> set (snd (subqueues (ready q') ! i)) \<longrightarrow>
      r' \<in> set (snd (subqueues (ready q) ! i)) \<or> r' = r \<and> (multilevel_queue (ready q) \<longrightarrow> pcb_priority p = int i)"
  shows "queues_wf q'"
proof -
  have dom: "dom (pcbs q') = dom (pcbs q)" using p q'(1) by auto
  have st: "pcb_state p = st" using tr p by (auto simp: in_transit_def)
  have store: "store_ok q'"
    using tr p p' q'(1-6) unfolding in_transit_def store_ok_def dom
    by (auto simp: queue_position_def queue_count_def split: if_splits)
  have d: "distinct (refs_in st' q)" for st' using tr by (simp add: in_transit_def)
  have m: "r' \<in> set (refs_in st' q) \<longleftrightarrow> r' \<noteq> r \<and> (\<exists>p. pcbs q r' = Some p \<and> pcb_state p = st')" for st' r'
    using tr by (simp add: in_transit_def)
  have set: "set (refs_in st q') = insert r (set (refs_in st q))" using q'(7) by (metis set_mset_add_mset_insert set_mset_mset)
  have "distinct (refs_in st q')"
    using q'(7) d [of st] m [of r st] mset_eq_imp_distinct_iff [of "refs_in st q'" "r # refs_in st q"] by simp
  then have "distinct (refs_in st' q')" for st' using d q'(8) by (cases "st' = st") auto
  moreover have "r' \<in> set (refs_in st' q') \<longleftrightarrow> (\<exists>p. pcbs q' r' = Some p \<and> pcb_state p = st')" for st' r'
    using m p p' st q'(1,8) set by (cases "st' = st") auto
  moreover have "pcb_priority p2 = int i" if ml: "multilevel_queue (ready q)" and i: "i < length (subqueues (ready q))"
      and r': "r' \<in> set (snd (subqueues (ready q') ! i))" and p2: "pcbs q' r' = Some p2" for i r' p2
  proof (cases "r' = r")
    case True
    have "r \<notin> set (snd (subqueues (ready q) ! i)) \<or> pcb_priority p = int i"
      using tr ml i p unfolding in_transit_def placed_def by blast
    then show ?thesis using True pl i ml r' p2 p'(1) q'(1) by auto
  next
    case False
    then have "r' \<in> set (snd (subqueues (ready q) ! i))" "pcbs q r' = Some p2" using pl i r' p2 q'(1) by auto
    then show ?thesis using tr ml i unfolding in_transit_def placed_def by blast
  qed
  then have "placed q'" using q'(4,5) by (simp add: placed_def)
  ultimately show ?thesis using store q'(3) by (auto simp: queues_wf_def lists_match_def)
qed

lemma vanish:
  assumes "in_transit r st q"
  shows "queues_wf (q\<lparr>pcbs := (pcbs q)(r := None), active_process_count := active_process_count q - 1\<rparr>)"
proof -
  have s: "store_ok q" and r: "r \<in> dom (pcbs q)" using assms by (auto simp: in_transit_def)
  have dom: "dom ((pcbs q)(r := None)) = dom (pcbs q) - {r}" by auto
  have "card (dom (pcbs q)) = Suc (card (dom (pcbs q) - {r}))"
    using s r by (metis card_Suc_Diff1 store_ok_def)
  then have "store_ok (q\<lparr>pcbs := (pcbs q)(r := None), active_process_count := active_process_count q - 1\<rparr>)"
    using s by (auto simp: store_ok_def dom split: if_splits)
  moreover have "refs_in st (q\<lparr>pcbs := x, active_process_count := y\<rparr>) = refs_in st q" for st x y by (cases st) auto
  moreover have "placed (q\<lparr>pcbs := (pcbs q)(r := None), active_process_count := active_process_count q - 1\<rparr>)"
    using assms by (auto simp: in_transit_def placed_def split: if_splits)
  ultimately show ?thesis using assms by (auto simp: queues_wf_def lists_match_def in_transit_def)
qed

subsection \<open>The moves\<close>

lemma all_states:
  "(\<forall>st. P st) \<longleftrightarrow> P PS_NEW \<and> P PS_READY \<and> P PS_EXEC \<and> P PS_BLOCK \<and> P PS_SUSP_BLOCK \<and> P PS_SUSP_READY \<and> P PS_EXIT"
  by (metis t_process_state.exhaust)

lemma wf_member:
  "queues_wf q \<Longrightarrow> pcbs q r = Some p \<Longrightarrow> r \<in> set (refs_in (pcb_state p) q)"
  "queues_wf q \<Longrightarrow> r \<in> set (refs_in st q) \<Longrightarrow> \<exists>p. pcbs q r = Some p \<and> pcb_state p = st"
  "in_transit r' st' q \<Longrightarrow> r \<in> set (refs_in st q) \<Longrightarrow> \<exists>p. pcbs q r = Some p \<and> pcb_state p = st"
  by (auto simp: queues_wf_def lists_match_def in_transit_def)

lemma lowest_of_Some:
  "\<forall>r \<in> set rs. st r \<noteq> None \<Longrightarrow> \<exists>l. lowest_of rs st x = Some l"
  by (induction rs arbitrary: x) (auto split: option.splits)

lemma put_ready_wf:
  assumes "in_transit r PS_READY q"
  shows "\<exists>q'. put_ready r q = Some q' \<and> queues_wf q'"
proof -
  obtain p where p: "pcbs q r = Some p" "pcb_state p = PS_READY" using assms by (auto simp: in_transit_def)
  have ok: "ready_ok (ready q)" and fresh: "r \<notin> set (ready_refs (ready q))" and pos: "0 \<le> queue_position (pcb_priority p) (ready q)"
    "queue_position (pcb_priority p) (ready q) < queue_count (ready q)"
    using assms p by (auto simp: in_transit_def store_ok_def dest: spec [of _ PS_READY])
  obtain rd where rd: "transition_to_ready r (pcb_priority p) (ready q) = Some rd" using to_ready_Some [OF pos] by blast
  let ?q = "q\<lparr>ready := rd\<rparr>"
  have "ready_ok rd" by (rule to_ready_ok [OF rd ok fresh])
  moreover have "mset (ready_refs rd) = add_mset r (mset (ready_refs (ready q)))"
  proof -
    have "distinct (ready_refs rd)" "distinct (r # ready_refs (ready q))" using \<open>ready_ok rd\<close> ok fresh by (auto simp: ready_ok_def)
    moreover have "set (ready_refs rd) = set (r # ready_refs (ready q))" using to_ready_spec(2) [OF rd] by simp
    ultimately have "mset (ready_refs rd) = mset (r # ready_refs (ready q))" by (metis set_eq_iff_mset_eq_distinct)
    then show ?thesis by simp
  qed
  moreover have "\<forall>i r'. i < length (subqueues (ready q)) \<longrightarrow> r' \<in> set (snd (subqueues rd ! i)) \<longrightarrow>
      r' \<in> set (snd (subqueues (ready q) ! i)) \<or> r' = r \<and> (multilevel_queue (ready q) \<longrightarrow> pcb_priority p = int i)"
    using to_ready_spec(1) [OF rd] by (auto simp: nth_list_update queue_position_def split: if_splits)
  ultimately have "queues_wf ?q"
    using arrive [OF assms p(1) refl refl p(2), of ?q] to_ready_spec(3,4) [OF rd] p by (simp add: all_states fun_upd_idem)
  then show ?thesis using rd p by (simp add: put_ready_def get_priority_pcb_def)
qed

lemma take_exec_transit:
  assumes "queues_wf q" "pcbs q r = Some p" "pcb_state p = PS_EXEC"
  shows "\<exists>q'. transition_take_exec r (q\<lparr>pcbs := (pcbs q)(r \<mapsto> p\<lparr>pcb_state := st\<rparr>)\<rparr>) = Some q' \<and> in_transit r st q'
     \<and> pcbs q' = (pcbs q)(r \<mapsto> p\<lparr>pcb_state := st\<rparr>)"
proof -
  let ?q1 = "q\<lparr>pcbs := (pcbs q)(r \<mapsto> p\<lparr>pcb_state := st\<rparr>)\<rparr>"
  let ?rs = "remove1 r (exec_list (exec q))"
  have "\<forall>r' \<in> set ?rs. (pcbs ?q1) r' \<noteq> None"
    using wf_member(2) [OF assms(1), of _ PS_EXEC] by (force dest: notin_set_remove1 set_remove1_subset [THEN subsetD])
  then obtain l where l: "lowest_of ?rs (pcbs ?q1) 0 = Some l" using lowest_of_Some by blast
  let ?q' = "\<lambda>l. ?q1\<lparr>exec := (exec q)\<lparr>exec_list := ?rs, lowest_priority := l\<rparr>\<rparr>"
  have tr: "in_transit r st (?q' l)" for l
    using depart [OF assms(1,2), of "p\<lparr>pcb_state := st\<rparr>" "?q' l"] assms(3) by (simp add: all_states)
  show ?thesis
  proof (cases "preemption (exec q)")
    case True
    then have "transition_take_exec r ?q1 = Some (?q' l)"
      using l by (simp add: transition_take_exec_def update_lowest_exec_priority_def)
    then show ?thesis using tr by simp
  next
    case False
    then have "transition_take_exec r ?q1 = Some (?q1\<lparr>exec := (exec q)\<lparr>exec_list := ?rs\<rparr>\<rparr>)"
      by (simp add: transition_take_exec_def)
    moreover have "in_transit r st (?q1\<lparr>exec := (exec q)\<lparr>exec_list := ?rs\<rparr>\<rparr>)"
      using depart [OF assms(1,2), of "p\<lparr>pcb_state := st\<rparr>" "?q1\<lparr>exec := (exec q)\<lparr>exec_list := ?rs\<rparr>\<rparr>"] assms(3)
      by (simp add: all_states)
    ultimately show ?thesis by simp
  qed
qed

lemma to_exec_wf:
  assumes "in_transit r PS_EXEC q"
  shows "\<exists>q'. transition_to_exec r q = Some q' \<and> queues_wf q'"
proof -
  obtain p where p: "pcbs q r = Some p" "pcb_state p = PS_EXEC" using assms by (auto simp: in_transit_def)
  obtain q' where q': "transition_to_exec r q = Some q'" using p by (simp add: transition_to_exec_def get_priority_pcb_def)
  have "queues_wf q'"
    using arrive [OF assms p(1) refl refl p(2), of q'] q' assms p(1)
    by (auto simp: transition_to_exec_def get_priority_pcb_def all_states fun_upd_idem in_transit_def)
  then show ?thesis using q' by blast
qed

lemma take_block_transit:
  assumes "queues_wf q" "pcbs q r = Some p" "pcb_state p = PS_BLOCK"
  shows "\<exists>q'. transition_take_block r (q\<lparr>pcbs := (pcbs q)(r \<mapsto> p\<lparr>pcb_state := st\<rparr>)\<rparr>) = Some q' \<and> in_transit r st q'"
proof -
  let ?q1 = "q\<lparr>pcbs := (pcbs q)(r \<mapsto> p\<lparr>pcb_state := st\<rparr>)\<rparr>"
  let ?p' = "p\<lparr>pcb_state := st, blocked_time := 0\<rparr>"
  obtain q' where q': "transition_take_block r ?q1 = Some q'" "pcbs q' = (pcbs q)(r \<mapsto> ?p')"
    "q' = q\<lparr>pcbs := (pcbs q)(r \<mapsto> ?p'), block := (block q)\<lparr>bl_list := remove1 r (bl_list (block q))\<rparr>\<rparr>"
    using assms(2) by (simp add: transition_take_block_def set_blocked_time_def update_pcb_def)
  have "in_transit r (pcb_state ?p') q'"
    using depart [OF assms(1,2), of ?p' q'] q' assms(3) by (simp add: all_states)
  then show ?thesis using q'(1) by simp
qed

lemma to_block_wf:
  assumes "in_transit r PS_BLOCK q"
  shows "\<exists>q'. transition_to_block r q = Some q' \<and> queues_wf q'"
proof -
  obtain p where p: "pcbs q r = Some p" "pcb_state p = PS_BLOCK" using assms by (auto simp: in_transit_def)
  let ?p' = "p\<lparr>blocked_time := now q\<rparr>"
  obtain q' where q': "transition_to_block r q = Some q'"
    "q' = q\<lparr>pcbs := (pcbs q)(r \<mapsto> ?p'), block := (block q)\<lparr>bl_list := bl_list (block q) @ [r], new_process := True\<rparr>\<rparr>"
    using p by (simp add: transition_to_block_def set_blocked_time_def update_pcb_def millis_def)
  have "queues_wf q'"
    using arrive [OF assms p(1), of ?p' q'] q' assms p by (simp add: all_states in_transit_def)
  then show ?thesis using q' by blast
qed

lemma take_susp_block_transit:
  assumes "queues_wf q" "pcbs q r = Some p" "pcb_state p = PS_SUSP_BLOCK"
  shows "in_transit r st (transition_take_susp_block r (q\<lparr>pcbs := (pcbs q)(r \<mapsto> p\<lparr>pcb_state := st\<rparr>)\<rparr>))"
  using depart [OF assms(1,2), of "p\<lparr>pcb_state := st\<rparr>" "transition_take_susp_block r (q\<lparr>pcbs := (pcbs q)(r \<mapsto> p\<lparr>pcb_state := st\<rparr>)\<rparr>)"]
    assms(3) by (simp add: transition_take_susp_block_def all_states)

lemma take_susp_ready_transit:
  assumes "queues_wf q" "pcbs q r = Some p" "pcb_state p = PS_SUSP_READY"
  shows "in_transit r st (transition_take_susp_ready r (q\<lparr>pcbs := (pcbs q)(r \<mapsto> p\<lparr>pcb_state := st\<rparr>)\<rparr>))"
  using depart [OF assms(1,2), of "p\<lparr>pcb_state := st\<rparr>" "transition_take_susp_ready r (q\<lparr>pcbs := (pcbs q)(r \<mapsto> p\<lparr>pcb_state := st\<rparr>)\<rparr>)"]
    assms(3) by (simp add: transition_take_susp_ready_def all_states)

lemma to_susp_block_wf:
  assumes "in_transit r PS_SUSP_BLOCK q"
  shows "\<exists>q'. transition_to_susp_block r q = Some q' \<and> queues_wf q'"
proof -
  obtain p where p: "pcbs q r = Some p" "pcb_state p = PS_SUSP_BLOCK" using assms by (auto simp: in_transit_def)
  have "\<forall>r' \<in> set (bl_list (susp_block q)). pcbs q r' \<noteq> None" using wf_member(3) [OF assms, of _ PS_SUSP_BLOCK] by force
  then obtain ys slot where ys: "insert_pcb_sorted (bl_list (susp_block q)) r q = Some (ys, slot)"
    using insert_pcb_sorted_Some [of q r "bl_list (susp_block q)"] p by auto
  let ?q = "q\<lparr>susp_block := (susp_block q)\<lparr>bl_list := ys\<rparr>\<rparr>"
  have "queues_wf ?q"
    using arrive [OF assms p(1) refl refl p(2), of ?q] insert_pcb_sorted_mset [OF ys] assms p(1)
    by (simp add: all_states fun_upd_idem in_transit_def)
  then show ?thesis using ys by (simp add: transition_to_susp_block_def)
qed

lemma to_susp_ready_wf:
  assumes "in_transit r PS_SUSP_READY q"
  shows "\<exists>q'. transition_to_susp_ready r q = Some q' \<and> queues_wf q'"
proof -
  obtain p where p: "pcbs q r = Some p" "pcb_state p = PS_SUSP_READY" using assms by (auto simp: in_transit_def)
  have "\<forall>r' \<in> set (bl_list (susp_ready q)). pcbs q r' \<noteq> None" using wf_member(3) [OF assms, of _ PS_SUSP_READY] by force
  then obtain ys slot where ys: "insert_pcb_sorted (bl_list (susp_ready q)) r q = Some (ys, slot)"
    using insert_pcb_sorted_Some [of q r "bl_list (susp_ready q)"] p by auto
  let ?q = "q\<lparr>susp_ready := (susp_ready q)\<lparr>bl_list := ys\<rparr>\<rparr>"
  have "queues_wf ?q"
    using arrive [OF assms p(1) refl refl p(2), of ?q] insert_pcb_sorted_mset [OF ys] assms p(1)
    by (simp add: all_states fun_upd_idem in_transit_def)
  then show ?thesis using ys by (simp add: transition_to_susp_ready_def)
qed

subsection \<open>The transitions keep the invariant\<close>

lemma guarded_move_eq:
  "pcbs q r = Some p \<Longrightarrow> guarded_move r e n move q =
     (if pcb_state p = e then move (q\<lparr>pcbs := (pcbs q)(r \<mapsto> p\<lparr>pcb_state := n\<rparr>)\<rparr>) else Some q)"
  by (simp add: guarded_move_def manage_state_pcb_def get_state_pcb_def update_pcb_def)

lemma transition_exec_ready_wf:
  assumes "queues_wf q" "pcbs q r = Some p"
  shows "\<exists>q'. transition_exec_ready r q = Some q' \<and> queues_wf q'"
  using take_exec_transit [OF assms, of PS_READY] put_ready_wf [of r] assms
  by (fastforce simp: transition_exec_ready_def guarded_move_eq)

lemma transition_exec_block_wf:
  assumes "queues_wf q" "pcbs q r = Some p"
  shows "\<exists>q'. transition_exec_block r q = Some q' \<and> queues_wf q'"
  using take_exec_transit [OF assms, of PS_BLOCK] to_block_wf [of r] assms
  by (fastforce simp: transition_exec_block_def guarded_move_eq)

lemma transition_block_ready_wf:
  assumes "queues_wf q" "pcbs q r = Some p"
  shows "\<exists>q'. transition_block_ready_no_mutex r q = Some q' \<and> queues_wf q'"
  using take_block_transit [OF assms, of PS_READY] put_ready_wf [of r] assms
  by (fastforce simp: transition_block_ready_no_mutex_def guarded_move_eq)

lemma transition_susp_block_wf:
  assumes "queues_wf q" "pcbs q r = Some p"
  shows "\<exists>q'. transition_susp_block r q = Some q' \<and> queues_wf q'"
  using take_susp_block_transit [OF assms, of PS_BLOCK] to_block_wf [of r] assms
  by (fastforce simp: transition_susp_block_def guarded_move_eq)

lemma transition_susp_block_susp_ready_wf:
  assumes "queues_wf q" "pcbs q r = Some p"
  shows "\<exists>q'. transition_susp_block_susp_ready_no_mutex r q = Some q' \<and> queues_wf q'"
  using take_susp_block_transit [OF assms, of PS_SUSP_READY] to_susp_ready_wf [of r] assms
  by (fastforce simp: transition_susp_block_susp_ready_no_mutex_def guarded_move_eq)

lemma transition_unlock_wf:
  assumes "queues_wf q" "pcbs q r = Some p"
  shows "\<exists>q'. transition_unlock r q = Some q' \<and> queues_wf q'"
  using transition_block_ready_wf [OF assms] transition_susp_block_susp_ready_wf [OF assms] assms(2)
  by (simp add: transition_unlock_def get_state_pcb_def)

lemma decrement_process_count_core:
  assumes "decrement_process_count q = Some q'"
  shows "same_core (q\<lparr>active_process_count := active_process_count q - 1\<rparr>) q'"
  using assms core_close by (auto simp: decrement_process_count_def Let_def split: if_splits)

lemma decrement_process_count_total: "\<exists>q'. decrement_process_count q = Some q'"
  by (auto simp: decrement_process_count_def close_kernel_scheduler_def check_reason_shutdown_def Let_def)

lemma transition_to_exit_core:
  assumes "transition_to_exit r reason q = Some q'"
  shows "\<exists>q1. same_core q q1 \<and> same_core (q1\<lparr>pcbs := (pcbs q1)(r := None), active_process_count := active_process_count q1 - 1\<rparr>) q'"
proof -
  have *: "\<exists>q1. same_core q q1 \<and> decrement_process_count (destroy_pcb r q1) = Some q'"
  proof (cases "reason \<noteq> PER_SYSTEM_SHUTDOWN \<and> reason \<noteq> PER_INVALID_PRIORITY")
    case True
    obtain p where p: "pcbs q r = Some p" "active_instances p = 0"
      using assms by (auto simp: transition_to_exit_def wait_zero_active_instances_def split: option.splits if_splits)
    obtain sz q2 where ps: "process_size_no_mutex (pcb_pid p) q = Some (sz, q2)"
      using assms True p by (auto simp: transition_to_exit_def wait_zero_active_instances_def bind_eq_Some_conv)
    obtain ok q3 where nt: "notify_terminate_process (pcb_pid p) q2 = Some (ok, q3)"
      using assms True p ps by (auto simp: transition_to_exit_def wait_zero_active_instances_def bind_eq_Some_conv)
    have "decrement_process_count (destroy_pcb r (if ok \<and> sz > 0 then create_resumption_routine_thread q3 else q3)) = Some q'"
      using assms True p ps nt by (simp add: transition_to_exit_def wait_zero_active_instances_def)
    note q = ps nt this
    have "same_core q q3" using core_process_size [OF q(1)] core_notify_terminate [OF q(2)] same_core_trans by blast
    then show ?thesis using q(3) core_create_routine [of q3] same_core_trans by (metis (full_types))
  next
    case False
    with assms show ?thesis
      by (auto simp: transition_to_exit_def wait_zero_active_instances_def bind_eq_Some_conv split: option.splits if_splits)
  qed
  then show ?thesis using decrement_process_count_core by (fastforce simp: destroy_pcb_def)
qed

lemma transition_to_exit_wf:
  assumes "transition_to_exit r reason q = Some q'" "in_transit r st q"
  shows "queues_wf q'"
proof -
  obtain q1 where "same_core q q1" "same_core (q1\<lparr>pcbs := (pcbs q1)(r := None), active_process_count := active_process_count q1 - 1\<rparr>) q'"
    using transition_to_exit_core [OF assms(1)] by blast
  then show ?thesis using vanish [of r st q1] assms(2) in_transit_core queues_wf_core by blast
qed

lemma transition_to_exit_total:
  assumes "in_transit r st q" "reason = PER_SYSTEM_SHUTDOWN \<or> reason = PER_INVALID_PRIORITY"
  shows "\<exists>q'. transition_to_exit r reason q = Some q'"
  using assms decrement_process_count_total
  by (auto simp: transition_to_exit_def wait_zero_active_instances_def in_transit_def store_ok_def)

lemma transition_exec_exit_wf:
  assumes "transition_exec_exit r reason q = Some q'" "queues_wf q"
  shows "queues_wf q'"
proof -
  obtain p where p: "pcbs q r = Some p" using assms(1)
    by (auto simp: transition_exec_exit_def guarded_move_def manage_state_pcb_def get_state_pcb_def split: option.splits)
  show ?thesis
  proof (cases "pcb_state p = PS_EXEC")
    case True
    with take_exec_transit [OF assms(2) p, of PS_EXIT] assms(1) p show ?thesis
      by (auto simp: transition_exec_exit_def guarded_move_eq intro: transition_to_exit_wf)
  qed (use assms p in \<open>simp add: transition_exec_exit_def guarded_move_eq\<close>)
qed

lemma transition_block_susp_block_wf:
  assumes "transition_block_susp_block_no_mutex r q = Some q'" "queues_wf q"
  shows "queues_wf q'"
proof -
  obtain p where p: "pcbs q r = Some p" using assms(1) by (auto simp: transition_block_susp_block_no_mutex_def bind_eq_Some_conv)
  show ?thesis
  proof (cases "pcb_state p = PS_BLOCK")
    case True
    with assms(1) p obtain ok q1 where q1: "notify_process_suspended (pcb_pid p) q = Some (ok, q1)"
      by (auto simp: transition_block_susp_block_no_mutex_def bind_eq_Some_conv)
    have core: "same_core q q1" and wf: "queues_wf q1" and p1: "pcbs q1 r = Some p"
      using queues_wf_core [OF core_notify_suspended [OF q1]] core_notify_suspended [OF q1] assms(2) p
      by (auto simp: same_core_def)
    show ?thesis
    proof (cases ok)
      case True
      obtain q3 where q3: "transition_take_block r (q1\<lparr>pcbs := (pcbs q1)(r \<mapsto> p\<lparr>pcb_state := PS_SUSP_BLOCK\<rparr>)\<rparr>) = Some q3"
        "in_transit r PS_SUSP_BLOCK q3" using take_block_transit [OF wf p1 \<open>pcb_state p = PS_BLOCK\<close>] by blast
      obtain q4 where q4: "transition_to_susp_block r q3 = Some q4" "queues_wf q4" using to_susp_block_wf [OF q3(2)] by blast
      have "q' = (if \<not> compaction_active q4 \<and> \<not> resume_active q4
               then q4\<lparr>resumer := unlock_thread_suspended (resumer q4)\<rparr> else q4)"
        using assms(1) p q1 True q3(1) q4(1) p1 \<open>pcb_state p = PS_BLOCK\<close> by (simp add: transition_block_susp_block_no_mutex_def update_pcb_def)
      then have "same_core q4 q'" by (simp add: same_core_def)
      with q4(2) show ?thesis using queues_wf_core by blast
    qed (use assms(1) p q1 wf \<open>pcb_state p = PS_BLOCK\<close> in \<open>simp add: transition_block_susp_block_no_mutex_def\<close>)
  qed (use assms p in \<open>simp add: transition_block_susp_block_no_mutex_def\<close>)
qed

lemma transition_susp_ready_wf:
  assumes "transition_susp_ready_no_mutex r q = Some (b, q')" "queues_wf q"
  shows "queues_wf q'"
proof -
  obtain p where p: "pcbs q r = Some p" using assms(1) by (auto simp: transition_susp_ready_no_mutex_def bind_eq_Some_conv)
  show ?thesis
  proof (cases "pcb_state p = PS_SUSP_READY")
    case True
    with assms(1) p obtain c q1 where q1: "can_resume_suspended (pcb_pid p) q = Some (c, q1)"
      by (auto simp: transition_susp_ready_no_mutex_def bind_eq_Some_conv)
    note core1 = core_can_resume [OF q1]
    show ?thesis
    proof (cases c)
      case True
      with assms(1) p q1 \<open>pcb_state p = PS_SUSP_READY\<close> obtain ok q2 where q2: "notify_process_resume_suspended (pcb_pid p) q1 = Some (ok, q2)"
        by (auto simp: transition_susp_ready_no_mutex_def bind_eq_Some_conv)
      have core2: "same_core q q2" using core1 core_notify_resume [OF q2] same_core_trans by blast
      then have wf: "queues_wf q2" and p2: "pcbs q2 r = Some p" using queues_wf_core [OF core2] assms(2) p by (auto simp: same_core_def)
      show ?thesis
      proof (cases ok)
        case True
        obtain q4 where q4: "put_ready r (transition_take_susp_ready r (q2\<lparr>pcbs := (pcbs q2)(r \<mapsto> p\<lparr>pcb_state := PS_READY\<rparr>)\<rparr>)) = Some q4"
          "queues_wf q4" using put_ready_wf [OF take_susp_ready_transit [OF wf p2 \<open>pcb_state p = PS_SUSP_READY\<close>]] by blast
        have "q' = q4" using assms(1) p q1 q2 \<open>c\<close> True q4(1) p2 \<open>pcb_state p = PS_SUSP_READY\<close>
          by (simp add: transition_susp_ready_no_mutex_def update_pcb_def)
        with q4(2) show ?thesis by simp
      qed (use assms(1) p q1 q2 \<open>c\<close> wf \<open>pcb_state p = PS_SUSP_READY\<close> in \<open>simp add: transition_susp_ready_no_mutex_def\<close>)
    qed (use assms p q1 queues_wf_core [OF core1] \<open>pcb_state p = PS_SUSP_READY\<close> in \<open>simp add: transition_susp_ready_no_mutex_def\<close>)
  qed (use assms p in \<open>simp add: transition_susp_ready_no_mutex_def\<close>)
qed

subsection \<open>Creation, dispatch and shutdown\<close>

lemma in_transit_update:
  assumes "in_transit r st q" "pcbs q r = Some p"
  shows "in_transit r st' (q\<lparr>pcbs := (pcbs q)(r \<mapsto> p\<lparr>pcb_state := st'\<rparr>)\<rparr>)"
proof -
  have "dom ((pcbs q)(r \<mapsto> p\<lparr>pcb_state := st'\<rparr>)) = dom (pcbs q)" using assms(2) by auto
  with assms show ?thesis by (auto simp: in_transit_def store_ok_def placed_def split: if_splits)
qed

lemma create_transit:
  assumes "queues_wf q" "create_pcb PS_NEW prio q = (r, q1)"
    "0 \<le> queue_position prio (ready q)" "queue_position prio (ready q) < queue_count (ready q)"
  shows "in_transit r PS_NEW (increment_process_count q1)"
proof -
  have r: "r = next_ref q" "r \<notin> dom (pcbs q)" using assms(1,2) by (auto simp: create_pcb_def queues_wf_def store_ok_def)
  let ?q = "increment_process_count q1"
  have e: "pcbs ?q = (pcbs q)(r \<mapsto> \<lparr>pcb_pid = of_nat r, pcb_priority = prio, priority_list = [prio],
      blocked_time = 0, pcb_state = PS_NEW, active_instances = 0, blocking_mutex = None\<rparr>)"
    "next_ref ?q = Suc r" "ready ?q = ready q" "active_process_count ?q = active_process_count q + 1"
    "refs_in st ?q = refs_in st q" for st
    using assms(2) r by (auto simp: create_pcb_def increment_process_count_def) (cases st; simp)
  have "finite (dom (pcbs q))" using assms(1) by (simp add: queues_wf_def store_ok_def)
  moreover have "dom (pcbs ?q) = insert r (dom (pcbs q))" using e(1) by auto
  moreover have "\<forall>r' \<in> dom (pcbs q). r' < Suc r" using assms(1) r(1) by (auto simp: queues_wf_def store_ok_def intro: less_SucI)
  ultimately have "store_ok ?q"
    using assms(1,3,4) r e unfolding store_ok_def by (auto simp: queues_wf_def store_ok_def split: if_splits)
  moreover have "placed ?q"
  proof -
    have "r \<notin> set (snd (subqueues (ready q) ! i))" if "i < length (subqueues (ready q))" for i
      using wf_member(2) [OF assms(1), of r PS_READY] r(2) refs_split [OF that] by (auto simp: ready_refs_def)
    then show ?thesis using assms(1) e(1,3) by (auto simp: queues_wf_def placed_def split: if_splits)
  qed
  ultimately show ?thesis using assms(1) r e by (auto simp: in_transit_def queues_wf_def lists_match_def)
qed

lemma new_then_gone:
  assumes "queues_wf q" "create_pcb PS_NEW prio q = (r, q1)" "same_core (increment_process_count q1) q2"
    "transition_to_exit r reason q2 = Some q3"
  shows "queues_wf q3"
proof -
  let ?q = "q\<lparr>next_ref := Suc (next_ref q)\<rparr>"
  have r: "r = next_ref q" "pcbs q r = None" using assms(1,2) by (auto simp: create_pcb_def queues_wf_def store_ok_def)
  have "same_core ?q q3"
    using transition_to_exit_core [OF assms(4)] assms(2,3) r
    by (auto simp: same_core_def create_pcb_def increment_process_count_def fun_upd_idem)
  moreover have "refs_in st ?q = refs_in st q" for st by (cases st) auto
  then have "queues_wf ?q" using assms(1) by (auto simp: queues_wf_def lists_match_def store_ok_def placed_def less_SucI)
  ultimately show ?thesis using queues_wf_core by blast
qed

lemma transition_new_ready_keeps:
  assumes "transition_new_ready file prio q = Some q'" "queues_wf q" "0 \<le> prio \<or> \<not> multilevel_queue (ready q)"
  shows "queues_wf q'"
proof -
  obtain r q1 where c: "create_pcb PS_NEW prio q = (r, q1)" by force
  obtain p where p: "pcbs q1 r = Some p" "pcb_priority p = prio" using c by (auto simp: create_pcb_def)
  obtain ok q2 where n: "notify_new_process file (pcb_pid p) (increment_process_count q1) = Some (ok, q2)"
    using assms(1) c p by (auto simp: transition_new_ready_def transition_take_new_def bind_eq_Some_conv)
  note core = core_notify_new [OF n]
  have p2: "pcbs q2 r = Some p" and rd: "ready q2 = ready q"
    using core p c by (auto simp: same_core_def create_pcb_def increment_process_count_def)
  show ?thesis
  proof (cases "ok \<and> check_priority_valid prio (ready q)")
    case True
    have pos: "0 \<le> queue_position prio (ready q)" "queue_position prio (ready q) < queue_count (ready q)"
      using True assms(2,3) by (auto simp: check_priority_valid_def queue_position_def queues_wf_def ready_ok_def queue_count_def)
    have "in_transit r PS_NEW q2"
      using create_transit [OF assms(2) c pos] in_transit_core [OF core] by simp
    from put_ready_wf [OF in_transit_update [OF this p2]] obtain q3 where
      "put_ready r (q2\<lparr>pcbs := (pcbs q2)(r \<mapsto> p\<lparr>pcb_state := PS_READY\<rparr>)\<rparr>) = Some q3" "queues_wf q3" by blast
    then show ?thesis using assms(1) c p n p2 rd True
      by (simp add: transition_new_ready_def transition_take_new_def update_pcb_def)
  next
    case False
    then obtain reason where "transition_to_exit r reason q2 = Some q'"
      using assms(1) c p n p2 rd
      by (cases ok) (auto simp: transition_new_ready_def transition_take_new_def bind_eq_Some_conv)
    then show ?thesis by (rule new_then_gone [OF assms(2) c core])
  qed
qed

lemma transition_new_ready_wf:
  "transition_new_ready file prio q = Some q' \<Longrightarrow> queues_wf q \<Longrightarrow> 0 \<le> prio \<Longrightarrow> queues_wf q'"
  by (rule transition_new_ready_keeps) auto

lemma take_next_transit:
  assumes "queues_wf q" "transition_take_ready_next_no_mutex (ready q) = (Some r, rd)"
  shows "in_transit r PS_READY (q\<lparr>ready := rd\<rparr>)"
proof -
  have ok: "ready_ok (ready q)" using assms(1) by (simp add: queues_wf_def)
  have ms: "mset (ready_refs (ready q)) = add_mset r (mset (ready_refs rd))" by (rule take_next_refs [OF assms(2)])
  have "set (ready_refs (ready q)) = insert r (set (ready_refs rd))" using ms by (metis set_mset_add_mset_insert set_mset_mset)
  moreover note take_next_ok [OF assms(2) ok]
  moreover have "refs_in st (q\<lparr>ready := rd\<rparr>) = (if st = PS_READY then ready_refs rd else refs_in st q)" for st by (cases st) auto
  moreover have "store_ok (q\<lparr>ready := rd\<rparr>)"
    using assms(1) take_next_spec(2,3) [OF assms(2)]
    by (auto simp: queues_wf_def store_ok_def queue_position_def queue_count_def)
  moreover have m: "r' \<in> set (refs_in st q) \<longleftrightarrow> (\<exists>p. pcbs q r' = Some p \<and> pcb_state p = st)" "distinct (refs_in st q)" for r' st
    using assms(1) by (auto simp: queues_wf_def lists_match_def)
  moreover have ready: "r' \<in> insert r (set (ready_refs rd)) \<longleftrightarrow> (\<exists>p. pcbs q r' = Some p \<and> pcb_state p = PS_READY)" for r'
    using calculation(1) m(1) [of r' PS_READY] by simp
  moreover have "distinct (ready_refs rd)" using \<open>ready_ok rd\<close> by (simp add: ready_ok_def)
  moreover have mem: "r' \<in> set (refs_in st (q\<lparr>ready := rd\<rparr>)) \<longleftrightarrow> r' \<noteq> r \<and> (\<exists>p. pcbs q r' = Some p \<and> pcb_state p = st)" for r' st
    using calculation(3,4) m(1) [of r' st] ready [of r'] ready [of r] by (cases "st = PS_READY") force+
  moreover have dist: "distinct (refs_in st (q\<lparr>ready := rd\<rparr>))" for st
    using calculation(4) m(2) \<open>distinct (ready_refs rd)\<close> by (simp del: refs_in.simps)
  moreover have alive: "\<exists>p. pcbs q r = Some p \<and> pcb_state p = PS_READY" using ready by blast
  moreover have "placed (q\<lparr>ready := rd\<rparr>)"
  proof -
    have "set (snd (subqueues rd ! i)) \<subseteq> set (snd (subqueues (ready q) ! i))" if "i < length (subqueues (ready q))" for i
    proof -
      obtain j a rest where j: "subqueues (ready q) ! j = (a, r # rest)" "subqueues rd = (subqueues (ready q))[j := (a, rest)]"
        using take_next_spec(1) [OF assms(2)] by blast
      show ?thesis using j that by (cases "i = j") auto
    qed
    then show ?thesis using assms(1) take_next_spec(2,3) [OF assms(2)] by (fastforce simp: queues_wf_def placed_def)
  qed
  ultimately show ?thesis unfolding in_transit_def
    by (intro conjI allI) (simp_all del: refs_in.simps)
qed

lemma run_process_wf:
  assumes "in_transit r PS_READY q"
  shows "\<exists>q'. run_process r q = Some q' \<and> queues_wf q'"
proof -
  obtain p where p: "pcbs q r = Some p" "pcb_state p = PS_READY" using assms by (auto simp: in_transit_def)
  have "transition_ready_exec r q = Some (q\<lparr>pcbs := (pcbs q)(r \<mapsto> p\<lparr>pcb_state := PS_EXEC\<rparr>)\<rparr>)"
    using p by (simp add: transition_ready_exec_def manage_state_pcb_def get_state_pcb_def update_pcb_def)
  then show ?thesis using to_exec_wf [OF in_transit_update [OF assms p(1), of PS_EXEC]] by (simp add: run_process_def)
qed

lemma dispatch_wf:
  assumes "queues_wf q" "\<not> preempt_all (ready q)" "ready_process_count (ready q) \<noteq> 0 \<or> terminate_queue (ready q)"
  shows "\<exists>taken q'. dispatch q = Some (taken, q') \<and> queues_wf q' \<and> (taken = None \<longleftrightarrow> terminate_queue (ready q))"
proof (cases "terminate_queue (ready q)")
  case True
  then show ?thesis using assms by (simp add: dispatch_def transition_take_ready_blocking_def queue_ready_terminated_def)
next
  case False
  obtain r rd where r: "transition_take_ready_next_no_mutex (ready q) = (Some r, rd)"
    using take_next_progress assms(1,3) False by (metis queues_wf_def)
  from run_process_wf [OF take_next_transit [OF assms(1) r]] r False assms(2,3) show ?thesis
    by (auto simp: dispatch_def transition_take_ready_blocking_def queue_ready_terminated_def)
qed

lemma transition_to_exit_refs:
  assumes "transition_to_exit r reason q = Some q'"
  shows "refs_in st q' = refs_in st q"
proof -
  obtain q1 where "same_core q q1" "same_core (q1\<lparr>pcbs := (pcbs q1)(r := None), active_process_count := active_process_count q1 - 1\<rparr>) q'"
    using transition_to_exit_core [OF assms] by blast
  moreover have "refs_in st (q1\<lparr>pcbs := x, active_process_count := y\<rparr>) = refs_in st q1" for x y by (cases st) auto
  ultimately show ?thesis by (simp add: refs_in_core)
qed

text \<open>Taking the head of the list of a state.\<close>

lemma take_head_transit:
  assumes "queues_wf q" "refs_in st q = r # rs" "pcbs q r = Some p"
    and "pcb_priority p' = pcb_priority p" "active_instances p' = active_instances p" "pcb_state p' = st"
    and "pcbs q' = (pcbs q)(r \<mapsto> p')" "next_ref q' = next_ref q" "ready q' = ready q"
      "active_process_count q' = active_process_count q" "refs_in st q' = rs"
      "\<forall>st'. st' \<noteq> st \<longrightarrow> refs_in st' q' = refs_in st' q"
  shows "in_transit r st q'"
proof -
  have "pcb_state p = st" using wf_member(2) [OF assms(1), of r st] assms(2,3) by auto
  then show ?thesis using depart [OF assms(1,3-5,7-10)] assms(2,6,11,12) by simp
qed

definition take_any :: "t_process_state \<Rightarrow> t_queues \<Rightarrow> (pcb_ref option \<times> t_queues) option" where
  "take_any st q = (case st of
         PS_READY \<Rightarrow> (case transition_take_ready_next (ready q) of (r, rd) \<Rightarrow> Some (r, q\<lparr>ready := rd\<rparr>))
       | PS_EXEC \<Rightarrow> Some (transition_take_exec_next q)
       | PS_BLOCK \<Rightarrow> transition_take_block_next q
       | PS_SUSP_BLOCK \<Rightarrow> Some (transition_take_susp_block_next q)
       | PS_SUSP_READY \<Rightarrow> Some (transition_take_susp_ready_next q)
       | _ \<Rightarrow> Some (None, q))"

lemma any_exit_take:
  "transition_any_exit st reason q = do {
     (taken, q1) \<leftarrow> take_any st q;
     (case taken of
        None \<Rightarrow> Some (False, q1)
      | Some pcb \<Rightarrow> map_option (Pair True) (transition_to_exit pcb reason q1)) }"
  by (simp add: transition_any_exit_def take_any_def)

lemma take_any_transit:
  assumes "queues_wf q" "refs_in st q = r # rs"
  shows "\<exists>q1. take_any st q = Some (Some r, q1) \<and> in_transit r st q1 \<and> refs_in st q1 = rs
     \<and> (\<forall>st'. st' \<noteq> st \<longrightarrow> refs_in st' q1 = refs_in st' q)"
proof -
  obtain p where p: "pcbs q r = Some p" "pcb_state p = st" using wf_member(2) [OF assms(1), of r st] assms(2) by auto
  show ?thesis
  proof (cases st)
    case PS_READY
    then have "ready_process_count (ready q) \<noteq> 0" using assms by (auto simp: queues_wf_def ready_ok_def)
    then obtain r' rd where rd: "transition_take_ready_next_no_mutex (ready q) = (Some r', rd)"
      using take_next_progress assms(1) by (metis queues_wf_def)
    with take_next_tl [OF rd] take_next_transit [OF assms(1) rd] PS_READY assms(2) show ?thesis
      by (auto simp: take_any_def transition_take_ready_next_def all_states)
  next
    case PS_EXEC
    with take_head_transit [OF assms p(1) refl refl p(2), of "q\<lparr>exec := (exec q)\<lparr>exec_list := rs\<rparr>\<rparr>"] assms(2) p(1) show ?thesis
      by (simp add: take_any_def transition_take_exec_next_def all_states fun_upd_idem)
  next
    case PS_BLOCK
    with take_head_transit [OF assms p(1), of "p\<lparr>blocked_time := 0\<rparr>" "q\<lparr>block := (block q)\<lparr>bl_list := rs\<rparr>,
        pcbs := (pcbs q)(r \<mapsto> p\<lparr>blocked_time := 0\<rparr>)\<rparr>"] assms(2) p show ?thesis
      by (simp add: take_any_def transition_take_block_next_def set_blocked_time_def update_pcb_def all_states)
  next
    case PS_SUSP_BLOCK
    with take_head_transit [OF assms p(1) refl refl p(2), of "q\<lparr>susp_block := (susp_block q)\<lparr>bl_list := rs\<rparr>\<rparr>"] assms(2) p(1) show ?thesis
      by (simp add: take_any_def transition_take_susp_block_next_def all_states fun_upd_idem)
  next
    case PS_SUSP_READY
    with take_head_transit [OF assms p(1) refl refl p(2), of "q\<lparr>susp_ready := (susp_ready q)\<lparr>bl_list := rs\<rparr>\<rparr>"] assms(2) p(1) show ?thesis
      by (simp add: take_any_def transition_take_susp_ready_next_def all_states fun_upd_idem)
  qed (use assms(2) in simp_all)
qed

lemma any_exit_wf:
  assumes "queues_wf q"
  shows "\<exists>taken q'. transition_any_exit st PER_SYSTEM_SHUTDOWN q = Some (taken, q') \<and> queues_wf q'
     \<and> taken = (refs_in st q \<noteq> []) \<and> refs_in st q' = tl (refs_in st q)
     \<and> (\<forall>st'. st' \<noteq> st \<longrightarrow> refs_in st' q' = refs_in st' q)"
proof (cases "refs_in st q")
  case Nil
  then have "take_any st q = Some (None, q)"
    using assms first_nonempty_None [of "subqueues (ready q)"]
    by (cases st) (auto simp: take_any_def transition_take_ready_next_def transition_take_ready_next_no_mutex_def
        transition_take_exec_next_def transition_take_block_next_def transition_take_susp_block_next_def
        transition_take_susp_ready_next_def ready_refs_def)
  with Nil assms show ?thesis by (intro exI [of _ False] exI [of _ q]) (simp add: any_exit_take)
next
  case (Cons r rs)
  from take_any_transit [OF assms this] obtain q1 where q1: "take_any st q = Some (Some r, q1)" "in_transit r st q1"
    "refs_in st q1 = rs" "\<forall>st'. st' \<noteq> st \<longrightarrow> refs_in st' q1 = refs_in st' q" by blast
  obtain q' where q': "transition_to_exit r PER_SYSTEM_SHUTDOWN q1 = Some q'"
    using transition_to_exit_total [OF q1(2)] by blast
  have "transition_any_exit st PER_SYSTEM_SHUTDOWN q = Some (True, q')" using q1(1) q' by (simp add: any_exit_take)
  with q1 q' Cons transition_to_exit_wf [OF q' q1(2)] transition_to_exit_refs [OF q'] show ?thesis by auto
qed

end
