(* ===== verification/Queues_System.thy ===== *)
theory Queues_System
  imports Queues_Inv
begin

section \<open>Kernel Scheduler: the state machine as a system of requests\<close>

text \<open>
  The transitions as requests of the CPU, I/O and worker threads, in any order, with time and
  Kernel Memory's answers arriving in between. The interpretation \<open>scheduler\<close> of
  \<open>invariant_system\<close> gives the invariant in every reachable state. The last part is
  the shutdown: \<open>clear_queues\<close> ends every process.
\<close>

subsection \<open>clear\_queues\<close>

lemma take_any_shrinks:
  assumes "take_any st q = Some (Some r, q1)"
  shows "length (refs_in st q) = Suc (length (refs_in st q1))"
proof (cases st)
  case PS_READY
  then obtain rd where rd: "transition_take_ready_next_no_mutex (ready q) = (Some r, rd)" "q1 = q\<lparr>ready := rd\<rparr>"
    using assms by (auto simp: take_any_def transition_take_ready_next_def split: prod.splits)
  with take_next_tl [OF rd(1)] PS_READY show ?thesis by simp
qed (use assms in \<open>auto simp: take_any_def transition_take_exec_next_def transition_take_block_next_def
    transition_take_susp_block_next_def transition_take_susp_ready_next_def set_blocked_time_def update_pcb_def
    split: list.splits\<close>)

lemma any_exit_shrinks:
  assumes "transition_any_exit st reason q = Some (True, q')"
  shows "length (refs_in st q') < length (refs_in st q)"
proof -
  obtain r q1 where "take_any st q = Some (Some r, q1)" "transition_to_exit r reason q1 = Some q'"
    using assms by (auto simp: any_exit_take bind_eq_Some_conv split: option.splits)
  then show ?thesis using take_any_shrinks transition_to_exit_refs by fastforce
qed

text \<open>The inner loop: end the processes of one state until there is none.\<close>

function exit_all :: "t_process_state \<Rightarrow> t_process_end_reason \<Rightarrow> t_queues \<Rightarrow> t_queues option" where
  "exit_all st reason q =
     (case transition_any_exit st reason q of
        None \<Rightarrow> None
      | Some (True, q') \<Rightarrow> exit_all st reason q'
      | Some (False, q') \<Rightarrow> Some q')"
  by pat_completeness auto
termination
  by (relation "measure (\<lambda>(st, reason, q). length (refs_in st q))") (auto dest!: any_exit_shrinks)

declare exit_all.simps [simp del]

definition clear_queues :: "t_queues \<Rightarrow> t_queues option" where
  "clear_queues q =
     foldl (\<lambda>acc st. Option.bind acc (exit_all st PER_SYSTEM_SHUTDOWN)) (Some q)
       [PS_READY, PS_EXEC, PS_BLOCK, PS_SUSP_BLOCK, PS_SUSP_READY]"

lemma exit_all_wf:
  assumes "queues_wf q"
  shows "\<exists>q'. exit_all st PER_SYSTEM_SHUTDOWN q = Some q' \<and> queues_wf q' \<and> refs_in st q' = []
    \<and> (\<forall>st'. st' \<noteq> st \<longrightarrow> refs_in st' q' = refs_in st' q)"
  using assms
proof (induction "length (refs_in st q)" arbitrary: q rule: less_induct)
  case less
  obtain taken q1 where q1: "transition_any_exit st PER_SYSTEM_SHUTDOWN q = Some (taken, q1)" "queues_wf q1"
    "taken = (refs_in st q \<noteq> [])" "refs_in st q1 = tl (refs_in st q)" "\<forall>st'. st' \<noteq> st \<longrightarrow> refs_in st' q1 = refs_in st' q"
    using any_exit_wf [OF less.prems, of st] by blast
  show ?case
  proof (cases taken)
    case True
    then have "length (refs_in st q1) < length (refs_in st q)" using q1(1) any_exit_shrinks [of st _ q q1] by simp
    from less.hyps [OF this q1(2)] q1 True show ?thesis by (subst exit_all.simps) auto
  next
    case False
    then show ?thesis using q1 by (subst exit_all.simps) auto
  qed
qed

lemma clear_queues_wf:
  assumes "queues_wf q"
  shows "\<exists>q'. clear_queues q = Some q' \<and> queues_wf q' \<and> (\<forall>st. refs_in st q' = [])"
proof -
  obtain q1 where q1: "exit_all PS_READY PER_SYSTEM_SHUTDOWN q = Some q1" "queues_wf q1" "refs_in PS_READY q1 = []"
    using exit_all_wf [OF assms] by blast
  obtain q2 where q2: "exit_all PS_EXEC PER_SYSTEM_SHUTDOWN q1 = Some q2" "queues_wf q2" "refs_in PS_EXEC q2 = []"
    "\<forall>st'. st' \<noteq> PS_EXEC \<longrightarrow> refs_in st' q2 = refs_in st' q1" using exit_all_wf [OF q1(2)] by blast
  obtain q3 where q3: "exit_all PS_BLOCK PER_SYSTEM_SHUTDOWN q2 = Some q3" "queues_wf q3" "refs_in PS_BLOCK q3 = []"
    "\<forall>st'. st' \<noteq> PS_BLOCK \<longrightarrow> refs_in st' q3 = refs_in st' q2" using exit_all_wf [OF q2(2)] by blast
  obtain q4 where q4: "exit_all PS_SUSP_BLOCK PER_SYSTEM_SHUTDOWN q3 = Some q4" "queues_wf q4" "refs_in PS_SUSP_BLOCK q4 = []"
    "\<forall>st'. st' \<noteq> PS_SUSP_BLOCK \<longrightarrow> refs_in st' q4 = refs_in st' q3" using exit_all_wf [OF q3(2)] by blast
  obtain q5 where q5: "exit_all PS_SUSP_READY PER_SYSTEM_SHUTDOWN q4 = Some q5" "queues_wf q5" "refs_in PS_SUSP_READY q5 = []"
    "\<forall>st'. st' \<noteq> PS_SUSP_READY \<longrightarrow> refs_in st' q5 = refs_in st' q4" using exit_all_wf [OF q4(2)] by blast
  have "clear_queues q = Some q5" by (simp add: clear_queues_def q1(1) q2(1) q3(1) q4(1) q5(1))
  moreover have "\<forall>st. refs_in st q5 = []"
    using q1(3) q2(3,4) q3(3,4) q4(3,4) q5(3,4) by (simp add: all_states del: refs_in.simps) simp
  ultimately show ?thesis using q5(2) by blast
qed

subsection \<open>Requests\<close>

datatype sched_request =
    New_process string int
  | Dispatch
  | Preempt pcb_ref
  | Finish pcb_ref t_process_end_reason
  | Block_process pcb_ref
  | Unlock pcb_ref
  | Suspend pcb_ref
  | Resume pcb_ref
  | Swap_in_blocked pcb_ref
  | Lock_ready bool
  | Tick u64
  | Km_sends bytes

fun sched_apply :: "sched_request \<Rightarrow> t_queues \<Rightarrow> (t_queues \<times> bool) option" where
  "sched_apply (New_process instructions_file prio) q = map_option (\<lambda>q. (q, True)) (transition_new_ready instructions_file prio q)"
| "sched_apply Dispatch q = map_option (\<lambda>(taken, q). (q, taken \<noteq> None)) (dispatch q)"
| "sched_apply (Preempt r) q = map_option (\<lambda>q. (q, True)) (transition_exec_ready r q)"
| "sched_apply (Finish r reason) q = map_option (\<lambda>q. (q, True)) (transition_exec_exit r reason q)"
| "sched_apply (Block_process r) q = map_option (\<lambda>q. (q, True)) (transition_exec_block r q)"
| "sched_apply (Unlock r) q = map_option (\<lambda>q. (q, True)) (transition_unlock r q)"
| "sched_apply (Suspend r) q = map_option (\<lambda>q. (q, True)) (transition_block_susp_block_no_mutex r q)"
| "sched_apply (Resume r) q = map_option (\<lambda>(b, q). (q, b)) (transition_susp_ready_no_mutex r q)"
| "sched_apply (Swap_in_blocked r) q = map_option (\<lambda>q. (q, True)) (transition_susp_block r q)"
| "sched_apply (Lock_ready b) q =
     Some (q\<lparr>ready := (if b then lock_queue_ready (ready q) else unlock_queue_ready (ready q))\<rparr>, True)"
| "sched_apply (Tick t) q = Some (q\<lparr>now := now q + t\<rparr>, True)"
| "sched_apply (Km_sends b) q = Some (q\<lparr>from_km := from_km q @ b\<rparr>, True)"

text \<open>Pointers are to living processes and priorities are not negative.\<close>

fun sched_ok :: "sched_request \<Rightarrow> t_queues \<Rightarrow> bool" where
  "sched_ok (New_process instructions_file prio) q = (0 \<le> prio)"
| "sched_ok (Preempt r) q = (pcbs q r \<noteq> None)"
| "sched_ok (Block_process r) q = (pcbs q r \<noteq> None)"
| "sched_ok (Unlock r) q = (pcbs q r \<noteq> None)"
| "sched_ok (Swap_in_blocked r) q = (pcbs q r \<noteq> None)"
| "sched_ok _ q = True"

lemma wf_environment:
  "queues_wf (q\<lparr>now := t\<rparr>) = queues_wf q" "queues_wf (q\<lparr>from_km := b\<rparr>) = queues_wf q"
proof -
  have "refs_in st (q\<lparr>now := t\<rparr>) = refs_in st q" "refs_in st (q\<lparr>from_km := b\<rparr>) = refs_in st q" for st by (cases st; simp)+
  then show "queues_wf (q\<lparr>now := t\<rparr>) = queues_wf q" "queues_wf (q\<lparr>from_km := b\<rparr>) = queues_wf q"
    by (simp_all add: queues_wf_def lists_match_def store_ok_def placed_def)
qed

lemma wf_preempt_all: "queues_wf (q\<lparr>ready := (ready q)\<lparr>preempt_all := b\<rparr>\<rparr>) = queues_wf q"
proof -
  have *: "ready_refs ((ready q)\<lparr>preempt_all := b\<rparr>) = ready_refs (ready q)" by (simp add: ready_refs_def)
  have "refs_in st (q\<lparr>ready := (ready q)\<lparr>preempt_all := b\<rparr>\<rparr>) = refs_in st q" for st by (cases st) (simp_all add: *)
  then show ?thesis
    by (simp add: queues_wf_def lists_match_def store_ok_def placed_def ready_ok_def queue_position_def queue_count_def *)
qed

lemma dispatch_keeps:
  assumes "dispatch q = Some (taken, q')" "queues_wf q"
  shows "queues_wf q'"
proof -
  have "ready_process_count (ready q) \<noteq> 0 \<and> \<not> preempt_all (ready q) \<or> terminate_queue (ready q)"
    using assms(1) by (auto simp: dispatch_def transition_take_ready_blocking_def queue_ready_terminated_def split: if_splits)
  then show ?thesis
  proof
    assume "terminate_queue (ready q)"
    then show ?thesis using assms by (simp add: dispatch_def transition_take_ready_blocking_def queue_ready_terminated_def)
  qed (use assms dispatch_wf [OF assms(2)] in auto)
qed

lemma sched_apply_wf:
  assumes "queues_wf q" "sched_ok r q" "sched_apply r q = Some (q', out)"
  shows "queues_wf q'"
  using assms
proof (cases r)
  case (Preempt x)
  with assms transition_exec_ready_wf [OF assms(1), of x] show ?thesis by auto
next
  case (Block_process x)
  with assms transition_exec_block_wf [OF assms(1), of x] show ?thesis by auto
next
  case (Unlock x)
  with assms transition_unlock_wf [OF assms(1), of x] show ?thesis by auto
next
  case (Swap_in_blocked x)
  with assms transition_susp_block_wf [OF assms(1), of x] show ?thesis by auto
qed (auto simp: wf_environment wf_preempt_all lock_queue_ready_def unlock_queue_ready_def
    intro: transition_new_ready_wf dispatch_keeps transition_exec_exit_wf transition_block_susp_block_wf
      transition_susp_ready_wf)

interpretation scheduler: invariant_system sched_ok sched_apply queues_wf
  by unfold_locales (rule sched_apply_wf)

lemma ready_refs_init [simp]: "ready_refs (init_ready_queue algorithm algorithms) = []"
  by (auto simp: ready_refs_def init_ready_queue_def)

lemma init_queues_wf:
  assumes "algorithm = SA_MULTILEVEL_QUEUES \<longrightarrow> algorithms \<noteq> []"
  shows "queues_wf (init_queues algorithm algorithms quant preempt timeout)"
proof -
  have "refs_in st (init_queues algorithm algorithms quant preempt timeout) = []" for st
    by (cases st) (auto simp: init_queues_def init_exec_list_def init_blocking_list_def)
  moreover have "ready_ok (init_ready_queue algorithm algorithms)"
    unfolding ready_ok_def ready_refs_init using assms by (simp add: init_ready_queue_def)
  ultimately show ?thesis
    by (simp add: queues_wf_def lists_match_def store_ok_def placed_def) (simp add: init_queues_def)
qed

fun sched_run :: "sched_request list \<Rightarrow> t_queues \<Rightarrow> t_queues option" where
  "sched_run [] q = Some q"
| "sched_run (r # rs) q =
     (if sched_ok r q then (case sched_apply r q of None \<Rightarrow> None | Some (q', out) \<Rightarrow> sched_run rs q') else None)"

lemma sched_run_reachable:
  "reachable sched_ok sched_apply q0 q \<Longrightarrow> sched_run rs q = Some q' \<Longrightarrow> reachable sched_ok sched_apply q0 q'"
  by (induction rs arbitrary: q) (auto split: if_splits option.splits prod.splits intro: reachable_step)

text \<open>
  A run with three priorities: the first process is dispatched, blocks, is suspended and woken
  up while another one runs.
\<close>

definition process_started :: bytes where
  "process_started = send_string OP_PROCESS_STARTED ''''"

definition demo_init :: t_queues where
  "demo_init = init_queues SA_MULTILEVEL_QUEUES [SA_FIFO, SA_RR, SA_RR] 2000 True 500"

definition demo_requests :: "sched_request list" where
  "demo_requests =
     [Km_sends process_started, New_process ''init'' 0, Km_sends process_started, New_process ''child'' 2, Km_sends process_started,
      New_process ''other'' 2, Dispatch, Block_process 0, Dispatch, Km_sends (send_string OP_SUSPENSION_OK ''''),
      Suspend 0, Unlock 0]"

lemma demo_init_wf: "queues_wf demo_init"
  by (simp add: demo_init_def init_queues_wf)

lemma sched_run_wf: "sched_run rs demo_init = Some q \<Longrightarrow> queues_wf q"
  using scheduler.reachable_inv [OF sched_run_reachable [OF reachable_init] demo_init_wf] .

subsection \<open>Properties\<close>

text \<open>C5: In every state the scheduler reaches by creating, dispatching, preempting, blocking, waking,
  suspending, resuming and ending processes in any order and with any answers of Kernel Memory,
  the list of a state holds exactly the living processes in that state, each once; the READY
  counter is the number of READY processes, the process counter the number of living ones, and
  with \<open>MULTILEVEL\<close> every READY process waits in the subqueue of its priority.\<close>

theorem seven_state_invariant:
  assumes "algorithm = SA_MULTILEVEL_QUEUES \<longrightarrow> algorithms \<noteq> []"
    and "reachable sched_ok sched_apply (init_queues algorithm algorithms quant preempt timeout) q"
  shows "(\<forall>st r. r \<in> set (refs_in st q) \<longleftrightarrow> (\<exists>p. pcbs q r = Some p \<and> pcb_state p = st))
    \<and> (\<forall>st. distinct (refs_in st q))
    \<and> ready_process_count (ready q) = int (length (refs_in PS_READY q))
    \<and> active_process_count q = int (card (dom (pcbs q)))
    \<and> (multilevel_queue (ready q) \<longrightarrow> (\<forall>i r p. i < length (subqueues (ready q)) \<and> pcbs q r = Some p
          \<and> r \<in> set (snd (subqueues (ready q) ! i)) \<longrightarrow> pcb_priority p = int i))"
proof -
  have "queues_wf q" using scheduler.reachable_inv [OF assms(2) init_queues_wf [OF assms(1)]] .
  then show ?thesis by (auto simp: queues_wf_def lists_match_def store_ok_def placed_def ready_ok_def)
qed

lemma demo_run:
  "map_option (\<lambda>q. (refs_in PS_READY q, refs_in PS_EXEC q, refs_in PS_BLOCK q, refs_in PS_SUSP_BLOCK q,
      refs_in PS_SUSP_READY q, ready_process_count (ready q), active_process_count q)) (sched_run demo_requests demo_init)
   = Some ([2], [1], [], [], [0], 1, 3)"
  by code_simp

theorem seven_state_invariant_witness:
  "\<exists>q. sched_run demo_requests demo_init = Some q \<and> distinct (refs_in PS_READY q) \<and> active_process_count q = int (card (dom (pcbs q)))"
proof -
  obtain q where q: "sched_run demo_requests demo_init = Some q" using demo_run by auto
  then have "reachable sched_ok sched_apply demo_init q" using sched_run_reachable [OF reachable_init] by blast
  then have r: "reachable sched_ok sched_apply
      (init_queues SA_MULTILEVEL_QUEUES [SA_FIFO, SA_RR, SA_RR] 2000 True 500) q"
    unfolding demo_init_def .
  have "distinct (refs_in PS_READY q) \<and> active_process_count q = int (card (dom (pcbs q)))"
    using seven_state_invariant [OF _ r] by blast
  with q show ?thesis by blast
qed

text \<open>C6: A CPU that asks for a process while READY is not empty, not blocked and not terminated gets
  one: the head of READY, which with \<open>MULTILEVEL\<close> has the best priority of all READY processes.
  It alone moves, to the end of EXEC, and its state is EXEC.\<close>

theorem dispatch_takes_best:
  assumes "queues_wf q" "\<not> preempt_all (ready q)" "\<not> terminate_queue (ready q)" "ready_process_count (ready q) \<noteq> 0"
  shows "\<exists>r p q'. dispatch q = Some (Some r, q') \<and> pcbs q r = Some p \<and> pcb_state p = PS_READY
    \<and> pcbs q' = (pcbs q)(r \<mapsto> p\<lparr>pcb_state := PS_EXEC\<rparr>)
    \<and> refs_in PS_READY q = r # refs_in PS_READY q' \<and> refs_in PS_EXEC q' = refs_in PS_EXEC q @ [r]
    \<and> (multilevel_queue (ready q) \<longrightarrow>
        (\<forall>r' p'. pcbs q r' = Some p' \<and> pcb_state p' = PS_READY \<longrightarrow> pcb_priority p \<le> pcb_priority p'))"
proof -
  have ok: "ready_ok (ready q)" and placed: "placed q" using assms(1) by (auto simp: queues_wf_def)
  obtain r rd where r: "transition_take_ready_next_no_mutex (ready q) = (Some r, rd)"
    using take_next_progress ok assms(4) by metis
  have head: "ready_refs (ready q) = r # ready_refs rd" by (rule take_next_tl [OF r])
  then obtain p where p: "pcbs q r = Some p" "pcb_state p = PS_READY"
    using wf_member(2) [OF assms(1), of r PS_READY] by auto
  obtain q' where q': "dispatch q = Some (Some r, q')" "pcbs q' = (pcbs q)(r \<mapsto> p\<lparr>pcb_state := PS_EXEC\<rparr>)"
    "ready q' = rd" "exec_list (exec q') = exec_list (exec q) @ [r]"
    using r p assms(2-4)
    by (auto simp: dispatch_def transition_take_ready_blocking_def queue_ready_terminated_def run_process_def
        transition_ready_exec_def manage_state_pcb_def get_state_pcb_def update_pcb_def transition_to_exec_def get_priority_pcb_def)
  have "pcb_priority p \<le> pcb_priority p'" if ml: "multilevel_queue (ready q)" and p': "pcbs q r' = Some p'" "pcb_state p' = PS_READY" for r' p'
  proof -
    obtain i a rest where i: "first_nonempty (subqueues (ready q)) = Some i" "subqueues (ready q) ! i = (a, r # rest)"
      using take_next_spec(1) [OF r] by blast
    have "r' \<in> set (ready_refs (ready q))" using wf_member(1) [OF assms(1) p'(1)] p'(2) by simp
    then obtain j where j: "j < length (subqueues (ready q))" "r' \<in> set (snd (subqueues (ready q) ! j))"
      by (auto simp: ready_refs_def in_set_conv_nth) (metis snd_conv)
    then have "\<not> j < i" using i(1) by (auto simp: first_nonempty_Some)
    moreover have "pcb_priority p = int i" "pcb_priority p' = int j"
      using placed ml i j p p' by (auto simp: placed_def first_nonempty_Some)
    ultimately show ?thesis by simp
  qed
  then show ?thesis using q' p head by auto
qed

theorem dispatch_takes_best_witness:
  "\<exists>q r q'. sched_run (take 6 demo_requests) demo_init = Some q \<and> dispatch q = Some (Some r, q') \<and> refs_in PS_READY q = r # refs_in PS_READY q'"
proof -
  have "map_option (\<lambda>q. (preempt_all (ready q), terminate_queue (ready q), ready_process_count (ready q))) (sched_run (take 6 demo_requests) demo_init)
     = Some (False, False, 3)" by code_simp
  then obtain q where q: "sched_run (take 6 demo_requests) demo_init = Some q" "\<not> preempt_all (ready q)"
    "\<not> terminate_queue (ready q)" "ready_process_count (ready q) \<noteq> 0" by auto
  from dispatch_takes_best [OF sched_run_wf [OF q(1)] q(2-4)] q(1) show ?thesis by blast
qed

lemma unlock_effect:
  assumes "queues_wf q" "pcbs q r = Some p"
  shows "\<exists>q' p'. transition_unlock r q = Some q' \<and> queues_wf q' \<and> pcbs q' = (pcbs q)(r \<mapsto> p')
    \<and> pcb_state p' = (if pcb_state p = PS_BLOCK then PS_READY else if pcb_state p = PS_SUSP_BLOCK then PS_SUSP_READY
                       else pcb_state p) \<and> pcb_priority p' = pcb_priority p"
proof -
  obtain q' where q': "transition_unlock r q = Some q'" "queues_wf q'" using transition_unlock_wf [OF assms] by blast
  consider "pcb_state p = PS_BLOCK" | "pcb_state p = PS_SUSP_BLOCK" | "pcb_state p \<noteq> PS_BLOCK" "pcb_state p \<noteq> PS_SUSP_BLOCK" by blast
  then have "\<exists>p'. pcbs q' = (pcbs q)(r \<mapsto> p') \<and> pcb_state p' = (if pcb_state p = PS_BLOCK then PS_READY
       else if pcb_state p = PS_SUSP_BLOCK then PS_SUSP_READY else pcb_state p) \<and> pcb_priority p' = pcb_priority p"
  proof cases
    case 1
    then have "pcbs q' = (pcbs q)(r \<mapsto> p\<lparr>pcb_state := PS_READY, blocked_time := 0\<rparr>)"
      using q'(1) assms(2)
      by (auto simp: transition_unlock_def get_state_pcb_def transition_block_ready_no_mutex_def guarded_move_eq transition_take_block_def
          set_blocked_time_def update_pcb_def put_ready_def get_priority_pcb_def)
    then show ?thesis using 1 by (intro exI [of _ "p\<lparr>pcb_state := PS_READY, blocked_time := 0\<rparr>"]) simp
  next
    case 2
    then have "pcbs q' = (pcbs q)(r \<mapsto> p\<lparr>pcb_state := PS_SUSP_READY\<rparr>)"
      using q'(1) assms(2)
      by (auto simp: transition_unlock_def get_state_pcb_def transition_susp_block_susp_ready_no_mutex_def guarded_move_eq
          transition_take_susp_block_def transition_to_susp_ready_def)
    then show ?thesis using 2 by (intro exI [of _ "p\<lparr>pcb_state := PS_SUSP_READY\<rparr>"]) simp
  next
    case 3
    then have "q' = q" using q'(1) assms(2)
      by (simp add: transition_unlock_def get_state_pcb_def transition_susp_block_susp_ready_no_mutex_def guarded_move_eq)
    then show ?thesis using 3 assms(2) by (intro exI [of _ p]) auto
  qed
  then show ?thesis using q' by blast
qed

text \<open>Waking a process up (\<open>transition_unlock\<close>, after its I/O or when it gets a mutex) always
  succeeds; it moves a BLOCK process to READY and a suspended one to SUSP. READY, changes no
  other process, and leaves a process in any other state where it is.\<close>

lemma unlock_wakes:
  assumes "queues_wf q" "pcbs q r = Some p"
  shows "\<exists>q' p'. transition_unlock r q = Some q' \<and> queues_wf q' \<and> pcbs q' = (pcbs q)(r \<mapsto> p')
    \<and> pcb_state p' = (if pcb_state p = PS_BLOCK then PS_READY else if pcb_state p = PS_SUSP_BLOCK then PS_SUSP_READY
                       else pcb_state p) \<and> pcb_priority p' = pcb_priority p"
  by (rule unlock_effect [OF assms])

lemma to_exit_shuts_down:
  assumes "transition_to_exit r PER_SYSTEM_SHUTDOWN q = Some q'" "active_process_count q' = 0"
  shows "shutdown q' \<noteq> None"
  using assms
  by (auto simp: transition_to_exit_def wait_zero_active_instances_def bind_eq_Some_conv decrement_process_count_def
      destroy_pcb_def close_kernel_scheduler_def check_reason_shutdown_def notify_shutdown_kernel_memory_def
      send_to_km_def Let_def split: option.splits if_splits prod.splits)

lemma exit_all_shuts_down:
  assumes "exit_all st PER_SYSTEM_SHUTDOWN q = Some q'" "active_process_count q = 0 \<longrightarrow> shutdown q \<noteq> None"
  shows "active_process_count q' = 0 \<longrightarrow> shutdown q' \<noteq> None"
  using assms
proof (induction st "PER_SYSTEM_SHUTDOWN" q rule: exit_all.induct)
  case (1 st q)
  obtain taken q1 where q1: "transition_any_exit st PER_SYSTEM_SHUTDOWN q = Some (taken, q1)"
    using 1(2) by (subst (asm) exit_all.simps) (auto split: option.splits)
  show ?case
  proof (cases taken)
    case True
    then obtain r q0 where "transition_to_exit r PER_SYSTEM_SHUTDOWN q0 = Some q1"
      using q1 by (auto simp: any_exit_take bind_eq_Some_conv split: option.splits)
    then have "active_process_count q1 = 0 \<longrightarrow> shutdown q1 \<noteq> None" using to_exit_shuts_down by blast
    moreover have "exit_all st PER_SYSTEM_SHUTDOWN q1 = Some q'"
      using 1(2) q1 True by (subst (asm) exit_all.simps) simp
    ultimately show ?thesis using 1(1) q1 True by blast
  next
    case False
    then have "take_any st q = Some (None, q1)" using q1 by (auto simp: any_exit_take bind_eq_Some_conv split: option.splits)
    then have "q1 = q"
      by (cases st) (auto simp: take_any_def transition_take_ready_next_def transition_take_exec_next_def
          transition_take_block_next_def transition_take_susp_block_next_def transition_take_susp_ready_next_def
          dest: take_next_none(2) split: prod.splits list.splits)
    then show ?thesis using 1(2,3) q1 False by (subst (asm) exit_all.simps) simp
  qed
qed

text \<open>C15: At shutdown \<open>clear_queues\<close> returns from every state in which \<open>queues_wf\<close> holds: every process has been destroyed,
  the lists are empty and the process count is 0, and if there was a process the scheduler has
  been shut down.\<close>

theorem clear_queues_ends_all:
  assumes "queues_wf q"
  shows "\<exists>q'. clear_queues q = Some q' \<and> pcbs q' = Map.empty \<and> active_process_count q' = 0
    \<and> (\<forall>st. refs_in st q' = []) \<and> (active_process_count q \<noteq> 0 \<longrightarrow> shutdown q' \<noteq> None)"
proof -
  obtain q' where q': "clear_queues q = Some q'" "queues_wf q'" "\<forall>st. refs_in st q' = []"
    using clear_queues_wf [OF assms] by blast
  have "pcbs q' r = None" for r using wf_member(1) [OF q'(2), of r] q'(3) by (cases "pcbs q' r") auto
  then have empty: "pcbs q' = Map.empty" by auto
  then have "active_process_count q' = 0" using q'(2) by (simp add: queues_wf_def store_ok_def)
  moreover have "shutdown q' \<noteq> None" if "active_process_count q \<noteq> 0"
    using q'(1) that \<open>active_process_count q' = 0\<close> exit_all_shuts_down
    unfolding clear_queues_def by (simp add: bind_eq_Some_conv) metis
  ultimately show ?thesis using q' empty by blast
qed

theorem clear_queues_ends_all_witness:
  "\<exists>q q'. sched_run demo_requests demo_init = Some q \<and> clear_queues q = Some q' \<and> pcbs q' = Map.empty"
proof -
  obtain q where q: "sched_run demo_requests demo_init = Some q" using demo_run by auto
  from clear_queues_ends_all [OF sched_run_wf [OF q]] q show ?thesis by blast
qed

end
