(* ===== verification/Sched_Io.thy ===== *)
theory Sched_Io
  imports Queues_System
begin

section \<open>Kernel Scheduler: the I/O interfaces\<close>

text \<open>
  \<open>connections/io.c\<close>. There is one slot per interface type; it is \<open>None\<close> until the interface
  connects for the first time, since \<open>create_io_structures\<close> only clears the socket. A request
  is allocated with the next number as its address and keeps the bytes the CPU sent. The list
  of requests is \<open>None\<close> once the thread of the interface has freed it. The operations
  return the result, the slot and the scheduler; a read outside a buffer or through a null
  or freed pointer is \<open>None\<close>.
\<close>

subsection \<open>Slots\<close>

datatype t_io_type = IO_STDIN | IO_STDOUT | IO_SLEEP

definition IO_TYPE_NAMES :: "t_io_type \<Rightarrow> string" where
  "IO_TYPE_NAMES t = (case t of IO_STDIN \<Rightarrow> ''STDIN'' | IO_STDOUT \<Rightarrow> ''STDOUT'' | IO_SLEEP \<Rightarrow> ''SLEEP'')"

record t_io_request =
  request_ref :: nat
  request_pcb :: pcb_ref
  request_bytes :: bytes

record t_io =
  socket_io :: bool
  io_priority_active :: bool
  close_thread :: bool
  io_list :: "t_io_request list option"
  io_type :: t_io_type
  next_request :: nat
  from_io :: bytes
  io_open :: bool
  to_io :: "bytes list"

type_synonym t_io_slots = "t_io_type \<Rightarrow> t_io option"

type_synonym io_result = "(bool \<times> t_io \<times> t_queues) option"

definition create_io_structures :: t_io_slots where
  "create_io_structures = (\<lambda>_. None)"

definition get_io_type :: "bytes \<Rightarrow> (t_io_type option \<times> bytes) option" where
  "get_io_type stream =
     (case receive_op_code stream of
        (op, rest) \<Rightarrow>
          (if op \<noteq> OP_IO_TYPE then Some (None, rest)
           else (case receive_string rest of
                   Some (Some b, rest') \<Rightarrow>
                     (let buffer = string_of_bytes b
                      in Some (if buffer = IO_TYPE_NAMES IO_STDIN then Some IO_STDIN
                               else if buffer = IO_TYPE_NAMES IO_STDOUT then Some IO_STDOUT
                               else if buffer = IO_TYPE_NAMES IO_SLEEP then Some IO_SLEEP
                               else None, rest'))
                 | _ \<Rightarrow> None)))"

text \<open>
  The bytes are those that the interface sends after its handshake; \<open>sent\<close> and \<open>started\<close> say
  whether the answer to the handshake was sent and whether the thread could be created.
\<close>

definition handle_new_io :: "t_io_slots \<Rightarrow> bytes \<Rightarrow> bool \<Rightarrow> bool \<Rightarrow> bool \<Rightarrow> (bool \<times> t_io_slots) option" where
  "handle_new_io io stream sent started active =
     (if \<not> sent then Some (False, io)
      else do {
        (found, rest) \<leftarrow> get_io_type stream;
        (case found of
           None \<Rightarrow> Some (False, io)
         | Some t \<Rightarrow>
             (if (case io t of None \<Rightarrow> False | Some slot \<Rightarrow> socket_io slot) then Some (False, io)
              else (let slot = \<lparr>socket_io = True, io_priority_active = active, close_thread = False, io_list = Some [],
                                io_type = t, next_request = 0, from_io = rest, io_open = True, to_io = []\<rparr>
                    in if started then Some (True, io(t \<mapsto> slot))
                       else Some (False, io(t \<mapsto> slot\<lparr>socket_io := False\<rparr>))))) })"

subsection \<open>Queueing a request\<close>

definition compare_priority_stdin :: "t_queues \<Rightarrow> t_io_request \<Rightarrow> t_io_request \<Rightarrow> bool" where
  "compare_priority_stdin q stdin1 stdin2 \<longleftrightarrow> prio_of q (request_pcb stdin1) \<le> prio_of q (request_pcb stdin2)"

definition compare_priority_stdout :: "t_queues \<Rightarrow> t_io_request \<Rightarrow> t_io_request \<Rightarrow> bool" where
  "compare_priority_stdout q stdout1 stdout2 \<longleftrightarrow> prio_of q (request_pcb stdout1) \<le> prio_of q (request_pcb stdout2)"

definition compare_priority_sleep :: "t_queues \<Rightarrow> t_io_request \<Rightarrow> t_io_request \<Rightarrow> bool" where
  "compare_priority_sleep q sleep1 sleep2 \<longleftrightarrow> prio_of q (request_pcb sleep1) \<le> prio_of q (request_pcb sleep2)"

definition add_ordered :: "t_io_type \<Rightarrow> t_io_request \<Rightarrow> t_io_request list \<Rightarrow> t_queues \<Rightarrow> t_io_request list option" where
  "add_ordered t entry xs q =
     (if list_all (\<lambda>r. pcbs q (request_pcb r) \<noteq> None) (entry # xs)
      then (let cmp = (case t of IO_STDIN \<Rightarrow> compare_priority_stdin q | IO_STDOUT \<Rightarrow> compare_priority_stdout q
                       | IO_SLEEP \<Rightarrow> compare_priority_sleep q);
                slot = sorted_slot cmp entry xs in Some (take slot xs @ entry # drop slot xs))
      else None)"

definition transform_request :: "bytes \<Rightarrow> pcb_ref \<Rightarrow> t_io \<Rightarrow> t_io_request \<times> t_io" where
  "transform_request request pcb io =
     (\<lparr>request_ref = next_request io, request_pcb = pcb, request_bytes = request\<rparr>, io\<lparr>next_request := next_request io + 1\<rparr>)"

definition enqueue_io_request :: "bytes \<Rightarrow> t_io \<Rightarrow> pcb_ref \<Rightarrow> t_queues \<Rightarrow> (bool \<times> t_io) option" where
  "enqueue_io_request request io pcb q =
     (if close_thread io then Some (False, io)
      else (case transform_request request pcb io of
              (entry, io1) \<Rightarrow> do {
                xs \<leftarrow> io_list io1;
                ys \<leftarrow> (if io_priority_active io1 then add_ordered (io_type io1) entry xs q else Some (xs @ [entry]));
                Some (True, io1\<lparr>io_list := Some ys\<rparr>) }))"

subsection \<open>Ending a request\<close>

definition free_request :: "t_io_request \<Rightarrow> t_queues \<Rightarrow> t_queues option" where
  "free_request request q = transition_unlock (request_pcb request) q"

text \<open>\<open>list_remove_element\<close> finds the request by its address.\<close>

fun remove_request :: "nat \<Rightarrow> t_io_request list \<Rightarrow> bool \<times> t_io_request list" where
  "remove_request ref [] = (False, [])"
| "remove_request ref (r # rs) =
     (if request_ref r = ref then (True, rs) else (case remove_request ref rs of (found, rs') \<Rightarrow> (found, r # rs')))"

definition finalize_io :: "t_io_request \<Rightarrow> t_io \<Rightarrow> t_queues \<Rightarrow> (t_io \<times> t_queues) option" where
  "finalize_io request io q = do {
     xs \<leftarrow> io_list io;
     (case remove_request (request_ref request) xs of
        (False, ys) \<Rightarrow> Some (io, q)
      | (True, ys) \<Rightarrow> map_option (Pair (io\<lparr>io_list := Some ys\<rparr>)) (free_request request q)) }"

fun free_requests :: "t_io_request list \<Rightarrow> t_queues \<Rightarrow> t_queues option" where
  "free_requests [] q = Some q"
| "free_requests (r # rs) q = Option.bind (free_request r q) (free_requests rs)"

definition close_thread_io :: "t_io \<Rightarrow> t_queues \<Rightarrow> (t_io \<times> t_queues) option" where
  "close_thread_io io q = do {
     xs \<leftarrow> io_list io;
     map_option (Pair (io\<lparr>close_thread := True, io_list := None\<rparr>)) (free_requests xs q) }"

subsection \<open>Messages\<close>

definition send_to_io :: "bytes \<Rightarrow> t_io \<Rightarrow> bool \<times> t_io" where
  "send_to_io b io = (if io_open io then (True, io\<lparr>to_io := to_io io @ [b]\<rparr>) else (False, io))"

text \<open>The first \<open>n\<close> bytes of a request, as many as the struct that is sent.\<close>

definition request_struct :: "nat \<Rightarrow> t_io_request \<Rightarrow> bytes option" where
  "request_struct n request = (if n \<le> length (request_bytes request) then Some (take n (request_bytes request)) else None)"

definition send_stdout :: "t_io_request \<Rightarrow> t_io \<Rightarrow> string \<Rightarrow> (bool \<times> t_io) option" where
  "send_stdout request io buffer = do {
     b \<leftarrow> request_struct 12 request;
     Some (send_to_io (send_packet (packet_append_string (packet_append (create_packet OP_IO_STDOUT_REQUEST) b) buffer)) io) }"

definition request_stdout_km :: "t_io_request \<Rightarrow> t_queues \<Rightarrow> (bool \<times> t_queues) option" where
  "request_stdout_km request q = do {
     b \<leftarrow> request_struct 12 request;
     Some (send_to_km (send_buffer OP_IO_STDOUT_REQUEST b) q) }"

definition send_stdin :: "t_io_request \<Rightarrow> string \<Rightarrow> t_queues \<Rightarrow> (bool \<times> t_queues) option" where
  "send_stdin request buffer q = do {
     b \<leftarrow> request_struct 12 request;
     Some (send_to_km (send_packet (packet_append_string (packet_append (create_packet OP_IO_STDIN_REQUEST) b) buffer)) q) }"

definition communication_io_stdin :: "t_io_request \<Rightarrow> t_io \<Rightarrow> (string option \<times> t_io) option" where
  "communication_io_stdin request io = do {
     b \<leftarrow> request_struct 12 request;
     (case send_to_io (send_buffer OP_IO_STDIN_REQUEST b) io of
        (False, io1) \<Rightarrow> Some (None, io1)
      | (True, io1) \<Rightarrow>
          (case receive_op_code (from_io io1) of
             (op, rest) \<Rightarrow>
               (if op = OP_CODE_ERROR then Some (None, io1\<lparr>from_io := rest\<rparr>)
                else do {
                  (buffer, rest') \<leftarrow> receive_string rest;
                  Some (map_option string_of_bytes buffer, io1\<lparr>from_io := rest'\<rparr>) }))) }"

definition communication_io_sleep :: "t_io_request \<Rightarrow> t_io \<Rightarrow> (bool \<times> t_io) option" where
  "communication_io_sleep request io = do {
     b \<leftarrow> request_struct 8 request;
     (case send_to_io (send_buffer OP_IO_SLEEP_REQUEST b) io of
        (False, io1) \<Rightarrow> Some (False, io1)
      | (True, io1) \<Rightarrow>
          (case receive_op_code (from_io io1) of
             (op, rest) \<Rightarrow>
               (if op = OP_CODE_ERROR then Some (False, io1\<lparr>from_io := rest\<rparr>)
                else do {
                  (response, rest') \<leftarrow> receive_string rest;
                  b \<leftarrow> response;
                  Some (string_of_bytes b = ''OK'', io1\<lparr>from_io := rest'\<rparr>) }))) }"

definition chat_km_stdin :: "t_queues \<Rightarrow> (bool \<times> t_queues) option" where
  "chat_km_stdin q = do {
     (op, q1) \<leftarrow> receive_km_opcode [OP_STDIN_RESPONSE] q;
     if op = OP_CODE_ERROR then Some (False, q1) else map_option (Pair True) (skip_string q1) }"

definition receive_km_stdout :: "t_queues \<Rightarrow> (bool \<times> t_queues) option" where
  "receive_km_stdout q = map_option (\<lambda>(op, q1). (op \<noteq> OP_CODE_ERROR, q1)) (receive_km_opcode [OP_STDOUT_RESPONSE] q)"

subsection \<open>Serving a request\<close>

text \<open>A failed operation.\<close>

abbreviation (input) io_failed :: "t_io \<Rightarrow> t_queues \<Rightarrow> io_result" where
  "io_failed io q \<equiv> Some (False, io, q)"

definition io_sleep_f :: "t_io_request \<Rightarrow> t_io \<Rightarrow> t_queues \<Rightarrow> io_result" where
  "io_sleep_f request io q = do {
     (comms, io1) \<leftarrow> communication_io_sleep request io;
     if \<not> comms then io_failed io1 q
     else map_option (Pair True) (finalize_io request io1 q) }"

text \<open>
  When the answer cannot be sent to Kernel Memory, \<open>io_stdin_f\<close> frees the buffer that
  \<open>send_stdin\<close> has not freed.
\<close>

definition io_stdin_f :: "t_io_request \<Rightarrow> t_io \<Rightarrow> t_queues \<Rightarrow> io_result" where
  "io_stdin_f request io q = do {
     (answer, io1) \<leftarrow> communication_io_stdin request io;
     (case answer of
        None \<Rightarrow> io_failed io1 q
      | Some buffer \<Rightarrow> do {
          (sent, q1) \<leftarrow> send_stdin request buffer q;
          if \<not> sent then Option.bind (close_kernel_scheduler SR_KERNEL_MEMORY_SEND_ERROR q1) (io_failed io1)
          else do {
            (ok, q2) \<leftarrow> chat_km_stdin q1;
            if \<not> ok then io_failed io1 q2
            else map_option (Pair True) (finalize_io request io1 q2) } }) }"

definition io_stdout_f :: "t_io_request \<Rightarrow> t_io \<Rightarrow> t_queues \<Rightarrow> io_result" where
  "io_stdout_f request io q = do {
     (sent, q1) \<leftarrow> request_stdout_km request q;
     if \<not> sent then Option.bind (close_kernel_scheduler SR_KERNEL_MEMORY_SEND_ERROR q1) (io_failed io)
     else do {
       (answered, q2) \<leftarrow> receive_km_stdout q1;
       if \<not> answered then io_failed io q2
       else do {
         (buffer, rest) \<leftarrow> receive_string (from_km q2);
         let q3 = q2\<lparr>from_km := rest\<rparr>;
         (case buffer of
            None \<Rightarrow> Option.bind (close_kernel_scheduler SR_KERNEL_MEMORY_CONNECTION_FAILURE q3) (io_failed io)
          | Some b \<Rightarrow> do {
              (shown, io1) \<leftarrow> send_stdout request io (string_of_bytes b);
              if \<not> shown then io_failed io1 q3
              else (case receive_op_code (from_io io1) of
                      (op, rest') \<Rightarrow>
                        (if op \<noteq> OP_STDOUT_RESPONSE then io_failed (io1\<lparr>from_io := rest'\<rparr>) q3
                         else do {
                           (ok, rest'') \<leftarrow> receive_string rest';
                           map_option (Pair True) (finalize_io request (io1\<lparr>from_io := rest''\<rparr>) q3) })) }) } } }"

definition handle_stdin :: "t_io \<Rightarrow> t_queues \<Rightarrow> io_result" where
  "handle_stdin io q =
     (case io_list io of
        None \<Rightarrow> None
      | Some [] \<Rightarrow> io_failed io q
      | Some (request # rest) \<Rightarrow> io_stdin_f request io q)"

definition handle_stdout :: "t_io \<Rightarrow> t_queues \<Rightarrow> io_result" where
  "handle_stdout io q =
     (case io_list io of
        None \<Rightarrow> None
      | Some [] \<Rightarrow> io_failed io q
      | Some (request # rest) \<Rightarrow> io_stdout_f request io q)"

definition handle_sleep :: "t_io \<Rightarrow> t_queues \<Rightarrow> io_result" where
  "handle_sleep io q =
     (case io_list io of
        None \<Rightarrow> None
      | Some [] \<Rightarrow> io_failed io q
      | Some (request # rest) \<Rightarrow> io_sleep_f request io q)"

definition handle_io :: "t_io \<Rightarrow> t_queues \<Rightarrow> io_result" where
  "handle_io io q =
     (case io_type io of
        IO_STDIN \<Rightarrow> handle_stdin io q
      | IO_STDOUT \<Rightarrow> handle_stdout io q
      | IO_SLEEP \<Rightarrow> handle_sleep io q)"

text \<open>One round of the thread: whether it goes on. It waits (\<open>None\<close>) while there is no request.\<close>

definition io_thread :: "t_io \<Rightarrow> t_queues \<Rightarrow> io_result" where
  "io_thread io q = do {
     xs \<leftarrow> io_list io;
     if close_thread io then map_option (Pair False) (close_thread_io io q)
     else if xs = [] then None
     else do {
       (ok, io1, q1) \<leftarrow> handle_io io q;
       if ok then Some (True, io1, q1) else map_option (Pair False) (close_thread_io io1 q1) } }"

text \<open>Stopping an interface: the flag, the closed socket, and the last round of its thread.\<close>

definition close_io_slot :: "t_io option \<Rightarrow> t_queues \<Rightarrow> t_queues option" where
  "close_io_slot slot q =
     (case slot of
        None \<Rightarrow> Some q
      | Some io \<Rightarrow>
          (if \<not> socket_io io then Some q
           else if close_thread io then Some q
           else map_option snd (close_thread_io (io\<lparr>close_thread := True, io_open := False\<rparr>) q)))"

definition close_io_ks :: "t_io_slots \<Rightarrow> t_queues \<Rightarrow> t_queues option" where
  "close_io_ks io q =
     foldl (\<lambda>acc t. Option.bind acc (close_io_slot (io t))) (Some q) [IO_STDIN, IO_STDOUT, IO_SLEEP]"

end
