(* ===== verification/Io_Module.thy ===== *)
theory Io_Module
  imports Sched_Io
begin

section \<open>The I/O module\<close>

text \<open>
  \<open>src/io\<close>: a process that connects to Kernel Scheduler as one interface and serves its requests
  in a loop. The lines the user types are \<open>stdin_lines\<close>, what is shown is \<open>shown\<close>, and the time
  spent asleep is added up in \<open>slept\<close>. A missing or short request is \<open>None\<close>.
\<close>

record t_io_module =
  io_config :: t_config
  im_type :: t_io_type
  im_connected :: bool
  stdin_lines :: "string list"
  shown :: "(u32 \<times> string) list"
  slept :: nat

record t_sleep_request =
  sl_pid :: u32
  blocked_time_ms :: u32

definition decode_sleep_request :: "bytes \<Rightarrow> t_sleep_request option" where
  "decode_sleep_request b =
     (if length b < 8 then None else Some \<lparr>sl_pid = bytes_u32 b, blocked_time_ms = bytes_u32 (drop 4 b)\<rparr>)"

definition encode_sleep_request :: "t_sleep_request \<Rightarrow> bytes" where
  "encode_sleep_request r = u32_bytes (sl_pid r) @ u32_bytes (blocked_time_ms r)"

subsection \<open>Start\<close>

definition parse_args :: "string list \<Rightarrow> t_config option \<Rightarrow> (t_config option \<times> t_io_type) option" where
  "parse_args argv config =
     (case argv of
        [program, config_path, name] \<Rightarrow>
          (if IO_TYPE_NAMES IO_STDIN = name then Some (config, IO_STDIN)
           else if IO_TYPE_NAMES IO_STDOUT = name then Some (config, IO_STDOUT)
           else if IO_TYPE_NAMES IO_SLEEP = name then Some (config, IO_SLEEP)
           else None)
      | _ \<Rightarrow> None)"

text \<open>
  Connecting: whether it succeeded, the bytes sent and the rest of the bytes from the scheduler.
  \<open>sent\<close> says for the handshake and the type whether they can be sent.
\<close>

definition connect_to_scheduler :: "t_io_type \<Rightarrow> bytes \<Rightarrow> bool \<Rightarrow> bool \<Rightarrow> (bool \<times> bytes list \<times> bytes) option" where
  "connect_to_scheduler t stream handshake_sent type_sent = do {
     hs \<leftarrow> send_handshake MID_IO;
     if \<not> handshake_sent then Some (False, [], stream)
     else do {
       (received_id, rest) \<leftarrow> receive_handshake stream;
       if received_id \<noteq> MID_KERNEL_SCHEDULER then Some (False, [hs], rest)
       else if \<not> type_sent then Some (False, [hs], rest)
       else Some (True, [hs, send_string OP_IO_TYPE (IO_TYPE_NAMES t)], rest) } }"

subsection \<open>Requests\<close>

text \<open>
  Each operation returns whether it succeeded, the module, the answer and the rest of the
  bytes. \<open>truncate_line\<close> is the write of a NUL at \<open>bytes_to_read - 1\<close>.
\<close>

type_synonym io_step = "(bool \<times> t_io_module \<times> bytes list \<times> bytes) option"

definition truncate_line :: "u32 \<Rightarrow> string \<Rightarrow> string" where
  "truncate_line n buffer = (if n > 0 \<and> length buffer \<ge> unat n then take (unat n - 1) buffer else buffer)"

definition answer_scheduler :: "t_io_module \<Rightarrow> bytes \<Rightarrow> bytes \<Rightarrow> bool \<times> t_io_module \<times> bytes list \<times> bytes" where
  "answer_scheduler m b rest = (if im_connected m then (True, m, [b], rest) else (False, m, [], rest))"

definition run_stdin :: "t_io_module \<Rightarrow> bytes \<Rightarrow> io_step" where
  "run_stdin m stream = do {
     (request, rest) \<leftarrow> receive_struct decode_stdin_request stream;
     Some (case stdin_lines m of
             [] \<Rightarrow> (False, m, [], rest)
           | buffer # later \<Rightarrow>
               answer_scheduler (m\<lparr>stdin_lines := later\<rparr>)
                 (send_string OP_STDIN_RESPONSE (truncate_line (bytes_to_read request) buffer)) rest) }"

definition run_stdout :: "t_io_module \<Rightarrow> bytes \<Rightarrow> io_step" where
  "run_stdout m stream = do {
     (packet, rest) \<leftarrow> receive_packet stream;
     (case element packet 1 of
        None \<Rightarrow> Some (False, m, [], rest)
      | Some buffer \<Rightarrow> do {
          request \<leftarrow> Option.bind (element packet 0) decode_stdout_request;
          Some (answer_scheduler (m\<lparr>shown := shown m @ [(out_pid request, string_of_bytes buffer)]\<rparr>)
                  (send_string OP_STDOUT_RESPONSE ''OK'') rest) }) }"

definition run_sleep :: "t_io_module \<Rightarrow> bytes \<Rightarrow> io_step" where
  "run_sleep m stream = do {
     (request, rest) \<leftarrow> receive_struct decode_sleep_request stream;
     Some (answer_scheduler (m\<lparr>slept := slept m + unat (blocked_time_ms request)\<rparr>) (send_string OP_SLEEP_RESPONSE ''OK'') rest) }"

definition io_module_round :: "t_io_module \<Rightarrow> bytes \<Rightarrow> io_step" where
  "io_module_round m stream =
     (case receive_op_code stream of
        (op, rest) \<Rightarrow>
          (if op = OP_IO_STDIN_REQUEST then run_stdin m rest
           else if op = OP_IO_STDOUT_REQUEST then run_stdout m rest
           else if op = OP_IO_SLEEP_REQUEST then run_sleep m rest
           else Some (False, m, [], rest)))"

end
