(* ===== verification/Start_Up.thy ===== *)
theory Start_Up
  imports Stick_Tables Logging Io_Module
begin

section \<open>Start and main loop of the other modules\<close>

text \<open>
  What the Memory Stick, the swap, a CPU and an IO module do from \<open>main\<close> on: arguments, configuration,
  the conversation with which they connect, the loop. A connection is what its peer sends and whether
  it can be sent to; \<open>None\<close> as a connection is a socket that could not be created. The results
  say what was sent. Whether a file or a log can be opened is an argument.
\<close>

record t_connection =
  lk_in :: bytes
  lk_up :: bool

definition greet :: "t_module_id \<Rightarrow> t_connection \<Rightarrow> bytes list" where
  "greet mid l = (if lk_up l then (case send_handshake mid of Some hello \<Rightarrow> [hello] | None \<Rightarrow> []) else [])"

subsection \<open>Memory Stick\<close>

record t_ms_config_vars =
  ms_log_level :: "string option"
  ms_delay :: int
  ms_km_ip :: "string option"
  ms_km_port :: "string option"

definition read_config :: "t_config \<Rightarrow> t_ms_config_vars option" where
  "read_config config =
     map_option (\<lambda>delay. \<lparr>ms_log_level = config_get_string_value config ''LOG_LEVEL'', ms_delay = delay,
         ms_km_ip = config_get_string_value config ''KERNEL_MEMORY_IP'', ms_km_port = config_get_string_value config ''KERNEL_MEMORY_PORT''\<rparr>)
       (config_get_int_value config ''MEMORY_DELAY'')"

text \<open>The handshake, then the size; the result says whether both went well, what was sent and what is left to read.\<close>

definition connect_to_kernel_memory_ms :: "t_connection option \<Rightarrow> string \<Rightarrow> (bool \<times> bytes list \<times> bytes) option" where
  "connect_to_kernel_memory_ms connection size_str =
     (case connection of
        None \<Rightarrow> Some (False, [], [])
      | Some l \<Rightarrow>
          (if \<not> lk_up l then Some (False, [], lk_in l)
           else map_option (\<lambda>(ok, hello, rest).
                    if ok then (True, greet MID_MEMORY_STICK l @ [send_size size_str], rest) else (False, greet MID_MEMORY_STICK l, rest))
                  (handshake_km (lk_in l))))"

text \<open>
  \<open>init_module\<close>: the stick, if everything went well, what was sent and what is left to read. \<open>server\<close> is the
  port of the socket for the CPUs, \<open>None\<close> when it could not be created.
\<close>

definition init_module_ms :: "string option \<Rightarrow> bool \<Rightarrow> string \<Rightarrow> t_connection option \<Rightarrow> 16 word option \<Rightarrow> (t_ms option \<times> bytes list \<times> bytes) option" where
  "init_module_ms contents log_ok size_str connection server =
     (case config_create contents of
        None \<Rightarrow> Some (None, [], [])
      | Some config \<Rightarrow>
          (case read_config config of
             None \<Rightarrow> None
           | Some vars \<Rightarrow>
               (case log_level_from_string (ms_log_level vars) of
                  None \<Rightarrow> None
                | Some level \<Rightarrow>
                    (if \<not> log_ok then Some (None, [], [])
                     else case connect_to_kernel_memory_ms connection size_str of
                            None \<Rightarrow> None
                          | Some (connected, out, rest) \<Rightarrow>
                              (if \<not> connected then Some (None, out, rest)
                               else case server of
                                      None \<Rightarrow> Some (None, out, rest)
                                    | Some port \<Rightarrow>
                                        Some (Some (init_stick (ms_delay vars) size_str), out @ [send_cpu_server_port_to_km port], rest))))))"

definition memory_stick_main :: "string list \<Rightarrow> (string \<Rightarrow> string option) \<Rightarrow> bool \<Rightarrow> t_connection option \<Rightarrow> 16 word option
    \<Rightarrow> (t_ms option \<times> bytes list) option" where
  "memory_stick_main argv files log_ok connection server =
     (case get_args argv of
        None \<Rightarrow> Some (None, [])
      | Some (config_path, size_str, sz) \<Rightarrow>
          (case init_module_ms (files config_path) log_ok size_str connection server of
             None \<Rightarrow> None
           | Some (None, out, rest) \<Rightarrow> Some (None, out)
           | Some (Some ms, out, rest) \<Rightarrow> map_option (\<lambda>(ms', replies). (Some ms', out @ [replies])) (km_loop ms rest)))"

text \<open>
  The thread that accepts CPUs, on the sockets that are accepted until \<open>accept\<close> fails: each with what its
  peer sends and whether its thread can be started.
\<close>

fun cpu_listen_thread :: "'s list \<Rightarrow> ('s \<times> bytes \<times> bool) list \<Rightarrow> 's list option" where
  "cpu_listen_thread socket_list [] = Some socket_list"
| "cpu_listen_thread socket_list ((sock, stream, thread_started) # accepted) =
     (case handle_new_cpu socket_list sock stream thread_started of
        None \<Rightarrow> None
      | Some (socket_list', ok, rest) \<Rightarrow> cpu_listen_thread socket_list' accepted)"

text \<open>The wait of \<open>close_listen_thread\<close> for the threads of the sockets that are left.\<close>

definition close_listen_thread :: "'s list \<Rightarrow> unit option" where
  "close_listen_thread socket_list = (if socket_list = [] then Some () else None)"

subsection \<open>Swap\<close>

definition connect_to_kernel_memory_swap :: "t_connection option \<Rightarrow> t_swap \<Rightarrow> (bool \<times> bytes list \<times> bytes) option" where
  "connect_to_kernel_memory_swap connection swap =
     (case connection of
        None \<Rightarrow> Some (False, [], [])
      | Some l \<Rightarrow>
          (if \<not> lk_up l then Some (False, [], lk_in l)
           else map_option (\<lambda>(received_id, rest).
                    if received_id \<noteq> MID_KERNEL_MEMORY then (False, greet MID_SWAP l, rest)
                    else (True, greet MID_SWAP l @ [swap_geometry swap], rest))
                  (receive_handshake (lk_in l))))"

lemma swap_request_shrinks:
  "swap_request swap stream = Some (swap', reply, rest, True) \<Longrightarrow> length rest < length stream"
  by (auto simp: swap_request_def split: prod.splits if_splits option.splits
      dest!: receive_op_code_shrinks receive_packet_shrinks receive_buffer_shrinks)

function swap_loop :: "t_swap \<Rightarrow> bytes \<Rightarrow> (t_swap \<times> bytes) option" where
  "swap_loop swap stream =
     (case swap_request swap stream of
        None \<Rightarrow> None
      | Some (swap', reply, rest, keep_running) \<Rightarrow>
          (if keep_running then map_option (\<lambda>(swap'', replies). (swap'', reply @ replies)) (swap_loop swap' rest)
           else Some (swap', reply)))"
  by pat_completeness auto
termination
  by (relation "measure (length \<circ> snd)") (auto dest: swap_request_shrinks)

declare swap_loop.simps [simp del]

text \<open>\<open>file_ok\<close> says whether the swap file can be opened and resized.\<close>

definition swap_main :: "string list \<Rightarrow> (string \<Rightarrow> string option) \<Rightarrow> bool \<Rightarrow> bool \<Rightarrow> t_connection option \<Rightarrow> (t_swap option \<times> bytes list) option" where
  "swap_main argv files log_ok file_ok connection =
     (case argv of
        [program, config_path] \<Rightarrow>
          (case config_create (files config_path) of
             None \<Rightarrow> Some (None, [])
           | Some config \<Rightarrow>
               (case (swap_init_config config, log_level_from_string (config_get_string_value config ''LOG_LEVEL'')) of
                  (Some swap, Some level) \<Rightarrow>
                    (if \<not> log_ok \<or> \<not> file_ok then Some (None, [])
                     else case connect_to_kernel_memory_swap connection swap of
                            None \<Rightarrow> None
                          | Some (False, out, rest) \<Rightarrow> Some (None, out)
                          | Some (True, out, rest) \<Rightarrow> map_option (\<lambda>(swap', replies). (Some swap', out @ [replies])) (swap_loop swap rest))
                | _ \<Rightarrow> None))
      | _ \<Rightarrow> Some (None, []))"

subsection \<open>CPU\<close>

definition check_arguments :: "string list \<Rightarrow> bool" where
  "check_arguments argv \<longleftrightarrow> \<not> length argv < 3"

text \<open>A handshake that cannot be sent is only logged.\<close>

definition connect_to_kernel_scheduler_cpu :: "t_connection option \<Rightarrow> (bool \<times> bytes list \<times> bytes) option" where
  "connect_to_kernel_scheduler_cpu connection =
     (case connection of
        None \<Rightarrow> Some (False, [], [])
      | Some l \<Rightarrow> map_option (\<lambda>(module_id, rest). (module_id = MID_KERNEL_SCHEDULER, greet MID_CPU l, rest)) (receive_handshake (lk_in l)))"

definition connect_to_kernel_memory_cpu :: "t_connection option \<Rightarrow> (bool \<times> bytes list \<times> bytes) option" where
  "connect_to_kernel_memory_cpu connection =
     (case connection of
        None \<Rightarrow> Some (False, [], [])
      | Some l \<Rightarrow> map_option (\<lambda>(module_id, rest). (module_id = MID_KERNEL_MEMORY, greet MID_CPU l, rest)) (receive_handshake (lk_in l)))"

definition init_module_cpu :: "string option \<Rightarrow> bool \<Rightarrow> bool option" where
  "init_module_cpu contents log_ok =
     (case config_create contents of
        None \<Rightarrow> Some False
      | Some config \<Rightarrow> map_option (\<lambda>level. log_ok) (log_level_from_string (config_get_string_value config ''LOG_LEVEL'')))"

text \<open>
  \<open>main\<close> up to the loop: the CPU with what it has sent to Kernel Memory and to the Kernel Scheduler. The
  structure is allocated without being cleared, and \<open>close_module\<close> frees whatever its fields hold:
  every failure before the handlers are registered is undefined behaviour.
\<close>

definition cpu_main_start :: "string list \<Rightarrow> (string \<Rightarrow> string option) \<Rightarrow> bool \<Rightarrow> t_connection option \<Rightarrow> t_connection option \<Rightarrow> t_cpu option option" where
  "cpu_main_start argv files log_ok ks km =
     (if \<not> check_arguments argv then Some None
      else let cpu_id = argv ! 2 in
        case (init_module_cpu (files (argv ! 1)) log_ok, connect_to_kernel_scheduler_cpu ks, connect_to_kernel_memory_cpu km) of
          (Some True, Some (True, ks_out, ks_rest), Some (True, km_out, km_rest)) \<Rightarrow>
            (let ks_ok = map_option lk_up ks = Some True; km_ok = map_option lk_up km = Some True in
             if \<not> ks_ok \<or> \<not> km_ok then None
             else case receive_max_segment_size \<lparr>cpu_max_segment_size = 0, memory_sticks = [], km_in = km_rest, ks_in = ks_rest, km_up = km_ok, ks_up = ks_ok,
                         sent = map (Pair To_KS) (ks_out @ [send_string OP_ID_CPU cpu_id]) @ map (Pair To_KM) (km_out @ [send_string OP_ID_CPU cpu_id])\<rparr> of
                    Some (cpu, True) \<Rightarrow> Some (Some cpu)
                  | _ \<Rightarrow> None)
        | _ \<Rightarrow> None)"

subsection \<open>IO module\<close>

text \<open>\<open>None\<close> as the configuration is a file that could not be read, which the code dereferences.\<close>

definition load_config :: "t_config option \<Rightarrow> bool \<Rightarrow> bool option" where
  "load_config config log_ok =
     (case config of
        None \<Rightarrow> None
      | Some c \<Rightarrow> map_option (\<lambda>level. log_ok) (log_level_from_string (config_get_string_value c ''LOG_LEVEL'')))"

lemma receive_struct_shrinks: "receive_struct decode stream = Some (r, rest) \<Longrightarrow> length rest \<le> length stream"
  by (auto simp: receive_struct_def dest: receive_buffer_shrinks split: option.splits)

lemma io_module_round_shrinks:
  assumes "io_module_round m stream = Some (True, m', out, rest)"
  shows "length rest < length stream"
proof -
  obtain op body where b: "receive_op_code stream = (op, body)" by fastforce
  have "length rest \<le> length body \<and> op \<noteq> 0"
    using assms b
    by (cases "stdin_lines m") (auto simp: io_module_round_def run_stdin_def run_stdout_def run_sleep_def answer_scheduler_def bind_eq_Some_conv
        dest!: receive_struct_shrinks receive_packet_shrinks split: if_splits list.splits option.splits)
  then show ?thesis using receive_op_code_shrinks [OF b] by auto
qed

function io_loop :: "t_io_module \<Rightarrow> bytes \<Rightarrow> (t_io_module \<times> bytes list) option" where
  "io_loop m stream =
     (case io_module_round m stream of
        None \<Rightarrow> None
      | Some (ok, m', out, rest) \<Rightarrow>
          (if ok then map_option (\<lambda>(m'', outs). (m'', out @ outs)) (io_loop m' rest) else Some (m', out)))"
  by pat_completeness auto
termination
  by (relation "measure (length \<circ> snd)") (auto dest: io_module_round_shrinks)

declare io_loop.simps [simp del]

text \<open>\<open>lines\<close> is what the user will type.\<close>

definition io_main :: "string list \<Rightarrow> (string \<Rightarrow> string option) \<Rightarrow> bool \<Rightarrow> t_connection option \<Rightarrow> string list \<Rightarrow> (t_io_module option \<times> bytes list) option" where
  "io_main argv files log_ok connection lines =
     (case parse_args argv (config_create (files (argv ! 1))) of
        None \<Rightarrow> Some (None, [])
      | Some (config, type_of_io) \<Rightarrow>
          (case (load_config config log_ok, config) of
             (Some True, Some c) \<Rightarrow>
               (case connection of
                  None \<Rightarrow> Some (None, [])
                | Some l \<Rightarrow>
                    (case connect_to_scheduler type_of_io (lk_in l) (lk_up l) (lk_up l) of
                       None \<Rightarrow> None
                     | Some (False, out, rest) \<Rightarrow> Some (None, out)
                     | Some (True, out, rest) \<Rightarrow>
                         map_option (\<lambda>(m, outs). (Some m, out @ outs))
                           (io_loop \<lparr>io_config = c, im_type = type_of_io, im_connected = True, stdin_lines = lines, shown = [], slept = 0\<rparr> rest)))
           | (Some False, _) \<Rightarrow> Some (None, [])
           | _ \<Rightarrow> None))"

end
