(* ===== verification/System_Start.thy ===== *)
theory System_Start
  imports Start_Up
begin

section \<open>Modules that start find each other\<close>

text \<open>
  The conversations of \<open>Start_Up\<close> against the server of Kernel Memory: what a stick and the swap say
  about themselves is what Kernel Memory writes down, so that its tables describe the memory and the
  file these modules really have, and a CPU starts with the segment size of Kernel Memory.
\<close>

subsection \<open>Numbers in messages\<close>

lemma digits_value_snoc: "digits_value (ds @ [c]) = 10 * digits_value ds + (of_char c - 48)"
  by (simp add: digits_value_def)

lemma digit_char: "k < 10 \<Longrightarrow> isdigit (char_of (48 + k)) \<and> (of_char (char_of (48 + k) :: char) :: int) = 48 + int k"
proof -
  assume "k < 10"
  then have "(of_char (char_of (48 + k) :: char) :: nat) = 48 + k" by (simp add: of_char_of)
  moreover have "(of_char (char_of (48 + k) :: char) :: int) = int (of_char (char_of (48 + k) :: char))" by (simp only: of_nat_of_char)
  ultimately show ?thesis using \<open>k < 10\<close> by (auto simp: isdigit_def)
qed

lemma show_nat_digits: "(\<forall>c \<in> set (show_nat n). isdigit c) \<and> digits_value (show_nat n) = int n \<and> show_nat n \<noteq> []"
proof (induction n rule: show_nat.induct)
  case (1 n)
  show ?case
  proof (cases "n < 10")
    case True
    then show ?thesis using digit_char [of n] by (simp add: show_nat.simps digits_value_def)
  next
    case False
    have "int n = 10 * int (n div 10) + int (n mod 10)" by (metis mult_div_mod_eq of_nat_add of_nat_mult of_nat_numeral)
    then show ?thesis using False 1 digit_char [of "n mod 10"] by (subst (1 2 3) show_nat.simps) (simp add: digits_value_snoc)
  qed
qed

lemma atoi_show_nat: "atoi (show_nat n) = int n"
proof -
  obtain c cs where c: "show_nat n = c # cs" using show_nat_digits [of n] by (cases "show_nat n") auto
  have d: "isdigit c" using show_nat_digits [of n] c by simp
  then have "\<not> isspace c" "c \<noteq> CHR ''-''" "c \<noteq> CHR ''+''" by (auto simp: isdigit_def isspace_def)
  moreover have t: "takeWhile isdigit (c # cs) = c # cs" using show_nat_digits [of n] c by (metis takeWhile_eq_all_conv)
  ultimately show ?thesis using show_nat_digits [of n] c d by (simp add: atoi_def t del: takeWhile.simps)
qed

subsection \<open>Stick, swap and CPU\<close>

lemma receive_port_send: "receive_int_field OP_PORT prev (send_cpu_server_port_to_km port @ rest) = Some (True, uint port, rest)"
proof -
  have "int (unat port) = uint port" by simp
  moreover have "uint port < 65536" using uint_bounded [of port] by simp
  ultimately have "unat port < 100000" by linarith
  then have "unat port < 10 ^ 5" by simp
  then have "length (show_nat (unat port)) \<le> 5" by (rule length_show_nat) simp
  then show ?thesis
    by (simp add: send_cpu_server_port_to_km_def receive_int_field_send show_nat_no_nul atoi_show_nat in_int_def INT_MAX_def)
qed

lemma stick_says:
  assumes "init_module_ms contents log_ok size_str (Some l) (Some port) = Some (Some ms, out, rest)"
  shows "\<exists>hello. send_handshake MID_MEMORY_STICK = Some hello \<and> out = [hello, send_size size_str, send_cpu_server_port_to_km port]
    \<and> memory ms = replicate (nat (atoi size_str)) 0"
proof -
  obtain hello where h: "send_handshake MID_MEMORY_STICK = Some hello" by (simp add: send_handshake_def HANDSHAKE_MSG_def)
  show ?thesis using assms h
    by (auto simp: init_module_ms_def connect_to_kernel_memory_ms_def handshake_km_def greet_def init_stick_def split: option.splits if_splits prod.splits)
qed

lemma swap_says:
  assumes "connect_to_kernel_memory_swap (Some l) swap = Some (True, out, rest)"
  shows "\<exists>hello. send_handshake MID_SWAP = Some hello \<and> out = [hello, swap_geometry swap]"
proof -
  obtain hello where h: "send_handshake MID_SWAP = Some hello" by (simp add: send_handshake_def HANDSHAKE_MSG_def)
  show ?thesis using assms h
    by (auto simp: connect_to_kernel_memory_swap_def greet_def split: if_splits prod.splits)
qed

lemma init_swap_geometry:
  assumes "in_int (sw_swap_size swap)" "in_int (sw_block_size swap)" "sw_block_size swap \<noteq> 0"
  shows "init_swap_data lnk (swap_geometry swap @ rest) = Some (Some \<lparr>block_list = map free_block_data [0..sw_swap_size swap div sw_block_size swap - 1],
     swap_size = sw_swap_size swap, block_size = sw_block_size swap, socket_swap = lnk\<rparr>, rest)"
proof -
  let ?b = "int_bytes (sw_swap_size swap) @ int_bytes (sw_block_size swap)"
  have op: "receive_op_code (swap_geometry swap @ rest) = (OP_INFO_SWAP, int_bytes (int (length ?b)) @ ?b @ rest)"
    using op_code_send_buffer [of OP_INFO_SWAP ?b rest] by (simp add: swap_geometry_def in_int_def INT_MAX_def)
  have "receive_buffer (int_bytes (int (length ?b)) @ ?b @ rest) = Some (Some ?b, int (length ?b), rest)"
    by (rule receive_buffer_bytes) (simp_all add: INT_MAX_def)
  moreover have "bytes_int ?b = sw_swap_size swap" "bytes_int (drop 4 ?b) = sw_block_size swap"
    using bytes_int_bytes [OF assms(1)] bytes_int_bytes [OF assms(2), of "[]"] by simp_all
  ultimately show ?thesis using assms(3) unfolding init_swap_data_def op by (simp add: init_block_list_def Let_def)
qed

lemma register_started_stick:
  assumes "CHR 0x00 \<notin> set size_str" "int (length size_str) < INT_MAX"
  shows "register_stick (Some ip) lnk km (send_size size_str @ send_cpu_server_port_to_km port) =
    (let stick = \<lparr>stick_size = atoi size_str, socket_stick = lnk, ip_memory_stick = ip, stick_port = uint port\<rparr>
     in Some (km\<lparr>connected_sticks := connected_sticks km @ [stick], main_memory := add_total_memory (main_memory km) (atoi size_str)\<rparr>, stick, True,
          [(OP_NEW_MEMORY_STICK, ''A new memory stick connected'')]))"
proof -
  have "receive_int_field OP_MEMORY_SIZE (-1) (send_size size_str @ send_cpu_server_port_to_km port) = Some (True, atoi size_str, send_cpu_server_port_to_km port)"
    unfolding send_size_def by (rule receive_int_field_send) (use assms in \<open>simp_all add: in_int_def INT_MAX_def\<close>)
  moreover have "receive_int_field OP_PORT (-1) (send_cpu_server_port_to_km port) = Some (True, uint port, [])"
    using receive_port_send [of "-1" port "[]"] by simp
  ultimately show ?thesis
    by (simp add: register_stick_def receive_stick_size_def receive_stick_listen_port_def init_stick_data_def resolve_stick_ip_def
        add_stick_connection_def Let_def)
qed

text \<open>C23: A Memory Stick and a swap module that start tell Kernel Memory what they have: after their
  conversations Kernel Memory has a stick of exactly the bytes the stick module reserved, all zero, at its
  address and port, these bytes are added to the memory behind the ones it had, and its block table has
  one free entry for every block of the swap file.\<close>

theorem started_modules_registered:
  assumes "init_module_ms contents log_ok size_str (Some l) (Some port) = Some (Some ms, out, rest)"
    and "CHR 0x00 \<notin> set size_str" "int (length size_str) < INT_MAX" "0 < atoi size_str"
    and "connect_to_kernel_memory_swap (Some l') swap = Some (True, out', rest')" "swap_ok swap" "in_int (sw_block_size swap)"
    and "accepting srv" "cl_in cl = concat out" "cl_open cl" "cl_ip cl = Some ip" "cl_stick cl = Up ms"
    and "cl_in cl' = concat out'" "cl_open cl'" "cl_swap cl' = Swap_up swap"
    and "sticks_ok (connected_sticks (sv_km srv))" "int (length (flat (connected_sticks (sv_km srv)))) + atoi size_str + 20 \<le> INT_MAX"
  shows "\<exists>srv' srv''. accept_client srv (Some cl) = Some srv' \<and> accept_client srv' (Some cl') = Some srv''
    \<and> connected_sticks (sv_km srv'') = connected_sticks (sv_km srv)
        @ [\<lparr>stick_size = atoi size_str, socket_stick = Up ms, ip_memory_stick = ip, stick_port = uint port\<rparr>]
    \<and> sticks_ok (connected_sticks (sv_km srv''))
    \<and> flat (connected_sticks (sv_km srv'')) = flat (connected_sticks (sv_km srv)) @ replicate (nat (atoi size_str)) 0
    \<and> total_size (main_memory (sv_km srv'')) = total_size (main_memory (sv_km srv)) + atoi size_str
    \<and> (\<exists>sw. swap_data (sv_km srv'') = Some sw \<and> socket_swap sw = Swap_up swap \<and> block_size sw = sw_block_size swap
        \<and> (\<forall>k. valid_block swap k \<longleftrightarrow> k \<in> block_number ` set (block_list sw)) \<and> distinct (map block_number (block_list sw)) \<and> (\<forall>b \<in> set (block_list sw). bd_pid b = NO_PID))"
proof -
  obtain hello where stick: "send_handshake MID_MEMORY_STICK = Some hello" "out = [hello, send_size size_str, send_cpu_server_port_to_km port]"
      "memory ms = replicate (nat (atoi size_str)) 0" using stick_says [OF assms(1)] by blast
  obtain hello' where swap: "send_handshake MID_SWAP = Some hello'" "out' = [hello', swap_geometry swap]" using swap_says [OF assms(5)] by blast
  obtain greeting where greeting: "send_handshake MID_KERNEL_MEMORY = Some greeting" by (simp add: send_handshake_def HANDSHAKE_MSG_def)
  let ?s = "\<lparr>stick_size = atoi size_str, socket_stick = Up ms, ip_memory_stick = ip, stick_port = uint port\<rparr>"
  let ?km = "(sv_km srv)\<lparr>connected_sticks := connected_sticks (sv_km srv) @ [?s], main_memory := add_total_memory (main_memory (sv_km srv)) (atoi size_str)\<rparr>"
  have in1: "receive_handshake (cl_in cl) = Some (MID_MEMORY_STICK, send_size size_str @ send_cpu_server_port_to_km port)"
    using receive_handshake_send [OF stick(1)] by (simp add: assms(9) stick(2))
  have in2: "receive_handshake (cl_in cl') = Some (MID_SWAP, swap_geometry swap)"
    using receive_handshake_send [OF swap(1)] by (simp add: assms(13) swap(2))
  let ?srv' = "send_scheduler (send_messages [(OP_NEW_MEMORY_STICK, ''A new memory stick connected'')])
      (srv\<lparr>sv_km := ?km, connected_cpus := send_cpu_connection ?s (connected_cpus srv)\<rparr>)\<lparr>accepting := True\<rparr>"
  have a1: "accept_client srv (Some cl) = Some ?srv'"
    using assms(8,10,11,12) register_started_stick [OF assms(2,3)] in1 greeting
    by (simp add: accept_client_def handshake_def accept_stick_def Let_def)
  have sel: "sv_km ?srv' = ?km" "accepting ?srv'" by (simp_all add: send_scheduler_def)
  have sw: "0 < sw_block_size swap" "in_int (sw_swap_size swap)" "0 \<le> sw_swap_size swap"
    using assms(6) by (auto simp: swap_ok_def in_int_def)
  let ?sw = "\<lparr>block_list = map free_block_data [0..sw_swap_size swap div sw_block_size swap - 1],
     swap_size = sw_swap_size swap, block_size = sw_block_size swap, socket_swap = Swap_up swap\<rparr>"
  have "init_swap_data (Swap_up swap) (swap_geometry swap) = Some (Some ?sw, [])"
    using init_swap_geometry [OF sw(2) assms(7), of "Swap_up swap" "[]"] sw(1) by simp
  then have a2: "accept_client ?srv' (Some cl') = Some (?srv'\<lparr>sv_km := ?km\<lparr>swap_data := Some ?sw\<rparr>, accepting := True\<rparr>)"
    using in2 greeting assms(14,15) sel by (simp add: accept_client_def handshake_def accept_swap_def register_swap_def)
  have flat: "flat (connected_sticks ?km) = flat (connected_sticks (sv_km srv)) @ replicate (nat (atoi size_str)) 0"
    by (simp add: stick_bytes_def stick(3))
  have ok: "sticks_ok (connected_sticks ?km)"
    using assms(4,16,17) stick(3) by (auto simp: sticks_ok_def stick_ok_def stick_bytes_def)
  have total: "total_size (main_memory ?km) = total_size (main_memory (sv_km srv)) + atoi size_str"
    by (simp add: add_total_memory_def Let_def)
  have "block_number ` set (block_list ?sw) = {0..sw_swap_size swap div sw_block_size swap - 1}" by (force simp: free_block_data_def)
  then have blocks: "\<forall>k. valid_block swap k \<longleftrightarrow> k \<in> block_number ` set (block_list ?sw)" by (auto simp: valid_block_def)
  have "map block_number (block_list ?sw) = [0..sw_swap_size swap div sw_block_size swap - 1]" by (simp add: free_block_data_def comp_def)
  then have unique: "distinct (map block_number (block_list ?sw))" by simp
  have free: "\<forall>b \<in> set (block_list ?sw). bd_pid b = NO_PID" by (auto simp: free_block_data_def)
  show ?thesis
    by (rule exI [of _ ?srv'], rule exI [of _ "?srv'\<lparr>sv_km := ?km\<lparr>swap_data := Some ?sw\<rparr>, accepting := True\<rparr>"])
      (use a1 a2 ok flat total blocks unique free in simp)
qed

text \<open>A stick of 64 bytes at port 40000 and a swap file of 32 bytes with blocks of 8.\<close>

definition demo_stick_config :: string where
  "demo_stick_config = config_text [(''LOG_LEVEL'', ''INFO''), (''MEMORY_DELAY'', ''5'')]"

definition peer_kernel_memory :: t_connection where
  "peer_kernel_memory = \<lparr>lk_in = (case send_handshake MID_KERNEL_MEMORY of Some hs \<Rightarrow> hs | None \<Rightarrow> []), lk_up = True\<rparr>"

lemma demo_stick_starts:
  "\<exists>out rest. init_module_ms (Some demo_stick_config) True ''64'' (Some peer_kernel_memory) (Some 40000)
     = Some (Some \<lparr>memory_delay = 5, memory = replicate 64 0\<rparr>, out, rest)"
proof -
  obtain hs where hs: "send_handshake MID_KERNEL_MEMORY = Some hs" by (simp add: send_handshake_def HANDSHAKE_MSG_def)
  note get = dictionary.table_lookup [of "[(''LOG_LEVEL'', ''INFO''), (''MEMORY_DELAY'', ''5'')]", simplified]
  have "\<forall>kv \<in> set [(''LOG_LEVEL'', ''INFO''), (''MEMORY_DELAY'', ''5'')]. config_entry_ok kv" "atoi ''5'' = 5" by code_simp+
  then obtain config where "config_create (Some demo_stick_config) = Some config"
    "read_config config = Some \<lparr>ms_log_level = Some ''INFO'', ms_delay = 5, ms_km_ip = None, ms_km_port = None\<rparr>"
    by (simp add: demo_stick_config_def config_create_def config_load_lines_text read_config_def config_get_string_value_def config_get_int_value_def get)
  moreover have "log_level_from_string (Some ''INFO'') = Some 2" "atoi ''64'' = 64" by code_simp+
  moreover obtain hello where "send_handshake MID_MEMORY_STICK = Some hello" by (simp add: send_handshake_def HANDSHAKE_MSG_def)
  ultimately show ?thesis using receive_handshake_send [OF hs, of "[]"] hs
    by (simp add: init_module_ms_def connect_to_kernel_memory_ms_def peer_kernel_memory_def handshake_km_def init_stick_def)
qed

theorem started_modules_registered_witness:
  "\<exists>srv'' cl cl' srv'. accept_client (start_server (init_kernel_memory_data 0 32 AS_BEST)) (Some cl) = Some srv' \<and> accept_client srv' (Some cl') = Some srv''
     \<and> flat (connected_sticks (sv_km srv'')) = replicate 64 0 \<and> (\<exists>sw. swap_data (sv_km srv'') = Some sw \<and> block_number ` set (block_list sw) = {0, 1, 2, 3})"
proof -
  let ?ms = "\<lparr>memory_delay = 5, memory = replicate 64 0\<rparr>" and ?swap = "init_swap_file 32 8" and ?srv = "start_server (init_kernel_memory_data 0 32 AS_BEST)"
  obtain out rest where stick: "init_module_ms (Some demo_stick_config) True ''64'' (Some peer_kernel_memory) (Some 40000) = Some (Some ?ms, out, rest)"
    using demo_stick_starts by blast
  obtain hs where hs: "send_handshake MID_KERNEL_MEMORY = Some hs" by (simp add: send_handshake_def HANDSHAKE_MSG_def)
  obtain out' rest' where swap: "connect_to_kernel_memory_swap (Some peer_kernel_memory) ?swap = Some (True, out', rest')"
    using receive_handshake_send [OF hs, of "[]"] by (auto simp: connect_to_kernel_memory_swap_def peer_kernel_memory_def hs)
  let ?cl = "\<lparr>cl_in = concat out, cl_open = True, cl_ip = Some ''10.0.0.1'', cl_stick = Up ?ms, cl_swap = Swap_down\<rparr>"
  let ?cl' = "\<lparr>cl_in = concat out', cl_open = True, cl_ip = Some ''10.0.0.2'', cl_stick = Closed, cl_swap = Swap_up ?swap\<rparr>"
  have num: "atoi ''64'' = 64" by code_simp
  have ok: "swap_ok ?swap" "in_int (sw_block_size ?swap)" by (simp_all add: swap_ok_def init_swap_file_def INT_MAX_def in_int_def)
  have srv: "accepting ?srv" "connected_sticks (sv_km ?srv) = []" by (simp_all add: start_server_def init_kernel_memory_data_def)
  obtain srv' srv'' where r: "accept_client ?srv (Some ?cl) = Some srv'" "accept_client srv' (Some ?cl') = Some srv''"
      "flat (connected_sticks (sv_km srv'')) = flat (connected_sticks (sv_km ?srv)) @ replicate (nat (atoi ''64'')) 0"
      "\<exists>sw. swap_data (sv_km srv'') = Some sw \<and> socket_swap sw = Swap_up ?swap \<and> block_size sw = sw_block_size ?swap
        \<and> (\<forall>k. valid_block ?swap k \<longleftrightarrow> k \<in> block_number ` set (block_list sw)) \<and> distinct (map block_number (block_list sw)) \<and> (\<forall>b \<in> set (block_list sw). bd_pid b = NO_PID)"
    using started_modules_registered [OF stick _ _ _ swap ok srv(1), of ?cl "''10.0.0.1''" ?cl'] srv(2) num by (auto simp: INT_MAX_def sticks_ok_def)
  from r(4) obtain sw where sw: "swap_data (sv_km srv'') = Some sw" "\<forall>k. valid_block ?swap k \<longleftrightarrow> k \<in> block_number ` set (block_list sw)" by blast
  have "block_number ` set (block_list sw) = {k. valid_block ?swap k}" using sw(2) by auto
  also have "\<dots> = {0, 1, 2, 3}" by (auto simp: valid_block_def init_swap_file_def)
  finally have "block_number ` set (block_list sw) = {0, 1, 2, 3}" .
  moreover have "flat (connected_sticks (sv_km srv'')) = replicate 64 0" using r(3) srv(2) num by simp
  ultimately show ?thesis using r(1,2) sw(1) by blast
qed

end
