(* ===== verification/Suspend_Resume.thy ===== *)
theory Suspend_Resume
  imports KM_System
begin

section \<open>Kernel Memory: a process goes to the swap and comes back\<close>

text \<open>
  \<open>suspend_process\<close> and \<open>resume_process\<close> of \<open>swap.c\<close> end to end: the segments of a process, read from
  the sticks block by block, are in the blocks of the swap module, and what a resumption writes back is
  the same bytes under the same segment numbers, wherever the memory has room. The rows below are what
  the block table and the module together store of a process.
\<close>

subsection \<open>What the swap holds of a process\<close>

text \<open>The connected module, with the geometry and the block numbers of \<open>init_swap_data\<close>.\<close>

definition swap_ready :: "t_swap_data \<Rightarrow> t_swap \<Rightarrow> bool" where
  "swap_ready sw st \<longleftrightarrow> socket_swap sw = Swap_up st \<and> swap_ok st \<and> block_size sw = sw_block_size st
     \<and> swap_size sw = sw_swap_size st \<and> length (block_list sw) = nat (swap_size sw div block_size sw)
     \<and> (\<forall>k < length (block_list sw). block_number (block_list sw ! k) = int k)"

type_synonym row = "int \<times> int \<times> int \<times> bytes"

definition block_row :: "t_swap \<Rightarrow> t_block_data \<Rightarrow> row" where
  "block_row st b = (segment_number b, segment_block_number b, segment_size b,
     take (nat (bytes_in_block (segment_size b) (segment_block_number b * sw_block_size st) (sw_block_size st)))
       (block_bytes st (block_number b)))"

definition process_rows :: "u32 \<Rightarrow> t_swap \<Rightarrow> t_swap_data \<Rightarrow> row list" where
  "process_rows pid st sw = map (block_row st) (filter (\<lambda>b. bd_pid b = pid) (block_list sw))"

definition free_blocks :: "t_swap_data \<Rightarrow> nat" where
  "free_blocks sw = length (filter (\<lambda>b. bd_pid b = NO_PID) (block_list sw))"

text \<open>No free block comes before one of the process, so the next one is appended.\<close>

definition packed :: "u32 \<Rightarrow> t_swap_data \<Rightarrow> bool" where
  "packed pid sw \<longleftrightarrow> (\<forall>j k. j < k \<and> k < length (block_list sw) \<and> bd_pid (block_list sw ! k) = pid \<longrightarrow>
     bd_pid (block_list sw ! j) \<noteq> NO_PID)"

text \<open>The rows of a segment with the given bytes.\<close>

definition blocks_of :: "int \<Rightarrow> int \<Rightarrow> nat" where
  "blocks_of bs n = nat ((n + bs - 1) div bs)"

definition segment_row :: "int \<Rightarrow> u32 \<Rightarrow> bytes \<Rightarrow> nat \<Rightarrow> row" where
  "segment_row bs sid data i = (to_int sid, int i, int (length data), chunk (i * nat bs) (nat bs) data)"

definition segment_rows :: "int \<Rightarrow> u32 \<times> bytes \<Rightarrow> row list" where
  "segment_rows bs d = map (segment_row bs (fst d) (snd d)) [0..<blocks_of bs (int (length (snd d)))]"

subsection \<open>Taking one block\<close>

lemma find_free_block_from_spec:
  assumes "k + n = length bl"
  shows "(\<exists>j. find_free_block_from n (int k) bl = Some (int j) \<and> k \<le> j \<and> j < length bl \<and> bd_pid (bl ! j) = NO_PID
            \<and> (\<forall>i. k \<le> i \<and> i < j \<longrightarrow> bd_pid (bl ! i) \<noteq> NO_PID))
       \<or> (find_free_block_from n (int k) bl = Some (-1) \<and> (\<forall>i. k \<le> i \<and> i < length bl \<longrightarrow> bd_pid (bl ! i) \<noteq> NO_PID))"
  using assms
proof (induction n arbitrary: k)
  case (Suc n)
  show ?case
  proof (cases "bd_pid (bl ! k) = NO_PID")
    case True
    with Suc.prems show ?thesis by auto
  next
    case False
    with Suc.prems have "find_free_block_from (Suc n) (int k) bl = find_free_block_from n (int (Suc k)) bl"
      by (simp add: add.commute)
    moreover have "bd_pid (bl ! i) \<noteq> NO_PID" if "k \<le> i" "Suc k \<le> i \<longrightarrow> bd_pid (bl ! i) \<noteq> NO_PID" for i
      using that False by (cases "i = k") auto
    ultimately show ?thesis using Suc.IH [of "Suc k"] Suc.prems by (metis Suc_leD add_Suc_shift)
  qed
qed auto

lemma find_free_block_cases:
  assumes "swap_ready sw st"
  obtains (free) k where "find_free_block sw = Some (int k)" "k < length (block_list sw)" "bd_pid (block_list sw ! k) = NO_PID"
      "\<forall>i < k. bd_pid (block_list sw ! i) \<noteq> NO_PID"
    | (full) "find_free_block sw = Some (-1)" "free_blocks sw = 0"
proof -
  have "block_size sw \<noteq> 0" "length (block_list sw) = nat (swap_size sw div block_size sw)"
    using assms by (auto simp: swap_ready_def swap_ok_def)
  then have "find_free_block sw = find_free_block_from (length (block_list sw)) (int 0) (block_list sw)"
    by (simp add: find_free_block_def)
  then show ?thesis
    using find_free_block_from_spec [of 0 "length (block_list sw)" "block_list sw"] free full
    by (auto simp: free_blocks_def filter_empty_conv all_set_conv_all_nth)
qed

text \<open>What one written block, or several, change: rows of the process are added, others stay.\<close>

definition adds :: "u32 \<Rightarrow> row list \<Rightarrow> t_swap_data \<times> t_swap \<Rightarrow> t_swap_data \<times> t_swap \<Rightarrow> bool" where
  "adds pid rows = (\<lambda>(sw, st) (sw', st'). swap_ready sw' st' \<and> block_size sw' = block_size sw \<and> packed pid sw'
     \<and> process_rows pid st' sw' = process_rows pid st sw @ rows
     \<and> (\<forall>q. q \<noteq> pid \<and> q \<noteq> NO_PID \<longrightarrow> process_rows q st' sw' = process_rows q st sw)
     \<and> free_blocks sw' + length rows = free_blocks sw)"

lemma adds_refl: "swap_ready sw st \<Longrightarrow> packed pid sw \<Longrightarrow> adds pid [] (sw, st) (sw, st)"
  by (simp add: adds_def)

lemma adds_trans: "adds pid r1 s1 s2 \<Longrightarrow> adds pid r2 s2 s3 \<Longrightarrow> adds pid (r1 @ r2) s1 s3"
  by (auto simp: adds_def split: prod.splits)

lemma swap_block_written:
  assumes "swap_ok st" "valid_block st k" "int (length c) = n" "n \<le> sw_block_size st"
  obtains st' where "write_block_to_swap k (Some c) n (sw_block_size st) (Swap_up st) = Some (Swap_up st')" "swap_ok st'"
    "sw_block_size st' = sw_block_size st" "sw_swap_size st' = sw_swap_size st" "take (nat n) (block_bytes st' k) = c"
    "\<And>j. valid_block st j \<Longrightarrow> j \<noteq> k \<Longrightarrow> block_bytes st' j = block_bytes st j"
proof -
  let ?b = "c @ replicate (nat (sw_block_size st) - length c) 0"
  let ?st = "st\<lparr>swap_file := overwrite (nat (k * sw_block_size st)) ?b (swap_file st)\<rparr>"
  have len: "int (length ?b) = sw_block_size st" using assms(3,4) by simp
  note w = swap_request_write [OF assms(1,2) len]
  have wrote: "write_block_to_swap k (Some c) n (sw_block_size st) (Swap_up st) = Some (Swap_up ?st)"
    using w assms(3,4) by (auto simp: write_block_to_swap_def swap_exchange_def Let_def)
  have "link_write st k ?b = Some ?st"
    using w len by (simp add: link_write_def write_block_to_swap_def swap_exchange_def Let_def)
  with swap_disk.wr_ok [OF assms(1,2) len] have st: "swap_ok ?st" "valid_block ?st = valid_block st"
    "link_read ?st k = Some ?b" "\<And>j. valid_block st j \<Longrightarrow> j \<noteq> k \<Longrightarrow> link_read ?st j = link_read st j" by auto
  have rd: "link_read t j = Some (block_bytes t j)" if "swap_ok t" "valid_block t j" for t j
    using read_block_from_swap_eq [OF that] by (simp add: link_read_def)
  have "block_bytes ?st k = ?b" using rd [OF st(1), of k] st(2,3) assms(2) by simp
  moreover have "block_bytes ?st j = block_bytes st j" if "valid_block st j" "j \<noteq> k" for j
    using rd [OF st(1), of j] rd [OF assms(1) that(1)] st(2) st(4) [OF that] that(1) by simp
  ultimately show ?thesis using that [OF wrote st(1)] assms(3) by simp
qed


lemma bytes_in_block_bounds:
  assumes "0 \<le> offs" "offs < n" "0 < bs"
  shows "0 < bytes_in_block n offs bs" "bytes_in_block n offs bs \<le> bs" "offs + bytes_in_block n offs bs \<le> n"
  using assms by (auto simp: bytes_in_block_def)

text \<open>The bytes of block \<open>i\<close> of a segment, cut at its end.\<close>

lemma chunk_in_block:
  assumes "0 < bs"
  shows "take (nat (bytes_in_block (int (length data)) (int i * bs) bs)) (chunk (i * nat bs) (nat bs) data) = chunk (i * nat bs) (nat bs) data"
proof -
  obtain B where B: "bs = int B" using assms zero_less_imp_eq_int by blast
  define off where "off = i * B"
  have e: "int i * int B = int off" by (simp add: off_def)
  show ?thesis
    unfolding B nat_int e off_def [symmetric] by (auto simp: bytes_in_block_def chunk_def)
qed

lemma chunk_block:
  assumes "0 < bs" "int i * bs < int (length data)"
  shows "chunk (i * nat bs) (nat (bytes_in_block (int (length data)) (int i * bs) bs)) data = chunk (i * nat bs) (nat bs) data"
proof -
  obtain B where B: "bs = int B" using assms zero_less_imp_eq_int by blast
  define off where "off = i * B"
  have e: "int i * int B = int off" by (simp add: off_def)
  show ?thesis
    unfolding B nat_int e off_def [symmetric] by (auto simp: bytes_in_block_def chunk_def)
qed

lemma filter_update_other:
  "k < length xs \<Longrightarrow> \<not> P (xs ! k) \<Longrightarrow> \<not> P x \<Longrightarrow> filter P (xs[k := x]) = filter P xs"
  by (subst (2) id_take_nth_drop [of k xs]) (simp_all add: upd_conv_take_nth_drop)

text \<open>Block \<open>k\<close>, the first free one, gets a row of the process.\<close>

lemma add_one_block:
  assumes ready: "swap_ready sw st" and pk: "packed pid sw" and pid: "pid \<noteq> NO_PID"
    and k: "k < length (block_list sw)" "bd_pid (block_list sw ! k) = NO_PID" "\<forall>i < k. bd_pid (block_list sw ! i) \<noteq> NO_PID"
    and b: "bd_pid b = pid" "block_number b = int k"
    and sw': "sw' = sw\<lparr>block_list := (block_list sw)[k := b], socket_swap := Swap_up st'\<rparr>"
    and st': "swap_ok st'" "sw_block_size st' = sw_block_size st" "sw_swap_size st' = sw_swap_size st"
      "\<And>j. valid_block st j \<Longrightarrow> j \<noteq> int k \<Longrightarrow> block_bytes st' j = block_bytes st j"
  shows "adds pid [block_row st' b] (sw, st) (sw', st')"
proof -
  let ?bl = "block_list sw"
  have nums: "\<forall>j < length ?bl. block_number (?bl ! j) = int j" using ready by (simp add: swap_ready_def)
  have valid: "valid_block st (int j)" if "j < length ?bl" for j
    using that ready by (auto simp: swap_ready_def valid_block_def)
  have row: "block_row st' (?bl ! j) = block_row st (?bl ! j)" if "j < length ?bl" "j \<noteq> k" for j
    using st'(4) [OF valid [OF that(1)]] that nums by (simp add: block_row_def st'(2))
  have split: "?bl = take k ?bl @ ?bl ! k # drop (Suc k) ?bl" using k(1) by (rule id_take_nth_drop)
  have upd: "?bl[k := b] = take k ?bl @ b # drop (Suc k) ?bl" using k(1) by (rule upd_conv_take_nth_drop)
  have before: "map (block_row st') (filter P (take k ?bl)) = map (block_row st) (filter P (take k ?bl))" for P
    using row k(1) by (auto simp: in_set_conv_nth)
  have after: "map (block_row st') (filter P (drop (Suc k) ?bl)) = map (block_row st) (filter P (drop (Suc k) ?bl))" for P
    using row k(1) by (auto simp: in_set_conv_nth)
  have none: "filter (\<lambda>b. bd_pid b = pid) (drop (Suc k) ?bl) = []"
  proof -
    have "bd_pid (?bl ! (Suc k + i)) \<noteq> pid" if "Suc k + i < length ?bl" for i
      using pk that k(2) unfolding packed_def by (metis less_add_Suc1 add_Suc)
    moreover have "\<exists>i. x = ?bl ! (Suc k + i) \<and> Suc k + i < length ?bl" if "x \<in> set (drop (Suc k) ?bl)" for x
      using that by (fastforce simp: in_set_conv_nth)
    ultimately show ?thesis unfolding filter_empty_conv by metis
  qed
  have bl': "block_list sw' = ?bl[k := b]" by (simp add: sw')
  have mine: "process_rows pid st' sw' = process_rows pid st sw @ [block_row st' b]"
  proof -
    have "filter (\<lambda>b. bd_pid b = pid) ?bl = filter (\<lambda>b. bd_pid b = pid) (take k ?bl)"
      by (subst split) (simp add: none k(2) pid [symmetric])
    then show ?thesis by (simp add: process_rows_def bl' upd none b(1) before)
  qed
  moreover have "process_rows q st' sw' = process_rows q st sw" if "q \<noteq> pid" "q \<noteq> NO_PID" for q
  proof -
    have "filter (\<lambda>b. bd_pid b = q) (?bl[k := b]) = filter (\<lambda>b. bd_pid b = q) (take k ?bl @ drop (Suc k) ?bl)"
      using that b(1) by (simp add: upd)
    moreover have "filter (\<lambda>b. bd_pid b = q) ?bl = filter (\<lambda>b. bd_pid b = q) (take k ?bl @ drop (Suc k) ?bl)"
      using that k(2) by (subst split) simp
    ultimately show ?thesis by (simp add: process_rows_def bl' before after)
  qed
  moreover have "free_blocks sw = Suc (free_blocks sw')"
    unfolding free_blocks_def bl' upd by (subst split) (use k(2) b(1) pid in simp)
  moreover have "packed pid sw'"
    unfolding packed_def bl'
  proof (intro allI impI, elim conjE)
    fix i j
    assume ij: "i < j" "j < length (?bl[k := b])" "bd_pid (?bl[k := b] ! j) = pid"
    have "i < k \<or> i = k \<or> k < i" by linarith
    moreover have "bd_pid (?bl ! i) \<noteq> NO_PID" if "k < i"
    proof -
      have "bd_pid (?bl ! j) = pid" "j < length ?bl" using ij that by simp_all
      moreover have "k < j" using ij(1) that by simp
      ultimately show ?thesis using pk k(2) by (auto simp: packed_def)
    qed
    ultimately show "bd_pid (?bl[k := b] ! i) \<noteq> NO_PID"
      using k b(1) pid by (auto simp: nth_list_update)
  qed
  moreover have "swap_ready sw' st'"
  proof -
    have "\<forall>j < length ?bl. block_number (?bl[k := b] ! j) = int j"
      using nums b(2) k(1) by (auto simp: nth_list_update)
    with ready st' show ?thesis by (auto simp: swap_ready_def sw')
  qed
  ultimately show ?thesis by (simp add: adds_def sw')
qed

subsection \<open>Suspending\<close>

definition swap_full_reply :: message where
  "swap_full_reply = (OP_SUSPENSION_FAILED, ''Could not suspend the process because swap is full.'')"

lemma suspend_blocks_adds:
  assumes "swap_ready sw st" "packed (s_pid seg) sw" "s_pid seg \<noteq> NO_PID" "sticks_ok ss"
    and "0 \<le> s_base seg" "s_base seg + s_size seg \<le> int (length (flat ss))"
    and "data = chunk (nat (s_base seg)) (nat (s_size seg)) (flat ss)"
    and "n \<noteq> 0 \<longrightarrow> int (i + n - 1) * block_size sw < s_size seg"
  shows "\<exists>sw' st'. suspend_blocks n (int i) seg ss sw = Some (sw', n \<le> free_blocks sw, if n \<le> free_blocks sw then [] else [swap_full_reply])
    \<and> adds (s_pid seg) (take (free_blocks sw) (map (segment_row (block_size sw) (s_id seg) data) [i..<i + n])) (sw, st) (sw', st')"
  using assms(1,2,8)
proof (induction n arbitrary: i sw st)
  case 0
  then show ?case by (intro exI [of _ sw] exI [of _ st]) (simp add: adds_refl)
next
  case (Suc n)
  let ?bs = "block_size sw"
  have bs: "0 < ?bs" "sw_block_size st = ?bs" using Suc.prems(1) by (simp_all add: swap_ready_def swap_ok_def)
  have "int i * ?bs \<le> int (i + n) * ?bs" using bs(1) by (intro mult_right_mono) auto
  with Suc.prems(3) have i: "int i * ?bs < s_size seg" by simp
  have "0 \<le> int i * ?bs" using bs(1) by simp
  have size: "int (length data) = s_size seg"
    using assms(5-7) i \<open>0 \<le> int i * ?bs\<close> by (simp add: chunk_def)
  let ?n = "bytes_in_block (s_size seg) (int i * ?bs) ?bs"
  have n: "0 < ?n" "?n \<le> ?bs" "int i * ?bs + ?n \<le> s_size seg"
    using bytes_in_block_bounds [of "int i * ?bs"] i bs(1) by simp_all
  let ?c = "chunk (i * nat ?bs) (nat ?bs) data"
  have read: "read_from_sticks (s_base seg + int i * ?bs) ?n ss = Some (Some ?c, [])"
  proof -
    have off: "int (i * nat ?bs) = int i * ?bs" using bs(1) by simp
    have "i * nat ?bs + nat ?n \<le> nat (s_size seg)" "nat (s_base seg + int i * ?bs) = nat (s_base seg) + i * nat ?bs"
      using n off assms(5) by linarith+
    then have "chunk (nat (s_base seg + int i * ?bs)) (nat ?n) (flat ss) = chunk (i * nat ?bs) (nat ?n) data"
      by (simp add: assms(7) chunk_chunk)
    also have "\<dots> = ?c" using chunk_block [OF bs(1), of i data] i size by simp
    finally show ?thesis
      using read_loop_flat [OF assms(4), of "s_base seg + int i * ?bs" 0 ?n "[]"] n assms(5,6) \<open>0 \<le> int i * ?bs\<close>
      by (simp add: read_from_sticks_def)
  qed
  have len: "int (length ?c) = ?n"
  proof -
    have "int (i * nat ?bs) = int i * ?bs" using bs(1) by simp
    with n(1,3) size have "i * nat ?bs + nat ?n \<le> length data" by linarith
    then have "length (chunk (i * nat ?bs) (nat ?n) data) = nat ?n" by (simp add: chunk_def)
    with chunk_block [OF bs(1), of i data] i size n(1) show ?thesis by simp
  qed
  note unfold = suspend_blocks.simps(2) Let_def read option.case prod.case add_block_to_swap_def
  consider (full) "find_free_block sw = Some (-1)" "free_blocks sw = 0"
    | (free) k where "find_free_block sw = Some (int k)" "k < length (block_list sw)" "bd_pid (block_list sw ! k) = NO_PID"
      "\<forall>i < k. bd_pid (block_list sw ! i) \<noteq> NO_PID"
    using find_free_block_cases [OF Suc.prems(1)] by metis
  then show ?case
  proof cases
    case full
    then have "suspend_blocks (Suc n) (int i) seg ss sw = Some (sw, False, [swap_full_reply])"
      by (simp add: unfold swap_full_reply_def)
    with full(2) adds_refl [OF Suc.prems(1,2)] show ?thesis by auto
  next
    case (free k)
    define b where "b = (block_list sw ! k)\<lparr>segment_number := to_int (s_id seg), segment_block_number := int i,
      bd_pid := s_pid seg, segment_size := s_size seg\<rparr>"
    have valid: "valid_block st (int k)" using free(2) Suc.prems(1) by (auto simp: swap_ready_def valid_block_def)
    obtain st1 where st1: "write_block_to_swap (int k) (Some ?c) ?n ?bs (Swap_up st) = Some (Swap_up st1)" "swap_ok st1"
      "sw_block_size st1 = sw_block_size st" "sw_swap_size st1 = sw_swap_size st" "take (nat ?n) (block_bytes st1 (int k)) = ?c"
      "\<And>j. valid_block st j \<Longrightarrow> j \<noteq> int k \<Longrightarrow> block_bytes st1 j = block_bytes st j"
      using swap_block_written [OF _ valid len, unfolded bs(2)] Suc.prems(1) n(2) by (auto simp: swap_ready_def)
    define sw1 where "sw1 = sw\<lparr>block_list := (block_list sw)[k := b], socket_swap := Swap_up st1\<rparr>"
    have num: "block_number b = int k" using Suc.prems(1) free(2) by (simp add: b_def swap_ready_def)
    have "adds (s_pid seg) [block_row st1 b] (sw, st) (sw1, st1)"
      by (rule add_one_block [OF Suc.prems(1,2) assms(3) free(2-4) _ num sw1_def st1(2-4,6)]) (simp_all add: b_def)
    moreover have "block_row st1 b = segment_row ?bs (s_id seg) data i"
      using st1(3,5) bs(2) size num by (simp add: block_row_def segment_row_def) (simp add: b_def)
    ultimately have one: "adds (s_pid seg) [segment_row ?bs (s_id seg) data i] (sw, st) (sw1, st1)" by simp
    then have sw1: "swap_ready sw1 st1" "packed (s_pid seg) sw1" "block_size sw1 = ?bs" "free_blocks sw = Suc (free_blocks sw1)"
      by (simp_all add: adds_def)
    have "n \<noteq> 0 \<longrightarrow> int (Suc i + n - 1) * block_size sw1 < s_size seg" using Suc.prems(3) sw1(3) by simp
    from Suc.IH [OF sw1(1,2) this] obtain sw2 st2 where
      2: "suspend_blocks n (int i + 1) seg ss sw1 = Some (sw2, n \<le> free_blocks sw1, if n \<le> free_blocks sw1 then [] else [swap_full_reply])"
      "adds (s_pid seg) (take (free_blocks sw1) (map (segment_row ?bs (s_id seg) data) [Suc i..<Suc i + n])) (sw1, st1) (sw2, st2)"
      by (auto simp: sw1(3) add.commute)
    have link: "socket_swap sw = Swap_up st" using Suc.prems(1) by (simp add: swap_ready_def)
    have "suspend_blocks (Suc n) (int i) seg ss sw = map_option (\<lambda>(sw, ok, msgs'). (sw, ok, [] @ msgs')) (suspend_blocks n (int i + 1) seg ss sw1)"
      by (simp add: unfold free(1) link st1(1) sw1_def b_def)
    moreover have "[i..<i + Suc n] = i # [Suc i..<Suc i + n]" by (simp add: upt_conv_Cons)
    ultimately show ?thesis
      using adds_trans [OF one 2(2)] by (intro exI [of _ sw2] exI [of _ st2]) (simp add: 2(1) sw1(4))
  qed
qed


lemma blocks_of_bound:
  assumes "0 < bs" "0 < n"
  shows "0 < blocks_of bs n" "int (blocks_of bs n - 1) * bs < n" "n \<le> int (blocks_of bs n) * bs"
proof -
  let ?q = "(n + bs - 1) div bs"
  have "?q * bs = n + bs - 1 - (n + bs - 1) mod bs" by (simp add: minus_mod_eq_div_mult)
  moreover have "0 \<le> (n + bs - 1) mod bs" "(n + bs - 1) mod bs < bs" using assms by simp_all
  ultimately have "?q * bs < n + bs" "n \<le> ?q * bs" by linarith+
  moreover have "1 * bs \<le> n + bs - 1" using assms by simp
  then have "1 \<le> ?q" using assms by (simp add: pos_imp_zdiv_pos_iff int_one_le_iff_zero_less)
  ultimately show "0 < blocks_of bs n" "int (blocks_of bs n - 1) * bs < n" "n \<le> int (blocks_of bs n) * bs"
    by (simp_all add: blocks_of_def of_nat_diff algebra_simps)
qed

definition segment_data :: "t_stick_data list \<Rightarrow> t_segment \<Rightarrow> u32 \<times> bytes" where
  "segment_data ss seg = (s_id seg, chunk (nat (s_base seg)) (nat (s_size seg)) (flat ss))"

definition in_sticks :: "t_stick_data list \<Rightarrow> t_segment \<Rightarrow> bool" where
  "in_sticks ss seg \<longleftrightarrow> 0 \<le> s_base seg \<and> 0 < s_size seg \<and> s_base seg + s_size seg \<le> int (length (flat ss))"

lemma length_segment_data: "in_sticks ss seg \<Longrightarrow> int (length (snd (segment_data ss seg))) = s_size seg"
  by (auto simp: segment_data_def in_sticks_def chunk_def)

lemma suspend_segment_adds:
  assumes "swap_ready sw st" "packed (s_pid seg) sw" "s_pid seg \<noteq> NO_PID" "sticks_ok ss" "in_sticks ss seg"
  defines "rows \<equiv> segment_rows (block_size sw) (segment_data ss seg)"
  shows "\<exists>sw' st'. suspend_segment seg ss sw = Some (sw', length rows \<le> free_blocks sw, if length rows \<le> free_blocks sw then [] else [swap_full_reply])
    \<and> adds (s_pid seg) (take (free_blocks sw) rows) (sw, st) (sw', st')"
proof -
  have bs: "0 < block_size sw" using assms(1) by (simp add: swap_ready_def swap_ok_def)
  have seg: "0 \<le> s_base seg" "s_base seg + s_size seg \<le> int (length (flat ss))" "0 < s_size seg"
    using assms(5) by (simp_all add: in_sticks_def)
  have len: "int (length (snd (segment_data ss seg))) = s_size seg" using assms(5) by (rule length_segment_data)
  have "blocks_of (block_size sw) (s_size seg) \<noteq> 0 \<longrightarrow> int (0 + blocks_of (block_size sw) (s_size seg) - 1) * block_size sw < s_size seg"
    using blocks_of_bound [OF bs seg(3)] by simp
  from suspend_blocks_adds [OF assms(1-4) seg(1,2) refl this] show ?thesis
    using bs unfolding rows_def segment_rows_def len
    by (simp add: suspend_segment_def blocks_of_def segment_data_def)
qed

lemma suspend_segments_adds:
  assumes "swap_ready sw st" "packed pid sw" "pid \<noteq> NO_PID" "sticks_ok ss"
    and "\<forall>seg \<in> set segs. s_pid seg = pid \<longrightarrow> in_sticks ss seg"
  defines "rows \<equiv> concat (map (segment_rows (block_size sw)) (map (segment_data ss) (filter (\<lambda>s. s_pid s = pid) segs)))"
  shows "\<exists>sw' st'. suspend_segments pid segs ss sw = Some (sw',
      if length rows \<le> free_blocks sw then Some (filter (\<lambda>s. s_pid s = pid) segs) else None,
      if length rows \<le> free_blocks sw then [] else [swap_full_reply])
    \<and> adds pid (take (free_blocks sw) rows) (sw, st) (sw', st')"
  using assms(1,2,5) unfolding rows_def
proof (induction segs arbitrary: sw st)
  case Nil
  then show ?case by (intro exI [of _ sw] exI [of _ st]) (simp add: adds_refl)
next
  case (Cons s segs)
  let ?rows = "\<lambda>bs segs. concat (map (segment_rows bs) (map (segment_data ss) (filter (\<lambda>s. s_pid s = pid) segs)))"
  show ?case
  proof (cases "s_pid s = pid")
    case False
    then have eq: "filter (\<lambda>s. s_pid s = pid) (s # segs) = filter (\<lambda>s. s_pid s = pid) segs"
      "suspend_segments pid (s # segs) ss sw = suspend_segments pid segs ss sw" by simp_all
    show ?thesis unfolding eq using Cons.prems(3) by (intro Cons.IH [OF Cons.prems(1,2)]) simp
  next
    case True
    let ?r = "segment_rows (block_size sw) (segment_data ss s)"
    obtain sw1 st1 where 1: "suspend_segment s ss sw = Some (sw1, length ?r \<le> free_blocks sw, if length ?r \<le> free_blocks sw then [] else [swap_full_reply])"
      "adds pid (take (free_blocks sw) ?r) (sw, st) (sw1, st1)"
      using suspend_segment_adds [OF Cons.prems(1) _ _ assms(4), of s] Cons.prems(2,3) assms(3) True by auto
    show ?thesis
    proof (cases "length ?r \<le> free_blocks sw")
      case False
      with 1 True show ?thesis by (intro exI [of _ sw1] exI [of _ st1]) simp
    next
      case fits: True
      from 1(2) fits have sw1: "swap_ready sw1 st1" "packed pid sw1" "block_size sw1 = block_size sw"
        "free_blocks sw = free_blocks sw1 + length ?r" by (simp_all add: adds_def)
      let ?n = "length (?rows (block_size sw) segs) \<le> free_blocks sw1"
      obtain sw2 st2 where 2: "suspend_segments pid segs ss sw1 = Some (sw2,
          if ?n then Some (filter (\<lambda>s. s_pid s = pid) segs) else None, if ?n then [] else [swap_full_reply])"
        "adds pid (take (free_blocks sw1) (?rows (block_size sw) segs)) (sw1, st1) (sw2, st2)"
        using Cons.IH [OF sw1(1,2)] Cons.prems(3) unfolding sw1(3) by auto
      have "adds pid (take (free_blocks sw) (?r @ ?rows (block_size sw) segs)) (sw, st) (sw2, st2)"
        using adds_trans [OF 1(2) 2(2)] fits sw1(4) by simp
      with True fits 1(1) 2(1) sw1(4) show ?thesis by (intro exI [of _ sw2] exI [of _ st2]) simp
    qed
  qed
qed

text \<open>Removing them: each call takes out the first segment of the process that is left.\<close>

lemma remove_segment_of_process:
  assumes "segments m = us @ s # vs" "s_pid s = pid" "\<forall>u \<in> set us. s_pid u \<noteq> pid"
  shows "segments (remove_segment (s_id s) pid m) = us @ vs"
proof -
  have f: "find (is_segment (s_id s) pid) (us @ s # vs) = Some s" using assms(2,3) by (induction us) (auto simp: is_segment_def)
  have r: "remove_first (is_segment (s_id s) pid) (us @ s # vs) = us @ vs" using assms(2,3) by (induction us) (auto simp: is_segment_def)
  show ?thesis by (simp add: remove_segment_def find_and_remove_segment_def assms(1) f r)
qed

lemma remove_process_segments_eq:
  "segments m = us @ vs \<Longrightarrow> \<forall>u \<in> set us. s_pid u \<noteq> pid \<Longrightarrow>
    segments (remove_process_segments (filter (\<lambda>s. s_pid s = pid) vs) pid m) = us @ filter (\<lambda>s. s_pid s \<noteq> pid) vs"
proof (induction vs arbitrary: us m)
  case (Cons v vs)
  show ?case
  proof (cases "s_pid v = pid")
    case True
    from Cons.IH [OF remove_segment_of_process [OF Cons.prems(1) True Cons.prems(2)] Cons.prems(2)] True
    show ?thesis by (simp add: remove_process_segments_def)
  next
    case False
    with Cons.IH [of m "us @ [v]"] Cons.prems show ?thesis by simp
  qed
qed (simp add: remove_process_segments_def)


subsection \<open>Resuming\<close>

text \<open>The loop of \<open>resume_process\<close> over the blocks of the process only: each visit frees the block it
  is at, so the list it runs over is the one it started with.\<close>

fun restore_blocks :: "u32 \<Rightarrow> t_block_data list \<Rightarrow> t_main_memory \<Rightarrow> t_stick_data list \<Rightarrow> t_swap_data
    \<Rightarrow> (t_main_memory \<times> t_stick_data list \<times> t_swap_data \<times> bool \<times> message list) option" where
  "restore_blocks pid [] m ss sw = Some (m, ss, sw, True, [])"
| "restore_blocks pid (b # bs) m ss sw =
     (case resume_block b pid m ss sw of
        None \<Rightarrow> None
      | Some (m1, ss1, sw1, ok, msgs) \<Rightarrow>
          (if ok then map_option (\<lambda>(m, ss, sw, ok, msgs'). (m, ss, sw, ok, msgs @ msgs')) (restore_blocks pid bs m1 ss1 sw1)
           else Some (m1, ss1, sw1, False, msgs)))"

lemma restore_blocks_append:
  "restore_blocks pid bs m ss sw = Some (m1, ss1, sw1, True, msgs) \<Longrightarrow>
    restore_blocks pid (bs @ cs) m ss sw = map_option (\<lambda>(m, ss, sw, ok, msgs'). (m, ss, sw, ok, msgs @ msgs')) (restore_blocks pid cs m1 ss1 sw1)"
  "restore_blocks pid bs m ss sw = Some (m1, ss1, sw1, False, msgs) \<Longrightarrow>
    restore_blocks pid (bs @ cs) m ss sw = Some (m1, ss1, sw1, False, msgs)"
  by (induction bs arbitrary: m ss sw msgs)
    (auto simp: option.map_comp comp_def case_prod_unfold option.map_id0 [unfolded id_def] split: option.splits if_splits prod.splits)

lemma resume_block_list:
  assumes "resume_block b pid m ss sw = Some (m', ss', sw', ok, msgs)" "block_number b = int k"
  shows "\<exists>b'. block_list sw' = (block_list sw)[k := b'] \<or> block_list sw' = block_list sw"
  using assms by (auto simp: resume_block_def remove_block_from_swap_def Let_def split: prod.splits option.splits if_splits)

lemma resume_blocks_restore:
  fixes pid :: u32
  assumes "k + n = length (block_list sw)" "\<forall>j < length (block_list sw). k \<le> j \<longrightarrow> block_number (block_list sw ! j) = int j"
  defines "bs \<equiv> filter (\<lambda>b. bd_pid b = pid) (drop k (block_list sw))"
  shows "resume_blocks n k pid found m ss sw =
    map_option (\<lambda>(m, ss, sw, ok, msgs). (m, ss, sw, if ok then Some (found \<or> bs \<noteq> []) else None, msgs)) (restore_blocks pid bs m ss sw)"
  using assms(1,2) unfolding bs_def
proof (induction n arbitrary: k found m ss sw)
  case (Suc n)
  let ?b = "block_list sw ! k"
  have split: "drop k (block_list sw) = ?b # drop (Suc k) (block_list sw)" using Suc.prems(1) by (simp add: Cons_nth_drop_Suc)
  show ?case
  proof (cases "bd_pid ?b = pid")
    case False
    then have eq: "filter (\<lambda>b. bd_pid b = pid) (drop k (block_list sw)) = filter (\<lambda>b. bd_pid b = pid) (drop (Suc k) (block_list sw))"
      unfolding split by simp
    from False Suc.prems show ?thesis unfolding eq by (simp add: Suc.IH)
  next
    case True
    show ?thesis
    proof (cases "resume_block ?b pid m ss sw")
      case None
      with True show ?thesis unfolding split by simp
    next
      case (Some r)
      obtain m1 ss1 sw1 ok msgs where r: "r = (m1, ss1, sw1, ok, msgs)" by (cases r)
      have "block_number ?b = int k" using Suc.prems by simp
      from resume_block_list [OF Some [unfolded r] this] have
        "length (block_list sw1) = length (block_list sw)" "drop (Suc k) (block_list sw1) = drop (Suc k) (block_list sw)"
        "\<And>j. Suc k \<le> j \<Longrightarrow> block_list sw1 ! j = block_list sw ! j" by auto
      then have "resume_blocks n (Suc k) pid True m1 ss1 sw1 = map_option (\<lambda>(m, ss, sw, ok, msgs). (m, ss, sw, if ok then Some True else None, msgs))
          (restore_blocks pid (filter (\<lambda>b. bd_pid b = pid) (drop (Suc k) (block_list sw))) m1 ss1 sw1)"
        using Suc.IH [of "Suc k" sw1 True m1 ss1] Suc.prems by (simp cong: if_cong)
      with True Some r show ?thesis unfolding split
        by (cases ok) (auto simp: option.map_comp comp_def case_prod_unfold Let_def cong: if_cong)
    qed
  qed
qed simp


definition clear_blocks :: "int set \<Rightarrow> t_swap_data \<Rightarrow> t_swap_data" where
  "clear_blocks K sw = sw\<lparr>block_list := map (\<lambda>b. if block_number b \<in> K
     then b\<lparr>segment_number := -1, segment_block_number := -1, bd_pid := NO_PID, segment_size := -1\<rparr> else b) (block_list sw)\<rparr>"

lemma clear_blocks_simps:
  "clear_blocks {} sw = sw" "clear_blocks K (clear_blocks L sw) = clear_blocks (L \<union> K) sw"
  "block_size (clear_blocks K sw) = block_size sw" "socket_swap (clear_blocks K sw) = socket_swap sw"
  "length (block_list (clear_blocks K sw)) = length (block_list sw)"
  by (simp_all add: clear_blocks_def comp_def map_idI)

lemma swap_ready_clear: "swap_ready sw st \<Longrightarrow> swap_ready (clear_blocks K sw) st"
  by (simp add: swap_ready_def clear_blocks_def)

lemma remove_block_clear:
  assumes "swap_ready sw st" "0 \<le> k" "k < int (length (block_list sw))"
  shows "remove_block_from_swap k sw = (clear_blocks {k} sw, k)"
proof -
  let ?f = "\<lambda>b. b\<lparr>segment_number := -1, segment_block_number := -1, bd_pid := NO_PID, segment_size := -1\<rparr>"
  have "(block_list sw)[nat k := ?f (block_list sw ! nat k)] = map (\<lambda>b. if block_number b \<in> {k} then ?f b else b) (block_list sw)"
    using assms by (intro nth_equalityI) (auto simp: swap_ready_def nth_list_update)
  with assms(2,3) show ?thesis by (simp add: remove_block_from_swap_def clear_blocks_def)
qed

lemma resume_block_writes:
  assumes sw: "swap_ready sw st" "0 \<le> block_number b" "block_number b < int (length (block_list sw))"
    and regen: "(if segment_block_number b = 0 then regenerate_segment (to_u32 (segment_number b)) pid (segment_size b) m
      else (m, True, [])) = (m1, True, [])"
    and seg: "find_segment m1 pid (to_u32 (segment_number b)) = Some seg" "in_sticks ss seg" "sticks_ok ss"
    and i: "block_row st b = segment_row (block_size sw) (s_id seg) data i" "int (length data) = s_size seg" "int i * block_size sw < s_size seg"
  shows "\<exists>ss'. resume_block b pid m ss sw = Some (m1, ss', clear_blocks {block_number b} sw, True, []) \<and> sticks_ok ss'
    \<and> flat ss' = overwrite (nat (s_base seg) + i * nat (block_size sw)) (chunk (i * nat (block_size sw)) (nat (block_size sw)) data) (flat ss)"
proof -
  let ?bs = "block_size sw" and ?k = "block_number b"
  have bs: "0 < ?bs" "sw_block_size st = ?bs" "swap_ok st" "socket_swap sw = Swap_up st"
    using sw(1) by (auto simp: swap_ready_def swap_ok_def)
  have valid: "valid_block st ?k" using sw by (auto simp: swap_ready_def valid_block_def split: if_splits)
  have row: "segment_block_number b = int i" "segment_size b = s_size seg"
    "take (nat (bytes_in_block (s_size seg) (int i * ?bs) ?bs)) (block_bytes st ?k) = chunk (i * nat ?bs) (nat ?bs) data"
    using i(1,2) by (auto simp: block_row_def segment_row_def bs(2))
  let ?n = "bytes_in_block (s_size seg) (int i * ?bs) ?bs" and ?a = "s_base seg + ?bs * int i"
  have off: "0 \<le> int i * ?bs" "int (i * nat ?bs) = int i * ?bs" using bs(1) by simp_all
  have n: "0 < ?n" "?n \<le> ?bs" "int i * ?bs + ?n \<le> s_size seg"
    using bytes_in_block_bounds [OF off(1) i(3) bs(1)] by simp_all
  have len: "?n \<le> int (length (block_bytes st ?k))" using length_block_bytes [OF bs(3) valid] n(2) bs(2) by simp
  have base: "0 \<le> s_base seg" "s_base seg + s_size seg \<le> int (length (flat ss))" using seg(2) by (simp_all add: in_sticks_def)
  have "?a = s_base seg + int (i * nat ?bs)" using off(2) by (simp only: mult.commute)
  with base off n have a: "nat ?a = nat (s_base seg) + i * nat ?bs" "0 \<le> ?a" "?a + ?n \<le> int (length (flat ss))"
    by linarith+
  obtain ss' where ss': "write_to_sticks ?a ?n (block_bytes st ?k) ss = Some (ss', True, [])" "sticks_ok ss'"
    "flat ss' = overwrite (nat ?a) (take (nat ?n) (block_bytes st ?k)) (flat ss)"
    using write_to_sticks_prefix [OF seg(3) a(2) _ len a(3)] n(1) by auto
  have addr: "compute_address_with_offset ?bs m1 pid b = Some ?a"
    by (simp add: compute_address_with_offset_def seg(1) row(1))
  have same: "sw\<lparr>socket_swap := Swap_up st\<rparr> = sw" using bs(4) by simp
  have "resume_block b pid m ss sw = Some (m1, ss', clear_blocks {?k} sw, True, [])"
    unfolding resume_block_def regen Let_def prod.case bs(4) read_block_from_swap_eq [OF bs(3) valid]
    by (simp add: addr row(1,2) ss'(1) same remove_block_clear [OF sw])
  with ss' a(1) row(3) show ?thesis by auto
qed


lemma restore_rest_of_segment:
  assumes "swap_ready sw st" "\<forall>b \<in> set bl. 0 \<le> block_number b \<and> block_number b < int (length (block_list sw))"
    and "find_segment m pid (s_id seg) = Some seg" "in_sticks ss seg" "sticks_ok ss"
    and "map (block_row st) bl = map (segment_row (block_size sw) (s_id seg) data) [i..<blocks_of (block_size sw) (s_size seg)]"
    and "int (length data) = s_size seg" "0 < i" "i \<le> blocks_of (block_size sw) (s_size seg)"
  shows "\<exists>ss'. restore_blocks pid bl m ss sw = Some (m, ss', clear_blocks (block_number ` set bl) sw, True, []) \<and> sticks_ok ss'
    \<and> flat ss' = overwrite (nat (s_base seg) + i * nat (block_size sw)) (drop (i * nat (block_size sw)) data) (flat ss)"
  using assms(1,2,4-6,8,9)
proof (induction bl arbitrary: i ss sw)
  case Nil
  let ?N = "blocks_of (block_size sw) (s_size seg)"
  have bs: "0 < block_size sw" using Nil.prems(1) by (simp add: swap_ready_def swap_ok_def)
  have i: "i = ?N" using Nil.prems(5,6,7) by auto
  have "s_size seg \<le> int i * block_size sw" using blocks_of_bound(3) [OF bs, of "s_size seg"] Nil.prems(3) i by (simp add: in_sticks_def)
  moreover have "int (i * nat (block_size sw)) = int i * block_size sw" using bs by simp
  ultimately have "length data \<le> i * nat (block_size sw)" using assms(7) by linarith
  with Nil.prems(4) show ?case by (intro exI [of _ ss]) (simp add: clear_blocks_simps)
next
  case (Cons b bl)
  let ?bs = "block_size sw"
  let ?N = "blocks_of ?bs (s_size seg)"
  have bs: "0 < ?bs" using Cons.prems(1) by (simp add: swap_ready_def swap_ok_def)
  have pos: "0 < s_size seg" using Cons.prems(3) by (simp add: in_sticks_def)
  have iN: "i < ?N" using Cons.prems(5) by (cases "i < ?N") auto
  then have rows: "block_row st b = segment_row ?bs (s_id seg) data i"
    "map (block_row st) bl = map (segment_row ?bs (s_id seg) data) [Suc i..<?N]"
    using Cons.prems(5) by (simp_all add: upt_conv_Cons)
  have "int i * ?bs \<le> int (?N - 1) * ?bs" using iN bs by (intro mult_right_mono) auto
  then have i: "int i * ?bs < s_size seg" using blocks_of_bound(2) [OF bs pos] by linarith
  have b: "segment_block_number b = int i" "to_u32 (segment_number b) = s_id seg"
    using rows(1) by (auto simp: block_row_def segment_row_def to_u32_to_int)
  have regen: "(if segment_block_number b = 0 then regenerate_segment (to_u32 (segment_number b)) pid (segment_size b) m
      else (m, True, [])) = (m, True, [])" using b(1) Cons.prems(6) by simp
  obtain ss1 where ss1: "resume_block b pid m ss sw = Some (m, ss1, clear_blocks {block_number b} sw, True, [])" "sticks_ok ss1"
    "flat ss1 = overwrite (nat (s_base seg) + i * nat ?bs) (chunk (i * nat ?bs) (nat ?bs) data) (flat ss)"
    using resume_block_writes [OF Cons.prems(1) _ _ regen assms(3) [folded b(2)] Cons.prems(3,4) rows(1) assms(7) i] Cons.prems(2) by auto
  let ?p = "nat (s_base seg) + i * nat ?bs" and ?c = "chunk (i * nat ?bs) (nat ?bs) data"
  have off: "int (i * nat ?bs) = int i * ?bs" using bs by simp
  have sz: "nat (s_base seg) + length data \<le> length (flat ss)"
    using Cons.prems(3) assms(7) unfolding in_sticks_def by linarith
  moreover have "i * nat ?bs \<le> length data" using i off assms(7) by linarith
  ultimately have fits: "?p + length ?c \<le> length (flat ss)" by (simp add: chunk_def)
  then have len: "length (flat ss1) = length (flat ss)" by (simp add: ss1(3))
  let ?sw = "clear_blocks {block_number b} sw"
  have "in_sticks ss1 seg" using Cons.prems(3) len by (simp add: in_sticks_def)
  with Cons.IH [of ?sw ss1 "Suc i"] Cons.prems(1,2) ss1(2) rows(2) iN obtain ss2 where
    ss2: "restore_blocks pid bl m ss1 ?sw = Some (m, ss2, clear_blocks (block_number ` set bl) ?sw, True, [])" "sticks_ok ss2"
      "flat ss2 = overwrite (nat (s_base seg) + Suc i * nat ?bs) (drop (Suc i * nat ?bs) data) (flat ss1)"
    by (auto simp: clear_blocks_simps swap_ready_clear)
  have "flat ss2 = overwrite ?p (drop (i * nat ?bs) data) (flat ss)"
  proof (cases "Suc i * nat ?bs \<le> length data")
    case True
    then have c: "length ?c = nat ?bs" by (simp add: chunk_def)
    have "drop (i * nat ?bs) data = ?c @ drop (Suc i * nat ?bs) data"
    proof -
      have "drop (Suc i * nat ?bs) data = drop (nat ?bs) (drop (i * nat ?bs) data)" by (simp add: add.commute)
      then show ?thesis by (simp only: chunk_def append_take_drop_id)
    qed
    moreover have "nat (s_base seg) + Suc i * nat ?bs = ?p + length ?c" using c by simp
    ultimately show ?thesis by (simp only: ss2(3) ss1(3) overwrite_next [OF fits])
  next
    case False
    then have "drop (Suc i * nat ?bs) data = []" "?c = drop (i * nat ?bs) data" by (simp_all add: chunk_def)
    then show ?thesis unfolding ss2(3) ss1(3) by simp
  qed
  with ss1(1) ss2(1,2) show ?case
    by (intro exI [of _ ss2]) (simp add: clear_blocks_simps insert_is_Un [symmetric])
qed

text \<open>Segments are found by their position among those of the process.\<close>

lemma nth_process_segment_nth:
  "nth_process_segment pid n cnt ss = (let own = filter (\<lambda>s. s_pid s = pid) ss in
     if unat (n - cnt) < length own then Some (own ! unat (n - cnt)) else None)"
proof (induction ss arbitrary: cnt)
  case (Cons s ss)
  show ?case
  proof (cases "s_pid s = pid \<and> cnt \<noteq> n")
    case True
    then have "n - cnt \<noteq> 0" by auto
    then have "unat (n - cnt) = Suc (unat (n - (cnt + 1)))"
      using unat_minus_one [of "n - cnt"] unat_eq_zero [of "n - cnt"] by (simp add: diff_diff_eq)
    with True Cons show ?thesis by (simp add: Let_def)
  qed (use Cons in \<open>auto simp: Let_def\<close>)
qed simp

definition roomy :: "int \<Rightarrow> t_main_memory \<Rightarrow> bool" where
  "roomy n m \<longleftrightarrow> length (holes m) \<le> 1 \<and> n \<le> compute_free_space (holes m)"

lemma length_update_hole_table: "length (update_hole_table hs c sz) \<le> length hs"
  by (induction hs) (auto simp: Let_def)

lemma regenerate_segment_cases:
  assumes "memory_ok m" "0 < sz" "sz < 2 ^ 31" "regenerate_segment sid pid sz m = (m', ok, msgs)"
  shows "if ok then msgs = [] \<and> memory_ok m' \<and> total_size m' = total_size m
      \<and> (\<exists>base. segments m' = segments m @ [\<lparr>s_id = sid, s_pid = pid, s_base = base, s_size = sz\<rparr>])
      \<and> (\<forall>n. roomy (sz + n) m \<longrightarrow> roomy n m')
    else (\<exists>t. msgs = [(OP_RESUME_SUSPENSION_FAILED, t)]) \<and> \<not> roomy sz m"
proof (cases ok)
  case True
  with memory_ok_regenerate [OF assms] assms(4) have m': "msgs = []" "memory_ok m'" "total_size m' = total_size m"
    "\<exists>base. segments m' = segments m @ [\<lparr>s_id = sid, s_pid = pid, s_base = base, s_size = sz\<rparr>]"
    "length (holes m') \<le> length (holes m)"
    by (auto simp: regenerate_segment_def select_hole_def update_segment_list_def length_update_hole_table Let_def split: if_splits prod.splits)
  then have "compute_free_space (holes m') + used_space (segments m') = total_size m"
    "compute_free_space (holes m) + used_space (segments m) = total_size m"
    using free_plus_used [of m] free_plus_used [of m'] assms(1) by (simp_all add: memory_ok_def)
  with m'(4) have "compute_free_space (holes m') = compute_free_space (holes m) - sz" by auto
  with True m' show ?thesis by (auto simp: roomy_def)
next
  case False
  have wf: "mem_wf m" "allocation_strategy m \<noteq> AS_INVALID" using assms(1) by (simp_all add: memory_ok_def)
  have "\<not> roomy sz m"
  proof
    assume "roomy sz m"
    then obtain h where h: "h \<in> set (holes m)" "sz \<le> h_size h" "sz \<le> compute_free_space (holes m)"
      using assms(2) by (cases "holes m") (auto simp: roomy_def compute_free_space_def)
    obtain c xs ys where "select_hole (to_u32 sz) m = (c, m\<lparr>holes := update_hole_table (holes m) c (to_u32 sz)\<rparr>)"
      "holes m = xs @ c # ys" "sz \<le> h_size c" "h_size c \<noteq> -1" by (rule select_hole_fit [OF wf assms(2) h(1,2)])
    with assms(4) h(3) False show False by (auto simp: regenerate_segment_def)
  qed
  with False assms(4) show ?thesis by (auto simp: regenerate_segment_def split: if_splits prod.splits)
qed

lemma new_segment_apart:
  assumes "mem_wf m" "segments m = us @ [s]" "u \<in> set us"
  shows "s_base u + s_size u \<le> s_base s \<or> s_base s + s_size s \<le> s_base u"
proof -
  obtain i where "i < length us" "us ! i = u" using assms(3) by (auto simp: in_set_conv_nth)
  with segments_disjoint [OF assms(1), of i "length us"] assms(2) show ?thesis by (simp add: nth_append)
qed


definition segments_restored :: "u32 \<Rightarrow> (u32 \<times> bytes) list \<Rightarrow> t_main_memory \<times> t_stick_data list \<Rightarrow> t_main_memory \<times> t_stick_data list \<Rightarrow> bool" where
  "segments_restored pid D = (\<lambda>(m, ss) (m', ss'). memory_ok m' \<and> sticks_ok ss' \<and> total_size m' = total_size m
     \<and> length (flat ss') = length (flat ss)
     \<and> (\<exists>new. segments m' = segments m @ new \<and> (\<forall>s \<in> set new. s_pid s = pid) \<and> map (segment_data ss') new = D)
     \<and> (\<forall>s \<in> set (segments m). segment_data ss' s = segment_data ss s))"

lemma segments_restored_trans:
  "segments_restored pid D a b \<Longrightarrow> segments_restored pid E b c \<Longrightarrow> segments_restored pid (D @ E) a c"
  by (cases a; cases b; cases c) (fastforce simp: segments_restored_def)

lemma segment_in_sticks:
  assumes "mem_wf m" "total_size m = int (length (flat ss))" "s \<in> set (segments m)"
  shows "in_sticks ss s"
  using range_bounds [OF assms(1) segment_in_ranges [OF assms(3)]] assms(2) by (simp add: in_sticks_def segment_range_def)

lemma restore_segment:
  assumes "swap_ready sw st" "\<forall>b \<in> set bl. 0 \<le> block_number b \<and> block_number b < int (length (block_list sw))"
    and "memory_ok m" "sticks_ok ss" "total_size m = int (length (flat ss))"
    and "map (block_row st) bl = segment_rows (block_size sw) (sid, data)" "data \<noteq> []" "length data < 2 ^ 31"
    and "unat sid = length (filter (\<lambda>s. s_pid s = pid) (segments m))"
  shows "\<exists>m' ss' K ok msgs. restore_blocks pid bl m ss sw = Some (m', ss', clear_blocks K sw, ok, msgs)
    \<and> (if ok then msgs = [] \<and> K = block_number ` set bl \<and> segments_restored pid [(sid, data)] (m, ss) (m', ss')
         \<and> (\<forall>n. roomy (int (length data) + n) m \<longrightarrow> roomy n m')
       else (\<exists>t. msgs = [(OP_RESUME_SUSPENSION_FAILED, t)]) \<and> \<not> roomy (int (length data)) m)"
proof -
  let ?bs = "block_size sw" and ?sz = "int (length data)"
  have bs: "0 < ?bs" using assms(1) by (simp add: swap_ready_def swap_ok_def)
  have sz: "0 < ?sz" "?sz < 2 ^ 31" using assms(7,8) by (simp_all add: nat_less_numeral_power_cancel_iff)
  have N: "0 < blocks_of ?bs ?sz" using blocks_of_bound(1) [OF bs sz(1)] .
  then obtain b bl' where bl: "bl = b # bl'" "block_row st b = segment_row ?bs sid data 0"
    "map (block_row st) bl' = map (segment_row ?bs sid data) [Suc 0..<blocks_of ?bs ?sz]"
    using assms(6) by (cases bl) (auto simp: segment_rows_def upt_conv_Cons)
  have b: "segment_block_number b = 0" "to_u32 (segment_number b) = sid" "segment_size b = ?sz"
    using bl(2) by (auto simp: block_row_def segment_row_def to_u32_to_int)
  obtain m1 ok msgs where regen: "regenerate_segment sid pid ?sz m = (m1, ok, msgs)" by (cases "regenerate_segment sid pid ?sz m")
  note cases = regenerate_segment_cases [OF assms(3) sz regen]
  show ?thesis
  proof (cases ok)
    case False
    with b regen have "resume_block b pid m ss sw = Some (m1, ss, sw, False, msgs)" by (simp add: resume_block_def)
    with False cases bl(1) show ?thesis
      by (intro exI [of _ m1] exI [of _ ss] exI [of _ "{}"] exI [of _ False] exI [of _ msgs]) (simp add: clear_blocks_simps)
  next
    case True
    with cases obtain base where m1: "msgs = []" "memory_ok m1" "total_size m1 = total_size m"
      "\<forall>n. roomy (?sz + n) m \<longrightarrow> roomy n m1"
      "segments m1 = segments m @ [\<lparr>s_id = sid, s_pid = pid, s_base = base, s_size = ?sz\<rparr>]" by auto
    define seg where "seg = \<lparr>s_id = sid, s_pid = pid, s_base = base, s_size = ?sz\<rparr>"
    have seg: "s_id seg = sid" "s_pid seg = pid" "s_size seg = ?sz" "segments m1 = segments m @ [seg]"
      by (simp_all add: seg_def m1(5))
    have wf: "mem_wf m1" using m1(2) by (simp add: memory_ok_def)
    have "in_sticks ss seg" using segment_in_sticks [OF wf] m1(3) assms(5) seg(4) by simp
    moreover have f: "find_segment m1 pid sid = Some seg"
      by (simp add: find_segment_def nth_process_segment_nth seg(2,4) assms(9) nth_append)
    ultimately obtain ss1 where ss1: "resume_block b pid m ss sw = Some (m1, ss1, clear_blocks {block_number b} sw, True, [])" "sticks_ok ss1"
      "flat ss1 = overwrite (nat (s_base seg)) (chunk 0 (nat ?bs) data) (flat ss)"
    proof -
      have "(if segment_block_number b = 0 then regenerate_segment (to_u32 (segment_number b)) pid (segment_size b) m
        else (m, True, [])) = (m1, True, [])" using regen True m1(1) by (simp add: b)
      moreover have "0 \<le> block_number b" "block_number b < int (length (block_list sw))" using assms(2) bl(1) by simp_all
      moreover have "find_segment m1 pid (to_u32 (segment_number b)) = Some seg" by (simp add: f b(2))
      moreover have "block_row st b = segment_row (block_size sw) (s_id seg) data 0" by (simp only: bl(2) seg(1))
      moreover have "int 0 * block_size sw < s_size seg" by (simp add: seg(3) assms(7))
      ultimately have "\<exists>ss'. resume_block b pid m ss sw = Some (m1, ss', clear_blocks {block_number b} sw, True, []) \<and> sticks_ok ss'
        \<and> flat ss' = overwrite (nat (s_base seg) + 0 * nat ?bs) (chunk (0 * nat ?bs) (nat ?bs) data) (flat ss)"
        using seg(3) by (intro resume_block_writes [OF assms(1) _ _ _ _ \<open>in_sticks ss seg\<close> assms(4)]) simp_all
      then show ?thesis using that by auto
    qed
    have fits: "nat (s_base seg) + length data \<le> length (flat ss)"
      using \<open>in_sticks ss seg\<close> seg(3) unfolding in_sticks_def by linarith
    have len1: "length (flat ss1) = length (flat ss)" unfolding ss1(3) using fits by (simp add: chunk_def)
    let ?sw = "clear_blocks {block_number b} sw"
    have "\<forall>b \<in> set bl'. 0 \<le> block_number b \<and> block_number b < int (length (block_list ?sw))"
      using assms(2) bl(1) by (simp add: clear_blocks_simps)
    moreover have "find_segment m1 pid (s_id seg) = Some seg" by (simp only: f seg(1))
    moreover have "in_sticks ss1 seg" using \<open>in_sticks ss seg\<close> len1 by (simp add: in_sticks_def)
    moreover have "map (block_row st) bl' = map (segment_row (block_size ?sw) (s_id seg) data) [Suc 0..<blocks_of (block_size ?sw) (s_size seg)]"
      by (simp only: bl(3) seg(1,3) clear_blocks_simps)
    moreover have "Suc 0 \<le> blocks_of (block_size ?sw) (s_size seg)" using N by (simp add: clear_blocks_simps seg(3))
    ultimately obtain ss2 where ss2: "restore_blocks pid bl' m1 ss1 ?sw = Some (m1, ss2, clear_blocks (block_number ` set bl') ?sw, True, [])" "sticks_ok ss2"
      "flat ss2 = overwrite (nat (s_base seg) + Suc 0 * nat (block_size ?sw)) (drop (Suc 0 * nat (block_size ?sw)) data) (flat ss1)"
      using restore_rest_of_segment [OF swap_ready_clear [OF assms(1)] _ _ _ ss1(2) _ seg(3) [symmetric] zero_less_Suc] by blast
    note flat_ss2 = ss2(3) [unfolded clear_blocks_simps One_nat_def [symmetric] mult_1]
    have flat2: "flat ss2 = overwrite (nat (s_base seg)) data (flat ss)"
    proof (cases "nat ?bs \<le> length data")
      case True
      then have c: "length (take (nat ?bs) data) = nat ?bs" by simp
      with overwrite_next [of "nat (s_base seg)" "take (nat ?bs) data" "flat ss" "drop (nat ?bs) data"] fits True show ?thesis
        by (simp add: flat_ss2 ss1(3) chunk_def)
    qed (simp add: flat_ss2 ss1(3) chunk_def)
    have own: "segment_data ss2 seg = (sid, data)"
      using fits by (simp add: segment_data_def flat2 seg(1,3) chunk_overwrite_same)
    have "segment_data ss2 s = segment_data ss s" if s: "s \<in> set (segments m)" for s
    proof -
      have "in_sticks ss s" using segment_in_sticks [OF _ assms(5) s] assms(3) by (simp add: memory_ok_def)
      with new_segment_apart [OF wf seg(4) s] \<open>in_sticks ss seg\<close> seg(3)
      have "nat (s_base s) + nat (s_size s) \<le> nat (s_base seg) \<or> nat (s_base seg) + length data \<le> nat (s_base s)"
        unfolding in_sticks_def by linarith
      with fits show ?thesis by (simp add: segment_data_def flat2 chunk_overwrite_other)
    qed
    with own seg(2,4) m1(2,3) ss2(2) flat2 fits have "segments_restored pid [(sid, data)] (m, ss) (m1, ss2)"
      by (auto simp: segments_restored_def)
    with ss1(1) ss2(1) bl(1) m1(4) show ?thesis
      by (intro exI [of _ m1] exI [of _ ss2] exI [of _ "block_number ` set bl"] exI [of _ True] exI [of _ "[]"])
        (simp add: clear_blocks_simps insert_is_Un [symmetric])
  qed
qed


lemma restore_process:
  assumes "swap_ready sw st" "\<forall>b \<in> set bl. 0 \<le> block_number b \<and> block_number b < int (length (block_list sw))"
    and "memory_ok m" "sticks_ok ss" "total_size m = int (length (flat ss))"
    and "map (block_row st) bl = concat (map (segment_rows (block_size sw)) D)" "\<forall>d \<in> set D. snd d \<noteq> [] \<and> length (snd d) < 2 ^ 31"
    and "map (unat \<circ> fst) D = [n..<n + length D]" "n = length (filter (\<lambda>s. s_pid s = pid) (segments m))"
  shows "\<exists>m' ss' K ok msgs. restore_blocks pid bl m ss sw = Some (m', ss', clear_blocks K sw, ok, msgs)
    \<and> (if ok then msgs = [] \<and> K = block_number ` set bl \<and> segments_restored pid D (m, ss) (m', ss')
       else (\<exists>t. msgs = [(OP_RESUME_SUSPENSION_FAILED, t)]) \<and> \<not> roomy (\<Sum>d\<leftarrow>D. int (length (snd d))) m)"
  using assms
proof (induction D arbitrary: bl m ss sw n)
  case Nil
  then show ?case
    by (intro exI [of _ m] exI [of _ ss] exI [of _ "{}"] exI [of _ True] exI [of _ "[]"]) (simp add: segments_restored_def clear_blocks_simps)
next
  case (Cons d D)
  obtain sid data where d: "d = (sid, data)" by (cases d)
  obtain bl1 bl2 where bl: "bl = bl1 @ bl2" "map (block_row st) bl1 = segment_rows (block_size sw) (sid, data)"
    "map (block_row st) bl2 = concat (map (segment_rows (block_size sw)) D)"
    using Cons.prems(6) by (auto simp: d map_eq_append_conv)
  have nums: "[n..<n + length (d # D)] = n # [Suc n..<Suc n + length D]" by (simp add: upt_conv_Cons del: upt_Suc)
  have sid: "unat sid = length (filter (\<lambda>s. s_pid s = pid) (segments m))" "map (unat \<circ> fst) D = [Suc n..<Suc n + length D]"
    using Cons.prems(8,9) unfolding nums by (simp_all add: d comp_def del: upt_Suc)
  have valid: "\<forall>b \<in> set bl1. 0 \<le> block_number b \<and> block_number b < int (length (block_list sw))"
    "\<forall>b \<in> set bl2. 0 \<le> block_number b \<and> block_number b < int (length (block_list sw))"
    and data: "data \<noteq> []" "length data < 2 ^ 31" using Cons.prems(2,7) bl(1) d by simp_all
  obtain m1 ss1 K ok msgs where 1: "restore_blocks pid bl1 m ss sw = Some (m1, ss1, clear_blocks K sw, ok, msgs)"
    "if ok then msgs = [] \<and> K = block_number ` set bl1 \<and> segments_restored pid [(sid, data)] (m, ss) (m1, ss1)
         \<and> (\<forall>n. roomy (int (length data) + n) m \<longrightarrow> roomy n m1)
       else (\<exists>t. msgs = [(OP_RESUME_SUSPENSION_FAILED, t)]) \<and> \<not> roomy (int (length data)) m"
    using restore_segment [OF Cons.prems(1) valid(1) Cons.prems(3-5) bl(2) data sid(1)] by blast
  have "0 \<le> (\<Sum>d\<leftarrow>D. int (length (snd d)))" by (intro sum_list_nonneg) auto
  then have less: "roomy (\<Sum>d\<leftarrow>d # D. int (length (snd d))) m \<Longrightarrow> roomy (int (length data)) m" by (auto simp: roomy_def d)
  show ?case
  proof (cases ok)
    case False
    with 1 less restore_blocks_append(2) [of pid bl1 m ss sw] bl(1) show ?thesis
      by (intro exI [of _ m1] exI [of _ ss1] exI [of _ K] exI [of _ False] exI [of _ msgs]) auto
  next
    case True
    with 1 have r: "msgs = []" "K = block_number ` set bl1" "segments_restored pid [(sid, data)] (m, ss) (m1, ss1)"
      and room: "roomy (\<Sum>d\<leftarrow>d # D. int (length (snd d))) m \<Longrightarrow> roomy (\<Sum>d\<leftarrow>D. int (length (snd d))) m1" by (simp_all add: d)
    then have m1: "memory_ok m1" "sticks_ok ss1" "total_size m1 = int (length (flat ss1))"
      and new: "Suc n = length (filter (\<lambda>s. s_pid s = pid) (segments m1))"
      using Cons.prems(5,9) by (auto simp: segments_restored_def)
    note sw1 = swap_ready_clear [OF Cons.prems(1), of K]
    have "\<forall>b \<in> set bl2. 0 \<le> block_number b \<and> block_number b < int (length (block_list (clear_blocks K sw)))"
      using valid(2) by (simp add: clear_blocks_simps)
    from Cons.IH [OF sw1 this m1 _ _ sid(2) new] bl(3) Cons.prems(7) obtain m2 ss2 L ok2 msgs2 where
      2: "restore_blocks pid bl2 m1 ss1 (clear_blocks K sw) = Some (m2, ss2, clear_blocks (K \<union> L) sw, ok2, msgs2)"
      "if ok2 then msgs2 = [] \<and> L = block_number ` set bl2 \<and> segments_restored pid D (m1, ss1) (m2, ss2)
       else (\<exists>t. msgs2 = [(OP_RESUME_SUSPENSION_FAILED, t)]) \<and> \<not> roomy (\<Sum>d\<leftarrow>D. int (length (snd d))) m1"
      by (auto simp: clear_blocks_simps)
    have "restore_blocks pid bl m ss sw = Some (m2, ss2, clear_blocks (K \<union> L) sw, ok2, msgs2)"
      using 1(1) True r(1) 2(1) bl(1)
        restore_blocks_append(1) [of pid bl1 m ss sw m1 ss1 "clear_blocks K sw" "[]" bl2] by simp
    moreover have "K \<union> L = block_number ` set bl \<and> segments_restored pid (d # D) (m, ss) (m2, ss2)" if ok2
      using that 2(2) r(2) segments_restored_trans [OF r(3)] bl(1) d by (auto simp: image_Un)
    ultimately show ?thesis using 2(2) room
      by (intro exI [of _ m2] exI [of _ ss2] exI [of _ "K \<union> L"] exI [of _ ok2] exI [of _ msgs2]) auto
  qed
qed


subsection \<open>Both ways\<close>

text \<open>A kernel memory whose sticks hold its whole memory and whose swap module answers.\<close>

definition km_ready :: "t_kernel_memory \<Rightarrow> bool" where
  "km_ready km \<longleftrightarrow> memory_ok (main_memory km) \<and> sticks_ok (connected_sticks km)
     \<and> total_size (main_memory km) = int (length (flat (connected_sticks km)))
     \<and> (case swap_data km of Some sw \<Rightarrow> (case socket_swap sw of Swap_up st \<Rightarrow> swap_ready sw st | Swap_down \<Rightarrow> False) | None \<Rightarrow> False)"

definition swapped :: "u32 \<Rightarrow> t_kernel_memory \<Rightarrow> row list" where
  "swapped pid km = (case swap_data km of
     Some sw \<Rightarrow> (case socket_swap sw of Swap_up st \<Rightarrow> process_rows pid st sw | Swap_down \<Rightarrow> []) | None \<Rightarrow> [])"

definition swap_block_size :: "t_kernel_memory \<Rightarrow> int" where
  "swap_block_size km = (case swap_data km of Some sw \<Rightarrow> block_size sw | None \<Rightarrow> 0)"

definition free_swap_blocks :: "t_kernel_memory \<Rightarrow> nat" where
  "free_swap_blocks km = (case swap_data km of Some sw \<Rightarrow> free_blocks sw | None \<Rightarrow> 0)"

text \<open>The segments of a process with their bytes, and the blocks they take.\<close>

definition process_image :: "u32 \<Rightarrow> t_kernel_memory \<Rightarrow> (u32 \<times> (bytes option \<times> message list) option) list" where
  "process_image pid km = map (\<lambda>s. (s_id s, read_from_sticks (s_base s) (s_size s) (connected_sticks km)))
     (filter_process_segments pid (main_memory km))"

definition blocks_needed :: "u32 \<Rightarrow> t_kernel_memory \<Rightarrow> nat" where
  "blocks_needed pid km = (\<Sum>s\<leftarrow>filter_process_segments pid (main_memory km). blocks_of (swap_block_size km) (s_size s))"

definition numbered :: "u32 \<Rightarrow> t_kernel_memory \<Rightarrow> bool" where
  "numbered pid km \<longleftrightarrow> map (unat \<circ> s_id) (filter_process_segments pid (main_memory km))
     = [0..<length (filter_process_segments pid (main_memory km))]"

abbreviation own_data :: "u32 \<Rightarrow> t_kernel_memory \<Rightarrow> (u32 \<times> bytes) list" where
  "own_data pid km \<equiv> map (segment_data (connected_sticks km)) (filter_process_segments pid (main_memory km))"

lemma km_readyE:
  assumes "km_ready km"
  obtains sw st where "swap_data km = Some sw" "swap_ready sw st" "swapped pid km = process_rows pid st sw"
    "memory_ok (main_memory km)" "mem_wf (main_memory km)" "sticks_ok (connected_sticks km)"
    "total_size (main_memory km) = int (length (flat (connected_sticks km)))"
    "\<forall>s \<in> set (segments (main_memory km)). in_sticks (connected_sticks km) s"
  using assms segment_in_sticks [of "main_memory km" "connected_sticks km"]
  by (auto simp: km_ready_def swapped_def memory_ok_def split: option.splits swap_link.splits)

lemma km_readyI:
  assumes "memory_ok m" "sticks_ok ss" "total_size m = int (length (flat ss))" "swap_ready sw st"
  shows "km_ready (km\<lparr>main_memory := m, connected_sticks := ss, swap_data := Some sw\<rparr>)"
    "swapped pid (km\<lparr>main_memory := m, connected_sticks := ss, swap_data := Some sw\<rparr>) = process_rows pid st sw"
  using assms by (auto simp: km_ready_def swapped_def swap_ready_def)

lemma process_image_data:
  assumes "km_ready km"
  shows "process_image pid km = map (\<lambda>(sid, data). (sid, Some (Some data, []))) (own_data pid km)"
proof -
  have "sticks_ok (connected_sticks km)" "\<forall>s \<in> set (segments (main_memory km)). in_sticks (connected_sticks km) s"
    using km_readyE [OF assms] by metis+
  then have "read_from_sticks (s_base s) (s_size s) (connected_sticks km) = Some (Some (snd (segment_data (connected_sticks km) s)), [])"
    if "s \<in> set (segments (main_memory km))" for s
    using that read_loop_flat [of "connected_sticks km" "s_base s" 0 "s_size s" "[]"]
    by (auto simp: in_sticks_def read_from_sticks_def segment_data_def)
  then show ?thesis by (simp add: process_image_def segment_data_def filter_process_segments_def)
qed

lemma length_segment_rows: "length (segment_rows bs d) = blocks_of bs (int (length (snd d)))"
  by (simp add: segment_rows_def)

lemma remove_process_segments_total: "total_size (remove_process_segments segs pid m) = total_size m"
proof (induction segs arbitrary: m)
  case (Cons s segs)
  have "total_size (remove_segment (s_id s) pid m) = total_size m"
    by (auto simp: remove_segment_def find_and_remove_segment_def split: option.splits)
  with Cons show ?case by (simp add: remove_process_segments_def)
qed (simp add: remove_process_segments_def)

lemma length_own_rows:
  assumes "km_ready km"
  shows "length (concat (map (segment_rows (swap_block_size km)) (own_data pid km))) = blocks_needed pid km"
proof -
  have "\<forall>s \<in> set (segments (main_memory km)). in_sticks (connected_sticks km) s" using km_readyE [OF assms] by metis
  then have "\<forall>s \<in> set (filter_process_segments pid (main_memory km)). int (length (snd (segment_data (connected_sticks km) s))) = s_size s"
    by (simp add: filter_process_segments_def length_segment_data)
  then show ?thesis
    by (simp add: length_concat comp_def length_segment_rows blocks_needed_def cong: map_cong)
qed

lemma suspend_process_effect:
  assumes "km_ready km" "pr_pid p \<noteq> NO_PID" "swapped (pr_pid p) km = []" "process_image (pr_pid p) km \<noteq> []"
  defines "enough \<equiv> blocks_needed (pr_pid p) km \<le> free_swap_blocks km"
  shows "\<exists>km'. suspend_process (Some p) km = Some (km', [if enough then (OP_SUSPENSION_OK, []) else swap_full_reply]) \<and> km_ready km'
    \<and> swap_block_size km' = swap_block_size km
    \<and> main_memory km' = (if enough then remove_process_segments (filter_process_segments (pr_pid p) (main_memory km)) (pr_pid p) (main_memory km)
        else main_memory km)
    \<and> swapped (pr_pid p) km' = take (free_swap_blocks km) (concat (map (segment_rows (swap_block_size km)) (own_data (pr_pid p) km)))
    \<and> process_image (pr_pid p) km' = (if enough then [] else process_image (pr_pid p) km)
    \<and> (\<forall>q. q \<noteq> pr_pid p \<longrightarrow> process_image q km' = process_image q km \<and> (q \<noteq> NO_PID \<longrightarrow> swapped q km' = swapped q km))"
proof -
  let ?m = "main_memory km" and ?ss = "connected_sticks km" and ?pid = "pr_pid p"
  obtain sw st where sw: "swap_data km = Some sw" "swap_ready sw st" "swapped ?pid km = process_rows ?pid st sw"
    "memory_ok ?m" "mem_wf ?m" "sticks_ok ?ss" "total_size ?m = int (length (flat ?ss))" "\<forall>s \<in> set (segments ?m). in_sticks ?ss s"
    using km_readyE [OF assms(1)] by metis
  have st: "socket_swap sw = Swap_up st" using sw(2) by (simp add: swap_ready_def)
  let ?own = "filter (\<lambda>s. s_pid s = ?pid) (segments ?m)"
  let ?rows = "concat (map (segment_rows (block_size sw)) (map (segment_data ?ss) ?own))"
  have pk: "packed ?pid sw" using assms(3) sw(3) by (auto simp: process_rows_def filter_empty_conv packed_def)
  have n: "enough \<longleftrightarrow> length ?rows \<le> free_blocks sw"
    using length_own_rows [OF assms(1), of ?pid]
    by (simp add: enough_def free_swap_blocks_def swap_block_size_def sw(1) filter_process_segments_def)
  obtain sw' st' where s: "suspend_segments ?pid (segments ?m) ?ss sw = Some (sw', if enough then Some ?own else None, if enough then [] else [swap_full_reply])"
    "adds ?pid (take (free_blocks sw) ?rows) (sw, st) (sw', st')"
    using suspend_segments_adds [OF sw(2) pk assms(2) sw(6)] sw(8) unfolding n by blast
  have sw': "swap_ready sw' st'" "block_size sw' = block_size sw" "process_rows ?pid st' sw' = take (free_blocks sw) ?rows"
    "\<And>q. q \<noteq> ?pid \<Longrightarrow> q \<noteq> NO_PID \<Longrightarrow> process_rows q st' sw' = process_rows q st sw"
    using s(2) sw(3) assms(3) by (simp_all add: adds_def)
  define m' where "m' = (if enough then remove_process_segments ?own ?pid ?m else ?m)"
  define km' where "km' = km\<lparr>main_memory := m', connected_sticks := ?ss, swap_data := Some sw'\<rparr>"
  have segs: "segments m' = (if enough then filter (\<lambda>s. s_pid s \<noteq> ?pid) (segments ?m) else segments ?m)"
    using remove_process_segments_eq [of ?m "[]"] by (simp add: m'_def)
  have m': "memory_ok m'" "total_size m' = total_size ?m"
    using sw(4) memory_ok_remove_all by (auto simp: m'_def remove_process_segments_def [symmetric] remove_process_segments_total)
      (simp add: remove_process_segments_def memory_ok_remove_all)
  note ready = km_readyI [OF m'(1) sw(6) _ sw'(1), where km = km, folded km'_def]
  have "?own \<noteq> []" using assms(4) by (simp add: process_image_def filter_process_segments_def)
  then have "suspend_process (Some p) km = Some (km', [if enough then (OP_SUSPENSION_OK, []) else swap_full_reply])"
    by (cases enough) (simp_all add: suspend_process_def sw(1) s(1) km'_def m'_def)
  moreover have "process_image q km' = process_image q km" if "q \<noteq> ?pid \<or> \<not> enough" for q
  proof -
    have "filter (\<lambda>s. s_pid s = q) (segments m') = filter (\<lambda>s. s_pid s = q) (segments ?m)"
      using that by (auto simp: segs intro: filter_cong)
    then show ?thesis by (simp add: process_image_def filter_process_segments_def km'_def)
  qed
  moreover have "process_image ?pid km' = []" if enough
    using that by (simp add: process_image_def filter_process_segments_def km'_def segs)
  ultimately show ?thesis
    using ready m'(2) sw(1,7) sw' st
    by (intro exI [of _ km']) (auto simp: swap_block_size_def km'_def m'_def free_swap_blocks_def filter_process_segments_def swapped_def)
qed


lemma foldl_add_if: "foldl (\<lambda>sz b. if P b then sz + f b else sz) (n::int) bs = n + (\<Sum>b\<leftarrow>bs. if P b then f b else 0)"
  by (induction bs arbitrary: n) simp_all

lemma compute_process_size_data:
  assumes "\<forall>s \<in> set (segments m). in_sticks ss s"
  shows "compute_process_size pid m = (\<Sum>d\<leftarrow>map (segment_data ss) (filter_process_segments pid m). int (length (snd d)))"
proof -
  have "(\<Sum>s\<leftarrow>us. if s_pid s = pid then s_size s else 0)
      = (\<Sum>d\<leftarrow>map (segment_data ss) (filter (\<lambda>s. s_pid s = pid) us). int (length (snd d)))"
    if "\<forall>s \<in> set us. in_sticks ss s" for us
    using that by (induction us) (simp_all add: length_segment_data)
  then show ?thesis by (simp add: assms compute_process_size_def foldl_add_if filter_process_segments_def)
qed

lemma suspended_size_rows:
  "suspended_size pid (block_list sw) = (\<Sum>r\<leftarrow>process_rows pid st sw. if fst (snd r) = 0 then fst (snd (snd r)) else 0)"
proof -
  have "(\<Sum>b\<leftarrow>bs. if bd_pid b = pid \<and> segment_block_number b = 0 then segment_size b else 0)
      = (\<Sum>r\<leftarrow>map (block_row st) (filter (\<lambda>b. bd_pid b = pid) bs). if fst (snd r) = 0 then fst (snd (snd r)) else 0)" for bs
    by (induction bs) (simp_all add: block_row_def)
  then show ?thesis by (simp add: suspended_size_def foldl_add_if process_rows_def)
qed

lemma first_rows_size:
  assumes "0 < bs" "\<forall>d \<in> set D. snd d \<noteq> []"
  shows "(\<Sum>r\<leftarrow>concat (map (segment_rows bs) D). if fst (snd r) = 0 then fst (snd (snd r)) else 0) = (\<Sum>d\<leftarrow>D. int (length (snd d)))"
  using assms(2)
proof (induction D)
  case (Cons d D)
  have "0 < blocks_of bs (int (length (snd d)))" using blocks_of_bound(1) [OF assms(1)] Cons.prems by simp
  then have "segment_rows bs d = segment_row bs (fst d) (snd d) 0 # map (segment_row bs (fst d) (snd d)) [Suc 0..<blocks_of bs (int (length (snd d)))]"
    by (simp add: segment_rows_def upt_conv_Cons)
  moreover have "(\<Sum>i\<leftarrow>[Suc 0..<n]. if i = 0 then (f i::int) else 0) = 0" for n f
    by (induction n) auto
  ultimately show ?case using Cons by (simp add: segment_row_def comp_def)
qed simp

lemma own_data_facts:
  assumes "km_ready km"
  shows "\<forall>d \<in> set (own_data pid km). snd d \<noteq> [] \<and> length (snd d) < 2 ^ 31"
    "compute_process_size pid (main_memory km) = (\<Sum>d\<leftarrow>own_data pid km. int (length (snd d)))"
proof -
  have km: "mem_wf (main_memory km)" "total_size (main_memory km) = int (length (flat (connected_sticks km)))"
    "\<forall>s \<in> set (segments (main_memory km)). in_sticks (connected_sticks km) s"
    using km_readyE [OF assms] by metis+
  show "\<forall>d \<in> set (own_data pid km). snd d \<noteq> [] \<and> length (snd d) < 2 ^ 31"
  proof
    fix d
    assume "d \<in> set (own_data pid km)"
    then obtain s where s: "s \<in> set (segments (main_memory km))" "d = segment_data (connected_sticks km) s"
      by (auto simp: filter_process_segments_def)
    with km(3) have "in_sticks (connected_sticks km) s" by simp
    with length_segment_data [OF this] s(2) mem_wfD(2) [OF km(1)] km(2)
    have "0 < int (length (snd d))" "int (length (snd d)) < 2 ^ 31" by (auto simp: in_sticks_def)
    then show "snd d \<noteq> [] \<and> length (snd d) < 2 ^ 31" by (auto simp: nat_less_numeral_power_cancel_iff)
  qed
  show "compute_process_size pid (main_memory km) = (\<Sum>d\<leftarrow>own_data pid km. int (length (snd d)))"
    by (rule compute_process_size_data [OF km(3)])
qed

subsubsection \<open>Two segments of 3 and 2 bytes over two sticks, blocks of 2 bytes\<close>

definition demo_swapping :: "int \<Rightarrow> t_kernel_memory" where
  "demo_swapping n = \<lparr>main_memory = \<lparr>compaction_delay = 0, total_size = 8, max_segment_size = 8,
       segments = [\<lparr>s_id = 0, s_pid = 1, s_base = 0, s_size = 3\<rparr>, \<lparr>s_id = 1, s_pid = 1, s_base = 3, s_size = 2\<rparr>],
       holes = [\<lparr>h_base = 5, h_size = 3\<rparr>], allocation_strategy = AS_BEST\<rparr>,
     connected_sticks = [\<lparr>stick_size = 4, socket_stick = Up \<lparr>memory_delay = 0, memory = [1, 2, 3, 4]\<rparr>, ip_memory_stick = '''', stick_port = -1\<rparr>,
       \<lparr>stick_size = 4, socket_stick = Up \<lparr>memory_delay = 0, memory = [5, 6, 7, 8]\<rparr>, ip_memory_stick = '''', stick_port = -1\<rparr>],
     swap_data = Some \<lparr>block_list = map free_block_data [0..n - 1], swap_size = 2 * n, block_size = 2, socket_swap = Swap_up (init_swap_file (2 * n) 2)\<rparr>,
     processes = []\<rparr>"

abbreviation demo_process :: t_process where
  "demo_process \<equiv> \<lparr>pr_pid = 1, instructions = [], pr_registers = zero_registers\<rparr>"

lemma demo_swapping_memory: "memory_ok (main_memory (demo_swapping n))"
proof -
  note step = reachable.reachable_step [where ok = request_ok and step = mem_apply]
  have "reachable request_ok mem_apply (init_main_memory 8 AS_BEST 0) (main_memory (demo_swapping n))"
    unfolding demo_swapping_def t_kernel_memory.select_convs
    apply (rule step [where r = "Create 1 1 2"])
      apply (rule step [where r = "Create 0 1 3"])
        apply (rule step [where r = "Add_stick 8"])
          apply (rule reachable.reachable_init)
    by code_simp+
  from memory.reachable_inv [OF this] mem_wf_init show ?thesis
    by (simp add: memory_ok_def demo_swapping_def init_main_memory_def)
qed

lemma demo_swapping_ready:
  assumes "n = 2 \<or> n = 4"
  shows "km_ready (demo_swapping n)" "swapped 1 (demo_swapping n) = []" "free_swap_blocks (demo_swapping n) = nat n"
proof -
  have ss: "sticks_ok (connected_sticks (demo_swapping n))"
    by (simp add: sticks_ok_def demo_swapping_def stick_ok_def stick_bytes_def INT_MAX_def)
  have sw: "swap_ready \<lparr>block_list = map free_block_data [0..n - 1], swap_size = 2 * n, block_size = 2, socket_swap = Swap_up (init_swap_file (2 * n) 2)\<rparr>
      (init_swap_file (2 * n) 2)"
    using assms by (auto simp: swap_ready_def swap_ok_def init_swap_file_def INT_MAX_def free_block_data_def)
  show "km_ready (demo_swapping n)"
    using demo_swapping_memory [of n] ss sw by (simp add: km_ready_def) (simp add: demo_swapping_def stick_bytes_def)
  show "swapped 1 (demo_swapping n) = []" "free_swap_blocks (demo_swapping n) = nat n"
    using assms by (auto simp: swapped_def free_swap_blocks_def free_blocks_def process_rows_def demo_swapping_def free_block_data_def filter_empty_conv comp_def)
qed

lemma demo_swapping_image:
  "own_data 1 (demo_swapping n) = [(0, [1, 2, 3]), (1, [4, 5])]" "blocks_needed 1 (demo_swapping n) = 3" "swap_block_size (demo_swapping n) = 2"
  "segment_rows 2 (0, [1, 2, 3]) = [(0, 0, 3, [1, 2]), (0, 1, 3, [3])]" "segment_rows 2 (1, [4, 5]) = [(1, 0, 2, [4, 5])]"
  "numbered 1 (demo_swapping n)"
  by (simp_all add: demo_swapping_def filter_process_segments_def segment_data_def stick_bytes_def chunk_def blocks_needed_def swap_block_size_def
      blocks_of_def segment_rows_def segment_row_def numbered_def to_int_def numeral_eq_Suc)


lemma demo_process_image:
  "n = 2 \<or> n = 4 \<Longrightarrow> process_image 1 (demo_swapping n) = [(0, Some (Some [1, 2, 3], [])), (1, Some (Some [4, 5], []))]"
  unfolding process_image_data [OF demo_swapping_ready(1)] demo_swapping_image by simp

lemma demo_suspension:
  "\<exists>km1. suspend_process (Some demo_process) (demo_swapping 4) = Some (km1, [(OP_SUSPENSION_OK, [])]) \<and> km_ready km1
     \<and> swapped 1 km1 = [(0, 0, 3, [1, 2]), (0, 1, 3, [3]), (1, 0, 2, [4, 5])] \<and> process_image 1 km1 = []
     \<and> holes (main_memory km1) = [\<lparr>h_base = 0, h_size = 8\<rparr>]"
proof -
  have "process_image 1 (demo_swapping 4) \<noteq> []" by (simp add: demo_process_image)
  moreover have "holes (remove_process_segments (filter_process_segments 1 (main_memory (demo_swapping 4))) 1 (main_memory (demo_swapping 4)))
    = [\<lparr>h_base = 0, h_size = 8\<rparr>]" by code_simp
  ultimately show ?thesis
    using suspend_process_effect [of "demo_swapping 4" demo_process] demo_swapping_ready [of 4] by (auto simp: demo_swapping_image)
qed

subsection \<open>Properties\<close>

text \<open>C25: Suspending a process that has no blocks in the swap returns with exactly one answer. When the free
  blocks are enough the process is suspended: every block of its segments, read from the sticks, is in the
  block table and the swap module, in order, and its segments are gone. Otherwise the answer is that the
  swap is full and the process stays in memory, but the blocks already written stay occupied. The segments,
  the bytes and the blocks of other processes do not change.\<close>

theorem suspension_outcome:
  assumes "km_ready km" "pr_pid p \<noteq> NO_PID" "swapped (pr_pid p) km = []" "process_image (pr_pid p) km \<noteq> []"
  shows "\<exists>km'. suspend_process (Some p) km = Some (km',
        [if blocks_needed (pr_pid p) km \<le> free_swap_blocks km then (OP_SUSPENSION_OK, []) else swap_full_reply]) \<and> km_ready km'
    \<and> swapped (pr_pid p) km' = take (free_swap_blocks km) (concat (map (segment_rows (swap_block_size km)) (own_data (pr_pid p) km)))
    \<and> process_image (pr_pid p) km' = (if blocks_needed (pr_pid p) km \<le> free_swap_blocks km then [] else process_image (pr_pid p) km)
    \<and> (\<forall>q. q \<noteq> pr_pid p \<longrightarrow> process_image q km' = process_image q km \<and> (q \<noteq> NO_PID \<longrightarrow> swapped q km' = swapped q km))"
  using suspend_process_effect [OF assms] by metis

text \<open>With two blocks the suspension fails and leaves both to the process, which is still in memory.\<close>

theorem suspension_outcome_witness:
  "\<exists>km'. suspend_process (Some demo_process) (demo_swapping 2) = Some (km', [swap_full_reply])
    \<and> swapped 1 km' = [(0, 0, 3, [1, 2]), (0, 1, 3, [3])] \<and> process_image 1 km' = process_image 1 (demo_swapping 2)"
proof -
  have "process_image 1 (demo_swapping 2) \<noteq> []" by (simp add: demo_process_image)
  then show ?thesis
    using suspension_outcome [of "demo_swapping 2" demo_process] demo_swapping_ready [of 2] by (auto simp: demo_swapping_image)
qed

text \<open>C7: A process whose segments are numbered \<open>0 .. n - 1\<close> in the order of the segment table, and to which no
  block of the swap is left from before, is suspended, Kernel Memory and the swap being in order (\<open>km_ready\<close>). Then whatever
  happens to the memory and to other processes, as long as its blocks stay in the swap and it gets no
  segments: \<open>resume_process\<close> returns with one answer, and
  when it is the positive one the process has the same segments with the same bytes, no block of the swap
  is left to it, and no segment of another process changed a byte. The answer is positive when the memory
  has at most one hole and space for the process. Without the numbering \<open>find_segment\<close>, which looks
  segments up by position, fails; blocks left from a suspension that failed would be restored too.\<close>

theorem suspend_resume_round_trip:
  assumes "km_ready km" "pr_pid p \<noteq> NO_PID" "swapped (pr_pid p) km = []" "numbered (pr_pid p) km"
    and "suspend_process (Some p) km = Some (km1, [(OP_SUSPENSION_OK, [])])"
    and "km_ready km2" "swap_block_size km2 = swap_block_size km1" "swapped (pr_pid p) km2 = swapped (pr_pid p) km1"
    and "process_image (pr_pid p) km2 = []"
  shows "\<exists>km3 op t. resume_process (pr_pid p) km2 = Some (km3, [(op, t)])
    \<and> (if op = OP_RESUME_SUSPENSION_OK
       then km_ready km3 \<and> process_image (pr_pid p) km3 = process_image (pr_pid p) km \<and> swapped (pr_pid p) km3 = []
         \<and> (\<forall>q. q \<noteq> pr_pid p \<longrightarrow> process_image q km3 = process_image q km2)
       else op = OP_RESUME_SUSPENSION_FAILED
         \<and> (1 < length (holes (main_memory km2)) \<or> compute_free_space (holes (main_memory km2)) < compute_process_size (pr_pid p) (main_memory km)))"
proof -
  let ?pid = "pr_pid p"
  have some: "process_image ?pid km \<noteq> []"
  proof
    assume "process_image ?pid km = []"
    then have none: "filter (\<lambda>s. s_pid s = ?pid) (segments (main_memory km)) = []"
      by (simp add: process_image_def filter_process_segments_def)
    have "suspend_segments ?pid us ss sw = Some (sw, Some [], [])" if "filter (\<lambda>s. s_pid s = ?pid) us = []" for us ss sw
      using that by (induction us) (auto split: if_splits)
    with none assms(5) show False by (auto simp: suspend_process_def split: option.splits)
  qed
  define D where "D = own_data ?pid km"
  let ?bs = "swap_block_size km"
  from suspend_process_effect [OF assms(1-3) some] assms(5) have km1: "blocks_needed ?pid km \<le> free_swap_blocks km"
    "swap_block_size km1 = ?bs" "swapped ?pid km1 = take (free_swap_blocks km) (concat (map (segment_rows ?bs) D))"
    by (auto simp: D_def swap_full_reply_def split: if_splits)
  with length_own_rows [OF assms(1), of ?pid] have rows: "swapped ?pid km2 = concat (map (segment_rows ?bs) D)" "swap_block_size km2 = ?bs"
    using assms(7,8) by (simp_all add: D_def)
  obtain sw st where sw: "swap_data km2 = Some sw" "swap_ready sw st" "swapped ?pid km2 = process_rows ?pid st sw"
    "memory_ok (main_memory km2)" "sticks_ok (connected_sticks km2)"
    "total_size (main_memory km2) = int (length (flat (connected_sticks km2)))"
    using km_readyE [OF assms(6)] by metis
  have bs: "block_size sw = ?bs" "0 < ?bs" using rows(2) sw(1,2) by (simp_all add: swap_block_size_def swap_ready_def swap_ok_def)
  let ?bl = "filter (\<lambda>b. bd_pid b = ?pid) (block_list sw)"
  have bl: "map (block_row st) ?bl = concat (map (segment_rows (block_size sw)) D)"
    using rows(1) sw(3) bs(1) by (simp add: process_rows_def)
  have data: "\<forall>d \<in> set D. snd d \<noteq> [] \<and> length (snd d) < 2 ^ 31" and nums: "map (unat \<circ> fst) D = [0..<0 + length D]"
    and total: "compute_process_size ?pid (main_memory km) = (\<Sum>d\<leftarrow>D. int (length (snd d)))"
      proof -
    have "(unat \<circ> fst) \<circ> segment_data (connected_sticks km) = unat \<circ> s_id" by (simp add: fun_eq_iff segment_data_def)
    then show "map (unat \<circ> fst) D = [0..<0 + length D]" using assms(4) by (simp add: D_def numbered_def comp_assoc)
  qed (use own_data_facts [OF assms(1), of ?pid] in \<open>simp_all add: D_def\<close>)
  let ?m = "main_memory km2" and ?ss = "connected_sticks km2"
  have none: "filter (\<lambda>s. s_pid s = ?pid) (segments ?m) = []"
    using assms(9) by (simp add: process_image_def filter_process_segments_def)
  then have own0: "0 = length (filter (\<lambda>s. s_pid s = ?pid) (segments ?m))" by simp
  have valid: "\<forall>b \<in> set ?bl. 0 \<le> block_number b \<and> block_number b < int (length (block_list sw))"
    and nth: "\<forall>j < length (block_list sw). block_number (block_list sw ! j) = int j"
    using sw(2) by (auto simp: swap_ready_def in_set_conv_nth)
  obtain m' ss' K ok msgs where restore: "restore_blocks ?pid ?bl ?m ?ss sw = Some (m', ss', clear_blocks K sw, ok, msgs)"
    "if ok then msgs = [] \<and> K = block_number ` set ?bl \<and> segments_restored ?pid D (?m, ?ss) (m', ss')
     else (\<exists>t. msgs = [(OP_RESUME_SUSPENSION_FAILED, t)]) \<and> \<not> roomy (\<Sum>d\<leftarrow>D. int (length (snd d))) ?m"
    using restore_process [OF sw(2) valid sw(4-6) bl data nums own0] by blast
  have "?bl \<noteq> []"
  proof -
    obtain d D' where "D = d # D'" using some by (cases D) (auto simp: D_def process_image_def)
    then have "segment_rows (block_size sw) d \<noteq> []" "\<exists>rs. map (block_row st) ?bl = segment_rows (block_size sw) d @ rs"
      using data blocks_of_bound(1) [OF bs(2)] bl by (auto simp: segment_rows_def bs(1))
    then show ?thesis by auto
  qed
  then have loop: "resume_blocks (length (block_list sw)) 0 ?pid False ?m ?ss sw = Some (m', ss', clear_blocks K sw, if ok then Some True else None, msgs)"
    using resume_blocks_restore [of 0 _ sw ?pid False ?m ?ss] nth restore(1) by auto
  have size: "suspended_size ?pid (block_list sw) = compute_process_size ?pid (main_memory km)"
    using suspended_size_rows [of ?pid sw st] first_rows_size [OF bs(2), of D] data rows(1) sw(3) total by simp
  consider (small) "\<not> can_resume ?pid km2" | (failed) "can_resume ?pid km2" "\<not> ok" | (fine) "can_resume ?pid km2" ok by blast
  then show ?thesis
  proof cases
    case small
    then have "compute_free_space (holes ?m) < compute_process_size ?pid (main_memory km)"
      by (simp add: can_resume_def sw(1) size)
    with small show ?thesis by (simp add: resume_process_def sw(1))
  next
    case failed
    with restore(2) obtain t where "msgs = [(OP_RESUME_SUSPENSION_FAILED, t)]" "\<not> roomy (\<Sum>d\<leftarrow>D. int (length (snd d))) ?m" by auto
    with failed show ?thesis by (auto simp: resume_process_def sw(1) loop total roomy_def)
  next
    case fine
    with restore(2) have r: "msgs = []" "K = block_number ` set ?bl" "segments_restored ?pid D (?m, ?ss) (m', ss')" by simp_all
    define km3 where "km3 = km2\<lparr>main_memory := m', connected_sticks := ss', swap_data := Some (clear_blocks K sw)\<rparr>"
    have run: "resume_process ?pid km2 = Some (km3, [(OP_RESUME_SUSPENSION_OK, [])])"
      using fine by (simp add: resume_process_def sw(1) loop r(1) km3_def)
    obtain new where m': "memory_ok m'" "sticks_ok ss'" "total_size m' = int (length (flat ss'))" "segments m' = segments ?m @ new"
      "\<forall>s \<in> set new. s_pid s = ?pid" "map (segment_data ss') new = D" "\<forall>s \<in> set (segments ?m). segment_data ss' s = segment_data ?ss s"
      using r(3) sw(6) by (auto simp: segments_restored_def)
    note km3 = km_readyI [OF m'(1-3) swap_ready_clear [OF sw(2), of K], where km = km2, folded km3_def]
    have "own_data ?pid km3 = D"
      using none m'(4-6) by (simp add: filter_process_segments_def km3_def)
    then have "process_image ?pid km3 = process_image ?pid km"
      by (simp add: process_image_data [OF km3(1)] process_image_data [OF assms(1)] D_def)
    moreover have "process_image q km3 = process_image q km2" if "q \<noteq> ?pid" for q
    proof -
      have "filter (\<lambda>s. s_pid s = q) new = []" using m'(5) that by (simp add: filter_empty_conv)
      then have "own_data q km3 = own_data q km2"
        using m'(4,7) by (simp add: filter_process_segments_def km3_def)
      then show ?thesis by (simp add: process_image_data [OF km3(1)] process_image_data [OF assms(6)])
    qed
    moreover have "swapped ?pid km3 = []"
      unfolding km3(2) using assms(2) by (auto simp: process_rows_def clear_blocks_def r(2) filter_empty_conv)
    ultimately show ?thesis using run km3(1) by auto
  qed
qed


theorem suspend_resume_round_trip_witness:
  "\<exists>km1 km3 t. suspend_process (Some demo_process) (demo_swapping 4) = Some (km1, [(OP_SUSPENSION_OK, [])]) \<and> process_image 1 km1 = []
    \<and> resume_process 1 km1 = Some (km3, [(OP_RESUME_SUSPENSION_OK, t)])
    \<and> process_image 1 km3 = [(0, Some (Some [1, 2, 3], [])), (1, Some (Some [4, 5], []))]"
proof -
  obtain km1 where km1: "suspend_process (Some demo_process) (demo_swapping 4) = Some (km1, [(OP_SUSPENSION_OK, [])])" "km_ready km1"
    "process_image 1 km1 = []" "holes (main_memory km1) = [\<lparr>h_base = 0, h_size = 8\<rparr>]"
    using demo_suspension by blast
  have "compute_process_size 1 (main_memory (demo_swapping 4)) = 5" by (simp add: compute_process_size_def demo_swapping_def)
  with suspend_resume_round_trip [of "demo_swapping 4" demo_process km1 km1] km1 demo_swapping_ready(1,2) [of 4]
  obtain km3 t where "resume_process 1 km1 = Some (km3, [(OP_RESUME_SUSPENSION_OK, t)])" "process_image 1 km3 = process_image 1 (demo_swapping 4)"
    by (auto simp: demo_swapping_image compute_free_space_def split: if_splits)
  with km1(1,3) show ?thesis
    by (simp add: demo_process_image)
qed

end
