(* ===== verification/Suspension.thy ===== *)
theory Suspension
  imports Queues_System
begin

section \<open>Kernel Scheduler: the suspender and the resumer\<close>

text \<open>
  The worker threads of \<open>scheduler/suspension.c\<close>. One round of a worker is one function; the
  flag it returns says whether the thread goes on. A condition wait is \<open>None\<close> until its condition
  holds or (\<open>woken\<close>) the thread is signalled. A worker marks the process it works on with
  \<open>active_instances\<close> from taking it out of the list to the end of the round.
\<close>

subsection \<open>Parking the worker threads\<close>

definition lock_thread_suspended :: "t_thread_state \<Rightarrow> t_thread_state" where
  "lock_thread_suspended st = (if st = TS_RUNNING \<or> st = TS_WAITING_PROCESS then TS_BLOCKED else st)"

definition lock_threads_suspended :: "t_queues \<Rightarrow> t_queues" where
  "lock_threads_suspended q =
     q\<lparr>suspender := lock_thread_suspended (suspender q), resumer := lock_thread_suspended (resumer q)\<rparr>"

definition unlock_threads_suspended :: "t_queues \<Rightarrow> t_queues" where
  "unlock_threads_suspended q =
     q\<lparr>suspender := unlock_thread_suspended (suspender q), resumer := unlock_thread_suspended (resumer q)\<rparr>"

definition wait_unlock :: "t_thread_state \<Rightarrow> t_queues \<Rightarrow> t_queues option" where
  "wait_unlock st q = (if st = TS_BLOCKED then None else Some q)"

text \<open>The two halves of the shutdown of the worker threads: the request and the join.\<close>

definition terminate_thread_suspended :: "t_thread_state \<Rightarrow> t_thread_state" where
  "terminate_thread_suspended st = TS_FINISHING"

definition wait_thread_suspended :: "t_thread_state \<Rightarrow> t_thread_state" where
  "wait_thread_suspended st = TS_FINISHED"

definition terminate_threads_suspended :: "t_queues \<Rightarrow> t_queues" where
  "terminate_threads_suspended q =
     q\<lparr>suspender := wait_thread_suspended (terminate_thread_suspended (suspender q)),
       resumer := wait_thread_suspended (terminate_thread_suspended (resumer q))\<rparr>"

subsection \<open>The suspender\<close>

text \<open>The first process of BLOCK that Kernel Memory says has memory.\<close>

fun first_in_memory :: "pcb_ref list \<Rightarrow> t_queues \<Rightarrow> (pcb_ref option \<times> t_queues) option" where
  "first_in_memory [] q = Some (None, q)"
| "first_in_memory (r # rs) q = do {
     p \<leftarrow> pcbs q r;
     (size_in_memory, q1) \<leftarrow> process_size_no_logger (pcb_pid p) q;
     if size_in_memory > 0 then map_option (Pair (Some r)) (increment_active_instances r q1)
     else first_in_memory rs q1 }"

definition get_process_blocked :: "t_queues \<Rightarrow> (pcb_ref option \<times> t_queues) option" where
  "get_process_blocked q = do {
     (found, q1) \<leftarrow> first_in_memory (bl_list (block q)) q;
     Some (found,
       if found = None then q1\<lparr>block := (block q1)\<lparr>new_process := False\<rparr>, suspender := TS_WAITING_PROCESS\<rparr> else q1) }"

text \<open>The comparison is done in \<open>unsigned long\<close>. A process blocked less than that waits for its turn.\<close>

definition must_suspend :: "t_pcb \<Rightarrow> t_queues \<Rightarrow> bool" where
  "must_suspend p q \<longleftrightarrow> millis q - blocked_time p \<ge> word_of_int (suspension_timeout q)"

definition run_suspend_process :: "pcb_ref \<Rightarrow> t_queues \<Rightarrow> t_queues option" where
  "run_suspend_process process q = do {
     p \<leftarrow> pcbs q process;
     q1 \<leftarrow> (if must_suspend p q \<and> pcb_state p = PS_BLOCK then transition_block_susp_block_no_mutex process q else Some q);
     q2 \<leftarrow> decrement_active_instances process q1;
     Some (if \<not> must_suspend p q
           then q2\<lparr>now := now q2 + (if millis q - blocked_time p > 500 then 500 else millis q - blocked_time p)\<rparr> else q2) }"

definition wait_process_blocked :: "bool \<Rightarrow> t_queues \<Rightarrow> t_queues option" where
  "wait_process_blocked woken q =
     (if \<not> new_process (block q) \<and> \<not> woken then None
      else Some (if bl_list (block q) \<noteq> [] \<and> suspender q = TS_WAITING_PROCESS then q\<lparr>suspender := TS_RUNNING\<rparr> else q))"

definition thread_suspender :: "bool \<Rightarrow> t_queues \<Rightarrow> (bool \<times> t_queues) option" where
  "thread_suspender woken q =
     (case suspender q of
        TS_RUNNING \<Rightarrow> do {
          (process, q1) \<leftarrow> get_process_blocked q;
          (case process of
             None \<Rightarrow> Some (True, q1)
           | Some r \<Rightarrow> map_option (Pair True) (run_suspend_process r q1)) }
      | TS_WAITING_PROCESS \<Rightarrow> map_option (Pair True) (wait_process_blocked woken q)
      | TS_BLOCKED \<Rightarrow> map_option (Pair True) (wait_unlock (suspender q) q)
      | TS_FINISHING \<Rightarrow> Some (False, q)
      | TS_FINISHED \<Rightarrow> Some (True, q))"

subsection \<open>The resumer\<close>

definition get_process_susp_ready :: "t_queues \<Rightarrow> (pcb_ref option \<times> t_queues) option" where
  "get_process_susp_ready q =
     (case bl_list (susp_ready q) of
        [] \<Rightarrow> Some (None, q\<lparr>resumer := TS_WAITING_PROCESS\<rparr>)
      | r # rs \<Rightarrow> map_option (Pair (Some r)) (increment_active_instances r q))"

definition resume_suspended_process :: "pcb_ref \<Rightarrow> t_queues \<Rightarrow> t_queues option" where
  "resume_suspended_process process q = do {
     st \<leftarrow> get_state_pcb process q;
     (succeeded, q1) \<leftarrow> (if st = PS_SUSP_READY then transition_susp_ready_no_mutex process q else Some (False, q));
     q2 \<leftarrow> decrement_active_instances process q1;
     Some (if \<not> succeeded then q2\<lparr>resumer := lock_thread_suspended (resumer q2)\<rparr> else q2) }"

definition wait_process_susp_ready :: "bool \<Rightarrow> t_queues \<Rightarrow> t_queues option" where
  "wait_process_susp_ready woken q =
     (if bl_list (susp_ready q) = [] \<and> \<not> woken then None
      else Some (if bl_list (susp_ready q) \<noteq> [] \<and> resumer q = TS_WAITING_PROCESS then q\<lparr>resumer := TS_RUNNING\<rparr> else q))"

definition thread_resumer :: "bool \<Rightarrow> t_queues \<Rightarrow> (bool \<times> t_queues) option" where
  "thread_resumer woken q =
     (case resumer q of
        TS_RUNNING \<Rightarrow> do {
          (process, q1) \<leftarrow> get_process_susp_ready q;
          (case process of
             None \<Rightarrow> Some (True, q1)
           | Some r \<Rightarrow> map_option (Pair True) (resume_suspended_process r q1)) }
      | TS_WAITING_PROCESS \<Rightarrow> map_option (Pair True) (wait_process_susp_ready woken q)
      | TS_BLOCKED \<Rightarrow> map_option (Pair True) (wait_unlock (resumer q) q)
      | TS_FINISHING \<Rightarrow> Some (False, q)
      | TS_FINISHED \<Rightarrow> Some (True, q))"

end
