(* ===== verification/Compaction.thy ===== *)
theory Compaction
  imports Suspension
begin

section \<open>Kernel Scheduler: compaction, resumption and memory system calls\<close>

text \<open>
  The routines of \<open>scheduler/compaction.c\<close> and the two system calls of \<open>syscalls/memory.c\<close>
  that may start them. \<open>routine_active\<close> keeps the routines apart: entering one is \<open>None\<close> while
  another runs. \<open>lock_all\<close> waits for EXEC to be empty while the CPU threads give their processes
  back, so its halves are named and can be steps of a run. The resumption routine loops as long
  as it makes progress and \<open>response_km_mem_alloc\<close> calls itself after every compaction; neither
  loop has a bound, and a run that never ends is \<open>None\<close>.
\<close>

subsection \<open>Entering and leaving a routine\<close>

definition terminate_routines_ks :: "t_queues \<Rightarrow> t_queues" where
  "terminate_routines_ks q = q\<lparr>terminate_routines := True\<rparr>"

definition routine_enter :: "t_queues \<Rightarrow> t_queues option" where
  "routine_enter q = (if routine_active q then None else Some (q\<lparr>routine_active := True\<rparr>))"

definition routine_leave :: "t_queues \<Rightarrow> t_queues" where
  "routine_leave q = q\<lparr>routine_active := False\<rparr>"

subsection \<open>The resumption routine\<close>

definition remove_of_the_list :: "t_queues \<Rightarrow> (bool \<times> t_queues) option" where
  "remove_of_the_list q =
     (case bl_list (susp_ready q) of
        [] \<Rightarrow> None
      | process # rest \<Rightarrow> do {
          st \<leftarrow> get_state_pcb process q;
          if st = PS_SUSP_READY then transition_susp_ready_no_mutex process q else Some (True, q) })"

partial_function (option) resumption_routine :: "bool \<Rightarrow> t_queues \<Rightarrow> t_queues option" where
  "resumption_routine keep_running q =
     (if \<not> blocking_list_is_empty (susp_ready q) \<and> keep_running
      then if is_compacting q then Some q
           else Option.bind (remove_of_the_list q) (\<lambda>(keep, q1). resumption_routine keep q1)
      else Some q)"

declare resumption_routine.simps [code]

definition resumption_routine_thread :: "t_queues \<Rightarrow> t_queues option" where
  "resumption_routine_thread q = do {
     q1 \<leftarrow> routine_enter q;
     q2 \<leftarrow> (if \<not> terminate_routines q1
            then map_option (\<lambda>q3. unlock_threads_suspended (snd (set_is_resuming False q3)))
                   (resumption_routine True (lock_threads_suspended q1))
            else Some q1);
     Some (decrement_thread_counter (routine_leave q2)) }"

subsection \<open>The compaction routine\<close>

definition lock_queues_and_threads :: "t_queues \<Rightarrow> t_queues" where
  "lock_queues_and_threads q = lock_threads_suspended (q\<lparr>ready := lock_queue_ready (ready q)\<rparr>)"

definition lock_all :: "t_queues \<Rightarrow> t_queues option" where
  "lock_all q = wait_queue_exec_empty_with_syscalls (lock_queues_and_threads q)"

definition compaction_finished :: "t_queues \<Rightarrow> (bool \<times> t_queues) option" where
  "compaction_finished q = do {
     (op, q1) \<leftarrow> receive_km_opcode [OP_COMPACTION_DONE] q;
     if op = OP_CODE_ERROR then Some (False, q1) else map_option (Pair True) (skip_string q1) }"

definition compaction :: "t_queues \<Rightarrow> t_queues option" where
  "compaction q =
     (case send_to_km (send_string OP_CAN_COMPACT ''Start compaction'') q of
        (False, q1) \<Rightarrow> close_kernel_scheduler SR_KERNEL_MEMORY_SEND_ERROR q1
      | (True, q1) \<Rightarrow> map_option snd (compaction_finished q1))"

definition create_thread_unlock_queue_ready :: "t_queues \<Rightarrow> t_queues" where
  "create_thread_unlock_queue_ready q =
     (let q1 = increment_thread_counter q
      in if threads_ok q1 then q1\<lparr>spawned := spawned q1 @ [Unlock_queue_ready_thread]\<rparr> else decrement_thread_counter q1)"

definition thread_unlock_queue_ready :: "t_queues \<Rightarrow> t_queues option" where
  "thread_unlock_queue_ready q = do {
     q1 \<leftarrow> wait_queue_exec_empty q;
     Some (decrement_thread_counter
            (if \<not> compaction_active q1 then q1\<lparr>ready := unlock_queue_ready (ready q1)\<rparr> else q1)) }"

text \<open>What is left once EXEC is empty.\<close>

definition compact_and_release :: "t_queues \<Rightarrow> t_queues option" where
  "compact_and_release q =
     map_option (\<lambda>q1. create_resumption_routine_thread
                        (create_thread_unlock_queue_ready (snd (set_is_compacting False q1)))) (compaction q)"

definition routine_compaction :: "t_queues \<Rightarrow> t_queues option" where
  "routine_compaction q =
     (case set_is_compacting True q of
        (True, q1) \<Rightarrow> Some q1
      | (False, q1) \<Rightarrow> do {
          q2 \<leftarrow> routine_enter q1;
          q3 \<leftarrow> (if \<not> terminate_routines q2 then Option.bind (lock_all q2) compact_and_release else Some q2);
          Some (routine_leave q3) })"

subsection \<open>Allocating and freeing memory\<close>

text \<open>The comparison converts the \<open>int\<close> to \<open>uint32_t\<close>.\<close>

definition has_space :: "t_syscall_memory \<Rightarrow> t_queues \<Rightarrow> (bool \<times> t_queues) option" where
  "has_space mem_alloc q =
     map_option (\<lambda>(space, q1). ((word_of_int space :: u32) \<ge> sm_size mem_alloc, q1)) (space_available q)"

partial_function (option) response_km_mem_alloc :: "t_queues \<Rightarrow> (bool \<times> t_queues) option" where
  "response_km_mem_alloc q =
     Option.bind (receive_km_opcode
         [OP_MEMORY_ALLOCATED, OP_SEGMENT_SIZE_EXCEEDED, OP_NOT_ENOUGH_MEMORY, OP_COMPACTION_NEEDED] q) (\<lambda>(op, q1).
       if op = OP_MEMORY_ALLOCATED then map_option (Pair True) (skip_string q1)
       else if op = OP_SEGMENT_SIZE_EXCEEDED then map_option (Pair False) (skip_string q1)
       else if op = OP_NOT_ENOUGH_MEMORY then map_option (Pair False) (skip_string q1)
       else if op = OP_COMPACTION_NEEDED
            then Option.bind (Option.bind (skip_string q1) routine_compaction) response_km_mem_alloc
       else Some (True, q1))"

declare response_km_mem_alloc.simps [code]

definition allocate_memory :: "t_syscall_memory \<Rightarrow> t_queues \<Rightarrow> (bool \<times> t_queues) option" where
  "allocate_memory mem_alloc q = do {
     (enough, q1) \<leftarrow> has_space mem_alloc q;
     if \<not> enough then Some (False, q1)
     else (case send_to_km (send_buffer OP_CREATE_SEGMENT (encode_syscall_memory mem_alloc)) q1 of
             (False, q2) \<Rightarrow> map_option (Pair False) (close_kernel_scheduler SR_KERNEL_MEMORY_SEND_ERROR q2)
           | (True, q2) \<Rightarrow> response_km_mem_alloc q2) }"

definition response_km_mem_free :: "t_queues \<Rightarrow> (bool \<times> t_queues) option" where
  "response_km_mem_free q = do {
     (op, q1) \<leftarrow> receive_km_opcode [OP_MEMORY_FREED] q;
     if op = OP_CODE_ERROR then Some (False, q1) else map_option (Pair True) (skip_string q1) }"

definition free_memory :: "t_syscall_memory \<Rightarrow> t_queues \<Rightarrow> (bool \<times> t_queues) option" where
  "free_memory mem_free q =
     (case send_to_km (send_buffer OP_DELETE_SEGMENT (encode_syscall_memory mem_free)) q of
        (False, q1) \<Rightarrow> map_option (Pair False) (close_kernel_scheduler SR_KERNEL_MEMORY_SEND_ERROR q1)
      | (True, q1) \<Rightarrow>
          map_option (\<lambda>(ok, q2). (ok, create_resumption_routine_thread q2)) (response_km_mem_free q1))"

end
