(* ===== verification/Mutex.thy ===== *)
theory Mutex
  imports Queues_System
begin

section \<open>Kernel Scheduler: mutexes with priority inheritance\<close>

text \<open>
  \<open>syscalls/mutex.c\<close>. A mutex is found by its name in \<open>mutex_list\<close> and is never removed before
  shutdown, so a \<open>t_mutex*\<close> is its name. \<open>next_priority\<close> is the priority that the holder inherits
  from the first process that waits. The plain C mutexes of the mutexes held along a chain of
  inheritance are an argument, \<open>held\<close>: locking one of them again never returns and is \<open>None\<close>, as
  is the use of a null pointer.
\<close>

subsection \<open>The list of mutexes\<close>

datatype t_mutex_result =
    MR_MUTEX_CREATED | MR_MUTEX_NAME_ALREADY_EXISTS | MR_MUTEX_NAME_NOT_FOUND | MR_MUTEX_LOCKED
  | MR_WAITING_MUTEX | MR_MUTEX_UNLOCKED | MR_PROCESS_HAS_NO_LOCKED_MUTEX

definition create_mutex :: "bool \<Rightarrow> t_mutex" where
  "create_mutex active =
     \<lparr>next_priority = INT_MAX_PRIORITY, priority_active = active, mutex_waiters = [], current_process = None, mutex_state = 1\<rparr>"

definition put_mutex :: "string \<Rightarrow> t_mutex \<Rightarrow> t_queues \<Rightarrow> t_queues" where
  "put_mutex name m q = q\<lparr>mutex_list := (mutex_list q)(name \<mapsto> m)\<rparr>"

definition create_and_add_mutex :: "string \<Rightarrow> bool \<Rightarrow> t_queues \<Rightarrow> t_mutex_result \<times> t_queues" where
  "create_and_add_mutex name active q =
     (if mutex_list q name = None then (MR_MUTEX_CREATED, put_mutex name (create_mutex active) q)
      else (MR_MUTEX_NAME_ALREADY_EXISTS, q))"

subsection \<open>The priorities of a process\<close>

definition has_higher_priority_than :: "int \<Rightarrow> int \<Rightarrow> bool" where
  "has_higher_priority_than p1 p2 \<longleftrightarrow> p1 < p2"

definition add_priority :: "int \<Rightarrow> int list \<Rightarrow> int list" where
  "add_priority prio xs = (let slot = sorted_slot has_higher_priority_than prio xs in take slot xs @ prio # drop slot xs)"

definition remove_priority_list :: "int list \<Rightarrow> int \<Rightarrow> int list" where
  "remove_priority_list xs prio = remove1 prio xs"

definition insert_priority :: "pcb_ref \<Rightarrow> int \<Rightarrow> t_queues \<Rightarrow> t_queues option" where
  "insert_priority pcb prio q =
     update_pcb pcb (\<lambda>p. p\<lparr>priority_list := add_priority prio (priority_list p),
                            pcb_priority := (if prio < pcb_priority p then prio else pcb_priority p)\<rparr>) q"

text \<open>
  The locked part of \<open>replace_priority\<close> and of \<open>remove_priority\<close>: the priority becomes the first
  of the list. The result says whether it changed, and the new one.
\<close>

definition set_first_priority :: "pcb_ref \<Rightarrow> (int list \<Rightarrow> int list) \<Rightarrow> t_queues \<Rightarrow> ((bool \<times> int) \<times> t_queues) option" where
  "set_first_priority pcb change q =
     (case pcbs q pcb of
        None \<Rightarrow> None
      | Some p \<Rightarrow>
          (case change (priority_list p) of
             [] \<Rightarrow> None
           | prio # rest \<Rightarrow>
               Some ((prio \<noteq> pcb_priority p, prio),
                     q\<lparr>pcbs := (pcbs q)(pcb \<mapsto> p\<lparr>priority_list := prio # rest, pcb_priority := prio\<rparr>)\<rparr>)))"

definition remove_priority :: "pcb_ref \<Rightarrow> int \<Rightarrow> t_queues \<Rightarrow> (bool \<times> t_queues) option" where
  "remove_priority pcb prio q =
     map_option (\<lambda>((changed, first), q'). (changed, q')) (set_first_priority pcb (\<lambda>xs. remove_priority_list xs prio) q)"

definition remove_pcb_list :: "pcb_ref list \<Rightarrow> pcb_ref \<Rightarrow> bool \<times> pcb_ref list" where
  "remove_pcb_list xs pcb = (pcb \<in> set xs, remove1 pcb xs)"

subsection \<open>Priority inheritance\<close>

text \<open>The first half of \<open>replace_priority\<close>, up to the call of \<open>propagate_priority_transitive\<close>.\<close>

definition exchange_priority :: "pcb_ref \<Rightarrow> int \<Rightarrow> int \<Rightarrow> t_queues \<Rightarrow> ((bool \<times> int) \<times> t_queues) option" where
  "exchange_priority pcb old_priority priority_new q = do {
     ((act, prio), q1) \<leftarrow> set_first_priority pcb (\<lambda>xs. add_priority priority_new (remove_priority_list xs old_priority)) q;
     if act then map_option (Pair (True, prio)) (update_priority pcb q1) else Some ((False, prio), q1) }"

partial_function (option) propagate_priority_transitive :: "string list \<Rightarrow> pcb_ref \<Rightarrow> int \<Rightarrow> t_queues \<Rightarrow> t_queues option" where
  "propagate_priority_transitive held pcb priority_new q =
     Option.bind (get_mutex_blocking pcb q) (\<lambda>expected.
       case expected of
         None \<Rightarrow> Some q
       | Some name \<Rightarrow>
           (if name \<in> set held then None
            else Option.bind (mutex_list q name) (\<lambda>m.
              if \<not> priority_active m then Some q
              else (case remove_pcb_list (mutex_waiters m) pcb of
                 (found, others) \<Rightarrow>
                   (if \<not> found then Some q
                    else Option.bind (insert_pcb_sorted others pcb q) (\<lambda>(waiters, slot).
                      (let m1 = m\<lparr>mutex_waiters := waiters\<rparr>
                       in if slot = 0 \<and> priority_new \<noteq> next_priority m
                          then Option.bind (current_process m) (\<lambda>holder.
                                 Option.bind (exchange_priority holder (next_priority m) priority_new
                                     (put_mutex name (m1\<lparr>next_priority := priority_new\<rparr>) q)) (\<lambda>((act, prio), q1).
                                   if act then propagate_priority_transitive (name # held) holder prio q1 else Some q1))
                          else Some (put_mutex name m1 q))))))))"

declare propagate_priority_transitive.simps [code]

definition replace_priority :: "string list \<Rightarrow> pcb_ref \<Rightarrow> int \<Rightarrow> int \<Rightarrow> t_queues \<Rightarrow> t_queues option" where
  "replace_priority held pcb old_priority priority_new q = do {
     ((act, prio), q1) \<leftarrow> exchange_priority pcb old_priority priority_new q;
     if act then propagate_priority_transitive held pcb prio q1 else Some q1 }"

subsection \<open>Locking and unlocking\<close>

definition change_mutex :: "string \<Rightarrow> (t_mutex \<Rightarrow> t_mutex) \<Rightarrow> t_queues \<Rightarrow> t_queues" where
  "change_mutex name f q = q\<lparr>mutex_list := (mutex_list q)(name := map_option f (mutex_list q name))\<rparr>"

text \<open>A process that has to wait: it remembers the mutex and leaves EXEC.\<close>

definition wait_for_mutex :: "string \<Rightarrow> pcb_ref \<Rightarrow> t_queues \<Rightarrow> t_queues option" where
  "wait_for_mutex name pcb q = Option.bind (set_mutex_blocking pcb (Some name) q) (transition_exec_block pcb)"

definition mutex_lock :: "string \<Rightarrow> pcb_ref \<Rightarrow> t_queues \<Rightarrow> (t_mutex_result \<times> t_queues) option" where
  "mutex_lock name pcb q = do {
     priority_pcb \<leftarrow> get_priority_pcb pcb q;
     m \<leftarrow> mutex_list q name;
     (ret, q1) \<leftarrow>
       (if mutex_state m = 1
        then map_option (Pair MR_MUTEX_LOCKED)
               (insert_priority pcb INT_MAX_PRIORITY
                  (put_mutex name (m\<lparr>current_process := Some pcb, next_priority := INT_MAX_PRIORITY\<rparr>) q))
        else if priority_active m
        then do {
          (waiters, slot) \<leftarrow> insert_pcb_sorted (mutex_waiters m) pcb q;
          q2 \<leftarrow> (if slot = 0
                 then do {
                   holder \<leftarrow> current_process m;
                   q2 \<leftarrow> replace_priority [name] holder (next_priority m) priority_pcb
                          (put_mutex name (m\<lparr>mutex_waiters := waiters\<rparr>) q);
                   update_lowest_exec_priority (change_mutex name (\<lambda>m. m\<lparr>next_priority := priority_pcb\<rparr>) q2) }
                 else Some (put_mutex name (m\<lparr>mutex_waiters := waiters\<rparr>) q));
          map_option (Pair MR_WAITING_MUTEX) (wait_for_mutex name pcb q2) }
        else map_option (Pair MR_WAITING_MUTEX)
               (wait_for_mutex name pcb (put_mutex name (m\<lparr>mutex_waiters := mutex_waiters m @ [pcb]\<rparr>) q)));
     Some (ret, change_mutex name (\<lambda>m. m\<lparr>mutex_state := mutex_state m - 1\<rparr>) q1) }"

text \<open>The part of \<open>mutex_unlock\<close> that hands the mutex to the first process that waits.\<close>

definition hand_over :: "string \<Rightarrow> t_mutex \<Rightarrow> t_queues \<Rightarrow> t_queues option" where
  "hand_over name m q =
     (case mutex_waiters m of
        [] \<Rightarrow> None
      | heir # others \<Rightarrow> do {
          q1 \<leftarrow> set_mutex_blocking heir None (put_mutex name (m\<lparr>mutex_waiters := others, current_process := Some heir\<rparr>) q);
          q2 \<leftarrow> (if priority_active m
                 then do {
                   next \<leftarrow> (if mutex_state m = -1 then Some INT_MAX_PRIORITY
                            else (case others of [] \<Rightarrow> None | r # rs \<Rightarrow> get_priority_pcb r q1));
                   insert_priority heir next (change_mutex name (\<lambda>m. m\<lparr>next_priority := next\<rparr>) q1) }
                 else Some q1);
          transition_unlock heir q2 })"

definition mutex_unlock :: "string \<Rightarrow> pcb_ref \<Rightarrow> t_queues \<Rightarrow> (t_mutex_result \<times> t_queues) option" where
  "mutex_unlock name pcb q = do {
     m \<leftarrow> mutex_list q name;
     if current_process m \<noteq> Some pcb then Some (MR_PROCESS_HAS_NO_LOCKED_MUTEX, q)
     else do {
       q1 \<leftarrow> (if priority_active m
              then do {
                (updated, q1) \<leftarrow> remove_priority pcb (next_priority m) q;
                if updated then update_lowest_exec_priority q1 else Some q1 }
              else Some q);
       q2 \<leftarrow> (if mutex_state m = 0
              then Some (put_mutex name (m\<lparr>current_process := None, next_priority := INT_MAX_PRIORITY\<rparr>) q1)
              else if mutex_state m < 0 then hand_over name m q1
              else Some q1);
       Some (MR_MUTEX_UNLOCKED, change_mutex name (\<lambda>m. m\<lparr>mutex_state := mutex_state m + 1\<rparr>) q2) } }"

definition list_mutex_lock :: "string \<Rightarrow> pcb_ref \<Rightarrow> t_queues \<Rightarrow> (t_mutex_result \<times> t_queues) option" where
  "list_mutex_lock name pcb q =
     (if mutex_list q name = None then Some (MR_MUTEX_NAME_NOT_FOUND, q) else mutex_lock name pcb q)"

definition list_mutex_unlock :: "string \<Rightarrow> pcb_ref \<Rightarrow> t_queues \<Rightarrow> (t_mutex_result \<times> t_queues) option" where
  "list_mutex_unlock name pcb q =
     (if mutex_list q name = None then Some (MR_MUTEX_NAME_NOT_FOUND, q) else mutex_unlock name pcb q)"

text \<open>Destroying the mutexes wakes up everyone who waits.\<close>

fun release_waiters :: "pcb_ref list \<Rightarrow> t_queues \<Rightarrow> t_queues option" where
  "release_waiters [] q = Some q"
| "release_waiters (r # rs) q = do {
     q1 \<leftarrow> set_mutex_blocking r None q;
     q2 \<leftarrow> transition_unlock r q1;
     release_waiters rs q2 }"

definition destroy_mutex :: "string \<Rightarrow> t_queues \<Rightarrow> t_queues option" where
  "destroy_mutex name q = do {
     m \<leftarrow> mutex_list q name;
     q1 \<leftarrow> release_waiters (mutex_waiters m) (put_mutex name (m\<lparr>mutex_waiters := []\<rparr>) q);
     Some (q1\<lparr>mutex_list := (mutex_list q1)(name := None)\<rparr>) }"

fun destroy_list_mutex :: "string list \<Rightarrow> t_queues \<Rightarrow> t_queues option" where
  "destroy_list_mutex [] q = Some q"
| "destroy_list_mutex (name # names) q = Option.bind (destroy_mutex name q) (destroy_list_mutex names)"

lemma propagate_replace:
  "propagate_priority_transitive held pcb priority_new q =
     (case get_mutex_blocking pcb q of
        None \<Rightarrow> None
      | Some None \<Rightarrow> Some q
      | Some (Some name) \<Rightarrow>
          (if name \<in> set held then None
           else (case mutex_list q name of
              None \<Rightarrow> None
            | Some m \<Rightarrow>
                (if \<not> priority_active m \<or> pcb \<notin> set (mutex_waiters m) then Some q
                 else (case insert_pcb_sorted (remove1 pcb (mutex_waiters m)) pcb q of
                         None \<Rightarrow> None
                       | Some (waiters, slot) \<Rightarrow>
                           (if slot = 0 \<and> priority_new \<noteq> next_priority m
                            then (case current_process m of
                                    None \<Rightarrow> None
                                  | Some holder \<Rightarrow> replace_priority (name # held) holder (next_priority m) priority_new
                                      (put_mutex name (m\<lparr>mutex_waiters := waiters, next_priority := priority_new\<rparr>) q))
                            else Some (put_mutex name (m\<lparr>mutex_waiters := waiters\<rparr>) q)))))))"
  by (subst propagate_priority_transitive.simps)
     (auto simp: remove_pcb_list_def replace_priority_def Let_def split: option.splits prod.splits)

end
