(* ===== verification/Sched_Cpu.thy ===== *)
theory Sched_Cpu
  imports Compaction Mutex Sched_Io
begin

section \<open>Kernel Scheduler: the CPU threads and the server\<close>

text \<open>
  \<open>connections/cpu.c\<close> and \<open>connections/server.c\<close>. A CPU thread is the record \<open>t_cpu_thread\<close>; its
  handlers work on the thread, the I/O slots and the queues. One iteration of
  \<open>handle_cpu_client\<close> is one function, whose flag says whether the loop goes on; a wait
  inside it (for a process, for EXEC to be empty) is \<open>None\<close>.
\<close>

subsection \<open>Data\<close>

datatype t_preemption_reason =
    PR_NO_PREEMPTION | PR_QUANTUM_END | PR_HIGHER_PRIORITY_PROCESS | PR_COMPACTION | PR_PROCESS_END
  | PR_FIRST_CYCLE | PR_IO | PR_MUTEX_LOCKED | PR_NOT_ENOUGH_MEMORY | PR_SEGMENTATION_FAULT
  | PR_MUTEX_NAME_ALREADY_EXISTS | PR_MUTEX_NAME_NOT_FOUND | PR_PROCESS_HAS_NO_LOCKED_MUTEX

definition PREEMPTION_REASONS :: "t_preemption_reason \<Rightarrow> string" where
  "PREEMPTION_REASONS r = (case r of
       PR_NO_PREEMPTION \<Rightarrow> ''no preemption occurred''
     | PR_QUANTUM_END \<Rightarrow> ''preemption by quantum end''
     | PR_HIGHER_PRIORITY_PROCESS \<Rightarrow> ''preemption by process priority''
     | PR_COMPACTION \<Rightarrow> ''preemption by compaction''
     | PR_PROCESS_END \<Rightarrow> ''process termination''
     | PR_FIRST_CYCLE \<Rightarrow> ''first CPU cycle''
     | PR_IO \<Rightarrow> ''IO operation''
     | PR_MUTEX_LOCKED \<Rightarrow> ''mutex blocked''
     | PR_NOT_ENOUGH_MEMORY \<Rightarrow> ''there is not enough memory for this instruction''
     | PR_SEGMENTATION_FAULT \<Rightarrow> ''segmentation fault''
     | PR_MUTEX_NAME_ALREADY_EXISTS \<Rightarrow> ''a mutex with that name already exists''
     | PR_MUTEX_NAME_NOT_FOUND \<Rightarrow> ''no mutex with that name exists''
     | PR_PROCESS_HAS_NO_LOCKED_MUTEX \<Rightarrow> ''this process cannot unlock this mutex'')"

record t_cpu_thread =
  ct_id :: string
  ct_pcb :: "pcb_ref option"
  keep_running :: bool
  ct_counter :: u64
  preemption_reason :: t_preemption_reason
  from_cpu :: bytes
  cpu_open :: bool
  to_cpu :: "bytes list"

type_synonym cpu_state = "t_cpu_thread \<times> t_io_slots \<times> t_queues"

definition init_data_thread_cpu :: "string \<Rightarrow> bytes \<Rightarrow> t_cpu_thread" where
  "init_data_thread_cpu name stream =
     \<lparr>ct_id = name, ct_pcb = None, keep_running = True, ct_counter = 0, preemption_reason = PR_FIRST_CYCLE,
      from_cpu = stream, cpu_open = True, to_cpu = []\<rparr>"

definition send_to_cpu :: "bytes \<Rightarrow> t_cpu_thread \<Rightarrow> bool \<times> t_cpu_thread" where
  "send_to_cpu b d = (if cpu_open d then (True, d\<lparr>to_cpu := to_cpu d @ [b]\<rparr>) else (False, d))"

subsection \<open>Preemption\<close>

definition manage_queue_blocked :: "cpu_state \<Rightarrow> cpu_state option" where
  "manage_queue_blocked = (\<lambda>(d, io, q).
     if preemption_reason d = PR_NO_PREEMPTION \<and> is_queue_ready_blocked (ready q)
     then do {
       pcb \<leftarrow> ct_pcb d;
       q1 \<leftarrow> transition_exec_ready pcb q;
       Some (d\<lparr>preemption_reason := PR_COMPACTION\<rparr>, io, q1) }
     else Some (d, io, q))"

definition manage_end_quantum :: "cpu_state \<Rightarrow> cpu_state option" where
  "manage_end_quantum = (\<lambda>(d, io, q).
     if preemption_reason d = PR_NO_PREEMPTION \<and> \<not> is_queue_ready_empty (ready q)
     then do {
       pcb \<leftarrow> ct_pcb d;
       prio \<leftarrow> get_priority_pcb pcb q;
       algorithm \<leftarrow> get_algorithm_ready_queue (ready q) prio;
       if algorithm = SA_RR \<and> quantum_ended (exec q) (ct_counter d) (millis q)
       then do {
         q1 \<leftarrow> transition_exec_ready pcb q;
         Some (d\<lparr>preemption_reason := PR_QUANTUM_END\<rparr>, io, q1) }
       else Some (d, io, q) }
     else Some (d, io, q))"

definition manage_preemption_priority :: "cpu_state \<Rightarrow> cpu_state option" where
  "manage_preemption_priority = (\<lambda>(d, io, q).
     if preemption_reason d \<noteq> PR_NO_PREEMPTION \<or> \<not> preemption (exec q) \<or> ct_pcb d = None then Some (d, io, q)
     else do {
       pcb \<leftarrow> ct_pcb d;
       preempted_priority \<leftarrow> get_priority_pcb pcb q;
       if \<not> is_lowest_priority_in_exec (exec q) preempted_priority \<or> preempted_priority \<le> highest_priority (ready q)
       then Some (d, io, q)
       else (case transition_take_ready_next_no_mutex (ready q) of
               (None, rd) \<Rightarrow> Some (d, io, q\<lparr>ready := rd\<rparr>)
             | (Some new_pcb, rd) \<Rightarrow> do {
                 q1 \<leftarrow> transition_exec_ready pcb (q\<lparr>ready := rd\<rparr>);
                 q2 \<leftarrow> run_process new_pcb q1;
                 Some (d\<lparr>preemption_reason := PR_HIGHER_PRIORITY_PROCESS, ct_pcb := Some new_pcb, ct_counter := millis q2\<rparr>,
                       io, q2) }) })"

definition send_preemption :: "t_cpu_thread \<Rightarrow> bool \<times> t_cpu_thread" where
  "send_preemption d =
     send_to_cpu (send_string (if preemption_reason d \<noteq> PR_NO_PREEMPTION then OP_INTERRUPT else OP_NO_INTERRUPT)
                    (PREEMPTION_REASONS (preemption_reason d))) d"

subsection \<open>Giving a process to the CPU\<close>

definition manage_request_process :: "cpu_state \<Rightarrow> cpu_state option" where
  "manage_request_process = (\<lambda>(d, io, q).
     if preemption_reason d \<noteq> PR_NO_PREEMPTION
     then do {
       (pcb, q1) \<leftarrow> dispatch q;
       Some (d\<lparr>ct_counter := millis q, ct_pcb := pcb\<rparr>, io, q1) }
     else Some (d, io, q))"

definition send_code :: "t_cpu_thread \<Rightarrow> t_queues \<Rightarrow> (bool \<times> t_cpu_thread) option" where
  "send_code d q = do {
     pcb \<leftarrow> ct_pcb d;
     p \<leftarrow> pcbs q pcb;
     Some (send_to_cpu (send_buffer OP_RESUME_PROCESS (u32_bytes (pcb_pid p))) d) }"

definition send_pid :: "cpu_state \<Rightarrow> (bool \<times> cpu_state) option" where
  "send_pid = (\<lambda>(d, io, q).
     if preemption_reason d = PR_NO_PREEMPTION then Some (True, d, io, q)
     else do {
       (sent, d1) \<leftarrow> send_code d q;
       Some (if sent then (True, d1\<lparr>preemption_reason := PR_NO_PREEMPTION\<rparr>, io, q)
             else (False, d1\<lparr>keep_running := False\<rparr>, io, q)) })"

subsection \<open>System calls\<close>

text \<open>The process ends, or stays for the next round.\<close>

definition end_process :: "t_process_end_reason \<Rightarrow> t_preemption_reason \<Rightarrow> cpu_state \<Rightarrow> cpu_state option" where
  "end_process reason preempted = (\<lambda>(d, io, q). do {
     pcb \<leftarrow> ct_pcb d;
     q1 \<leftarrow> transition_exec_exit pcb reason q;
     Some (d\<lparr>preemption_reason := preempted\<rparr>, io, q1) })"

definition skip_cpu_string :: "t_cpu_thread \<Rightarrow> t_cpu_thread option" where
  "skip_cpu_string d = map_option (\<lambda>(s, rest). d\<lparr>from_cpu := rest\<rparr>) (receive_string (from_cpu d))"

definition receive_cpu_name :: "t_cpu_thread \<Rightarrow> (string \<times> t_cpu_thread) option" where
  "receive_cpu_name d =
     (case receive_string (from_cpu d) of
        Some (Some b, rest) \<Rightarrow> Some (string_of_bytes b, d\<lparr>from_cpu := rest\<rparr>)
      | _ \<Rightarrow> None)"

definition handle_cycle_cpu_ok :: "cpu_state \<Rightarrow> cpu_state option" where
  "handle_cycle_cpu_ok = (\<lambda>(d, io, q). map_option (\<lambda>d1. (d1, io, q)) (skip_cpu_string d))"

definition handle_segmentation_fault :: "cpu_state \<Rightarrow> cpu_state option" where
  "handle_segmentation_fault = (\<lambda>(d, io, q).
     Option.bind (skip_cpu_string d) (\<lambda>d1. end_process PER_SEGMENTATION_FAULT PR_SEGMENTATION_FAULT (d1, io, q)))"

definition handle_syscall_mutex_create :: "cpu_state \<Rightarrow> cpu_state option" where
  "handle_syscall_mutex_create = (\<lambda>(d, io, q). do {
     (id_mutex, d1) \<leftarrow> receive_cpu_name d;
     (case create_and_add_mutex id_mutex True q of
        (ret, q1) \<Rightarrow>
          (if ret = MR_MUTEX_NAME_ALREADY_EXISTS
           then end_process PER_MUTEX_NAME_ALREADY_EXISTS PR_MUTEX_NAME_ALREADY_EXISTS (d1, io, q1)
           else Some (d1, io, q1))) })"

definition handle_syscall_mutex_lock :: "cpu_state \<Rightarrow> cpu_state option" where
  "handle_syscall_mutex_lock = (\<lambda>(d, io, q). do {
     (id_mutex, d1) \<leftarrow> receive_cpu_name d;
     pcb \<leftarrow> ct_pcb d;
     (ret, q1) \<leftarrow> list_mutex_lock id_mutex pcb q;
     (case ret of
        MR_MUTEX_NAME_NOT_FOUND \<Rightarrow> end_process PER_MUTEX_NAME_NOT_FOUND PR_MUTEX_NAME_NOT_FOUND (d1, io, q1)
      | MR_WAITING_MUTEX \<Rightarrow> Some (d1\<lparr>preemption_reason := PR_MUTEX_LOCKED\<rparr>, io, q1)
      | _ \<Rightarrow> Some (d1, io, q1)) })"

definition handle_syscall_mutex_unlock :: "cpu_state \<Rightarrow> cpu_state option" where
  "handle_syscall_mutex_unlock = (\<lambda>(d, io, q). do {
     (id_mutex, d1) \<leftarrow> receive_cpu_name d;
     pcb \<leftarrow> ct_pcb d;
     (ret, q1) \<leftarrow> list_mutex_unlock id_mutex pcb q;
     (case ret of
        MR_MUTEX_NAME_NOT_FOUND \<Rightarrow> end_process PER_MUTEX_NAME_NOT_FOUND PR_MUTEX_NAME_NOT_FOUND (d1, io, q1)
      | MR_PROCESS_HAS_NO_LOCKED_MUTEX \<Rightarrow>
          end_process PER_PROCESS_HAS_NO_LOCKED_MUTEX PR_PROCESS_HAS_NO_LOCKED_MUTEX (d1, io, q1)
      | _ \<Rightarrow> Some (d1, io, q1)) })"

definition handle_syscall_memory_allocation :: "cpu_state \<Rightarrow> cpu_state option" where
  "handle_syscall_memory_allocation = (\<lambda>(d, io, q). do {
     (request, rest) \<leftarrow> receive_struct decode_syscall_memory (from_cpu d);
     (allocated, q1) \<leftarrow> allocate_memory request q;
     let d1 = d\<lparr>from_cpu := rest\<rparr>;
     if \<not> allocated then end_process PER_NOT_ENOUGH_MEMORY PR_NOT_ENOUGH_MEMORY (d1, io, q1) else Some (d1, io, q1) })"

definition handle_syscall_memory_free :: "cpu_state \<Rightarrow> cpu_state option" where
  "handle_syscall_memory_free = (\<lambda>(d, io, q). do {
     (request, rest) \<leftarrow> receive_struct decode_syscall_memory (from_cpu d);
     (freed, q1) \<leftarrow> free_memory request q;
     Some ((if \<not> freed then d\<lparr>from_cpu := rest, keep_running := False\<rparr> else d\<lparr>from_cpu := rest\<rparr>), io, q1) })"

text \<open>
  The three I/O system calls differ in the interface. A request that does not arrive is a null
  pointer, which is queued like any other and read when the interface serves it.
\<close>

definition handle_syscall_io :: "t_io_type \<Rightarrow> cpu_state \<Rightarrow> cpu_state option" where
  "handle_syscall_io t = (\<lambda>(d, io, q). do {
     (request, sz, rest) \<leftarrow> receive_buffer (from_cpu d);
     pcb \<leftarrow> ct_pcb d;
     slot \<leftarrow> io t;
     (queued, slot1) \<leftarrow> enqueue_io_request (case request of None \<Rightarrow> [] | Some b \<Rightarrow> b) slot pcb q;
     q1 \<leftarrow> (if queued then transition_exec_block pcb q else transition_exec_exit pcb PER_IO_FAILURE q);
     Some (d\<lparr>from_cpu := rest, preemption_reason := PR_IO\<rparr>, io(t \<mapsto> slot1), q1) })"

definition handle_syscall_io_sleep :: "cpu_state \<Rightarrow> cpu_state option" where
  "handle_syscall_io_sleep = handle_syscall_io IO_SLEEP"

definition handle_syscall_io_stdout :: "cpu_state \<Rightarrow> cpu_state option" where
  "handle_syscall_io_stdout = handle_syscall_io IO_STDOUT"

definition handle_syscall_io_stdin :: "cpu_state \<Rightarrow> cpu_state option" where
  "handle_syscall_io_stdin = handle_syscall_io IO_STDIN"

definition handle_syscall_start_process :: "cpu_state \<Rightarrow> cpu_state option" where
  "handle_syscall_start_process = (\<lambda>(d, io, q). do {
     (packet, rest) \<leftarrow> receive_packet (from_cpu d);
     instructions_file \<leftarrow> element packet 0;
     prio \<leftarrow> element packet 1;
     if length prio < 4 then None
     else do {
       q1 \<leftarrow> transition_new_ready (string_of_bytes instructions_file) (bytes_int prio) q;
       Some (d\<lparr>from_cpu := rest\<rparr>, io, q1) } })"

definition handle_syscall_exit :: "cpu_state \<Rightarrow> cpu_state option" where
  "handle_syscall_exit = (\<lambda>(d, io, q).
     Option.bind (skip_cpu_string d) (\<lambda>d1. end_process PER_EXIT_INSTRUCTION PR_PROCESS_END (d1, io, q)))"

definition handle_invalid_syscall :: "cpu_state \<Rightarrow> cpu_state option" where
  "handle_invalid_syscall = (\<lambda>(d, io, q). Some (d\<lparr>keep_running := False\<rparr>, io, q))"

subsection \<open>The loop\<close>

definition syscall_handlers :: "int \<Rightarrow> cpu_state \<Rightarrow> cpu_state option" where
  "syscall_handlers op =
     (if op = OP_CPU_CYCLE_OK then handle_cycle_cpu_ok
      else if op = OP_SEG_FAULT then handle_segmentation_fault
      else if op = OP_SYSCALL_MUTEX_CREATE then handle_syscall_mutex_create
      else if op = OP_SYSCALL_MUTEX_LOCK then handle_syscall_mutex_lock
      else if op = OP_SYSCALL_MUTEX_UNLOCK then handle_syscall_mutex_unlock
      else if op = OP_SYSCALL_MEM_ALLOC then handle_syscall_memory_allocation
      else if op = OP_SYSCALL_MEM_FREE then handle_syscall_memory_free
      else if op = OP_SYSCALL_SLEEP then handle_syscall_io_sleep
      else if op = OP_SYSCALL_STDOUT then handle_syscall_io_stdout
      else if op = OP_SYSCALL_STDIN then handle_syscall_io_stdin
      else if op = OP_SYSCALL_INIT_PROC then handle_syscall_start_process
      else if op = OP_SYSCALL_EXIT then handle_syscall_exit
      else handle_invalid_syscall)"

definition is_syscall :: "int \<Rightarrow> bool" where
  "is_syscall op \<longleftrightarrow> OP_SYSCALL_MUTEX_CREATE \<le> op \<and> op \<le> OP_SYSCALL_EXIT"

definition serve_operation :: "cpu_state \<Rightarrow> cpu_state option" where
  "serve_operation = (\<lambda>(d, io, q).
     case receive_op_code (from_cpu d) of
       (op, rest) \<Rightarrow> do {
         (d1, io1, q1) \<leftarrow> syscall_handlers op
            (d\<lparr>from_cpu := rest\<rparr>, io, if is_syscall op then increment_syscall_counter q else q);
         Some (d1, io1, if is_syscall op then decrement_syscall_counter q1 else q1) })"

definition serve_cycle :: "cpu_state \<Rightarrow> (bool \<times> cpu_state) option" where
  "serve_cycle s = do {
     s1 \<leftarrow> serve_operation s;
     s2 \<leftarrow> manage_queue_blocked s1;
     s3 \<leftarrow> manage_end_quantum s2;
     (d, io, q) \<leftarrow> manage_preemption_priority s3;
     (case send_preemption d of
        (False, d1) \<Rightarrow> Some (False, d1\<lparr>keep_running := False\<rparr>, io, q)
      | (True, d1) \<Rightarrow>
          (if preemption_reason d1 = PR_HIGHER_PRIORITY_PROCESS then send_pid (d1, io, q) else Some (True, d1, io, q))) }"

definition cpu_client_round :: "cpu_state \<Rightarrow> (bool \<times> cpu_state) option" where
  "cpu_client_round s = do {
     (d, io, q) \<leftarrow> manage_request_process s;
     if ct_pcb d = None then Some (False, d\<lparr>keep_running := False\<rparr>, io, q)
     else do {
       (sent, s1) \<leftarrow> send_pid (d, io, q);
       if \<not> sent then Some (False, s1)
       else do {
         (going_on, d2, io2, q2) \<leftarrow> serve_cycle s1;
         Some (going_on \<and> keep_running d2, d2, io2, q2) } } }"

text \<open>What the thread does after the loop.\<close>

definition leave_cpu_client :: "cpu_state \<Rightarrow> t_queues option" where
  "leave_cpu_client = (\<lambda>(d, io, q).
     (case ct_pcb d of
        None \<Rightarrow> Some q
      | Some pcb \<Rightarrow> if preemption_reason d = PR_HIGHER_PRIORITY_PROCESS then transition_exec_ready pcb q else Some q))"

fun cpu_client_rounds :: "nat \<Rightarrow> cpu_state \<Rightarrow> (bool \<times> cpu_state) option" where
  "cpu_client_rounds 0 s = Some (True, s)"
| "cpu_client_rounds (Suc n) s = do {
     (going_on, s1) \<leftarrow> cpu_client_round s;
     if going_on then cpu_client_rounds n s1 else Some (False, s1) }"

subsection \<open>Connections\<close>

definition respond_handshake :: "bool \<Rightarrow> bool" where
  "respond_handshake sent = sent"

definition get_id_cpu :: "bytes \<Rightarrow> (string option \<times> bytes) option" where
  "get_id_cpu stream =
     (case receive_op_code stream of
        (op, rest) \<Rightarrow>
          (if op \<noteq> OP_ID_CPU then Some (None, rest)
           else map_option (\<lambda>(b, rest'). (map_option string_of_bytes b, rest')) (receive_string rest)))"

text \<open>
  The threads of the connected CPUs are in \<open>cpus\<close>; a thread that cannot be created is taken
  out again.
\<close>

definition handle_new_cpu_ks :: "t_cpu_thread list \<Rightarrow> bytes \<Rightarrow> bool \<Rightarrow> bool \<Rightarrow> (bool \<times> t_cpu_thread list) option" where
  "handle_new_cpu_ks cpus stream sent thread_ok =
     (if \<not> respond_handshake sent then Some (False, cpus)
      else do {
        (id_cpu, rest) \<leftarrow> get_id_cpu stream;
        (case id_cpu of
           None \<Rightarrow> Some (False, cpus)
         | Some name \<Rightarrow>
             (if thread_ok then Some (True, cpus @ [init_data_thread_cpu name rest]) else Some (False, cpus))) })"

text \<open>A new connection of the server, after \<open>socket_accept\<close>.\<close>

definition server_connection ::
  "t_cpu_thread list \<Rightarrow> t_io_slots \<Rightarrow> bytes \<Rightarrow> bool \<Rightarrow> bool \<Rightarrow> (bool \<times> t_cpu_thread list \<times> t_io_slots) option" where
  "server_connection cpus io stream sent thread_ok = do {
     (mid, rest) \<leftarrow> receive_handshake stream;
     (case mid of
        MID_CPU \<Rightarrow> map_option (\<lambda>(ok, cpus1). (ok, cpus1, io)) (handle_new_cpu_ks cpus rest sent thread_ok)
      | MID_IO \<Rightarrow> map_option (\<lambda>(ok, io1). (ok, cpus, io1)) (handle_new_io io rest sent thread_ok False)
      | _ \<Rightarrow> Some (False, cpus, io)) }"

definition server_start :: "string \<Rightarrow> t_queues \<Rightarrow> t_queues option" where
  "server_start initial_process_path q = transition_new_ready initial_process_path 0 q"

text \<open>
  Closing: READY is terminated and the CPU sockets are shut down; \<open>close_cpu\<close> waits for
  the CPU threads (\<open>None\<close> while one is connected), then the I/O threads are ended.
\<close>

definition close_cpu_ks :: "t_cpu_thread list \<Rightarrow> t_queues \<Rightarrow> t_cpu_thread list \<times> t_queues" where
  "close_cpu_ks cpus q =
     (map (\<lambda>d. d\<lparr>cpu_open := False, from_cpu := []\<rparr>) cpus, q\<lparr>ready := terminate_queue_ready (ready q)\<rparr>)"

definition close_thread_listen :: "t_cpu_thread list \<Rightarrow> t_io_slots \<Rightarrow> t_queues \<Rightarrow> t_queues option" where
  "close_thread_listen cpus io q =
     (case close_cpu_ks cpus q of (cpus1, q1) \<Rightarrow> if cpus1 \<noteq> [] then None else close_io_ks io q1)"

end
