(* ===== verification/Sched_App.thy ===== *)
theory Sched_App
  imports Sched_Cpu
begin

section \<open>Kernel Scheduler: configuration, start and shutdown\<close>

text \<open>
  \<open>app/kernel_scheduler.c\<close> and \<open>src/main.c\<close>. A variable that the code leaves uninitialised is
  \<open>None\<close> inside the configuration; a missing key that is used as a string is \<open>None\<close>.
\<close>

subsection \<open>Configuration\<close>

record t_config_vars =
  scheduling_algorithm :: "t_scheduling_algorithm option"
  multilevel_algorithms :: "t_scheduling_algorithm option list"
  rr_quantum :: int
  cv_preemption :: bool
  cv_suspension_timeout :: int
  server_port :: "string option"
  kernel_memory_ip :: "string option"
  kernel_memory_port :: "string option"

definition SCHEDULING_ALGORITHMS :: "(string \<times> t_scheduling_algorithm) list" where
  "SCHEDULING_ALGORITHMS = [(''FIFO'', SA_FIFO), (''RR'', SA_RR), (''MULTILEVEL'', SA_MULTILEVEL_QUEUES)]"

definition parse_subqueue_algorithm :: "string \<Rightarrow> t_scheduling_algorithm option" where
  "parse_subqueue_algorithm name = (if name = ''FIFO'' then Some SA_FIFO else if name = ''RR'' then Some SA_RR else None)"

definition start_config :: "t_config \<Rightarrow> t_config_vars option" where
  "start_config config = do {
     level \<leftarrow> config_get_string_value config ''LOG_LEVEL'';
     algorithm \<leftarrow> config_get_string_value config ''SCHEDULING_ALGORITHM'';
     array \<leftarrow> config_get_array_value config ''QUEUE_ALGORITHMS'';
     rr \<leftarrow> config_get_int_value config ''RR_QUANTUM'';
     preempt \<leftarrow> config_get_string_value config ''QUEUE_PREEMPTION'';
     timeout \<leftarrow> config_get_int_value config ''SUSPENSION_TIMEOUT'';
     Some \<lparr>scheduling_algorithm = map_of SCHEDULING_ALGORITHMS algorithm,
           multilevel_algorithms = map parse_subqueue_algorithm array,
           rr_quantum = rr, cv_preemption = (preempt = ''TRUE''), cv_suspension_timeout = timeout,
           server_port = config_get_string_value config ''KERNEL_SCHEDULER_PORT'',
           kernel_memory_ip = config_get_string_value config ''KERNEL_MEMORY_IP'',
           kernel_memory_port = config_get_string_value config ''KERNEL_MEMORY_PORT''\<rparr> }"

text \<open>The queues of a configuration without uninitialised algorithms.\<close>

definition init_scheduler_resources :: "t_config_vars \<Rightarrow> t_queues option" where
  "init_scheduler_resources vars = do {
     algorithm \<leftarrow> scheduling_algorithm vars;
     if None \<in> set (multilevel_algorithms vars) then None
     else Some (init_queues algorithm (map the (multilevel_algorithms vars)) (rr_quantum vars) (cv_preemption vars)
                 (cv_suspension_timeout vars)) }"

subsection \<open>Connecting to Kernel Memory\<close>

definition handshake_kernel_memory :: "bytes \<Rightarrow> bool \<Rightarrow> (bool \<times> bytes) option" where
  "handshake_kernel_memory stream sent =
     (if \<not> sent then Some (False, stream)
      else map_option (\<lambda>(mid, rest). (mid = MID_KERNEL_MEMORY, rest)) (receive_handshake stream))"

text \<open>\<open>connected\<close> says whether the socket could be opened.\<close>

definition start_connection_kernel_memory :: "bool \<Rightarrow> bytes \<Rightarrow> bool \<Rightarrow> (bool \<times> bytes) option" where
  "start_connection_kernel_memory connected stream sent =
     (if \<not> connected then Some (False, stream) else handshake_kernel_memory stream sent)"

text \<open>
  \<open>main\<close> up to the first process: the configuration file is the argument \<open>contents\<close>; the other
  arguments say what the operating system grants and what Kernel Memory sends.
\<close>

definition start_module :: "string option \<Rightarrow> bool \<Rightarrow> bytes \<Rightarrow> bool \<Rightarrow> bool \<Rightarrow> (bool \<times> t_config_vars option \<times> bytes) option" where
  "start_module contents connected stream sent server_ok =
     (case config_create contents of
        None \<Rightarrow> Some (False, None, stream)
      | Some config \<Rightarrow> do {
          vars \<leftarrow> start_config config;
          (km_ok, rest) \<leftarrow> start_connection_kernel_memory connected stream sent;
          Some (km_ok \<and> server_ok, Some vars, rest) })"

definition ks_main_start :: "string option \<Rightarrow> string \<Rightarrow> bool \<Rightarrow> bytes \<Rightarrow> bool \<Rightarrow> bool \<Rightarrow> (bool \<times> t_queues option) option" where
  "ks_main_start contents initial_process_path connected stream sent server_ok = do {
     (ok, vars, rest) \<leftarrow> start_module contents connected stream sent server_ok;
     (case vars of
        None \<Rightarrow> Some (False, None)
      | Some v \<Rightarrow>
          (if \<not> ok then Some (False, None)
           else do {
             q \<leftarrow> init_scheduler_resources v;
             q1 \<leftarrow> server_start initial_process_path (q\<lparr>from_km := rest\<rparr>);
             Some (True, Some q1) })) }"

subsection \<open>Shutdown\<close>

text \<open>
  \<open>destroy_queues\<close> stops the routines, waits until no routine thread runs and joins the worker
  threads; \<open>names\<close> is the order in which the dictionary of mutexes is walked.
\<close>

definition wait_thread_counter_zero :: "t_queues \<Rightarrow> t_queues option" where
  "wait_thread_counter_zero q = (if thread_counter q = 0 then Some q else None)"

definition destroy_queues :: "t_queues \<Rightarrow> t_queues option" where
  "destroy_queues q =
     map_option terminate_threads_suspended (wait_thread_counter_zero (terminate_routines_ks q))"

definition close_module :: "string list \<Rightarrow> t_queues \<Rightarrow> t_queues option" where
  "close_module names q = do {
     q1 \<leftarrow> destroy_list_mutex names q;
     q2 \<leftarrow> clear_queues q1;
     destroy_queues q2 }"

end
