(* ===== verification/Mutex_Inv.thy ===== *)
theory Mutex_Inv
  imports Mutex
begin

section \<open>The invariant of the mutexes and of priority inheritance\<close>

text \<open>
  \<open>mutex_wf\<close> relates the mutexes to the processes: the state of a mutex counts its holder and
  those who wait; those who wait are exactly the processes that are blocked on it, in the order
  of their priorities; and the priorities of a process are its own one (\<open>base\<close>) and what it
  inherits through each mutex it holds, of which the best is in force. Locking and unlocking
  keep it. On the way up a chain of holders it fails for the mutexes being changed, so it is stated
  with a set of exempt (\<open>held\<close>) ones.
\<close>

subsection \<open>What the mutexes see of a process\<close>

type_synonym pinfo = "int \<times> int list \<times> string option"

definition pview :: "t_queues \<Rightarrow> pcb_ref \<Rightarrow> pinfo option" where
  "pview q r = map_option (\<lambda>p. (pcb_priority p, priority_list p, blocking_mutex p)) (pcbs q r)"

definition vprio :: "(pcb_ref \<Rightarrow> pinfo option) \<Rightarrow> pcb_ref \<Rightarrow> int" where
  "vprio v r = (case v r of Some (prio, pl, b) \<Rightarrow> prio | None \<Rightarrow> 0)"

lemma prio_of_view: "prio_of q = vprio (pview q)"
  by (rule ext) (simp add: prio_of_def vprio_def pview_def split: option.splits)

lemma pview_upd [simp]:
  "pview (q\<lparr>pcbs := (pcbs q)(r \<mapsto> p)\<rparr>) = (pview q)(r \<mapsto> (pcb_priority p, priority_list p, blocking_mutex p))"
  by (auto simp: pview_def)

lemma pview_Some: "pview q r = Some (a, l, b) \<longleftrightarrow>
    (\<exists>p. pcbs q r = Some p \<and> pcb_priority p = a \<and> priority_list p = l \<and> blocking_mutex p = b)"
  by (auto simp: pview_def)

lemma pview_cong: "pcbs q' = pcbs q \<Longrightarrow> pview q' = pview q"
  by (simp add: pview_def fun_eq_iff)

text \<open>Moving a process between the lists changes nothing of this.\<close>

definition same_view :: "t_queues \<Rightarrow> t_queues \<Rightarrow> bool" where
  "same_view q q' \<longleftrightarrow> pview q' = pview q \<and> mutex_list q' = mutex_list q"

named_theorems view_intros \<open>transitions keep what the mutexes see\<close>

lemma same_view_refl [simp]: "same_view q q"
  by (simp add: same_view_def)

lemma same_view_trans [trans]: "same_view q q1 \<Longrightarrow> same_view q1 q2 \<Longrightarrow> same_view q q2"
  by (simp add: same_view_def)

lemma view_update_pcb:
  assumes "update_pcb r f q = Some q'"
    and "\<And>p. pcb_priority (f p) = pcb_priority p \<and> priority_list (f p) = priority_list p \<and> blocking_mutex (f p) = blocking_mutex p"
  shows "same_view q q'"
proof -
  obtain p where p: "pcbs q r = Some p" "q' = q\<lparr>pcbs := (pcbs q)(r \<mapsto> f p)\<rparr>" using assms(1) by (auto simp: update_pcb_def)
  then have "(pview q)(r \<mapsto> (pcb_priority (f p), priority_list (f p), blocking_mutex (f p))) = pview q"
    using assms(2) [of p] by (auto simp: pview_def fun_eq_iff)
  with p show ?thesis by (simp add: same_view_def)
qed

lemma view_fields [simp]:
  "same_view q (q1\<lparr>ready := a\<rparr>) = same_view q q1" "same_view q (q1\<lparr>exec := b\<rparr>) = same_view q q1"
  "same_view q (q1\<lparr>block := c\<rparr>) = same_view q q1" "same_view q (q1\<lparr>susp_block := d\<rparr>) = same_view q q1"
  "same_view q (q1\<lparr>susp_ready := e\<rparr>) = same_view q q1" "same_view (q1\<lparr>exec := b\<rparr>) q = same_view q1 q"
  "same_view (q1\<lparr>block := c\<rparr>) q = same_view q1 q" "same_view (q1\<lparr>susp_block := d\<rparr>) q = same_view q1 q"
  by (auto simp: same_view_def pview_def fun_eq_iff)

lemma view_put_ready [view_intros]: "put_ready r q = Some q' \<Longrightarrow> same_view q q'"
  by (auto simp: put_ready_def split: option.splits)

lemma view_take_ready [view_intros]: "take_ready r q = Some q' \<Longrightarrow> same_view q q'"
  by (auto simp: take_ready_def split: option.splits)

lemma view_lowest [view_intros]: "update_lowest_exec_priority q = Some q' \<Longrightarrow> same_view q q'"
  by (auto simp: update_lowest_exec_priority_def)

lemma view_take_exec [view_intros]: "transition_take_exec r q = Some q' \<Longrightarrow> same_view q q'"
  by (auto simp: transition_take_exec_def Let_def dest!: view_lowest split: if_splits)

lemma view_blocked_time [view_intros]: "set_blocked_time r t q = Some q' \<Longrightarrow> same_view q q'"
  unfolding set_blocked_time_def by (erule view_update_pcb) simp

lemma view_take_block [view_intros]: "transition_take_block r q = Some q' \<Longrightarrow> same_view q q'"
  by (auto simp: transition_take_block_def dest!: view_blocked_time)

lemma view_to_block [view_intros]: "transition_to_block r q = Some q' \<Longrightarrow> same_view q q'"
  by (auto simp: transition_to_block_def bind_eq_Some_conv dest!: view_blocked_time split: option.splits)

lemma view_state:
  assumes "guarded_move r e n move q = Some q'" "\<And>q1 q2. move q1 = Some q2 \<Longrightarrow> same_view q1 q2"
  shows "same_view q q'"
proof -
  obtain moved q1 where q1: "manage_state_pcb r e n q = Some (moved, q1)" "(if moved then move q1 else Some q1) = Some q'"
    using assms(1) by (auto simp: guarded_move_def split: option.splits)
  have "same_view q q1"
    using q1(1) by (auto simp: manage_state_pcb_def split: option.splits if_splits intro: view_update_pcb)
  also have "same_view q1 q'" using q1(2) assms(2) by (auto split: if_splits)
  finally show ?thesis .
qed

lemma view_update_priority [view_intros]: "update_priority r q = Some q' \<Longrightarrow> same_view q q'"
  by (auto simp: update_priority_def bind_eq_Some_conv split: if_splits dest!: view_intros intro: same_view_trans)

lemma view_exec_block [view_intros]: "transition_exec_block r q = Some q' \<Longrightarrow> same_view q q'"
  unfolding transition_exec_block_def
  by (erule view_state) (auto simp: bind_eq_Some_conv dest!: view_take_exec view_to_block intro: same_view_trans)

lemma view_exec_ready [view_intros]: "transition_exec_ready r q = Some q' \<Longrightarrow> same_view q q'"
  unfolding transition_exec_ready_def
  by (erule view_state) (auto simp: bind_eq_Some_conv dest!: view_take_exec view_put_ready intro: same_view_trans)

lemma view_unlock [view_intros]:
  assumes "transition_unlock r q = Some q'"
  shows "same_view q q'"
proof -
  have "transition_block_ready_no_mutex r q = Some q' \<or> transition_susp_block_susp_ready_no_mutex r q = Some q'"
    using assms by (auto simp: transition_unlock_def bind_eq_Some_conv split: if_splits)
  then show ?thesis
  proof
    assume "transition_block_ready_no_mutex r q = Some q'"
    then show ?thesis unfolding transition_block_ready_no_mutex_def
      by (rule view_state) (auto simp: bind_eq_Some_conv dest!: view_take_block view_put_ready intro: same_view_trans)
  next
    assume "transition_susp_block_susp_ready_no_mutex r q = Some q'"
    then show ?thesis unfolding transition_susp_block_susp_ready_no_mutex_def
      by (rule view_state) (auto simp: transition_to_susp_ready_def transition_take_susp_block_def split: prod.splits)
  qed
qed

subsection \<open>The invariant\<close>

type_synonym mutexes = "string \<Rightarrow> t_mutex option"
type_synonym proc_view = "pcb_ref \<Rightarrow> pinfo option"

definition held_by :: "mutexes \<Rightarrow> pcb_ref \<Rightarrow> string set" where
  "held_by ms r = {n. \<exists>m. ms n = Some m \<and> current_process m = Some r}"

definition waiting_on :: "proc_view \<Rightarrow> string \<Rightarrow> pcb_ref set" where
  "waiting_on v n = {r. \<exists>a l. v r = Some (a, l, Some n)}"

definition mutex_shape :: "proc_view \<Rightarrow> string \<Rightarrow> t_mutex \<Rightarrow> bool" where
  "mutex_shape v n m \<longleftrightarrow> priority_active m
     \<and> mutex_state m = 1 - (if current_process m = None then 0 else 1) - int (length (mutex_waiters m))
     \<and> (current_process m = None \<longrightarrow> mutex_waiters m = [])
     \<and> distinct (mutex_waiters m) \<and> set (mutex_waiters m) = waiting_on v n
     \<and> (\<forall>h. current_process m = Some h \<longrightarrow> v h \<noteq> None)"

definition mutex_sorted :: "(pcb_ref \<Rightarrow> int) \<Rightarrow> t_mutex \<Rightarrow> bool" where
  "mutex_sorted f m \<longleftrightarrow> sorted (map f (mutex_waiters m))
     \<and> next_priority m = (case mutex_waiters m of [] \<Rightarrow> INT_MAX_PRIORITY | r # rs \<Rightarrow> f r)"

lemma mutex_sorted_map:
  "mutex_sorted f m \<longleftrightarrow> sorted (map f (mutex_waiters m))
     \<and> next_priority m = (case map f (mutex_waiters m) of [] \<Rightarrow> INT_MAX_PRIORITY | a # rest \<Rightarrow> a)"
  by (cases "mutex_waiters m") (simp_all add: mutex_sorted_def)

lemma mutex_sorted_cong: "map f (mutex_waiters m) = map g (mutex_waiters m) \<Longrightarrow> mutex_sorted f m = mutex_sorted g m"
  by (simp only: mutex_sorted_map)

text \<open>The priorities of a process: its own and one for each mutex it holds.\<close>

definition priorities_ok :: "(pcb_ref \<Rightarrow> int) \<Rightarrow> (string \<Rightarrow> int) \<Rightarrow> mutexes \<Rightarrow> pcb_ref \<Rightarrow> int \<Rightarrow> int list \<Rightarrow> bool" where
  "priorities_ok base nx ms r a l \<longleftrightarrow> sorted l \<and> l \<noteq> [] \<and> a = hd l
     \<and> mset l = add_mset (base r) (image_mset nx (mset_set (held_by ms r)))"

definition chain_inv :: "(pcb_ref \<Rightarrow> int) \<Rightarrow> string set \<Rightarrow> (string \<Rightarrow> int) \<Rightarrow> mutexes \<Rightarrow> proc_view \<Rightarrow> bool" where
  "chain_inv base H nx ms v \<longleftrightarrow> finite (dom ms)
     \<and> (\<forall>n m. ms n = Some m \<and> n \<notin> H \<longrightarrow> mutex_shape v n m \<and> nx n = next_priority m)
     \<and> (\<forall>r a l b. v r = Some (a, l, b) \<longrightarrow> priorities_ok base nx ms r a l \<and> (\<forall>n. b = Some n \<longrightarrow> ms n \<noteq> None))"

definition mutex_wf :: "(pcb_ref \<Rightarrow> int) \<Rightarrow> t_queues \<Rightarrow> bool" where
  "mutex_wf base q \<longleftrightarrow> (\<exists>nx. chain_inv base {} nx (mutex_list q) (pview q))
     \<and> (\<forall>n m. mutex_list q n = Some m \<longrightarrow> mutex_sorted (prio_of q) m)"

lemma finite_held_by: "finite (dom ms) \<Longrightarrow> finite (held_by ms r)"
  by (rule finite_subset [of _ "dom ms"]) (auto simp: held_by_def)

lemma chain_inv_nx: "chain_inv base H nx ms v \<Longrightarrow> (\<And>n. ms n \<noteq> None \<Longrightarrow> nx' n = nx n) \<Longrightarrow> chain_inv base H nx' ms v"
proof -
  assume c: "chain_inv base H nx ms v" and e: "\<And>n. ms n \<noteq> None \<Longrightarrow> nx' n = nx n"
  have "finite (held_by ms r)" for r using c by (simp add: chain_inv_def finite_held_by)
  then have "image_mset nx' (mset_set (held_by ms r)) = image_mset nx (mset_set (held_by ms r))" for r
    using e by (intro image_mset_cong) (auto simp: held_by_def)
  then show ?thesis using c e by (auto simp: chain_inv_def priorities_ok_def)
qed

text \<open>The inherited priority in force is known for every mutex.\<close>

lemma mutex_wf_alt:
  "mutex_wf base q \<longleftrightarrow> chain_inv base {} (\<lambda>n. case mutex_list q n of Some m \<Rightarrow> next_priority m | None \<Rightarrow> 0) (mutex_list q) (pview q)
     \<and> (\<forall>n m. mutex_list q n = Some m \<longrightarrow> mutex_sorted (prio_of q) m)" (is "_ \<longleftrightarrow> chain_inv base {} ?nx _ _ \<and> _")
proof -
  have "chain_inv base {} ?nx (mutex_list q) (pview q)" if "chain_inv base {} nx (mutex_list q) (pview q)" for nx
    using that by (rule chain_inv_nx) (use that in \<open>auto simp: chain_inv_def\<close>)
  then show ?thesis by (auto simp: mutex_wf_def)
qed

lemma mutex_wf_view: "same_view q q' \<Longrightarrow> mutex_wf base q' = mutex_wf base q"
  by (simp add: mutex_wf_def same_view_def prio_of_view)

subsection \<open>Changing one mutex\<close>

lemma chain_exempt: "chain_inv base H nx ms v \<Longrightarrow> chain_inv base (insert n H) nx ms v"
  by (auto simp: chain_inv_def)

lemma held_by_change: "ms n = Some m \<Longrightarrow> current_process m' = current_process m \<Longrightarrow> held_by (ms(n \<mapsto> m')) r = held_by ms r"
  by (auto simp: held_by_def)

lemma chain_change:
  assumes "chain_inv base H nx ms v" "n \<in> H" "ms n = Some m" "current_process m' = current_process m"
  shows "chain_inv base H nx (ms(n \<mapsto> m')) v"
  using assms held_by_change [of ms n m m'] by (auto simp: chain_inv_def priorities_ok_def)

lemma chain_restore:
  assumes "chain_inv base (insert n H) nx ms v" "\<And>m. ms n = Some m \<Longrightarrow> mutex_shape v n m \<and> nx n = next_priority m"
  shows "chain_inv base H nx ms v"
  using assms by (auto simp: chain_inv_def)

lemma chain_restored:
  "chain_inv base (insert n H) nx (ms(n \<mapsto> m)) v \<Longrightarrow> mutex_shape v n m \<Longrightarrow> nx n = next_priority m \<Longrightarrow>
   chain_inv base H nx (ms(n \<mapsto> m)) v"
  by (erule chain_restore) simp

subsection \<open>Changing the priorities of a process\<close>

lemma add_priority_props:
  "sorted l \<Longrightarrow> sorted (add_priority x l)" "mset (add_priority x l) = add_mset x (mset l)"
  "add_priority x l \<noteq> []" "sorted l \<Longrightarrow> hd (add_priority x l) = (case l of [] \<Rightarrow> x | y # ys \<Rightarrow> min x y)"
proof -
  have e: "add_priority x l = add_sorted (\<lambda>a b. a < b) x l"
    by (simp add: add_priority_def add_sorted_def Let_def take_sorted_slot has_higher_priority_than_def [abs_def])
  show "sorted l \<Longrightarrow> sorted (add_priority x l)" using sorted_add_sorted_less [of "\<lambda>x. x" l x] by (simp add: e)
  show "mset (add_priority x l) = add_mset x (mset l)" by (simp add: e)
  show "add_priority x l \<noteq> []" by (simp add: e add_sorted_def)
  show "sorted l \<Longrightarrow> hd (add_priority x l) = (case l of [] \<Rightarrow> x | y # ys \<Rightarrow> min x y)"
    unfolding e by (cases l) (auto simp: min_def)
qed

lemma exchange_list:
  assumes "sorted l" "old \<in> set l" "new \<le> old"
  shows "hd (add_priority new (remove1 old l)) = min new (hd l)"
proof -
  obtain y ys where l: "l = y # ys" using assms(2) by (cases l) auto
  have s: "sorted (remove1 old l)" using assms(1) by (rule sorted_remove1)
  show ?thesis
  proof (cases "y = old")
    case True
    then have "\<forall>z \<in> set ys. new \<le> z" using assms l by auto
    then show ?thesis using True l s assms(3) by (cases ys) (auto simp: add_priority_props(4))
  next
    case False
    then show ?thesis using l s by (simp add: add_priority_props(4))
  qed
qed

lemma exchange_inv:
  assumes c: "chain_inv base H nx ms v" and n: "n \<in> H" "ms n = Some m" "current_process m = Some h"
    and h: "v h = Some (a, l, b)" and new: "new \<le> nx n"
  shows "chain_inv base H (nx(n := new)) ms (v(h \<mapsto> (min new a, add_priority new (remove1 (nx n) l), b)))" (is "chain_inv base H ?nx ms ?v")
    and "nx n \<in> set l"
proof -
  have fin: "finite (held_by ms r)" for r using c by (simp add: chain_inv_def finite_held_by)
  have ok: "priorities_ok base nx ms h a l" using c h by (simp add: chain_inv_def)
  have nh: "n \<in> held_by ms h" using n by (auto simp: held_by_def)
  have split: "mset_set (held_by ms h) = add_mset n (mset_set (held_by ms h - {n}))" using fin nh by (simp add: mset_set.remove)
  then have ml: "mset l = add_mset (nx n) (add_mset (base h) (image_mset nx (mset_set (held_by ms h - {n}))))"
    using ok by (simp add: priorities_ok_def)
  show mem: "nx n \<in> set l" using ml by (metis set_mset_mset union_single_eq_member)
  have same: "image_mset ?nx (mset_set (X - {n})) = image_mset nx (mset_set (X - {n}))" for X
    by (cases "finite (X - {n})") (auto intro!: image_mset_cong)
  have "priorities_ok base ?nx ms h (min new a) (add_priority new (remove1 (nx n) l))"
    using ok exchange_list [of l "nx n" new] mem new ml
    by (simp add: priorities_ok_def add_priority_props sorted_remove1 split same)
  moreover have "priorities_ok base ?nx ms r a' l'" if "r \<noteq> h" "priorities_ok base nx ms r a' l'" for r a' l'
  proof -
    have "n \<notin> held_by ms r" using n(2,3) that(1) by (auto simp: held_by_def)
    then show ?thesis using that(2) same [of "held_by ms r"] by (simp add: priorities_ok_def)
  qed
  moreover have "mutex_shape ?v n' m' = mutex_shape v n' m'" for n' m'
  proof -
    have "waiting_on ?v n' = waiting_on v n'" using h by (auto simp: waiting_on_def)
    then show ?thesis using h by (auto simp: mutex_shape_def)
  qed
  ultimately show "chain_inv base H ?nx ms ?v" using c n(1) h by (auto simp: chain_inv_def)
qed

subsection \<open>Raising the priority of a process that waits\<close>

lemma insert_front:
  assumes "insert_pcb_sorted xs p q = Some (ys, slot)"
  shows "slot = 0 \<Longrightarrow> ys = p # xs" "slot \<noteq> 0 \<Longrightarrow> xs \<noteq> [] \<and> hd ys = hd xs \<and> prio_of q (hd xs) < prio_of q p"
    "distinct xs \<Longrightarrow> p \<notin> set xs \<Longrightarrow> distinct ys" "set ys = insert p (set xs)" "length ys = Suc (length xs)"
  using insert_pcb_sorted_spec [OF assms] by (auto simp: hd_append)

lemma insert_sorted_map:
  assumes "insert_pcb_sorted xs p q = Some (ys, slot)" "sorted (map (prio_of q) xs)"
  shows "sorted (map (prio_of q) ys)"
  using insert_pcb_sorted_sorted [OF assms(1)] assms(2) by (simp add: sorted_map)

lemma map_other: "p \<notin> set xs \<Longrightarrow> map (f(p := old)) xs = map f xs"
  by (auto intro: map_cong)

lemma reorder:
  assumes s: "mutex_sorted ((prio_of q)(p := old)) m" and p: "p \<in> set (mutex_waiters m)" "distinct (mutex_waiters m)"
    and less: "prio_of q p < old"
    and ins: "insert_pcb_sorted (remove1 p (mutex_waiters m)) p q = Some (ws, slot)"
  shows "sorted (map (prio_of q) ws)" "distinct ws" "set ws = set (mutex_waiters m)" "length ws = length (mutex_waiters m)"
    and "slot = 0 \<Longrightarrow> hd ws = p \<and> prio_of q p \<le> next_priority m"
    and "slot \<noteq> 0 \<Longrightarrow> prio_of q (hd ws) = next_priority m"
proof -
  let ?f = "prio_of q"
  let ?xs = "remove1 p (mutex_waiters m)"
  have nin: "p \<notin> set ?xs" "distinct ?xs" using p(2) by auto
  have xs: "sorted (map (?f(p := old)) (mutex_waiters m))" using s by (simp add: mutex_sorted_def)
  then have "sorted (map (?f(p := old)) ?xs)" by (simp add: sorted_map_remove1)
  then show "sorted (map ?f ws)" using insert_sorted_map [OF ins] map_other [OF nin(1)] by metis
  show "distinct ws" using insert_front(3) [OF ins nin(2,1)] .
  show "set ws = set (mutex_waiters m)" using insert_front(4) [OF ins] p by auto
  show "length ws = length (mutex_waiters m)" using insert_front(5) [OF ins] p(1) by (simp add: length_remove1) (metis Suc_pred length_pos_if_in_set)
  obtain y ys where w: "mutex_waiters m = y # ys" using p(1) by (cases "mutex_waiters m") auto
  have nx: "next_priority m = (?f(p := old)) y" using s w by (simp add: mutex_sorted_def)
  show "slot = 0 \<Longrightarrow> hd ws = p \<and> ?f p \<le> next_priority m"
  proof -
    assume "slot = 0"
    then have ws: "ws = p # ?xs" by (rule insert_front(1) [OF ins])
    have "?f p \<le> ?f y" if "y \<noteq> p" using \<open>sorted (map ?f ws)\<close> ws w that by auto
    then show ?thesis using ws nx less by auto
  qed
  show "slot \<noteq> 0 \<Longrightarrow> ?f (hd ws) = next_priority m"
  proof -
    assume "slot \<noteq> 0"
    then have h: "?xs \<noteq> []" "hd ws = hd ?xs" "?f (hd ?xs) < ?f p" using insert_front(2) [OF ins] by auto
    have "y \<noteq> p"
    proof
      assume "y = p"
      then have "hd ?xs = hd ys" "ys \<noteq> []" "hd ys \<in> set ys" using w h(1) by auto
      moreover have "\<forall>z \<in> set ys. old \<le> (?f(p := old)) z" using xs w \<open>y = p\<close> by auto
      ultimately have "old \<le> (?f(p := old)) (hd ys)" by blast
      then show False using h(3) less \<open>hd ?xs = hd ys\<close> by (auto split: if_splits)
    qed
    then show ?thesis using w nx h(2) by simp
  qed
qed

subsection \<open>Inheritance along the chain of holders\<close>

lemma set_first_view:
  assumes "set_first_priority r change q = Some ((act, prio), q')" "pview q r = Some (a, l, b)"
  shows "\<exists>rest. change l = prio # rest \<and> act = (prio \<noteq> a)
     \<and> pview q' = (pview q)(r \<mapsto> (prio, prio # rest, b)) \<and> mutex_list q' = mutex_list q"
  using assms by (auto simp: set_first_priority_def pview_Some split: option.splits list.splits)

lemma exchange_view:
  assumes "exchange_priority h old new q = Some ((act, prio), q')" "pview q h = Some (a, l, b)"
  shows "prio = hd (add_priority new (remove1 old l)) \<and> act = (prio \<noteq> a)
     \<and> pview q' = (pview q)(h \<mapsto> (prio, add_priority new (remove1 old l), b)) \<and> mutex_list q' = mutex_list q"
proof -
  obtain act1 prio1 q1 where s: "set_first_priority h (\<lambda>xs. add_priority new (remove_priority_list xs old)) q = Some ((act1, prio1), q1)"
    "(if act1 then map_option (Pair (True, prio1)) (update_priority h q1) else Some ((False, prio1), q1)) = Some ((act, prio), q')"
    using assms(1) by (auto simp: exchange_priority_def bind_eq_Some_conv)
  have "act = act1" "prio = prio1" "same_view q1 q'" using s(2) by (auto split: if_splits dest!: view_update_priority)
  with set_first_view [OF s(1) assms(2)] show ?thesis by (auto simp: remove_priority_list_def same_view_def)
qed

lemma view_put_mutex [simp]: "pview (put_mutex n m q) = pview q" "mutex_list (put_mutex n m q) = (mutex_list q)(n \<mapsto> m)"
  "pview (change_mutex n f q) = pview q" "mutex_list (change_mutex n f q) = (mutex_list q)(n := map_option f (mutex_list q n))"
  "prio_of (put_mutex n m q) = prio_of q" "prio_of (change_mutex n f q) = prio_of q"
  by (auto simp: put_mutex_def change_mutex_def pview_def fun_eq_iff prio_of_def)

text \<open>
  The chain only raises priorities to the new one, and leaves alone the processes that wait for
  an exempt mutex.
\<close>

definition raised :: "int \<Rightarrow> string set \<Rightarrow> proc_view \<Rightarrow> proc_view \<Rightarrow> bool" where
  "raised new H v v' \<longleftrightarrow> (\<forall>r. v r = None \<longrightarrow> v' r = None)
     \<and> (\<forall>r a l b. v r = Some (a, l, b) \<longrightarrow>
          (\<exists>a' l'. v' r = Some (a', l', b) \<and> (a' = a \<or> a' = new \<and> new < a) \<and> (b \<in> Some ` H \<longrightarrow> a' = a)))"

lemma raised_refl: "raised new H v v"
  by (simp add: raised_def)

lemma raised_None: "raised new H v v' \<Longrightarrow> v r = None \<Longrightarrow> v' r = None"
  by (simp add: raised_def)

lemma raised_Some:
  "raised new H v v' \<Longrightarrow> v r = Some (a, l, b) \<Longrightarrow>
     \<exists>a' l'. v' r = Some (a', l', b) \<and> (a' = a \<or> a' = new \<and> new < a) \<and> (b \<in> Some ` H \<longrightarrow> a' = a)"
  by (simp add: raised_def)

lemma raised_step:
  assumes v: "v h = Some (a, l, b)" "new < a" and r: "raised new (insert n H) (v(h \<mapsto> (new, l', b))) v'" and b: "b \<notin> Some ` H"
  shows "raised new H v v'"
  unfolding raised_def
proof (intro conjI allI impI)
  fix r assume none: "v r = None"
  then have "r \<noteq> h" using v(1) by auto
  then show "v' r = None" using raised_None [OF r, of r] none by simp
next
  fix r c k d assume r': "v r = Some (c, k, d)"
  show "\<exists>a' l'. v' r = Some (a', l', d) \<and> (a' = c \<or> a' = new \<and> new < c) \<and> (d \<in> Some ` H \<longrightarrow> a' = c)"
  proof (cases "r = h")
    case True
    with raised_Some [OF r, of h new l' b] v b r' show ?thesis by auto
  next
    case False
    with raised_Some [OF r, of r c k d] r' show ?thesis by auto
  qed
qed

lemma raised_waiting:
  assumes "raised new H v v'"
  shows "waiting_on v' n = waiting_on v n"
proof -
  have "r \<in> waiting_on v' n \<longleftrightarrow> r \<in> waiting_on v n" for r
  proof (cases "v r")
    case None
    with raised_None [OF assms None] show ?thesis by (simp add: waiting_on_def)
  next
    case (Some x)
    obtain a l b where "x = (a, l, b)" by (cases x)
    with raised_Some [OF assms, of r a l b] Some show ?thesis by (auto simp: waiting_on_def)
  qed
  then show ?thesis by blast
qed

lemma raised_shape:
  assumes "raised new H v v'"
  shows "mutex_shape v' n m = mutex_shape v n m"
proof -
  have "v' h = None \<longleftrightarrow> v h = None" for h
  proof (cases "v h")
    case None
    with raised_None [OF assms None] show ?thesis by simp
  next
    case (Some x)
    obtain a l b where "x = (a, l, b)" by (cases x)
    with raised_Some [OF assms, of h a l b] Some show ?thesis by auto
  qed
  then show ?thesis using raised_waiting [OF assms] by (simp add: mutex_shape_def)
qed

lemma raised_sorted:
  assumes "raised new H v v'" "n \<in> H" "set (mutex_waiters m) \<subseteq> waiting_on v n"
  shows "mutex_sorted (vprio v') m = mutex_sorted (vprio v) m"
proof -
  have "vprio v' r = vprio v r" if "r \<in> set (mutex_waiters m)" for r
  proof -
    have "r \<in> waiting_on v n" using assms(3) that by blast
    then obtain a l where "v r = Some (a, l, Some n)" by (auto simp: waiting_on_def)
    with raised_Some [OF assms(1) this] assms(2) show ?thesis by (auto simp: vprio_def)
  qed
  then have "map (vprio v') (mutex_waiters m) = map (vprio v) (mutex_waiters m)" by simp
  then show ?thesis by (rule mutex_sorted_cong)
qed

definition all_sorted :: "(pcb_ref \<Rightarrow> int) \<Rightarrow> string set \<Rightarrow> mutexes \<Rightarrow> bool" where
  "all_sorted f H ms \<longleftrightarrow> (\<forall>n m. ms n = Some m \<and> n \<notin> H \<longrightarrow> mutex_sorted f m)"

definition propagates :: "string list \<Rightarrow> pcb_ref \<Rightarrow> int \<Rightarrow> t_queues \<Rightarrow> t_queues \<Rightarrow> bool" where
  "propagates held p new q q' \<longleftrightarrow> (\<forall>base nx l b old.
     chain_inv base (set held) nx (mutex_list q) (pview q) \<and> pview q p = Some (new, l, b) \<and> new < old
     \<and> all_sorted ((prio_of q)(p := old)) (set held) (mutex_list q) \<longrightarrow>
     (\<exists>nx'. chain_inv base (set held) nx' (mutex_list q') (pview q')
        \<and> (\<forall>n \<in> set held. nx' n = nx n \<and> mutex_list q' n = mutex_list q n))
     \<and> all_sorted (prio_of q') (set held) (mutex_list q')
     \<and> raised new (set held) (pview q) (pview q') \<and> b \<notin> Some ` set held)"

lemma all_sorted_insert: "all_sorted f (insert n H) ms \<Longrightarrow> ms n = Some m \<Longrightarrow> mutex_sorted f m \<Longrightarrow> all_sorted f H ms"
  unfolding all_sorted_def by (metis insert_iff option.inject)

lemma not_waiting:
  assumes "chain_inv base H nx ms v" "v p = Some (a, l, b)" "ms n = Some m" "n \<notin> H" "b \<noteq> Some n"
  shows "p \<notin> set (mutex_waiters m)"
  using assms by (auto simp: chain_inv_def mutex_shape_def waiting_on_def)

lemma all_sorted_other:
  assumes "chain_inv base H nx ms v" "v p = Some (a, l, b)" "all_sorted (f(p := old)) H ms"
    and "ms n = Some m" "n \<notin> H" "b \<noteq> Some n"
  shows "mutex_sorted f m"
proof -
  have "map (f(p := old)) (mutex_waiters m) = map f (mutex_waiters m)"
    using not_waiting [OF assms(1,2,4-6)] by (rule map_other)
  moreover have "mutex_sorted (f(p := old)) m" using assms(3-5) by (simp add: all_sorted_def)
  ultimately show ?thesis using mutex_sorted_cong by blast
qed

text \<open>The waiters of a mutex in a new order.\<close>

lemma shape_reordered:
  "mutex_shape v n m \<Longrightarrow> distinct ws \<Longrightarrow> set ws = set (mutex_waiters m) \<Longrightarrow> length ws = length (mutex_waiters m) \<Longrightarrow>
   mutex_shape v n (m\<lparr>mutex_waiters := ws, next_priority := x\<rparr>) \<and> mutex_shape v n (m\<lparr>mutex_waiters := ws\<rparr>)"
  by (auto simp: mutex_shape_def)

lemma sorted_reordered:
  "ws \<noteq> [] \<Longrightarrow> sorted (map f ws) \<Longrightarrow> f (hd ws) = next_priority m' \<Longrightarrow> mutex_waiters m' = ws \<Longrightarrow> mutex_sorted f m'"
  by (cases ws) (auto simp: mutex_sorted_def)

text \<open>One mutex of the chain: its waiters are put in order again, and its holder inherits.\<close>

lemma propagates_step:
  assumes IH: "\<And>held h prio q1 q'. rec held h prio q1 = Some q' \<Longrightarrow> propagates held h prio q1 q'"
    and c: "chain_inv base (set held) nx (mutex_list q) (pview q)" and p: "pview q p = Some (new, l, Some n)" and old: "new < old"
    and srt: "all_sorted ((prio_of q)(p := old)) (set held) (mutex_list q)"
    and n: "n \<notin> set held" "mutex_list q n = Some m"
    and ws: "insert_pcb_sorted (remove1 p (mutex_waiters m)) p q = Some (ws, slot)"
    and res: "(if slot = 0 \<and> new \<noteq> next_priority m
               then Option.bind (current_process m) (\<lambda>holder.
                      Option.bind (exchange_priority holder (next_priority m) new
                          (put_mutex n (m\<lparr>mutex_waiters := ws, next_priority := new\<rparr>) q)) (\<lambda>((act, prio), q1).
                        if act then rec (n # held) holder prio q1 else Some q1))
               else Some (put_mutex n (m\<lparr>mutex_waiters := ws\<rparr>) q)) = Some q'"
  shows "(\<exists>nx'. chain_inv base (set held) nx' (mutex_list q') (pview q')
        \<and> (\<forall>n \<in> set held. nx' n = nx n \<and> mutex_list q' n = mutex_list q n))
     \<and> all_sorted (prio_of q') (set held) (mutex_list q') \<and> raised new (set held) (pview q) (pview q')"
proof -
  have shape: "mutex_shape (pview q) n m" "nx n = next_priority m" using c n by (auto simp: chain_inv_def)
  have pw: "p \<in> set (mutex_waiters m)" "distinct (mutex_waiters m)" using shape(1) p by (auto simp: mutex_shape_def waiting_on_def)
  have new: "prio_of q p = new" using p by (simp add: prio_of_view vprio_def)
  have "mutex_sorted ((prio_of q)(p := old)) m" using srt n by (simp add: all_sorted_def)
  note ro = reorder [OF this pw old [folded new] ws]
  have ne: "ws \<noteq> []" using ro(3) pw(1) by auto
  have shapes: "mutex_shape (pview q) n (m\<lparr>mutex_waiters := ws, next_priority := x\<rparr>)" "mutex_shape (pview q) n (m\<lparr>mutex_waiters := ws\<rparr>)" for x
    using shape_reordered [OF shape(1) ro(2-4)] by auto
  have others: "mutex_sorted (prio_of q) m'" if "mutex_list q n' = Some m'" "n' \<notin> set held" "n' \<noteq> n" for n' m'
    using all_sorted_other [OF c p srt that(1,2)] that(3) by simp
  have c1: "chain_inv base (insert n (set held)) nx ((mutex_list q)(n \<mapsto> m')) (pview q)"
    if "current_process m' = current_process m" for m'
    using chain_change [OF chain_exempt [OF c] insertI1 n(2) that] .
  show ?thesis
  proof (cases "slot = 0 \<and> new \<noteq> next_priority m")
    case False
    let ?m = "m\<lparr>mutex_waiters := ws\<rparr>"
    have q': "q' = put_mutex n ?m q" using res False by (simp only: if_False option.inject)
    have "chain_inv base (set held) nx ((mutex_list q)(n \<mapsto> ?m)) (pview q)"
      using chain_restore [OF c1] shapes(2) shape(2) by simp
    moreover have "prio_of q (hd ws) = next_priority m"
      using ro(5,6) False new by (cases "slot = 0") auto
    then have "mutex_sorted (prio_of q) ?m" using sorted_reordered [OF ne ro(1)] by simp
    then have "all_sorted (prio_of q) (set held) ((mutex_list q)(n \<mapsto> ?m))" using others by (auto simp: all_sorted_def)
    ultimately show ?thesis using q' n(1) by (auto simp: raised_refl intro!: exI [of _ nx])
  next
    case True
    let ?m = "m\<lparr>mutex_waiters := ws, next_priority := new\<rparr>"
    let ?q = "put_mutex n ?m q"
    obtain h act prio q1 where h: "current_process m = Some h"
      and ex: "exchange_priority h (next_priority m) new ?q = Some ((act, prio), q1)"
      and rest: "(if act then rec (n # held) h prio q1 else Some q1) = Some q'"
      using res True by (auto simp: bind_eq_Some_conv)
    obtain a k b where vh: "pview q h = Some (a, k, b)" using shape(1) h by (auto simp: mutex_shape_def)
    have less: "new < next_priority m" using True ro(5) new by auto
    have c2: "chain_inv base (insert n (set held)) nx ((mutex_list q)(n \<mapsto> ?m)) (pview q)" by (rule c1) simp
    have "new \<le> nx n" using less shape(2) by simp
    note xi = exchange_inv [OF c2 insertI1 _ _ vh this, of ?m]
    have mem: "next_priority m \<in> set k" using xi(2) h shape(2) by simp
    have k: "sorted k" "a = hd k" using c vh by (auto simp: chain_inv_def priorities_ok_def)
    have ev: "prio = min new a" "act = (prio \<noteq> a)" "mutex_list q1 = (mutex_list q)(n \<mapsto> ?m)"
      "pview q1 = (pview q)(h \<mapsto> (min new a, add_priority new (remove1 (next_priority m) k), b))"
      using exchange_view [OF ex, of a k b] vh exchange_list [OF k(1) mem] less k(2) by auto
    have c3: "chain_inv base (insert n (set held)) (nx(n := new)) (mutex_list q1) (pview q1)"
      using xi(1) h ev(3,4) shape(2) by simp
    have m1: "mutex_sorted (prio_of q) ?m" using sorted_reordered [OF ne ro(1)] ro(5) True new by simp
    have s1: "all_sorted (prio_of q) (set held) (mutex_list q1)" using others m1 ev(3) by (auto simp: all_sorted_def)
    show ?thesis
    proof (cases act)
      case False
      then have "pview q1 = (pview q)(h \<mapsto> (a, add_priority new (remove1 (next_priority m) k), b))" "q' = q1"
        using ev(1,2,4) rest by auto
      then have r: "raised new (set held) (pview q) (pview q')" and f: "prio_of q' = prio_of q"
        using vh by (auto simp: raised_def prio_of_view vprio_def fun_eq_iff)
      have "chain_inv base (set held) (nx(n := new)) (mutex_list q') (pview q')"
        using chain_restore [OF c3] shapes(1) ev(3) raised_shape [OF r] \<open>q' = q1\<close> by simp
      then show ?thesis using r f s1 \<open>q' = q1\<close> ev(3) n(1) by (auto intro!: exI [of _ "nx(n := new)"])
    next
      case True
      then have act: "prio = new" "new < a" using ev(1,2) by auto
      have v1: "pview q1 = (pview q)(h \<mapsto> (new, add_priority new (remove1 (next_priority m) k), b))"
        using ev(4) act by simp
      have f: "(prio_of q1)(h := a) = prio_of q" using v1 vh by (auto simp: prio_of_view vprio_def fun_eq_iff)
      have "propagates (n # held) h new q1 q'" using IH rest True act(1) by simp
      moreover have "pview q1 h = Some (new, add_priority new (remove1 (next_priority m) k), b)" using v1 by simp
      moreover have "all_sorted ((prio_of q1)(h := a)) (set (n # held)) (mutex_list q1)"
        using s1 f by (auto simp: all_sorted_def)
      ultimately obtain nx' where c4: "chain_inv base (set (n # held)) nx' (mutex_list q') (pview q')"
        and keep: "\<forall>n' \<in> set (n # held). nx' n' = (nx(n := new)) n' \<and> mutex_list q' n' = mutex_list q1 n'"
        and s4: "all_sorted (prio_of q') (set (n # held)) (mutex_list q')"
        and r4: "raised new (insert n (set held)) (pview q1) (pview q')" and b: "b \<notin> Some ` set (n # held)"
        unfolding propagates_def using c3 act(2) by fastforce
      have r: "raised new (set held) (pview q) (pview q')"
        using raised_step [OF vh act(2) r4 [unfolded v1]] b by simp
      have qn: "mutex_list q' n = Some ?m" "nx' n = new" using keep ev(3) by auto
      have "mutex_sorted (prio_of q') ?m"
      proof -
        have "set (mutex_waiters ?m) \<subseteq> waiting_on (pview q1) n" using shapes(1) vh v1 by (auto simp: mutex_shape_def waiting_on_def)
        then have "mutex_sorted (prio_of q') ?m = mutex_sorted (prio_of q1) ?m"
          using raised_sorted [OF r4, of n ?m] by (simp add: prio_of_view)
        moreover have "h \<notin> set (mutex_waiters ?m)"
          using b shapes(1) vh by (auto simp: mutex_shape_def waiting_on_def)
        then have "map (prio_of q1) (mutex_waiters ?m) = map (prio_of q) (mutex_waiters ?m)"
          using map_other [of h "mutex_waiters ?m" "prio_of q1" a] f by metis
        ultimately show ?thesis using m1 mutex_sorted_cong by blast
      qed
      then have "all_sorted (prio_of q') (set held) (mutex_list q')" using all_sorted_insert [of "prio_of q'" n "set held" "mutex_list q'"] s4 qn(1) by simp
      moreover have "chain_inv base (set held) nx' (mutex_list q') (pview q')"
        using c4 chain_restore [of base n "set held" nx' "mutex_list q'" "pview q'"] shapes(1) qn raised_shape [OF r] by simp
      ultimately show ?thesis using r keep ev(3) n(1) by (auto intro!: exI [of _ nx'])
    qed
  qed
qed

lemma propagates:
  "propagate_priority_transitive held p new q = Some q' \<Longrightarrow> propagates held p new q q'"
proof (erule propagate_priority_transitive.raw_induct [rotated])
  fix rec held p new q q'
  assume IH: "\<And>held h prio q q'. rec held h prio q = Some q' \<Longrightarrow> propagates held h prio q q'"
    and body: "Option.bind (get_mutex_blocking p q) (\<lambda>expected.
       case expected of
         None \<Rightarrow> Some q
       | Some name \<Rightarrow>
           (if name \<in> set held then None
            else Option.bind (mutex_list q name) (\<lambda>m.
              if \<not> priority_active m then Some q
              else (case remove_pcb_list (mutex_waiters m) p of
                 (found, others) \<Rightarrow>
                   (if \<not> found then Some q
                    else Option.bind (insert_pcb_sorted others p q) (\<lambda>(waiters, slot).
                      (let m1 = m\<lparr>mutex_waiters := waiters\<rparr>
                       in if slot = 0 \<and> new \<noteq> next_priority m
                          then Option.bind (current_process m) (\<lambda>holder.
                                 Option.bind (exchange_priority holder (next_priority m) new
                                     (put_mutex name (m1\<lparr>next_priority := new\<rparr>) q)) (\<lambda>((act, prio), q1).
                                   if act then rec (name # held) holder prio q1 else Some q1))
                          else Some (put_mutex name m1 q)))))))) = Some q'"
  show "propagates held p new q q'"
    unfolding propagates_def
  proof (intro allI impI, elim conjE)
    fix base nx l b old
    assume c: "chain_inv base (set held) nx (mutex_list q) (pview q)" and p: "pview q p = Some (new, l, b)" "new < old"
      and s: "all_sorted ((prio_of q)(p := old)) (set held) (mutex_list q)"
    have gb: "get_mutex_blocking p q = Some b" using p(1) by (auto simp: get_mutex_blocking_def pview_Some)
    show "(\<exists>nx'. chain_inv base (set held) nx' (mutex_list q') (pview q')
        \<and> (\<forall>n \<in> set held. nx' n = nx n \<and> mutex_list q' n = mutex_list q n))
     \<and> all_sorted (prio_of q') (set held) (mutex_list q')
     \<and> raised new (set held) (pview q) (pview q') \<and> b \<notin> Some ` set held"
    proof (cases b)
      case None
      then have "q' = q" using body gb by simp
      moreover have "all_sorted (prio_of q) (set held) (mutex_list q)"
        using all_sorted_other [OF c p(1) s] None unfolding all_sorted_def by blast
      ultimately show ?thesis using c None by (auto simp: raised_refl)
    next
      case (Some n)
      have n: "n \<notin> set held" using body gb Some by (auto split: if_splits)
      obtain m where m: "mutex_list q n = Some m" using body gb Some n by (auto simp: bind_eq_Some_conv)
      have shape: "mutex_shape (pview q) n m" using c m n by (simp add: chain_inv_def)
      then have "priority_active m" "p \<in> set (mutex_waiters m)" using p(1) Some by (auto simp: mutex_shape_def waiting_on_def)
      then obtain ws slot where "insert_pcb_sorted (remove1 p (mutex_waiters m)) p q = Some (ws, slot)"
        "(if slot = 0 \<and> new \<noteq> next_priority m
          then Option.bind (current_process m) (\<lambda>holder.
                 Option.bind (exchange_priority holder (next_priority m) new
                     (put_mutex n (m\<lparr>mutex_waiters := ws, next_priority := new\<rparr>) q)) (\<lambda>((act, prio), q1).
                   if act then rec (n # held) holder prio q1 else Some q1))
          else Some (put_mutex n (m\<lparr>mutex_waiters := ws\<rparr>) q)) = Some q'"
        using body gb Some n m by (auto simp: remove_pcb_list_def bind_eq_Some_conv Let_def)
      from propagates_step [where rec = rec, OF IH c p(1) [unfolded Some] p(2) s n m this] n Some show ?thesis by auto
    qed
  qed
qed

text \<open>
  \<open>replace_priority\<close> on the holder of an exempt mutex: the better priority takes the place of the old one and
  goes up the chain.
\<close>

lemma replace_inv:
  assumes r: "replace_priority held h (nx n) new q = Some q'"
    and c: "chain_inv base (set held) nx (mutex_list q) (pview q)" and n: "n \<in> set held" "mutex_list q n = Some m" "current_process m = Some h"
    and h: "pview q h = Some (a, l, b)" and new: "new \<le> nx n" and s: "all_sorted (prio_of q) (set held) (mutex_list q)"
  shows "(\<exists>nx'. chain_inv base (set held) nx' (mutex_list q') (pview q') \<and> nx' n = new
        \<and> (\<forall>n' \<in> set held. mutex_list q' n' = mutex_list q n'))
     \<and> all_sorted (prio_of q') (set held) (mutex_list q') \<and> raised new (set held) (pview q) (pview q')"
proof -
  obtain act prio q1 where ex: "exchange_priority h (nx n) new q = Some ((act, prio), q1)"
    and rest: "(if act then propagate_priority_transitive held h prio q1 else Some q1) = Some q'"
    using r by (auto simp: replace_priority_def bind_eq_Some_conv)
  note xi = exchange_inv [OF c n h new]
  have l: "sorted l" "a = hd l" using c h by (auto simp: chain_inv_def priorities_ok_def)
  have ev: "prio = min new a" "act = (prio \<noteq> a)" "mutex_list q1 = mutex_list q"
    "pview q1 = (pview q)(h \<mapsto> (min new a, add_priority new (remove1 (nx n) l), b))"
    using exchange_view [OF ex h] exchange_list [OF l(1) xi(2) new] l(2) by auto
  have c1: "chain_inv base (set held) (nx(n := new)) (mutex_list q1) (pview q1)" using xi(1) ev by simp
  show ?thesis
  proof (cases act)
    case False
    then have "pview q1 = (pview q)(h \<mapsto> (a, add_priority new (remove1 (nx n) l), b))" "q' = q1" using ev rest by auto
    then have "raised new (set held) (pview q) (pview q')" "prio_of q' = prio_of q"
      using h by (auto simp: raised_def prio_of_view vprio_def fun_eq_iff)
    then show ?thesis using c1 s ev(3) \<open>q' = q1\<close> by (auto intro!: exI [of _ "nx(n := new)"])
  next
    case True
    then have act: "prio = new" "new < a" using ev(1,2) by auto
    have v1: "pview q1 = (pview q)(h \<mapsto> (new, add_priority new (remove1 (nx n) l), b))" using ev(4) act by simp
    have f: "(prio_of q1)(h := a) = prio_of q" using v1 h by (auto simp: prio_of_view vprio_def fun_eq_iff)
    have "propagates held h new q1 q'" using propagates rest True act(1) by simp
    moreover have "pview q1 h = Some (new, add_priority new (remove1 (nx n) l), b)" using v1 by simp
    moreover have "all_sorted ((prio_of q1)(h := a)) (set held) (mutex_list q1)" using s f ev(3) by simp
    ultimately obtain nx' where nx': "chain_inv base (set held) nx' (mutex_list q') (pview q')"
      "\<forall>n' \<in> set held. nx' n' = (nx(n := new)) n' \<and> mutex_list q' n' = mutex_list q1 n'"
      "all_sorted (prio_of q') (set held) (mutex_list q')" "raised new (set held) (pview q1) (pview q')" "b \<notin> Some ` set held"
      unfolding propagates_def using c1 act(2) by fastforce
    have "raised new (insert n (set held)) (pview q1) (pview q')" using nx'(4) n(1) by (simp add: insert_absorb)
    then have "raised new (set held) (pview q) (pview q')" using raised_step [of "pview q" h a l b new n "set held"] h act(2) v1 nx'(5) by simp
    then show ?thesis using nx' ev(3) n(1) by (auto intro!: exI [of _ nx'])
  qed
qed

subsection \<open>Taking, releasing and waiting for a mutex\<close>

lemma shape_cong: "waiting_on v' n = waiting_on v n \<Longrightarrow> (\<And>h. v' h = None \<longleftrightarrow> v h = None) \<Longrightarrow> mutex_shape v' n m = mutex_shape v n m"
  by (simp add: mutex_shape_def)

lemma chain_acquire:
  assumes c: "chain_inv base H nx ms v" and n: "n \<in> H" "ms n = Some m" "current_process m = None" "current_process m' = Some r"
    and r: "v r = Some (a, l, b)"
  shows "chain_inv base H (nx(n := x)) (ms(n \<mapsto> m')) (v(r \<mapsto> (min x a, add_priority x l, b)))" (is "chain_inv base H ?nx ?ms ?v")
proof -
  have hb: "held_by ?ms r = insert n (held_by ms r)" "n \<notin> held_by ms r" using n by (auto simp: held_by_def)
  have other: "held_by ?ms r' = held_by ms r'" if "r' \<noteq> r" for r' using n that by (auto simp: held_by_def)
  have nn: "n \<notin> held_by ms r'" for r' using n by (auto simp: held_by_def)
  have fin: "finite (held_by ms r)" for r using c by (simp add: chain_inv_def finite_held_by)
  have im: "image_mset ?nx (mset_set (held_by ms r')) = image_mset nx (mset_set (held_by ms r'))" for r'
    using nn fin by (intro image_mset_cong) auto
  have ok: "priorities_ok base nx ms r a l" using c r by (simp add: chain_inv_def)
  then have "hd (add_priority x l) = min x a" by (cases l) (auto simp: priorities_ok_def add_priority_props(4))
  then have "priorities_ok base ?nx ?ms r (min x a) (add_priority x l)"
    using ok hb fin [of r] im [of r] by (simp add: priorities_ok_def add_priority_props)
  moreover have "priorities_ok base ?nx ?ms r' a' l'" if "r' \<noteq> r" "priorities_ok base nx ms r' a' l'" for r' a' l'
    using that other im by (simp add: priorities_ok_def)
  moreover have "mutex_shape ?v n' m' = mutex_shape v n' m'" for n' m'
    using r by (intro shape_cong) (auto simp: waiting_on_def)
  ultimately show ?thesis using c n(1) r by (auto simp: chain_inv_def)
qed

lemma chain_release:
  assumes c: "chain_inv base H nx ms v" and n: "n \<in> H" "ms n = Some m" "current_process m = Some r" "current_process m' = None"
    and r: "v r = Some (a, l, b)"
  shows "chain_inv base H nx (ms(n \<mapsto> m')) (v(r \<mapsto> (hd (remove1 (nx n) l), remove1 (nx n) l, b)))" (is "chain_inv base H nx ?ms ?v")
    and "remove1 (nx n) l \<noteq> []"
proof -
  have hb: "held_by ms r = insert n (held_by ?ms r)" "n \<notin> held_by ?ms r" using n by (auto simp: held_by_def)
  have other: "held_by ?ms r' = held_by ms r'" if "r' \<noteq> r" for r' using n that by (auto simp: held_by_def)
  have fin: "finite (held_by ?ms r)" using c hb(1) by (metis chain_inv_def finite_held_by finite_insert)
  have ok: "priorities_ok base nx ms r a l" using c r by (simp add: chain_inv_def)
  then have ml: "mset l = add_mset (base r) (add_mset (nx n) (image_mset nx (mset_set (held_by ?ms r))))"
    using hb fin by (simp add: priorities_ok_def)
  then have mr: "mset (remove1 (nx n) l) = add_mset (base r) (image_mset nx (mset_set (held_by ?ms r)))" by simp
  then show ne: "remove1 (nx n) l \<noteq> []" by (metis add_mset_not_empty mset_zero_iff)
  have "priorities_ok base nx ?ms r (hd (remove1 (nx n) l)) (remove1 (nx n) l)"
    using ok mr ne by (simp add: priorities_ok_def sorted_remove1)
  moreover have "priorities_ok base nx ?ms r' a' l'" if "r' \<noteq> r" "priorities_ok base nx ms r' a' l'" for r' a' l'
    using that other by (simp add: priorities_ok_def)
  moreover have "mutex_shape ?v n' m' = mutex_shape v n' m'" for n' m'
    using r by (intro shape_cong) (auto simp: waiting_on_def)
  ultimately show "chain_inv base H nx ?ms ?v" using c n(1) r by (auto simp: chain_inv_def)
qed

text \<open>A process starts or stops waiting for an exempt mutex.\<close>

lemma chain_reblock:
  assumes c: "chain_inv base H nx ms v" and r: "v r = Some (a, l, b)" and n: "n \<in> H" "ms n \<noteq> None"
    and b: "b = None \<and> b' = Some n \<or> b = Some n \<and> b' = None"
  shows "chain_inv base H nx ms (v(r \<mapsto> (a, l, b')))" (is "chain_inv base H nx ms ?v")
proof -
  have "mutex_shape ?v n' m' = mutex_shape v n' m'" if "n' \<notin> H" for n' m'
    using r that n(1) b by (intro shape_cong) (auto simp: waiting_on_def)
  then show ?thesis using c r n b by (auto simp: chain_inv_def)
qed

lemma wf_intro:
  "chain_inv base {} nx (mutex_list q) (pview q) \<Longrightarrow> all_sorted (prio_of q) {} (mutex_list q) \<Longrightarrow> mutex_wf base q"
  by (auto simp: mutex_wf_def all_sorted_def)

lemma wf_facts:
  assumes "mutex_wf base q"
  obtains nx where "chain_inv base {} nx (mutex_list q) (pview q)" "all_sorted (prio_of q) {} (mutex_list q)"
    "\<And>n m. mutex_list q n = Some m \<Longrightarrow> mutex_shape (pview q) n m \<and> nx n = next_priority m \<and> mutex_sorted (prio_of q) m"
  using assms by (auto simp: mutex_wf_def all_sorted_def chain_inv_def)

lemma insert_priority_view:
  assumes "insert_priority r x q = Some q1" "pview q r = Some (a, l, b)"
  shows "pview q1 = (pview q)(r \<mapsto> (min x a, add_priority x l, b)) \<and> mutex_list q1 = mutex_list q"
proof -
  obtain p where "pcbs q r = Some p" "pcb_priority p = a" "priority_list p = l" "blocking_mutex p = b"
    using assms(2) by (auto simp: pview_Some)
  then show ?thesis using assms(1) by (auto simp: insert_priority_def update_pcb_def min_def)
qed

lemma shape_free: "mutex_shape v n m \<Longrightarrow> mutex_state m = 1 \<longleftrightarrow> current_process m = None"
  by (auto simp: mutex_shape_def split: if_splits)

text \<open>A free mutex is taken.\<close>

lemma lock_free_wf:
  assumes wf: "mutex_wf base q" and r: "pview q r = Some (a, l, None)" and m: "mutex_list q n = Some m" "mutex_state m = 1"
    and q1: "insert_priority r INT_MAX_PRIORITY (put_mutex n (m\<lparr>current_process := Some r, next_priority := INT_MAX_PRIORITY\<rparr>) q) = Some q1"
  shows "mutex_wf base (change_mutex n (\<lambda>m. m\<lparr>mutex_state := mutex_state m - 1\<rparr>) q1)" (is "mutex_wf base ?q")
proof -
  obtain nx where c: "chain_inv base {} nx (mutex_list q) (pview q)" and s: "all_sorted (prio_of q) {} (mutex_list q)"
    and f: "mutex_shape (pview q) n m" using wf_facts [OF wf] m(1) by metis
  have free: "current_process m = None" "mutex_waiters m = []" using f m(2) shape_free [OF f] by (auto simp: mutex_shape_def)
  let ?m = "m\<lparr>current_process := Some r, next_priority := INT_MAX_PRIORITY, mutex_state := 0\<rparr>"
  have v: "pview q1 = (pview q)(r \<mapsto> (min INT_MAX_PRIORITY a, add_priority INT_MAX_PRIORITY l, None))"
    "mutex_list q1 = (mutex_list q)(n \<mapsto> m\<lparr>current_process := Some r, next_priority := INT_MAX_PRIORITY\<rparr>)"
    using insert_priority_view [OF q1] r unfolding view_put_mutex by blast+
  have l: "mutex_list ?q = (mutex_list q)(n \<mapsto> ?m)" using v(2) m(2) by simp
  have shape: "mutex_shape (pview q1) n ?m"
    using f free r v(1) by (auto simp: mutex_shape_def waiting_on_def)
  have "chain_inv base {n} (nx(n := INT_MAX_PRIORITY)) ((mutex_list q)(n \<mapsto> ?m)) (pview q1)"
    using chain_acquire [OF chain_exempt [OF c], of n n m ?m r a l None INT_MAX_PRIORITY] m(1) free r v(1) by simp
  from chain_restored [OF this shape] have "chain_inv base {} (nx(n := INT_MAX_PRIORITY)) (mutex_list ?q) (pview ?q)"
    using l by simp
  moreover have "all_sorted (prio_of ?q) {} (mutex_list ?q)"
  proof -
    have "mutex_sorted (prio_of q1) m'" if m': "mutex_list q n' = Some m'" "n' \<noteq> n" for n' m'
    proof -
      have "r \<notin> set (mutex_waiters m')" using not_waiting [OF c r m'(1)] by simp
      then have "map (prio_of q1) (mutex_waiters m') = map (prio_of q) (mutex_waiters m')"
        using v(1) by (auto simp: prio_of_view vprio_def)
      then show ?thesis using s m'(1) mutex_sorted_cong unfolding all_sorted_def by blast
    qed
    then show ?thesis using l free(2) by (auto simp: all_sorted_def mutex_sorted_def)
  qed
  ultimately show ?thesis by (rule wf_intro)
qed

text \<open>A taken mutex: the process joins those who wait.\<close>

lemma wait_for_mutex_view:
  assumes "wait_for_mutex n r q = Some q'" "pview q r = Some (a, l, b)"
  shows "pview q' = (pview q)(r \<mapsto> (a, l, Some n)) \<and> mutex_list q' = mutex_list q"
proof -
  obtain p where p: "pcbs q r = Some p" "pcb_priority p = a" "priority_list p = l" using assms(2) by (auto simp: pview_Some)
  then have "same_view (q\<lparr>pcbs := (pcbs q)(r \<mapsto> p\<lparr>blocking_mutex := Some n\<rparr>)\<rparr>) q'"
    using assms(1) by (auto simp: wait_for_mutex_def set_mutex_blocking_def update_pcb_def dest!: view_exec_block)
  then show ?thesis using p by (simp add: same_view_def)
qed

lemma wait_end_wf:
  assumes c: "chain_inv base {n} nx (mutex_list q) (pview q)" and m: "mutex_list q n = Some m" "nx n = next_priority m" "current_process m \<noteq> None"
    and shape: "mutex_shape (pview q) n (m\<lparr>mutex_waiters := ws\<rparr>)"
    and joined: "set (mutex_waiters m) = insert r (set ws)" "distinct (mutex_waiters m)" "length (mutex_waiters m) = Suc (length ws)"
    and r: "pview q r = Some (a, l, None)" and s: "mutex_sorted (prio_of q) m" "all_sorted (prio_of q) {n} (mutex_list q)"
    and w: "wait_for_mutex n r q = Some q1"
  shows "mutex_wf base (change_mutex n (\<lambda>m. m\<lparr>mutex_state := mutex_state m - 1\<rparr>) q1)" (is "mutex_wf base ?q")
proof -
  let ?m = "m\<lparr>mutex_state := mutex_state m - 1\<rparr>"
  have v: "pview q1 = (pview q)(r \<mapsto> (a, l, Some n))" "mutex_list q1 = mutex_list q" using wait_for_mutex_view [OF w r] by auto
  have l: "mutex_list ?q = (mutex_list q)(n \<mapsto> ?m)" using v(2) m(1) by simp
  have f: "prio_of q1 = prio_of q" using v(1) r by (auto simp: prio_of_view vprio_def fun_eq_iff)
  have won: "waiting_on (pview q1) n = insert r (waiting_on (pview q) n)" using v(1) r by (auto simp: waiting_on_def)
  have sh: "mutex_shape (pview q1) n ?m"
    using shape joined m(3) v(1) won by (auto simp: mutex_shape_def)
  have "chain_inv base {n} nx (mutex_list q) (pview q1)"
    using chain_reblock [OF c r, of n "Some n"] m(1) v(1) by simp
  then have "chain_inv base {n} nx ((mutex_list q)(n \<mapsto> ?m)) (pview q1)"
    using chain_change [of base "{n}" nx "mutex_list q" "pview q1" n m ?m] m(1) by simp
  then have "chain_inv base {} nx ((mutex_list q)(n \<mapsto> ?m)) (pview q1)" using chain_restored [OF _ sh] m(2) by simp
  moreover have "mutex_sorted (prio_of q) ?m" using s(1) by (simp add: mutex_sorted_def)
  moreover have "all_sorted (prio_of q) {n} ((mutex_list q)(n \<mapsto> ?m))" using s(2) by (simp add: all_sorted_def)
  ultimately have "chain_inv base {} nx ((mutex_list q)(n \<mapsto> ?m)) (pview q1)" "all_sorted (prio_of q) {} ((mutex_list q)(n \<mapsto> ?m))"
    using all_sorted_insert [of "prio_of q" n "{}" "(mutex_list q)(n \<mapsto> ?m)" ?m] by simp_all
  then show ?thesis using f l by (intro wf_intro) simp_all
qed

lemma lock_wait_wf:
  assumes wf: "mutex_wf base q" and r: "pview q r = Some (a, l, None)" "a \<le> INT_MAX_PRIORITY"
    and m: "mutex_list q n = Some m" "mutex_state m \<noteq> 1"
    and ins: "insert_pcb_sorted (mutex_waiters m) r q = Some (ws, slot)"
    and q2: "(if slot = 0
              then Option.bind (current_process m) (\<lambda>holder.
                     Option.bind (replace_priority [n] holder (next_priority m) a (put_mutex n (m\<lparr>mutex_waiters := ws\<rparr>) q)) (\<lambda>q2.
                       update_lowest_exec_priority (change_mutex n (\<lambda>m. m\<lparr>next_priority := a\<rparr>) q2)))
              else Some (put_mutex n (m\<lparr>mutex_waiters := ws\<rparr>) q)) = Some q2"
    and q3: "wait_for_mutex n r q2 = Some q3"
  shows "mutex_wf base (change_mutex n (\<lambda>m. m\<lparr>mutex_state := mutex_state m - 1\<rparr>) q3)"
proof -
  obtain nx where c: "chain_inv base {} nx (mutex_list q) (pview q)" and s: "all_sorted (prio_of q) {} (mutex_list q)"
    and f: "mutex_shape (pview q) n m" "nx n = next_priority m" "mutex_sorted (prio_of q) m" using wf_facts [OF wf] m(1) by metis
  let ?q = "put_mutex n (m\<lparr>mutex_waiters := ws\<rparr>) q"
  have holder: "current_process m \<noteq> None" using m(2) shape_free [OF f(1)] by simp
  have nr: "r \<notin> set (mutex_waiters m)" using not_waiting [OF c r(1) m(1)] by simp
  have ws: "distinct ws" "set ws = insert r (set (mutex_waiters m))" "length ws = Suc (length (mutex_waiters m))"
    using insert_front(3-5) [OF ins] f(1) nr by (auto simp: mutex_shape_def)
  have sw: "sorted (map (prio_of q) ws)" using insert_sorted_map [OF ins] f(3) by (simp add: mutex_sorted_def)
  have pr: "prio_of q r = a" using r by (simp add: prio_of_view vprio_def)
  have c1: "chain_inv base {n} nx (mutex_list ?q) (pview ?q)"
    using chain_change [OF chain_exempt [OF c], of n n m "m\<lparr>mutex_waiters := ws\<rparr>"] m(1) by simp
  have s1: "all_sorted (prio_of q) {n} (mutex_list ?q)" using s by (auto simp: all_sorted_def)
  show ?thesis
  proof (cases "slot = 0")
    case False
    then have q2': "q2 = ?q" using q2 by simp
    have "hd ws = hd (mutex_waiters m)" "mutex_waiters m \<noteq> []" using insert_front(2) [OF ins False] by auto
    then have "prio_of q (hd ws) = next_priority m" using f(3) by (cases "mutex_waiters m") (auto simp: mutex_sorted_def)
    then have "mutex_sorted (prio_of q) (m\<lparr>mutex_waiters := ws\<rparr>)" using sorted_reordered [of ws "prio_of q" "m\<lparr>mutex_waiters := ws\<rparr>"] sw ws(3) by (cases ws) auto
    then show ?thesis
      using wait_end_wf [OF c1, of "m\<lparr>mutex_waiters := ws\<rparr>" "mutex_waiters m" r a l] f(1,2) holder ws r(1) s1 q3 q2' by simp
  next
    case True
    obtain h q1 where h: "current_process m = Some h" and rp: "replace_priority [n] h (nx n) a ?q = Some q1"
      and q2': "update_lowest_exec_priority (change_mutex n (\<lambda>m. m\<lparr>next_priority := a\<rparr>) q1) = Some q2"
      using q2 True f(2) by (auto simp: bind_eq_Some_conv)
    have hd: "hd ws = r" "ws \<noteq> []" using insert_front(1) [OF ins True] by auto
    have le: "a \<le> nx n"
      using f(2,3) r(2) sw insert_front(1) [OF ins True] pr by (cases "mutex_waiters m") (auto simp: mutex_sorted_def)
    obtain b k d where vh: "pview ?q h = Some (b, k, d)" using f(1) h by (auto simp: mutex_shape_def)
    from replace_inv [of "[n]" h nx n a ?q q1 base "m\<lparr>mutex_waiters := ws\<rparr>" b k d] obtain nx' where
      c2: "chain_inv base {n} nx' (mutex_list q1) (pview q1)" and nx': "nx' n = a" and mq1: "mutex_list q1 n = mutex_list ?q n"
      and s2: "all_sorted (prio_of q1) {n} (mutex_list q1)" and ra: "raised a {n} (pview q) (pview q1)"
      using c1 s1 h rp vh le by auto
    let ?m2 = "m\<lparr>mutex_waiters := ws, next_priority := a\<rparr>"
    have sv: "pview q2 = pview q1" "mutex_list q2 = (mutex_list q1)(n \<mapsto> ?m2)" "prio_of q2 = prio_of q1"
      using view_lowest [OF q2'] mq1 by (auto simp: same_view_def prio_of_view)
    have c3: "chain_inv base {n} nx' (mutex_list q2) (pview q2)"
      using chain_change [OF c2, of n "m\<lparr>mutex_waiters := ws\<rparr>" ?m2] mq1 sv by simp
    have s3: "all_sorted (prio_of q2) {n} (mutex_list q2)" using s2 sv by (auto simp: all_sorted_def)
    obtain a' l' where "pview q1 r = Some (a', l', None)" "a' = a \<or> a' = a \<and> a < a" using raised_Some [OF ra r(1)] by blast
    then have r2: "pview q2 r = Some (a, l', None)" using sv by simp
    have "map (prio_of q2) ws = map (prio_of q) ws"
    proof -
      have "prio_of q2 x = prio_of q x" if "x \<in> set (mutex_waiters m)" for x
      proof -
        have "x \<in> waiting_on (pview q) n" using f(1) that by (simp add: mutex_shape_def)
        then obtain y k where "pview q x = Some (y, k, Some n)" by (auto simp: waiting_on_def)
        with raised_Some [OF ra this] show ?thesis using sv by (auto simp: prio_of_view vprio_def)
      qed
      moreover have "prio_of q2 r = prio_of q r" using r2 pr by (simp add: prio_of_view vprio_def)
      ultimately show ?thesis using ws(2) by auto
    qed
    then have "sorted (map (prio_of q2) ws)" using sw by (simp only:)
    moreover have "prio_of q2 r = a" using r2 by (simp add: prio_of_view vprio_def)
    ultimately have "mutex_sorted (prio_of q2) ?m2" using sorted_reordered [of ws "prio_of q2" ?m2] hd by simp
    moreover have "mutex_shape (pview q2) n (?m2\<lparr>mutex_waiters := mutex_waiters m\<rparr>)"
    proof -
      have "mutex_shape (pview q2) n m" using f(1) raised_shape [OF ra] sv(1) by simp
      then show ?thesis by (simp add: mutex_shape_def)
    qed
    ultimately show ?thesis
      using wait_end_wf [OF c3, of ?m2 "mutex_waiters m" r a l'] nx' holder ws r2 s3 q3 sv(2) by simp
  qed
qed

text \<open>Locking, whatever the state of the mutex.\<close>

lemma mutex_lock_wf:
  assumes lock: "mutex_lock n r q = Some (ret, q')" and wf: "mutex_wf base q"
    and r: "pview q r = Some (a, l, None)" "a \<le> INT_MAX_PRIORITY"
  shows "mutex_wf base q'"
proof -
  have a: "get_priority_pcb r q = Some a" using r(1) by (auto simp: get_priority_pcb_def pview_Some)
  obtain m where m: "mutex_list q n = Some m" using lock a by (auto simp: mutex_lock_def bind_eq_Some_conv)
  show ?thesis
  proof (cases "mutex_state m = 1")
    case True
    obtain q1 where "insert_priority r INT_MAX_PRIORITY (put_mutex n (m\<lparr>current_process := Some r, next_priority := INT_MAX_PRIORITY\<rparr>) q) = Some q1"
      "q' = change_mutex n (\<lambda>m. m\<lparr>mutex_state := mutex_state m - 1\<rparr>) q1"
      using lock a m True by (auto simp: mutex_lock_def bind_eq_Some_conv)
    then show ?thesis using lock_free_wf [OF wf r(1) m True] by simp
  next
    case False
    have "priority_active m" using wf m by (metis wf_facts mutex_shape_def)
    then obtain ws slot q2 q3 where "insert_pcb_sorted (mutex_waiters m) r q = Some (ws, slot)"
      "(if slot = 0
              then Option.bind (current_process m) (\<lambda>holder.
                     Option.bind (replace_priority [n] holder (next_priority m) a (put_mutex n (m\<lparr>mutex_waiters := ws\<rparr>) q)) (\<lambda>q2.
                       update_lowest_exec_priority (change_mutex n (\<lambda>m. m\<lparr>next_priority := a\<rparr>) q2)))
              else Some (put_mutex n (m\<lparr>mutex_waiters := ws\<rparr>) q)) = Some q2"
      "wait_for_mutex n r q2 = Some q3" "q' = change_mutex n (\<lambda>m. m\<lparr>mutex_state := mutex_state m - 1\<rparr>) q3"
      using lock a m False by (auto simp: mutex_lock_def bind_eq_Some_conv)
    then show ?thesis using lock_wait_wf [OF wf r m False] by blast
  qed
qed

subsection \<open>Unlocking\<close>

lemma remove_priority_view:
  assumes "remove_priority r x q = Some (updated, q')" "pview q r = Some (a, l, b)"
  shows "pview q' = (pview q)(r \<mapsto> (hd (remove1 x l), remove1 x l, b)) \<and> mutex_list q' = mutex_list q"
proof -
  obtain first where "set_first_priority r (\<lambda>xs. remove_priority_list xs x) q = Some ((updated, first), q')"
    using assms(1) by (auto simp: remove_priority_def)
  from set_first_view [OF this assms(2)] show ?thesis by (auto simp: remove_priority_list_def)
qed

text \<open>The holder gives up what it inherited; the mutex is left without a holder.\<close>

lemma give_up:
  assumes wf: "mutex_wf base q" and r: "pview q r = Some (a, l, None)" and m: "mutex_list q n = Some m" "current_process m = Some r"
    and q1: "Option.bind (remove_priority r (next_priority m) q)
               (\<lambda>(updated, q1). if updated then update_lowest_exec_priority q1 else Some q1) = Some q1"
  shows "mutex_list q1 = mutex_list q"
    "\<exists>nx. \<forall>m'. current_process m' = None \<longrightarrow> chain_inv base {n} nx ((mutex_list q)(n \<mapsto> m')) (pview q1)"
    "all_sorted (prio_of q1) {} (mutex_list q)" "mutex_shape (pview q1) n m"
    "\<And>x. pview q1 x = (if x = r then pview q1 r else pview q x)" "\<exists>a l. pview q1 r = Some (a, l, None)"
proof -
  obtain nx where c: "chain_inv base {} nx (mutex_list q) (pview q)" and s: "all_sorted (prio_of q) {} (mutex_list q)"
    and f: "mutex_shape (pview q) n m" "nx n = next_priority m" using wf_facts [OF wf] m(1) by metis
  let ?l = "remove1 (next_priority m) l"
  have v: "pview q1 = (pview q)(r \<mapsto> (hd ?l, ?l, None))" "mutex_list q1 = mutex_list q"
    using q1 remove_priority_view [OF _ r] by (auto simp: bind_eq_Some_conv same_view_def split: if_splits dest!: view_lowest)
  show "mutex_list q1 = mutex_list q" by (rule v(2))
  show "\<exists>nx. \<forall>m'. current_process m' = None \<longrightarrow> chain_inv base {n} nx ((mutex_list q)(n \<mapsto> m')) (pview q1)"
    using chain_release(1) [OF chain_exempt [OF c], of n n m r] m r v(1) f(2) by auto
  show "mutex_shape (pview q1) n m"
  proof -
    have "mutex_shape (pview q1) n m = mutex_shape (pview q) n m"
      by (rule shape_cong) (use r v(1) in \<open>auto simp: waiting_on_def\<close>)
    then show ?thesis using f(1) by simp
  qed
  have "mutex_sorted (prio_of q1) m'" if m': "mutex_list q n' = Some m'" for n' m'
  proof -
    have "r \<notin> set (mutex_waiters m')" using not_waiting [OF c r m'(1)] by simp
    then have "map (prio_of q1) (mutex_waiters m') = map (prio_of q) (mutex_waiters m')"
      using v(1) by (auto simp: prio_of_view vprio_def)
    then show ?thesis using s m' mutex_sorted_cong unfolding all_sorted_def by blast
  qed
  then show "all_sorted (prio_of q1) {} (mutex_list q)" by (simp add: all_sorted_def)
  show "\<And>x. pview q1 x = (if x = r then pview q1 r else pview q x)" "\<exists>a l. pview q1 r = Some (a, l, None)" using v(1) by auto
qed

lemma set_blocking_view:
  assumes "set_mutex_blocking r b' q = Some q'" "pview q r = Some (a, l, b)"
  shows "pview q' = (pview q)(r \<mapsto> (a, l, b')) \<and> mutex_list q' = mutex_list q"
proof -
  obtain p where "pcbs q r = Some p" "pcb_priority p = a" "priority_list p = l" using assms(2) by (auto simp: pview_Some)
  then show ?thesis using assms(1) by (auto simp: set_mutex_blocking_def update_pcb_def)
qed

text \<open>The first process that waits becomes the holder.\<close>

lemma hand_over_effect:
  assumes h: "hand_over n m q = Some q'" and act: "priority_active m" and v: "pview q heir = Some (a, l, b)"
    and w: "mutex_waiters m = heir # others" and st: "mutex_state m = -1 \<longleftrightarrow> others = []" and d: "heir \<notin> set others"
  shows "\<exists>x. x = (case others of [] \<Rightarrow> INT_MAX_PRIORITY | r # rs \<Rightarrow> prio_of q r)
    \<and> pview q' = (pview q)(heir \<mapsto> (min x a, add_priority x l, None))
    \<and> mutex_list q' = (mutex_list q)(n \<mapsto> m\<lparr>mutex_waiters := others, current_process := Some heir, next_priority := x\<rparr>)"
proof -
  let ?m = "m\<lparr>mutex_waiters := others, current_process := Some heir\<rparr>"
  obtain q1 x q2 where q1: "set_mutex_blocking heir None (put_mutex n ?m q) = Some q1"
    and nx: "(if mutex_state m = -1 then Some INT_MAX_PRIORITY
              else (case others of [] \<Rightarrow> None | r # rs \<Rightarrow> get_priority_pcb r q1)) = Some x"
    and q2: "insert_priority heir x (change_mutex n (\<lambda>m. m\<lparr>next_priority := x\<rparr>) q1) = Some q2"
    and q': "transition_unlock heir q2 = Some q'"
    using h act w by (auto simp: hand_over_def bind_eq_Some_conv)
  have v1: "pview q1 = (pview q)(heir \<mapsto> (a, l, None))" "mutex_list q1 = (mutex_list q)(n \<mapsto> ?m)"
    using set_blocking_view [OF q1] v unfolding view_put_mutex by blast+
  have "x = (case others of [] \<Rightarrow> INT_MAX_PRIORITY | r # rs \<Rightarrow> prio_of q r)"
  proof (cases others)
    case (Cons r rs)
    then have "get_priority_pcb r q1 = Some x" "r \<noteq> heir" using nx st d by auto
    then have "\<exists>k b. pview q1 r = Some (x, k, b)" by (auto simp: get_priority_pcb_def pview_Some)
    then show ?thesis using v1(1) \<open>r \<noteq> heir\<close> Cons by (auto simp: prio_of_view vprio_def)
  qed (use nx st in simp)
  moreover have "pview (change_mutex n (\<lambda>m. m\<lparr>next_priority := x\<rparr>) q1) heir = Some (a, l, None)" using v1 by simp
  from insert_priority_view [OF q2 this]
  have "pview q2 = (pview q)(heir \<mapsto> (min x a, add_priority x l, None))"
    "mutex_list q2 = (mutex_list q)(n \<mapsto> ?m\<lparr>next_priority := x\<rparr>)" using v1 by auto
  moreover have "same_view q2 q'" by (rule view_unlock [OF q'])
  ultimately show ?thesis by (auto simp: same_view_def)
qed

lemma chain_unheld:
  assumes "chain_inv base H nx ms v" "n \<in> H" "ms n = Some m" "current_process m = None"
  shows "chain_inv base H (nx(n := x)) ms v"
proof -
  have "finite (held_by ms r)" for r using assms(1) by (simp add: chain_inv_def finite_held_by)
  moreover have "n \<notin> held_by ms r" for r using assms(3,4) by (simp add: held_by_def)
  ultimately have "image_mset (nx(n := x)) (mset_set (held_by ms r)) = image_mset nx (mset_set (held_by ms r))" for r
    by (intro image_mset_cong) auto
  then show ?thesis using assms(1,2) by (auto simp: chain_inv_def priorities_ok_def)
qed

lemma hand_over_wf:
  assumes c: "chain_inv base {n} nx (ms(n \<mapsto> m\<lparr>current_process := None\<rparr>)) v" and s: "all_sorted (prio_of q) {} ms"
    and m: "ms n = Some m" and shape: "mutex_shape v n m" and w: "mutex_waiters m = heir # others" and heir: "v heir = Some (b, k, Some n)"
    and x: "x = (case others of [] \<Rightarrow> INT_MAX_PRIORITY | r # rs \<Rightarrow> prio_of q r)" and v: "v = pview q"
    and m': "m' = m\<lparr>mutex_waiters := others, current_process := Some heir, next_priority := x, mutex_state := mutex_state m + 1\<rparr>"
    and st: "mutex_state m = - int (length (mutex_waiters m))"
  shows "chain_inv base {} (nx(n := x)) (ms(n \<mapsto> m')) (v(heir \<mapsto> (min x b, add_priority x k, None)))" (is "chain_inv base {} ?nx ?ms ?v")
    and "all_sorted (vprio (v(heir \<mapsto> (min x b, add_priority x k, None)))) {} (ms(n \<mapsto> m'))"
proof -
  have d: "heir \<notin> set others" "distinct others" using shape w by (auto simp: mutex_shape_def)
  have c1: "chain_inv base {n} nx (ms(n \<mapsto> m\<lparr>current_process := None\<rparr>)) (v(heir \<mapsto> (b, k, None)))"
    using chain_reblock [OF c heir, of n None] by simp
  have c2: "chain_inv base {n} ?nx ?ms ?v"
    using chain_acquire [OF c1, of n "m\<lparr>current_process := None\<rparr>" m' heir b k None x] m' by simp
  have "waiting_on ?v n = waiting_on v n - {heir}" using heir by (auto simp: waiting_on_def)
  then have "mutex_shape ?v n m'" using shape w st d m' by (auto simp: mutex_shape_def)
  from chain_restored [OF c2 this] show "chain_inv base {} ?nx ?ms ?v" using m' by simp
  have "mutex_sorted (vprio ?v) m2" if m2: "ms n2 = Some m2" "n2 \<noteq> n" for n2 m2
  proof -
    have "heir \<notin> set (mutex_waiters m2)" using not_waiting [OF c heir, of n2 m2] m2 by simp
    then have "map (vprio ?v) (mutex_waiters m2) = map (prio_of q) (mutex_waiters m2)"
      by (auto simp: prio_of_view vprio_def v)
    then show ?thesis using s m2 mutex_sorted_cong unfolding all_sorted_def by blast
  qed
  moreover have "mutex_sorted (vprio ?v) m'"
  proof -
    have "map (vprio ?v) others = map (prio_of q) others" using d(1) by (auto simp: prio_of_view vprio_def v)
    moreover have "mutex_sorted (prio_of q) m" using s m by (simp add: all_sorted_def)
    then have "sorted (map (prio_of q) others)" using w by (simp add: mutex_sorted_def)
    then have "mutex_sorted (prio_of q) m'" using x m' by (cases others) (auto simp: mutex_sorted_def)
    moreover have "mutex_waiters m' = others" using m' by simp
    ultimately show ?thesis using mutex_sorted_cong [of "vprio ?v" m' "prio_of q"] \<open>map (vprio ?v) others = map (prio_of q) others\<close> by simp
  qed
  ultimately show "all_sorted (vprio ?v) {} ?ms" by (auto simp: all_sorted_def)
qed

lemma mutex_unlock_wf:
  assumes unlock: "mutex_unlock n r q = Some (ret, q')" and wf: "mutex_wf base q" and r: "pview q r = Some (a, l, None)"
  shows "mutex_wf base q'"
proof -
  obtain m where m: "mutex_list q n = Some m" using unlock by (auto simp: mutex_unlock_def bind_eq_Some_conv)
  show ?thesis
  proof (cases "current_process m = Some r")
    case False
    then show ?thesis using unlock m wf by (auto simp: mutex_unlock_def)
  next
    case True
    have f: "mutex_shape (pview q) n m" "mutex_sorted (prio_of q) m" using wf_facts [OF wf] m by metis+
    then have act: "priority_active m" "mutex_state m = - int (length (mutex_waiters m))" using True by (auto simp: mutex_shape_def)
    obtain q1 q2 where q1: "Option.bind (remove_priority r (next_priority m) q)
               (\<lambda>(updated, q1). if updated then update_lowest_exec_priority q1 else Some q1) = Some q1"
      and q2: "(if mutex_state m = 0 then Some (put_mutex n (m\<lparr>current_process := None, next_priority := INT_MAX_PRIORITY\<rparr>) q1)
              else if mutex_state m < 0 then hand_over n m q1 else Some q1) = Some q2"
      and q': "q' = change_mutex n (\<lambda>m. m\<lparr>mutex_state := mutex_state m + 1\<rparr>) q2"
      using unlock m True act(1) by (auto simp: mutex_unlock_def bind_eq_Some_conv)
    note g = give_up [OF wf r m True q1]
    obtain nx where c: "\<And>m'. current_process m' = None \<Longrightarrow> chain_inv base {n} nx ((mutex_list q)(n \<mapsto> m')) (pview q1)"
      using g(2) by blast
    show ?thesis
    proof (cases "mutex_waiters m")
      case Nil
      let ?m = "m\<lparr>current_process := None, next_priority := INT_MAX_PRIORITY, mutex_state := 1\<rparr>"
      have q2': "q2 = put_mutex n (m\<lparr>current_process := None, next_priority := INT_MAX_PRIORITY\<rparr>) q1" using q2 act(2) Nil by simp
      have e: "mutex_list q' = (mutex_list q)(n \<mapsto> ?m)" "pview q' = pview q1" "prio_of q' = prio_of q1"
        using q' q2' g(1) act(2) Nil by simp_all
      have "mutex_shape (pview q1) n ?m" using g(4) Nil by (auto simp: mutex_shape_def)
      moreover have "chain_inv base {n} (nx(n := INT_MAX_PRIORITY)) ((mutex_list q)(n \<mapsto> ?m)) (pview q1)"
        using chain_unheld [OF c [of ?m], of n ?m] by simp
      ultimately have "chain_inv base {} (nx(n := INT_MAX_PRIORITY)) (mutex_list q') (pview q')"
        using chain_restored [of base n "{}" "nx(n := INT_MAX_PRIORITY)" "mutex_list q" ?m "pview q1"] e by simp
      moreover have "all_sorted (prio_of q') {} (mutex_list q')" using g(3) e Nil by (auto simp: all_sorted_def mutex_sorted_def)
      ultimately show ?thesis by (rule wf_intro)
    next
      case (Cons heir others)
      have q2': "hand_over n m q1 = Some q2" using q2 act(2) Cons by simp
      have "heir \<in> waiting_on (pview q1) n" using g(4) Cons by (auto simp: mutex_shape_def)
      then obtain b k where heir: "pview q1 heir = Some (b, k, Some n)" by (auto simp: waiting_on_def)
      have d: "heir \<notin> set others" using f(1) Cons by (simp add: mutex_shape_def)
      have st: "mutex_state m = -1 \<longleftrightarrow> others = []" using act(2) Cons by auto
      let ?x = "case others of [] \<Rightarrow> INT_MAX_PRIORITY | r # rs \<Rightarrow> prio_of q1 r"
      let ?m = "m\<lparr>mutex_waiters := others, current_process := Some heir, next_priority := ?x, mutex_state := mutex_state m + 1\<rparr>"
      have e: "mutex_list q' = (mutex_list q)(n \<mapsto> ?m)" "pview q' = (pview q1)(heir \<mapsto> (min ?x b, add_priority ?x k, None))"
        using hand_over_effect [OF q2' act(1) heir Cons st d] q' g(1) by auto
      have "chain_inv base {n} nx ((mutex_list q)(n \<mapsto> m\<lparr>current_process := None\<rparr>)) (pview q1)" by (rule c) simp
      from hand_over_wf [OF this g(3) m g(4) Cons heir, of ?x ?m] e act(2) Cons show ?thesis
        by (auto simp: prio_of_view intro: wf_intro)
    qed
  qed
qed

end
