(* ===== verification/Mutex_System.thy ===== *)
theory Mutex_System
  imports Mutex_Inv
begin

section \<open>Mutexes as a system of requests\<close>

text \<open>
  Creating, locking and unlocking mutexes, mixed with the moves of the processes between the
  states. The interpretation \<open>mutexes\<close> of \<open>invariant_system\<close> gives \<open>mutex_wf\<close> in every reachable
  state. The last part has the runs that show how inheritance fails for a holder in READY with
  several priorities and for a cycle of processes that wait for each other.
\<close>

subsection \<open>All moves keep the view\<close>

lemma view_core: "same_core q q' \<Longrightarrow> same_view q q'"
  using pview_cong [of q' q] by (simp add: same_core_def same_view_def)

lemma view_manage: "manage_state_pcb r e n q = Some (b, q') \<Longrightarrow> same_view q q'"
  by (auto simp: manage_state_pcb_def split: option.splits if_splits intro: view_update_pcb)

lemma view_run_process: "run_process r q = Some q' \<Longrightarrow> same_view q q'"
  by (auto simp: run_process_def transition_ready_exec_def transition_to_exec_def bind_eq_Some_conv
      split: prod.splits dest!: view_manage)

lemma view_dispatch: "dispatch q = Some (taken, q') \<Longrightarrow> same_view q q'"
  by (auto simp: dispatch_def same_view_def pview_def split: option.splits prod.splits dest!: view_run_process)

lemma view_susp_block: "transition_susp_block r q = Some q' \<Longrightarrow> same_view q q'"
  unfolding transition_susp_block_def
  by (erule view_state) (auto simp: transition_take_susp_block_def dest!: view_to_block)

lemma view_to_susp_block: "transition_to_susp_block r q = Some q' \<Longrightarrow> same_view q q'"
  by (auto simp: transition_to_susp_block_def split: prod.splits)

lemma view_resumer [simp]: "same_view q (q1\<lparr>resumer := x\<rparr>) = same_view q q1"
  by (simp add: same_view_def pview_def fun_eq_iff)

lemma view_suspend:
  assumes "transition_block_susp_block_no_mutex r q = Some q'"
  shows "same_view q q'"
proof -
  obtain p where p: "pcbs q r = Some p" using assms by (auto simp: transition_block_susp_block_no_mutex_def bind_eq_Some_conv)
  show ?thesis
  proof (cases "pcb_state p = PS_BLOCK")
    case True
    obtain ok q1 where q1: "notify_process_suspended (pcb_pid p) q = Some (ok, q1)"
      using assms p True by (auto simp: transition_block_susp_block_no_mutex_def bind_eq_Some_conv)
    have c: "same_view q q1" by (rule view_core [OF core_notify_suspended [OF q1]])
    show ?thesis
    proof (cases ok)
      case True
      then have "do {
         q2 \<leftarrow> update_pcb r (\<lambda>p. p\<lparr>pcb_state := PS_SUSP_BLOCK\<rparr>) q1;
         q3 \<leftarrow> transition_take_block r q2;
         q4 \<leftarrow> transition_to_susp_block r q3;
         Some (if \<not> compaction_active q4 \<and> \<not> resume_active q4
               then q4\<lparr>resumer := unlock_thread_suspended (resumer q4)\<rparr> else q4) } = Some q'"
        using assms p \<open>pcb_state p = PS_BLOCK\<close> q1 by (simp add: transition_block_susp_block_no_mutex_def)
      then obtain q2 q3 q4 where q2: "update_pcb r (\<lambda>p. p\<lparr>pcb_state := PS_SUSP_BLOCK\<rparr>) q1 = Some q2"
        and q3: "transition_take_block r q2 = Some q3" and q4: "transition_to_susp_block r q3 = Some q4"
        and q': "q' = (if \<not> compaction_active q4 \<and> \<not> resume_active q4
               then q4\<lparr>resumer := unlock_thread_suspended (resumer q4)\<rparr> else q4)"
        unfolding bind_eq_Some_conv option.inject by blast
      note c
      also have "same_view q1 q2" using view_update_pcb [OF q2] by simp
      also have "same_view q2 q3" by (rule view_take_block [OF q3])
      also have "same_view q3 q4" by (rule view_to_susp_block [OF q4])
      also have "same_view q4 q'" by (simp add: q')
      finally show ?thesis .
    next
      case False
      then show ?thesis using assms p True q1 c by (auto simp: transition_block_susp_block_no_mutex_def)
    qed
  next
    case False
    then show ?thesis using assms p by (simp add: transition_block_susp_block_no_mutex_def)
  qed
qed

lemma view_resume:
  assumes "transition_susp_ready_no_mutex r q = Some (ok, q')"
  shows "same_view q q'"
proof -
  obtain p where p: "pcbs q r = Some p" using assms by (auto simp: transition_susp_ready_no_mutex_def bind_eq_Some_conv)
  show ?thesis
  proof (cases "pcb_state p = PS_SUSP_READY")
    case True
    obtain can q1 where q1: "can_resume_suspended (pcb_pid p) q = Some (can, q1)"
      using assms p True by (auto simp: transition_susp_ready_no_mutex_def bind_eq_Some_conv)
    have c1: "same_view q q1" by (rule view_core [OF core_can_resume [OF q1]])
    show ?thesis
    proof (cases can)
      case True
      obtain resumed q2 where q2: "notify_process_resume_suspended (pcb_pid p) q1 = Some (resumed, q2)"
        using assms p \<open>pcb_state p = PS_SUSP_READY\<close> q1 True by (auto simp: transition_susp_ready_no_mutex_def bind_eq_Some_conv)
      have c2: "same_view q q2" using c1 view_core [OF core_notify_resume [OF q2]] same_view_trans by blast
      show ?thesis
      proof (cases resumed)
        case True
        then obtain q3 where q3: "update_pcb r (\<lambda>p. p\<lparr>pcb_state := PS_READY\<rparr>) q2 = Some q3"
          "put_ready r (transition_take_susp_ready r q3) = Some q'"
          using assms p \<open>pcb_state p = PS_SUSP_READY\<close> q1 \<open>can\<close> q2
          by (auto simp: transition_susp_ready_no_mutex_def bind_eq_Some_conv)
        note c2
        also have "same_view q2 q3" using view_update_pcb [OF q3(1)] by simp
        also have "same_view q3 (transition_take_susp_ready r q3)" by (simp add: transition_take_susp_ready_def)
        also have "same_view (transition_take_susp_ready r q3) q'" by (rule view_put_ready [OF q3(2)])
        finally show ?thesis .
      next
        case False
        then show ?thesis using assms p \<open>pcb_state p = PS_SUSP_READY\<close> q1 \<open>can\<close> q2 c2 by (simp add: transition_susp_ready_no_mutex_def)
      qed
    next
      case False
      then show ?thesis using assms p \<open>pcb_state p = PS_SUSP_READY\<close> q1 c1 by (simp add: transition_susp_ready_no_mutex_def)
    qed
  next
    case False
    then show ?thesis using assms p by (simp add: transition_susp_ready_no_mutex_def)
  qed
qed

subsection \<open>Requests\<close>

datatype mutex_request =
    Create_mutex string
  | Lock_mutex string pcb_ref
  | Unlock_mutex string pcb_ref
  | Move sched_request

fun moves_only :: "sched_request \<Rightarrow> bool" where
  "moves_only (New_process instructions_file prio) = False"
| "moves_only (Finish r reason) = False"
| "moves_only s = True"

lemma view_moves:
  assumes "sched_apply s q = Some (q', out)" "moves_only s"
  shows "same_view q q'"
  using assms
  by (cases s) (auto dest: view_dispatch view_exec_ready view_exec_block view_unlock view_suspend view_resume view_susp_block
      simp: same_view_def pview_def fun_eq_iff)

fun mutex_apply :: "mutex_request \<Rightarrow> t_queues \<Rightarrow> (t_queues \<times> t_mutex_result option) option" where
  "mutex_apply (Create_mutex n) q = (case create_and_add_mutex n True q of (ret, q') \<Rightarrow> Some (q', Some ret))"
| "mutex_apply (Lock_mutex n r) q = map_option (\<lambda>(ret, q'). (q', Some ret)) (list_mutex_lock n r q)"
| "mutex_apply (Unlock_mutex n r) q = map_option (\<lambda>(ret, q'). (q', Some ret)) (list_mutex_unlock n r q)"
| "mutex_apply (Move s) q = map_option (\<lambda>(q', out). (q', None)) (sched_apply s q)"

text \<open>Only a living process that does not wait for a mutex makes a system call.\<close>

fun mutex_ok :: "mutex_request \<Rightarrow> t_queues \<Rightarrow> bool" where
  "mutex_ok (Create_mutex n) q = True"
| "mutex_ok (Lock_mutex n r) q = (get_mutex_blocking r q = Some None)"
| "mutex_ok (Unlock_mutex n r) q = (get_mutex_blocking r q = Some None)"
| "mutex_ok (Move s) q = (moves_only s \<and> sched_ok s q)"

definition bounded_base :: "(pcb_ref \<Rightarrow> int) \<Rightarrow> bool" where
  "bounded_base base \<longleftrightarrow> (\<forall>r. base r \<le> INT_MAX_PRIORITY)"

lemma create_mutex_wf:
  assumes "create_and_add_mutex n True q = (ret, q')" "mutex_wf base q"
  shows "mutex_wf base q'"
proof (cases "mutex_list q n")
  case None
  then have q': "q' = put_mutex n (create_mutex True) q" using assms(1) by (simp add: create_and_add_mutex_def)
  obtain nx where c: "chain_inv base {} nx (mutex_list q) (pview q)" and s: "all_sorted (prio_of q) {} (mutex_list q)"
    using wf_facts [OF assms(2)] by metis
  let ?ms = "(mutex_list q)(n \<mapsto> create_mutex True)"
  have hb: "held_by ?ms r = held_by (mutex_list q) r" for r using None by (auto simp: held_by_def create_mutex_def)
  have "n \<notin> held_by (mutex_list q) r" "finite (held_by (mutex_list q) r)" for r
    using None c by (auto simp: held_by_def chain_inv_def intro: finite_held_by [unfolded held_by_def])
  then have im: "image_mset (nx(n := INT_MAX_PRIORITY)) (mset_set (held_by (mutex_list q) r)) = image_mset nx (mset_set (held_by (mutex_list q) r))" for r
    by (intro image_mset_cong) auto
  have "\<And>r a l. pview q r = Some (a, l, Some n) \<Longrightarrow> mutex_list q n \<noteq> None" using c unfolding chain_inv_def by blast
  then have "waiting_on (pview q) n = {}" using None by (auto simp: waiting_on_def)
  then have "mutex_shape (pview q) n (create_mutex True)" by (simp add: mutex_shape_def create_mutex_def)
  then have "chain_inv base {} (nx(n := INT_MAX_PRIORITY)) ?ms (pview q)"
    using c None hb im by (auto simp: chain_inv_def priorities_ok_def create_mutex_def)
  moreover have "all_sorted (prio_of q) {} ?ms" using s by (auto simp: all_sorted_def mutex_sorted_def create_mutex_def)
  ultimately show ?thesis using q' by (auto intro: wf_intro)
qed (use assms in \<open>auto simp: create_and_add_mutex_def\<close>)

text \<open>The priority in force is never worse than the own one.\<close>

lemma wf_priorities:
  assumes "mutex_wf base q" "pview q r = Some (a, l, b)"
  shows "a \<le> base r"
    and "mutex_list q n = Some m \<Longrightarrow> current_process m = Some r \<Longrightarrow> a \<le> next_priority m"
    and "a = base r \<or> (\<exists>n m. mutex_list q n = Some m \<and> current_process m = Some r \<and> a = next_priority m)"
proof -
  obtain nx where c: "chain_inv base {} nx (mutex_list q) (pview q)"
    and nx: "\<And>n m. mutex_list q n = Some m \<Longrightarrow> nx n = next_priority m" using wf_facts [OF assms(1)] by metis
  have ok: "sorted l" "l \<noteq> []" "a = hd l" "mset l = add_mset (base r) (image_mset nx (mset_set (held_by (mutex_list q) r)))"
    using c assms(2) by (auto simp: chain_inv_def priorities_ok_def)
  have fin: "finite (held_by (mutex_list q) r)" using c by (simp add: chain_inv_def finite_held_by)
  have set: "set l = insert (base r) (nx ` held_by (mutex_list q) r)"
    using arg_cong [OF ok(4), of set_mset] fin by simp
  have least: "\<forall>x \<in> set l. a \<le> x" using ok(1-3) by (cases l) auto
  then show "a \<le> base r" using set by simp
  show "a \<le> next_priority m" if "mutex_list q n = Some m" "current_process m = Some r"
    using least set nx [OF that(1)] that by (force simp: held_by_def)
  have "a \<in> set l" using ok(2,3) by simp
  then consider "a = base r" | n where "n \<in> held_by (mutex_list q) r" "a = nx n" using set by auto
  then show "a = base r \<or> (\<exists>n m. mutex_list q n = Some m \<and> current_process m = Some r \<and> a = next_priority m)"
  proof cases
    case 2
    then obtain m where "mutex_list q n = Some m" "current_process m = Some r" by (auto simp: held_by_def)
    with nx 2(2) show ?thesis by metis
  qed simp
qed

lemma mutex_apply_wf:
  assumes inv: "mutex_wf base q \<and> bounded_base base" and ok: "mutex_ok r q" and step: "mutex_apply r q = Some (q', out)"
  shows "mutex_wf base q' \<and> bounded_base base"
proof -
  have "mutex_wf base q'"
  proof (cases r)
    case (Create_mutex n)
    then show ?thesis using step create_mutex_wf inv by (auto split: prod.splits)
  next
    case (Lock_mutex n x)
    then obtain a l where v: "pview q x = Some (a, l, None)" using ok by (auto simp: get_mutex_blocking_def pview_def)
    have "a \<le> base x" by (rule wf_priorities(1) [OF conjunct1 [OF inv] v])
    also have "base x \<le> INT_MAX_PRIORITY" using inv by (simp add: bounded_base_def)
    finally have "a \<le> INT_MAX_PRIORITY" .
    then show ?thesis using step mutex_lock_wf [OF _ conjunct1 [OF inv] v] inv Lock_mutex
      by (auto simp: list_mutex_lock_def split: if_splits)
  next
    case (Unlock_mutex n x)
    then obtain a l where v: "pview q x = Some (a, l, None)" using ok by (auto simp: get_mutex_blocking_def pview_def)
    then show ?thesis using step mutex_unlock_wf [OF _ conjunct1 [OF inv] v] inv Unlock_mutex
      by (auto simp: list_mutex_unlock_def split: if_splits)
  next
    case (Move s)
    then show ?thesis using step ok inv view_moves [of s q q'] mutex_wf_view by auto
  qed
  then show ?thesis using inv by simp
qed

interpretation mutexes: invariant_system mutex_ok mutex_apply "\<lambda>q. mutex_wf base q \<and> bounded_base base" for base
  by unfold_locales (rule mutex_apply_wf)

subsection \<open>Unlocking always succeeds\<close>

lemma wf_same_lists:
  assumes "queues_wf q" "pcbs q' = pcbs q" "next_ref q' = next_ref q" "ready q' = ready q"
    "active_process_count q' = active_process_count q" "\<And>st. refs_in st q' = refs_in st q"
  shows "queues_wf q'"
  using assms by (simp add: queues_wf_def lists_match_def store_ok_def placed_def)

lemma refs_in_mutex: "refs_in st (q\<lparr>mutex_list := x\<rparr>) = refs_in st q"
  by (cases st) auto

lemma wf_mutex_list [simp]: "queues_wf (put_mutex n m q) = queues_wf q" "queues_wf (change_mutex n f q) = queues_wf q"
proof -
  have "refs_in st (q\<lparr>mutex_list := x\<rparr>) = refs_in st q" for st x by (cases st) auto
  then show "queues_wf (put_mutex n m q) = queues_wf q" "queues_wf (change_mutex n f q) = queues_wf q"
    by (simp_all add: put_mutex_def change_mutex_def queues_wf_def lists_match_def store_ok_def placed_def)
qed

lemma wf_lowest:
  assumes "queues_wf q"
  shows "\<exists>q'. update_lowest_exec_priority q = Some q' \<and> queues_wf q' \<and> pcbs q' = pcbs q"
proof -
  have "\<forall>r \<in> set (exec_list (exec q)). pcbs q r \<noteq> None" using wf_member(2) [OF assms, of _ PS_EXEC] by force
  then obtain x where "lowest_of (exec_list (exec q)) (pcbs q) 0 = Some x" using lowest_of_Some by blast
  moreover have "refs_in st (q\<lparr>exec := (exec q)\<lparr>lowest_priority := x\<rparr>\<rparr>) = refs_in st q" for st x by (cases st) auto
  ultimately show ?thesis using wf_same_lists [OF assms] by (simp add: update_lowest_exec_priority_def)
qed

lemma wf_change_pcb:
  assumes wf: "queues_wf q" and p: "pcbs q r = Some p" and p': "pcb_state p' = pcb_state p" "active_instances p' = active_instances p"
    and pos: "0 \<le> queue_position (pcb_priority p') (ready q)" "queue_position (pcb_priority p') (ready q) < queue_count (ready q)"
    and prio: "pcb_priority p' = pcb_priority p \<or> pcb_state p \<noteq> PS_READY"
  shows "queues_wf (q\<lparr>pcbs := (pcbs q)(r \<mapsto> p')\<rparr>)"
proof -
  have dom: "insert r (dom (pcbs q)) = dom (pcbs q)" using p by auto
  have "store_ok (q\<lparr>pcbs := (pcbs q)(r \<mapsto> p')\<rparr>)"
    using wf p p' pos by (auto simp: queues_wf_def store_ok_def dom)
  moreover have "lists_match (q\<lparr>pcbs := (pcbs q)(r \<mapsto> p')\<rparr>)"
    using wf p p' by (auto simp: queues_wf_def lists_match_def)
  moreover have "placed (q\<lparr>pcbs := (pcbs q)(r \<mapsto> p')\<rparr>)"
    unfolding placed_def
  proof (intro impI allI ballI)
    fix i x px
    assume ml: "multilevel_queue (ready (q\<lparr>pcbs := (pcbs q)(r \<mapsto> p')\<rparr>))" and i: "i < length (subqueues (ready (q\<lparr>pcbs := (pcbs q)(r \<mapsto> p')\<rparr>)))"
      and x: "x \<in> set (snd (subqueues (ready (q\<lparr>pcbs := (pcbs q)(r \<mapsto> p')\<rparr>)) ! i))" and px: "pcbs (q\<lparr>pcbs := (pcbs q)(r \<mapsto> p')\<rparr>) x = Some px"
    have old: "pcbs q x = Some y \<Longrightarrow> pcb_priority y = int i" for y
      using wf ml i x by (auto simp: queues_wf_def placed_def)
    have "x \<in> set (ready_refs (ready q))" using refs_split [of i "subqueues (ready q)"] i x by (auto simp: ready_refs_def)
    then have "\<exists>y. pcbs q x = Some y \<and> pcb_state y = PS_READY" using wf_member(2) [OF wf, of x PS_READY] by simp
    then show "pcb_priority px = int i" using old prio p px by (auto split: if_splits)
  qed
  ultimately show ?thesis using wf by (simp add: queues_wf_def)
qed

definition base_in_range :: "(pcb_ref \<Rightarrow> int) \<Rightarrow> t_queues \<Rightarrow> bool" where
  "base_in_range base q \<longleftrightarrow> (\<forall>r. 0 \<le> base r \<and> base r \<le> INT_MAX_PRIORITY
     \<and> (multilevel_queue (ready q) \<longrightarrow> base r < queue_count (ready q)))"

text \<open>What the holder is left with is a priority in range.\<close>

lemma next_priority_range:
  assumes "queues_wf q" "mutex_wf base q" "mutex_list q n = Some m" "multilevel_queue (ready q)"
  shows "0 \<le> next_priority m"
proof (cases "mutex_waiters m")
  case Nil
  moreover have "mutex_sorted (prio_of q) m" using wf_facts [OF assms(2)] assms(3) by metis
  ultimately show ?thesis by (simp add: mutex_sorted_def)
next
  case (Cons r rs)
  have f: "mutex_shape (pview q) n m" "mutex_sorted (prio_of q) m" using wf_facts [OF assms(2)] assms(3) by metis+
  then have "r \<in> waiting_on (pview q) n" using Cons by (auto simp: mutex_shape_def)
  then obtain p where p: "pcbs q r = Some p" by (auto simp: waiting_on_def pview_Some)
  then have "0 \<le> queue_position (pcb_priority p) (ready q)" using assms(1) by (auto simp: queues_wf_def store_ok_def)
  then show ?thesis using assms(4) f(2) Cons p by (simp add: mutex_sorted_def queue_position_def prio_of_def)
qed

lemma give_up_total:
  assumes wf: "queues_wf q" "mutex_wf base q" and base: "base_in_range base q"
    and p: "pcbs q r = Some p" "pcb_state p = PS_EXEC" "blocking_mutex p = None"
    and m: "mutex_list q n = Some m" "current_process m = Some r"
  shows "\<exists>q1. Option.bind (remove_priority r (next_priority m) q)
               (\<lambda>(updated, q1). if updated then update_lowest_exec_priority q1 else Some q1) = Some q1
     \<and> queues_wf q1 \<and> (\<forall>x. x \<noteq> r \<longrightarrow> pcbs q1 x = pcbs q x)"
proof -
  obtain nx where c: "chain_inv base {} nx (mutex_list q) (pview q)"
    and nx: "\<And>n m. mutex_list q n = Some m \<Longrightarrow> nx n = next_priority m" using wf_facts [OF wf(2)] by metis
  let ?l = "remove1 (next_priority m) (priority_list p)"
  let ?m = "m\<lparr>current_process := None\<rparr>"
  have v: "pview q r = Some (pcb_priority p, priority_list p, None)" using p by (simp add: pview_def)
  note rel = chain_release [OF chain_exempt [OF c, of n], of n m r ?m, OF _ m _ v]
  have ne: "?l \<noteq> []" using rel(2) nx [OF m(1)] by simp
  have "chain_inv base {n} nx ((mutex_list q)(n \<mapsto> ?m)) ((pview q)(r \<mapsto> (hd ?l, ?l, None)))" using rel(1) nx [OF m(1)] by simp
  then have ok: "priorities_ok base nx ((mutex_list q)(n \<mapsto> ?m)) r (hd ?l) ?l" by (simp add: chain_inv_def)
  have fin: "finite (held_by ((mutex_list q)(n \<mapsto> ?m)) r)" using c by (auto simp: chain_inv_def intro: finite_held_by)
  have ms: "mset ?l = add_mset (base r) (image_mset nx (mset_set (held_by ((mutex_list q)(n \<mapsto> ?m)) r)))"
    using ok unfolding priorities_ok_def by blast
  have "set ?l = set_mset (mset ?l)" by (rule set_mset_mset [symmetric])
  also have "\<dots> = insert (base r) (nx ` held_by ((mutex_list q)(n \<mapsto> ?m)) r)" unfolding ms using fin by simp
  finally have set: "set ?l = insert (base r) (nx ` held_by ((mutex_list q)(n \<mapsto> ?m)) r)" .
  have "base r \<in> set ?l" "sorted ?l" using set ok by (auto simp: priorities_ok_def)
  then have least: "hd ?l \<le> base r" by (cases ?l) auto
  have pos: "0 \<le> hd ?l" if "multilevel_queue (ready q)"
  proof -
    have "0 \<le> x" if x: "x \<in> set ?l" for x
    proof -
      consider "x = base r" | k where "x = nx k" "k \<in> held_by ((mutex_list q)(n \<mapsto> ?m)) r" using x unfolding set by blast
      then show ?thesis
      proof cases
        case 2
        then obtain m2 where "mutex_list q k = Some m2" by (auto simp: held_by_def split: if_splits)
        then show ?thesis using next_priority_range [OF wf] nx 2(1) \<open>multilevel_queue (ready q)\<close> by metis
      qed (use base in \<open>simp add: base_in_range_def\<close>)
    qed
    then show ?thesis using ne by simp
  qed
  let ?p = "p\<lparr>priority_list := ?l, pcb_priority := hd ?l\<rparr>"
  let ?q = "q\<lparr>pcbs := (pcbs q)(r \<mapsto> ?p)\<rparr>"
  have count: "0 < queue_count (ready q)" using wf(1) by (auto simp: queues_wf_def ready_ok_def queue_count_def)
  have "0 \<le> queue_position (hd ?l) (ready q) \<and> queue_position (hd ?l) (ready q) < queue_count (ready q)"
  proof (cases "multilevel_queue (ready q)")
    case True
    have "base r < queue_count (ready q)" using base True by (simp add: base_in_range_def)
    with least pos [OF True] True show ?thesis by (simp add: queue_position_def)
  qed (use count in \<open>simp add: queue_position_def\<close>)
  then have "queues_wf ?q" using wf_change_pcb [OF wf(1) p(1), of ?p] p(2) by simp
  moreover obtain updated where "remove_priority r (next_priority m) q = Some (updated, ?q)"
    using p(1) ne by (cases ?l) (auto simp: remove_priority_def set_first_priority_def remove_priority_list_def)
  ultimately show ?thesis using wf_lowest [of ?q] by (cases updated) auto
qed

lemma hand_over_total:
  assumes wf: "queues_wf q" and shape: "mutex_shape (pview q) n m" and s: "mutex_sorted (prio_of q) m"
    and w: "mutex_waiters m = heir # others" and h: "current_process m \<noteq> None"
    and p: "pcbs q heir = Some p" "pcb_priority p \<le> INT_MAX_PRIORITY"
  shows "\<exists>q' p'. hand_over n m q = Some q' \<and> queues_wf q' \<and> pcbs q' = (pcbs q)(heir \<mapsto> p') \<and> blocking_mutex p' = None
     \<and> pcb_state p' = (if pcb_state p = PS_BLOCK then PS_READY else if pcb_state p = PS_SUSP_BLOCK then PS_SUSP_READY else pcb_state p)"
proof -
  let ?m = "m\<lparr>mutex_waiters := others, current_process := Some heir\<rparr>"
  let ?p1 = "p\<lparr>blocking_mutex := None\<rparr>"
  let ?q0 = "put_mutex n ?m q"
  let ?q1 = "?q0\<lparr>pcbs := (pcbs q)(heir \<mapsto> ?p1)\<rparr>"
  have q1: "set_mutex_blocking heir None ?q0 = Some ?q1" using p(1) by (simp add: set_mutex_blocking_def update_pcb_def put_mutex_def)
  have act: "priority_active m" "mutex_state m = -1 \<longleftrightarrow> others = []" "heir \<notin> set others" using shape w h by (auto simp: mutex_shape_def)
  obtain x where x: "(if mutex_state m = -1 then Some INT_MAX_PRIORITY
              else (case others of [] \<Rightarrow> None | r # rs \<Rightarrow> get_priority_pcb r ?q1)) = Some x" "pcb_priority p \<le> x"
  proof (cases others)
    case Nil
    then show ?thesis using that act(2) p(2) by auto
  next
    case (Cons r rs)
    then have "r \<in> waiting_on (pview q) n" using shape w by (auto simp: mutex_shape_def)
    then obtain pr where pr: "pcbs q r = Some pr" by (auto simp: waiting_on_def pview_Some)
    then have "get_priority_pcb r ?q1 = Some (pcb_priority pr)" using act(3) Cons by (auto simp: get_priority_pcb_def)
    moreover have "prio_of q heir \<le> prio_of q r" using s w Cons by (simp add: mutex_sorted_def)
    then have "pcb_priority p \<le> pcb_priority pr" using p(1) pr by (simp add: prio_of_def)
    ultimately show ?thesis using that act(2) Cons by auto
  qed
  let ?p2 = "?p1\<lparr>priority_list := add_priority x (priority_list p)\<rparr>"
  let ?q2 = "(change_mutex n (\<lambda>m. m\<lparr>next_priority := x\<rparr>) ?q1)\<lparr>pcbs := (pcbs q)(heir \<mapsto> ?p2)\<rparr>"
  have q2: "insert_priority heir x (change_mutex n (\<lambda>m. m\<lparr>next_priority := x\<rparr>) ?q1) = Some ?q2"
    using x(2) by (auto simp: insert_priority_def update_pcb_def change_mutex_def)
  have pos: "0 \<le> queue_position (pcb_priority p) (ready q)" "queue_position (pcb_priority p) (ready q) < queue_count (ready q)"
    using wf p(1) by (auto simp: queues_wf_def store_ok_def)
  have "queues_wf (q\<lparr>pcbs := (pcbs q)(heir \<mapsto> ?p2)\<rparr>)" using wf_change_pcb [OF wf p(1), of ?p2] pos by simp
  then have wf2: "queues_wf ?q2"
    by (rule wf_same_lists [of "q\<lparr>pcbs := (pcbs q)(heir \<mapsto> ?p2)\<rparr>"]) (simp_all add: change_mutex_def put_mutex_def refs_in_mutex)
  obtain q' p' where q': "transition_unlock heir ?q2 = Some q'" "queues_wf q'" "pcbs q' = (pcbs ?q2)(heir \<mapsto> p')"
    and p': "pcb_state p' = (if pcb_state ?p2 = PS_BLOCK then PS_READY else if pcb_state ?p2 = PS_SUSP_BLOCK then PS_SUSP_READY
                       else pcb_state ?p2)"
    using unlock_effect [OF wf2, of heir ?p2] by auto
  have "blocking_mutex p' = None"
  proof -
    have "pview q' heir = pview ?q2 heir" using view_unlock [OF q'(1)] by (simp add: same_view_def)
    then show ?thesis using q'(3) by (simp add: pview_def)
  qed
  moreover have "hand_over n m q = Some q'" using w act(1) q1 x(1) q2 q'(1) by (simp add: hand_over_def)
  ultimately show ?thesis using q' p' by auto
qed


lemma mutex_unlock_total:
  assumes wf: "queues_wf q" "mutex_wf base q" and base: "base_in_range base q"
    and p: "pcbs q r = Some p" "pcb_state p = PS_EXEC" "blocking_mutex p = None"
    and m: "mutex_list q n = Some m" "current_process m = Some r" and w: "mutex_waiters m = heir # others"
    and ph: "pcbs q heir = Some ph"
  shows "\<exists>q' p'. mutex_unlock n r q = Some (MR_MUTEX_UNLOCKED, q') \<and> queues_wf q'
     \<and> pcbs q' heir = Some p' \<and> blocking_mutex p' = None
     \<and> pcb_state p' = (if pcb_state ph = PS_BLOCK then PS_READY else if pcb_state ph = PS_SUSP_BLOCK then PS_SUSP_READY else pcb_state ph)"
proof -
  have f: "mutex_shape (pview q) n m" "mutex_sorted (prio_of q) m" using wf_facts [OF wf(2)] m(1) by metis+
  then have act: "priority_active m" "mutex_state m < 0" using m(2) w by (auto simp: mutex_shape_def)
  obtain q1 where q1: "Option.bind (remove_priority r (next_priority m) q)
               (\<lambda>(updated, q1). if updated then update_lowest_exec_priority q1 else Some q1) = Some q1"
    and wf1: "queues_wf q1" and same: "\<forall>x. x \<noteq> r \<longrightarrow> pcbs q1 x = pcbs q x" using give_up_total [OF wf base p m] by blast
  have v: "pview q r = Some (pcb_priority p, priority_list p, None)" using p by (simp add: pview_def)
  note g = give_up [OF wf(2) v m q1]
  have "heir \<in> waiting_on (pview q) n" using f(1) w by (auto simp: mutex_shape_def)
  then have "heir \<noteq> r" using v by (auto simp: waiting_on_def)
  then have ph1: "pcbs q1 heir = Some ph" using same ph by simp
  have "pcb_priority ph \<le> base heir" using wf_priorities(1) [OF wf(2), of heir] ph by (simp add: pview_def)
  moreover have "base heir \<le> INT_MAX_PRIORITY" using base by (simp add: base_in_range_def)
  ultimately have le: "pcb_priority ph \<le> INT_MAX_PRIORITY" by simp
  have "mutex_sorted (prio_of q1) m" using g(1,3) m(1) by (simp add: all_sorted_def)
  then obtain q2 p' where h: "hand_over n m q1 = Some q2" "queues_wf q2" "pcbs q2 = (pcbs q1)(heir \<mapsto> p')" "blocking_mutex p' = None"
    "pcb_state p' = (if pcb_state ph = PS_BLOCK then PS_READY else if pcb_state ph = PS_SUSP_BLOCK then PS_SUSP_READY else pcb_state ph)"
    using hand_over_total [OF wf1 g(4) _ w _ ph1 le] m(2) by auto
  let ?q' = "change_mutex n (\<lambda>m. m\<lparr>mutex_state := mutex_state m + 1\<rparr>) q2"
  have "mutex_unlock n r q = Some (MR_MUTEX_UNLOCKED, ?q')"
    using m act q1 h(1) by (simp add: mutex_unlock_def)
  moreover have "pcbs ?q' = pcbs q2" by (simp add: change_mutex_def)
  ultimately show ?thesis using h(2-5) by auto
qed

lemma mutex_unlock_heir:
  assumes unlock: "mutex_unlock n r q = Some (ret, q')" and wf: "mutex_wf base q" and r: "pview q r = Some (a, l, None)"
    and m: "mutex_list q n = Some m" "current_process m = Some r" and w: "mutex_waiters m = heir # others"
  shows "\<exists>m'. mutex_list q' n = Some m' \<and> current_process m' = Some heir \<and> mutex_waiters m' = others"
proof -
  have f: "mutex_shape (pview q) n m" using wf_facts [OF wf] m(1) by metis
  then have act: "priority_active m" "mutex_state m < 0" "mutex_state m = -1 \<longleftrightarrow> others = []" "heir \<notin> set others"
    using m(2) w by (auto simp: mutex_shape_def)
  obtain q1 q2 where q1: "Option.bind (remove_priority r (next_priority m) q)
             (\<lambda>(updated, q1). if updated then update_lowest_exec_priority q1 else Some q1) = Some q1"
    and q2: "hand_over n m q1 = Some q2" and q': "q' = change_mutex n (\<lambda>m. m\<lparr>mutex_state := mutex_state m + 1\<rparr>) q2"
    using unlock m act(1,2) by (auto simp: mutex_unlock_def bind_eq_Some_conv)
  note g = give_up [OF wf r m q1]
  have "heir \<in> waiting_on (pview q1) n" using g(4) w by (auto simp: mutex_shape_def)
  then obtain b k where heir: "pview q1 heir = Some (b, k, Some n)" by (auto simp: waiting_on_def)
  from hand_over_effect [OF q2 act(1) heir w act(3,4)] show ?thesis using q' by auto
qed

subsection \<open>From a state without mutexes\<close>

definition no_mutexes :: "t_queues \<Rightarrow> bool" where
  "no_mutexes q \<longleftrightarrow> mutex_list q = Map.empty
     \<and> (\<forall>r p. pcbs q r = Some p \<longrightarrow> priority_list p = [pcb_priority p] \<and> blocking_mutex p = None \<and> pcb_priority p \<le> INT_MAX_PRIORITY)"

lemma no_mutexes_wf:
  assumes "no_mutexes q"
  shows "mutex_wf (prio_of q) q" "bounded_base (prio_of q)"
proof -
  have "chain_inv (prio_of q) {} nx (mutex_list q) (pview q)" for nx
    using assms by (auto simp: no_mutexes_def chain_inv_def pview_Some priorities_ok_def held_by_def prio_of_def)
  then show "mutex_wf (prio_of q) q" using assms by (auto simp: mutex_wf_def no_mutexes_def)
  show "bounded_base (prio_of q)" using assms
    by (auto simp: bounded_base_def no_mutexes_def prio_of_def split: option.splits)
qed

fun mutex_run :: "mutex_request list \<Rightarrow> t_queues \<Rightarrow> t_queues option" where
  "mutex_run [] q = Some q"
| "mutex_run (r # rs) q =
     (if mutex_ok r q then (case mutex_apply r q of None \<Rightarrow> None | Some (q', out) \<Rightarrow> mutex_run rs q') else None)"

lemma mutex_run_reachable:
  "reachable mutex_ok mutex_apply q0 q \<Longrightarrow> mutex_run rs q = Some q' \<Longrightarrow> reachable mutex_ok mutex_apply q0 q'"
  by (induction rs arbitrary: q) (auto split: if_splits option.splits prod.splits intro: reachable_step)

lemma reachable_mutex_wf:
  assumes "no_mutexes q0" "reachable mutex_ok mutex_apply q0 q"
  shows "mutex_wf (prio_of q0) q"
  using mutexes.reachable_inv [OF assms(2), of "prio_of q0"] no_mutexes_wf [OF assms(1)] by blast


lemma view_exit:
  assumes "transition_to_exit r reason q = Some q'"
  shows "pview q' = (pview q)(r := None) \<and> mutex_list q' = mutex_list q"
proof -
  obtain q1 where "same_core q q1" "same_core (q1\<lparr>pcbs := (pcbs q1)(r := None), active_process_count := active_process_count q1 - 1\<rparr>) q'"
    using transition_to_exit_core [OF assms] by blast
  then show ?thesis by (auto simp: same_core_def pview_def fun_eq_iff)
qed

lemma view_new_process:
  assumes "transition_new_ready instructions_file prio q = Some q'"
  shows "mutex_list q' = mutex_list q \<and> (\<forall>r. pview q' r \<in> {pview q r, None, Some (prio, [prio], None)})"
proof -
  let ?p = "\<lparr>pcb_pid = of_nat (next_ref q), pcb_priority = prio, priority_list = [prio], blocked_time = 0,
            pcb_state = PS_NEW, active_instances = 0, blocking_mutex = None\<rparr>"
  let ?q1 = "increment_process_count (q\<lparr>pcbs := (pcbs q)(next_ref q \<mapsto> ?p), next_ref := next_ref q + 1\<rparr>)"
  have v1: "pview ?q1 = (pview q)(next_ref q \<mapsto> (prio, [prio], None))" "mutex_list ?q1 = mutex_list q"
    by (auto simp: pview_def increment_process_count_def)
  obtain started q2 where q2: "notify_new_process instructions_file (of_nat (next_ref q)) ?q1 = Some (started, q2)"
    using assms by (auto simp: transition_new_ready_def transition_take_new_def create_pcb_def bind_eq_Some_conv)
  have c: "same_core ?q1 q2" by (rule core_notify_new [OF q2])
  have v2: "pview q2 = (pview q)(next_ref q \<mapsto> (prio, [prio], None))" "mutex_list q2 = mutex_list q"
    using view_core [OF c] v1 by (simp_all add: same_view_def)
  have p2: "pcbs q2 (next_ref q) = Some ?p" using c by (simp add: same_core_def increment_process_count_def)
  show ?thesis
  proof (cases started)
    case False
    then have "transition_to_exit (next_ref q) PER_SYSTEM_SHUTDOWN q2 = Some q'"
      using assms q2 by (auto simp: transition_new_ready_def transition_take_new_def create_pcb_def bind_eq_Some_conv)
    then show ?thesis using view_exit v2 by simp
  next
    case True
    then have "(if \<not> check_priority_valid prio (ready q2) then transition_to_exit (next_ref q) PER_INVALID_PRIORITY q2
        else Option.bind (update_pcb (next_ref q) (\<lambda>p. p\<lparr>pcb_state := PS_READY\<rparr>) q2) (put_ready (next_ref q))) = Some q'"
      using assms q2 p2 by (simp add: transition_new_ready_def transition_take_new_def create_pcb_def)
    then consider "transition_to_exit (next_ref q) PER_INVALID_PRIORITY q2 = Some q'"
      | q3 where "update_pcb (next_ref q) (\<lambda>p. p\<lparr>pcb_state := PS_READY\<rparr>) q2 = Some q3" "put_ready (next_ref q) q3 = Some q'"
      by (auto simp: bind_eq_Some_conv split: if_splits)
    then show ?thesis
    proof cases
      case 1
      then show ?thesis using view_exit v2 by simp
    next
      case 2
      have "same_view q2 q'" by (rule same_view_trans [OF view_update_pcb [OF 2(1)] view_put_ready [OF 2(2)]]) simp
      then show ?thesis using v2 by (simp add: same_view_def)
    qed
  qed
qed

lemma no_mutexes_view:
  "no_mutexes q \<longleftrightarrow> mutex_list q = Map.empty
     \<and> (\<forall>r a l b. pview q r = Some (a, l, b) \<longrightarrow> l = [a] \<and> b = None \<and> a \<le> INT_MAX_PRIORITY)"
  unfolding no_mutexes_def pview_Some by (intro conj_cong refl) metis

lemma no_mutexes_new_process:
  assumes "transition_new_ready instructions_file prio q = Some q'" "no_mutexes q" "prio \<le> INT_MAX_PRIORITY"
  shows "no_mutexes q'"
proof -
  note v = view_new_process [OF assms(1)]
  have "l = [a] \<and> b = None \<and> a \<le> INT_MAX_PRIORITY" if "pview q' r = Some (a, l, b)" for r a l b
  proof -
    have "pview q' r \<in> {pview q r, None, Some (prio, [prio], None)}" using v by blast
    then have "pview q r = Some (a, l, b) \<or> (a, l, b) = (prio, [prio], None)" using that by auto
    then show ?thesis using assms(2,3) unfolding no_mutexes_view by blast
  qed
  then show ?thesis using v assms(2) by (simp add: no_mutexes_view)
qed


text \<open>
  A run with three processes of priorities 1, 2 and 0: process 0 takes the mutex, process 1 waits
  for it, and then process 2 does, which is better than both.
\<close>

definition mutex_demo :: t_queues where
  "mutex_demo = (case sched_run [Km_sends process_started, New_process ''a'' 1, Km_sends process_started, New_process ''b'' 2,
       Km_sends process_started, New_process ''c'' 0, Dispatch, Dispatch, Dispatch] demo_init of Some q \<Rightarrow> q | None \<Rightarrow> demo_init)"

definition mutex_requests :: "mutex_request list" where
  "mutex_requests = [Create_mutex ''M'', Lock_mutex ''M'' 0, Lock_mutex ''M'' 1, Lock_mutex ''M'' 2, Unlock_mutex ''M'' 0]"

lemma sched_run_no_mutexes:
  assumes "sched_run rs q = Some q'" "no_mutexes q"
    and "list_all (\<lambda>s. moves_only s \<or> (\<exists>file prio. s = New_process file prio \<and> prio \<le> INT_MAX_PRIORITY)) rs"
  shows "no_mutexes q'"
  using assms
proof (induction rs arbitrary: q)
  case (Cons s rs)
  then obtain q1 out where q1: "sched_apply s q = Some (q1, out)" "sched_run rs q1 = Some q'"
    by (auto split: if_splits option.splits prod.splits)
  have "no_mutexes q1"
  proof (cases "moves_only s")
    case True
    then have "same_view q q1" using view_moves q1(1) by blast
    then show ?thesis using Cons.prems(2) by (simp add: no_mutexes_view same_view_def)
  next
    case False
    then obtain name prio where "s = New_process name prio" "prio \<le> INT_MAX_PRIORITY" using Cons.prems(3) by auto
    then show ?thesis using no_mutexes_new_process q1(1) Cons.prems(2) by auto
  qed
  then show ?case using Cons q1(2) by simp
qed simp

lemma mutex_demo_states:
  "map_option (\<lambda>q. (refs_in PS_EXEC q, next_ref q)) (sched_run [Km_sends process_started, New_process ''a'' 1, Km_sends process_started, New_process ''b'' 2,
       Km_sends process_started, New_process ''c'' 0, Dispatch, Dispatch, Dispatch] demo_init) = Some ([2, 0, 1], 3)"
  by code_simp

lemma mutex_demo_start: "no_mutexes mutex_demo" "queues_wf mutex_demo"
proof -
  obtain q where q: "sched_run [Km_sends process_started, New_process ''a'' 1, Km_sends process_started, New_process ''b'' 2,
       Km_sends process_started, New_process ''c'' 0, Dispatch, Dispatch, Dispatch] demo_init = Some q" using mutex_demo_states by auto
  have "no_mutexes demo_init" by (simp add: no_mutexes_def demo_init_def init_queues_def)
  from sched_run_no_mutexes [OF q this] show "no_mutexes mutex_demo" using q by (simp add: mutex_demo_def)
  from sched_run_wf [OF q] show "queues_wf mutex_demo" using q by (simp add: mutex_demo_def)
qed

lemma mutex_demo_run:
  "map_option (\<lambda>q. (map (\<lambda>r. map_option pcb_priority (pcbs q r)) [0, 1, 2], map_option mutex_waiters (mutex_list q ''M''),
       map_option current_process (mutex_list q ''M''), map_option mutex_state (mutex_list q ''M''))) (mutex_run (take 4 mutex_requests) mutex_demo)
   = Some ([Some 0, Some 2, Some 0], Some [2, 1], Some (Some 0), Some (- 2))"
  by code_simp


lemma mutex_demo_reach: "\<exists>q. mutex_run (take 4 mutex_requests) mutex_demo = Some q \<and> reachable mutex_ok mutex_apply mutex_demo q
    \<and> (\<exists>m p p2. mutex_list q ''M'' = Some m \<and> mutex_waiters m = [2, 1] \<and> current_process m = Some 0 \<and> pcbs q 0 = Some p \<and> pcb_priority p = 0
         \<and> pcbs q 2 = Some p2)"
proof -
  obtain q where q: "mutex_run (take 4 mutex_requests) mutex_demo = Some q" using mutex_demo_run by auto
  moreover from this have "reachable mutex_ok mutex_apply mutex_demo q" using mutex_run_reachable [OF reachable_init] by blast
  ultimately show ?thesis using mutex_demo_run by auto
qed

subsection \<open>Properties\<close>

text \<open>C8: From a state without mutexes, whatever sequence of creating, locking and unlocking mutexes and of
  moves of the living processes between the lists follows (no process is created and none ends, see \<open>mutex_ok\<close>), a mutex has at most one holder, its state is one less the holder and those who
  wait, a free mutex has nobody waiting, and its waiting list holds exactly the processes that
  are blocked on it, each once, best priority first.\<close>

theorem mutex_accounting:
  assumes "no_mutexes q0" "reachable mutex_ok mutex_apply q0 q" "mutex_list q n = Some m"
  shows "mutex_state m = 1 - (if current_process m = None then 0 else 1) - int (length (mutex_waiters m))
    \<and> (current_process m = None \<longrightarrow> mutex_waiters m = [])
    \<and> distinct (mutex_waiters m)
    \<and> (\<forall>r. r \<in> set (mutex_waiters m) \<longleftrightarrow> (\<exists>p. pcbs q r = Some p \<and> blocking_mutex p = Some n))
    \<and> sorted (map (prio_of q) (mutex_waiters m))"
proof -
  have f: "mutex_shape (pview q) n m" "mutex_sorted (prio_of q) m"
    using wf_facts [OF reachable_mutex_wf [OF assms(1,2)]] assms(3) by metis+
  then show ?thesis
    by (auto simp: mutex_shape_def waiting_on_def pview_Some mutex_sorted_def)
qed

theorem mutex_accounting_witness:
  "\<exists>q m. mutex_run (take 4 mutex_requests) mutex_demo = Some q \<and> mutex_list q ''M'' = Some m \<and> mutex_state m = -2
     \<and> sorted (map (prio_of q) (mutex_waiters m))"
proof -
  obtain q m where q: "mutex_run (take 4 mutex_requests) mutex_demo = Some q" "reachable mutex_ok mutex_apply mutex_demo q"
    "mutex_list q ''M'' = Some m" "mutex_waiters m = [2, 1]" "current_process m = Some 0" using mutex_demo_reach by blast
  from mutex_accounting [OF mutex_demo_start(1) q(2,3)] q show ?thesis by auto
qed

text \<open>C9: Priority inheritance: in the same states, reached without the creation or the end of a process, the priority in force of a process is never worse
  than the one it was created with nor than that of any process that waits for a mutex it holds,
  and it is one of these, so that it is back to its own as soon as nobody better waits.\<close>

theorem priority_inheritance:
  assumes "no_mutexes q0" "reachable mutex_ok mutex_apply q0 q" "pcbs q r = Some p"
  shows "pcb_priority p \<le> prio_of q0 r
    \<and> (\<forall>n m w. mutex_list q n = Some m \<and> current_process m = Some r \<and> w \<in> set (mutex_waiters m) \<longrightarrow> pcb_priority p \<le> prio_of q w)
    \<and> (pcb_priority p = prio_of q0 r \<or>
      (\<exists>n m w. mutex_list q n = Some m \<and> current_process m = Some r \<and> w \<in> set (mutex_waiters m) \<and> pcb_priority p = prio_of q w))"
proof -
  note wf = reachable_mutex_wf [OF assms(1,2)]
  have v: "pview q r = Some (pcb_priority p, priority_list p, blocking_mutex p)" using assms(3) by (simp add: pview_def)
  have le: "pcb_priority p \<le> prio_of q0 r" by (rule wf_priorities(1) [OF wf v])
  have max: "prio_of q0 r \<le> INT_MAX_PRIORITY" using no_mutexes_wf(2) [OF assms(1)] by (simp add: bounded_base_def)
  have sorted: "mutex_sorted (prio_of q) m" if "mutex_list q n = Some m" for n m using wf_facts [OF wf] that by metis
  have waits: "pcb_priority p \<le> prio_of q w"
    if "mutex_list q n = Some m" "current_process m = Some r" "w \<in> set (mutex_waiters m)" for n m w
  proof -
    have "pcb_priority p \<le> next_priority m" by (rule wf_priorities(2) [OF wf v that(1,2)])
    also have "next_priority m \<le> prio_of q w"
      using sorted [OF that(1)] that(3) by (cases "mutex_waiters m") (auto simp: mutex_sorted_def)
    finally show ?thesis .
  qed
  have "\<exists>n m w. mutex_list q n = Some m \<and> current_process m = Some r \<and> w \<in> set (mutex_waiters m) \<and> pcb_priority p = prio_of q w"
    if ne: "pcb_priority p \<noteq> prio_of q0 r"
  proof -
    obtain n m where m: "mutex_list q n = Some m" "current_process m = Some r" "pcb_priority p = next_priority m"
      using wf_priorities(3) [OF wf v] ne by blast
    have "mutex_waiters m \<noteq> []" using sorted [OF m(1)] m(3) le max ne by (auto simp: mutex_sorted_def)
    then obtain w ws where w: "mutex_waiters m = w # ws" by (cases "mutex_waiters m") auto
    have "pcb_priority p = prio_of q w" using sorted [OF m(1)] m(3) w by (simp add: mutex_sorted_def)
    with m w show ?thesis by (intro exI [of _ n] exI [of _ m] exI [of _ w]) simp
  qed
  with le waits show ?thesis by blast
qed

theorem priority_inheritance_witness:
  "\<exists>q p. mutex_run (take 4 mutex_requests) mutex_demo = Some q \<and> pcbs q 0 = Some p \<and> pcb_priority p = 0 \<and> 0 \<le> prio_of mutex_demo 0
     \<and> pcb_priority p \<le> prio_of q 1"
proof -
  obtain q m p where q: "mutex_run (take 4 mutex_requests) mutex_demo = Some q" "reachable mutex_ok mutex_apply mutex_demo q"
    "mutex_list q ''M'' = Some m" "mutex_waiters m = [2, 1]" "current_process m = Some 0" "pcbs q 0 = Some p" "pcb_priority p = 0"
    using mutex_demo_reach by blast
  from priority_inheritance [OF mutex_demo_start(1) q(2,6)] q show ?thesis by fastforce
qed

end
