(* ===== verification/Mutex_Queues.thy ===== *)
theory Mutex_Queues
  imports Mutex_System
begin

section \<open>Mutexes and the seven-state machine together\<close>

text \<open>
  With a single READY queue, inheritance moves no process between queues, and every mutex request
  keeps the invariant \<open>queues_wf\<close> of the state machine too: the interpretation \<open>single_queue\<close>.
  Then a holder that runs can always unlock. With \<open>MULTILEVEL\<close> a holder in READY can be left in two
  subqueues (see \<open>KS_Running\<close>), and a process that waits for a mutex it holds itself stops the CPU's thread.
\<close>

subsection \<open>Changes of priorities and mutexes only\<close>

definition same_places :: "t_queues \<Rightarrow> t_queues \<Rightarrow> bool" where
  "same_places q q' \<longleftrightarrow> next_ref q' = next_ref q \<and> ready q' = ready q \<and> active_process_count q' = active_process_count q
     \<and> (\<forall>st. refs_in st q' = refs_in st q)
     \<and> (\<forall>r. map_option (\<lambda>p. (pcb_state p, active_instances p)) (pcbs q' r) = map_option (\<lambda>p. (pcb_state p, active_instances p)) (pcbs q r))"

lemma same_places_refl [simp]: "same_places q q"
  by (simp add: same_places_def)

lemma same_places_trans [trans]: "same_places q q1 \<Longrightarrow> same_places q1 q2 \<Longrightarrow> same_places q q2"
  by (simp add: same_places_def)

lemma same_places_mutex [simp]:
  "same_places (put_mutex n m q) q' = same_places q q'" "same_places q (put_mutex n m q') = same_places q q'"
  "same_places q (change_mutex n f q') = same_places q q'"
proof -
  have "refs_in st (q\<lparr>mutex_list := x\<rparr>) = refs_in st q" for st q x by (cases st) auto
  then show "same_places (put_mutex n m q) q' = same_places q q'" "same_places q (put_mutex n m q') = same_places q q'"
    "same_places q (change_mutex n f q') = same_places q q'"
    by (simp_all add: same_places_def put_mutex_def change_mutex_def)
qed

lemma same_places_update:
  assumes "update_pcb r f q = Some q'" "\<And>p. pcb_state (f p) = pcb_state p \<and> active_instances (f p) = active_instances p"
  shows "same_places q q'"
  using assms by (auto simp: update_pcb_def same_places_def)

lemma same_places_lowest: "update_lowest_exec_priority q = Some q' \<Longrightarrow> same_places q q'"
proof -
  have "refs_in st (q\<lparr>exec := (exec q)\<lparr>lowest_priority := x\<rparr>\<rparr>) = refs_in st q" for st x by (cases st) auto
  then show "update_lowest_exec_priority q = Some q' \<Longrightarrow> same_places q q'"
    by (auto simp: update_lowest_exec_priority_def same_places_def)
qed

lemma same_places_wf:
  assumes "same_places q q'" "queues_wf q" "\<not> multilevel_queue (ready q)"
  shows "queues_wf q'"
proof -
  have same: "map_option (\<lambda>p. (pcb_state p, active_instances p)) (pcbs q' r) = map_option (\<lambda>p. (pcb_state p, active_instances p)) (pcbs q r)" for r
    using assms(1) by (simp add: same_places_def)
  have iff: "(\<exists>p. pcbs q' r = Some p \<and> pcb_state p = st) \<longleftrightarrow> (\<exists>p. pcbs q r = Some p \<and> pcb_state p = st)" for r st
    using same [of r] by (cases "pcbs q r"; cases "pcbs q' r") auto
  have none: "pcbs q' r = None \<longleftrightarrow> pcbs q r = None" for r using same [of r] by (cases "pcbs q r"; cases "pcbs q' r") auto
  have dom: "dom (pcbs q') = dom (pcbs q)" by (simp add: dom_def none)
  have inst: "active_instances p = 0" if p: "pcbs q' r = Some p" for r p
  proof -
    obtain p0 where "pcbs q r = Some p0" "active_instances p0 = active_instances p"
      using same [of r] p by (cases "pcbs q r") auto
    then show ?thesis using assms(2) by (auto simp: queues_wf_def store_ok_def)
  qed
  have "0 < queue_count (ready q)" using assms(2) by (auto simp: queues_wf_def ready_ok_def queue_count_def)
  then show ?thesis
    using assms iff inst dom by (simp add: queues_wf_def lists_match_def store_ok_def placed_def same_places_def queue_position_def)
qed

lemma same_places_first: "set_first_priority r change q = Some (x, q') \<Longrightarrow> same_places q q'"
  by (auto simp: set_first_priority_def same_places_def split: option.splits list.splits)

lemma same_places_insert: "insert_priority r prio q = Some q' \<Longrightarrow> same_places q q'"
  unfolding insert_priority_def by (erule same_places_update) simp

lemma same_places_blocking: "set_mutex_blocking r b q = Some q' \<Longrightarrow> same_places q q'"
  unfolding set_mutex_blocking_def by (erule same_places_update) simp

lemma same_places_exchange:
  assumes "exchange_priority r old new q = Some (x, q')" "\<not> multilevel_queue (ready q)"
  shows "same_places q q'"
proof -
  obtain a p q1 where q1: "set_first_priority r (\<lambda>xs. add_priority new (remove_priority_list xs old)) q = Some ((a, p), q1)"
    "(if a then map_option (Pair (True, p)) (update_priority r q1) else Some ((False, p), q1)) = Some (x, q')"
    using assms(1) by (auto simp: exchange_priority_def bind_eq_Some_conv)
  have s: "same_places q q1" by (rule same_places_first [OF q1(1)])
  then have "q' = q1" using q1(2) assms(2) by (auto simp: same_places_def update_priority_def split: if_splits)
  with s show ?thesis by simp
qed

lemma same_places_propagate:
  "propagate_priority_transitive held p new q = Some q' \<Longrightarrow> \<not> multilevel_queue (ready q) \<longrightarrow> same_places q q'"
proof (erule propagate_priority_transitive.raw_induct [rotated])
  fix rec :: "string list \<Rightarrow> pcb_ref \<Rightarrow> int \<Rightarrow> t_queues \<Rightarrow> t_queues option" and held p new q q'
  assume IH: "\<And>held h prio q q'. rec held h prio q = Some q' \<Longrightarrow> \<not> multilevel_queue (ready q) \<longrightarrow> same_places q q'"
    and body: "Option.bind (get_mutex_blocking p q) (\<lambda>expected.
       case expected of
         None \<Rightarrow> Some q
       | Some name \<Rightarrow>
           (if name \<in> set held then None
            else Option.bind (mutex_list q name) (\<lambda>m.
              if \<not> priority_active m then Some q
              else (case remove_pcb_list (mutex_waiters m) p of
                 (found, others) \<Rightarrow>
                   (if \<not> found then Some q
                    else Option.bind (insert_pcb_sorted others p q) (\<lambda>(waiters, slot).
                      (let m1 = m\<lparr>mutex_waiters := waiters\<rparr>
                       in if slot = 0 \<and> new \<noteq> next_priority m
                          then Option.bind (current_process m) (\<lambda>holder.
                                 Option.bind (exchange_priority holder (next_priority m) new
                                     (put_mutex name (m1\<lparr>next_priority := new\<rparr>) q)) (\<lambda>((act, prio), q1).
                                   if act then rec (name # held) holder prio q1 else Some q1))
                          else Some (put_mutex name m1 q)))))))) = Some q'"
  show "\<not> multilevel_queue (ready q) \<longrightarrow> same_places q q'"
  proof
    assume m: "\<not> multilevel_queue (ready q)"
    have step: "same_places q q'" if "exchange_priority holder old new (put_mutex n m q) = Some ((act, prio), q1)"
      "(if act then rec (n # held) holder prio q1 else Some q1) = Some q'" for holder old n m act prio q1
    proof -
      have "\<not> multilevel_queue (ready (put_mutex n m q))" using \<open>\<not> multilevel_queue (ready q)\<close> by (simp add: put_mutex_def)
      from same_places_exchange [OF that(1) this] have "same_places q q1" by simp
      moreover from this have "\<not> multilevel_queue (ready q1)" using m by (simp add: same_places_def)
      then have "same_places q1 q'" using that(2) IH by (auto split: if_splits)
      ultimately show ?thesis by (rule same_places_trans)
    qed
    obtain b where gb: "get_mutex_blocking p q = Some b" using body by (auto simp: bind_eq_Some_conv)
    show "same_places q q'"
    proof (cases b)
      case None
      then show ?thesis using body gb by simp
    next
      case (Some n)
      then obtain m where n: "mutex_list q n = Some m" "n \<notin> set held" using body gb by (auto simp: bind_eq_Some_conv split: if_splits)
      show ?thesis
      proof (cases "priority_active m \<and> p \<in> set (mutex_waiters m)")
        case False
        then show ?thesis using body gb Some n by (auto simp: remove_pcb_list_def split: if_splits)
      next
        case True
        then obtain ws slot where "insert_pcb_sorted (remove1 p (mutex_waiters m)) p q = Some (ws, slot)" "(if slot = 0 \<and> new \<noteq> next_priority m
          then Option.bind (current_process m) (\<lambda>holder.
                 Option.bind (exchange_priority holder (next_priority m) new
                     (put_mutex n (m\<lparr>mutex_waiters := ws, next_priority := new\<rparr>) q)) (\<lambda>((act, prio), q1).
                   if act then rec (n # held) holder prio q1 else Some q1))
          else Some (put_mutex n (m\<lparr>mutex_waiters := ws\<rparr>) q)) = Some q'"
          using body gb Some n by (auto simp: remove_pcb_list_def bind_eq_Some_conv Let_def)
        then show ?thesis by (auto simp: bind_eq_Some_conv split: if_split_asm intro: step)
      qed
    qed
  qed
qed

lemma same_places_replace:
  assumes "replace_priority held r old new q = Some q'" "\<not> multilevel_queue (ready q)"
  shows "same_places q q'"
proof -
  obtain act prio q1 where q1: "exchange_priority r old new q = Some ((act, prio), q1)"
    "(if act then propagate_priority_transitive held r prio q1 else Some q1) = Some q'"
    using assms(1) by (auto simp: replace_priority_def bind_eq_Some_conv)
  have s: "same_places q q1" by (rule same_places_exchange [OF q1(1) assms(2)])
  then have "same_places q1 q'" using q1(2) assms(2) same_places_propagate by (auto simp: same_places_def split: if_splits)
  with s show ?thesis by (rule same_places_trans)
qed


subsection \<open>A single READY queue\<close>

lemma mutex_ready [simp]: "ready (put_mutex n m q) = ready q" "ready (change_mutex n f q) = ready q"
  "pcbs (put_mutex n m q) = pcbs q" "pcbs (change_mutex n f q) = pcbs q"
  by (simp_all add: put_mutex_def change_mutex_def)

lemma exec_block_ready: "transition_exec_block r q = Some q' \<Longrightarrow> multilevel_queue (ready q') = multilevel_queue (ready q)"
  by (auto simp: transition_exec_block_def guarded_move_def manage_state_pcb_def update_pcb_def transition_take_exec_def
      update_lowest_exec_priority_def transition_to_block_def set_blocked_time_def bind_eq_Some_conv Let_def
      split: option.splits if_splits)

lemma put_ready_multilevel: "put_ready r q = Some q' \<Longrightarrow> multilevel_queue (ready q') = multilevel_queue (ready q)"
  by (auto simp: put_ready_def split: option.splits dest: to_ready_spec(4))

lemma unlock_ready: "transition_unlock r q = Some q' \<Longrightarrow> multilevel_queue (ready q') = multilevel_queue (ready q)"
  by (auto simp: transition_unlock_def transition_block_ready_no_mutex_def transition_susp_block_susp_ready_no_mutex_def guarded_move_def
      manage_state_pcb_def update_pcb_def transition_take_block_def set_blocked_time_def bind_eq_Some_conv
      transition_take_susp_block_def transition_to_susp_ready_def
      split: option.splits if_splits dest: put_ready_multilevel)

lemma lock_single_queue:
  assumes lock: "mutex_lock n r q = Some (ret, q')" and wf: "queues_wf q" "\<not> multilevel_queue (ready q)"
  shows "queues_wf q' \<and> \<not> multilevel_queue (ready q')"
proof -
  obtain a m where a: "get_priority_pcb r q = Some a" "mutex_list q n = Some m" using lock by (auto simp: mutex_lock_def bind_eq_Some_conv)
  have ends: "queues_wf q' \<and> \<not> multilevel_queue (ready q')" if w: "wait_for_mutex n r q2 = Some q3" "same_places q q2"
    "q' = change_mutex n f q3" for q2 q3 f
  proof -
    obtain q4 where q4: "set_mutex_blocking r (Some n) q2 = Some q4" "transition_exec_block r q4 = Some q3"
      using w(1) by (auto simp: wait_for_mutex_def bind_eq_Some_conv)
    have "same_places q q4" using w(2) same_places_blocking [OF q4(1)] same_places_trans by blast
    then have wf4: "queues_wf q4" "\<not> multilevel_queue (ready q4)" using same_places_wf wf by (auto simp: same_places_def)
    moreover obtain p4 where "pcbs q4 r = Some p4" using q4(1) by (auto simp: set_mutex_blocking_def update_pcb_def)
    ultimately have "queues_wf q3" using transition_exec_block_wf q4(2) by fastforce
    moreover have "multilevel_queue (ready q3) = multilevel_queue (ready q4)" by (rule exec_block_ready [OF q4(2)])
    ultimately show ?thesis using w(3) wf4(2) by simp
  qed
  show ?thesis
  proof (cases "mutex_state m = 1")
    case True
    then obtain q1 where q1: "insert_priority r INT_MAX_PRIORITY (put_mutex n (m\<lparr>current_process := Some r, next_priority := INT_MAX_PRIORITY\<rparr>) q) = Some q1"
      "q' = change_mutex n (\<lambda>m. m\<lparr>mutex_state := mutex_state m - 1\<rparr>) q1"
      using lock a by (auto simp: mutex_lock_def bind_eq_Some_conv)
    then have "same_places q q'" using same_places_insert [OF q1(1)] by simp
    then show ?thesis using same_places_wf wf by (auto simp: same_places_def)
  next
    case False
    show ?thesis
    proof (cases "priority_active m")
      case True
      then obtain ws slot q2 q3 where w: "insert_pcb_sorted (mutex_waiters m) r q = Some (ws, slot)"
        "(if slot = 0
              then Option.bind (current_process m) (\<lambda>holder.
                     Option.bind (replace_priority [n] holder (next_priority m) a (put_mutex n (m\<lparr>mutex_waiters := ws\<rparr>) q)) (\<lambda>q2.
                       update_lowest_exec_priority (change_mutex n (\<lambda>m. m\<lparr>next_priority := a\<rparr>) q2)))
              else Some (put_mutex n (m\<lparr>mutex_waiters := ws\<rparr>) q)) = Some q2"
        "wait_for_mutex n r q2 = Some q3" "q' = change_mutex n (\<lambda>m. m\<lparr>mutex_state := mutex_state m - 1\<rparr>) q3"
        using lock a False by (auto simp: mutex_lock_def bind_eq_Some_conv)
      have "same_places q q2"
      proof (cases "slot = 0")
        case True
        then obtain holder q5 where q5: "replace_priority [n] holder (next_priority m) a (put_mutex n (m\<lparr>mutex_waiters := ws\<rparr>) q) = Some q5"
          "update_lowest_exec_priority (change_mutex n (\<lambda>m. m\<lparr>next_priority := a\<rparr>) q5) = Some q2"
          using w(2) by (auto simp: bind_eq_Some_conv)
        have "same_places q q5" using same_places_replace [OF q5(1)] wf(2) by simp
        then show ?thesis using same_places_lowest [OF q5(2)] same_places_trans same_places_mutex(3) by metis
      qed (use w(2) in \<open>auto intro: same_places_refl\<close>)
      then show ?thesis using ends w by blast
    next
      case no: False
      then show ?thesis using lock a False ends by (auto simp: mutex_lock_def bind_eq_Some_conv)
    qed
  qed
qed


lemma unlock_single_queue:
  assumes unlock: "mutex_unlock n r q = Some (ret, q')" and wf: "queues_wf q" "\<not> multilevel_queue (ready q)"
  shows "queues_wf q' \<and> \<not> multilevel_queue (ready q')"
proof -
  obtain m where m: "mutex_list q n = Some m" using unlock by (auto simp: mutex_unlock_def bind_eq_Some_conv)
  show ?thesis
  proof (cases "current_process m = Some r")
    case False
    then show ?thesis using unlock m wf by (auto simp: mutex_unlock_def)
  next
    case True
    then obtain q1 q2 where q1: "(if priority_active m
              then Option.bind (remove_priority r (next_priority m) q)
                     (\<lambda>(updated, q1). if updated then update_lowest_exec_priority q1 else Some q1)
              else Some q) = Some q1"
      and q2: "(if mutex_state m = 0 then Some (put_mutex n (m\<lparr>current_process := None, next_priority := INT_MAX_PRIORITY\<rparr>) q1)
              else if mutex_state m < 0 then hand_over n m q1 else Some q1) = Some q2"
      and q': "q' = change_mutex n (\<lambda>m. m\<lparr>mutex_state := mutex_state m + 1\<rparr>) q2"
      using unlock m by (auto simp: mutex_unlock_def bind_eq_Some_conv)
    have "same_places q q1" using q1
      by (auto simp: bind_eq_Some_conv remove_priority_def split: if_splits
          dest!: same_places_first same_places_lowest intro: same_places_trans)
    then have wf1: "queues_wf q1" "\<not> multilevel_queue (ready q1)" using same_places_wf wf by (auto simp: same_places_def)
    have "queues_wf q2 \<and> \<not> multilevel_queue (ready q2)"
    proof (cases "mutex_state m < 0")
      case True
      then have "hand_over n m q1 = Some q2" using q2 by simp
      then obtain heir others where w: "mutex_waiters m = heir # others" by (auto simp: hand_over_def split: list.splits)
      let ?m = "m\<lparr>mutex_waiters := others, current_process := Some heir\<rparr>"
      obtain q3 q4 where q3: "set_mutex_blocking heir None (put_mutex n ?m q1) = Some q3"
        and q4: "(if priority_active m
              then do {
                next \<leftarrow> (if mutex_state m = -1 then Some INT_MAX_PRIORITY
                         else (case others of [] \<Rightarrow> None | r # rs \<Rightarrow> get_priority_pcb r q3));
                insert_priority heir next (change_mutex n (\<lambda>m. m\<lparr>next_priority := next\<rparr>) q3) }
              else Some q3) = Some q4"
        and q5: "transition_unlock heir q4 = Some q2"
        using \<open>hand_over n m q1 = Some q2\<close> w by (auto simp: hand_over_def bind_eq_Some_conv)
      have p3: "same_places q1 q3" using same_places_blocking [OF q3] by simp
      also have "same_places q3 q4" using q4
        by (auto simp: bind_eq_Some_conv split: if_splits dest!: same_places_insert) (simp_all add: same_places_def refs_in_mutex change_mutex_def)
      finally have wf4: "queues_wf q4" "\<not> multilevel_queue (ready q4)" using same_places_wf wf1 by (auto simp: same_places_def)
      moreover obtain p where "pcbs q4 heir = Some p" using q5 by (cases "pcbs q4 heir") (auto simp: transition_unlock_def get_state_pcb_def)
      ultimately have "queues_wf q2" using transition_unlock_wf q5 by fastforce
      then show ?thesis using wf4(2) unlock_ready [OF q5] by simp
    next
      case False
      then show ?thesis using q2 wf1 by (auto split: if_splits)
    qed
    then show ?thesis using q' by simp
  qed
qed


lemma suspend_ready:
  assumes "transition_block_susp_block_no_mutex r q = Some q'"
  shows "ready q' = ready q"
proof -
  obtain p where p: "pcbs q r = Some p" using assms by (auto simp: transition_block_susp_block_no_mutex_def bind_eq_Some_conv)
  show ?thesis
  proof (cases "pcb_state p = PS_BLOCK")
    case True
    then obtain ok q1 where q1: "notify_process_suspended (pcb_pid p) q = Some (ok, q1)"
      using assms p by (auto simp: transition_block_susp_block_no_mutex_def bind_eq_Some_conv)
    have c: "ready q1 = ready q" using core_notify_suspended [OF q1] by (simp add: same_core_def)
    show ?thesis
    proof (cases ok)
      case ok: True
      have "do {
         q2 \<leftarrow> update_pcb r (\<lambda>p. p\<lparr>pcb_state := PS_SUSP_BLOCK\<rparr>) q1;
         q3 \<leftarrow> transition_take_block r q2;
         q4 \<leftarrow> transition_to_susp_block r q3;
         Some (if \<not> compaction_active q4 \<and> \<not> resume_active q4
               then q4\<lparr>resumer := unlock_thread_suspended (resumer q4)\<rparr> else q4) } = Some q'"
        using assms p True q1 ok by (simp add: transition_block_susp_block_no_mutex_def)
      then obtain q2 q3 q4 where q2: "update_pcb r (\<lambda>p. p\<lparr>pcb_state := PS_SUSP_BLOCK\<rparr>) q1 = Some q2"
        and q3: "transition_take_block r q2 = Some q3" and q4: "transition_to_susp_block r q3 = Some q4"
        and q': "q' = (if \<not> compaction_active q4 \<and> \<not> resume_active q4
               then q4\<lparr>resumer := unlock_thread_suspended (resumer q4)\<rparr> else q4)"
        unfolding bind_eq_Some_conv option.inject by blast
      have "ready q2 = ready q1" using q2 by (auto simp: update_pcb_def)
      moreover have "ready q3 = ready q2" using q3 by (auto simp: transition_take_block_def set_blocked_time_def update_pcb_def)
      moreover have "ready q4 = ready q3" using q4 by (auto simp: transition_to_susp_block_def)
      ultimately show ?thesis using c q' by simp
    next
      case False
      then show ?thesis using assms p True q1 c by (simp add: transition_block_susp_block_no_mutex_def)
    qed
  next
    case False
    then show ?thesis using assms p by (simp add: transition_block_susp_block_no_mutex_def)
  qed
qed

lemma resume_ready:
  assumes "transition_susp_ready_no_mutex r q = Some (ok, q')"
  shows "multilevel_queue (ready q') = multilevel_queue (ready q)"
proof -
  obtain p where p: "pcbs q r = Some p" using assms by (auto simp: transition_susp_ready_no_mutex_def bind_eq_Some_conv)
  show ?thesis
  proof (cases "pcb_state p = PS_SUSP_READY")
    case True
    then obtain can q1 where q1: "can_resume_suspended (pcb_pid p) q = Some (can, q1)"
      using assms p by (auto simp: transition_susp_ready_no_mutex_def bind_eq_Some_conv)
    have c1: "ready q1 = ready q" using core_can_resume [OF q1] by (simp add: same_core_def)
    show ?thesis
    proof (cases can)
      case can: True
      then obtain resumed q2 where q2: "notify_process_resume_suspended (pcb_pid p) q1 = Some (resumed, q2)"
        using assms p True q1 by (auto simp: transition_susp_ready_no_mutex_def bind_eq_Some_conv)
      have "ready q2 = ready q" using core_notify_resume [OF q2] c1 by (simp add: same_core_def)
      then show ?thesis using assms p True q1 can q2
        by (auto simp: transition_susp_ready_no_mutex_def bind_eq_Some_conv update_pcb_def transition_take_susp_ready_def
            split: if_splits dest!: put_ready_multilevel)
    next
      case False
      then show ?thesis using assms p True q1 c1 by (simp add: transition_susp_ready_no_mutex_def)
    qed
  next
    case False
    then show ?thesis using assms p by (simp add: transition_susp_ready_no_mutex_def)
  qed
qed

lemma preempt_ready: "transition_exec_ready r q = Some q' \<Longrightarrow> multilevel_queue (ready q') = multilevel_queue (ready q)"
  by (auto simp: transition_exec_ready_def guarded_move_def manage_state_pcb_def update_pcb_def transition_take_exec_def
      update_lowest_exec_priority_def bind_eq_Some_conv Let_def split: option.splits if_splits dest!: put_ready_multilevel)

lemma susp_block_ready: "transition_susp_block r q = Some q' \<Longrightarrow> ready q' = ready q"
  by (auto simp: transition_susp_block_def guarded_move_def manage_state_pcb_def update_pcb_def transition_take_susp_block_def
      transition_to_block_def set_blocked_time_def bind_eq_Some_conv split: option.splits if_splits)

lemma dispatch_ready: "dispatch q = Some (taken, q') \<Longrightarrow> multilevel_queue (ready q') = multilevel_queue (ready q)"
  by (auto simp: dispatch_def transition_take_ready_blocking_def run_process_def transition_ready_exec_def manage_state_pcb_def
      update_pcb_def transition_to_exec_def bind_eq_Some_conv split: option.splits if_splits prod.splits
      dest: take_next_spec(2) take_next_none(2))

lemma single_queue_moves:
  assumes "sched_apply s q = Some (q', out)" "moves_only s"
  shows "multilevel_queue (ready q') = multilevel_queue (ready q)"
  using assms
  by (cases s) (auto simp: lock_queue_ready_def unlock_queue_ready_def split: if_splits dest: dispatch_ready preempt_ready exec_block_ready unlock_ready suspend_ready
      resume_ready susp_block_ready)

lemma mutex_apply_single_queue:
  assumes inv: "queues_wf q \<and> \<not> multilevel_queue (ready q)" and ok: "mutex_ok r q" and step: "mutex_apply r q = Some (q', out)"
  shows "queues_wf q' \<and> \<not> multilevel_queue (ready q')"
proof (cases r)
  case (Create_mutex n)
  then have "q' = q \<or> (\<exists>m. q' = put_mutex n m q)" using step by (auto simp: create_and_add_mutex_def split: if_splits)
  then show ?thesis using inv by auto
next
  case (Lock_mutex n x)
  then show ?thesis using step inv lock_single_queue by (auto simp: list_mutex_lock_def split: if_splits)
next
  case (Unlock_mutex n x)
  then show ?thesis using step inv unlock_single_queue by (auto simp: list_mutex_unlock_def split: if_splits)
next
  case (Move s)
  then have s: "sched_apply s q = Some (q', snd (the (sched_apply s q)))" "moves_only s" "sched_ok s q" using step ok by auto
  from single_queue_moves [OF s(1,2)] sched_apply_wf [OF _ s(3,1)] inv show ?thesis by simp
qed

interpretation single_queue: invariant_system mutex_ok mutex_apply "\<lambda>q. queues_wf q \<and> \<not> multilevel_queue (ready q)"
  by unfold_locales (rule mutex_apply_single_queue)


definition fifo_init :: t_queues where
  "fifo_init = init_queues SA_FIFO [] 0 False 500"

definition fifo_start :: "sched_request list" where
  "fifo_start = [Km_sends process_started, New_process ''a'' 1, Km_sends process_started, New_process ''b'' 2, Dispatch, Dispatch]"

definition fifo_requests :: "mutex_request list" where
  "fifo_requests = [Create_mutex ''M'', Lock_mutex ''M'' 0, Lock_mutex ''M'' 1]"

lemma fifo_run:
  "map_option (\<lambda>q. (map_option (\<lambda>p. (pcb_state p, blocking_mutex p)) (pcbs q 0),
       map_option mutex_waiters (mutex_list q ''M''), map_option current_process (mutex_list q ''M''), map_option pcb_state (pcbs q 1)))
     (Option.bind (sched_run fifo_start fifo_init) (mutex_run fifo_requests))
   = Some (Some (PS_EXEC, None), Some [1], Some (Some 0), Some PS_BLOCK)"
  by code_simp

lemma fifo_multilevel:
  "map_option (\<lambda>q. (multilevel_queue (ready q), next_ref q, map (prio_of q) [0, 1])) (sched_run fifo_start fifo_init)
   = Some (False, 2, [1, 2])"
  by code_simp

lemma fifo_base:
  assumes "sched_run fifo_start fifo_init = Some q0" "queues_wf q0"
  shows "0 \<le> prio_of q0 r \<and> prio_of q0 r \<le> 2"
proof (cases "pcbs q0 r")
  case (Some p)
  then have "r < next_ref q0" using assms(2) by (auto simp: queues_wf_def store_ok_def)
  then have "r = 0 \<or> r = 1" using fifo_multilevel assms(1) by auto
  then show ?thesis using fifo_multilevel assms(1) by auto
qed (simp add: prio_of_def)

lemma fifo_reach:
  obtains q0 q p m ph where "sched_run fifo_start fifo_init = Some q0" "no_mutexes q0" "queues_wf q0" "\<not> multilevel_queue (ready q0)"
    "mutex_run fifo_requests q0 = Some q" "reachable mutex_ok mutex_apply q0 q"
    "pcbs q 0 = Some p" "pcb_state p = PS_EXEC" "blocking_mutex p = None" "mutex_list q ''M'' = Some m" "current_process m = Some 0"
    "mutex_waiters m = [1]" "pcbs q 1 = Some ph" "pcb_state ph = PS_BLOCK"
proof -
  obtain q0 q where q: "sched_run fifo_start fifo_init = Some q0" "mutex_run fifo_requests q0 = Some q"
    using fifo_run by (auto simp: bind_eq_Some_conv)
  have "no_mutexes fifo_init" by (simp add: no_mutexes_def fifo_init_def init_queues_def)
  moreover have "list_all (\<lambda>s. moves_only s \<or> (\<exists>file prio. s = New_process file prio \<and> prio \<le> INT_MAX_PRIORITY)) fifo_start"
    by (simp add: fifo_start_def)
  ultimately have n: "no_mutexes q0" using sched_run_no_mutexes [OF q(1)] by blast
  have "queues_wf fifo_init" by (simp add: fifo_init_def init_queues_wf)
  then have w: "queues_wf q0" using scheduler.reachable_inv [OF sched_run_reachable [OF reachable_init q(1)]] by blast
  have r: "reachable mutex_ok mutex_apply q0 q" by (rule mutex_run_reachable [OF reachable_init q(2)])
  have m: "\<not> multilevel_queue (ready q0)" using fifo_multilevel q(1) by simp
  show thesis using fifo_run q by (auto intro!: that [OF q(1) n w m q(2) r])
qed

subsection \<open>Properties\<close>

text \<open>With a single READY queue, creating, locking and unlocking mutexes never breaks the state
  machine, however they are mixed with dispatching, preemption, I/O and suspension: the list of
  every state still holds exactly the processes in that state, each once, and the READY counter is
  the number of processes in READY.\<close>

lemma mutexes_keep_states:
  assumes "queues_wf q0" "\<not> multilevel_queue (ready q0)" "reachable mutex_ok mutex_apply q0 q"
  shows "(\<forall>st r. r \<in> set (refs_in st q) \<longleftrightarrow> (\<exists>p. pcbs q r = Some p \<and> pcb_state p = st))
    \<and> (\<forall>st. distinct (refs_in st q)) \<and> ready_process_count (ready q) = int (length (refs_in PS_READY q))"
proof -
  have "queues_wf q" using single_queue.reachable_inv [OF assms(3)] assms(1,2) by blast
  then show ?thesis by (auto simp: queues_wf_def lists_match_def ready_ok_def)
qed

text \<open>C10: In a state that satisfies \<open>queues_wf\<close> and \<open>mutex_wf\<close>, with priorities in range, the holder of a mutex that
  others wait for runs (it is in EXEC and waits for no mutex) and unlocks it. The call succeeds: the
  first of those who wait, none of which has a better priority, becomes the holder, is not blocked any
  more and moves to READY (or to SUSP. READY if it had been suspended), the others go on waiting in
  their order, and both invariants hold again. The order is that of the priorities, not that of the
  requests.\<close>

theorem unlock_hands_over:
  assumes "queues_wf q" "mutex_wf base q" "base_in_range base q"
    and "pcbs q r = Some p" "pcb_state p = PS_EXEC" "blocking_mutex p = None"
    and "mutex_list q n = Some m" "current_process m = Some r" "mutex_waiters m = heir # others" "pcbs q heir = Some ph"
  shows "\<exists>q' m' p'. mutex_unlock n r q = Some (MR_MUTEX_UNLOCKED, q') \<and> queues_wf q' \<and> mutex_wf base q'
     \<and> mutex_list q' n = Some m' \<and> current_process m' = Some heir \<and> mutex_waiters m' = others
     \<and> (\<forall>x \<in> set others. prio_of q heir \<le> prio_of q x)
     \<and> pcbs q' heir = Some p' \<and> blocking_mutex p' = None
     \<and> (pcb_state ph = PS_BLOCK \<longrightarrow> pcb_state p' = PS_READY) \<and> (pcb_state ph = PS_SUSP_BLOCK \<longrightarrow> pcb_state p' = PS_SUSP_READY)"
proof -
  obtain q' p' where q': "mutex_unlock n r q = Some (MR_MUTEX_UNLOCKED, q')" "queues_wf q'" "pcbs q' heir = Some p'" "blocking_mutex p' = None"
    "pcb_state p' = (if pcb_state ph = PS_BLOCK then PS_READY else if pcb_state ph = PS_SUSP_BLOCK then PS_SUSP_READY else pcb_state ph)"
    using mutex_unlock_total [OF assms] by blast
  have v: "pview q r = Some (pcb_priority p, priority_list p, None)" using assms(4,6) by (simp add: pview_def)
  have "\<exists>m'. mutex_list q' n = Some m' \<and> current_process m' = Some heir \<and> mutex_waiters m' = others"
    using mutex_unlock_heir [OF q'(1) assms(2) v assms(7-9)] by blast
  moreover have "\<forall>x \<in> set others. prio_of q heir \<le> prio_of q x"
    using assms(2,7,9) by (fastforce simp: mutex_wf_def mutex_sorted_def)
  ultimately show ?thesis using q' mutex_unlock_wf [OF q'(1) assms(2) v] by auto
qed

theorem unlock_hands_over_witness:
  "\<exists>q0 q q' p'. sched_run fifo_start fifo_init = Some q0 \<and> mutex_run fifo_requests q0 = Some q
     \<and> mutex_unlock ''M'' 0 q = Some (MR_MUTEX_UNLOCKED, q') \<and> pcbs q' 1 = Some p' \<and> pcb_state p' = PS_READY"
proof -
  obtain q0 q p m ph where q: "sched_run fifo_start fifo_init = Some q0" "no_mutexes q0" "queues_wf q0" "\<not> multilevel_queue (ready q0)"
    "mutex_run fifo_requests q0 = Some q" "reachable mutex_ok mutex_apply q0 q"
    "pcbs q 0 = Some p" "pcb_state p = PS_EXEC" "blocking_mutex p = None" "mutex_list q ''M'' = Some m" "current_process m = Some 0"
    "mutex_waiters m = [1]" "pcbs q 1 = Some ph" "pcb_state ph = PS_BLOCK" by (rule fifo_reach)
  have wf: "queues_wf q" "\<not> multilevel_queue (ready q)" using single_queue.reachable_inv [OF q(6)] q(3,4) by blast+
  have "prio_of q0 r \<le> INT_MAX_PRIORITY" for r using fifo_base [OF q(1,3), of r] by linarith
  then have "base_in_range (prio_of q0) q" using fifo_base [OF q(1,3)] wf(2) by (simp add: base_in_range_def)
  from unlock_hands_over [OF wf(1) reachable_mutex_wf [OF q(2,6)] this q(7-13)] q show ?thesis by blast
qed

text \<open>C34: A process that waits for a mutex it already holds stops the scheduler's CPU thread: when
  another process with a better priority asks for that mutex, \<open>propagate_priority_transitive\<close>
  follows the holder back to the same mutex, locks its C mutex a second time and never returns.\<close>

theorem self_wait_hangs_lock:
  assumes "mutex_wf base q" "mutex_list q n = Some m" "current_process m = Some h"
    and "pcbs q h = Some ph" "blocking_mutex ph = Some n" "pcbs q r = Some pr" "pcb_priority pr < pcb_priority ph"
  shows "mutex_lock n r q = None"
proof -
  have v: "pview q h = Some (pcb_priority ph, priority_list ph, Some n)" using assms(4,5) by (simp add: pview_def)
  have f: "mutex_shape (pview q) n m" using wf_facts [OF assms(1)] assms(2) by metis
  then have m: "priority_active m" "mutex_state m \<noteq> 1" "h \<in> set (mutex_waiters m)"
    using assms(3) v by (auto simp: mutex_shape_def waiting_on_def)
  obtain nx where c: "chain_inv base {} nx (mutex_list q) (pview q)" and nx: "nx n = next_priority m"
    using wf_facts [OF assms(1)] assms(2) by metis
  have "priorities_ok base nx (mutex_list q) h (pcb_priority ph) (priority_list ph)" using c v by (simp add: chain_inv_def)
  then have l: "sorted (priority_list ph)" "\<forall>x \<in> set (priority_list ph). pcb_priority ph \<le> x"
    unfolding priorities_ok_def by (cases "priority_list ph"; auto)+
  have first: "hd (add_priority (pcb_priority pr) (remove1 (next_priority m) (priority_list ph))) = pcb_priority pr"
  proof -
    have "\<forall>x \<in> set (remove1 (next_priority m) (priority_list ph)). pcb_priority pr < x"
      using l(2) assms(7) by (meson notin_set_remove1 order_less_le_trans)
    then show ?thesis using sorted_remove1 [OF l(1), of "next_priority m"]
      by (cases "remove1 (next_priority m) (priority_list ph)") (auto simp: add_priority_props(4))
  qed
  have "replace_priority [n] h (next_priority m) (pcb_priority pr) (put_mutex n (m\<lparr>mutex_waiters := ws\<rparr>) q) = None" for ws
  proof (cases "replace_priority [n] h (next_priority m) (pcb_priority pr) (put_mutex n (m\<lparr>mutex_waiters := ws\<rparr>) q)")
    case (Some q')
    then obtain act prio q1 where q1: "exchange_priority h (next_priority m) (pcb_priority pr) (put_mutex n (m\<lparr>mutex_waiters := ws\<rparr>) q) = Some ((act, prio), q1)"
      "(if act then propagate_priority_transitive [n] h prio q1 else Some q1) = Some q'"
      by (auto simp: replace_priority_def bind_eq_Some_conv)
    have "pview (put_mutex n (m\<lparr>mutex_waiters := ws\<rparr>) q) h = Some (pcb_priority ph, priority_list ph, Some n)" using v by simp
    from exchange_view [OF q1(1) this] first assms(7) have act and "get_mutex_blocking h q1 = Some (Some n)"
      by (auto simp: get_mutex_blocking_def pview_def fun_eq_iff split: if_splits)
    then show ?thesis using q1(2) by (simp add: propagate_replace)
  qed
  moreover have "slot = 0" if ins: "insert_pcb_sorted (mutex_waiters m) r q = Some (ws, slot)" for ws slot
  proof (rule ccontr)
    assume "slot \<noteq> 0"
    then have "prio_of q (hd (mutex_waiters m)) < prio_of q r" using insert_front(2) [OF ins] by blast
    moreover have "pcb_priority ph \<le> next_priority m" by (rule wf_priorities(2) [OF assms(1) v assms(2,3)])
    moreover have "mutex_sorted (prio_of q) m" using wf_facts [OF assms(1)] assms(2) by metis
    then have "next_priority m = prio_of q (hd (mutex_waiters m))" using m(3) by (auto simp: mutex_sorted_def split: list.splits)
    ultimately show False using assms(6,7) by (simp add: prio_of_def)
  qed
  ultimately show ?thesis using assms(2,3,6) m(1,2)
    by (cases "insert_pcb_sorted (mutex_waiters m) r q") (auto simp: mutex_lock_def get_priority_pcb_def split: prod.splits)
qed


theorem self_wait_hangs_lock_witness:
  "\<exists>q. mutex_run [Create_mutex ''M'', Lock_mutex ''M'' 0, Lock_mutex ''M'' 0] mutex_demo = Some q \<and> mutex_lock ''M'' 2 q = None"
proof -
  let ?rs = "[Create_mutex ''M'', Lock_mutex ''M'' 0, Lock_mutex ''M'' 0]"
  have "map_option (\<lambda>q. (map_option current_process (mutex_list q ''M''), map_option (\<lambda>p. (blocking_mutex p, pcb_priority p)) (pcbs q 0),
      map_option pcb_priority (pcbs q 2))) (mutex_run ?rs mutex_demo) = Some (Some (Some 0), Some (Some ''M'', 1), Some 0)" by code_simp
  then obtain q m p0 p2 where q: "mutex_run ?rs mutex_demo = Some q" "mutex_list q ''M'' = Some m" "current_process m = Some 0"
    "pcbs q 0 = Some p0" "blocking_mutex p0 = Some ''M''" "pcbs q 2 = Some p2" "pcb_priority p2 < pcb_priority p0" by auto
  have "reachable mutex_ok mutex_apply mutex_demo q" by (rule mutex_run_reachable [OF reachable_init q(1)])
  from self_wait_hangs_lock [OF reachable_mutex_wf [OF mutex_demo_start(1) this] q(2-7)] q(1) show ?thesis by blast
qed

end
