(* ===== verification/Formats.thy ===== *)
theory Formats
  imports Swap_Store Registers Strings Dictionary
begin

section \<open>Containers, files and messages keep what is put into them\<close>

text \<open>
  Properties of \<open>utils\<close>, of the register file and of the swap module: the hash table refines a
  map, the file parsers and the wire formats read back what was written, splitting a string
  returns and loses nothing, and the blocks of the swap file are independent.
\<close>

subsection \<open>The hash table\<close>

text \<open>The keys of a table, in bucket order.\<close>

definition dict_keys :: "'a t_dictionary \<Rightarrow> string list" where
  "dict_keys self = map he_key (concat (elements self))"

lemma key_bucket:
  assumes "dict_inv self" "i < length (elements self)" "e \<in> set (elements self ! i)"
  shows "i = bucket_index self (dictionary_hash (he_key e))"
  using assms unfolding dict_inv_def bucket_ok_def by (metis (mono_tags, lifting))

lemma distinct_concat_buckets:
  assumes "\<forall>i < length xss. distinct (map f (xss ! i))"
    and "\<forall>i < length xss. \<forall>j < length xss. \<forall>x \<in> set (xss ! i). \<forall>y \<in> set (xss ! j). f x = f y \<longrightarrow> i = j"
  shows "distinct (map f (concat xss))"
  using assms
proof (induction xss)
  case (Cons xs xss)
  have "distinct (map f (concat xss))"
  proof (rule Cons.IH)
    show "\<forall>i < length xss. distinct (map f (xss ! i))" using Cons.prems(1) by (metis length_Cons Suc_less_eq nth_Cons_Suc)
    show "\<forall>i < length xss. \<forall>j < length xss. \<forall>x \<in> set (xss ! i). \<forall>y \<in> set (xss ! j). f x = f y \<longrightarrow> i = j"
      using Cons.prems(2) by (metis length_Cons Suc_less_eq nth_Cons_Suc old.nat.inject)
  qed
  moreover have "distinct (map f xs)" using Cons.prems(1) by (metis length_Cons nth_Cons_0 zero_less_Suc)
  moreover have "f x \<noteq> f y" if xy: "x \<in> set xs" "y \<in> set (concat xss)" for x y
  proof
    assume e: "f x = f y"
    obtain ys where "ys \<in> set xss" "y \<in> set ys" using xy(2) by auto
    then obtain j where "j < length xss" "y \<in> set (xss ! j)" by (metis in_set_conv_nth)
    then have "(0::nat) = Suc j" using Cons.prems(2) xy(1) e by (metis length_Cons Suc_less_eq nth_Cons_0 nth_Cons_Suc zero_less_Suc)
    then show False by simp
  qed
  ultimately show ?case by auto
qed simp

lemma distinct_dict_keys: "dict_inv self \<Longrightarrow> distinct (dict_keys self)"
  unfolding dict_keys_def
proof (rule distinct_concat_buckets)
  assume inv: "dict_inv self"
  then show "\<forall>i < length (elements self). distinct (map he_key (elements self ! i))" by (simp add: dict_inv_def bucket_ok_def)
  show "\<forall>i < length (elements self). \<forall>j < length (elements self). \<forall>x \<in> set (elements self ! i). \<forall>y \<in> set (elements self ! j).
      he_key x = he_key y \<longrightarrow> i = j"
    using key_bucket [OF inv] by metis
qed

lemma dict_keys_lookup:
  assumes "dict_inv self"
  shows "k \<in> set (dict_keys self) \<longleftrightarrow> dictionary_get self k \<noteq> None"
proof
  assume "k \<in> set (dict_keys self)"
  then obtain i e where e: "i < length (elements self)" "e \<in> set (elements self ! i)" "he_key e = k"
    by (auto simp: dict_keys_def in_set_conv_nth) metis
  then have "i = bucket_index self (dictionary_hash k)" using key_bucket [OF assms e(1,2)] by simp
  moreover have "element_matches k e" using assms e by (auto simp: element_matches_def dict_inv_def bucket_ok_def)
  ultimately show "dictionary_get self k \<noteq> None"
    using e(2) by (auto simp: dictionary_get_def dictionary_find_def find_None_iff)
next
  assume "dictionary_get self k \<noteq> None"
  then obtain e where "find (element_matches k) (elements self ! bucket_index self (dictionary_hash k)) = Some e"
    by (auto simp: dictionary_get_def dictionary_find_def)
  then have "e \<in> set (elements self ! bucket_index self (dictionary_hash k))" "he_key e = k"
    by (auto simp: find_Some_iff element_matches_def)
  then show "k \<in> set (dict_keys self)" using nth_mem [OF bucket_index_less [OF assms, of "dictionary_hash k"]] by (auto simp: dict_keys_def)
qed

text \<open>C27: The hash table refines a finite map: after any sequence of insertions into a new table, a lookup
  gives the last value put under the key and nothing for the other keys, \<open>dictionary_has_key\<close> says
  which keys these are, and the table counts each key once however often it was put.\<close>

theorem dictionary_refines_map:
  fixes kvs :: "(string \<times> 'a) list"
  defines "d \<equiv> foldl (\<lambda>d (k, v). dictionary_put d k v) dictionary_create kvs"
  shows "dictionary_get d = map_of (rev kvs) \<and> (\<forall>k. dictionary_has_key d k = (k \<in> fst ` set kvs))
    \<and> elements_amount d = int (card (fst ` set kvs))"
proof -
  have get: "dictionary_get d = map_of (rev kvs)" unfolding d_def by (rule ext) (rule dictionary.table_lookup)
  have inv: "dict_inv d" unfolding d_def by (rule dictionary.ok_puts [OF dictionary.ok_empty])
  have keys: "set (dict_keys d) = fst ` set kvs"
    using dict_keys_lookup [OF inv] by (auto simp: get map_of_eq_None_iff)
  have "elements_amount d = int (length (dict_keys d))" using inv by (simp add: dict_inv_def dict_keys_def)
  also have "\<dots> = int (card (fst ` set kvs))" using distinct_card [OF distinct_dict_keys [OF inv]] keys by simp
  finally have "elements_amount d = int (card (fst ` set kvs))" .
  moreover have "dictionary_has_key d k = (k \<in> fst ` set kvs)" for k
    using keys dict_keys_lookup [OF inv, of k] by (simp add: dictionary_has_key_def dictionary_get_def)
  ultimately show ?thesis using get by blast
qed


subsection \<open>Files\<close>

text \<open>A configuration file written as \<open>KEY=value\<close> lines is read back: \<open>config_create\<close> succeeds,
  every key gives the value of its last line and no other key has one.\<close>

lemma config_round_trip:
  assumes "\<forall>kv \<in> set kvs. config_entry_ok kv"
  shows "\<exists>c. config_create (Some (config_text kvs)) = Some c \<and> config_get_string_value c = map_of (rev kvs)"
  using assms by (simp add: config_create_def config_load_lines_text fun_eq_iff config_get_string_value_def dictionary.table_lookup)

text \<open>\<open>string_split\<close> returns for every text and every separator that is not empty, and the pieces
  joined with the separator are the text again.\<close>

lemma split_returns:
  assumes "sep \<noteq> []"
  shows "\<exists>ps. string_split t sep = Some ps \<and> ps \<noteq> [] \<and> string_join sep ps = t"
  using split_loop_returns [OF assms, of t "[]"] by (simp add: string_split_def)

subsection \<open>Messages\<close>

text \<open>C26: What one module sends the next one receives, with the bytes that follow left in the stream: a
  packet of any number of values that are not empty, a text without null characters, and the
  handshake that names the module.\<close>

theorem messages_round_trip:
  assumes "in_int op" "vs \<noteq> []" "\<forall>v \<in> set vs. v \<noteq> []" "int (length (encode_values vs)) \<le> INT_MAX"
    and "int (length s) < INT_MAX" "CHR 0x00 \<notin> set s" "send_handshake mid = Some hs"
  shows "(\<exists>body. receive_op_code (send_packet (packet_appends (create_packet op) vs) @ rest) = (op, body) \<and> receive_packet body = Some (vs, rest))
    \<and> (\<exists>body b. receive_op_code (send_string op s @ rest) = (op, body) \<and> receive_string body = Some (Some b, rest) \<and> string_of_bytes b = s)
    \<and> receive_handshake (hs @ rest) = Some (mid, rest)"
proof -
  obtain body where b: "send_packet (packet_appends (create_packet op) vs) @ rest = int_bytes op @ body" "receive_packet body = Some (vs, rest)"
    using receive_packet_send [OF assms(2-4,1)] by blast
  then have "\<exists>body. receive_op_code (send_packet (packet_appends (create_packet op) vs) @ rest) = (op, body) \<and> receive_packet body = Some (vs, rest)"
    using receive_op_code_bytes [OF assms(1)] by auto
  moreover have "\<exists>body b. receive_op_code (send_string op s @ rest) = (op, body) \<and> receive_string body = Some (Some b, rest) \<and> string_of_bytes b = s"
    using receive_string_send [OF assms(5,1)] string_of_c_string [OF assms(6)] by blast
  ultimately show ?thesis using receive_handshake_send [OF assms(7)] by blast
qed

theorem messages_round_trip_witness:
  "\<exists>hs. send_handshake MID_CPU = Some hs \<and> receive_handshake (hs @ [1, 2]) = Some (MID_CPU, [1, 2])"
proof -
  have "\<exists>hs. send_handshake MID_CPU = Some hs" by (simp add: send_handshake_def HANDSHAKE_MSG_def)
  then obtain hs where hs: "send_handshake MID_CPU = Some hs" by blast
  have "in_int 7" "int (length (encode_values [[1::u8], [2, 3]])) \<le> INT_MAX" "int (length ''cpu-0'') < INT_MAX"
    by (simp_all add: in_int_def INT_MAX_def encode_values_def)
  from messages_round_trip [OF this(1) _ _ this(2,3) _ hs, of "[1, 2]"] hs show ?thesis by auto
qed

subsection \<open>The register file\<close>

text \<open>C28: The registers keep their widths: a write changes the named register only, an 8-bit register
  keeps the low byte of the value and a 32-bit one all of it, an unknown name is ignored and
  reads as 0; and the 32 bytes that carry the registers to Kernel Memory and back give the
  same registers.\<close>

theorem register_file:
  "get_register (set_register r name v) other =
     (if other \<noteq> name then get_register r other
      else if name \<in> byte_registers then v AND 255 else if name \<in> word_registers then v else 0)
   \<and> bytes_registers (registers_bytes r @ rest) = Some r \<and> length (registers_bytes r) = 32"
  by (simp add: get_set_same get_set_other registers_roundtrip) (simp add: registers_bytes_def)

subsection \<open>The swap file\<close>

text \<open>The swap module keeps its blocks apart: after Kernel Memory has written any number of different
  blocks, reading one gives the bytes written to it and every other block is as before.\<close>

lemma swap_blocks_round_trip:
  assumes "swap_ok swap" "distinct (map fst kbs)" "\<forall>(k, b) \<in> set kbs. valid_block swap k \<and> int (length b) = sw_block_size swap"
  shows "\<exists>swap'. foldl (\<lambda>t (k, b). Option.bind t (\<lambda>t. link_write t k b)) (Some swap) kbs = Some swap' \<and> swap_ok swap'
    \<and> (\<forall>(k, b) \<in> set kbs. link_read swap' k = Some b)
    \<and> (\<forall>j. valid_block swap j \<and> j \<notin> fst ` set kbs \<longrightarrow> link_read swap' j = link_read swap j)"
  using swap_disk.writes_kept [OF assms] by auto

end
