(* ===== verification/Io_Service.thy ===== *)
theory Io_Service
  imports Sched_Io
begin

section \<open>Serving the I/O requests\<close>

text \<open>
  What one round of an interface's thread does to the processes that wait for it, whatever the
  interface and Kernel Memory answer, and the race between the end of an operation and the
  process that has not blocked yet.
\<close>

subsection \<open>The conversations keep the queue of requests and the processes\<close>

lemma send_to_io_list: "send_to_io b io = (sent, io1) \<Longrightarrow> io_list io1 = io_list io"
  by (auto simp: send_to_io_def split: if_splits)

lemma stdin_list:
  assumes "communication_io_stdin request io = Some (answer, io1)"
  shows "io_list io1 = io_list io"
proof -
  obtain b sent io0 where "request_struct 12 request = Some b" "send_to_io (send_buffer OP_IO_STDIN_REQUEST b) io = (sent, io0)"
    using assms by (fastforce simp: communication_io_stdin_def bind_eq_Some_conv)
  moreover obtain op rest where "receive_op_code (from_io io0) = (op, rest)" by force
  ultimately show ?thesis using assms
    by (auto simp: communication_io_stdin_def bind_eq_Some_conv split: bool.splits if_splits dest!: send_to_io_list)
qed

lemma sleep_list:
  assumes "communication_io_sleep request io = Some (ok, io1)"
  shows "io_list io1 = io_list io"
proof -
  obtain b sent io0 where "request_struct 8 request = Some b" "send_to_io (send_buffer OP_IO_SLEEP_REQUEST b) io = (sent, io0)"
    using assms by (fastforce simp: communication_io_sleep_def bind_eq_Some_conv)
  moreover obtain op rest where "receive_op_code (from_io io0) = (op, rest)" by force
  ultimately show ?thesis using assms
    by (auto simp: communication_io_sleep_def bind_eq_Some_conv split: bool.splits if_splits dest!: send_to_io_list)
qed

lemma stdout_list: "send_stdout request io buffer = Some (ok, io1) \<Longrightarrow> io_list io1 = io_list io"
  by (auto simp: send_stdout_def bind_eq_Some_conv dest!: send_to_io_list)

lemma core_send_stdin: "send_stdin request buffer q = Some (ok, q') \<Longrightarrow> same_core q q'"
  by (auto simp: send_stdin_def bind_eq_Some_conv dest!: core_send_to_km)

lemma core_chat_stdin: "chat_km_stdin q = Some (ok, q') \<Longrightarrow> same_core q q'"
  by (auto simp: chat_km_stdin_def bind_eq_Some_conv split: if_splits dest!: core_receive_opcode core_skip_string intro: same_core_trans)

lemma core_request_stdout: "request_stdout_km request q = Some (ok, q') \<Longrightarrow> same_core q q'"
  by (auto simp: request_stdout_km_def bind_eq_Some_conv dest!: core_send_to_km)

lemma core_receive_stdout: "receive_km_stdout q = Some (ok, q') \<Longrightarrow> same_core q q'"
  by (auto simp: receive_km_stdout_def dest!: core_receive_opcode)

text \<open>
  The outcome of serving the first request: it is taken off the list and its process woken, or
  nothing has changed.
\<close>

definition served :: "t_io_request \<Rightarrow> t_io_request list \<Rightarrow> t_queues \<Rightarrow> bool \<times> t_io \<times> t_queues \<Rightarrow> bool" where
  "served request rest q = (\<lambda>(ok, io', q').
     if ok then io_list io' = Some rest \<and> (\<exists>q0. same_core q q0 \<and> free_request request q0 = Some q')
     else io_list io' = Some (request # rest) \<and> same_core q q')"

lemma finalize_served:
  assumes "map_option (Pair True) (finalize_io request io1 q1) = Some result" "io_list io1 = Some (request # rest)" "same_core q q1"
  shows "served request rest q result"
  using assms by (auto simp: finalize_io_def served_def)

lemma failed_served: "io_list io1 = Some (request # rest) \<Longrightarrow> same_core q q1 \<Longrightarrow> served request rest q (False, io1, q1)"
  by (simp add: served_def)

lemma sleep_served:
  assumes "io_sleep_f request io q = Some result" "io_list io = Some (request # rest)"
  shows "served request rest q result"
proof -
  obtain comms io1 where c: "communication_io_sleep request io = Some (comms, io1)"
    "(if \<not> comms then Some (False, io1, q) else map_option (Pair True) (finalize_io request io1 q)) = Some result"
    using assms(1) by (auto simp: io_sleep_f_def bind_eq_Some_conv)
  have l: "io_list io1 = Some (request # rest)" using sleep_list [OF c(1)] assms(2) by simp
  show ?thesis
  proof (cases comms)
    case True
    then show ?thesis using c(2) finalize_served [OF _ l] by simp
  next
    case False
    then show ?thesis using c(2) l by (auto intro: failed_served)
  qed
qed

lemma stdin_served:
  assumes "io_stdin_f request io q = Some result" "io_list io = Some (request # rest)"
  shows "served request rest q result"
proof -
  obtain answer io1 where c: "communication_io_stdin request io = Some (answer, io1)"
    using assms(1) by (auto simp: io_stdin_f_def bind_eq_Some_conv)
  have l: "io_list io1 = Some (request # rest)" using stdin_list [OF c] assms(2) by simp
  show ?thesis
  proof (cases answer)
    case None
    then show ?thesis using assms(1) c l by (auto simp: io_stdin_f_def intro: failed_served)
  next
    case (Some buffer)
    obtain sent q1 where s: "send_stdin request buffer q = Some (sent, q1)"
      using assms(1) c Some by (auto simp: io_stdin_f_def bind_eq_Some_conv)
    have k: "same_core q q1" by (rule core_send_stdin [OF s])
    show ?thesis
    proof (cases sent)
      case False
      then obtain q2 where "close_kernel_scheduler SR_KERNEL_MEMORY_SEND_ERROR q1 = Some q2" "result = (False, io1, q2)"
        using assms(1) c Some s by (auto simp: io_stdin_f_def bind_eq_Some_conv)
      then show ?thesis using failed_served [OF l] same_core_trans [OF k core_close] by blast
    next
      case True
      then obtain ok q2 where r: "chat_km_stdin q1 = Some (ok, q2)"
        "(if \<not> ok then Some (False, io1, q2) else map_option (Pair True) (finalize_io request io1 q2)) = Some result"
        using assms(1) c Some s by (auto simp: io_stdin_f_def bind_eq_Some_conv)
      have "same_core q q2" using k core_chat_stdin [OF r(1)] by (rule same_core_trans)
      then show ?thesis using r(2) finalize_served [OF _ l] failed_served [OF l] by (cases ok) auto
    qed
  qed
qed


lemma stdout_served:
  assumes "io_stdout_f request io q = Some result" "io_list io = Some (request # rest)"
  shows "served request rest q result"
proof -
  obtain sent q1 where s: "request_stdout_km request q = Some (sent, q1)"
    using assms(1) by (auto simp: io_stdout_f_def bind_eq_Some_conv)
  have k1: "same_core q q1" by (rule core_request_stdout [OF s])
  show ?thesis
  proof (cases sent)
    case False
    then obtain q2 where "close_kernel_scheduler SR_KERNEL_MEMORY_SEND_ERROR q1 = Some q2" "result = (False, io, q2)"
      using assms(1) s by (auto simp: io_stdout_f_def bind_eq_Some_conv)
    then show ?thesis using failed_served [OF assms(2)] same_core_trans [OF k1 core_close] by blast
  next
    case True
    then obtain answered q2 where r: "receive_km_stdout q1 = Some (answered, q2)"
      using assms(1) s by (auto simp: io_stdout_f_def bind_eq_Some_conv)
    have k2: "same_core q q2" using k1 core_receive_stdout [OF r] by (rule same_core_trans)
    show ?thesis
    proof (cases answered)
      case False
      then show ?thesis using assms s \<open>sent\<close> r k2 by (auto simp: io_stdout_f_def intro: failed_served)
    next
      case True
      then obtain buffer rest0 where b: "receive_string (from_km q2) = Some (buffer, rest0)"
        using assms(1) s \<open>sent\<close> r by (auto simp: io_stdout_f_def bind_eq_Some_conv Let_def)
      let ?q3 = "q2\<lparr>from_km := rest0\<rparr>"
      have k3: "same_core q ?q3" using k2 by simp
      show ?thesis
      proof (cases buffer)
        case None
        then obtain q4 where "close_kernel_scheduler SR_KERNEL_MEMORY_CONNECTION_FAILURE ?q3 = Some q4" "result = (False, io, q4)"
          using assms(1) s \<open>sent\<close> r True b by (auto simp: io_stdout_f_def bind_eq_Some_conv Let_def)
        then show ?thesis using failed_served [OF assms(2)] same_core_trans [OF k3 core_close] by blast
      next
        case (Some c)
        then obtain shown io1 where w: "send_stdout request io (string_of_bytes c) = Some (shown, io1)"
          using assms(1) s \<open>sent\<close> r True b by (auto simp: io_stdout_f_def bind_eq_Some_conv Let_def)
        have l: "io_list io1 = Some (request # rest)" using stdout_list [OF w] assms(2) by simp
        obtain op rest1 where o: "receive_op_code (from_io io1) = (op, rest1)" by force
        show ?thesis
        proof (cases "shown \<and> op = OP_STDOUT_RESPONSE")
          case False
          then show ?thesis using assms(1) s \<open>sent\<close> r True b Some w o l k3
            by (auto simp: io_stdout_f_def Let_def split: if_splits intro!: failed_served)
        next
          case shown: True
          then obtain ok rest2 where "receive_string rest1 = Some (ok, rest2)"
            "map_option (Pair True) (finalize_io request (io1\<lparr>from_io := rest2\<rparr>) ?q3) = Some result"
            using assms(1) s \<open>sent\<close> r True b Some w o by (auto simp: io_stdout_f_def bind_eq_Some_conv Let_def)
          then show ?thesis using finalize_served [of request "io1\<lparr>from_io := rest2\<rparr>"] l k3 by simp
        qed
      qed
    qed
  qed
qed

lemma handle_io_served:
  assumes "handle_io io q = Some result" "io_list io = Some (request # rest)"
  shows "served request rest q result"
  using assms sleep_served stdin_served stdout_served
  by (cases "io_type io") (auto simp: handle_io_def handle_stdin_def handle_stdout_def handle_sleep_def)

subsection \<open>Waking everybody\<close>

definition waits :: "t_queues \<Rightarrow> pcb_ref \<Rightarrow> bool" where
  "waits q r \<longleftrightarrow> (\<exists>p. pcbs q r = Some p \<and> pcb_state p \<in> {PS_BLOCK, PS_SUSP_BLOCK})"

lemma free_request_wakes:
  assumes "queues_wf q" "pcbs q (request_pcb e) \<noteq> None"
  shows "\<exists>q'. free_request e q = Some q' \<and> queues_wf q' \<and> dom (pcbs q') = dom (pcbs q)
    \<and> \<not> waits q' (request_pcb e) \<and> (\<forall>r. \<not> waits q r \<longrightarrow> \<not> waits q' r)"
proof -
  obtain p where p: "pcbs q (request_pcb e) = Some p" using assms(2) by auto
  obtain q' p' where q': "transition_unlock (request_pcb e) q = Some q'" "queues_wf q'" "pcbs q' = (pcbs q)(request_pcb e \<mapsto> p')"
    "pcb_state p' = (if pcb_state p = PS_BLOCK then PS_READY else if pcb_state p = PS_SUSP_BLOCK then PS_SUSP_READY else pcb_state p)"
    using unlock_effect [OF assms(1) p] by blast
  then have "\<not> waits q' (request_pcb e)" by (auto simp: waits_def)
  moreover have "\<forall>r. \<not> waits q r \<longrightarrow> \<not> waits q' r" using q'(3) \<open>\<not> waits q' (request_pcb e)\<close> by (auto simp: waits_def)
  ultimately show ?thesis using q' p by (auto simp: free_request_def)
qed

lemma free_requests_wakes:
  assumes "queues_wf q" "\<forall>e \<in> set es. pcbs q (request_pcb e) \<noteq> None"
  shows "\<exists>q'. free_requests es q = Some q' \<and> queues_wf q' \<and> (\<forall>e \<in> set es. \<not> waits q' (request_pcb e))
    \<and> (\<forall>r. \<not> waits q r \<longrightarrow> \<not> waits q' r)"
  using assms
proof (induction es arbitrary: q)
  case (Cons e es)
  obtain q1 where q1: "free_request e q = Some q1" "queues_wf q1" "dom (pcbs q1) = dom (pcbs q)"
    "\<not> waits q1 (request_pcb e)" "\<forall>r. \<not> waits q r \<longrightarrow> \<not> waits q1 r"
    using free_request_wakes [OF Cons.prems(1), of e] Cons.prems(2) by auto
  have "\<forall>e \<in> set es. pcbs q1 (request_pcb e) \<noteq> None" using Cons.prems(2) q1(3) by (auto simp: domIff set_eq_iff)
  from Cons.IH [OF q1(2) this] q1 show ?case by auto
qed simp


lemma close_thread_wakes:
  assumes "queues_wf q" "io_list io = Some es" "\<forall>e \<in> set es. pcbs q (request_pcb e) \<noteq> None"
  shows "\<exists>io' q'. close_thread_io io q = Some (io', q') \<and> close_thread io' \<and> io_list io' = None \<and> queues_wf q'
    \<and> (\<forall>e \<in> set es. \<not> waits q' (request_pcb e))"
  using free_requests_wakes [OF assms(1,3)] assms(2) by (auto simp: close_thread_io_def)

subsection \<open>Properties\<close>

text \<open>C12: Whatever an interface and Kernel Memory answer, a round of the interface's thread leaves nobody
  behind: either the first request is taken off the list, the others stay in their order and its
  process no longer waits, or the thread ends, and then the list is gone and no process that had
  queued a request waits any more. The invariant of the state machine holds in both cases.\<close>

theorem io_round_outcome:
  assumes "queues_wf q" "io_list io = Some es" "\<forall>e \<in> set es. pcbs q (request_pcb e) \<noteq> None"
    and "io_thread io q = Some (going_on, io', q')"
  shows "queues_wf q' \<and>
    (if going_on then \<exists>e rest. es = e # rest \<and> io_list io' = Some rest \<and> \<not> waits q' (request_pcb e)
     else close_thread io' \<and> io_list io' = None \<and> (\<forall>e \<in> set es. \<not> waits q' (request_pcb e)))"
proof (cases "close_thread io")
  case True
  then have "close_thread_io io q = Some (io', q')" "\<not> going_on" using assms(2,4) by (auto simp: io_thread_def)
  then show ?thesis using close_thread_wakes [OF assms(1-3)] by auto
next
  case False
  then obtain e rest where es: "es = e # rest" using assms(2,4) by (cases es) (auto simp: io_thread_def)
  then obtain ok io1 q1 where h: "handle_io io q = Some (ok, io1, q1)"
    "(if ok then Some (True, io1, q1) else map_option (Pair False) (close_thread_io io1 q1)) = Some (going_on, io', q')"
    using assms(2,4) False by (auto simp: io_thread_def bind_eq_Some_conv)
  have s: "served e rest q (ok, io1, q1)" using handle_io_served [OF h(1)] assms(2) es by simp
  show ?thesis
  proof (cases ok)
    case True
    then obtain q0 where q0: "same_core q q0" "free_request e q0 = Some q1" "io_list io1 = Some rest" using s by (auto simp: served_def)
    have "queues_wf q0" "pcbs q0 (request_pcb e) \<noteq> None" using queues_wf_core [OF q0(1)] assms(1,3) q0(1) es by (auto simp: same_core_def)
    from free_request_wakes [OF this] q0 h(2) True es show ?thesis by auto
  next
    case False
    then have l: "io_list io1 = Some es" "same_core q q1" using s es by (auto simp: served_def)
    have "queues_wf q1" "\<forall>e \<in> set es. pcbs q1 (request_pcb e) \<noteq> None"
      using queues_wf_core [OF l(2)] assms(1,3) l(2) by (auto simp: same_core_def)
    from close_thread_wakes [OF this(1) l(1) this(2)] h(2) False show ?thesis by auto
  qed
qed

text \<open>Process 0 of the run of \<open>Queues_System\<close> sleeps on an interface that answers.\<close>

definition sleep_slot :: t_io where
  "sleep_slot = \<lparr>socket_io = True, io_priority_active = False, close_thread = False, io_list = Some [], io_type = IO_SLEEP,
     next_request = 0, from_io = send_string OP_IO_SLEEP_REQUEST ''OK'', io_open = True, to_io = []\<rparr>"

definition sleep_request :: bytes where
  "sleep_request = u32_bytes 0 @ u32_bytes 1000"

theorem io_round_outcome_witness:
  "\<exists>q io io' q'. sched_run (take 8 demo_requests) demo_init = Some q \<and> enqueue_io_request sleep_request sleep_slot 0 q = Some (True, io)
     \<and> io_thread io q = Some (True, io', q') \<and> io_list io' = Some [] \<and> \<not> waits q' 0"
proof -
  have "map_option (\<lambda>q. (map_option pcb_pid (pcbs q 0),
      map_option (\<lambda>(ok, io). (ok, io_list io, map_option (\<lambda>(going_on, io', q'). (going_on, io_list io')) (io_thread io q)))
        (enqueue_io_request sleep_request sleep_slot 0 q))) (sched_run (take 8 demo_requests) demo_init)
    = Some (Some 0, Some (True, Some [\<lparr>request_ref = 0, request_pcb = 0, request_bytes = sleep_request\<rparr>], Some (True, Some [])))" by code_simp
  then obtain q p io io' q' where q: "sched_run (take 8 demo_requests) demo_init = Some q" "pcbs q 0 = Some p"
    "enqueue_io_request sleep_request sleep_slot 0 q = Some (True, io)"
    "io_list io = Some [\<lparr>request_ref = 0, request_pcb = 0, request_bytes = sleep_request\<rparr>]"
    "io_thread io q = Some (True, io', q')" "io_list io' = Some []" by auto
  have "\<forall>e \<in> set [\<lparr>request_ref = 0, request_pcb = 0, request_bytes = sleep_request\<rparr>]. pcbs q (request_pcb e) \<noteq> None" using q(2) by simp
  from io_round_outcome [OF sched_run_wf [OF q(1)] q(4) this q(5)] q show ?thesis by auto
qed

text \<open>C36: The end of an operation can be lost: \<open>handle_syscall_io\<close> queues the request before
  \<open>transition_exec_block\<close>, so when the interface finishes in between, \<open>finalize_io\<close> takes the request
  off the list and unlocks a process that is still in EXEC, which has no effect; then the process
  moves to BLOCK, where no request will ever wake it.\<close>

theorem io_wakeup_lost:
  assumes "queues_wf q" "pcbs q (request_pcb e) = Some p" "pcb_state p = PS_EXEC" "io_list io = Some [e]"
  shows "\<exists>q' p'. finalize_io e io q = Some (io\<lparr>io_list := Some []\<rparr>, q) \<and> transition_exec_block (request_pcb e) q = Some q'
    \<and> pcbs q' (request_pcb e) = Some p' \<and> pcb_state p' = PS_BLOCK"
proof -
  have "transition_unlock (request_pcb e) q = Some q"
    using assms(2,3) by (simp add: transition_unlock_def get_state_pcb_def transition_susp_block_susp_ready_no_mutex_def guarded_move_eq)
  then have "finalize_io e io q = Some (io\<lparr>io_list := Some []\<rparr>, q)" using assms(4) by (simp add: finalize_io_def free_request_def)
  moreover obtain q' where q': "transition_exec_block (request_pcb e) q = Some q'" "queues_wf q'"
    using transition_exec_block_wf [OF assms(1,2)] by blast
  have "\<exists>p'. pcbs q' (request_pcb e) = Some p' \<and> pcb_state p' = PS_BLOCK"
    using q'(1) assms(2,3)
    by (auto simp: transition_exec_block_def guarded_move_eq transition_take_exec_def update_lowest_exec_priority_def transition_to_block_def
        set_blocked_time_def update_pcb_def bind_eq_Some_conv Let_def split: if_splits)
  ultimately show ?thesis using q'(1) by auto
qed

theorem io_wakeup_lost_witness:
  "\<exists>q io q' p'. sched_run (take 7 demo_requests) demo_init = Some q \<and> enqueue_io_request sleep_request sleep_slot 0 q = Some (True, io)
     \<and> transition_exec_block 0 q = Some q' \<and> pcbs q' 0 = Some p' \<and> pcb_state p' = PS_BLOCK"
proof -
  have "map_option (\<lambda>q. (map_option pcb_state (pcbs q 0),
      map_option (\<lambda>(ok, io). (ok, io_list io)) (enqueue_io_request sleep_request sleep_slot 0 q))) (sched_run (take 7 demo_requests) demo_init)
    = Some (Some PS_EXEC, Some (True, Some [\<lparr>request_ref = 0, request_pcb = 0, request_bytes = sleep_request\<rparr>]))" by code_simp
  then obtain q p io where q: "sched_run (take 7 demo_requests) demo_init = Some q" "pcbs q 0 = Some p" "pcb_state p = PS_EXEC"
    "enqueue_io_request sleep_request sleep_slot 0 q = Some (True, io)"
    "io_list io = Some [\<lparr>request_ref = 0, request_pcb = 0, request_bytes = sleep_request\<rparr>]" by auto
  from io_wakeup_lost [OF sched_run_wf [OF q(1)] _ q(3,5)] q show ?thesis by auto
qed

end
