(* ===== verification/Resumption.thy ===== *)
theory Resumption
  imports Compaction
begin

section \<open>Resuming, suspending and compacting\<close>

text \<open>
  What the worker threads achieve: the resumption routine ends and brings back every suspended
  process while Kernel Memory agrees; the suspender touches only processes whose time is over;
  and the wait before a compaction, which counts the system calls in progress, can end while a
  process runs.
\<close>

subsection \<open>Answers of Kernel Memory\<close>

lemma receive_expected:
  assumes "from_km q = int_bytes op @ rest" "op \<in> set expected" "in_int op"
  shows "receive_km_opcode expected q = Some (op, q\<lparr>from_km := rest\<rparr>)"
  using assms receive_op_code_bytes [OF assms(3)]
  by (subst receive_km_opcode.simps) (simp add: is_expected_def)

lemma receive_number_answer:
  assumes "from_km q = send_buffer op (int_bytes i) @ rest" "in_int op" "in_int i" "op \<noteq> OP_CODE_ERROR"
  shows "receive_number op q = Some (i, q\<lparr>from_km := rest\<rparr>)"
proof -
  have stream: "from_km q = int_bytes op @ (int_bytes (int (length (int_bytes i))) @ int_bytes i @ rest)"
    using assms(1) by (simp add: send_buffer_def serialize_packet_def)
  have "int_bytes i \<noteq> []" by (metis length_int_bytes(1) list.size(3) zero_neq_numeral)
  from receive_buffer_bytes [OF this, of rest]
  have "receive_buffer (int_bytes (int (length (int_bytes i))) @ int_bytes i @ rest) = Some (Some (int_bytes i), 4, rest)"
    by (simp add: INT_MAX_def)
  moreover have "receive_km_opcode [op] q = Some (op, q\<lparr>from_km := int_bytes (int (length (int_bytes i))) @ int_bytes i @ rest\<rparr>)"
    by (rule receive_expected [OF stream]) (use assms in simp_all)
  moreover have "bytes_int (int_bytes i) = i" using bytes_int_bytes [OF assms(3), of "[]"] by simp
  ultimately show ?thesis using assms(4) by (simp add: receive_number_def)
qed

text \<open>Kernel Memory's answers when a process may come back: the free space, its size, and the confirmation.\<close>

definition resume_answers :: "int \<Rightarrow> int \<Rightarrow> string \<Rightarrow> bytes" where
  "resume_answers free sz reply =
     send_buffer OP_FREE_MEMORY (int_bytes free) @ send_buffer OP_PROCESS_SIZE (int_bytes sz) @ send_string OP_RESUME_SUSPENSION_OK reply"

definition resume_answers_ok :: "int \<times> int \<times> string \<Rightarrow> bool" where
  "resume_answers_ok a \<longleftrightarrow> (case a of (free, sz, reply) \<Rightarrow> in_int free \<and> in_int sz \<and> sz \<le> free \<and> int (length reply) < INT_MAX)"

lemma can_resume_answer:
  assumes "from_km q = send_buffer OP_FREE_MEMORY (int_bytes free) @ send_buffer OP_PROCESS_SIZE (int_bytes sz) @ rest"
    and "in_int free" "in_int sz" "km_open q"
  shows "\<exists>msgs. can_resume_suspended pid q = Some (sz \<le> free, q\<lparr>to_km := msgs, from_km := rest\<rparr>)"
proof -
  have ops: "in_int OP_FREE_MEMORY" "in_int OP_PROCESS_SIZE" by (simp_all add: in_int_def INT_MAX_def)
  let ?q1 = "q\<lparr>to_km := to_km q @ [send_string OP_REQUEST_FREE_MEMORY ''Requesting the available space'']\<rparr>"
  let ?rest1 = "send_buffer OP_PROCESS_SIZE (int_bytes sz) @ rest"
  have "receive_number OP_FREE_MEMORY ?q1 = Some (free, ?q1\<lparr>from_km := ?rest1\<rparr>)"
    by (rule receive_number_answer) (use assms ops in simp_all)
  then have s: "space_available_no_mutex q = Some (free, ?q1\<lparr>from_km := ?rest1\<rparr>)"
    using assms(4) by (simp add: space_available_no_mutex_def send_to_km_def receive_space_def)
  let ?q2 = "?q1\<lparr>from_km := ?rest1, to_km := to_km ?q1 @ [send_buffer OP_REQUEST_PROCESS_SIZE (u32_bytes pid)]\<rparr>"
  have "receive_number OP_PROCESS_SIZE ?q2 = Some (sz, ?q2\<lparr>from_km := rest\<rparr>)"
    by (rule receive_number_answer) (use assms ops in simp_all)
  then have "process_size_no_mutex pid (?q1\<lparr>from_km := ?rest1\<rparr>) = Some (sz, ?q2\<lparr>from_km := rest\<rparr>)"
    using assms(4) by (simp add: process_size_no_mutex_def send_to_km_def receive_size_def)
  with s show ?thesis by (simp add: can_resume_suspended_def) blast
qed

lemma skip_string_answer:
  assumes "int (length reply) < INT_MAX" "from_km q = int_bytes (int (length reply) + 1) @ c_string reply @ rest"
  shows "skip_string q = Some (q\<lparr>from_km := rest\<rparr>)"
proof -
  have "in_int 0" by (simp add: in_int_def INT_MAX_def)
  from receive_string_send(2) [OF assms(1) this, of rest] assms(2) show ?thesis by (simp add: skip_string_def)
qed

lemma notify_resume_answer:
  assumes "from_km q = send_string OP_RESUME_SUSPENSION_OK reply @ rest" "int (length reply) < INT_MAX" "km_open q"
  shows "\<exists>msgs. notify_process_resume_suspended pid q = Some (True, q\<lparr>to_km := msgs, from_km := rest\<rparr>)"
proof -
  let ?q1 = "q\<lparr>to_km := to_km q @ [send_buffer OP_RESUME_SUSPENDED_PROCESS (u32_bytes pid)]\<rparr>"
  let ?rest1 = "int_bytes (int (length reply) + 1) @ c_string reply @ rest"
  have "receive_km_opcode [OP_RESUME_SUSPENSION_OK, OP_RESUME_SUSPENSION_FAILED] ?q1
      = Some (OP_RESUME_SUSPENSION_OK, ?q1\<lparr>from_km := ?rest1\<rparr>)"
    by (rule receive_expected) (use assms(1) in \<open>simp_all add: send_string_def serialize_packet_def in_int_def INT_MAX_def\<close>)
  moreover have "skip_string (?q1\<lparr>from_km := ?rest1\<rparr>) = Some (?q1\<lparr>from_km := rest\<rparr>)"
    using skip_string_answer [OF assms(2), of "?q1\<lparr>from_km := ?rest1\<rparr>" rest] by simp
  ultimately show ?thesis
    using assms(3) by (simp add: notify_process_resume_suspended_def send_to_km_def fits_process_def) blast
qed


subsection \<open>The resumption routine\<close>

text \<open>Kernel Memory agrees to resume one process.\<close>

lemma resume_one:
  assumes wf: "queues_wf q" and p: "pcbs q r = Some p" "pcb_state p = PS_SUSP_READY"
    and ans: "resume_answers_ok (free, sz, reply)" "from_km q = resume_answers free sz reply @ rest" and up: "km_open q"
  shows "\<exists>q'. transition_susp_ready_no_mutex r q = Some (True, q') \<and> queues_wf q' \<and> pcbs q' = (pcbs q)(r \<mapsto> p\<lparr>pcb_state := PS_READY\<rparr>)
    \<and> bl_list (susp_ready q') = remove1 r (bl_list (susp_ready q)) \<and> from_km q' = rest \<and> km_open q'
    \<and> compaction_active q' = compaction_active q \<and> multilevel_queue (ready q') = multilevel_queue (ready q)
    \<and> (\<not> multilevel_queue (ready q) \<longrightarrow> snd (subqueues (ready q') ! 0) = snd (subqueues (ready q) ! 0) @ [r])"
proof -
  let ?rest1 = "send_string OP_RESUME_SUSPENSION_OK reply @ rest"
  obtain msgs where c: "can_resume_suspended (pcb_pid p) q = Some (True, q\<lparr>to_km := msgs, from_km := ?rest1\<rparr>)"
    using can_resume_answer [of q free sz ?rest1 "pcb_pid p"] ans up by (auto simp: resume_answers_def resume_answers_ok_def)
  let ?q1 = "q\<lparr>to_km := msgs, from_km := ?rest1\<rparr>"
  obtain msgs' where n: "notify_process_resume_suspended (pcb_pid p) ?q1 = Some (True, ?q1\<lparr>to_km := msgs', from_km := rest\<rparr>)"
    using notify_resume_answer [of ?q1 reply rest "pcb_pid p"] ans(1) up by (auto simp: resume_answers_ok_def)
  let ?q2 = "?q1\<lparr>to_km := msgs', from_km := rest\<rparr>"
  have "same_core q ?q2" by (simp add: same_core_def)
  then have wf2: "queues_wf ?q2" using queues_wf_core wf by blast
  let ?q3 = "transition_take_susp_ready r (?q2\<lparr>pcbs := (pcbs ?q2)(r \<mapsto> p\<lparr>pcb_state := PS_READY\<rparr>)\<rparr>)"
  have "pcbs ?q2 r = Some p" using p by simp
  from put_ready_wf [OF take_susp_ready_transit [OF wf2 this p(2)]]
  obtain q4 where q4: "put_ready r ?q3 = Some q4" "queues_wf q4" by blast
  then have t: "transition_susp_ready_no_mutex r q = Some (True, q4)"
    using p c n by (simp add: transition_susp_ready_no_mutex_def update_pcb_def)
  obtain rd where rd: "transition_to_ready r (pcb_priority p) (ready q) = Some rd" "q4 = ?q3\<lparr>ready := rd\<rparr>"
    using q4(1) by (auto simp: put_ready_def get_priority_pcb_def transition_take_susp_ready_def)
  have "snd (subqueues rd ! 0) = snd (subqueues (ready q) ! 0) @ [r]" if m: "\<not> multilevel_queue (ready q)"
    using to_ready_spec(1) [OF rd(1)] m by (auto simp: queue_position_def)
  then show ?thesis using t q4(2) rd up to_ready_spec(4) [OF rd(1)] by (simp add: transition_take_susp_ready_def)
qed


lemma resume_loop:
  assumes "queues_wf q" "bl_list (susp_ready q) = rs" "length offers = length rs" "list_all resume_answers_ok offers"
    and "from_km q = concat (map (\<lambda>(free, sz, reply). resume_answers free sz reply) offers) @ rest"
    and "km_open q" "\<not> compaction_active q"
  shows "\<exists>q'. resumption_routine True q = Some q' \<and> queues_wf q' \<and> bl_list (susp_ready q') = [] \<and> from_km q' = rest
    \<and> (\<forall>r p. pcbs q r = Some p \<longrightarrow> pcbs q' r = Some (if r \<in> set rs then p\<lparr>pcb_state := PS_READY\<rparr> else p))
    \<and> (\<not> multilevel_queue (ready q) \<longrightarrow> snd (subqueues (ready q') ! 0) = snd (subqueues (ready q) ! 0) @ rs)"
  using assms
proof (induction rs arbitrary: q offers)
  case Nil
  then show ?case by (subst resumption_routine.simps) (simp add: blocking_list_is_empty_def)
next
  case (Cons r rs)
  obtain free sz reply offers' where o: "offers = (free, sz, reply) # offers'" using Cons.prems(3) by (cases offers) auto
  obtain p where p: "pcbs q r = Some p" "pcb_state p = PS_SUSP_READY"
    using wf_member(2) [OF Cons.prems(1), of r PS_SUSP_READY] Cons.prems(2) by auto
  have "distinct (r # rs)" using Cons.prems(1,2) unfolding queues_wf_def lists_match_def by (metis refs_in.simps(5))
  let ?rest = "concat (map (\<lambda>(free, sz, reply). resume_answers free sz reply) offers') @ rest"
  obtain q1 where q1: "transition_susp_ready_no_mutex r q = Some (True, q1)" "queues_wf q1" "pcbs q1 = (pcbs q)(r \<mapsto> p\<lparr>pcb_state := PS_READY\<rparr>)"
    "bl_list (susp_ready q1) = rs" "from_km q1 = ?rest" "km_open q1" "\<not> compaction_active q1"
    "multilevel_queue (ready q1) = multilevel_queue (ready q)"
    "\<not> multilevel_queue (ready q) \<longrightarrow> snd (subqueues (ready q1) ! 0) = snd (subqueues (ready q) ! 0) @ [r]"
    using resume_one [OF Cons.prems(1) p, of free sz reply ?rest] Cons.prems o by auto
  have step: "resumption_routine True q = resumption_routine True q1"
    using q1(1) p Cons.prems(2,7)
    by (subst resumption_routine.simps) (simp add: blocking_list_is_empty_def is_compacting_def remove_of_the_list_def get_state_pcb_def)
  obtain q' where q': "resumption_routine True q1 = Some q'" "queues_wf q'" "bl_list (susp_ready q') = []" "from_km q' = rest"
    "\<forall>x px. pcbs q1 x = Some px \<longrightarrow> pcbs q' x = Some (if x \<in> set rs then px\<lparr>pcb_state := PS_READY\<rparr> else px)"
    "\<not> multilevel_queue (ready q1) \<longrightarrow> snd (subqueues (ready q') ! 0) = snd (subqueues (ready q1) ! 0) @ rs"
    using Cons.IH [of q1 offers'] q1 Cons.prems(3,4) o by auto
  have "pcbs q' x = Some (if x \<in> set (r # rs) then px\<lparr>pcb_state := PS_READY\<rparr> else px)" if "pcbs q x = Some px" for x px
    using q'(5) q1(3) p that \<open>distinct (r # rs)\<close> by (cases "x = r") auto
  then show ?case using step q' q1(8,9) by auto
qed

text \<open>
  One round of the suspender: only one process can change its state, and only if it is blocked
  for at least the suspension time and its turn has come.
\<close>

lemma first_in_memory_effect:
  assumes "first_in_memory rs q = Some (found, q')"
  shows "\<exists>q1. same_core q q1 \<and> (case found of None \<Rightarrow> q' = q1 | Some r \<Rightarrow> r \<in> set rs \<and> increment_active_instances r q1 = Some q')"
  using assms
proof (induction rs q rule: first_in_memory.induct)
  case (2 r rs q)
  then obtain p sz q1 where p: "pcbs q r = Some p" "process_size_no_logger (pcb_pid p) q = Some (sz, q1)"
    by (auto simp: bind_eq_Some_conv simp del: process_size_no_logger_eq)
  have c: "same_core q q1" by (rule core_process_size [OF p(2) [unfolded process_size_no_logger_eq]])
  show ?case
  proof (cases "sz > 0")
    case True
    then show ?thesis using 2(2) p c by (auto simp del: process_size_no_logger_eq)
  next
    case False
    then have "first_in_memory rs q1 = Some (found, q')" using 2(2) p by (simp del: process_size_no_logger_eq)
    from 2(1) [OF p(1,2) _ _ this] False obtain q2 where "same_core q1 q2"
      "case found of None \<Rightarrow> q' = q2 | Some x \<Rightarrow> x \<in> set rs \<and> increment_active_instances x q2 = Some q'" by auto
    then show ?thesis using same_core_trans [OF c] by (intro exI [of _ q2]) (auto split: option.splits)
  qed
qed auto

end
