(* ===== verification/Workers.thy ===== *)
theory Workers
  imports Resumption
begin

section \<open>What the worker threads guarantee\<close>

text \<open>
  What a round of the suspender and the resumption routine do to the processes.
\<close>

subsection \<open>One round of the suspender\<close>

lemma suspend_effect:
  assumes "transition_block_susp_block_no_mutex r q = Some q'" "pcbs q r = Some p"
  shows "(\<forall>x. x \<noteq> r \<longrightarrow> pcbs q' x = pcbs q x)
    \<and> (\<exists>p'. pcbs q' r = Some p' \<and> (pcb_state p' = pcb_state p \<or> pcb_state p = PS_BLOCK \<and> pcb_state p' = PS_SUSP_BLOCK))"
proof (cases "pcb_state p = PS_BLOCK")
  case True
  obtain ok q1 where q1: "notify_process_suspended (pcb_pid p) q = Some (ok, q1)"
    using assms True by (auto simp: transition_block_susp_block_no_mutex_def bind_eq_Some_conv)
  have c: "pcbs q1 = pcbs q" using core_notify_suspended [OF q1] by (simp add: same_core_def)
  show ?thesis
  proof (cases ok)
    case ok: True
    then have "do {
         q2 \<leftarrow> update_pcb r (\<lambda>p. p\<lparr>pcb_state := PS_SUSP_BLOCK\<rparr>) q1;
         q3 \<leftarrow> transition_take_block r q2;
         q4 \<leftarrow> transition_to_susp_block r q3;
         Some (if \<not> compaction_active q4 \<and> \<not> resume_active q4
               then q4\<lparr>resumer := unlock_thread_suspended (resumer q4)\<rparr> else q4) } = Some q'"
      using assms True q1 by (simp add: transition_block_susp_block_no_mutex_def)
    then obtain q2 q3 q4 where q2: "update_pcb r (\<lambda>p. p\<lparr>pcb_state := PS_SUSP_BLOCK\<rparr>) q1 = Some q2"
      and q3: "transition_take_block r q2 = Some q3" and q4: "transition_to_susp_block r q3 = Some q4"
      and q': "q' = (if \<not> compaction_active q4 \<and> \<not> resume_active q4
               then q4\<lparr>resumer := unlock_thread_suspended (resumer q4)\<rparr> else q4)"
      unfolding bind_eq_Some_conv option.inject by blast
    have "pcbs q2 = (pcbs q)(r \<mapsto> p\<lparr>pcb_state := PS_SUSP_BLOCK\<rparr>)" using q2 c assms(2) by (auto simp: update_pcb_def)
    then have "pcbs q3 = (pcbs q)(r \<mapsto> p\<lparr>pcb_state := PS_SUSP_BLOCK, blocked_time := 0\<rparr>)"
      using q3 by (auto simp: transition_take_block_def set_blocked_time_def update_pcb_def)
    moreover have "pcbs q' = pcbs q3" using q4 q' by (auto simp: transition_to_susp_block_def)
    ultimately show ?thesis using True by auto
  next
    case False
    then show ?thesis using assms True q1 c by (simp add: transition_block_susp_block_no_mutex_def)
  qed
next
  case False
  then show ?thesis using assms by (simp add: transition_block_susp_block_no_mutex_def)
qed

lemma decrement_effect:
  assumes "decrement_active_instances r q = Some q'"
  shows "x \<noteq> r \<longrightarrow> pcbs q' x = pcbs q x" "pcbs q r = Some p \<Longrightarrow> pcbs q' r = Some (p\<lparr>active_instances := active_instances p - 1\<rparr>)"
  using assms by (auto simp: decrement_active_instances_def update_pcb_def)

lemma run_suspend_effect:
  assumes "run_suspend_process r q = Some q'" "pcbs q r = Some p"
  shows "x \<noteq> r \<Longrightarrow> pcbs q' x = pcbs q x"
    and "\<exists>p'. pcbs q' r = Some p' \<and> (pcb_state p' = pcb_state p \<or> must_suspend p q \<and> pcb_state p = PS_BLOCK \<and> pcb_state p' = PS_SUSP_BLOCK)"
proof -
  obtain q1 q2 where q1: "(if must_suspend p q \<and> pcb_state p = PS_BLOCK then transition_block_susp_block_no_mutex r q else Some q) = Some q1"
    and q2: "decrement_active_instances r q1 = Some q2" and q': "pcbs q' = pcbs q2"
    using assms by (auto simp: run_suspend_process_def bind_eq_Some_conv)
  have "(\<forall>x. x \<noteq> r \<longrightarrow> pcbs q1 x = pcbs q x) \<and> (\<exists>p1. pcbs q1 r = Some p1
      \<and> (pcb_state p1 = pcb_state p \<or> must_suspend p q \<and> pcb_state p = PS_BLOCK \<and> pcb_state p1 = PS_SUSP_BLOCK))"
    using suspend_effect [OF _ assms(2)] q1 assms(2) by (auto split: if_splits)
  then obtain p1 where p1: "\<And>x. x \<noteq> r \<Longrightarrow> pcbs q1 x = pcbs q x" "pcbs q1 r = Some p1"
    "pcb_state p1 = pcb_state p \<or> must_suspend p q \<and> pcb_state p = PS_BLOCK \<and> pcb_state p1 = PS_SUSP_BLOCK" by blast
  show "x \<noteq> r \<Longrightarrow> pcbs q' x = pcbs q x" using p1(1) decrement_effect(1) [OF q2] q' by simp
  show "\<exists>p'. pcbs q' r = Some p' \<and> (pcb_state p' = pcb_state p \<or> must_suspend p q \<and> pcb_state p = PS_BLOCK \<and> pcb_state p' = PS_SUSP_BLOCK)"
    using decrement_effect(2) [OF q2 p1(2)] p1(3) q' by auto
qed

text \<open>C20: A round of the suspender changes the state of at most one process, and only from BLOCK to SUSP.
  BLOCK, when that process has been blocked for at least \<open>SUSPENSION_TIME\<close>, in \<open>unsigned long\<close>
  arithmetic, and is in the list of BLOCK.\<close>

theorem suspender_only_expired:
  assumes "thread_suspender woken q = Some (going_on, q')" "pcbs q r = Some p" "pcbs q' r = Some p'" "pcb_state p' \<noteq> pcb_state p"
  shows "pcb_state p = PS_BLOCK \<and> pcb_state p' = PS_SUSP_BLOCK \<and> r \<in> set (bl_list (block q))
    \<and> word_of_int (suspension_timeout q) \<le> now q - blocked_time p
    \<and> (\<forall>x px px'. x \<noteq> r \<and> pcbs q x = Some px \<and> pcbs q' x = Some px' \<longrightarrow> pcb_state px' = pcb_state px)"
proof (cases "suspender q = TS_RUNNING")
  case True
  then obtain found q1 where f: "get_process_blocked q = Some (found, q1)"
    "(case found of None \<Rightarrow> Some (True, q1) | Some x \<Rightarrow> map_option (Pair True) (run_suspend_process x q1)) = Some (going_on, q')"
    using assms(1) by (auto simp: thread_suspender_def bind_eq_Some_conv)
  then obtain q2 where q2: "first_in_memory (bl_list (block q)) q = Some (found, q2)"
    "pcbs q1 = pcbs q2" "now q1 = now q2" "suspension_timeout q1 = suspension_timeout q2"
    by (auto simp: get_process_blocked_def bind_eq_Some_conv)
  obtain q0 where q0: "same_core q q0" "case found of None \<Rightarrow> q2 = q0
      | Some x \<Rightarrow> x \<in> set (bl_list (block q)) \<and> increment_active_instances x q0 = Some q2"
    using first_in_memory_effect [OF q2(1)] by blast
  show ?thesis
  proof (cases found)
    case None
    then have "pcbs q' = pcbs q" using f(2) q0 q2(2) by (simp add: same_core_def)
    then show ?thesis using assms by simp
  next
    case (Some x)
    then have run: "run_suspend_process x q1 = Some q'" and inc: "increment_active_instances x q0 = Some q2"
      and mem: "x \<in> set (bl_list (block q))" using f(2) q0(2) by auto
    obtain px where px: "pcbs q x = Some px" "pcbs q1 = (pcbs q)(x \<mapsto> px\<lparr>active_instances := active_instances px + 1\<rparr>)"
      "now q1 = now q" "suspension_timeout q1 = suspension_timeout q"
      using inc q0(1) q2(2-4) by (auto simp: increment_active_instances_def update_pcb_def same_core_def)
    have others: "y \<noteq> x \<Longrightarrow> pcbs q' y = pcbs q y" for y
      using run_suspend_effect(1) [OF run, of "px\<lparr>active_instances := active_instances px + 1\<rparr>" y] px(2) by simp
    obtain px' where px': "pcbs q' x = Some px'" "pcb_state px' = pcb_state px
        \<or> must_suspend (px\<lparr>active_instances := active_instances px + 1\<rparr>) q1 \<and> pcb_state px = PS_BLOCK \<and> pcb_state px' = PS_SUSP_BLOCK"
      using run_suspend_effect(2) [OF run, of "px\<lparr>active_instances := active_instances px + 1\<rparr>"] px(2) by auto
    have "r = x" using others [of r] assms(2-4) by auto
    then have e: "p = px" "p' = px'" using assms(2,3) px(1) px'(1) by auto
    then have s: "must_suspend (px\<lparr>active_instances := active_instances px + 1\<rparr>) q1" "pcb_state px = PS_BLOCK" "pcb_state px' = PS_SUSP_BLOCK"
      using px'(2) assms(4) by auto
    then have "word_of_int (suspension_timeout q) \<le> now q - blocked_time px" using px(3,4) by (simp add: must_suspend_def millis_def)
    then show ?thesis using s e mem others \<open>r = x\<close> by auto
  qed
next
  case False
  then have "pcbs q' = pcbs q" using assms(1)
    by (cases "suspender q") (auto simp: thread_suspender_def wait_process_blocked_def wait_unlock_def split: if_splits)
  then show ?thesis using assms by simp
qed


definition suspender_run :: "sched_request list" where
  "suspender_run = take 8 demo_requests @ [Tick 600, Km_sends (send_buffer OP_PROCESS_SIZE (int_bytes 10) @ send_string OP_SUSPENSION_OK '''')]"

theorem suspender_only_expired_witness:
  "\<exists>q p. sched_run suspender_run demo_init = Some q \<and> pcbs q 0 = Some p \<and> pcb_state p = PS_BLOCK \<and> word_of_int (suspension_timeout q) \<le> now q - blocked_time p"
proof -
  have "map_option (\<lambda>q. (map_option pcb_state (pcbs q 0),
      map_option (\<lambda>(going_on, q'). map_option pcb_state (pcbs q' 0)) (thread_suspender False q))) (sched_run suspender_run demo_init)
    = Some (Some PS_BLOCK, Some (Some PS_SUSP_BLOCK))" by code_simp
  then obtain q p going_on q' p' where q: "sched_run suspender_run demo_init = Some q" "pcbs q 0 = Some p" "pcb_state p = PS_BLOCK"
    "thread_suspender False q = Some (going_on, q')" "pcbs q' 0 = Some p'" "pcb_state p' = PS_SUSP_BLOCK" by auto
  from suspender_only_expired [OF q(4,2,5)] q show ?thesis by auto
qed

subsection \<open>Resuming\<close>

text \<open>C13: While Kernel Memory answers that the processes fit, the resumption routine ends and brings back
  all of them: SUSP. READY is empty, every process that was in it is in READY, in the order of the
  list when READY is one queue, no other process has changed, and the bytes read are exactly the
  answers.\<close>

theorem resumption_resumes_all:
  assumes "queues_wf q" "length offers = length (bl_list (susp_ready q))" "list_all resume_answers_ok offers"
    and "from_km q = concat (map (\<lambda>(free, sz, reply). resume_answers free sz reply) offers) @ rest"
    and "km_open q" "\<not> compaction_active q"
  shows "\<exists>q'. resumption_routine True q = Some q' \<and> queues_wf q' \<and> bl_list (susp_ready q') = [] \<and> from_km q' = rest
    \<and> (\<forall>r p. pcbs q r = Some p \<longrightarrow> pcbs q' r = Some (if r \<in> set (bl_list (susp_ready q)) then p\<lparr>pcb_state := PS_READY\<rparr> else p))
    \<and> (\<not> multilevel_queue (ready q) \<longrightarrow> snd (subqueues (ready q') ! 0) = snd (subqueues (ready q) ! 0) @ bl_list (susp_ready q))"
  using resume_loop [OF assms(1) refl assms(2-6)] .

theorem resumption_resumes_all_witness:
  "\<exists>q q' p. sched_run (demo_requests @ [Km_sends (resume_answers 64 16 '''')]) demo_init = Some q \<and> resumption_routine True q = Some q'
    \<and> pcbs q' 0 = Some p \<and> pcb_state p = PS_READY"
proof -
  let ?rs = "demo_requests @ [Km_sends (resume_answers 64 16 '''')]"
  have "map_option (\<lambda>q. (bl_list (susp_ready q), from_km q = resume_answers 64 16 '''', km_open q, compaction_active q, pcbs q 0 \<noteq> None))
      (sched_run ?rs demo_init) = Some ([0], True, True, False, True)" by code_simp
  then obtain q p where q: "sched_run ?rs demo_init = Some q" "bl_list (susp_ready q) = [0]" "from_km q = resume_answers 64 16 ''''"
    "km_open q" "\<not> compaction_active q" "pcbs q 0 = Some p" by auto
  have ok: "list_all resume_answers_ok [(64, 16, '''')]" by (simp add: resume_answers_ok_def in_int_def INT_MAX_def)
  obtain q' where q': "resumption_routine True q = Some q'"
    "\<forall>r p. pcbs q r = Some p \<longrightarrow> pcbs q' r = Some (if r \<in> set (bl_list (susp_ready q)) then p\<lparr>pcb_state := PS_READY\<rparr> else p)"
    using resumption_resumes_all [OF sched_run_wf [OF q(1)] _ ok, of "[]"] q by auto
  then have "pcbs q' 0 = Some (p\<lparr>pcb_state := PS_READY\<rparr>)" using q(2,6) by simp
  with q(1) q'(1) show ?thesis by auto
qed

subsection \<open>States with the same lists\<close>

lemma same_lists_wf:
  assumes "queues_wf q" "pcbs q' = pcbs q" "next_ref q' = next_ref q" "ready q' = ready q"
    "active_process_count q' = active_process_count q" "\<And>st. refs_in st q' = refs_in st q"
  shows "queues_wf q'"
  using assms by (simp add: queues_wf_def lists_match_def store_ok_def placed_def)

end
