(* ===== verification/Cpu_Threads.thy ===== *)
theory Cpu_Threads
  imports Sched_Cpu
begin

section \<open>What the CPU threads guarantee\<close>

text \<open>
  Round robin and preemption by priority as functions of the state, with the invariant of the
  state machine, and what becomes of the process of a CPU whose connection is lost.
\<close>

subsection \<open>Two processes at once\<close>

text \<open>Preempting by priority holds the next process outside all lists while the old one goes back to READY.\<close>

lemma lowest_of_cong: "(\<And>r. r \<in> set rs \<Longrightarrow> st r = st' r) \<Longrightarrow> lowest_of rs st x = lowest_of rs st' x"
  by (induction rs arbitrary: x) (auto split: option.splits)

definition exec_after :: "pcb_ref \<Rightarrow> (pcb_ref \<Rightarrow> t_pcb option) \<Rightarrow> t_execute_list \<Rightarrow> t_execute_list option" where
  "exec_after r st ex =
     (if preemption ex
      then map_option (\<lambda>l. ex\<lparr>exec_list := remove1 r (exec_list ex), lowest_priority := l\<rparr>)
             (lowest_of (remove1 r (exec_list ex)) st 0)
      else Some (ex\<lparr>exec_list := remove1 r (exec_list ex)\<rparr>))"

lemma exec_after_cong:
  "(\<And>x. x \<in> set (remove1 r (exec_list ex)) \<Longrightarrow> st x = st' x) \<Longrightarrow> exec_after r st ex = exec_after r st' ex"
  unfolding exec_after_def using lowest_of_cong [of "remove1 r (exec_list ex)" st st'] by simp

lemma exec_ready_eq:
  assumes "pcbs s r = Some p" "pcb_state p = PS_EXEC"
  shows "transition_exec_ready r s =
    Option.bind (exec_after r ((pcbs s)(r \<mapsto> p\<lparr>pcb_state := PS_READY\<rparr>)) (exec s))
      (\<lambda>ex. map_option (\<lambda>rd. s\<lparr>pcbs := (pcbs s)(r \<mapsto> p\<lparr>pcb_state := PS_READY\<rparr>), exec := ex, ready := rd\<rparr>)
              (transition_to_ready r (pcb_priority p) (ready s)))"
  using assms
  by (cases "preemption (exec s)"; cases "lowest_of (remove1 r (exec_list (exec s))) ((pcbs s)(r \<mapsto> p\<lparr>pcb_state := PS_READY\<rparr>)) 0")
     (simp_all add: exec_after_def transition_exec_ready_def guarded_move_eq transition_take_exec_def update_lowest_exec_priority_def put_ready_def
       get_priority_pcb_def Let_def option.map_comp comp_def)

lemma unvanish:
  assumes wf: "queues_wf s" and b: "pcbs s b = None" "b < next_ref s" and pb: "active_instances pb = 0"
    and pos: "0 \<le> queue_position (pcb_priority pb) (ready s)" "queue_position (pcb_priority pb) (ready s) < queue_count (ready s)"
  shows "in_transit b (pcb_state pb) (s\<lparr>pcbs := (pcbs s)(b \<mapsto> pb), active_process_count := active_process_count s + 1\<rparr>)"
proof -
  let ?s = "s\<lparr>pcbs := (pcbs s)(b \<mapsto> pb), active_process_count := active_process_count s + 1\<rparr>"
  have refs: "refs_in st ?s = refs_in st s" for st by (cases st) auto
  have fin: "finite (dom (pcbs s))" "b \<notin> dom (pcbs s)" using wf b by (auto simp: queues_wf_def store_ok_def)
  have store: "store_ok ?s"
    using wf b pb pos fin unfolding queues_wf_def store_ok_def by (auto simp: card_insert_if)
  have none: "b \<notin> set (refs_in st s)" for st using wf_member(2) [OF wf, of b st] b by auto
  have "placed ?s"
  proof -
    have "b \<notin> set (snd (subqueues (ready s) ! i))" if "i < length (subqueues (ready s))" for i
    proof
      assume "b \<in> set (snd (subqueues (ready s) ! i))"
      then have "b \<in> set (refs_in PS_READY s)" using that by (auto simp: ready_refs_def intro!: bexI [of _ "subqueues (ready s) ! i"])
      then show False using none by blast
    qed
    then show ?thesis using wf by (auto simp: queues_wf_def placed_def split: if_splits)
  qed
  moreover have "r \<in> set (refs_in st ?s) \<longleftrightarrow> r \<noteq> b \<and> (\<exists>p. pcbs ?s r = Some p \<and> pcb_state p = st)" for r st
    using wf none unfolding refs queues_wf_def lists_match_def by auto
  ultimately show ?thesis using wf store unfolding in_transit_def refs by (auto simp: queues_wf_def lists_match_def)
qed


lemma hand_cpu:
  assumes wf: "queues_wf q" and take: "transition_take_ready_next_no_mutex (ready q) = (Some b, rd)"
    and p: "pcbs q r = Some p" "pcb_state p = PS_EXEC" and pb: "pcbs q b = Some pb"
  shows "\<exists>q1 q2. transition_exec_ready r (q\<lparr>ready := rd\<rparr>) = Some q1 \<and> run_process b q1 = Some q2 \<and> queues_wf q2
    \<and> pcbs q2 = (pcbs q)(r \<mapsto> p\<lparr>pcb_state := PS_READY\<rparr>, b \<mapsto> pb\<lparr>pcb_state := PS_EXEC\<rparr>)"
proof -
  let ?qt = "q\<lparr>ready := rd\<rparr>"
  let ?q0 = "?qt\<lparr>pcbs := (pcbs ?qt)(b := None), active_process_count := active_process_count ?qt - 1\<rparr>"
  have tr: "in_transit b PS_READY ?qt" by (rule take_next_transit [OF wf take])
  then have "pcb_state pb = PS_READY" using pb by (auto simp: in_transit_def)
  then have ne: "b \<noteq> r" using p pb by auto
  have wf0: "queues_wf ?q0" by (rule vanish [OF tr])
  have p0: "pcbs ?q0 r = Some p" using p ne by simp
  have nb: "b \<notin> set (remove1 r (exec_list (exec q)))"
  proof
    assume "b \<in> set (remove1 r (exec_list (exec q)))"
    then have "b \<in> set (refs_in PS_EXEC ?q0)" using set_remove1_subset [of r "exec_list (exec q)"] by auto
    then show False using wf_member(2) [OF wf0, of b PS_EXEC] by auto
  qed
  have low: "exec_after r ((pcbs ?q0)(r \<mapsto> p\<lparr>pcb_state := PS_READY\<rparr>)) (exec ?q0)
      = exec_after r ((pcbs ?qt)(r \<mapsto> p\<lparr>pcb_state := PS_READY\<rparr>)) (exec ?qt)"
    using nb by (simp, intro exec_after_cong) auto
  obtain q1' where q1': "transition_exec_ready r ?q0 = Some q1'" "queues_wf q1'"
    using transition_exec_ready_wf [OF wf0 p0] by blast
  obtain ex rd' where ex: "exec_after r ((pcbs ?qt)(r \<mapsto> p\<lparr>pcb_state := PS_READY\<rparr>)) (exec ?qt) = Some ex"
    and rd': "transition_to_ready r (pcb_priority p) rd = Some rd'"
    and e1: "q1' = ?q0\<lparr>pcbs := (pcbs ?q0)(r \<mapsto> p\<lparr>pcb_state := PS_READY\<rparr>), exec := ex, ready := rd'\<rparr>"
    using q1'(1) unfolding exec_ready_eq [OF p0 p(2)] low by (auto simp: bind_eq_Some_conv)
  let ?q1 = "?qt\<lparr>pcbs := (pcbs ?qt)(r \<mapsto> p\<lparr>pcb_state := PS_READY\<rparr>), exec := ex, ready := rd'\<rparr>"
  have "pcbs ?qt r = Some p" using p by simp
  from exec_ready_eq [OF this p(2)] have s1: "transition_exec_ready r ?qt = Some ?q1" using ex rd' by simp
  have restored: "?q1 = q1'\<lparr>pcbs := (pcbs q1')(b \<mapsto> pb), active_process_count := active_process_count q1' + 1\<rparr>"
    using e1 pb ne by (simp add: fun_upd_twist fun_upd_idem)
  have "in_transit b (pcb_state pb) (q1'\<lparr>pcbs := (pcbs q1')(b \<mapsto> pb), active_process_count := active_process_count q1' + 1\<rparr>)"
  proof (rule unvanish [OF q1'(2)])
    show "pcbs q1' b = None" using e1 ne by simp
    show "b < next_ref q1'" using e1 wf pb by (auto simp: queues_wf_def store_ok_def)
    show "active_instances pb = 0" using wf pb by (auto simp: queues_wf_def store_ok_def)
    show "0 \<le> queue_position (pcb_priority pb) (ready q1')" "queue_position (pcb_priority pb) (ready q1') < queue_count (ready q1')"
      using wf pb e1 to_ready_spec(3,4) [OF rd'] take_next_spec(2,3) [OF take]
      by (auto simp: queues_wf_def store_ok_def queue_position_def queue_count_def)
  qed
  then have tr1: "in_transit b PS_READY ?q1" unfolding restored using \<open>pcb_state pb = PS_READY\<close> by simp
  obtain q2 where q2: "run_process b ?q1 = Some q2" "queues_wf q2" using run_process_wf [OF tr1] by blast
  have "pcbs q2 = (pcbs q)(r \<mapsto> p\<lparr>pcb_state := PS_READY\<rparr>, b \<mapsto> pb\<lparr>pcb_state := PS_EXEC\<rparr>)"
    using q2(1) pb ne \<open>pcb_state pb = PS_READY\<close>
    by (auto simp: run_process_def transition_ready_exec_def manage_state_pcb_def get_state_pcb_def update_pcb_def transition_to_exec_def get_priority_pcb_def)
  then show ?thesis using s1 q2 by blast
qed


subsection \<open>Properties\<close>

text \<open>C18: With \<open>MULTILEVEL\<close> and preemption, a running process that is the worst of EXEC loses its CPU to
  the head of READY as soon as that one is better: the best process of READY starts to run, the old
  one is in READY again, nothing else changes, and the invariant of the state machine holds.\<close>

theorem priority_preemption:
  assumes "queues_wf q" "multilevel_queue (ready q)" "preemption (exec q)" "ready_process_count (ready q) \<noteq> 0"
    and "preemption_reason d = PR_NO_PREEMPTION" "ct_pcb d = Some r" "pcbs q r = Some p" "pcb_state p = PS_EXEC"
    and "lowest_priority (exec q) \<le> pcb_priority p" "highest_priority (ready q) < pcb_priority p"
  shows "\<exists>b pb q'. manage_preemption_priority (d, io, q)
        = Some (d\<lparr>preemption_reason := PR_HIGHER_PRIORITY_PROCESS, ct_pcb := Some b, ct_counter := millis q'\<rparr>, io, q')
    \<and> queues_wf q' \<and> pcbs q b = Some pb \<and> pcb_state pb = PS_READY \<and> pcb_priority pb < pcb_priority p
    \<and> (\<forall>x px. pcbs q x = Some px \<and> pcb_state px = PS_READY \<longrightarrow> pcb_priority pb \<le> pcb_priority px)
    \<and> pcbs q' = (pcbs q)(r \<mapsto> p\<lparr>pcb_state := PS_READY\<rparr>, b \<mapsto> pb\<lparr>pcb_state := PS_EXEC\<rparr>)"
proof -
  have ok: "ready_ok (ready q)" "placed q" using assms(1) by (auto simp: queues_wf_def)
  obtain b rd where take: "transition_take_ready_next_no_mutex (ready q) = (Some b, rd)"
    using take_next_progress [OF ok(1) assms(4)] by blast
  obtain i a rest where i: "first_nonempty (subqueues (ready q)) = Some i" "subqueues (ready q) ! i = (a, b # rest)"
    using take_next_spec(1) [OF take] by blast
  obtain pb where pb: "pcbs q b = Some pb" "pcb_state pb = PS_READY"
    using wf_member(2) [OF assms(1), of b PS_READY] take_next_tl [OF take] by auto
  have first: "i < length (subqueues (ready q))" "\<forall>j<i. snd (subqueues (ready q) ! j) = []" using i(1) by (auto simp: first_nonempty_Some)
  have prio: "pcb_priority pb = int i" using ok(2) assms(2) first(1) i(2) pb(1) by (auto simp: placed_def)
  have "0 < ready_process_count (ready q)" using ok(1) assms(4) by (auto simp: ready_ok_def)
  then have "highest_priority (ready q) = int i" using ok(1) assms(2) i(1) by (auto simp: ready_ok_def)
  then have less: "pcb_priority pb < pcb_priority p" using assms(10) prio by simp
  have best: "pcb_priority pb \<le> pcb_priority px" if px: "pcbs q x = Some px" "pcb_state px = PS_READY" for x px
  proof -
    have "x \<in> set (ready_refs (ready q))" using wf_member(1) [OF assms(1) px(1)] px(2) by simp
    then obtain j where j: "j < length (subqueues (ready q))" "x \<in> set (snd (subqueues (ready q) ! j))"
      by (auto simp: ready_refs_def in_set_conv_nth) (metis snd_conv)
    then have "i \<le> j" using first(2) by (metis empty_iff empty_set not_le_imp_less)
    moreover have "pcb_priority px = int j" using ok(2) assms(2) j px(1) by (auto simp: placed_def)
    ultimately show ?thesis using prio by simp
  qed
  obtain q1 q2 where q2: "transition_exec_ready r (q\<lparr>ready := rd\<rparr>) = Some q1" "run_process b q1 = Some q2" "queues_wf q2"
    "pcbs q2 = (pcbs q)(r \<mapsto> p\<lparr>pcb_state := PS_READY\<rparr>, b \<mapsto> pb\<lparr>pcb_state := PS_EXEC\<rparr>)"
    using hand_cpu [OF assms(1) take assms(7,8) pb(1)] by blast
  have "manage_preemption_priority (d, io, q)
      = Some (d\<lparr>preemption_reason := PR_HIGHER_PRIORITY_PROCESS, ct_pcb := Some b, ct_counter := millis q2\<rparr>, io, q2)"
    using assms(3,5-7,9,10) take q2(1,2)
    by (simp add: manage_preemption_priority_def get_priority_pcb_def is_lowest_priority_in_exec_def)
  then show ?thesis using q2 pb less best by blast
qed

definition cpu_demo :: "pcb_ref \<Rightarrow> bytes \<Rightarrow> bool \<Rightarrow> t_cpu_thread" where
  "cpu_demo r stream up = \<lparr>ct_id = ''0'', ct_pcb = Some r, keep_running = True, ct_counter = 0, preemption_reason = PR_NO_PREEMPTION,
     from_cpu = stream, cpu_open = up, to_cpu = []\<rparr>"

text \<open>Process 0, the best one, blocks, process 1 gets the CPU, and process 0 comes back.\<close>

definition preempt_run :: "sched_request list" where
  "preempt_run = take 9 demo_requests @ [Unlock 0]"

theorem priority_preemption_witness:
  "\<exists>q b q' d'. sched_run preempt_run demo_init = Some q
    \<and> manage_preemption_priority (cpu_demo 1 [] True, create_io_structures, q) = Some (d', create_io_structures, q')
    \<and> ct_pcb d' = Some b \<and> queues_wf q'"
proof -
  have "map_option (\<lambda>q. (multilevel_queue (ready q), preemption (exec q), ready_process_count (ready q),
      map_option (\<lambda>p. (pcb_state p, pcb_priority p)) (pcbs q 1), lowest_priority (exec q), highest_priority (ready q))) (sched_run preempt_run demo_init)
    = Some (True, True, 2, Some (PS_EXEC, 2), 2, 0)" by code_simp
  then obtain q p where q: "sched_run preempt_run demo_init = Some q" "multilevel_queue (ready q)" "preemption (exec q)"
    "ready_process_count (ready q) \<noteq> 0" "pcbs q 1 = Some p" "pcb_state p = PS_EXEC" "lowest_priority (exec q) \<le> pcb_priority p"
    "highest_priority (ready q) < pcb_priority p" by auto
  from priority_preemption [OF sched_run_wf [OF q(1)] q(2-4), of "cpu_demo 1 [] True" 1 p create_io_structures] q
  show ?thesis by (fastforce simp: cpu_demo_def)
qed

text \<open>C19: Round robin: a process that runs is put back into READY exactly when its queue is \<open>RR\<close>, READY is
  not empty and its quantum is over; then it alone changes its state, it is the last of READY in its
  queue, and the CPU is told so. In all other cases nothing changes.\<close>

theorem round_robin:
  assumes "queues_wf q" "preemption_reason d = PR_NO_PREEMPTION" "ct_pcb d = Some r" "pcbs q r = Some p" "pcb_state p = PS_EXEC"
  defines "i \<equiv> nat (queue_position (pcb_priority p) (ready q))"
  shows "\<exists>d' q'. manage_end_quantum (d, io, q) = Some (d', io, q') \<and> queues_wf q' \<and>
    (if ready_process_count (ready q) \<noteq> 0 \<and> fst (subqueues (ready q) ! i) = SA_RR \<and> quantum_ended (exec q) (ct_counter d) (millis q)
     then d' = d\<lparr>preemption_reason := PR_QUANTUM_END\<rparr> \<and> pcbs q' = (pcbs q)(r \<mapsto> p\<lparr>pcb_state := PS_READY\<rparr>)
       \<and> snd (subqueues (ready q') ! i) = snd (subqueues (ready q) ! i) @ [r]
     else d' = d \<and> q' = q)"
proof -
  have pos: "0 \<le> queue_position (pcb_priority p) (ready q)" "queue_position (pcb_priority p) (ready q) < queue_count (ready q)"
    using assms(1,4) by (auto simp: queues_wf_def store_ok_def)
  then have i: "i < length (subqueues (ready q))" "int i = queue_position (pcb_priority p) (ready q)" by (auto simp: i_def queue_count_def)
  have alg: "get_algorithm_ready_queue (ready q) (pcb_priority p) = Some (fst (subqueues (ready q) ! i))"
    using pos by (auto simp: get_algorithm_ready_queue_def subqueue_index_def queue_position_def i_def)
  obtain q1 where q1: "transition_exec_ready r q = Some q1" "queues_wf q1" using transition_exec_ready_wf [OF assms(1,4)] by blast
  obtain ex rd where rd: "transition_to_ready r (pcb_priority p) (ready q) = Some rd"
    "q1 = q\<lparr>pcbs := (pcbs q)(r \<mapsto> p\<lparr>pcb_state := PS_READY\<rparr>), exec := ex, ready := rd\<rparr>"
    using q1(1) exec_ready_eq [OF assms(4,5)] by (auto simp: bind_eq_Some_conv)
  have "snd (subqueues rd ! i) = snd (subqueues (ready q) ! i) @ [r]"
    using to_ready_spec(1) [OF rd(1)] i by (metis nth_list_update_eq of_nat_eq_iff snd_conv)
  then show ?thesis
    using assms(1-4) q1 rd alg
    by (simp add: manage_end_quantum_def is_queue_ready_empty_def get_priority_pcb_def)
qed

theorem round_robin_witness:
  "\<exists>q d' q'. sched_run (take 9 demo_requests @ [Tick 2500]) demo_init = Some q
    \<and> manage_end_quantum (cpu_demo 1 [] True, create_io_structures, q) = Some (d', create_io_structures, q') \<and> preemption_reason d' = PR_QUANTUM_END"
proof -
  have "map_option (\<lambda>q. (map_option (\<lambda>p. (pcb_state p, fst (subqueues (ready q) ! nat (queue_position (pcb_priority p) (ready q))))) (pcbs q 1),
      ready_process_count (ready q), quantum_ended (exec q) 0 (millis q))) (sched_run (take 9 demo_requests @ [Tick 2500]) demo_init)
    = Some (Some (PS_EXEC, SA_RR), 1, True)" by code_simp
  then obtain q p where q: "sched_run (take 9 demo_requests @ [Tick 2500]) demo_init = Some q" "pcbs q 1 = Some p" "pcb_state p = PS_EXEC"
    "fst (subqueues (ready q) ! nat (queue_position (pcb_priority p) (ready q))) = SA_RR" "ready_process_count (ready q) \<noteq> 0"
    "quantum_ended (exec q) 0 (millis q)" by auto
  from round_robin [OF sched_run_wf [OF q(1)] _ _ q(2,3), of "cpu_demo 1 [] True" create_io_structures] q
  show ?thesis by (auto simp: cpu_demo_def)
qed



end
