(* ===== verification/KS_Frames.thy ===== *)
theory KS_Frames
  imports Cpu_Threads Mutex_Queues Workers Io_Service
begin

section \<open>Kernel Scheduler: what an operation leaves alone\<close>

text \<open>
  The threads of the scheduler share the queues. What a thread has to know of the others is that
  they keep the invariant of the state machine and do not take its process out of EXEC.
  \<open>spares X q q'\<close> states this of a step from \<open>q\<close> to \<open>q'\<close> that may take the processes of \<open>X\<close>
  out of EXEC, for the configurations with one READY queue. It is closed under composition, so
  that every operation has it by following its calls.
\<close>

definition single_wf :: "t_queues \<Rightarrow> bool" where
  "single_wf q \<longleftrightarrow> queues_wf q \<and> \<not> multilevel_queue (ready q)"

definition running :: "t_queues \<Rightarrow> pcb_ref \<Rightarrow> bool" where
  "running q r \<longleftrightarrow> (\<exists>p. pcbs q r = Some p \<and> pcb_state p = PS_EXEC)"

definition spares :: "pcb_ref set \<Rightarrow> t_queues \<Rightarrow> t_queues \<Rightarrow> bool" where
  "spares X q q' \<longleftrightarrow> (single_wf q \<longrightarrow> single_wf q' \<and> (\<forall>r. r \<notin> X \<and> running q r \<longrightarrow> running q' r))"

named_theorems frames \<open>what the operations leave alone\<close>

lemma spares_refl [simp, intro]: "spares X q q"
  by (simp add: spares_def)

lemma spares_trans [trans]: "spares X q q1 \<Longrightarrow> spares X q1 q2 \<Longrightarrow> spares X q q2"
  by (auto simp: spares_def)

lemma spares_mono: "spares X q q' \<Longrightarrow> X \<subseteq> Y \<Longrightarrow> spares Y q q'"
  by (auto simp: spares_def)

lemma spares_empty: "spares {} q q' \<Longrightarrow> spares X q q'"
  by (erule spares_mono) simp

lemma single_wf_core: "same_core q q' \<Longrightarrow> single_wf q' = single_wf q"
  using queues_wf_core [of q q'] by (auto simp: single_wf_def same_core_def)

lemma running_core: "same_core q q' \<Longrightarrow> running q' r = running q r"
  by (simp add: running_def same_core_def)

lemma spares_core: "same_core q q' \<Longrightarrow> spares X q q'"
  by (simp add: spares_def single_wf_core running_core)

lemma spares_places:
  assumes "same_places q q'"
  shows "spares X q q'"
proof -
  have "running q' r" if "running q r" for r
    using assms that unfolding same_places_def running_def by (metis (no_types, lifting) fst_conv map_option_eq_Some option.simps(9))
  then show ?thesis using same_places_wf [OF assms] assms by (auto simp: spares_def single_wf_def same_places_def)
qed

lemma sparesI:
  assumes "queues_wf q \<Longrightarrow> \<not> multilevel_queue (ready q) \<Longrightarrow> queues_wf q'" "multilevel_queue (ready q') = multilevel_queue (ready q)"
    and "\<And>x p. x \<notin> X \<Longrightarrow> pcbs q x = Some p \<Longrightarrow> pcb_state p = PS_EXEC \<Longrightarrow> pcbs q' x = pcbs q x"
  shows "spares X q q'"
  using assms by (fastforce simp: spares_def single_wf_def running_def)

text \<open>Fields that neither the invariant nor a process depends on.\<close>

lemma spares_lists:
  assumes "pcbs q' = pcbs q" "next_ref q' = next_ref q" "ready q' = ready q"
    "active_process_count q' = active_process_count q" "exec_list (exec q') = exec_list (exec q)"
    "bl_list (block q') = bl_list (block q)" "bl_list (susp_block q') = bl_list (susp_block q)" "bl_list (susp_ready q') = bl_list (susp_ready q)"
  shows "spares X q q'"
proof (rule sparesI)
  have "refs_in st q' = refs_in st q" for st using assms by (cases st) auto
  then show "queues_wf q'" if "queues_wf q" using same_lists_wf [OF that assms(1-4)] by blast
qed (use assms in auto)

subsection \<open>The moves of a process\<close>

lemma guarded_alive: "guarded_move r e n move q = Some q' \<Longrightarrow> \<exists>p. pcbs q r = Some p"
  by (auto simp: guarded_move_def manage_state_pcb_def get_state_pcb_def split: option.splits)

lemma put_ready_pcbs: "put_ready r q = Some q' \<Longrightarrow> pcbs q' = pcbs q"
  by (auto simp: put_ready_def split: option.splits)

lemma take_exec_pcbs: "transition_take_exec r q = Some q' \<Longrightarrow> pcbs q' = pcbs q \<and> ready q' = ready q"
  by (auto simp: transition_take_exec_def update_lowest_exec_priority_def Let_def split: if_splits)

lemma frame_exec_ready [frames]:
  assumes "transition_exec_ready r q = Some q'"
  shows "spares {r} q q'"
proof (rule sparesI)
  obtain p where p: "pcbs q r = Some p" using guarded_alive assms unfolding transition_exec_ready_def by blast
  then show "queues_wf q'" if "queues_wf q" using transition_exec_ready_wf [OF that p] assms by auto
  show "multilevel_queue (ready q') = multilevel_queue (ready q)" by (rule preempt_ready [OF assms])
  show "pcbs q' x = pcbs q x" if "x \<notin> {r}" for x
    using assms p that by (auto simp: transition_exec_ready_def guarded_move_eq bind_eq_Some_conv split: if_splits dest!: put_ready_pcbs take_exec_pcbs)
qed

lemma frame_exec_block [frames]:
  assumes "transition_exec_block r q = Some q'"
  shows "spares {r} q q'"
proof (rule sparesI)
  obtain p where p: "pcbs q r = Some p" using guarded_alive assms unfolding transition_exec_block_def by blast
  then show "queues_wf q'" if "queues_wf q" using transition_exec_block_wf [OF that p] assms by auto
  show "multilevel_queue (ready q') = multilevel_queue (ready q)" by (rule exec_block_ready [OF assms])
  show "pcbs q' x = pcbs q x" if "x \<notin> {r}" for x
    using assms p that by (auto simp: transition_exec_block_def guarded_move_eq bind_eq_Some_conv transition_to_block_def set_blocked_time_def
        update_pcb_def split: if_splits dest!: take_exec_pcbs)
qed

lemma exit_pcbs:
  assumes "transition_to_exit r reason q = Some q'"
  shows "pcbs q' = (pcbs q)(r := None)" "ready q' = ready q"
  using transition_to_exit_core [OF assms] by (auto simp: same_core_def)

lemma frame_exec_exit [frames]:
  assumes "transition_exec_exit r reason q = Some q'"
  shows "spares {r} q q'"
proof (rule sparesI)
  obtain p where p: "pcbs q r = Some p" using guarded_alive assms unfolding transition_exec_exit_def by blast
  show "queues_wf q'" if "queues_wf q" using transition_exec_exit_wf [OF assms that] .
  show "multilevel_queue (ready q') = multilevel_queue (ready q)"
    using assms p by (auto simp: transition_exec_exit_def guarded_move_eq bind_eq_Some_conv split: if_splits dest!: exit_pcbs take_exec_pcbs)
  show "pcbs q' x = pcbs q x" if "x \<notin> {r}" for x
    using assms p that by (auto simp: transition_exec_exit_def guarded_move_eq bind_eq_Some_conv split: if_splits dest!: exit_pcbs(1) take_exec_pcbs)
qed

lemma take_block_pcbs:
  assumes "transition_take_block r q = Some q'"
  shows "\<forall>x. x \<noteq> r \<longrightarrow> pcbs q' x = pcbs q x" "ready q' = ready q"
  using assms by (auto simp: transition_take_block_def set_blocked_time_def update_pcb_def)

text \<open>Waking a process: whoever is woken was not running.\<close>

lemma frame_unlock [frames]:
  assumes "transition_unlock r q = Some q'"
  shows "spares {} q q'"
proof (rule sparesI)
  obtain p where p: "pcbs q r = Some p" using assms by (auto simp: transition_unlock_def get_state_pcb_def bind_eq_Some_conv)
  show "queues_wf q'" if "queues_wf q" using transition_unlock_wf [OF that p] assms by auto
  show "multilevel_queue (ready q') = multilevel_queue (ready q)" by (rule unlock_ready [OF assms])
  show "pcbs q' x = pcbs q x" if "pcbs q x = Some px" "pcb_state px = PS_EXEC" for x px
  proof (cases "x = r")
    case True
    then show ?thesis using assms p that
      by (simp add: transition_unlock_def get_state_pcb_def transition_susp_block_susp_ready_no_mutex_def guarded_move_eq)
  next
    case False
    then show ?thesis using assms p
      by (auto simp: transition_unlock_def get_state_pcb_def transition_susp_block_susp_ready_no_mutex_def transition_block_ready_no_mutex_def
          guarded_move_eq transition_take_susp_block_def transition_to_susp_ready_def bind_eq_Some_conv
          split: if_splits dest!: put_ready_pcbs take_block_pcbs(1))
  qed
qed

lemma new_ready_effect:
  assumes "transition_new_ready file prio q = Some q'"
  shows "\<forall>x. x \<noteq> next_ref q \<longrightarrow> pcbs q' x = pcbs q x" "multilevel_queue (ready q') = multilevel_queue (ready q)"
proof -
  let ?r = "next_ref q"
  obtain p q1 where c: "create_pcb PS_NEW prio q = (?r, q1)" "pcbs q1 = (pcbs q)(?r \<mapsto> p)" "ready q1 = ready q"
    by (simp add: create_pcb_def)
  obtain ok q2 where n: "notify_new_process file (pcb_pid p) (increment_process_count q1) = Some (ok, q2)"
    using assms c by (auto simp: transition_new_ready_def transition_take_new_def bind_eq_Some_conv)
  have k: "pcbs q2 = (pcbs q)(?r \<mapsto> p)" "ready q2 = ready q"
    using core_notify_new [OF n] c by (simp_all add: same_core_def increment_process_count_def)
  have "(\<exists>reason. transition_to_exit ?r reason q2 = Some q') \<or> (\<exists>q3. update_pcb ?r (\<lambda>p. p\<lparr>pcb_state := PS_READY\<rparr>) q2 = Some q3 \<and> put_ready ?r q3 = Some q')"
    using assms c n k by (cases ok) (auto simp: transition_new_ready_def transition_take_new_def bind_eq_Some_conv split: if_splits)
  then have "(\<forall>x. x \<noteq> ?r \<longrightarrow> pcbs q' x = pcbs q x) \<and> multilevel_queue (ready q') = multilevel_queue (ready q)"
  proof
    assume "\<exists>reason. transition_to_exit ?r reason q2 = Some q'"
    then show ?thesis using k exit_pcbs by fastforce
  next
    assume "\<exists>q3. update_pcb ?r (\<lambda>p. p\<lparr>pcb_state := PS_READY\<rparr>) q2 = Some q3 \<and> put_ready ?r q3 = Some q'"
    then show ?thesis using k by (auto simp: update_pcb_def dest: put_ready_pcbs put_ready_multilevel)
  qed
  then show "\<forall>x. x \<noteq> ?r \<longrightarrow> pcbs q' x = pcbs q x" "multilevel_queue (ready q') = multilevel_queue (ready q)" by blast+
qed

lemma frame_new_ready [frames]:
  assumes "transition_new_ready file prio q = Some q'"
  shows "spares {} q q'"
proof -
  have "running q' r" if "queues_wf q" "running q r" for r
    using that new_ready_effect(1) [OF assms] unfolding queues_wf_def store_ok_def running_def by (metis domIff less_irrefl option.distinct(1))
  then show ?thesis using transition_new_ready_keeps [OF assms] new_ready_effect(2) [OF assms] by (auto simp: spares_def single_wf_def)
qed

subsection \<open>Mutexes\<close>

lemma frame_wait_for_mutex:
  assumes "wait_for_mutex n r q = Some q'"
  shows "spares {r} q q'"
proof -
  obtain q1 where "set_mutex_blocking r (Some n) q = Some q1" "transition_exec_block r q1 = Some q'"
    using assms by (auto simp: wait_for_mutex_def bind_eq_Some_conv)
  then show ?thesis using spares_trans spares_places same_places_blocking frame_exec_block by blast
qed

lemma spares_mutex [simp]: "spares X (put_mutex n m q) q' = spares X q q'" "spares X q (put_mutex n m q') = spares X q q'"
  "spares X q (change_mutex n f q') = spares X q q'"
proof -
  have *: "single_wf (q\<lparr>mutex_list := x\<rparr>) = single_wf q" "running (q\<lparr>mutex_list := x\<rparr>) = running q" for q x
  proof -
    have refs: "refs_in st (q\<lparr>mutex_list := x\<rparr>) = refs_in st q" for st by (cases st) auto
    show "single_wf (q\<lparr>mutex_list := x\<rparr>) = single_wf q"
      by (simp add: single_wf_def queues_wf_def lists_match_def store_ok_def placed_def refs)
    show "running (q\<lparr>mutex_list := x\<rparr>) = running q" by (simp add: running_def fun_eq_iff)
  qed
  show "spares X (put_mutex n m q) q' = spares X q q'" "spares X q (put_mutex n m q') = spares X q q'"
    "spares X q (change_mutex n f q') = spares X q q'"
    by (simp_all add: spares_def put_mutex_def change_mutex_def *)
qed

lemma spares_replace:
  assumes "replace_priority held r old new q = Some q'"
  shows "spares X q q'"
proof (cases "multilevel_queue (ready q)")
  case False
  then show ?thesis using spares_places same_places_replace [OF assms] by blast
qed (simp add: spares_def single_wf_def)

lemma frame_mutex_lock:
  assumes "mutex_lock n r q = Some (ret, q')"
  shows "ret = MR_MUTEX_LOCKED \<and> spares {} q q' \<or> ret = MR_WAITING_MUTEX \<and> spares {r} q q'"
proof -
  obtain a m where a: "get_priority_pcb r q = Some a" "mutex_list q n = Some m" using assms by (auto simp: mutex_lock_def bind_eq_Some_conv)
  show ?thesis
  proof (cases "mutex_state m = 1")
    case True
    then obtain q1 where q1: "insert_priority r INT_MAX_PRIORITY (put_mutex n (m\<lparr>current_process := Some r, next_priority := INT_MAX_PRIORITY\<rparr>) q) = Some q1"
      "q' = change_mutex n (\<lambda>m. m\<lparr>mutex_state := mutex_state m - 1\<rparr>) q1" "ret = MR_MUTEX_LOCKED"
      using assms a by (auto simp: mutex_lock_def bind_eq_Some_conv)
    then show ?thesis using spares_places [OF same_places_insert [OF q1(1)]] by simp
  next
    case wait: False
    obtain q2 q3 where q2: "spares {} q q2" "wait_for_mutex n r q2 = Some q3"
      "q' = change_mutex n (\<lambda>m. m\<lparr>mutex_state := mutex_state m - 1\<rparr>) q3" "ret = MR_WAITING_MUTEX"
    proof (cases "priority_active m")
      case True
      then obtain ws slot q2 q3 where "insert_pcb_sorted (mutex_waiters m) r q = Some (ws, slot)" and w: "(if slot = 0
              then Option.bind (current_process m) (\<lambda>holder.
                     Option.bind (replace_priority [n] holder (next_priority m) a (put_mutex n (m\<lparr>mutex_waiters := ws\<rparr>) q)) (\<lambda>q2.
                       update_lowest_exec_priority (change_mutex n (\<lambda>m. m\<lparr>next_priority := a\<rparr>) q2)))
              else Some (put_mutex n (m\<lparr>mutex_waiters := ws\<rparr>) q)) = Some q2"
        "wait_for_mutex n r q2 = Some q3" "q' = change_mutex n (\<lambda>m. m\<lparr>mutex_state := mutex_state m - 1\<rparr>) q3" "ret = MR_WAITING_MUTEX"
        using assms a wait by (auto simp: mutex_lock_def bind_eq_Some_conv)
      have "spares {} q q2"
      proof (cases "slot = 0")
        case True
        then obtain holder q5 where q5: "replace_priority [n] holder (next_priority m) a (put_mutex n (m\<lparr>mutex_waiters := ws\<rparr>) q) = Some q5"
          "update_lowest_exec_priority (change_mutex n (\<lambda>m. m\<lparr>next_priority := a\<rparr>) q5) = Some q2"
          using w(1) by (auto simp: bind_eq_Some_conv)
        have "spares {} q (change_mutex n (\<lambda>m. m\<lparr>next_priority := a\<rparr>) q5)" using spares_replace [OF q5(1), of "{}"] by simp
        also have "spares {} \<dots> q2" by (rule spares_places [OF same_places_lowest [OF q5(2)]])
        finally show ?thesis .
      qed (use w(1) in auto)
      then show ?thesis using that w(2-4) by blast
    next
      case False
      then obtain q3 where "wait_for_mutex n r (put_mutex n (m\<lparr>mutex_waiters := mutex_waiters m @ [r]\<rparr>) q) = Some q3"
        "q' = change_mutex n (\<lambda>m. m\<lparr>mutex_state := mutex_state m - 1\<rparr>) q3" "ret = MR_WAITING_MUTEX"
        using assms a wait by (auto simp: mutex_lock_def bind_eq_Some_conv)
      then show ?thesis by (intro that [of "put_mutex n (m\<lparr>mutex_waiters := mutex_waiters m @ [r]\<rparr>) q" q3]) simp_all
    qed
    have "spares {r} q q2" by (rule spares_empty [OF q2(1)])
    also have "spares {r} q2 q3" by (rule frame_wait_for_mutex [OF q2(2)])
    finally show ?thesis using q2(3,4) by simp
  qed
qed

lemma frame_hand_over:
  assumes "hand_over n m q = Some q'"
  shows "spares {} q q'"
proof -
  obtain heir others where w: "mutex_waiters m = heir # others" using assms by (auto simp: hand_over_def split: list.splits)
  let ?m = "m\<lparr>mutex_waiters := others, current_process := Some heir\<rparr>"
  obtain q3 q4 where q3: "set_mutex_blocking heir None (put_mutex n ?m q) = Some q3"
    and q4: "(if priority_active m
          then do {
            next \<leftarrow> (if mutex_state m = -1 then Some INT_MAX_PRIORITY
                     else (case others of [] \<Rightarrow> None | r # rs \<Rightarrow> get_priority_pcb r q3));
            insert_priority heir next (change_mutex n (\<lambda>m. m\<lparr>next_priority := next\<rparr>) q3) }
          else Some q3) = Some q4"
    and q5: "transition_unlock heir q4 = Some q'"
    using assms w by (auto simp: hand_over_def bind_eq_Some_conv)
  have "spares {} q q3" using spares_places [OF same_places_blocking [OF q3]] by simp
  also have "spares {} q3 q4"
  proof (cases "priority_active m")
    case True
    then obtain next' where "insert_priority heir next' (change_mutex n (\<lambda>m. m\<lparr>next_priority := next'\<rparr>) q3) = Some q4"
      using q4 by (auto simp: bind_eq_Some_conv)
    from spares_places [OF same_places_insert [OF this], of "{}"] have "spares {} (change_mutex n (\<lambda>m. m\<lparr>next_priority := next'\<rparr>) q3) q4" .
    then show ?thesis using spares_trans [of "{}" q3 "change_mutex n (\<lambda>m. m\<lparr>next_priority := next'\<rparr>) q3" q4] by simp
  qed (use q4 in simp)
  also have "spares {} q4 q'" by (rule frame_unlock [OF q5])
  finally show ?thesis .
qed

lemma frame_mutex_unlock:
  assumes "mutex_unlock n r q = Some (ret, q')"
  shows "spares {} q q'"
proof -
  obtain m where m: "mutex_list q n = Some m" using assms by (auto simp: mutex_unlock_def bind_eq_Some_conv)
  show ?thesis
  proof (cases "current_process m = Some r")
    case False
    then show ?thesis using assms m by (auto simp: mutex_unlock_def)
  next
    case True
    then obtain q1 q2 where q1: "(if priority_active m
              then Option.bind (remove_priority r (next_priority m) q)
                     (\<lambda>(updated, q1). if updated then update_lowest_exec_priority q1 else Some q1)
              else Some q) = Some q1"
      and q2: "(if mutex_state m = 0 then Some (put_mutex n (m\<lparr>current_process := None, next_priority := INT_MAX_PRIORITY\<rparr>) q1)
              else if mutex_state m < 0 then hand_over n m q1 else Some q1) = Some q2"
      and q': "q' = change_mutex n (\<lambda>m. m\<lparr>mutex_state := mutex_state m + 1\<rparr>) q2"
      using assms m by (auto simp: mutex_unlock_def bind_eq_Some_conv)
    have "same_places q q1" using q1
      by (auto simp: bind_eq_Some_conv remove_priority_def split: if_splits
          dest!: same_places_first same_places_lowest intro: same_places_trans)
    then have "spares {} q q1" by (rule spares_places)
    also have "spares {} q1 q2" using q2 frame_hand_over by (auto split: if_splits)
    finally show ?thesis using q' by simp
  qed
qed

lemma frame_create_mutex: "create_and_add_mutex name act q = (ret, q') \<Longrightarrow> spares X q q'"
  by (auto simp: create_and_add_mutex_def split: if_splits)

end
