(* ===== verification/KS_Workers.thy ===== *)
theory KS_Workers
  imports KS_Frames
begin

section \<open>Kernel Scheduler: the workers and the memory routines leave the others alone\<close>

text \<open>
  The suspender, the resumer, the two routine threads, the I/O threads and the memory system
  calls move processes between the lists of the blocked, of READY and of the suspended, and none
  takes a process out of EXEC. A worker marks the process it works on (\<open>active_instances\<close>),
  which the invariant does not allow between two rounds: \<open>mark\<close> takes the mark into account.
\<close>

subsection \<open>The process a worker has marked\<close>

definition mark :: "pcb_ref \<Rightarrow> int \<Rightarrow> t_queues \<Rightarrow> t_queues" where
  "mark r k q = q\<lparr>pcbs := (pcbs q)(r := map_option (\<lambda>p. p\<lparr>active_instances := k\<rparr>) (pcbs q r))\<rparr>"

lemma mark_simps [simp]:
  "ready (mark r k q) = ready q" "mark r k (mark r l q) = mark r k q" "refs_in st (mark r k q) = refs_in st q"
  "multilevel_queue (ready (mark r k q)) = multilevel_queue (ready q)"
  by (auto simp: mark_def option.map_comp comp_def)

text \<open>The other fields of a process are set independently of the mark.\<close>

lemma pcb_mark_last:
  "p\<lparr>active_instances := k, pcb_state := s\<rparr> = p\<lparr>pcb_state := s, active_instances := k\<rparr>"
  "p\<lparr>pcb_state := s, active_instances := k, blocked_time := b\<rparr> = p\<lparr>pcb_state := s, blocked_time := b, active_instances := k\<rparr>"
  by (cases p; simp)+

lemma pcbs_last: "q\<lparr>pcbs := x, susp_ready := y\<rparr> = q\<lparr>susp_ready := y, pcbs := x\<rparr>"
  by simp

lemma mark_core: "same_core q q' \<Longrightarrow> same_core (mark r k q) (mark r k q')"
  by (simp add: same_core_def mark_def)

lemma mark_fix: "mark r k q = q \<longleftrightarrow> (\<forall>p. pcbs q r = Some p \<longrightarrow> active_instances p = k)"
proof
  assume "mark r k q = q"
  then have "pcbs (mark r k q) r = pcbs q r" by simp
  then show "\<forall>p. pcbs q r = Some p \<longrightarrow> active_instances p = k" by (cases "pcbs q r") (auto simp: mark_def dest: arg_cong [where f = active_instances])
next
  assume "\<forall>p. pcbs q r = Some p \<longrightarrow> active_instances p = k"
  then have "(pcbs q)(r := map_option (\<lambda>p. p\<lparr>active_instances := k\<rparr>) (pcbs q r)) = pcbs q" by (cases "pcbs q r") auto
  then show "mark r k q = q" by (simp add: mark_def)
qed

lemma mark_fix_core: "same_core q q' \<Longrightarrow> mark r k q = q \<Longrightarrow> mark r k q' = q'"
  by (simp add: mark_fix same_core_def)

lemma mark_idem: "pcbs q r = Some p \<Longrightarrow> active_instances p = k \<Longrightarrow> mark r k q = q"
  by (simp add: mark_def fun_upd_idem)

lemma mark_insert: "insert_pcb_sorted xs s (mark r k q) = insert_pcb_sorted xs s q"
proof -
  have "(\<lambda>x. case pcbs (mark r k q) x of Some p \<Rightarrow> pcb_priority p | None \<Rightarrow> 0) = (\<lambda>x. case pcbs q x of Some p \<Rightarrow> pcb_priority p | None \<Rightarrow> 0)"
    by (auto simp: mark_def split: option.splits)
  moreover have "(pcbs (mark r k q) x \<noteq> None) = (pcbs q x \<noteq> None)" for x by (auto simp: mark_def)
  ultimately show ?thesis by (simp only: insert_pcb_sorted_def)
qed

text \<open>What the suspender and the resumer do once Kernel Memory has agreed.\<close>

definition suspend_move :: "pcb_ref \<Rightarrow> t_queues \<Rightarrow> t_queues option" where
  "suspend_move r q = do {
     q2 \<leftarrow> update_pcb r (\<lambda>p. p\<lparr>pcb_state := PS_SUSP_BLOCK\<rparr>) q;
     q3 \<leftarrow> transition_take_block r q2;
     transition_to_susp_block r q3 }"

definition resume_move :: "pcb_ref \<Rightarrow> t_queues \<Rightarrow> t_queues option" where
  "resume_move r q = Option.bind (update_pcb r (\<lambda>p. p\<lparr>pcb_state := PS_READY\<rparr>) q) (\<lambda>q3. put_ready r (transition_take_susp_ready r q3))"

lemma mark_suspend_move: "suspend_move r (mark r k q) = map_option (mark r k) (suspend_move r q)"
proof (cases "pcbs q r")
  case (Some p)
  let ?q3 = "q\<lparr>pcbs := (pcbs q)(r \<mapsto> p\<lparr>pcb_state := PS_SUSP_BLOCK, blocked_time := 0\<rparr>), block := (block q)\<lparr>bl_list := remove1 r (bl_list (block q))\<rparr>\<rparr>"
  have "Option.bind (update_pcb r (\<lambda>p. p\<lparr>pcb_state := PS_SUSP_BLOCK\<rparr>) q) (transition_take_block r) = Some ?q3"
    "Option.bind (update_pcb r (\<lambda>p. p\<lparr>pcb_state := PS_SUSP_BLOCK\<rparr>) (mark r k q)) (transition_take_block r) = Some (mark r k ?q3)"
    using Some by (simp_all add: update_pcb_def transition_take_block_def set_blocked_time_def mark_def pcb_mark_last)
  moreover have "transition_to_susp_block r (mark r k ?q3) = map_option (mark r k) (transition_to_susp_block r ?q3)"
    unfolding transition_to_susp_block_def mark_insert by (auto simp: mark_def option.map_comp comp_def intro!: option.map_cong)
  ultimately show ?thesis unfolding suspend_move_def bind_assoc [symmetric] by simp
qed (simp add: suspend_move_def update_pcb_def mark_def)

lemma mark_resume_move: "resume_move r (mark r k q) = map_option (mark r k) (resume_move r q)"
proof (cases "pcbs q r")
  case (Some p)
  let ?q3 = "q\<lparr>pcbs := (pcbs q)(r \<mapsto> p\<lparr>pcb_state := PS_READY\<rparr>), susp_ready := (susp_ready q)\<lparr>bl_list := remove1 r (bl_list (susp_ready q))\<rparr>\<rparr>"
  have "resume_move r q = map_option (\<lambda>rd. ?q3\<lparr>ready := rd\<rparr>) (transition_to_ready r (pcb_priority p) (ready q))"
    using Some by (simp add: resume_move_def update_pcb_def transition_take_susp_ready_def put_ready_def get_priority_pcb_def)
  moreover have "resume_move r (mark r k q) = map_option (\<lambda>rd. (mark r k ?q3)\<lparr>ready := rd\<rparr>) (transition_to_ready r (pcb_priority p) (ready q))"
    using Some by (simp add: resume_move_def update_pcb_def transition_take_susp_ready_def put_ready_def get_priority_pcb_def mark_def pcb_mark_last pcbs_last)
  moreover have "(mark r k ?q3)\<lparr>ready := rd\<rparr> = mark r k (?q3\<lparr>ready := rd\<rparr>)" for rd by (simp add: mark_def)
  ultimately show ?thesis by (simp add: option.map_comp comp_def)
qed (simp add: resume_move_def update_pcb_def mark_def)

lemma suspend_move_wf:
  assumes "suspend_move r q = Some q'" "queues_wf q" "pcbs q r = Some p" "pcb_state p = PS_BLOCK"
  shows "queues_wf q'"
proof -
  obtain q3 where q3: "transition_take_block r (q\<lparr>pcbs := (pcbs q)(r \<mapsto> p\<lparr>pcb_state := PS_SUSP_BLOCK\<rparr>)\<rparr>) = Some q3"
    "in_transit r PS_SUSP_BLOCK q3" using take_block_transit [OF assms(2-4)] by blast
  then show ?thesis using to_susp_block_wf [OF q3(2)] assms(1,3) by (auto simp: suspend_move_def update_pcb_def)
qed

lemma resume_move_wf:
  assumes "resume_move r q = Some q'" "queues_wf q" "pcbs q r = Some p" "pcb_state p = PS_SUSP_READY"
  shows "queues_wf q'"
  using put_ready_wf [OF take_susp_ready_transit [OF assms(2-4)]] assms(1,3) by (auto simp: resume_move_def update_pcb_def)

subsection \<open>The suspender and the resumer\<close>

lemma spares_marked:
  assumes "mark r 0 q = q" "same_core (mark r k q) q'"
  shows "spares X q (mark r 0 q') \<and> mark r k q' = q'"
  using mark_core [OF assms(2), of r 0] assms(1) spares_core mark_fix_core [OF assms(2), of r k] by simp

text \<open>
  The round of a worker on a marked process, from what it does before and after its conversation
  with Kernel Memory.
\<close>

lemma spares_move:
  assumes q: "pcbs q r = Some p" "active_instances p = 0" "pcb_state p \<noteq> PS_EXEC"
    and talk: "same_core (mark r 1 q) q1"
    and move: "move r q1 = Some q2" and mark': "\<And>k q. move r (mark r k q) = map_option (mark r k) (move r q)"
    and wf: "\<And>q q' p'. move r q = Some q' \<Longrightarrow> queues_wf q \<Longrightarrow> pcbs q r = Some p' \<Longrightarrow> pcb_state p' = pcb_state p \<Longrightarrow> queues_wf q'"
    and eff: "\<And>q q'. move r q = Some q' \<Longrightarrow> multilevel_queue (ready q') = multilevel_queue (ready q) \<and> (\<forall>x. x \<noteq> r \<longrightarrow> pcbs q' x = pcbs q x)"
  shows "spares X q (mark r 0 q2)" "mark r 1 q2 = q2"
proof -
  have "mark r 1 q1 = q1" by (rule mark_fix_core [OF talk]) simp
  then show "mark r 1 q2 = q2" using move(1) mark'[of 1 q1] by simp
next
  show "spares X q (mark r 0 q2)"
  proof (rule sparesI)
    have c: "same_core q (mark r 0 q1)" using mark_core [OF talk, of r 0] mark_idem [OF q(1,2)] by simp
    have m: "move r (mark r 0 q1) = Some (mark r 0 q2)" using move mark' by simp
    have p1: "pcbs (mark r 0 q1) r = Some p" using c q(1) by (simp add: same_core_def)
    show "queues_wf (mark r 0 q2)" if "queues_wf q" using wf [OF m _ p1] queues_wf_core [OF c] that by simp
    show "multilevel_queue (ready (mark r 0 q2)) = multilevel_queue (ready q)" using eff [OF m] c by (simp add: same_core_def)
    show "pcbs (mark r 0 q2) x = pcbs q x" if "pcbs q x = Some px" "pcb_state px = PS_EXEC" for x px
    proof -
      have "x \<noteq> r" using that q by auto
      then show ?thesis using eff [OF m] c by (simp add: same_core_def)
    qed
  qed
qed

lemma suspend_move_effect:
  assumes "suspend_move r q = Some q'"
  shows "multilevel_queue (ready q') = multilevel_queue (ready q) \<and> (\<forall>x. x \<noteq> r \<longrightarrow> pcbs q' x = pcbs q x)"
  using assms by (auto simp: suspend_move_def bind_eq_Some_conv update_pcb_def transition_take_block_def set_blocked_time_def transition_to_susp_block_def)

lemma resume_move_effect:
  assumes "resume_move r q = Some q'"
  shows "multilevel_queue (ready q') = multilevel_queue (ready q) \<and> (\<forall>x. x \<noteq> r \<longrightarrow> pcbs q' x = pcbs q x)"
proof -
  obtain p where "put_ready r (transition_take_susp_ready r (q\<lparr>pcbs := (pcbs q)(r \<mapsto> p)\<rparr>)) = Some q'"
    using assms by (auto simp: resume_move_def bind_eq_Some_conv update_pcb_def)
  from put_ready_pcbs [OF this] put_ready_multilevel [OF this] show ?thesis by (simp add: transition_take_susp_ready_def)
qed

text \<open>A transition of a marked process.\<close>

lemma suspend_marked:
  assumes q: "pcbs q r = Some p" "active_instances p = 0"
    and step: "transition_block_susp_block_no_mutex r (mark r 1 q) = Some q'"
  shows "spares X q (mark r 0 q') \<and> mark r 1 q' = q'"
proof -
  let ?q = "mark r 1 q" and ?p = "p\<lparr>active_instances := 1\<rparr>"
  have p: "pcbs ?q r = Some ?p" using q by (simp add: mark_def)
  have id: "mark r 0 q = q" by (rule mark_idem [OF q])
  show ?thesis
  proof (cases "pcb_state p = PS_BLOCK")
    case True
    then obtain ok q1 where q1: "notify_process_suspended (pcb_pid p) ?q = Some (ok, q1)"
      using step p by (auto simp: transition_block_susp_block_no_mutex_def bind_eq_Some_conv)
    have c: "same_core ?q q1" by (rule core_notify_suspended [OF q1])
    show ?thesis
    proof (cases ok)
      case ok: True
      then have "Option.bind (suspend_move r q1) (\<lambda>q4. Some (if \<not> compaction_active q4 \<and> \<not> resume_active q4
               then q4\<lparr>resumer := unlock_thread_suspended (resumer q4)\<rparr> else q4)) = Some q'"
        using step p q1 True by (simp add: transition_block_susp_block_no_mutex_def suspend_move_def bind_assoc)
      then obtain q4 where q4: "suspend_move r q1 = Some q4"
        "q' = (if \<not> compaction_active q4 \<and> \<not> resume_active q4 then q4\<lparr>resumer := unlock_thread_suspended (resumer q4)\<rparr> else q4)"
        unfolding bind_eq_Some_conv option.inject by blast
      have wf: "queues_wf q'" if "suspend_move r q = Some q'" "queues_wf q" "pcbs q r = Some p'" "pcb_state p' = pcb_state p" for q q' p'
        by (rule suspend_move_wf [OF that(1-3)]) (simp add: that(4) True)
      note m = spares_move [where move = suspend_move, OF q _ c q4(1) mark_suspend_move wf suspend_move_effect]
      have k: "same_core q4 q'" using q4(2) by (simp add: same_core_def)
      have "spares X q (mark r 0 q4)" by (rule m(1)) (simp add: True)
      also have "spares X (mark r 0 q4) (mark r 0 q')" by (rule spares_core [OF mark_core [OF k]])
      finally show ?thesis using mark_fix_core [OF k m(2)] True by simp
    next
      case False
      then show ?thesis using step p q1 True spares_marked [OF id c] by (simp add: transition_block_susp_block_no_mutex_def)
    qed
  next
    case False
    then have "q' = mark r 1 q" using step p by (simp add: transition_block_susp_block_no_mutex_def)
    then show ?thesis by (simp only: mark_simps id) simp
  qed
qed

lemma resume_marked:
  assumes q: "pcbs q r = Some p" "active_instances p = 0"
    and step: "transition_susp_ready_no_mutex r (mark r 1 q) = Some (ok, q')"
  shows "spares X q (mark r 0 q') \<and> mark r 1 q' = q'"
proof -
  let ?q = "mark r 1 q" and ?p = "p\<lparr>active_instances := 1\<rparr>"
  have p: "pcbs ?q r = Some ?p" using q by (simp add: mark_def)
  have id: "mark r 0 q = q" by (rule mark_idem [OF q])
  show ?thesis
  proof (cases "pcb_state p = PS_SUSP_READY")
    case True
    then obtain can q1 where q1: "can_resume_suspended (pcb_pid p) ?q = Some (can, q1)"
      using step p by (auto simp: transition_susp_ready_no_mutex_def bind_eq_Some_conv)
    have c1: "same_core ?q q1" by (rule core_can_resume [OF q1])
    show ?thesis
    proof (cases can)
      case can: True
      then obtain sent q2 where q2: "notify_process_resume_suspended (pcb_pid p) q1 = Some (sent, q2)"
        using step p q1 True by (auto simp: transition_susp_ready_no_mutex_def bind_eq_Some_conv)
      have c2: "same_core ?q q2" using c1 core_notify_resume [OF q2] by (rule same_core_trans)
      show ?thesis
      proof (cases sent)
        case d: True
        then have m: "resume_move r q2 = Some q'"
          using step p q1 q2 can True by (auto simp: transition_susp_ready_no_mutex_def resume_move_def bind_eq_Some_conv)
        have wf: "queues_wf q'" if "resume_move r q = Some q'" "queues_wf q" "pcbs q r = Some p'" "pcb_state p' = pcb_state p" for q q' p'
          by (rule resume_move_wf [OF that(1-3)]) (simp add: that(4) True)
        from spares_move [where move = resume_move, OF q _ c2 m mark_resume_move wf resume_move_effect]
        show ?thesis using True by simp
      qed (use step p q1 q2 can True spares_marked [OF id c2] in \<open>simp add: transition_susp_ready_no_mutex_def\<close>)
    qed (use step p q1 True spares_marked [OF id c1] in \<open>simp add: transition_susp_ready_no_mutex_def\<close>)
  next
    case False
    then have "q' = mark r 1 q" using step p by (simp add: transition_susp_ready_no_mutex_def)
    then show ?thesis by (simp only: mark_simps id) simp
  qed
qed

lemma increment_marks:
  assumes "increment_active_instances r q = Some q'" "queues_wf q"
  shows "q' = mark r 1 q" "\<exists>p. pcbs q r = Some p \<and> active_instances p = 0"
  using assms by (auto simp: increment_active_instances_def update_pcb_def mark_def queues_wf_def store_ok_def)

lemma decrement_unmarks:
  assumes "decrement_active_instances r q = Some q'" "mark r 1 q = q"
  shows "q' = mark r 0 q"
  using assms by (auto simp: decrement_active_instances_def update_pcb_def mark_def mark_fix [unfolded mark_def])

lemma spares_wf: "(single_wf q \<Longrightarrow> spares X q q') \<Longrightarrow> spares X q q'"
  by (auto simp: spares_def)

lemma run_suspend_marked:
  assumes "run_suspend_process r (mark r 1 q) = Some q'" "pcbs q r = Some p" "active_instances p = 0"
  shows "spares X q q'"
proof -
  let ?q = "mark r 1 q" and ?p = "p\<lparr>active_instances := 1\<rparr>"
  have p: "pcbs ?q r = Some ?p" using assms(2) by (simp add: mark_def)
  obtain q1 q2 where q1: "(if must_suspend ?p ?q \<and> pcb_state ?p = PS_BLOCK then transition_block_susp_block_no_mutex r ?q else Some ?q) = Some q1"
    and q2: "decrement_active_instances r q1 = Some q2"
    and q': "q' = (if \<not> must_suspend ?p ?q
           then q2\<lparr>now := now q2 + (if millis ?q - blocked_time ?p > 500 then 500 else millis ?q - blocked_time ?p)\<rparr> else q2)"
    using assms(1) p unfolding run_suspend_process_def bind_eq_Some_conv by auto
  have "spares X q (mark r 0 q1) \<and> mark r 1 q1 = q1"
  proof (cases "must_suspend ?p ?q \<and> pcb_state ?p = PS_BLOCK")
    case True
    then show ?thesis using q1 suspend_marked [OF assms(2,3)] by simp
  next
    case False
    then have "q1 = ?q" using q1 by (simp split: if_splits)
    then show ?thesis by (simp add: mark_idem [OF assms(2,3)])
  qed
  then have "spares X q q2" using decrement_unmarks [OF q2] by simp
  also have "spares X q2 q'" by (rule spares_lists) (simp_all add: q')
  finally show ?thesis .
qed

lemma frame_suspender:
  assumes "thread_suspender woken q = Some (going_on, q')"
  shows "spares X q q'"
proof (cases "suspender q")
  case TS_RUNNING
  then obtain found q1 where g: "get_process_blocked q = Some (found, q1)"
    "(case found of None \<Rightarrow> Some (True, q1) | Some r \<Rightarrow> map_option (Pair True) (run_suspend_process r q1)) = Some (going_on, q')"
    using assms by (auto simp: thread_suspender_def bind_eq_Some_conv)
  obtain q2 where f: "first_in_memory (bl_list (block q)) q = Some (found, q2)"
    and q1: "q1 = (if found = None then q2\<lparr>block := (block q2)\<lparr>new_process := False\<rparr>, suspender := TS_WAITING_PROCESS\<rparr> else q2)"
    using g(1) by (auto simp: get_process_blocked_def bind_eq_Some_conv)
  obtain q3 where c: "same_core q q3" "case found of None \<Rightarrow> q2 = q3 | Some r \<Rightarrow> r \<in> set (bl_list (block q)) \<and> increment_active_instances r q3 = Some q2"
    using first_in_memory_effect [OF f] by blast
  show ?thesis
  proof (cases found)
    case None
    then have "spares X q q2" using c spares_core by simp
    also have "spares X q2 q'" by (rule spares_lists) (use g(2) q1 None in auto)
    finally show ?thesis .
  next
    case (Some r)
    show ?thesis
    proof (rule spares_wf)
      assume "single_wf q"
      then have "queues_wf q3" using queues_wf_core [OF c(1)] by (simp add: single_wf_def)
      note m = increment_marks [OF _ this, of r q2]
      have "run_suspend_process r q2 = Some q'" using g(2) q1 Some by auto
      then have "spares X q3 q'" using m c(2) Some run_suspend_marked by auto
      then show "spares X q q'" using spares_core [OF c(1)] spares_trans by blast
    qed
  qed
qed (use assms in \<open>auto simp: thread_suspender_def wait_process_blocked_def wait_unlock_def split: if_splits intro: spares_lists\<close>)

lemma resume_process_marked:
  assumes "resume_suspended_process r (mark r 1 q) = Some q'" "pcbs q r = Some p" "active_instances p = 0"
  shows "spares X q q'"
proof -
  let ?q = "mark r 1 q"
  have p: "pcbs ?q r = Some (p\<lparr>active_instances := 1\<rparr>)" using assms(2) by (simp add: mark_def)
  obtain ok q1 q2 where q1: "(if pcb_state p = PS_SUSP_READY then transition_susp_ready_no_mutex r ?q else Some (False, ?q)) = Some (ok, q1)"
    and q2: "decrement_active_instances r q1 = Some q2"
    and q': "q' = (if \<not> ok then q2\<lparr>resumer := lock_thread_suspended (resumer q2)\<rparr> else q2)"
    using assms(1) p unfolding resume_suspended_process_def get_state_pcb_def
    by (cases "if pcb_state p = PS_SUSP_READY then transition_susp_ready_no_mutex r ?q else Some (False, ?q)")
       (auto simp: bind_eq_Some_conv simp del: mark_simps)
  have "spares X q (mark r 0 q1) \<and> mark r 1 q1 = q1"
  proof (cases "pcb_state p = PS_SUSP_READY")
    case True
    then show ?thesis using q1 resume_marked [OF assms(2,3)] by simp
  next
    case False
    then have "q1 = ?q" using q1 by simp
    then show ?thesis by (simp add: mark_idem [OF assms(2,3)])
  qed
  then have "spares X q q2" using decrement_unmarks [OF q2] by simp
  also have "spares X q2 q'" by (rule spares_lists) (simp_all add: q')
  finally show ?thesis .
qed

lemma frame_resumer:
  assumes "thread_resumer woken q = Some (going_on, q')"
  shows "spares X q q'"
proof (cases "resumer q")
  case TS_RUNNING
  show ?thesis
  proof (cases "bl_list (susp_ready q)")
    case Nil
    then show ?thesis using assms TS_RUNNING by (auto simp: thread_resumer_def get_process_susp_ready_def intro: spares_lists)
  next
    case (Cons r rs)
    then obtain q1 where q1: "increment_active_instances r q = Some q1" "resume_suspended_process r q1 = Some q'"
      using assms TS_RUNNING by (auto simp: thread_resumer_def get_process_susp_ready_def bind_eq_Some_conv)
    show ?thesis
    proof (rule spares_wf)
      assume "single_wf q"
      then have "queues_wf q" by (simp add: single_wf_def)
      from increment_marks [OF q1(1) this] q1(2) show "spares X q q'" using resume_process_marked by blast
    qed
  qed
qed (use assms in \<open>auto simp: thread_resumer_def wait_process_susp_ready_def wait_unlock_def split: if_splits intro: spares_lists\<close>)

subsection \<open>The routines around a compaction\<close>

lemma spares_preempt_all: "spares X q (q\<lparr>ready := (ready q)\<lparr>preempt_all := b\<rparr>\<rparr>)"
  by (simp add: spares_def single_wf_def wf_preempt_all running_def)

lemma frame_lock_ready: "spares X q (q\<lparr>ready := lock_queue_ready (ready q)\<rparr>)"
  by (simp add: lock_queue_ready_def spares_preempt_all)

lemma frame_unlock_ready: "spares X q (q\<lparr>ready := unlock_queue_ready (ready q)\<rparr>)"
  by (simp add: unlock_queue_ready_def spares_preempt_all)

lemma frame_set_flags:
  "spares X q (snd (set_is_compacting b q))" "spares X q (snd (set_is_resuming b q))"
  by (rule spares_lists; simp add: set_is_compacting_def set_is_resuming_def)+

lemma frame_routine_enter: "routine_enter q = Some q' \<Longrightarrow> spares X q q'"
  by (rule spares_lists) (auto simp: routine_enter_def split: if_splits)

lemma frame_routine_leave: "spares X q (routine_leave q)"
  by (rule spares_lists) (auto simp: routine_leave_def)

lemma frame_threads_suspended: "spares X q (lock_threads_suspended q)" "spares X q (unlock_threads_suspended q)"
  by (rule spares_lists; simp add: lock_threads_suspended_def unlock_threads_suspended_def)+

lemma frame_thread_counter: "spares X q (decrement_thread_counter q)" "spares X q (increment_thread_counter q)"
  by (rule spares_lists; simp add: decrement_thread_counter_def increment_thread_counter_def)+

lemma frame_create_unlock: "spares X q (create_thread_unlock_queue_ready q)"
  by (rule spares_lists) (simp_all add: create_thread_unlock_queue_ready_def increment_thread_counter_def decrement_thread_counter_def Let_def)

lemma frame_send_to_km: "send_to_km b q = (ok, q') \<Longrightarrow> spares X q q'"
  by (rule spares_core) (rule core_send_to_km)

lemma frame_skip_string: "skip_string q = Some q' \<Longrightarrow> spares X q q'"
  by (rule spares_core) (rule core_skip_string)

lemma frame_compaction:
  assumes "compaction q = Some q'"
  shows "spares X q q'"
proof -
  obtain ok q1 where s: "send_to_km (send_string OP_CAN_COMPACT ''Start compaction'') q = (ok, q1)" by force
  have "same_core q q'"
  proof (cases ok)
    case True
    then show ?thesis using assms s core_send_to_km [OF s]
      by (auto simp: compaction_def compaction_finished_def bind_eq_Some_conv split: if_splits dest!: core_receive_opcode core_skip_string intro: same_core_trans)
  next
    case False
    then show ?thesis using assms s core_send_to_km [OF s] by (auto simp: compaction_def dest: core_close intro: same_core_trans)
  qed
  then show ?thesis by (rule spares_core)
qed

lemma frame_compact_and_release:
  assumes "compact_and_release q = Some q'"
  shows "spares X q q'"
proof -
  obtain q1 where q1: "compaction q = Some q1"
    "q' = create_resumption_routine_thread (create_thread_unlock_queue_ready (snd (set_is_compacting False q1)))"
    using assms by (auto simp: compact_and_release_def)
  have "spares X q q1" by (rule frame_compaction [OF q1(1)])
  also have "spares X q1 (snd (set_is_compacting False q1))" by (rule frame_set_flags)
  also have "spares X (snd (set_is_compacting False q1)) (create_thread_unlock_queue_ready (snd (set_is_compacting False q1)))"
    by (rule frame_create_unlock)
  also have "spares X \<dots> q'" unfolding q1(2) by (rule spares_core [OF core_create_routine])
  finally show ?thesis .
qed

lemma frame_lock_all:
  assumes "lock_all q = Some q'"
  shows "spares X q q'"
proof -
  have "q' = lock_threads_suspended (q\<lparr>ready := lock_queue_ready (ready q)\<rparr>)"
    using assms by (simp add: lock_all_def lock_queues_and_threads_def wait_queue_exec_empty_with_syscalls_def split: if_splits)
  then show ?thesis using spares_trans [OF frame_lock_ready frame_threads_suspended(1)] by simp
qed

lemma frame_routine_compaction:
  assumes "routine_compaction q = Some q'"
  shows "spares X q q'"
proof -
  obtain b q1 where b: "set_is_compacting True q = (b, q1)" by force
  have q1: "spares X q q1" using frame_set_flags(1) [of X q True] b by simp
  show ?thesis
  proof (cases b)
    case True
    then show ?thesis using assms b q1 by (simp add: routine_compaction_def)
  next
    case False
    then obtain q2 q3 where q2: "routine_enter q1 = Some q2"
      and q3: "(if \<not> terminate_routines q2 then Option.bind (lock_all q2) compact_and_release else Some q2) = Some q3"
      and q': "q' = routine_leave q3"
      using assms b by (auto simp: routine_compaction_def bind_eq_Some_conv)
    have "spares X q2 q3"
    proof (cases "terminate_routines q2")
      case False
      then obtain q4 where "lock_all q2 = Some q4" "compact_and_release q4 = Some q3" using q3 by (auto simp: bind_eq_Some_conv)
      then show ?thesis using frame_lock_all frame_compact_and_release spares_trans by blast
    qed (use q3 in simp)
    note q1
    also note frame_routine_enter [OF q2]
    also note \<open>spares X q2 q3\<close>
    also have "spares X q3 q'" unfolding q' by (rule frame_routine_leave)
    finally show ?thesis .
  qed
qed

lemma frame_response_alloc:
  "response_km_mem_alloc q = Some (ok, q') \<Longrightarrow> spares X q q'"
proof -
  have "response_km_mem_alloc q = Some y \<Longrightarrow> spares X q (snd y)" for y
  proof (erule response_km_mem_alloc.raw_induct [rotated])
    fix rec :: "t_queues \<Rightarrow> (bool \<times> t_queues) option" and q y
    assume IH: "\<And>q y. rec q = Some y \<Longrightarrow> spares X q (snd y)"
      and body: "Option.bind (receive_km_opcode
         [OP_MEMORY_ALLOCATED, OP_SEGMENT_SIZE_EXCEEDED, OP_NOT_ENOUGH_MEMORY, OP_COMPACTION_NEEDED] q) (\<lambda>(op, q1).
       if op = OP_MEMORY_ALLOCATED then map_option (Pair True) (skip_string q1)
       else if op = OP_SEGMENT_SIZE_EXCEEDED then map_option (Pair False) (skip_string q1)
       else if op = OP_NOT_ENOUGH_MEMORY then map_option (Pair False) (skip_string q1)
       else if op = OP_COMPACTION_NEEDED
            then Option.bind (Option.bind (skip_string q1) routine_compaction) rec
       else Some (True, q1)) = Some y"
    obtain op q1 where r: "receive_km_opcode
         [OP_MEMORY_ALLOCATED, OP_SEGMENT_SIZE_EXCEEDED, OP_NOT_ENOUGH_MEMORY, OP_COMPACTION_NEEDED] q = Some (op, q1)"
      using body by (auto simp: bind_eq_Some_conv)
    have "spares X q q1" by (rule spares_core [OF core_receive_opcode [OF r]])
    also have "spares X q1 (snd y)"
    proof (cases "op = OP_COMPACTION_NEEDED")
      case True
      then obtain q2 q3 where c: "skip_string q1 = Some q2" "routine_compaction q2 = Some q3" "rec q3 = Some y"
        using body r by (auto simp: bind_eq_Some_conv)
      from frame_skip_string [OF c(1)] have "spares X q1 q2" .
      also from frame_routine_compaction [OF c(2)] have "spares X q2 q3" .
      also from IH [OF c(3)] have "spares X q3 (snd y)" .
      finally show ?thesis .
    qed (use body r in \<open>auto split: if_splits dest: frame_skip_string\<close>)
    finally show "spares X q (snd y)" .
  qed
  then show "response_km_mem_alloc q = Some (ok, q') \<Longrightarrow> spares X q q'" by fastforce
qed

lemma frame_allocate:
  assumes "allocate_memory request q = Some (ok, q')"
  shows "spares X q q'"
proof -
  obtain enough q1 where h: "has_space request q = Some (enough, q1)" using assms by (auto simp: allocate_memory_def bind_eq_Some_conv)
  have k: "same_core q q1" using h by (auto simp: has_space_def dest: core_space_available)
  show ?thesis
  proof (cases enough)
    case True
    obtain sent q2 where s: "send_to_km (send_buffer OP_CREATE_SEGMENT (encode_syscall_memory request)) q1 = (sent, q2)" by force
    have k2: "same_core q q2" using k core_send_to_km [OF s] by (rule same_core_trans)
    show ?thesis
    proof (cases sent)
      case True
      then have "response_km_mem_alloc q2 = Some (ok, q')" using assms h s \<open>enough\<close> by (simp add: allocate_memory_def)
      then show ?thesis using spares_core [OF k2] frame_response_alloc spares_trans by blast
    next
      case False
      then have "same_core q2 q'" using assms h s \<open>enough\<close> by (auto simp: allocate_memory_def dest: core_close)
      then show ?thesis using spares_core same_core_trans [OF k2] by blast
    qed
  qed (use assms h k spares_core in \<open>auto simp: allocate_memory_def\<close>)
qed

lemma frame_free:
  assumes "free_memory request q = Some (ok, q')"
  shows "spares X q q'"
proof -
  obtain sent q1 where s: "send_to_km (send_buffer OP_DELETE_SEGMENT (encode_syscall_memory request)) q = (sent, q1)" by force
  have k: "same_core q q1" by (rule core_send_to_km [OF s])
  show ?thesis
  proof (cases sent)
    case True
    then obtain b q2 where q2: "response_km_mem_free q1 = Some (b, q2)" "q' = create_resumption_routine_thread q2"
      using assms s by (auto simp: free_memory_def)
    have "same_core q1 q2" using q2(1) by (auto simp: response_km_mem_free_def bind_eq_Some_conv split: if_splits
        dest!: core_receive_opcode core_skip_string intro: same_core_trans)
    then have "same_core q q'" using k q2(2) core_create_routine same_core_trans by blast
    then show ?thesis by (rule spares_core)
  next
    case False
    then have "same_core q1 q'" using assms s by (auto simp: free_memory_def dest: core_close)
    then show ?thesis using spares_core same_core_trans [OF k] by blast
  qed
qed

subsection \<open>The resumption routine\<close>

lemma frame_susp_ready:
  assumes "transition_susp_ready_no_mutex r q = Some (ok, q')"
  shows "spares X q q'"
proof (rule spares_wf)
  assume wf: "single_wf q"
  obtain p where p: "pcbs q r = Some p" using assms by (auto simp: transition_susp_ready_no_mutex_def bind_eq_Some_conv)
  have "running q' x" if x: "running q x" for x
  proof (cases "pcb_state p = PS_SUSP_READY")
    case True
    then obtain can q1 where q1: "can_resume_suspended (pcb_pid p) q = Some (can, q1)"
      using assms p by (auto simp: transition_susp_ready_no_mutex_def bind_eq_Some_conv)
    note c1 = core_can_resume [OF q1]
    have ne: "x \<noteq> r" using x p True by (auto simp: running_def)
    show ?thesis
    proof (cases can)
      case can: True
      then obtain sent q2 where q2: "notify_process_resume_suspended (pcb_pid p) q1 = Some (sent, q2)"
        using assms p q1 True by (auto simp: transition_susp_ready_no_mutex_def bind_eq_Some_conv)
      have c2: "same_core q q2" using c1 core_notify_resume [OF q2] by (rule same_core_trans)
      show ?thesis
      proof (cases sent)
        case d: True
        then have "resume_move r q2 = Some q'"
          using assms p q1 q2 can True by (auto simp: transition_susp_ready_no_mutex_def resume_move_def bind_eq_Some_conv)
        then show ?thesis using resume_move_effect ne c2 x by (simp add: running_def same_core_def)
      qed (use assms p q1 q2 can True running_core [OF c2] x in \<open>simp add: transition_susp_ready_no_mutex_def\<close>)
    qed (use assms p q1 True running_core [OF c1] x in \<open>simp add: transition_susp_ready_no_mutex_def\<close>)
  qed (use assms p x in \<open>simp add: transition_susp_ready_no_mutex_def\<close>)
  then show "spares X q q'" using transition_susp_ready_wf [OF assms] resume_ready [OF assms] by (auto simp: spares_def single_wf_def)
qed

lemma frame_resumption_routine: "resumption_routine keep q = Some q' \<Longrightarrow> spares X q q'"
proof (erule resumption_routine.raw_induct [rotated])
  fix rec :: "bool \<Rightarrow> t_queues \<Rightarrow> t_queues option" and keep q q'
  assume IH: "\<And>keep q q'. rec keep q = Some q' \<Longrightarrow> spares X q q'"
    and body: "(if \<not> blocking_list_is_empty (susp_ready q) \<and> keep
      then if is_compacting q then Some q
           else Option.bind (remove_of_the_list q) (\<lambda>(keep, q1). rec keep q1)
      else Some q) = Some q'"
  show "spares X q q'"
  proof (cases "\<not> blocking_list_is_empty (susp_ready q) \<and> keep \<and> \<not> is_compacting q")
    case True
    then obtain k q1 where r: "remove_of_the_list q = Some (k, q1)" "rec k q1 = Some q'"
      using body by (auto simp: bind_eq_Some_conv)
    have "spares X q q1" using r(1)
      by (auto simp: remove_of_the_list_def bind_eq_Some_conv split: list.splits if_splits dest: frame_susp_ready)
    then show ?thesis using IH [OF r(2)] by (rule spares_trans)
  qed (use body in \<open>auto split: if_splits\<close>)
qed

lemma frame_resumption_thread:
  assumes "resumption_routine_thread q = Some q'"
  shows "spares X q q'"
proof -
  obtain q1 q2 where q1: "routine_enter q = Some q1"
    and q2: "(if \<not> terminate_routines q1
            then map_option (\<lambda>q3. unlock_threads_suspended (snd (set_is_resuming False q3)))
                   (resumption_routine True (lock_threads_suspended q1))
            else Some q1) = Some q2"
    and q': "q' = decrement_thread_counter (routine_leave q2)"
    using assms unfolding resumption_routine_thread_def bind_eq_Some_conv by blast
  have "spares X q1 q2"
  proof (cases "terminate_routines q1")
    case False
    then obtain q3 where q3: "resumption_routine True (lock_threads_suspended q1) = Some q3"
      "q2 = unlock_threads_suspended (snd (set_is_resuming False q3))" using q2 by auto
    have "spares X q1 (lock_threads_suspended q1)" by (rule frame_threads_suspended)
    also have "spares X (lock_threads_suspended q1) q3" by (rule frame_resumption_routine [OF q3(1)])
    also have "spares X q3 (snd (set_is_resuming False q3))" by (rule frame_set_flags)
    also have "spares X \<dots> q2" unfolding q3(2) by (rule frame_threads_suspended)
    finally show ?thesis .
  qed (use q2 in simp)
  note frame_routine_enter [OF q1]
  also note \<open>spares X q1 q2\<close>
  also have "spares X q2 (routine_leave q2)" by (rule frame_routine_leave)
  also have "spares X \<dots> q'" unfolding q' by (rule frame_thread_counter)
  finally show ?thesis .
qed

lemma frame_unlock_thread:
  assumes "thread_unlock_queue_ready q = Some q'"
  shows "spares X q q'"
proof -
  let ?q = "if \<not> compaction_active q then q\<lparr>ready := unlock_queue_ready (ready q)\<rparr> else q"
  have "q' = decrement_thread_counter ?q"
    using assms by (auto simp: thread_unlock_queue_ready_def wait_queue_exec_empty_def split: if_splits)
  moreover have "spares X q ?q" using frame_unlock_ready by simp
  ultimately show ?thesis using frame_thread_counter(1) spares_trans by blast
qed

lemma frame_check_connection: "thread_check_connection_kernel_memory stop q = Some (ok, q') \<Longrightarrow> spares X q q'"
  by (rule spares_core)
     (auto simp: thread_check_connection_kernel_memory_def split: prod.splits bool.splits dest!: core_send_to_km core_close intro: same_core_trans)

subsection \<open>The I/O threads\<close>

lemma frame_free_requests: "free_requests es q = Some q' \<Longrightarrow> spares {} q q'"
  by (induction es arbitrary: q) (auto simp: bind_eq_Some_conv free_request_def dest!: frame_unlock intro: spares_trans)

lemma frame_close_thread_io: "close_thread_io io q = Some (io', q') \<Longrightarrow> spares {} q q'"
  by (auto simp: close_thread_io_def bind_eq_Some_conv dest: frame_free_requests)

lemma frame_io_thread:
  assumes "io_thread io q = Some (going_on, io', q')"
  shows "spares {} q q'"
proof -
  obtain es where es: "io_list io = Some es" using assms by (auto simp: io_thread_def bind_eq_Some_conv)
  show ?thesis
  proof (cases "close_thread io")
    case True
    then show ?thesis using assms es by (auto simp: io_thread_def dest: frame_close_thread_io)
  next
    case False
    then obtain e rest where e: "es = e # rest" using assms es by (cases es) (auto simp: io_thread_def)
    then obtain ok io1 q1 where h: "handle_io io q = Some (ok, io1, q1)"
      "(if ok then Some (True, io1, q1) else map_option (Pair False) (close_thread_io io1 q1)) = Some (going_on, io', q')"
      using assms es False by (auto simp: io_thread_def bind_eq_Some_conv)
    have "served e rest q (ok, io1, q1)" using handle_io_served [OF h(1)] es e by simp
    then have "spares {} q q1"
      by (cases ok) (auto simp: served_def free_request_def dest!: frame_unlock intro: spares_core spares_trans)
    moreover have "spares {} q1 q'" using h(2) by (cases ok) (auto dest: frame_close_thread_io)
    ultimately show ?thesis by (rule spares_trans)
  qed
qed

end
