(* ===== verification/KS_Server.thy ===== *)
theory KS_Server
  imports KS_Workers
begin

section \<open>Kernel Scheduler: the running system\<close>

text \<open>
  The threads of the scheduler together: one for each CPU, one for each interface, the suspender,
  the resumer, the routine threads, the check of the connection to Kernel Memory and the
  server, over one state. The loop of \<open>handle_cpu_client\<close> is cut where it takes and releases the
  locks of the queues, so that any other thread can run between two of its calls. A thread that
  waits has no step. The messages, the time and the connections that are opened and closed are
  steps of the environment. The last section shows where, between these calls, the test before a
  compaction lets a process run on.
\<close>


subsection \<open>The thread of a CPU, call by call\<close>

datatype cpu_phase =
    Requesting | Sending | Receiving | Serving int | Blocking bool | Checking_blocked | Checking_quantum
  | Checking_priority | Reporting | Leaving

type_synonym cpu_client = "cpu_phase \<times> t_cpu_thread"

text \<open>
  A system call for I/O queues its request and then moves the process, with the interface free
  to serve the request in between.
\<close>

definition start_io_request :: "t_io_type \<Rightarrow> cpu_state \<Rightarrow> (bool \<times> cpu_state) option" where
  "start_io_request t = (\<lambda>(d, io, q). do {
     (request, sz, rest) \<leftarrow> receive_buffer (from_cpu d);
     pcb \<leftarrow> ct_pcb d;
     slot \<leftarrow> io t;
     (queued, slot1) \<leftarrow> enqueue_io_request (case request of None \<Rightarrow> [] | Some b \<Rightarrow> b) slot pcb q;
     Some (queued, d\<lparr>from_cpu := rest, preemption_reason := PR_IO\<rparr>, io(t \<mapsto> slot1), q) })"

definition finish_io_request :: "bool \<Rightarrow> cpu_state \<Rightarrow> cpu_state option" where
  "finish_io_request queued = (\<lambda>(d, io, q). do {
     pcb \<leftarrow> ct_pcb d;
     q1 \<leftarrow> (if queued then transition_exec_block pcb q else transition_exec_exit pcb PER_IO_FAILURE q);
     Some (d, io, q1) })"

definition io_of_operation :: "int \<Rightarrow> t_io_type option" where
  "io_of_operation op =
     (if op = OP_SYSCALL_SLEEP then Some IO_SLEEP else if op = OP_SYSCALL_STDOUT then Some IO_STDOUT
      else if op = OP_SYSCALL_STDIN then Some IO_STDIN else None)"

definition end_operation :: "int \<Rightarrow> cpu_state \<Rightarrow> cpu_state" where
  "end_operation op = (\<lambda>(d, io, q). (d, io, if is_syscall op then decrement_syscall_counter q else q))"

text \<open>
  The call of each phase and the phase after it. The operation waits for the op code while the
  connection is open.
\<close>

fun cpu_step :: "cpu_phase \<Rightarrow> cpu_state \<Rightarrow> (cpu_phase \<times> cpu_state) option" where
  "cpu_step Requesting (d, io, q) =
     (if \<not> keep_running d then Some (Leaving, d, io, q)
      else do {
        (d1, io1, q1) \<leftarrow> manage_request_process (d, io, q);
        Some (if ct_pcb d1 = None then (Leaving, d1\<lparr>keep_running := False\<rparr>, io1, q1) else (Sending, d1, io1, q1)) })"
| "cpu_step Sending s = map_option (\<lambda>(sent, s1). (if sent then Receiving else Leaving, s1)) (send_pid s)"
| "cpu_step Receiving (d, io, q) =
     (if cpu_open d \<and> length (from_cpu d) < 4 then None
      else (case receive_op_code (from_cpu d) of
              (op, rest) \<Rightarrow> Some (Serving op, d\<lparr>from_cpu := rest\<rparr>, io, if is_syscall op then increment_syscall_counter q else q)))"
| "cpu_step (Serving op) s =
     (case io_of_operation op of
        Some t \<Rightarrow> map_option (\<lambda>(queued, s1). (Blocking queued, s1)) (start_io_request t s)
      | None \<Rightarrow> map_option (\<lambda>s1. (Checking_blocked, end_operation op s1)) (syscall_handlers op s))"
| "cpu_step (Blocking queued) s = map_option (\<lambda>s1. (Checking_blocked, end_operation OP_SYSCALL_SLEEP s1)) (finish_io_request queued s)"
| "cpu_step Checking_blocked s = map_option (Pair Checking_quantum) (manage_queue_blocked s)"
| "cpu_step Checking_quantum s = map_option (Pair Checking_priority) (manage_end_quantum s)"
| "cpu_step Checking_priority s = map_option (Pair Reporting) (manage_preemption_priority s)"
| "cpu_step Reporting (d, io, q) =
     (case send_preemption d of
        (False, d1) \<Rightarrow> Some (Leaving, d1\<lparr>keep_running := False\<rparr>, io, q)
      | (True, d1) \<Rightarrow>
          (if preemption_reason d1 = PR_HIGHER_PRIORITY_PROCESS
           then map_option (\<lambda>(sent, s1). (if sent then Requesting else Leaving, s1)) (send_pid (d1, io, q))
           else Some (Requesting, d1, io, q)))"
| "cpu_step Leaving s = None"

fun cpu_steps :: "nat \<Rightarrow> cpu_phase \<Rightarrow> cpu_state \<Rightarrow> (cpu_phase \<times> cpu_state) option" where
  "cpu_steps 0 ph s = Some (ph, s)"
| "cpu_steps (Suc n) ph s = Option.bind (cpu_step ph s) (\<lambda>(ph1, s1). cpu_steps n ph1 s1)"

text \<open>The end of the thread: it takes itself off the list of the server.\<close>

definition close_thread_cpu :: "nat \<Rightarrow> cpu_client list \<Rightarrow> cpu_client list" where
  "close_thread_cpu i cpus = take i cpus @ drop (Suc i) cpus"

subsection \<open>The server and its steps\<close>

record ks_server =
  ks_cpus :: "cpu_client list"
  ks_io :: t_io_slots
  ks_queues :: t_queues

datatype ks_event =
    Server_starts string
  | Connection bytes bool bool
  | Cpu_runs nat
  | Io_runs t_io_type
  | Suspender_runs bool
  | Resumer_runs bool
  | Routine_locks
  | Routine_runs nat
  | Connection_check bool
  | Shut_cpus
  | Time_passes u64
  | Km_answers bytes
  | Km_closes
  | Cpu_sends nat bytes
  | Cpu_closes nat
  | Io_sends t_io_type bytes
  | Io_closes t_io_type

definition ks_init :: "t_scheduling_algorithm \<Rightarrow> t_scheduling_algorithm list \<Rightarrow> int \<Rightarrow> bool \<Rightarrow> int \<Rightarrow> ks_server" where
  "ks_init algorithm algorithms quant preempt timeout =
     \<lparr>ks_cpus = [], ks_io = create_io_structures, ks_queues = init_queues algorithm algorithms quant preempt timeout\<rparr>"

definition cpu_runs :: "nat \<Rightarrow> ks_server \<Rightarrow> ks_server option" where
  "cpu_runs i s =
     (if i < length (ks_cpus s)
      then (case ks_cpus s ! i of
              (Leaving, d) \<Rightarrow>
                map_option (\<lambda>q. s\<lparr>ks_cpus := close_thread_cpu i (ks_cpus s), ks_queues := q\<rparr>)
                  (leave_cpu_client (d, ks_io s, ks_queues s))
            | (ph, d) \<Rightarrow>
                map_option (\<lambda>(ph1, d1, io1, q1). s\<lparr>ks_cpus := (ks_cpus s)[i := (ph1, d1)], ks_io := io1, ks_queues := q1\<rparr>)
                  (cpu_step ph (d, ks_io s, ks_queues s)))
      else None)"

definition routine_thread :: "t_routine_thread \<Rightarrow> t_queues \<Rightarrow> t_queues option" where
  "routine_thread t q =
     (case t of Resumption_routine_thread \<Rightarrow> resumption_routine_thread q | Unlock_queue_ready_thread \<Rightarrow> thread_unlock_queue_ready q)"

definition routine_runs :: "nat \<Rightarrow> t_queues \<Rightarrow> t_queues option" where
  "routine_runs i q =
     (if i < length (spawned q)
      then routine_thread (spawned q ! i) (q\<lparr>spawned := take i (spawned q) @ drop (Suc i) (spawned q)\<rparr>) else None)"

definition update_cpu :: "nat \<Rightarrow> (t_cpu_thread \<Rightarrow> t_cpu_thread) \<Rightarrow> cpu_client list \<Rightarrow> cpu_client list" where
  "update_cpu i f cpus = (if i < length cpus then cpus[i := map_prod id f (cpus ! i)] else cpus)"

fun ks_step :: "ks_event \<Rightarrow> ks_server \<Rightarrow> ks_server option" where
  "ks_step (Server_starts initial_process_path) s =
     map_option (\<lambda>q. s\<lparr>ks_queues := q\<rparr>) (server_start initial_process_path (ks_queues s))"
| "ks_step (Connection stream sent thread_ok) s =
     map_option (\<lambda>(ok, cpus, io). s\<lparr>ks_cpus := ks_cpus s @ map (Pair Requesting) cpus, ks_io := io\<rparr>)
       (server_connection [] (ks_io s) stream sent thread_ok)"
| "ks_step (Cpu_runs i) s = cpu_runs i s"
| "ks_step (Io_runs t) s = do {
     slot \<leftarrow> ks_io s t;
     (going_on, slot1, q1) \<leftarrow> io_thread slot (ks_queues s);
     Some (s\<lparr>ks_io := (ks_io s)(t \<mapsto> slot1), ks_queues := q1\<rparr>) }"
| "ks_step (Suspender_runs woken) s =
     map_option (\<lambda>(going_on, q). s\<lparr>ks_queues := q\<rparr>) (thread_suspender woken (ks_queues s))"
| "ks_step (Resumer_runs woken) s =
     map_option (\<lambda>(going_on, q). s\<lparr>ks_queues := q\<rparr>) (thread_resumer woken (ks_queues s))"
| "ks_step Routine_locks s = Some (s\<lparr>ks_queues := lock_queues_and_threads (ks_queues s)\<rparr>)"
| "ks_step (Routine_runs i) s = map_option (\<lambda>q. s\<lparr>ks_queues := q\<rparr>) (routine_runs i (ks_queues s))"
| "ks_step (Connection_check stop) s =
     map_option (\<lambda>(going_on, q). s\<lparr>ks_queues := q\<rparr>) (thread_check_connection_kernel_memory stop (ks_queues s))"
| "ks_step Shut_cpus s =
     (case close_cpu_ks (map snd (ks_cpus s)) (ks_queues s) of
        (cpus, q) \<Rightarrow> Some (s\<lparr>ks_cpus := zip (map fst (ks_cpus s)) cpus, ks_queues := q\<rparr>))"
| "ks_step (Time_passes t) s = Some (s\<lparr>ks_queues := (ks_queues s)\<lparr>now := now (ks_queues s) + t\<rparr>\<rparr>)"
| "ks_step (Km_answers b) s = Some (s\<lparr>ks_queues := (ks_queues s)\<lparr>from_km := from_km (ks_queues s) @ b\<rparr>\<rparr>)"
| "ks_step Km_closes s = Some (s\<lparr>ks_queues := (ks_queues s)\<lparr>km_open := False\<rparr>\<rparr>)"
| "ks_step (Cpu_sends i b) s = Some (s\<lparr>ks_cpus := update_cpu i (\<lambda>d. d\<lparr>from_cpu := from_cpu d @ b\<rparr>) (ks_cpus s)\<rparr>)"
| "ks_step (Cpu_closes i) s = Some (s\<lparr>ks_cpus := update_cpu i (\<lambda>d. d\<lparr>cpu_open := False\<rparr>) (ks_cpus s)\<rparr>)"
| "ks_step (Io_sends t b) s =
     Some (s\<lparr>ks_io := (ks_io s)(t := map_option (\<lambda>slot. slot\<lparr>from_io := from_io slot @ b\<rparr>) (ks_io s t))\<rparr>)"
| "ks_step (Io_closes t) s =
     Some (s\<lparr>ks_io := (ks_io s)(t := map_option (\<lambda>slot. slot\<lparr>io_open := False\<rparr>) (ks_io s t))\<rparr>)"

fun ks_run :: "ks_event list \<Rightarrow> ks_server \<Rightarrow> ks_server option" where
  "ks_run [] s = Some s"
| "ks_run (e # es) s = Option.bind (ks_step e s) (ks_run es)"

text \<open>
  The process a CPU works on: the one its thread has told it to run, or is about to, until the
  thread has given it back.
\<close>

definition keeps_process :: "t_cpu_thread \<Rightarrow> bool" where
  "keeps_process d \<longleftrightarrow> preemption_reason d = PR_NO_PREEMPTION \<or> preemption_reason d = PR_HIGHER_PRIORITY_PROCESS"

fun held :: "cpu_client \<Rightarrow> pcb_ref option" where
  "held (Sending, d) = ct_pcb d"
| "held (Receiving, d) = ct_pcb d"
| "held (Serving op, d) = ct_pcb d"
| "held (Blocking queued, d) = ct_pcb d"
| "held (ph, d) = (if keeps_process d then ct_pcb d else None)"

subsection \<open>The test before a compaction\<close>

lemma lock_all_eq: "lock_all q = (if int (length (exec_list (exec q))) \<le> syscall_counter q then Some (lock_queues_and_threads q) else None)"
  by (auto simp: lock_all_def wait_queue_exec_empty_with_syscalls_def lock_queues_and_threads_def lock_threads_suspended_def)

lemma exec_block_lists:
  assumes "transition_exec_block r q = Some q'" "pcbs q r = Some p" "pcb_state p = PS_EXEC"
  shows "exec_list (exec q') = remove1 r (exec_list (exec q)) \<and> syscall_counter q' = syscall_counter q"
  using assms
  by (auto simp: transition_exec_block_def guarded_move_eq transition_take_exec_def update_lowest_exec_priority_def transition_to_block_def
      set_blocked_time_def update_pcb_def bind_eq_Some_conv Let_def split: if_splits)

lemma start_io_keeps: "start_io_request t (d, io, q) = Some (queued, d', io', q') \<Longrightarrow> ct_pcb d' = ct_pcb d \<and> q' = q"
  by (auto simp: start_io_request_def bind_eq_Some_conv)

text \<open>C37: The test before a compaction compares the length of EXEC with the number of system calls in progress,
  and a system call for I/O takes its process out of EXEC before it is uncounted. Let the
  processes \<open>in_call\<close> of EXEC be inside a system call, one of them the caller \<open>c\<close> that wants the compaction, and
  let \<open>a\<close> and \<open>b\<close> be the other two of EXEC, running on their CPUs. \<open>a\<close> makes a system call for I/O:
  while it is being received and its request queued, \<open>lock_all\<close> waits, as it should, for \<open>b\<close>. Between the
  \<open>transition_exec_block\<close> of \<open>a\<close> and the decrement of the counter, \<open>lock_all\<close> does not wait although \<open>b\<close>, which makes no
  system call, is still in EXEC. Right after the decrement it would wait for \<open>b\<close> again.\<close>

theorem compaction_overtakes:
  assumes wf: "queues_wf q" and calls: "in_call \<subseteq> set (refs_in PS_EXEC q)" "c \<in> in_call" "syscall_counter q = int (card in_call)"
    and others: "set (refs_in PS_EXEC q) - in_call = {a, b}" "a \<noteq> b"
    and cpu: "ct_pcb d = Some a" "cpu_step Receiving (d, io, q) = Some (Serving op, d1, io1, q1)" "io_of_operation op = Some t"
      "cpu_step (Serving op) (d1, io1, q1) = Some (Blocking True, d2, io2, q2)"
  shows "lock_all q1 = None \<and> lock_all q2 = None
    \<and> (\<exists>d3 io3 q3 q'. finish_io_request True (d2, io2, q2) = Some (d3, io3, q3)
        \<and> lock_all q3 = Some q' \<and> set (refs_in PS_EXEC q') = insert b in_call \<and> b \<notin> insert a in_call
        \<and> cpu_step (Blocking True) (d2, io2, q2) = Some (Checking_blocked, d3, io3, decrement_syscall_counter q3)
        \<and> lock_all (decrement_syscall_counter q3) = None)"
proof -
  let ?exec = "exec_list (exec q)"
  have op: "is_syscall op" using cpu(3) by (auto simp: io_of_operation_def is_syscall_def split: if_splits)
  then have q1: "q1 = increment_syscall_counter q" "ct_pcb d1 = Some a"
    using cpu(1,2) by (auto split: prod.splits if_splits)
  have q2: "q2 = q1" "ct_pcb d2 = Some a" using cpu(3,4) q1(2) start_io_keeps by (auto dest: start_io_keeps)
  have exec: "distinct ?exec" "set ?exec = insert a (insert b in_call)" "a \<notin> in_call" "b \<notin> in_call"
    using wf calls(1) others by (auto simp: queues_wf_def lists_match_def dest: spec [of _ PS_EXEC])
  have "finite in_call" using calls(1) by (rule finite_subset) simp
  then have len: "int (length ?exec) = syscall_counter q + 2"
    using exec others(2) calls(3) distinct_card [OF exec(1)] by simp
  obtain p where p: "pcbs q a = Some p" "pcb_state p = PS_EXEC" using wf_member(2) [OF wf, of a PS_EXEC] exec(2) by auto
  have wf1: "queues_wf q1"
  proof -
    have "refs_in st q1 = refs_in st q" for st by (cases st) (auto simp: q1(1) increment_syscall_counter_def)
    then show ?thesis by (intro same_lists_wf [OF wf]) (simp_all add: q1(1) increment_syscall_counter_def)
  qed
  have p1: "pcbs q1 a = Some p" "exec_list (exec q1) = ?exec" "syscall_counter q1 = syscall_counter q + 1"
    using p by (simp_all add: q1(1) increment_syscall_counter_def)
  obtain q3 where q3: "transition_exec_block a q1 = Some q3" using transition_exec_block_wf [OF wf1 p1(1)] by blast
  have e3: "exec_list (exec q3) = remove1 a ?exec" "syscall_counter q3 = syscall_counter q + 1"
    using exec_block_lists [OF q3 p1(1) p(2)] p1(2,3) by simp_all
  have "Suc (length (remove1 a ?exec)) = length ?exec"
    using length_pos_if_in_set [of a ?exec] exec(2) by (simp add: length_remove1)
  then have "int (length (remove1 a ?exec)) = syscall_counter q + 1" using len by linarith
  moreover have "set (remove1 a ?exec) = insert b in_call" using exec others(2) by auto
  moreover have "finish_io_request True (d2, io2, q2) = Some (d2, io2, q3)" using q2 q3 by (simp add: finish_io_request_def)
  ultimately show ?thesis
    using len e3 p1(2,3) exec(3,4) others(2) q2(1)
    by (simp add: lock_all_eq lock_queues_and_threads_def lock_threads_suspended_def end_operation_def is_syscall_def decrement_syscall_counter_def)
qed


text \<open>Process 0 is in a system call, process 1 makes one for SLEEP, process 2 runs.\<close>

theorem compaction_overtakes_witness:
  "\<exists>q d1 io1 q1 d2 io2 q2 q3 q'. sched_run (take 7 demo_requests @ [Dispatch, Dispatch]) demo_init = Some q
     \<and> cpu_step Receiving (cpu_demo 1 (send_buffer OP_SYSCALL_SLEEP sleep_request) True, (\<lambda>_. Some sleep_slot), increment_syscall_counter q)
         = Some (Serving OP_SYSCALL_SLEEP, d1, io1, q1)
     \<and> cpu_step (Serving OP_SYSCALL_SLEEP) (d1, io1, q1) = Some (Blocking True, d2, io2, q2)
     \<and> lock_all q2 = None \<and> transition_exec_block 1 q2 = Some q3 \<and> lock_all q3 = Some q' \<and> 2 \<in> set (refs_in PS_EXEC q')"
proof -
  let ?d = "cpu_demo 1 (send_buffer OP_SYSCALL_SLEEP sleep_request) True" and ?io = "\<lambda>_. Some sleep_slot"
  let ?first = "\<lambda>q. cpu_step Receiving (?d, ?io, increment_syscall_counter q)"
  have "map_option (\<lambda>q. (refs_in PS_EXEC q, syscall_counter q, map_option fst (?first q),
        map_option fst (Option.bind (?first q) (\<lambda>(ph, s1). cpu_step (Serving OP_SYSCALL_SLEEP) s1))))
      (sched_run (take 7 demo_requests @ [Dispatch, Dispatch]) demo_init) = Some ([0, 1, 2], 0, Some (Serving OP_SYSCALL_SLEEP), Some (Blocking True))"
    by code_simp
  then obtain q d1 io1 q1 d2 io2 q2 where q: "sched_run (take 7 demo_requests @ [Dispatch, Dispatch]) demo_init = Some q" "exec_list (exec q) = [0, 1, 2]"
      "syscall_counter q = 0" "cpu_step Receiving (?d, ?io, increment_syscall_counter q) = Some (Serving OP_SYSCALL_SLEEP, d1, io1, q1)"
      "cpu_step (Serving OP_SYSCALL_SLEEP) (d1, io1, q1) = Some (Blocking True, d2, io2, q2)"
    by (auto simp: bind_eq_Some_conv simp del: cpu_step.simps)
  let ?q = "increment_syscall_counter q"
  have refs: "refs_in st ?q = refs_in st q" for st by (cases st) (auto simp: increment_syscall_counter_def)
  have wf: "queues_wf ?q" by (rule same_lists_wf [OF sched_run_wf [OF q(1)]]) (simp_all only: refs, simp_all add: increment_syscall_counter_def)
  have calls: "{0} \<subseteq> set (refs_in PS_EXEC ?q)" "(0::nat) \<in> {0}" "syscall_counter ?q = int (card {0::nat})" "set (refs_in PS_EXEC ?q) - {0} = {1, 2}"
      "(1::nat) \<noteq> 2" "ct_pcb ?d = Some 1" "io_of_operation OP_SYSCALL_SLEEP = Some IO_SLEEP"
    using q(2,3) by (auto simp: refs increment_syscall_counter_def cpu_demo_def io_of_operation_def)
  obtain d3 io3 q3 q' where c: "lock_all q2 = None" "finish_io_request True (d2, io2, q2) = Some (d3, io3, q3)" "lock_all q3 = Some q'"
      "set (refs_in PS_EXEC q') = {2, 0}"
    using compaction_overtakes [OF wf calls(1-6) q(4) calls(7) q(5)] by blast
  have "ct_pcb d2 = Some 1" using q(4,5) calls(6) by (auto simp: io_of_operation_def dest!: start_io_keeps split: prod.splits if_splits)
  then have "transition_exec_block 1 q2 = Some q3" using c(2) by (auto simp: finish_io_request_def bind_eq_Some_conv)
  with q(1,4,5) c show ?thesis by blast
qed

end
