(* ===== verification/KS_Running.thy ===== *)
theory KS_Running
  imports KS_Server
begin

section \<open>Kernel Scheduler: no process is run by two CPUs\<close>

text \<open>
  The invariant of the running system with one READY queue: the processes that the CPU threads
  hold are all different and all in EXEC. Every call of a CPU thread leaves alone what it
  does not hold, and what it takes was not running before. With \<open>MULTILEVEL\<close> this fails: a process that inherits
  a priority while it is first in READY is taken by two CPUs.
\<close>

subsection \<open>What a CPU thread does to its own process\<close>

text \<open>
  After \<open>(d, io, q)\<close> has become \<open>(d', io', q')\<close>: at most the own process has left EXEC, and not
  even that one if the thread still keeps it.
\<close>

fun handled :: "cpu_state \<Rightarrow> cpu_state \<Rightarrow> bool" where
  "handled (d, io, q) (d', io', q') \<longleftrightarrow> ct_pcb d' = ct_pcb d \<and> spares (set_option (ct_pcb d)) q q' \<and> (keeps_process d' \<longrightarrow> spares {} q q')"

lemma handled_alike: "ct_pcb d' = ct_pcb d \<Longrightarrow> spares {} q q' \<Longrightarrow> handled (d, io, q) (d', io', q')"
  by (auto intro: spares_empty)

lemma handled_gone:
  "ct_pcb d' = ct_pcb d \<Longrightarrow> \<not> keeps_process d' \<Longrightarrow> ct_pcb d = Some r \<Longrightarrow> spares {r} q q' \<Longrightarrow> handled (d, io, q) (d', io', q')"
  by simp

lemma handled_trans:
  assumes "ct_pcb d1 = ct_pcb d" "spares {} q q1" "handled (d1, io1, q1) (d2, io2, q2)"
  shows "handled (d, io, q) (d2, io2, q2)"
  using assms spares_trans [OF spares_empty [OF assms(2)]] by (auto intro: spares_trans)

lemma skip_cpu_string_pcb: "skip_cpu_string d = Some d' \<Longrightarrow> ct_pcb d' = ct_pcb d \<and> preemption_reason d' = preemption_reason d"
  by (auto simp: skip_cpu_string_def)

lemma receive_cpu_name_pcb: "receive_cpu_name d = Some (name, d') \<Longrightarrow> ct_pcb d' = ct_pcb d \<and> preemption_reason d' = preemption_reason d"
  by (auto simp: receive_cpu_name_def split: option.splits)

lemma end_process_handled:
  assumes "end_process reason preempted (d, io, q) = Some s'" "preempted \<notin> {PR_NO_PREEMPTION, PR_HIGHER_PRIORITY_PROCESS}"
  shows "handled (d, io, q) s'"
  using assms by (auto simp: end_process_def bind_eq_Some_conv keeps_process_def dest: frame_exec_exit)

lemma handle_cycle_handled: "handle_cycle_cpu_ok (d, io, q) = Some s' \<Longrightarrow> handled (d, io, q) s'"
  by (auto simp: handle_cycle_cpu_ok_def dest: skip_cpu_string_pcb)

text \<open>An operation that ends the process after reading its message.\<close>

lemma ending_handled:
  assumes "Option.bind (skip_cpu_string d) (\<lambda>d1. end_process reason preempted (d1, io, q)) = Some s'"
    and "preempted \<notin> {PR_NO_PREEMPTION, PR_HIGHER_PRIORITY_PROCESS}"
  shows "handled (d, io, q) s'"
proof -
  obtain d1 where d1: "skip_cpu_string d = Some d1" "end_process reason preempted (d1, io, q) = Some s'"
    using assms(1) by (auto simp: bind_eq_Some_conv)
  have "handled (d1, io, q) s'" by (rule end_process_handled [OF d1(2) assms(2)])
  then show ?thesis using skip_cpu_string_pcb [OF d1(1)] by (cases s') (auto dest: handled_trans [rotated 2])
qed

lemma segmentation_fault_handled: "handle_segmentation_fault (d, io, q) = Some s' \<Longrightarrow> handled (d, io, q) s'"
  by (rule ending_handled) (auto simp: handle_segmentation_fault_def)

lemma exit_handled: "handle_syscall_exit (d, io, q) = Some s' \<Longrightarrow> handled (d, io, q) s'"
  by (rule ending_handled) (auto simp: handle_syscall_exit_def)

lemma invalid_handled: "handle_invalid_syscall (d, io, q) = Some s' \<Longrightarrow> handled (d, io, q) s'"
  by (auto simp: handle_invalid_syscall_def)

text \<open>An operation that may end the process after a part that keeps it.\<close>

lemma ends_handled:
  assumes "end_process reason preempted (d1, io, q1) = Some s'" "preempted \<notin> {PR_NO_PREEMPTION, PR_HIGHER_PRIORITY_PROCESS}"
    and "ct_pcb d1 = ct_pcb d" "spares {} q q1"
  shows "handled (d, io, q) s'"
  using handled_trans [OF assms(3,4)] end_process_handled [OF assms(1,2)] by (cases s') blast

lemma mutex_create_handled:
  assumes "handle_syscall_mutex_create (d, io, q) = Some s'"
  shows "handled (d, io, q) s'"
proof -
  obtain name d1 where n: "receive_cpu_name d = Some (name, d1)" using assms by (auto simp: handle_syscall_mutex_create_def bind_eq_Some_conv)
  obtain ret q1 where c: "create_and_add_mutex name True q = (ret, q1)" by force
  note k = receive_cpu_name_pcb [OF n] frame_create_mutex [OF c, of "{}"]
  show ?thesis
  proof (cases "ret = MR_MUTEX_NAME_ALREADY_EXISTS")
    case True
    then have "end_process PER_MUTEX_NAME_ALREADY_EXISTS PR_MUTEX_NAME_ALREADY_EXISTS (d1, io, q1) = Some s'"
      using assms n c by (simp add: handle_syscall_mutex_create_def)
    then show ?thesis by (rule ends_handled) (use k in auto)
  next
    case False
    then have "s' = (d1, io, q1)" using assms n c by (simp add: handle_syscall_mutex_create_def)
    then show ?thesis using k handled_alike by simp
  qed
qed

lemma mutex_lock_handled:
  assumes "handle_syscall_mutex_lock (d, io, q) = Some s'"
  shows "handled (d, io, q) s'"
proof -
  obtain name d1 r ret q1 where n: "receive_cpu_name d = Some (name, d1)" "ct_pcb d = Some r" "list_mutex_lock name r q = Some (ret, q1)"
    using assms by (auto simp: handle_syscall_mutex_lock_def bind_eq_Some_conv)
  note k = receive_cpu_name_pcb [OF n(1)]
  show ?thesis
  proof (cases "mutex_list q name")
    case None
    then have "end_process PER_MUTEX_NAME_NOT_FOUND PR_MUTEX_NAME_NOT_FOUND (d1, io, q1) = Some s'" "q1 = q"
      using assms n by (auto simp: handle_syscall_mutex_lock_def list_mutex_lock_def)
    then show ?thesis using k by (auto intro: ends_handled)
  next
    case (Some m)
    then have "mutex_lock name r q = Some (ret, q1)" using n(3) by (simp add: list_mutex_lock_def)
    from frame_mutex_lock [OF this] show ?thesis
    proof
      assume a: "ret = MR_MUTEX_LOCKED \<and> spares {} q q1"
      then have "s' = (d1, io, q1)" using assms n by (simp add: handle_syscall_mutex_lock_def)
      then show ?thesis using a k handled_alike by simp
    next
      assume a: "ret = MR_WAITING_MUTEX \<and> spares {r} q q1"
      then have "s' = (d1\<lparr>preemption_reason := PR_MUTEX_LOCKED\<rparr>, io, q1)" using assms n by (simp add: handle_syscall_mutex_lock_def)
      then show ?thesis using a k n(2) by (simp add: keeps_process_def)
    qed
  qed
qed

lemma mutex_unlock_handled:
  assumes "handle_syscall_mutex_unlock (d, io, q) = Some s'"
  shows "handled (d, io, q) s'"
proof -
  obtain name d1 r ret q1 where n: "receive_cpu_name d = Some (name, d1)" "ct_pcb d = Some r" "list_mutex_unlock name r q = Some (ret, q1)"
    using assms by (auto simp: handle_syscall_mutex_unlock_def bind_eq_Some_conv)
  note k = receive_cpu_name_pcb [OF n(1)]
  have f: "spares {} q q1" using n(3) by (auto simp: list_mutex_unlock_def split: if_splits dest: frame_mutex_unlock)
  have "(\<exists>reason preempted. end_process reason preempted (d1, io, q1) = Some s' \<and> preempted \<notin> {PR_NO_PREEMPTION, PR_HIGHER_PRIORITY_PROCESS})
      \<or> s' = (d1, io, q1)"
    using assms n by (cases ret) (auto simp: handle_syscall_mutex_unlock_def)
  then show ?thesis using ends_handled f k handled_alike by blast
qed

lemma allocation_handled:
  assumes "handle_syscall_memory_allocation (d, io, q) = Some s'"
  shows "handled (d, io, q) s'"
proof -
  obtain request rest ok q1 where a: "receive_struct decode_syscall_memory (from_cpu d) = Some (request, rest)"
    "allocate_memory request q = Some (ok, q1)"
    using assms by (auto simp: handle_syscall_memory_allocation_def bind_eq_Some_conv)
  let ?d = "d\<lparr>from_cpu := rest\<rparr>"
  note f = frame_allocate [OF a(2), of "{}"]
  show ?thesis
  proof (cases ok)
    case True
    then have "s' = (?d, io, q1)" using assms a by (simp add: handle_syscall_memory_allocation_def Let_def)
    then show ?thesis using f handled_alike by simp
  next
    case False
    then have "end_process PER_NOT_ENOUGH_MEMORY PR_NOT_ENOUGH_MEMORY (?d, io, q1) = Some s'"
      using assms a by (simp add: handle_syscall_memory_allocation_def Let_def)
    then show ?thesis by (rule ends_handled) (use f in auto)
  qed
qed

lemma free_handled:
  assumes "handle_syscall_memory_free (d, io, q) = Some s'"
  shows "handled (d, io, q) s'"
  using assms by (auto simp: handle_syscall_memory_free_def bind_eq_Some_conv intro: frame_free)

lemma start_process_handled:
  assumes "handle_syscall_start_process (d, io, q) = Some s'"
  shows "handled (d, io, q) s'"
  using assms
  by (auto simp: handle_syscall_start_process_def bind_eq_Some_conv split: if_splits dest!: frame_new_ready intro: spares_empty)

lemma io_syscall_split:
  "handle_syscall_io t s = Option.bind (start_io_request t s) (\<lambda>(queued, s1). finish_io_request queued s1)"
  by (cases s) (auto simp: handle_syscall_io_def start_io_request_def finish_io_request_def bind_assoc split: option.splits prod.splits
      intro!: Option.bind_cong)

lemma finish_io_handled:
  assumes "finish_io_request queued (d, io, q) = Some s'" "\<not> keeps_process d"
  shows "handled (d, io, q) s'"
  using assms by (auto simp: finish_io_request_def bind_eq_Some_conv split: if_splits dest: frame_exec_block frame_exec_exit)

lemma syscall_handled:
  assumes "syscall_handlers op (d, io, q) = Some s'" "io_of_operation op = None"
  shows "handled (d, io, q) s'"
  using assms handle_cycle_handled segmentation_fault_handled mutex_create_handled mutex_lock_handled mutex_unlock_handled
    allocation_handled free_handled start_process_handled exit_handled invalid_handled
  by (auto simp: syscall_handlers_def io_of_operation_def split: if_splits)

subsection \<open>One step of a CPU thread\<close>

text \<open>
  \<open>taken\<close>: if the process held before was running, the one held afterwards is running, and it is
  the same or was not running before.
\<close>

fun taken :: "pcb_ref option \<Rightarrow> t_queues \<Rightarrow> pcb_ref option \<Rightarrow> t_queues \<Rightarrow> bool" where
  "taken h q h' q' \<longleftrightarrow> spares (set_option h) q q' \<and>
     (single_wf q \<longrightarrow> (\<forall>r. h = Some r \<longrightarrow> running q r) \<longrightarrow>
        (\<forall>r. h' = Some r \<longrightarrow> running q' r \<and> (h = Some r \<or> \<not> running q r)))"

lemma taken_none: "spares (set_option h) q q' \<Longrightarrow> taken h q None q'"
  by simp

lemma taken_same: "spares {} q q' \<Longrightarrow> taken h q h q'"
  by (auto simp: spares_def)

lemma taken_same_or_none: "spares {} q q' \<Longrightarrow> h' = h \<or> h' = None \<Longrightarrow> taken h q h' q'"
  by (auto simp: spares_def)

lemma taken_handled:
  assumes "handled (d, io, q) (d', io', q')" "ct_pcb d = h" "keeps_process d' \<or> h' = None" "h' = h \<or> h' = None"
  shows "taken h q h' q'"
  using assms taken_same_or_none taken_none by (metis handled.simps)

text \<open>A new process for the CPU.\<close>

lemma dispatch_taken:
  assumes "dispatch q = Some (r, q')"
  shows "taken h q r q'"
proof -
  have "(\<exists>rd. transition_take_ready_blocking (ready q) = Some (None, rd) \<and> r = None \<and> q' = q\<lparr>ready := rd\<rparr>)
      \<or> (\<exists>x rd. transition_take_ready_blocking (ready q) = Some (Some x, rd) \<and> r = Some x \<and> run_process x (q\<lparr>ready := rd\<rparr>) = Some q')"
    using assms by (auto simp: dispatch_def split: option.splits prod.splits)
  then show ?thesis
  proof (elim disjE exE conjE)
    fix rd assume a: "transition_take_ready_blocking (ready q) = Some (None, rd)" "r = None" "q' = q\<lparr>ready := rd\<rparr>"
    have "spares (set_option h) q q'"
    proof (rule sparesI)
      show "queues_wf q'" if "queues_wf q" using dispatch_keeps [OF assms that] .
      show "multilevel_queue (ready q') = multilevel_queue (ready q)" by (rule dispatch_ready [OF assms])
    qed (use a in simp)
    then show ?thesis using a(2) taken_none by simp
  next
    fix x rd assume a: "transition_take_ready_blocking (ready q) = Some (Some x, rd)" "r = Some x" "run_process x (q\<lparr>ready := rd\<rparr>) = Some q'"
    obtain p where p: "pcbs q x = Some p" using a(3)
      by (auto simp: run_process_def transition_ready_exec_def manage_state_pcb_def get_state_pcb_def bind_eq_Some_conv split: option.splits)
    have eff: "pcbs q' = (if pcb_state p = PS_READY then (pcbs q)(x \<mapsto> p\<lparr>pcb_state := PS_EXEC\<rparr>) else pcbs q)"
      using a(3) p by (auto simp: run_process_def transition_ready_exec_def manage_state_pcb_def get_state_pcb_def update_pcb_def
          transition_to_exec_def bind_eq_Some_conv split: if_splits)
    have "spares (set_option h) q q'"
    proof (rule sparesI)
      show "queues_wf q'" if "queues_wf q" using dispatch_keeps [OF assms that] .
      show "multilevel_queue (ready q') = multilevel_queue (ready q)" by (rule dispatch_ready [OF assms])
      show "pcbs q' y = pcbs q y" if "pcbs q y = Some py" "pcb_state py = PS_EXEC" for y py using eff p that by auto
    qed
    moreover have "running q' x \<and> \<not> running q x" if "single_wf q"
    proof -
      have "transition_take_ready_next_no_mutex (ready q) = (Some x, rd)"
        using a(1) by (auto simp: transition_take_ready_blocking_def split: if_splits)
      then have "x \<in> set (refs_in PS_READY q)" using take_next_tl by fastforce
      then have "pcb_state p = PS_READY" using wf_member(2) [of q x PS_READY] that p by (auto simp: single_wf_def)
      then show ?thesis using eff p by (simp add: running_def)
    qed
    ultimately show ?thesis using a(2) by auto
  qed
qed

lemma request_taken:
  assumes "manage_request_process (d, io, q) = Some (d', io', q')" "h = (if keeps_process d then ct_pcb d else None)"
  shows "taken h q (ct_pcb d') q'"
proof (cases "preemption_reason d = PR_NO_PREEMPTION")
  case True
  then show ?thesis using assms taken_same by (auto simp: manage_request_process_def keeps_process_def simp del: taken.simps)
next
  case False
  then show ?thesis using assms(1) dispatch_taken by (auto simp: manage_request_process_def bind_eq_Some_conv simp del: taken.simps)
qed

lemma send_pid_pcb:
  assumes "send_pid (d, io, q) = Some (sent, d', io', q')"
  shows "ct_pcb d' = ct_pcb d \<and> q' = q \<and> (preemption_reason d' = preemption_reason d \<or> preemption_reason d' = PR_NO_PREEMPTION)"
  using assms by (auto simp: send_pid_def send_code_def send_to_cpu_def bind_eq_Some_conv split: if_splits)

lemma send_preemption_pcb:
  "send_preemption d = (sent, d') \<Longrightarrow> ct_pcb d' = ct_pcb d \<and> preemption_reason d' = preemption_reason d"
  by (auto simp: send_preemption_def send_to_cpu_def split: if_splits)

text \<open>The checks after an operation.\<close>

lemma queue_blocked_taken:
  assumes "manage_queue_blocked (d, io, q) = Some (d', io', q')" "h = (if keeps_process d then ct_pcb d else None)"
    "h' = (if keeps_process d' then ct_pcb d' else None)"
  shows "taken h q h' q'"
  using assms frame_exec_ready
  by (auto simp: manage_queue_blocked_def bind_eq_Some_conv keeps_process_def split: if_splits)

lemma end_quantum_taken:
  assumes "manage_end_quantum (d, io, q) = Some (d', io', q')" "h = (if keeps_process d then ct_pcb d else None)"
    "h' = (if keeps_process d' then ct_pcb d' else None)"
  shows "taken h q h' q'"
  using assms frame_exec_ready
  by (auto simp: manage_end_quantum_def bind_eq_Some_conv keeps_process_def split: if_splits)

lemma run_process_effect:
  assumes "run_process b q = Some q'" "pcbs q b = Some p"
  shows "ready q' = ready q" "pcb_state p = PS_READY \<Longrightarrow> pcbs q' = (pcbs q)(b \<mapsto> p\<lparr>pcb_state := PS_EXEC\<rparr>)"
  using assms by (auto simp: run_process_def transition_ready_exec_def manage_state_pcb_def get_state_pcb_def update_pcb_def
      transition_to_exec_def bind_eq_Some_conv split: if_splits)

lemma swap_taken:
  assumes take: "transition_take_ready_next_no_mutex (ready q) = (Some b, rd)"
    and steps: "transition_exec_ready r (q\<lparr>ready := rd\<rparr>) = Some q1" "run_process b q1 = Some q'"
  shows "taken (Some r) q (Some b) q'"
proof -
  have "spares {r} q q' \<and> running q' b \<and> \<not> running q b" if wf: "queues_wf q" and single: "\<not> multilevel_queue (ready q)"
  proof -
    have m: "\<not> multilevel_queue (ready (q\<lparr>ready := rd\<rparr>))" using take_next_spec(2) [OF take] single by simp
    have tr: "in_transit b PS_READY (q\<lparr>ready := rd\<rparr>)" by (rule take_next_transit [OF wf take])
    then obtain pb where pb: "pcbs q b = Some pb" "pcb_state pb = PS_READY" by (auto simp: in_transit_def)
    obtain p where p: "pcbs q r = Some p"
      using steps(1) guarded_alive [of r _ _ _ "q\<lparr>ready := rd\<rparr>"] unfolding transition_exec_ready_def by fastforce
    have "queues_wf q' \<and> \<not> multilevel_queue (ready q') \<and> (\<forall>x. x \<noteq> r \<and> x \<noteq> b \<longrightarrow> pcbs q' x = pcbs q x) \<and> running q' b"
    proof (cases "pcb_state p = PS_EXEC")
      case True
      then have "b \<noteq> r" using p pb by auto
      from hand_cpu [OF wf take p True pb(1)] steps obtain "queues_wf q'"
        "pcbs q' = (pcbs q)(r \<mapsto> p\<lparr>pcb_state := PS_READY\<rparr>, b \<mapsto> pb\<lparr>pcb_state := PS_EXEC\<rparr>)" by auto
      moreover obtain pb1 where "pcbs q1 b = Some pb1" using steps(2)
        by (auto simp: run_process_def transition_ready_exec_def manage_state_pcb_def get_state_pcb_def bind_eq_Some_conv split: option.splits)
      then have "\<not> multilevel_queue (ready q')" using run_process_effect(1) [OF steps(2)] preempt_ready [OF steps(1)] m by simp
      ultimately show ?thesis by (auto simp: running_def)
    next
      case False
      then have q1: "q1 = q\<lparr>ready := rd\<rparr>" using steps(1) p by (simp add: transition_exec_ready_def guarded_move_eq)
      have "queues_wf q'" using run_process_wf [OF tr] steps(2) q1 by auto
      moreover have "pcbs q1 b = Some pb" using q1 pb by simp
      note run_process_effect [OF steps(2) this]
      ultimately show ?thesis using q1 m pb by (auto simp: running_def)
    qed
    moreover have "\<not> running q b" using pb by (auto simp: running_def)
    moreover from this calculation have "running q' x" if "x \<noteq> r" "running q x" for x
      using that by (metis running_def)
    ultimately show ?thesis by (simp add: spares_def single_wf_def)
  qed
  then show ?thesis by (auto simp: single_wf_def spares_def)
qed

lemma preemption_priority_taken:
  assumes "manage_preemption_priority (d, io, q) = Some (d', io', q')" "h = (if keeps_process d then ct_pcb d else None)"
    "h' = (if keeps_process d' then ct_pcb d' else None)"
  shows "taken h q h' q'"
proof (cases "preemption_reason d \<noteq> PR_NO_PREEMPTION \<or> \<not> preemption (exec q) \<or> ct_pcb d = None")
  case True
  then show ?thesis using assms taken_same by (auto simp: manage_preemption_priority_def simp del: taken.simps)
next
  case False
  then obtain r prio where r: "ct_pcb d = Some r" "get_priority_pcb r q = Some prio"
    using assms(1) by (auto simp: manage_preemption_priority_def bind_eq_Some_conv)
  have h: "h = Some r" using False assms(2) r by (simp add: keeps_process_def)
  show ?thesis
  proof (cases "\<not> is_lowest_priority_in_exec (exec q) prio \<or> prio \<le> highest_priority (ready q)")
    case True
    then have "d' = d \<and> q' = q" using assms(1) False r by (auto simp: manage_preemption_priority_def)
    then show ?thesis using assms(2,3) taken_same by (simp del: taken.simps)
  next
    case go: False
    obtain b rd where take: "transition_take_ready_next_no_mutex (ready q) = (b, rd)" by force
    show ?thesis
    proof (cases b)
      case None
      then have "d' = d \<and> q' = q\<lparr>ready := rd\<rparr>" using assms(1) False r go take by (auto simp: manage_preemption_priority_def)
      moreover have "rd = ready q" using take_next_none(2) take None by simp
      ultimately show ?thesis using assms(2,3) taken_same by (simp del: taken.simps)
    next
      case (Some x)
      then obtain q1 where q1: "transition_exec_ready r (q\<lparr>ready := rd\<rparr>) = Some q1" "run_process x q1 = Some q'"
        "d' = d\<lparr>preemption_reason := PR_HIGHER_PRIORITY_PROCESS, ct_pcb := Some x, ct_counter := millis q'\<rparr>"
        using assms(1) False r go take by (auto simp: manage_preemption_priority_def bind_eq_Some_conv)
      then have "h' = Some x" using assms(3) by (simp add: keeps_process_def)
      then show ?thesis using swap_taken [OF take [unfolded Some] q1(1,2)] h by simp
    qed
  qed
qed

text \<open>Every call of a CPU thread.\<close>

lemma frame_syscall_counter: "spares X q (increment_syscall_counter q)" "spares X q (decrement_syscall_counter q)"
  by (auto intro: spares_lists simp: increment_syscall_counter_def decrement_syscall_counter_def)

lemma end_operation_taken:
  assumes "taken h q h' q'" "end_operation op (d, io, q') = (d', io', q'')"
  shows "taken h q h' q''"
proof -
  have f: "spares X q' q''" for X using assms(2) frame_syscall_counter by (auto simp: end_operation_def split: if_splits)
  have "running q'' r" if "single_wf q'" "running q' r" for r using f [of "{}"] that by (auto simp: spares_def)
  then show ?thesis using assms(1) spares_trans [OF _ f] by (auto simp: spares_def)
qed

lemma receive_struct_pcb: "start_io_request t (d, io, q) = Some (queued, d', io', q') \<Longrightarrow> ct_pcb d' = ct_pcb d \<and> q' = q \<and> \<not> keeps_process d'"
  by (auto simp: start_io_request_def bind_eq_Some_conv keeps_process_def)

lemma cpu_step_taken:
  assumes "cpu_step ph (d, io, q) = Some (ph', d', io', q')" "\<And>queued. ph = Blocking queued \<Longrightarrow> \<not> keeps_process d"
  shows "taken (held (ph, d)) q (held (ph', d')) q' \<and> (\<forall>queued. ph' = Blocking queued \<longrightarrow> \<not> keeps_process d')"
proof (cases ph)
  case Requesting
  show ?thesis
  proof (cases "keep_running d")
    case True
    then obtain d1 where m: "manage_request_process (d, io, q) = Some (d1, io', q')"
      "(ph', d') = (if ct_pcb d1 = None then (Leaving, d1\<lparr>keep_running := False\<rparr>) else (Sending, d1))"
      using assms(1) Requesting by (auto simp: bind_eq_Some_conv split: if_splits)
    have "held (ph', d') = ct_pcb d1" using m(2) by (auto split: if_splits)
    then show ?thesis using request_taken [OF m(1) refl] m(2) Requesting by (auto split: if_splits)
  qed (use assms Requesting taken_same in \<open>auto simp del: taken.simps\<close>)
next
  case Sending
  then obtain sent where "send_pid (d, io, q) = Some (sent, d', io', q')" "ph' = (if sent then Receiving else Leaving)"
    using assms(1) by auto
  with send_pid_pcb [OF this(1)] show ?thesis using Sending
    by (auto intro: taken_same_or_none simp del: taken.simps)
next
  case Receiving
  then show ?thesis using assms(1) frame_syscall_counter
    by (auto intro!: taken_same_or_none split: if_splits prod.splits simp del: taken.simps)
next
  case (Serving op)
  show ?thesis
  proof (cases "io_of_operation op")
    case None
    then obtain d1 io1 q1 where s: "syscall_handlers op (d, io, q) = Some (d1, io1, q1)" "end_operation op (d1, io1, q1) = (d', io', q')" "ph' = Checking_blocked"
      using assms(1) Serving by auto
    have "d' = d1" using s(2) by (simp add: end_operation_def)
    moreover have "handled (d, io, q) (d1, io1, q1)" by (rule syscall_handled [OF s(1) None])
    ultimately have "taken (held (ph, d)) q (held (ph', d')) q1" using Serving s(3) by (intro taken_handled) auto
    then show ?thesis using end_operation_taken [OF _ s(2)] s(3) by blast
  next
    case (Some t)
    then obtain queued where "start_io_request t (d, io, q) = Some (queued, d', io', q')" "ph' = Blocking queued"
      using assms(1) Serving by auto
    with receive_struct_pcb [OF this(1)] show ?thesis using Serving by (auto intro: taken_same simp del: taken.simps)
  qed
next
  case (Blocking queued)
  then obtain d1 io1 q1 where s: "finish_io_request queued (d, io, q) = Some (d1, io1, q1)" "ph' = Checking_blocked"
      "end_operation OP_SYSCALL_SLEEP (d1, io1, q1) = (d', io', q')"
    using assms(1) by auto
  have "d' = d1" using s(3) by (simp add: end_operation_def)
  moreover have "d1 = d" using s(1) by (auto simp: finish_io_request_def bind_eq_Some_conv)
  moreover have "\<not> keeps_process d" using assms(2) Blocking by blast
  ultimately have "taken (held (ph, d)) q (held (ph', d')) q1"
    using finish_io_handled [OF s(1)] s(2) Blocking by (intro taken_handled) auto
  then show ?thesis using end_operation_taken [OF _ s(3)] s(2) by blast
next
  case Checking_blocked
  then show ?thesis using assms(1) queue_blocked_taken [OF _ refl refl, of d io q d' io' q'] by (auto simp del: taken.simps)
next
  case Checking_quantum
  then show ?thesis using assms(1) end_quantum_taken [OF _ refl refl, of d io q d' io' q'] by (auto simp del: taken.simps)
next
  case Checking_priority
  then show ?thesis using assms(1) preemption_priority_taken [OF _ refl refl, of d io q d' io' q'] by (auto simp del: taken.simps)
next
  case Reporting
  obtain sent d1 where p: "send_preemption d = (sent, d1)" by force
  note k = send_preemption_pcb [OF p]
  show ?thesis
  proof (cases "sent \<and> preemption_reason d1 = PR_HIGHER_PRIORITY_PROCESS")
    case True
    then obtain ok where s: "send_pid (d1, io, q) = Some (ok, d', io', q')" "ph' = (if ok then Requesting else Leaving)"
      using assms(1) Reporting p by auto
    from send_pid_pcb [OF s(1)] have "held (ph', d') = held (ph, d)" "q' = q"
      using True k s(2) Reporting by (auto simp: keeps_process_def)
    then show ?thesis using taken_same s(2) by (auto simp del: taken.simps)
  next
    case False
    then have "(ph' = Leaving \<or> ph' = Requesting) \<and> q' = q \<and> (d' = d1 \<or> d' = d1\<lparr>keep_running := False\<rparr>)"
      using assms(1) Reporting p by (cases sent) auto
    moreover from this have "held (ph', d') = held (ph, d)" using k Reporting by (auto simp: keeps_process_def)
    ultimately show ?thesis using taken_same by (auto simp del: taken.simps)
  qed
qed (use assms in simp)

subsection \<open>The invariant\<close>

definition held_refs :: "cpu_client list \<Rightarrow> pcb_ref list" where
  "held_refs cpus = concat (map (\<lambda>c. case held c of None \<Rightarrow> [] | Some r \<Rightarrow> [r]) cpus)"

text \<open>A thread between queueing its I/O request and blocking has already given up its process.\<close>

definition io_gives_up :: "cpu_client \<Rightarrow> bool" where
  "io_gives_up = (\<lambda>(ph, d). (\<exists>queued. ph = Blocking queued) \<longrightarrow> \<not> keeps_process d)"

definition ks_inv :: "ks_server \<Rightarrow> bool" where
  "ks_inv s \<longleftrightarrow> single_wf (ks_queues s) \<and> distinct (held_refs (ks_cpus s)) \<and> (\<forall>r \<in> set (held_refs (ks_cpus s)). running (ks_queues s) r)
     \<and> list_all io_gives_up (ks_cpus s)"

lemma held_refs_simps [simp]:
  "held_refs [] = []" "held_refs (c # cpus) = (case held c of None \<Rightarrow> [] | Some r \<Rightarrow> [r]) @ held_refs cpus"
  "held_refs (cpus @ cpus') = held_refs cpus @ held_refs cpus'"
  by (simp_all add: held_refs_def)

text \<open>A step of somebody who is not a CPU thread.\<close>

lemma inv_frame:
  assumes "ks_inv s" "spares {} (ks_queues s) q"
  shows "ks_inv (s\<lparr>ks_queues := q\<rparr>)" "ks_inv (s\<lparr>ks_io := io, ks_queues := q\<rparr>)"
  using assms by (auto simp: ks_inv_def spares_def)

text \<open>A step of one CPU thread, which is replaced or goes away.\<close>

lemma inv_thread:
  assumes inv: "ks_inv s" and i: "i < length (ks_cpus s)"
    and step: "taken (held (ks_cpus s ! i)) (ks_queues s) h' q"
    and new: "held_refs cs = (case h' of None \<Rightarrow> [] | Some r \<Rightarrow> [r])" "list_all io_gives_up cs"
  shows "ks_inv (s\<lparr>ks_cpus := take i (ks_cpus s) @ cs @ drop (Suc i) (ks_cpus s), ks_io := io, ks_queues := q\<rparr>)"
proof -
  let ?c = "ks_cpus s ! i" and ?xs = "take i (ks_cpus s)" and ?ys = "drop (Suc i) (ks_cpus s)" and ?q = "ks_queues s"
  have cpus: "ks_cpus s = ?xs @ ?c # ?ys" using id_take_nth_drop [OF i] .
  have refs: "held_refs (ks_cpus s) = held_refs ?xs @ (case held ?c of None \<Rightarrow> [] | Some r \<Rightarrow> [r]) @ held_refs ?ys"
    by (subst cpus) simp
  have wf: "single_wf ?q" and d: "distinct (held_refs (ks_cpus s))" and run: "\<forall>r \<in> set (held_refs (ks_cpus s)). running ?q r"
    and gives: "list_all io_gives_up (ks_cpus s)"
    using inv by (auto simp: ks_inv_def)
  have own: "\<forall>r. held ?c = Some r \<longrightarrow> running ?q r" using run refs by auto
  have sp: "spares (set_option (held ?c)) ?q q" using step by simp
  have others: "r \<notin> set_option (held ?c) \<and> running q r" if "r \<in> set (held_refs ?xs) \<union> set (held_refs ?ys)" for r
  proof -
    have "r \<notin> set_option (held ?c)" using that d refs by (cases "held ?c") auto
    moreover have "running ?q r" using that run refs by auto
    ultimately show ?thesis using sp wf by (auto simp: spares_def)
  qed
  have h': "running q r \<and> r \<notin> set (held_refs ?xs) \<union> set (held_refs ?ys)" if "h' = Some r" for r
  proof -
    have "running q r \<and> (held ?c = Some r \<or> \<not> running ?q r)" using step wf own that by simp
    then show ?thesis using others run refs by auto
  qed
  have "single_wf q" using sp wf by (simp add: spares_def)
  moreover have "distinct (held_refs (?xs @ cs @ ?ys))" using d refs h' new(1) by (cases h') auto
  moreover have "\<forall>r \<in> set (held_refs (?xs @ cs @ ?ys)). running q r" using others h' new(1) by (cases h') auto
  moreover have "list_all io_gives_up (?xs @ cs @ ?ys)"
    using gives new(2) by (auto simp: list_all_iff dest: in_set_takeD in_set_dropD)
  ultimately show ?thesis by (simp add: ks_inv_def)
qed

lemma cpu_runs_inv:
  assumes "ks_inv s" "cpu_runs i s = Some s'"
  shows "ks_inv s'"
proof -
  have i: "i < length (ks_cpus s)" using assms(2) by (auto simp: cpu_runs_def split: if_splits)
  obtain ph d where c: "ks_cpus s ! i = (ph, d)" by force
  have "io_gives_up (ph, d)" using assms(1) i c by (auto simp: ks_inv_def list_all_length)
  then have g: "ph = Blocking queued \<Longrightarrow> \<not> keeps_process d" for queued by (simp add: io_gives_up_def)
  show ?thesis
  proof (cases "ph = Leaving")
    case True
    then obtain q where q: "leave_cpu_client (d, ks_io s, ks_queues s) = Some q"
      "s' = s\<lparr>ks_cpus := close_thread_cpu i (ks_cpus s), ks_queues := q\<rparr>"
      using assms(2) i c by (auto simp: cpu_runs_def)
    have "spares (set_option (held (ph, d))) (ks_queues s) q"
      using q(1) True frame_exec_ready by (auto simp: leave_cpu_client_def keeps_process_def split: option.splits if_splits)
    then have "taken (held (ks_cpus s ! i)) (ks_queues s) None q" using c by simp
    from inv_thread [OF assms(1) i this, of "[]" "ks_io s"] show ?thesis using q(2) by (simp add: close_thread_cpu_def)
  next
    case False
    then obtain ph1 d1 io1 q1 where st: "cpu_step ph (d, ks_io s, ks_queues s) = Some (ph1, d1, io1, q1)"
      "s' = s\<lparr>ks_cpus := (ks_cpus s)[i := (ph1, d1)], ks_io := io1, ks_queues := q1\<rparr>"
      using assms(2) i c by (cases ph) (auto simp: cpu_runs_def)
    note t = cpu_step_taken [OF st(1) g]
    then have "taken (held (ks_cpus s ! i)) (ks_queues s) (held (ph1, d1)) q1" unfolding c by blast
    from inv_thread [OF assms(1) i this, of "[(ph1, d1)]" io1] t show ?thesis
      using st(2) i by (simp add: upd_conv_take_nth_drop io_gives_up_def)
  qed
qed

lemma inv_update_cpu:
  assumes "ks_inv s" "\<And>d. ct_pcb (f d) = ct_pcb d \<and> preemption_reason (f d) = preemption_reason d"
  shows "ks_inv (s\<lparr>ks_cpus := update_cpu i f (ks_cpus s)\<rparr>)"
proof (cases "i < length (ks_cpus s)")
  case True
  obtain ph d where c: "ks_cpus s ! i = (ph, d)" by force
  have h: "held (ph, f d) = held (ph, d)" using assms(2) [of d] by (cases ph) (auto simp: keeps_process_def)
  have "io_gives_up (ph, d)" using assms(1) True c by (auto simp: ks_inv_def list_all_length)
  then have g: "io_gives_up (ph, f d)" using assms(2) [of d] by (simp add: io_gives_up_def keeps_process_def)
  have t: "taken (held (ks_cpus s ! i)) (ks_queues s) (held (ph, f d)) (ks_queues s)"
    using taken_same [OF spares_refl] c h by (simp del: taken.simps)
  have "ks_inv (s\<lparr>ks_cpus := take i (ks_cpus s) @ [(ph, f d)] @ drop (Suc i) (ks_cpus s), ks_io := ks_io s, ks_queues := ks_queues s\<rparr>)"
    by (rule inv_thread [OF assms(1) True t]) (simp_all add: g)
  then show ?thesis using True c by (simp add: update_cpu_def upd_conv_take_nth_drop)
qed (use assms(1) in \<open>simp add: update_cpu_def\<close>)

lemma server_connection_new:
  assumes "server_connection [] io stream sent thread_ok = Some (ok, cpus, io')"
  shows "cpus = [] \<or> (\<exists>name rest. cpus = [init_data_thread_cpu name rest])"
proof -
  obtain mid rest where m: "receive_handshake stream = Some (mid, rest)" using assms by (auto simp: server_connection_def bind_eq_Some_conv)
  show ?thesis using assms m
    by (cases mid) (auto simp: server_connection_def handle_new_cpu_ks_def bind_eq_Some_conv split: if_splits option.splits)
qed

lemma shut_cpus_refs:
  "held_refs (zip (map fst cpus) (map (\<lambda>d. d\<lparr>cpu_open := False, from_cpu := []\<rparr>) (map snd cpus))) = held_refs cpus"
  "list_all io_gives_up (zip (map fst cpus) (map (\<lambda>d. d\<lparr>cpu_open := False, from_cpu := []\<rparr>) (map snd cpus))) = list_all io_gives_up cpus"
proof -
  have "held (ph, d\<lparr>cpu_open := False, from_cpu := []\<rparr>) = held (ph, d)" "io_gives_up (ph, d\<lparr>cpu_open := False, from_cpu := []\<rparr>) = io_gives_up (ph, d)" for ph d
    by (cases ph; simp add: keeps_process_def io_gives_up_def)+
  then show "held_refs (zip (map fst cpus) (map (\<lambda>d. d\<lparr>cpu_open := False, from_cpu := []\<rparr>) (map snd cpus))) = held_refs cpus"
    "list_all io_gives_up (zip (map fst cpus) (map (\<lambda>d. d\<lparr>cpu_open := False, from_cpu := []\<rparr>) (map snd cpus))) = list_all io_gives_up cpus"
    by (induction cpus) auto
qed

lemma spares_terminate: "spares X q (q\<lparr>ready := terminate_queue_ready (ready q)\<rparr>)"
proof -
  have *: "ready_refs ((ready q)\<lparr>terminate_queue := b\<rparr>) = ready_refs (ready q)" for b by (simp add: ready_refs_def)
  have "refs_in st (q\<lparr>ready := (ready q)\<lparr>terminate_queue := b\<rparr>\<rparr>) = refs_in st q" for st b by (cases st) (simp_all add: *)
  then show ?thesis
    by (simp add: terminate_queue_ready_def spares_def single_wf_def running_def queues_wf_def lists_match_def store_ok_def placed_def
        ready_ok_def queue_position_def queue_count_def *)
qed

lemma frame_routine_runs:
  assumes "routine_runs i q = Some q'"
  shows "spares {} q q'"
proof -
  let ?q = "q\<lparr>spawned := take i (spawned q) @ drop (Suc i) (spawned q)\<rparr>"
  have "routine_thread (spawned q ! i) ?q = Some q'" using assms by (simp add: routine_runs_def split: if_splits)
  then have "spares {} ?q q'" using frame_resumption_thread frame_unlock_thread
    by (auto simp: routine_thread_def split: t_routine_thread.splits)
  moreover have "spares {} q ?q" by (rule spares_lists) simp_all
  ultimately show ?thesis using spares_trans by blast
qed

text \<open>All steps keep the invariant.\<close>

lemma ks_step_inv:
  assumes inv: "ks_inv s" and step: "ks_step e s = Some s'"
  shows "ks_inv s'"
proof (cases e)
  case (Server_starts path)
  then show ?thesis using step inv_frame(1) [OF inv] by (auto simp: server_start_def dest!: frame_new_ready)
next
  case (Connection stream sent thread_ok)
  then obtain ok cpus io where c: "server_connection [] (ks_io s) stream sent thread_ok = Some (ok, cpus, io)"
    "s' = s\<lparr>ks_cpus := ks_cpus s @ map (Pair Requesting) cpus, ks_io := io\<rparr>" using step by auto
  from server_connection_new [OF c(1)] have "held_refs (map (Pair Requesting) cpus) = [] \<and> list_all io_gives_up (map (Pair Requesting) cpus)"
    by (auto simp: init_data_thread_cpu_def keeps_process_def io_gives_up_def)
  then show ?thesis using inv c(2) by (simp add: ks_inv_def)
next
  case (Cpu_runs i)
  then show ?thesis using step cpu_runs_inv [OF inv] by simp
next
  case (Io_runs t)
  then show ?thesis using step inv_frame(2) [OF inv] by (auto simp: bind_eq_Some_conv dest!: frame_io_thread)
next
  case (Suspender_runs woken)
  then show ?thesis using step inv_frame(1) [OF inv] by (auto dest!: frame_suspender [where X = "{}"])
next
  case (Resumer_runs woken)
  then show ?thesis using step inv_frame(1) [OF inv] by (auto dest!: frame_resumer [where X = "{}"])
next
  case Routine_locks
  then show ?thesis using step inv_frame(1) [OF inv] spares_trans [OF frame_lock_ready frame_threads_suspended(1)]
    by (auto simp: lock_queues_and_threads_def)
next
  case (Routine_runs i)
  then show ?thesis using step inv_frame(1) [OF inv] by (auto dest!: frame_routine_runs)
next
  case (Connection_check stop)
  then show ?thesis using step inv_frame(1) [OF inv] by (auto dest!: frame_check_connection [where X = "{}"])
next
  case Shut_cpus
  have "ks_inv (s\<lparr>ks_queues := (ks_queues s)\<lparr>ready := terminate_queue_ready (ready (ks_queues s))\<rparr>\<rparr>)"
    by (rule inv_frame(1) [OF inv spares_terminate])
  then show ?thesis using step Shut_cpus shut_cpus_refs by (auto simp: ks_inv_def close_cpu_ks_def simp del: map_map)
next
  case (Time_passes t)
  have "spares {} (ks_queues s) ((ks_queues s)\<lparr>now := now (ks_queues s) + t\<rparr>)" by (rule spares_lists) simp_all
  then show ?thesis using step Time_passes inv_frame(1) [OF inv] by auto
next
  case (Km_answers b)
  have "spares {} (ks_queues s) ((ks_queues s)\<lparr>from_km := from_km (ks_queues s) @ b\<rparr>)" by (rule spares_lists) simp_all
  then show ?thesis using step Km_answers inv_frame(1) [OF inv] by auto
next
  case Km_closes
  have "spares {} (ks_queues s) ((ks_queues s)\<lparr>km_open := False\<rparr>)" by (rule spares_lists) simp_all
  then show ?thesis using step Km_closes inv_frame(1) [OF inv] by auto
next
  case (Cpu_sends i b)
  then show ?thesis using step inv_update_cpu [OF inv] by auto
next
  case (Cpu_closes i)
  then show ?thesis using step inv_update_cpu [OF inv] by auto
qed (use step inv in \<open>auto simp: ks_inv_def\<close>)

definition ks_apply :: "ks_event \<Rightarrow> ks_server \<Rightarrow> (ks_server \<times> unit) option" where
  "ks_apply e s = map_option (\<lambda>s'. (s', ())) (ks_step e s)"

interpretation ks: invariant_system "\<lambda>e s. True" ks_apply ks_inv
  by unfold_locales (auto simp: ks_apply_def intro: ks_step_inv)

lemma ks_init_inv:
  assumes "algorithm \<noteq> SA_MULTILEVEL_QUEUES"
  shows "ks_inv (ks_init algorithm algorithms quant preempt timeout)"
  using assms init_queues_wf [of algorithm algorithms quant preempt timeout]
  by (auto simp: ks_init_def ks_inv_def single_wf_def init_queues_def init_ready_queue_def)

lemma ks_run_reachable:
  assumes "reachable (\<lambda>e s. True) ks_apply s0 s" "ks_run es s = Some s'"
  shows "reachable (\<lambda>e s. True) ks_apply s0 s'"
  using assms
proof (induction es arbitrary: s)
  case (Cons e es)
  then obtain s1 where "ks_step e s = Some s1" "ks_run es s1 = Some s'" by (auto simp: bind_eq_Some_conv)
  then show ?case using Cons.IH [of s1] reachable_step [OF Cons.prems(1), of e s1 "()"] by (simp add: ks_apply_def)
qed simp

lemma held_in: "c \<in> set cpus \<Longrightarrow> held c = Some r \<Longrightarrow> r \<in> set (held_refs cpus)"
  by (force simp: held_refs_def)

lemma held_other:
  assumes "distinct (held_refs cpus)" "i < length cpus" "j < length cpus" "held (cpus ! i) = Some r" "held (cpus ! j) = Some r"
  shows "i = j"
proof -
  have *: False if "i < j" "j < length cpus" "held (cpus ! i) = Some r" "held (cpus ! j) = Some r" for i j
  proof -
    have "cpus = take j cpus @ cpus ! j # drop (Suc j) cpus" by (rule id_take_nth_drop) (use that in simp)
    then have "held_refs cpus = held_refs (take j cpus) @ held_refs (cpus ! j # drop (Suc j) cpus)" by (metis held_refs_simps(3))
    moreover have "cpus ! i \<in> set (take j cpus)" using that by (auto simp: in_set_conv_nth intro!: exI [of _ i])
    then have "r \<in> set (held_refs (take j cpus))" using that(3) held_in by blast
    ultimately show False using assms(1) that(4) by auto
  qed
  show ?thesis using * [of i j] * [of j i] assms(2-5) by (metis linorder_neqE_nat)
qed

subsection \<open>Properties\<close>

text \<open>C11: With one READY queue the running scheduler keeps its processes apart: whatever CPUs and
  interfaces connect and close, whatever they and Kernel Memory send, and however the threads
  interleave, every process is in the list of its state and in no other, and once; the process a CPU
  thread holds is in EXEC, and no two CPU threads hold the same one.\<close>

theorem one_cpu_per_process:
  assumes "algorithm \<noteq> SA_MULTILEVEL_QUEUES"
    and "reachable (\<lambda>e s. True) ks_apply (ks_init algorithm algorithms quant preempt timeout) s"
  shows "(\<forall>st r. r \<in> set (refs_in st (ks_queues s)) \<longleftrightarrow> (\<exists>p. pcbs (ks_queues s) r = Some p \<and> pcb_state p = st))
    \<and> (\<forall>st. distinct (refs_in st (ks_queues s)))
    \<and> (\<forall>i < length (ks_cpus s). \<forall>r. held (ks_cpus s ! i) = Some r \<longrightarrow> r \<in> set (refs_in PS_EXEC (ks_queues s))
         \<and> (\<forall>j < length (ks_cpus s). held (ks_cpus s ! j) = Some r \<longrightarrow> j = i))"
proof -
  have inv: "ks_inv s" using ks.reachable_inv [OF assms(2) ks_init_inv [OF assms(1)]] .
  then have wf: "queues_wf (ks_queues s)" by (simp add: ks_inv_def single_wf_def)
  have exec: "r \<in> set (refs_in PS_EXEC (ks_queues s))" if "i < length (ks_cpus s)" "held (ks_cpus s ! i) = Some r" for i r
  proof -
    have "r \<in> set (held_refs (ks_cpus s))" using that held_in nth_mem by blast
    then obtain p where "pcbs (ks_queues s) r = Some p" "pcb_state p = PS_EXEC" using inv by (auto simp: ks_inv_def running_def)
    then show ?thesis using wf_member(1) [OF wf] by metis
  qed
  have other: "j = i" if "i < length (ks_cpus s)" "held (ks_cpus s ! i) = Some r" "j < length (ks_cpus s)" "held (ks_cpus s ! j) = Some r" for i j r
    using held_other [OF _ that(3,1,4,2)] inv by (simp add: ks_inv_def)
  have lists: "(\<forall>st r. r \<in> set (refs_in st (ks_queues s)) \<longleftrightarrow> (\<exists>p. pcbs (ks_queues s) r = Some p \<and> pcb_state p = st))
      \<and> (\<forall>st. distinct (refs_in st (ks_queues s)))"
    using wf unfolding queues_wf_def lists_match_def by blast
  show ?thesis by (intro conjI conjunct1 [OF lists] conjunct2 [OF lists] allI impI; (rule exec; assumption | rule other; assumption))
qed

text \<open>Two CPUs, two processes.\<close>

definition cpu_hello :: "string \<Rightarrow> ks_event" where
  "cpu_hello name = Connection (send_string OP_HANDSHAKE ''cpu'' @ send_string OP_ID_CPU name) True True"

definition cpu_cycle :: "nat \<Rightarrow> bytes \<Rightarrow> ks_event list" where
  "cpu_cycle i message = Cpu_sends i message # replicate 8 (Cpu_runs i)"

definition init_proc :: "string \<Rightarrow> int \<Rightarrow> bytes" where
  "init_proc file prio = send_packet (packet_append (packet_append_string (create_packet OP_SYSCALL_INIT_PROC) file) (int_bytes prio))"

definition two_cpus :: "ks_event list" where
  "two_cpus = [Km_answers process_started, Server_starts ''init'', cpu_hello ''A'', Km_answers process_started]
     @ cpu_cycle 0 (init_proc ''h'' 2) @ [cpu_hello ''B''] @ cpu_cycle 1 (send_string OP_SYSCALL_MUTEX_CREATE ''M'')"

theorem one_cpu_per_process_witness:
  "\<exists>s. ks_run two_cpus (ks_init SA_FIFO [] 2000 False 500) = Some s \<and> map held (ks_cpus s) = [Some 0, Some 1]
     \<and> distinct (refs_in PS_EXEC (ks_queues s))"
proof -
  have "map_option (\<lambda>s. map held (ks_cpus s)) (ks_run two_cpus (ks_init SA_FIFO [] 2000 False 500)) = Some [Some 0, Some 1]"
    by code_simp
  then obtain s where s: "ks_run two_cpus (ks_init SA_FIFO [] 2000 False 500) = Some s" "map held (ks_cpus s) = [Some 0, Some 1]" by auto
  have fifo: "SA_FIFO \<noteq> SA_MULTILEVEL_QUEUES" by simp
  note lists = conjunct1 [OF conjunct2 [OF one_cpu_per_process [OF fifo ks_run_reachable [OF reachable_init s(1)]]]]
  show ?thesis by (intro exI [of _ s] conjI s spec [OF lists])
qed

subsection \<open>Two CPUs, one process\<close>

lemma exec_block_others:
  assumes "transition_exec_block w q = Some q'" "r \<noteq> w"
  shows "ready q' = ready q \<and> pcbs q' r = pcbs q r"
  using assms
  by (auto simp: transition_exec_block_def guarded_move_def manage_state_pcb_def update_pcb_def transition_take_exec_def update_lowest_exec_priority_def
      transition_to_block_def set_blocked_time_def get_state_pcb_def bind_eq_Some_conv Let_def split: option.splits if_splits)

lemma wait_others:
  assumes "wait_for_mutex n w q = Some q'" "r \<noteq> w"
  shows "ready q' = ready q \<and> pcbs q' r = pcbs q r"
  using assms exec_block_others [of w _ q' r]
  by (fastforce simp: wait_for_mutex_def set_mutex_blocking_def update_pcb_def bind_eq_Some_conv)

lemma propagate_free: "pcbs q r = Some p \<Longrightarrow> blocking_mutex p = None \<Longrightarrow> propagate_priority_transitive ns r prio q = Some q"
  by (subst propagate_priority_transitive.simps) (simp add: get_mutex_blocking_def)

lemma update_priority_pcbs: "update_priority r q = Some q' \<Longrightarrow> pcbs q' = pcbs q"
  by (auto simp: update_priority_def take_ready_def put_ready_def bind_eq_Some_conv split: if_splits option.splits)

lemma exchange_pcb:
  assumes "exchange_priority r old new q = Some ((act, prio), q')" "pcbs q r = Some p"
  shows "\<exists>p'. pcbs q' r = Some p' \<and> pcb_priority p' = prio \<and> blocking_mutex p' = blocking_mutex p \<and> pcb_state p' = pcb_state p
    \<and> pcb_pid p' = pcb_pid p \<and> act = (prio \<noteq> pcb_priority p)"
  using assms by (auto simp: exchange_priority_def set_first_priority_def bind_eq_Some_conv split: list.splits if_splits dest!: update_priority_pcbs)

text \<open>A lock request that waits and improves the holder does so by \<open>exchange_priority\<close>.\<close>

lemma lock_exchanges:
  assumes lock: "mutex_lock n w q = Some (MR_WAITING_MUTEX, q1)" and m: "mutex_list q n = Some m" "current_process m = Some r" "r \<noteq> w"
    and r: "pcbs q r = Some p" "blocking_mutex p = None" "pcbs q1 r = Some p1" "pcb_priority p1 \<noteq> pcb_priority p"
  shows "\<exists>qa new qb. exchange_priority r (next_priority m) new qa = Some ((True, pcb_priority p1), qb)
    \<and> ready qa = ready q \<and> pcbs qa = pcbs q \<and> ready q1 = ready qb \<and> pcbs q1 r = pcbs qb r"
proof -
  let ?dec = "change_mutex n (\<lambda>m. m\<lparr>mutex_state := mutex_state m - 1\<rparr>)"
  have no: False if "wait_for_mutex n w (put_mutex n m' q) = Some q3" "q1 = ?dec q3" for m' q3
    using wait_others [OF that(1) m(3)] that(2) r by (simp add: put_mutex_def change_mutex_def)
  obtain prio waiters q2 q3 q4 where s: "priority_active m"
      "replace_priority [n] r (next_priority m) prio (put_mutex n (m\<lparr>mutex_waiters := waiters\<rparr>) q) = Some q2"
      "update_lowest_exec_priority (change_mutex n (\<lambda>m. m\<lparr>next_priority := prio\<rparr>) q2) = Some q3"
      "wait_for_mutex n w q3 = Some q4" "q1 = ?dec q4"
    using lock m(1,2) no by (auto simp: mutex_lock_def bind_eq_Some_conv split: if_splits)
  let ?qa = "put_mutex n (m\<lparr>mutex_waiters := waiters\<rparr>) q"
  have qa: "pcbs ?qa = pcbs q" "ready ?qa = ready q" by (simp_all add: put_mutex_def)
  obtain act prio' qb where e: "exchange_priority r (next_priority m) prio ?qa = Some ((act, prio'), qb)"
      "(if act then propagate_priority_transitive [n] r prio' qb else Some qb) = Some q2"
    using s(2) by (auto simp: replace_priority_def bind_eq_Some_conv)
  obtain pb where l: "pcbs qb r = Some pb" "pcb_priority pb = prio'" "blocking_mutex pb = None" "act = (prio' \<noteq> pcb_priority p)"
    using exchange_pcb [OF e(1), of p] r(1,2) qa by auto
  then have "q2 = qb" using e(2) propagate_free [OF l(1,3), of "[n]" prio'] by (simp split: if_splits)
  moreover have "ready q3 = ready q2 \<and> pcbs q3 = pcbs q2" using s(3) by (auto simp: update_lowest_exec_priority_def change_mutex_def)
  ultimately have same: "ready q1 = ready qb" "pcbs q1 r = pcbs qb r"
    using wait_others [OF s(4) m(3)] s(5) by (simp_all add: change_mutex_def)
  with l r(3,4) have "act" "prio' = pcb_priority p1" by auto
  with e(1) qa same show ?thesis by (intro exI [of _ ?qa] exI [of _ prio] exI [of _ qb]) simp
qed

text \<open>READY after the inheritance: one more place for the process, in the subqueue of its new priority.\<close>

lemma inherit_in_ready:
  assumes "multilevel_queue (ready q)" "pcbs q r = Some p" "pcb_state p = PS_READY" "exchange_priority r old new q = Some ((True, prio), q')"
    and "first_nonempty (subqueues (ready q)) = Some i" "prio < int i"
  shows "0 \<le> prio \<and> subqueues (ready q') = (subqueues (ready q))[nat prio := (fst (subqueues (ready q) ! nat prio), [r])]
    \<and> ready_process_count (ready q') = ready_process_count (ready q) \<and> preempt_all (ready q') = preempt_all (ready q)
    \<and> terminate_queue (ready q') = terminate_queue (ready q) \<and> multilevel_queue (ready q')"
proof -
  obtain q1 where q1: "set_first_priority r (\<lambda>xs. add_priority new (remove_priority_list xs old)) q = Some ((True, prio), q1)"
    "update_priority r q1 = Some q'" using assms(4) by (auto simp: exchange_priority_def bind_eq_Some_conv split: if_splits)
  obtain p1 where p1: "pcbs q1 r = Some p1" "pcb_priority p1 = prio" "pcb_state p1 = PS_READY" "ready q1 = ready q"
    using q1(1) assms(2,3) by (auto simp: set_first_priority_def split: list.splits)
  obtain q2 where q2: "take_ready r q1 = Some q2" "put_ready r q2 = Some q'"
    using q1(2) p1 assms(1) by (auto simp: update_priority_def get_state_pcb_def bind_eq_Some_conv)
  let ?rd = "ready q"
  obtain rd2 where rd2: "transition_take_ready r prio ?rd = Some rd2" "q2 = q1\<lparr>ready := rd2\<rparr>"
    using q2(1) p1 by (auto simp: take_ready_def get_priority_pcb_def)
  then have prio: "0 \<le> prio" using assms(1) by (auto simp: transition_take_ready_def subqueue_index_def split: if_splits)
  then have j: "nat prio < i" "nat prio < length (subqueues ?rd)" "int (nat prio) = prio" using assms(5,6) by (auto simp: first_nonempty_Some)
  then have empty: "snd (subqueues ?rd ! nat prio) = []" using assms(5) by (simp add: first_nonempty_Some)
  have same: "subqueues rd2 = subqueues ?rd" "ready_process_count rd2 = ready_process_count ?rd - 1" "multilevel_queue rd2"
      "preempt_all rd2 = preempt_all ?rd" "terminate_queue rd2 = terminate_queue ?rd"
    using rd2(1) j assms(1) empty
    by (auto simp: transition_take_ready_def subqueue_index_def queue_count_def update_highest_priority_ready_no_mutex_def Let_def
        split: option.splits if_splits) (metis list_update_id prod.collapse)+
  obtain rd3 where rd3: "transition_to_ready r prio rd2 = Some rd3" "ready q' = rd3"
    using q2(2) rd2(2) p1 by (auto simp: put_ready_def get_priority_pcb_def)
  then show ?thesis using same j prio empty
    by (auto simp: transition_to_ready_def subqueue_index_def Let_def split: if_splits)
qed

text \<open>A process at the head of the two best subqueues of READY is dispatched twice.\<close>

lemma dispatch_first:
  assumes "\<not> terminate_queue (ready q)" "\<not> preempt_all (ready q)" "ready_process_count (ready q) \<noteq> 0"
    and "first_nonempty (subqueues (ready q)) = Some i" "snd (subqueues (ready q) ! i) = r # rest" "pcbs q r = Some p"
  shows "\<exists>q' p'. dispatch q = Some (Some r, q') \<and> exec_list (exec q') = exec_list (exec q) @ [r]
    \<and> subqueues (ready q') = (subqueues (ready q))[i := (fst (subqueues (ready q) ! i), rest)]
    \<and> ready_process_count (ready q') = ready_process_count (ready q) - 1
    \<and> terminate_queue (ready q') = terminate_queue (ready q) \<and> preempt_all (ready q') = preempt_all (ready q)
    \<and> pcbs q' r = Some p' \<and> pcb_pid p' = pcb_pid p"
  using assms
  by (auto simp: dispatch_def transition_take_ready_blocking_def queue_ready_terminated_def transition_take_ready_next_no_mutex_def
      run_process_def transition_ready_exec_def manage_state_pcb_def get_state_pcb_def update_pcb_def transition_to_exec_def get_priority_pcb_def
      update_highest_priority_ready_no_mutex_def Let_def split: option.splits)

lemma cpu_takes:
  assumes "dispatch q = Some (Some r, q')" "pcbs q' r = Some p" "keep_running d" "preemption_reason d \<noteq> PR_NO_PREEMPTION" "cpu_open d"
  shows "cpu_steps 2 Requesting (d, io, q)
    = Some (Receiving, d\<lparr>ct_counter := millis q, ct_pcb := Some r, preemption_reason := PR_NO_PREEMPTION,
        to_cpu := to_cpu d @ [send_buffer OP_RESUME_PROCESS (u32_bytes (pcb_pid p))]\<rparr>, io, q')"
  using assms
  by (simp add: numeral_2_eq_2 manage_request_process_def send_pid_def send_code_def send_to_cpu_def)

text \<open>C33: With \<open>MULTILEVEL\<close> one process is run by two CPUs. Let \<open>r\<close> be the process that the next CPU takes from
  READY, from subqueue \<open>i\<close>, with at least one other process in READY, and let \<open>r\<close> hold a mutex. When a lock request of \<open>w\<close> that has to wait
  improves the priority of \<open>r\<close>, then \<open>r\<close> is in two subqueues, the one of its new priority and
  the one it was in; the next two CPUs that ask for a process, whatever they did before, both take \<open>r\<close> and
  are both told to run it, as \<open>transition_ready_exec\<close> does not tell its caller that the process was running already. EXEC
  then holds \<open>r\<close> twice, against \<open>queues_wf\<close>.\<close>

theorem multilevel_runs_twice:
  assumes ready: "multilevel_queue (ready q)" "\<not> terminate_queue (ready q)" "\<not> preempt_all (ready q)" "2 \<le> ready_process_count (ready q)"
    and head: "first_nonempty (subqueues (ready q)) = Some i" "snd (subqueues (ready q) ! i) = r # rest"
    and r: "pcbs q r = Some p" "pcb_state p = PS_READY" "pcb_priority p = int i" "blocking_mutex p = None"
    and m: "mutex_list q n = Some m" "current_process m = Some r" "r \<noteq> w"
    and lock: "mutex_lock n w q = Some (MR_WAITING_MUTEX, q1)" "pcbs q1 r = Some p1" "pcb_priority p1 < int i"
    and cpus: "\<forall>d \<in> {d1, d2}. keep_running d \<and> preemption_reason d \<noteq> PR_NO_PREEMPTION \<and> cpu_open d"
  shows "snd (subqueues (ready q1) ! nat (pcb_priority p1)) = [r] \<and> snd (subqueues (ready q1) ! i) = r # rest
    \<and> (\<exists>d1' q2 d2' q3. cpu_steps 2 Requesting (d1, io, q1) = Some (Receiving, d1', io, q2)
        \<and> cpu_steps 2 Requesting (d2, io, q2) = Some (Receiving, d2', io, q3)
        \<and> ct_pcb d1' = Some r \<and> to_cpu d1' = to_cpu d1 @ [send_buffer OP_RESUME_PROCESS (u32_bytes (pcb_pid p))]
        \<and> ct_pcb d2' = Some r \<and> to_cpu d2' = to_cpu d2 @ [send_buffer OP_RESUME_PROCESS (u32_bytes (pcb_pid p))]
        \<and> exec_list (exec q3) = exec_list (exec q1) @ [r, r] \<and> \<not> queues_wf q3)"
proof -
  let ?qs = "subqueues (ready q)" and ?j = "nat (pcb_priority p1)"
  have i: "i < length ?qs" "\<forall>k<i. snd (?qs ! k) = []" using head(1) by (auto simp: first_nonempty_Some)
  obtain qa new qb where e: "exchange_priority r (next_priority m) new qa = Some ((True, pcb_priority p1), qb)"
      "ready qa = ready q" "pcbs qa = pcbs q" "ready q1 = ready qb" "pcbs q1 r = pcbs qb r"
    using lock_exchanges [OF lock(1) m r(1,4) lock(2)] lock(3) r(3) by auto
  have q1: "0 \<le> pcb_priority p1" "subqueues (ready q1) = ?qs[?j := (fst (?qs ! ?j), [r])]"
      "ready_process_count (ready q1) = ready_process_count (ready q)" "\<not> terminate_queue (ready q1)" "\<not> preempt_all (ready q1)"
    using inherit_in_ready [OF _ _ r(2) e(1), of i] ready(1-3) r(1) head(1) lock(3) by (auto simp: e(2-4))
  have pid: "pcb_pid p1 = pcb_pid p" using exchange_pcb [OF e(1), of p] r(1) lock(2) by (simp add: e(3,5))
  have j: "?j < i" "?j < length ?qs" using q1(1) lock(3) i(1) by linarith+
  then have sub: "snd (subqueues (ready q1) ! ?j) = [r]" "snd (subqueues (ready q1) ! i) = r # rest" by (simp_all add: q1(2) head(2))
  have first: "first_nonempty (subqueues (ready q1)) = Some ?j" using i j by (auto simp: q1(2) first_nonempty_Some nth_list_update)
  obtain q2 p2 where q2: "dispatch q1 = Some (Some r, q2)" "exec_list (exec q2) = exec_list (exec q1) @ [r]"
      "subqueues (ready q2) = (subqueues (ready q1))[?j := (fst (subqueues (ready q1) ! ?j), [])]"
      "ready_process_count (ready q2) = ready_process_count (ready q) - 1"
      "\<not> terminate_queue (ready q2)" "\<not> preempt_all (ready q2)" "pcbs q2 r = Some p2" "pcb_pid p2 = pcb_pid p"
    using dispatch_first [OF q1(4,5) _ first sub(1) lock(2)] q1(3-5) ready(4) pid by auto
  have sub2: "first_nonempty (subqueues (ready q2)) = Some i" "snd (subqueues (ready q2) ! i) = r # rest"
    using i j head(2) by (auto simp: q2(3) q1(2) first_nonempty_Some nth_list_update)
  obtain q3 p3 where q3: "dispatch q2 = Some (Some r, q3)" "exec_list (exec q3) = exec_list (exec q1) @ [r, r]" "pcbs q3 r = Some p3" "pcb_pid p3 = pcb_pid p"
    using dispatch_first [OF q2(5,6) _ sub2 q2(7)] q2(2,4,8) ready(4) by auto
  have "\<not> distinct (refs_in PS_EXEC q3)" using q3(2) by simp
  then have "\<not> queues_wf q3" unfolding queues_wf_def lists_match_def by blast
  with sub cpu_takes [OF q2(1,7), of d1 io] cpu_takes [OF q3(1,3), of d2 io] cpus q2(8) q3(2,4) show ?thesis by auto
qed


text \<open>Process 1 holds the mutex and is first in READY, process 3 is behind it, process 2 runs and asks for the mutex.\<close>

definition two_heirs :: "ks_event list" where
  "two_heirs = two_cpus @ cpu_cycle 1 (send_string OP_SYSCALL_MUTEX_LOCK ''M'') @ [Km_answers process_started] @ cpu_cycle 0 (init_proc ''w'' 1)
     @ cpu_cycle 1 (send_string OP_CPU_CYCLE_OK '''') @ [Km_answers process_started] @ cpu_cycle 0 (init_proc ''x'' 2)"

theorem multilevel_runs_twice_witness:
  "\<exists>s d1 d2 q1 d1' q2 d2' q3. ks_run two_heirs (ks_init SA_MULTILEVEL_QUEUES [SA_FIFO, SA_FIFO, SA_FIFO] 2000 True 500) = Some s
     \<and> d1 = (snd (ks_cpus s ! 1))\<lparr>preemption_reason := PR_MUTEX_LOCKED\<rparr> \<and> d2 = (snd (ks_cpus s ! 0))\<lparr>preemption_reason := PR_MUTEX_LOCKED\<rparr>
     \<and> mutex_lock ''M'' 2 (ks_queues s) = Some (MR_WAITING_MUTEX, q1)
     \<and> cpu_steps 2 Requesting (d1, ks_io s, q1) = Some (Receiving, d1', ks_io s, q2) \<and> ct_pcb d1' = Some 1
     \<and> cpu_steps 2 Requesting (d2, ks_io s, q2) = Some (Receiving, d2', ks_io s, q3) \<and> ct_pcb d2' = Some 1 \<and> \<not> queues_wf q3"
proof -
  let ?cpu = "\<lambda>s i. (snd (ks_cpus s ! i))\<lparr>preemption_reason := PR_MUTEX_LOCKED\<rparr>"
  have "map_option (\<lambda>s. let q = ks_queues s; rd = ready q in
        ((multilevel_queue rd, terminate_queue rd, preempt_all rd, ready_process_count rd, first_nonempty (subqueues rd), snd (subqueues rd ! 2)),
         (map_option (\<lambda>p. (pcb_state p, pcb_priority p, blocking_mutex p)) (pcbs q 1), map_option current_process (mutex_list q ''M''),
          map_option (\<lambda>(ret, q1). (ret, map_option pcb_priority (pcbs q1 1))) (mutex_lock ''M'' 2 q)),
         map (\<lambda>i. (keep_running (?cpu s i), preemption_reason (?cpu s i), cpu_open (?cpu s i))) [0, 1]))
      (ks_run two_heirs (ks_init SA_MULTILEVEL_QUEUES [SA_FIFO, SA_FIFO, SA_FIFO] 2000 True 500))
    = Some ((True, False, False, 2, Some 2, [1, 3]), (Some (PS_READY, 2, None), Some (Some 1), Some (MR_WAITING_MUTEX, Some 1)),
        [(True, PR_MUTEX_LOCKED, True), (True, PR_MUTEX_LOCKED, True)])" by code_simp
  then obtain s p m q1 p1 where s: "ks_run two_heirs (ks_init SA_MULTILEVEL_QUEUES [SA_FIFO, SA_FIFO, SA_FIFO] 2000 True 500) = Some s"
      "multilevel_queue (ready (ks_queues s))" "\<not> terminate_queue (ready (ks_queues s))" "\<not> preempt_all (ready (ks_queues s))"
      "ready_process_count (ready (ks_queues s)) = 2" "first_nonempty (subqueues (ready (ks_queues s))) = Some 2"
      "snd (subqueues (ready (ks_queues s)) ! 2) = [1, 3]" "pcbs (ks_queues s) 1 = Some p" "pcb_state p = PS_READY" "pcb_priority p = 2"
      "blocking_mutex p = None" "mutex_list (ks_queues s) ''M'' = Some m" "current_process m = Some 1"
      "mutex_lock ''M'' 2 (ks_queues s) = Some (MR_WAITING_MUTEX, q1)" "pcbs q1 1 = Some p1" "pcb_priority p1 = 1"
      "\<forall>d \<in> {?cpu s 1, ?cpu s 0}. keep_running d \<and> preemption_reason d \<noteq> PR_NO_PREEMPTION \<and> cpu_open d"
    by (auto simp: Let_def)
  have "2 \<le> ready_process_count (ready (ks_queues s))" "pcb_priority p = int 2" "(1 :: nat) \<noteq> 2" "pcb_priority p1 < int 2" using s(5,10,16) by simp_all
  from conjunct2 [OF conjunct2 [OF multilevel_runs_twice [OF s(2-4) this(1) s(6-9) this(2) s(11-13) this(3) s(14,15) this(4) s(17)]], of "ks_io s"] s(1,14)
  show ?thesis by blast
qed

end
