(* ===== verification/KS_Rounds.thy ===== *)
theory KS_Rounds
  imports KS_Running
begin

section \<open>Kernel Scheduler: a round of a CPU thread as its calls\<close>

text \<open>
  The iteration of the loop as one function, \<open>cpu_client_round\<close>, is what the calls of
  \<open>KS_Server\<close> compute when no other thread runs between them.
\<close>

definition reaches :: "cpu_phase \<Rightarrow> cpu_state \<Rightarrow> cpu_phase \<Rightarrow> cpu_state \<Rightarrow> bool" where
  "reaches ph s ph' s' \<longleftrightarrow> (\<exists>n. cpu_steps n ph s = Some (ph', s'))"

lemma reaches_refl [simp]: "reaches ph s ph s"
  unfolding reaches_def by (rule exI [of _ 0]) simp

lemma reaches_step: "cpu_step ph s = Some (ph1, s1) \<Longrightarrow> reaches ph1 s1 ph' s' \<Longrightarrow> reaches ph s ph' s'"
proof -
  assume a: "cpu_step ph s = Some (ph1, s1)" "reaches ph1 s1 ph' s'"
  then obtain n where "cpu_steps n ph1 s1 = Some (ph', s')" by (auto simp: reaches_def)
  then have "cpu_steps (Suc n) ph s = Some (ph', s')" using a(1) by simp
  then show ?thesis unfolding reaches_def by blast
qed

lemma request_stream:
  "manage_request_process (d, io, q) = Some (d1, io1, q1) \<Longrightarrow> from_cpu d1 = from_cpu d \<and> cpu_open d1 = cpu_open d"
  by (auto simp: manage_request_process_def bind_eq_Some_conv split: if_splits)

lemma send_pid_stream:
  "send_pid (d, io, q) = Some (sent, d1, io1, q1) \<Longrightarrow> from_cpu d1 = from_cpu d \<and> cpu_open d1 = cpu_open d"
  by (auto simp: send_pid_def send_code_def send_to_cpu_def bind_eq_Some_conv split: if_splits)

text \<open>From receiving an operation to the checks after it.\<close>

lemma operation_reaches:
  assumes "serve_operation (d, io, q) = Some s1" "cpu_open d \<longrightarrow> 4 \<le> length (from_cpu d)" "reaches Checking_blocked s1 ph' s'"
  shows "reaches Receiving (d, io, q) ph' s'"
proof -
  obtain op rest where op: "receive_op_code (from_cpu d) = (op, rest)" by force
  let ?q = "if is_syscall op then increment_syscall_counter q else q"
  let ?s = "(d\<lparr>from_cpu := rest\<rparr>, io, ?q)"
  obtain s0 where s0: "syscall_handlers op ?s = Some s0" "s1 = end_operation op s0"
    using assms(1) op by (auto simp: serve_operation_def end_operation_def bind_eq_Some_conv)
  have "reaches (Serving op) ?s ph' s'"
  proof (cases "io_of_operation op")
    case None
    then have "cpu_step (Serving op) ?s = Some (Checking_blocked, s1)" using s0 by simp
    then show ?thesis using assms(3) by (rule reaches_step)
  next
    case (Some t)
    then have h: "handle_syscall_io t ?s = Some s0" and sys: "is_syscall op"
      using s0(1) by (auto simp: io_of_operation_def syscall_handlers_def handle_syscall_io_sleep_def handle_syscall_io_stdout_def
          handle_syscall_io_stdin_def is_syscall_def split: if_splits)
    obtain queued s2 where q: "start_io_request t ?s = Some (queued, s2)" "finish_io_request queued s2 = Some s0"
      using h unfolding io_syscall_split by (auto simp: bind_eq_Some_conv)
    have "is_syscall OP_SYSCALL_SLEEP" by (simp add: is_syscall_def)
    then have "end_operation OP_SYSCALL_SLEEP s0 = s1" using s0(2) sys by (simp add: end_operation_def)
    then have "cpu_step (Blocking queued) s2 = Some (Checking_blocked, s1)" using q(2) by simp
    then have "reaches (Blocking queued) s2 ph' s'" using assms(3) by (rule reaches_step)
    moreover have "cpu_step (Serving op) ?s = Some (Blocking queued, s2)" using Some q(1) by simp
    ultimately show ?thesis using reaches_step by blast
  qed
  moreover have "cpu_step Receiving (d, io, q) = Some (Serving op, ?s)" using assms(2) op by (simp add: not_less)
  ultimately show ?thesis using reaches_step by blast
qed

text \<open>The round goes on exactly when the calls are back at the test of the loop and it holds.\<close>

lemma round_reaches:
  assumes "cpu_client_round (d, io, q) = Some (going_on, d', io', q')" "keep_running d" "cpu_open d \<longrightarrow> 4 \<le> length (from_cpu d)"
  shows "\<exists>ph. reaches Requesting (d, io, q) ph (d', io', q') \<and>
    (if going_on then ph = Requesting \<and> keep_running d' else ph = Leaving \<or> ph = Requesting \<and> \<not> keep_running d')"
proof -
  obtain d1 io1 q1 where m: "manage_request_process (d, io, q) = Some (d1, io1, q1)"
    using assms(1) by (auto simp: cpu_client_round_def bind_eq_Some_conv)
  show ?thesis
  proof (cases "ct_pcb d1")
    case None
    then have "cpu_step Requesting (d, io, q) = Some (Leaving, d', io', q')" "\<not> going_on"
      using assms(1,2) m by (auto simp: cpu_client_round_def)
    then show ?thesis using reaches_step reaches_refl by (metis (full_types))
  next
    case (Some r)
    then have c1: "cpu_step Requesting (d, io, q) = Some (Sending, d1, io1, q1)" using assms(2) m by simp
    obtain sent d2 io2 q2 where s: "send_pid (d1, io1, q1) = Some (sent, d2, io2, q2)"
      using assms(1) m Some by (auto simp: cpu_client_round_def bind_eq_Some_conv)
    show ?thesis
    proof (cases sent)
      case False
      then have "(d', io', q') = (d2, io2, q2)" "\<not> going_on" using assms(1) m Some s by (auto simp: cpu_client_round_def)
      moreover have "cpu_step Sending (d1, io1, q1) = Some (Leaving, d2, io2, q2)" using s False by simp
      ultimately show ?thesis using reaches_step [OF c1] reaches_step reaches_refl by (metis (full_types))
    next
      case True
      obtain g d3 io3 q3 where v: "serve_cycle (d2, io2, q2) = Some (g, d3, io3, q3)"
        "going_on = (g \<and> keep_running d3)" "(d', io', q') = (d3, io3, q3)"
        using assms(1) m Some s True by (auto simp: cpu_client_round_def bind_eq_Some_conv)
      obtain s3 s4 s5 d6 io6 q6 where c: "serve_operation (d2, io2, q2) = Some s3" "manage_queue_blocked s3 = Some s4"
        "manage_end_quantum s4 = Some s5" "manage_preemption_priority s5 = Some (d6, io6, q6)"
        using v(1) by (auto simp: serve_cycle_def bind_eq_Some_conv)
      obtain ph where rep: "cpu_step Reporting (d6, io6, q6) = Some (ph, d3, io3, q3)"
        "ph = Leaving \<and> \<not> g \<or> ph = Requesting \<and> g"
      proof -
        obtain ok d7 where p: "send_preemption d6 = (ok, d7)" by force
        have "(case send_preemption d6 of
                (False, d1) \<Rightarrow> Some (False, d1\<lparr>keep_running := False\<rparr>, io6, q6)
              | (True, d1) \<Rightarrow>
                  (if preemption_reason d1 = PR_HIGHER_PRIORITY_PROCESS then send_pid (d1, io6, q6) else Some (True, d1, io6, q6))) = Some (g, d3, io3, q3)"
          using v(1) c by (simp add: serve_cycle_def)
        then show ?thesis using p that by (cases ok) (auto split: if_splits)
      qed
      have "reaches Reporting (d6, io6, q6) ph (d3, io3, q3)" by (rule reaches_step [OF rep(1) reaches_refl])
      then have "reaches Checking_blocked s3 ph (d3, io3, q3)"
        using c(2-4) by (intro reaches_step [of Checking_blocked s3 Checking_quantum s4] reaches_step [of Checking_quantum s4 Checking_priority s5]
          reaches_step [of Checking_priority s5 Reporting "(d6, io6, q6)"]) simp_all
      moreover have "cpu_open d2 \<longrightarrow> 4 \<le> length (from_cpu d2)" using assms(3) request_stream [OF m] send_pid_stream [OF s] by simp
      ultimately have "reaches Receiving (d2, io2, q2) ph (d3, io3, q3)" using operation_reaches [OF c(1)] by blast
      moreover have "cpu_step Sending (d1, io1, q1) = Some (Receiving, d2, io2, q2)" using s True by simp
      ultimately have "reaches Requesting (d, io, q) ph (d3, io3, q3)" using reaches_step [OF c1] reaches_step by blast
      then show ?thesis using v(2,3) rep(2) by (intro exI [of _ ph]) auto
    qed
  qed
qed

end
