(* ===== verification/KS_Logs.thy ===== *)
theory KS_Logs
  imports Logging Sched_Cpu
begin

section \<open>What the scheduler logs\<close>

text \<open>
  The lines that tell the moves of the processes, with the tables of names they are made from. An
  enumerator is turned into its number to index a table, and a place past the end of the table is
  undefined behaviour (\<open>None\<close>). Which moves log which line is in the code of \<open>Queues\<close>, \<open>Mutex\<close> and \<open>Sched_Cpu\<close>.
\<close>

type_synonym log_time = "nat \<times> nat \<times> nat \<times> nat"

subsection \<open>Names\<close>

definition STATE_NAMES :: "string list" where
  "STATE_NAMES = [''NEW'', ''READY'', ''EXEC'', ''BLOCK'', ''SUSP. BLOCK'', ''SUSP. READY'', ''EXIT'']"

definition PROCESS_END_REASONS :: "string list" where
  "PROCESS_END_REASONS = [''invalid priority'', ''instruction EXIT'', ''system shutdown'', ''io failure'',
     ''not enough memory available'', ''segmentation fault'', ''a mutex with that name already exists'',
     ''no mutex with that name exists'', ''this process cannot unlock this mutex'']"

definition SHUTDOWN_REASONS :: "string list" where
  "SHUTDOWN_REASONS = [''Processes finished successfully'', ''BSOD: Corruption of memory detected'',
     ''Connection error with Kernel Memory'', ''Unknown error'']"

definition SYSCALL_NAMES :: "string list" where
  "SYSCALL_NAMES = [''MUTEX_CREATE'', ''MUTEX_LOCK'', ''MUTEX_UNLOCK'', ''MEM_ALLOC'', ''MEM_FREE'', ''SLEEP'', ''STDOUT'', ''STDIN'', ''INIT_PROC'', ''EXIT'']"

text \<open>The numbers of the enumerators.\<close>

fun state_number :: "t_process_state \<Rightarrow> nat" where
  "state_number PS_NEW = 0" | "state_number PS_READY = 1" | "state_number PS_EXEC = 2" | "state_number PS_BLOCK = 3"
| "state_number PS_SUSP_BLOCK = 4" | "state_number PS_SUSP_READY = 5" | "state_number PS_EXIT = 6"

fun end_number :: "t_process_end_reason \<Rightarrow> nat" where
  "end_number PER_INVALID_PRIORITY = 0" | "end_number PER_EXIT_INSTRUCTION = 1" | "end_number PER_SYSTEM_SHUTDOWN = 2"
| "end_number PER_IO_FAILURE = 3" | "end_number PER_NOT_ENOUGH_MEMORY = 4" | "end_number PER_SEGMENTATION_FAULT = 5"
| "end_number PER_MUTEX_NAME_ALREADY_EXISTS = 6" | "end_number PER_MUTEX_NAME_NOT_FOUND = 7" | "end_number PER_PROCESS_HAS_NO_LOCKED_MUTEX = 8"

fun shutdown_number :: "t_shutdown_reason \<Rightarrow> nat" where
  "shutdown_number SR_NO_PROCESSES = 0" | "shutdown_number SR_CORRUPTED_MEMORY = 1" | "shutdown_number SR_KERNEL_MEMORY_CONNECTION_FAILURE = 2"
| "shutdown_number SR_UNKNOWN_CAUSE = 3" | "shutdown_number SR_KERNEL_MEMORY_SEND_ERROR = 4"

definition name_at :: "string list \<Rightarrow> nat \<Rightarrow> string option" where
  "name_at names i = (if i < length names then Some (names ! i) else None)"

text \<open>\<open>%u\<close> and \<open>%d\<close> of a 32-bit value.\<close>

definition show_u32 :: "u32 \<Rightarrow> string" where
  "show_u32 w = show_int (uint w)"

definition show_i32 :: "u32 \<Rightarrow> string" where
  "show_i32 w = show_int (if uint w < 2 ^ 31 then uint w else uint w - 2 ^ 32)"

subsection \<open>The lines\<close>

definition log_transition_state :: "t_log \<Rightarrow> log_time \<Rightarrow> int \<Rightarrow> u32 \<Rightarrow> t_process_state \<Rightarrow> t_process_state \<Rightarrow> t_log option" where
  "log_transition_state logger time tid pid previous_state state_new = do {
     previous \<leftarrow> name_at STATE_NAMES (state_number previous_state);
     new \<leftarrow> name_at STATE_NAMES (state_number state_new);
     log_info logger time tid (show_i32 pid @ '' moves from state '' @ previous @ '' to state '' @ new) }"

definition log_invalid_state :: "t_log \<Rightarrow> log_time \<Rightarrow> int \<Rightarrow> u32 \<Rightarrow> t_process_state \<Rightarrow> t_process_state \<Rightarrow> t_process_state \<Rightarrow> t_log option" where
  "log_invalid_state logger time tid pid state expected_state next_state = do {
     expected \<leftarrow> name_at STATE_NAMES (state_number expected_state);
     nxt \<leftarrow> name_at STATE_NAMES (state_number next_state);
     current \<leftarrow> name_at STATE_NAMES (state_number state);
     log_error logger time tid (show_u32 pid @ '' Cannot move from state '' @ expected @ '' to state '' @ nxt
       @ '' because it is in state '' @ current) }"

definition log_transition_to_exit :: "t_log \<Rightarrow> log_time \<Rightarrow> int \<Rightarrow> u32 \<Rightarrow> t_process_end_reason \<Rightarrow> t_log option" where
  "log_transition_to_exit logger time tid pid reason = do {
     name \<leftarrow> name_at PROCESS_END_REASONS (end_number reason);
     log_info logger time tid (show_u32 pid @ '' finished execution with reason: '' @ name) }"

definition log_mutex_tomado :: "t_log \<Rightarrow> log_time \<Rightarrow> int \<Rightarrow> u32 \<Rightarrow> string \<Rightarrow> t_log option" where
  "log_mutex_tomado logger time tid pid id_mutex = log_info logger time tid (show_u32 pid @ '' Takes the Mutex '' @ id_mutex)"

definition log_mutex_released :: "t_log \<Rightarrow> log_time \<Rightarrow> int \<Rightarrow> u32 \<Rightarrow> string \<Rightarrow> t_log option" where
  "log_mutex_released logger time tid pid id_mutex = log_info logger time tid (show_u32 pid @ '' Releases the Mutex '' @ id_mutex)"

definition log_transition_of_priority :: "t_log \<Rightarrow> log_time \<Rightarrow> int \<Rightarrow> u32 \<Rightarrow> int \<Rightarrow> int \<Rightarrow> t_log option" where
  "log_transition_of_priority logger time tid pid previous_priority priority_new =
     log_info logger time tid (show_u32 pid @ '' Change of priority: '' @ show_int previous_priority @ '' - '' @ show_int priority_new)"

definition log_preemption_queue_priority :: "t_log \<Rightarrow> log_time \<Rightarrow> int \<Rightarrow> u32 \<Rightarrow> int \<Rightarrow> u32 \<Rightarrow> int \<Rightarrow> t_log option" where
  "log_preemption_queue_priority logger time tid preempted_pid preempted_priority pid_new priority_new =
     log_info logger time tid (show_u32 preempted_pid @ '' Priority: '' @ show_int preempted_priority
       @ '' - Preempted by a higher-priority queue by process '' @ show_u32 pid_new @ '' with priority '' @ show_int priority_new)"

definition log_preemption_end_quantum :: "t_log \<Rightarrow> log_time \<Rightarrow> int \<Rightarrow> u32 \<Rightarrow> t_log option" where
  "log_preemption_end_quantum logger time tid pid = log_info logger time tid (show_u32 pid @ '' - Preempted due to quantum end'')"

text \<open>The process of the CPU, \<open>None\<close> for \<open>NULL\<close>, is read for its pid.\<close>

definition log_syscall :: "t_log \<Rightarrow> log_time \<Rightarrow> int \<Rightarrow> u32 option \<Rightarrow> int \<Rightarrow> t_log option" where
  "log_syscall logger time tid pid op_code =
     (if OP_SYSCALL_MUTEX_CREATE \<le> op_code \<and> op_code \<le> OP_SYSCALL_EXIT
      then do {
        p \<leftarrow> pid;
        name \<leftarrow> name_at SYSCALL_NAMES (nat (op_code - OP_SYSCALL_MUTEX_CREATE));
        log_info logger time tid (show_u32 p @ '' - Requested syscall: '' @ name) }
      else Some logger)"

definition log_shutdown :: "t_log \<Rightarrow> log_time \<Rightarrow> int \<Rightarrow> t_shutdown_reason \<Rightarrow> t_log option" where
  "log_shutdown logger time tid reason_shutdown = do {
     name \<leftarrow> name_at SHUTDOWN_REASONS (shutdown_number reason_shutdown);
     (if reason_shutdown = SR_NO_PROCESSES then log_info else log_error) logger time tid (''Shutting down: '' @ name) }"

subsection \<open>No lookup is out of bounds\<close>

lemma state_named: "\<exists>name. name_at STATE_NAMES (state_number st) = Some name"
  by (cases st) (simp_all add: name_at_def STATE_NAMES_def)

lemma end_reason_named: "\<exists>name. name_at PROCESS_END_REASONS (end_number reason) = Some name"
  by (cases reason) (simp_all add: name_at_def PROCESS_END_REASONS_def)

lemma log_levels_defined: "\<exists>logger'. log_info logger time tid message = Some logger'" "\<exists>logger'. log_error logger time tid message = Some logger'"
  by (auto simp: log_info_def log_error_def log_write_def log_level_as_string_def LEVEL_NAMES_def Let_def)

text \<open>\<open>SYSCALL_NAMES\<close> lists the system calls in the order of their operation codes.\<close>

lemma syscall_names:
  "map (\<lambda>op. name_at SYSCALL_NAMES (nat (op - OP_SYSCALL_MUTEX_CREATE)))
     [OP_SYSCALL_MUTEX_CREATE, OP_SYSCALL_MUTEX_LOCK, OP_SYSCALL_MUTEX_UNLOCK, OP_SYSCALL_MEM_ALLOC, OP_SYSCALL_MEM_FREE,
      OP_SYSCALL_SLEEP, OP_SYSCALL_STDOUT, OP_SYSCALL_STDIN, OP_SYSCALL_INIT_PROC, OP_SYSCALL_EXIT] = map Some SYSCALL_NAMES"
  by (simp add: name_at_def SYSCALL_NAMES_def)

lemma log_syscall_defined: "\<exists>logger'. log_syscall logger time tid (Some pid) op = Some logger'"
proof (cases "OP_SYSCALL_MUTEX_CREATE \<le> op \<and> op \<le> OP_SYSCALL_EXIT")
  case True
  then have "nat (op - OP_SYSCALL_MUTEX_CREATE) < length SYSCALL_NAMES" unfolding SYSCALL_NAMES_def by (simp, linarith)
  then show ?thesis using True log_levels_defined(1) by (simp add: log_syscall_def name_at_def)
next
  case False
  then show ?thesis unfolding log_syscall_def by (simp only: if_False) simp
qed

text \<open>
  \<open>SHUTDOWN_REASONS\<close> has no entry for \<open>SR_KERNEL_MEMORY_SEND_ERROR\<close>; \<open>check_reason_shutdown\<close> replaces it first, so the
  reason the scheduler logs is always in the table.
\<close>

lemma read_shutdown_reason_named:
  "read_shutdown_reason stream = Some (reason, rest) \<Longrightarrow> reason \<in> {SR_KERNEL_MEMORY_CONNECTION_FAILURE, SR_CORRUPTED_MEMORY}"
proof (induction stream rule: read_shutdown_reason.induct)
  case (1 stream)
  then show ?case
    by (subst (asm) (2) read_shutdown_reason.simps) (auto split: prod.splits if_splits option.splits)
qed

lemma shutdown_logged:
  assumes "check_reason_shutdown reason q = Some (reason', q')"
  shows "\<exists>logger'. log_shutdown logger time tid reason' = Some logger'"
proof -
  have "reason' \<noteq> SR_KERNEL_MEMORY_SEND_ERROR"
    using assms read_shutdown_reason_named by (fastforce simp: check_reason_shutdown_def split: if_splits)
  then have "\<exists>name. name_at SHUTDOWN_REASONS (shutdown_number reason') = Some name"
    by (cases reason') (simp_all add: name_at_def SHUTDOWN_REASONS_def)
  then show ?thesis using log_levels_defined [of logger time tid] by (auto simp: log_shutdown_def simp del: append.simps)
qed

text \<open>A pid is shown as it is, but by \<open>log_transition_state\<close> only when it is below \<open>2\<^sup>3\<^sup>1\<close>.\<close>

lemma show_pid: "uint pid < 2 ^ 31 \<Longrightarrow> show_i32 pid = show_u32 pid"
  by (simp add: show_i32_def show_u32_def)

lemma show_large_pid: "uint (pid :: u32) \<ge> 2 ^ 31 \<Longrightarrow> hd (show_i32 pid) = CHR ''-''"
  using uint_lt2p [of pid] by (simp add: show_i32_def show_int_def)

end
