(* ===== verification/Sockets.thy ===== *)
theory Sockets
  imports Msg
begin

section \<open>Sockets\<close>

text \<open>
  \<open>utils/sockets_linux.c\<close>. What the operating system answers to \<open>getaddrinfo\<close>, \<open>socket\<close>, \<open>connect\<close>,
  \<open>bind\<close>, \<open>listen\<close> and \<open>accept\<close> is an argument; the handles it has given out and the address lists not yet
  freed are the state. Memory of the socket itself is not counted. \<open>Msg\<close> receives from a stream of bytes:
  the last part says when \<open>recv\<close> does the same.
\<close>

subsection \<open>Data\<close>

datatype t_socket_kind = SOCKET_KIND_CLIENT | SOCKET_KIND_SERVER

record t_socket =
  handle :: int
  mutex_locked :: bool
  has_mutex :: bool

text \<open>The answers of the operating system to one \<open>socket_create\<close>, and what it keeps for the process.\<close>

record t_os_answers =
  os_resolves :: bool
  os_handle :: int
  os_connects :: bool
  os_binds :: bool
  os_listens :: bool

record t_os_state =
  open_handles :: "int set"
  address_lists :: nat

definition INVALID_HANDLE :: int where "INVALID_HANDLE = -1"

definition socket_handle_is_valid :: "int \<Rightarrow> bool" where
  "socket_handle_is_valid h \<longleftrightarrow> h \<noteq> INVALID_HANDLE"

definition usable :: "t_socket option \<Rightarrow> bool" where
  "usable socket = (case socket of None \<Rightarrow> False | Some s \<Rightarrow> socket_handle_is_valid (handle s))"

subsection \<open>Creation\<close>

definition wrap_handle :: "int \<Rightarrow> bool \<Rightarrow> t_socket option" where
  "wrap_handle h with_mutex =
     (if \<not> socket_handle_is_valid h then None else Some \<lparr>handle = h, mutex_locked = False, has_mutex = with_mutex\<rparr>)"

text \<open>\<open>getaddrinfo\<close> and \<open>socket\<close>.\<close>

definition os_getaddrinfo :: "t_os_answers \<Rightarrow> t_os_state \<Rightarrow> t_os_state" where
  "os_getaddrinfo os st = (if os_resolves os then st\<lparr>address_lists := address_lists st + 1\<rparr> else st)"

definition os_socket :: "t_os_answers \<Rightarrow> t_os_state \<Rightarrow> t_os_state" where
  "os_socket os st = (if socket_handle_is_valid (os_handle os) then st\<lparr>open_handles := insert (os_handle os) (open_handles st)\<rparr> else st)"

definition os_freeaddrinfo :: "t_os_state \<Rightarrow> t_os_state" where
  "os_freeaddrinfo st = st\<lparr>address_lists := address_lists st - 1\<rparr>"

definition os_close :: "int \<Rightarrow> t_os_state \<Rightarrow> t_os_state" where
  "os_close h st = st\<lparr>open_handles := open_handles st - {h}\<rparr>"

definition create_client :: "t_os_answers \<Rightarrow> bool \<Rightarrow> t_os_state \<Rightarrow> t_socket option \<times> t_os_state" where
  "create_client os with_mutex st =
     (if \<not> os_resolves os then (None, st)
      else let st1 = os_socket os (os_getaddrinfo os st) in
        if \<not> socket_handle_is_valid (os_handle os) then (None, os_freeaddrinfo st1)
        else if \<not> os_connects os then (None, os_close (os_handle os) (os_freeaddrinfo st1))
        else (wrap_handle (os_handle os) with_mutex, os_freeaddrinfo st1))"

text \<open>
  Only the handle is checked: \<open>servinfo\<close> has no value when \<open>getaddrinfo\<close> fails, and is read all the same;
  the results of \<open>bind\<close> and \<open>listen\<close> are thrown away.
\<close>

definition create_server :: "t_os_answers \<Rightarrow> bool \<Rightarrow> t_os_state \<Rightarrow> (t_socket option \<times> t_os_state) option" where
  "create_server os with_mutex st =
     (if \<not> os_resolves os then None
      else let st1 = os_socket os (os_getaddrinfo os st)
           in Some (wrap_handle (os_handle os) with_mutex, os_freeaddrinfo st1))"

definition socket_create :: "t_socket_kind \<Rightarrow> t_os_answers \<Rightarrow> bool \<Rightarrow> t_os_state \<Rightarrow> (t_socket option \<times> t_os_state) option" where
  "socket_create kind os with_mutex st =
     (if kind = SOCKET_KIND_CLIENT then Some (create_client os with_mutex st) else create_server os with_mutex st)"

text \<open>The handle that \<open>accept\<close> gives is the argument; the listener is read without a test for \<open>NULL\<close>.\<close>

definition socket_accept :: "t_socket option \<Rightarrow> int \<Rightarrow> bool \<Rightarrow> t_socket option option" where
  "socket_accept listener accepted with_mutex = (case listener of None \<Rightarrow> None | Some l \<Rightarrow> Some (wrap_handle accepted with_mutex))"

subsection \<open>The end of a socket\<close>

definition socket_close :: "t_socket option \<Rightarrow> t_os_state \<Rightarrow> t_socket option \<times> t_os_state" where
  "socket_close socket st =
     (case socket of
        None \<Rightarrow> (None, st)
      | Some s \<Rightarrow> if \<not> socket_handle_is_valid (handle s) then (Some s, st)
                  else (Some (s\<lparr>handle := INVALID_HANDLE\<rparr>), os_close (handle s) st))"

definition socket_destroy :: "t_socket option \<Rightarrow> t_os_state \<Rightarrow> t_os_state" where
  "socket_destroy socket st = (case socket of None \<Rightarrow> st | Some s \<Rightarrow> snd (socket_close (Some s) st))"

subsection \<open>The mutex\<close>

text \<open>\<open>None\<close> is a call that waits, or the mutex of another thread unlocked.\<close>

definition socket_mutex_lock :: "t_socket option \<Rightarrow> t_socket option option" where
  "socket_mutex_lock socket =
     (case socket of None \<Rightarrow> Some None
      | Some s \<Rightarrow> if \<not> has_mutex s then Some (Some s)
                  else if mutex_locked s then None else Some (Some (s\<lparr>mutex_locked := True\<rparr>)))"

definition socket_mutex_unlock :: "t_socket option \<Rightarrow> t_socket option option" where
  "socket_mutex_unlock socket =
     (case socket of None \<Rightarrow> Some None
      | Some s \<Rightarrow> if \<not> has_mutex s then Some (Some s)
                  else if mutex_locked s then Some (Some (s\<lparr>mutex_locked := False\<rparr>)) else None)"

subsection \<open>Addresses\<close>

text \<open>The port and the address of the peer as the operating system gives them; \<open>inet_ntop\<close> needs room for the NUL.\<close>

definition socket_get_local_port :: "t_socket option \<Rightarrow> int option \<Rightarrow> int" where
  "socket_get_local_port socket port =
     (if \<not> usable socket then -1 else case port of None \<Rightarrow> -1 | Some p \<Rightarrow> p)"

definition socket_get_peer_ip :: "t_socket option \<Rightarrow> string option \<Rightarrow> nat \<Rightarrow> string option" where
  "socket_get_peer_ip socket address room =
     (if \<not> usable socket then None
      else case address of None \<Rightarrow> None | Some ip \<Rightarrow> if length ip < room then Some ip else None)"

subsection \<open>Transfers\<close>

text \<open>
  \<open>sent\<close> is what \<open>send\<close> returns. \<open>recv\<close> with \<open>MSG_WAITALL\<close> gives fewer bytes than asked for only when the peer has
  closed; the result is then whether it gave any, with the bytes it gave and the stream after them.
\<close>

definition socket_send :: "t_socket option \<Rightarrow> int \<Rightarrow> bool" where
  "socket_send socket sent \<longleftrightarrow> usable socket \<and> 0 < sent"

definition socket_recv :: "t_socket option \<Rightarrow> bytes \<Rightarrow> nat \<Rightarrow> bool \<times> bytes \<times> bytes" where
  "socket_recv socket stream n =
     (if \<not> usable socket then (False, [], stream) else (take n stream \<noteq> [], take n stream, drop n stream))"

subsection \<open>What is promised\<close>

lemmas socket_defs = socket_create_def create_client_def create_server_def os_socket_def os_getaddrinfo_def
  os_freeaddrinfo_def os_close_def wrap_handle_def socket_handle_is_valid_def INVALID_HANDLE_def Let_def

text \<open>No call leaks an address list, and a handle is open afterwards exactly when a socket holds it.\<close>

lemma socket_create_frees:
  assumes "socket_create kind os with_mutex st = Some (socket, st')" "os_handle os \<notin> open_handles st"
  shows "address_lists st' = address_lists st"
    and "open_handles st' = open_handles st \<union> {h. \<exists>s. socket = Some s \<and> h = handle s}"
  using assms by (auto simp: socket_defs split: if_splits)

text \<open>What a socket took from the operating system is given back by \<open>socket_destroy\<close>, closed before or not.\<close>

lemma socket_destroy_create:
  assumes "socket_create kind os with_mutex st = Some (socket, st')" "os_handle os \<notin> open_handles st"
  shows "socket_destroy socket st' = st"
    and "socket_destroy (fst (socket_close socket st')) (snd (socket_close socket st')) = st"
  using assms by (auto simp: socket_defs socket_destroy_def socket_close_def split: if_splits)

lemma socket_close_idempotent:
  "socket_close socket st = (socket', st') \<Longrightarrow> socket_close socket' st' = (socket', st')"
  by (auto simp: socket_close_def socket_handle_is_valid_def INVALID_HANDLE_def split: option.splits if_splits)

text \<open>After \<open>socket_close\<close> no call on the socket reaches the operating system.\<close>

lemma closed_socket_unusable: "\<not> usable (fst (socket_close socket st))"
  by (auto simp: socket_close_def usable_def socket_handle_is_valid_def INVALID_HANDLE_def split: option.splits)

text \<open>A client gets a socket exactly when every step succeeded, a server also when \<open>bind\<close> or \<open>listen\<close> failed.\<close>

lemma socket_create_succeeds:
  "fst (create_client os m st) \<noteq> None \<longleftrightarrow> os_resolves os \<and> os_handle os \<noteq> -1 \<and> os_connects os"
  "create_server os m st = Some (socket, st') \<Longrightarrow> socket \<noteq> None \<longleftrightarrow> os_handle os \<noteq> -1"
  by (auto simp: socket_defs split: if_splits)

lemma mutex_lock_unlock: "socket_mutex_lock socket = Some socket' \<Longrightarrow> socket_mutex_unlock socket' = Some socket"
  by (auto simp: socket_mutex_lock_def socket_mutex_unlock_def split: option.splits if_splits)

text \<open>
  \<open>socket_receive\<close> of \<open>Msg\<close> is \<open>recv\<close> for every stream that does not end inside the value; there the code reports success
  with a value it has read in part.
\<close>

lemma recv_is_receive:
  assumes "usable socket" "0 < n"
  shows "n \<le> length stream \<or> stream = [] \<Longrightarrow>
      socket_receive stream n = (case socket_recv socket stream n of (ok, bs, rest) \<Rightarrow> if ok then Some (bs, rest) else None)"
    and "stream \<noteq> [] \<Longrightarrow> length stream < n \<Longrightarrow> socket_recv socket stream n = (True, stream, [])"
  using assms by (auto simp: socket_receive_def socket_recv_def)

end
