(* ===== verification/Exec_Locks.thy ===== *)
theory Exec_Locks
  imports Sched_Lists
begin

section \<open>The locks of \<open>exec_list.c\<close>\<close>

text \<open>
  The other theories take a wait on a condition variable as one step that is enabled once its
  condition holds. For \<open>wait_queue_exec_empty_with_syscalls\<close> that is too kind: it holds two C
  mutexes and \<open>cnd_wait\<close> gives back only one of them. Here the calls on the list of EXEC and on the
  counter of system calls are programs that run one C statement at a time, in any order between the
  calls. \<open>exec_pc\<close> is the statement a call is about to run; a call that cannot lock a mutex has no
  step. \<open>cnd_wait\<close> unlocks its mutex and may return at any time, as the C standard allows, so
  that \<open>cnd_signal\<close> has no effect here: what is proved holds with and without wake-ups.
  \<open>transition_take_exec_next\<close>, which only the shutdown uses, is left out.
\<close>

datatype exec_pc =
    Wait_Lock | Wait_Lock_Counter | Wait_Test | Wait_Sleep | Wait_Unlock_Counter | Wait_Unlock
  | Empty_Lock | Empty_Test | Empty_Sleep | Empty_Unlock
  | Take_Lock pcb_ref | Take_Remove pcb_ref | Take_Lock_Counter | Take_Unlock_Counter | Take_Unlock
  | Add_Lock pcb_ref | Add_Element pcb_ref | Add_Unlock
  | Count_Lock int | Count_Change int | Count_Unlock
  | Returned

text \<open>The calls are numbered; a mutex holds the number of the call that has locked it.\<close>

record t_exec_locks =
  lk_list :: "pcb_ref list"
  lk_count :: int
  list_mutex :: "nat option"
  counter_mutex :: "nat option"
  pcs :: "nat \<Rightarrow> exec_pc"

definition goto :: "nat \<Rightarrow> exec_pc \<Rightarrow> t_exec_locks \<Rightarrow> t_exec_locks" where
  "goto t pc s = s\<lparr>pcs := (pcs s)(t := pc)\<rparr>"

definition lock_list :: "nat \<Rightarrow> exec_pc \<Rightarrow> t_exec_locks \<Rightarrow> t_exec_locks option" where
  "lock_list t pc s = (if list_mutex s = None then Some (goto t pc (s\<lparr>list_mutex := Some t\<rparr>)) else None)"

definition unlock_list :: "nat \<Rightarrow> exec_pc \<Rightarrow> t_exec_locks \<Rightarrow> t_exec_locks option" where
  "unlock_list t pc s = Some (goto t pc (s\<lparr>list_mutex := None\<rparr>))"

definition lock_counter :: "nat \<Rightarrow> exec_pc \<Rightarrow> t_exec_locks \<Rightarrow> t_exec_locks option" where
  "lock_counter t pc s = (if counter_mutex s = None then Some (goto t pc (s\<lparr>counter_mutex := Some t\<rparr>)) else None)"

definition unlock_counter :: "nat \<Rightarrow> exec_pc \<Rightarrow> t_exec_locks \<Rightarrow> t_exec_locks option" where
  "unlock_counter t pc s = Some (goto t pc (s\<lparr>counter_mutex := None\<rparr>))"

lemmas lock_defs = goto_def lock_list_def unlock_list_def lock_counter_def unlock_counter_def

subsection \<open>The calls\<close>

definition step_wait :: "exec_pc \<Rightarrow> nat \<Rightarrow> t_exec_locks \<Rightarrow> t_exec_locks option" where
  "step_wait pc t s =
     (case pc of
        Wait_Lock \<Rightarrow> lock_list t Wait_Lock_Counter s
      | Wait_Lock_Counter \<Rightarrow> lock_counter t Wait_Test s
      | Wait_Test \<Rightarrow>
          (if int (length (lk_list s)) - lk_count s > 0 then unlock_list t Wait_Sleep s
           else Some (goto t Wait_Unlock_Counter s))
      | Wait_Sleep \<Rightarrow> lock_list t Wait_Test s
      | Wait_Unlock_Counter \<Rightarrow> unlock_counter t Wait_Unlock s
      | Wait_Unlock \<Rightarrow> unlock_list t Returned s
      | _ \<Rightarrow> None)"

definition step_empty :: "exec_pc \<Rightarrow> nat \<Rightarrow> t_exec_locks \<Rightarrow> t_exec_locks option" where
  "step_empty pc t s =
     (case pc of
        Empty_Lock \<Rightarrow> lock_list t Empty_Test s
      | Empty_Test \<Rightarrow> (if length (lk_list s) > 0 then unlock_list t Empty_Sleep s else Some (goto t Empty_Unlock s))
      | Empty_Sleep \<Rightarrow> lock_list t Empty_Test s
      | Empty_Unlock \<Rightarrow> unlock_list t Returned s
      | _ \<Rightarrow> None)"

text \<open>\<open>transition_take_exec\<close> up to the unlock of the list; the update of the lowest priority that follows with
  preemption locks the mutex of the list once more and nothing else.\<close>

definition step_take :: "exec_pc \<Rightarrow> nat \<Rightarrow> t_exec_locks \<Rightarrow> t_exec_locks option" where
  "step_take pc t s =
     (case pc of
        Take_Lock p \<Rightarrow> lock_list t (Take_Remove p) s
      | Take_Remove p \<Rightarrow> Some (goto t Take_Lock_Counter (s\<lparr>lk_list := remove1 p (lk_list s)\<rparr>))
      | Take_Lock_Counter \<Rightarrow> lock_counter t Take_Unlock_Counter s
      | Take_Unlock_Counter \<Rightarrow> unlock_counter t Take_Unlock s
      | Take_Unlock \<Rightarrow> unlock_list t Returned s
      | _ \<Rightarrow> None)"

definition step_add :: "exec_pc \<Rightarrow> nat \<Rightarrow> t_exec_locks \<Rightarrow> t_exec_locks option" where
  "step_add pc t s =
     (case pc of
        Add_Lock p \<Rightarrow> lock_list t (Add_Element p) s
      | Add_Element p \<Rightarrow> Some (goto t Add_Unlock (s\<lparr>lk_list := lk_list s @ [p]\<rparr>))
      | Add_Unlock \<Rightarrow> unlock_list t Returned s
      | _ \<Rightarrow> None)"

definition step_count :: "exec_pc \<Rightarrow> nat \<Rightarrow> t_exec_locks \<Rightarrow> t_exec_locks option" where
  "step_count pc t s =
     (case pc of
        Count_Lock n \<Rightarrow> lock_counter t (Count_Change n) s
      | Count_Change n \<Rightarrow> Some (goto t Count_Unlock (s\<lparr>lk_count := lk_count s + n\<rparr>))
      | Count_Unlock \<Rightarrow> unlock_counter t Returned s
      | _ \<Rightarrow> None)"

lemmas step_defs = step_wait_def step_empty_def step_take_def step_add_def step_count_def

text \<open>The next statement of a call, whatever the call is.\<close>

definition exec_step :: "nat \<Rightarrow> t_exec_locks \<Rightarrow> (t_exec_locks \<times> unit) option" where
  "exec_step t s =
     (let pc = pcs s t; steps = map (\<lambda>f. f pc t s) [step_wait, step_empty, step_take, step_add, step_count]
      in map_option (\<lambda>s'. (s', ())) (Option.bind (find (\<lambda>r. r \<noteq> None) steps) id))"

subsection \<open>Who holds which mutex\<close>

fun holds_list :: "exec_pc \<Rightarrow> bool" where
  "holds_list Wait_Lock_Counter = True"
| "holds_list Wait_Test = True"
| "holds_list Wait_Unlock_Counter = True"
| "holds_list Wait_Unlock = True"
| "holds_list Empty_Test = True"
| "holds_list Empty_Unlock = True"
| "holds_list (Take_Remove p) = True"
| "holds_list Take_Lock_Counter = True"
| "holds_list Take_Unlock_Counter = True"
| "holds_list Take_Unlock = True"
| "holds_list (Add_Element p) = True"
| "holds_list Add_Unlock = True"
| "holds_list _ = False"

fun holds_counter :: "exec_pc \<Rightarrow> bool" where
  "holds_counter Wait_Test = True"
| "holds_counter Wait_Sleep = True"
| "holds_counter Wait_Unlock_Counter = True"
| "holds_counter Take_Unlock_Counter = True"
| "holds_counter (Count_Change n) = True"
| "holds_counter Count_Unlock = True"
| "holds_counter _ = False"

definition locks_ok :: "t_exec_locks \<Rightarrow> bool" where
  "locks_ok s \<longleftrightarrow> (\<forall>t. (list_mutex s = Some t) = holds_list (pcs s t)) \<and> (\<forall>t. (counter_mutex s = Some t) = holds_counter (pcs s t))"

definition no_calls_running :: "t_exec_locks \<Rightarrow> bool" where
  "no_calls_running s \<longleftrightarrow> list_mutex s = None \<and> counter_mutex s = None \<and>
     (\<forall>t. pcs s t \<in> {Wait_Lock, Empty_Lock, Returned} \<or> (\<exists>p. pcs s t = Take_Lock p \<or> pcs s t = Add_Lock p) \<or> (\<exists>n. pcs s t = Count_Lock n))"

lemma exec_step_cases:
  assumes "exec_step t s = Some (s', u)"
  shows "step_wait (pcs s t) t s = Some s' \<or> step_empty (pcs s t) t s = Some s' \<or> step_take (pcs s t) t s = Some s'
    \<or> step_add (pcs s t) t s = Some s' \<or> step_count (pcs s t) t s = Some s'"
  using assms by (auto simp: exec_step_def Let_def bind_eq_Some_conv split: if_splits)

lemma exec_step_pc:
  assumes "exec_step t s = Some (s', u)" "t' \<noteq> t"
  shows "pcs s' t' = pcs s t'"
  using exec_step_cases [OF assms(1)] assms(2)
  by (auto simp: step_defs lock_defs split: exec_pc.splits if_splits)

lemma step_mutexes:
  assumes "exec_step t s = Some (s', u)" "(list_mutex s = Some t) = holds_list (pcs s t)" "(counter_mutex s = Some t) = holds_counter (pcs s t)"
  shows "list_mutex s' = (if holds_list (pcs s' t) then Some t else if holds_list (pcs s t) then None else list_mutex s)"
    and "holds_list (pcs s' t) \<Longrightarrow> holds_list (pcs s t) \<or> list_mutex s = None"
    and "counter_mutex s' = (if holds_counter (pcs s' t) then Some t else if holds_counter (pcs s t) then None else counter_mutex s)"
    and "holds_counter (pcs s' t) \<Longrightarrow> holds_counter (pcs s t) \<or> counter_mutex s = None"
  using exec_step_cases [OF assms(1)] assms(2,3)
  by (cases "pcs s t"; auto simp: step_defs lock_defs split: if_splits)+

lemma locks_ok_step:
  assumes "locks_ok s" "exec_step t s = Some (s', u)"
  shows "locks_ok s'"
proof -
  have l: "(list_mutex s = Some x) = holds_list (pcs s x)" and c: "(counter_mutex s = Some x) = holds_counter (pcs s x)" for x
    using assms(1) by (simp_all add: locks_ok_def)
  note m = step_mutexes [OF assms(2) l [of t] c [of t]]
  have "(list_mutex s' = Some x) = holds_list (pcs s' x) \<and> (counter_mutex s' = Some x) = holds_counter (pcs s' x)" for x
  proof (cases "x = t")
    case False
    then have "pcs s' x = pcs s x" by (rule exec_step_pc [OF assms(2)])
    with False show ?thesis using m l [of x] c [of x] l [of t] c [of t] by (auto split: if_splits)
  qed (use m l [of t] c [of t] in \<open>auto split: if_splits\<close>)
  then show ?thesis by (simp add: locks_ok_def)
qed

interpretation exec_calls: invariant_system "\<lambda>_ _. True" exec_step locks_ok
  by unfold_locales (rule locks_ok_step)

lemma no_calls_locks_ok:
  assumes "no_calls_running s"
  shows "locks_ok s"
proof -
  have "\<not> holds_list (pcs s t) \<and> \<not> holds_counter (pcs s t)" for t
    using assms by (cases "pcs s t") (auto simp: no_calls_running_def dest: spec [of _ t])
  then show ?thesis using assms by (simp add: locks_ok_def no_calls_running_def)
qed

subsection \<open>A wait that has begun never ends\<close>

text \<open>
  Call \<open>w\<close> waits: it keeps the mutex of the counter, so nobody gets past a \<open>mtx_lock\<close> of it, and
  whoever has taken a process out of EXEC stops there with the mutex of the list.
\<close>

definition stuck :: "nat \<Rightarrow> t_exec_locks \<Rightarrow> bool" where
  "stuck w s \<longleftrightarrow> locks_ok s \<and> pcs s w \<in> {Wait_Test, Wait_Sleep} \<and>
     ((\<exists>t. pcs s t = Take_Lock_Counter) \<or> lk_count s < int (length (lk_list s)))"

lemma stuck_locks:
  assumes "stuck w s"
  shows "counter_mutex s = Some w" "\<And>t. holds_counter (pcs s t) \<Longrightarrow> t = w"
    and "pcs s w = Wait_Test \<Longrightarrow> lk_count s < int (length (lk_list s))"
    and "pcs s t = Take_Lock_Counter \<Longrightarrow> list_mutex s = Some t"
proof -
  have l: "(list_mutex s = Some x) = holds_list (pcs s x)" and c: "(counter_mutex s = Some x) = holds_counter (pcs s x)" for x
    using assms by (simp_all add: stuck_def locks_ok_def)
  show w: "counter_mutex s = Some w" using assms c [of w] by (auto simp: stuck_def)
  show "holds_counter (pcs s x) \<Longrightarrow> x = w" for x using w c [of x] by simp
  show take: "pcs s t = Take_Lock_Counter \<Longrightarrow> list_mutex s = Some t" for t using l [of t] by simp
  assume "pcs s w = Wait_Test"
  moreover from this have "list_mutex s = Some w" using l [of w] by simp
  ultimately have "\<nexists>t. pcs s t = Take_Lock_Counter" using take by fastforce
  then show "lk_count s < int (length (lk_list s))" using assms by (simp add: stuck_def)
qed

lemma stuck_step:
  assumes "stuck w s" "exec_step t s = Some (s', u)"
  shows "stuck w s'"
proof -
  note k = stuck_locks [OF assms(1)] and pc = exec_step_pc [OF assms(2)]
  have ok: "locks_ok s'" using locks_ok_step [OF _ assms(2)] assms(1) by (simp add: stuck_def)
  show ?thesis
  proof (cases "t = w")
    case True
    then show ?thesis using exec_step_cases [OF assms(2)] assms(1) k(3) ok
      by (auto simp: stuck_def step_defs lock_defs split: if_splits dest: k(4))
  next
    case False
    then have free: "\<not> holds_counter (pcs s t)" using k(2) by blast
    have grows: "pcs s' t = Take_Lock_Counter \<or> lk_count s' = lk_count s \<and> length (lk_list s) \<le> length (lk_list s')"
      using exec_step_cases [OF assms(2)] free by (elim disjE) (auto simp: step_defs lock_defs split: exec_pc.splits if_splits)
    have waits: "pcs s t \<noteq> Take_Lock_Counter"
      using exec_step_cases [OF assms(2)] k(1) by (auto simp: step_defs lock_defs)
    have "(\<exists>x. pcs s' x = Take_Lock_Counter) \<or> lk_count s' < int (length (lk_list s'))"
      using assms(1) grows waits pc unfolding stuck_def by force
    then show ?thesis using ok assms(1) pc [of w] False by (simp add: stuck_def)
  qed
qed

text \<open>The calls that need the mutex of the counter, as far as they get.\<close>

fun before_counter :: "exec_pc \<Rightarrow> bool" where
  "before_counter (Take_Lock p) = True"
| "before_counter (Take_Remove p) = True"
| "before_counter Take_Lock_Counter = True"
| "before_counter (Count_Lock n) = True"
| "before_counter _ = False"

lemma before_counter_step:
  assumes "stuck w s" "exec_step t s = Some (s', u)" "before_counter (pcs s x)"
  shows "before_counter (pcs s' x)"
proof (cases "x = t")
  case True
  then show ?thesis using exec_step_cases [OF assms(2)] stuck_locks(1) [OF assms(1)] assms(3)
    by (cases "pcs s t"; auto simp: step_defs lock_defs split: if_splits)
qed (use exec_step_pc [OF assms(2)] assms(3) in simp)

interpretation waiting: invariant_system "\<lambda>_ _. True" exec_step "\<lambda>s. stuck w s \<and> (\<forall>x \<in> xs. before_counter (pcs s x))" for w xs
  by unfold_locales (blast intro: stuck_step before_counter_step)

text \<open>C35: The wait for EXEC before a compaction deadlocks as soon as it has to wait. Whatever calls on
  EXEC and on the counter of system calls run beside it and in whatever order, from the moment
  \<open>wait_queue_exec_empty_with_syscalls\<close> finds a process that runs it never returns, not even when it
  is woken up, and no call that takes a process out of EXEC or counts a system call, and has yet to
  lock the mutex of the counter, ever returns.\<close>

theorem exec_wait_deadlocks:
  assumes "no_calls_running s0" "reachable (\<lambda>_ _. True) exec_step s0 s"
    and "pcs s w = Wait_Test" "lk_count s < int (length (lk_list s))" "reachable (\<lambda>_ _. True) exec_step s s'"
  shows "pcs s' w \<in> {Wait_Test, Wait_Sleep} \<and> (\<forall>t. before_counter (pcs s t) \<longrightarrow> pcs s' t \<noteq> Returned)"
proof -
  have "stuck w s" using exec_calls.reachable_inv [OF assms(2) no_calls_locks_ok [OF assms(1)]] assms(3,4) by (simp add: stuck_def)
  then have "stuck w s \<and> (\<forall>x \<in> {x. before_counter (pcs s x)}. before_counter (pcs s x))" by simp
  then have "stuck w s' \<and> (\<forall>x \<in> {x. before_counter (pcs s x)}. before_counter (pcs s' x))"
    by (rule waiting.reachable_inv [OF assms(5)])
  then show ?thesis by (force simp: stuck_def)
qed

text \<open>Process 7 runs, call 0 waits for it and call 1 takes it out of EXEC.\<close>

definition one_running :: t_exec_locks where
  "one_running = \<lparr>lk_list = [7], lk_count = 0, list_mutex = None, counter_mutex = None,
     pcs = (\<lambda>_. Returned)(0 := Wait_Lock, 1 := Take_Lock 7)\<rparr>"

primrec exec_run :: "nat list \<Rightarrow> t_exec_locks \<Rightarrow> t_exec_locks option" where
  "exec_run [] s = Some s"
| "exec_run (t # ts) s = Option.bind (exec_step t s) (exec_run ts \<circ> fst)"

lemma exec_run_reachable:
  "exec_run ts s = Some s' \<Longrightarrow> reachable (\<lambda>_ _. True) exec_step s0 s \<Longrightarrow> reachable (\<lambda>_ _. True) exec_step s0 s'"
  by (induction ts arbitrary: s) (auto simp: bind_eq_Some_conv intro: reachable_step)

theorem exec_wait_deadlocks_witness:
  "\<exists>s s'. reachable (\<lambda>_ _. True) exec_step one_running s \<and> reachable (\<lambda>_ _. True) exec_step s s' \<and> lk_list s' = []
     \<and> pcs s' 0 = Wait_Sleep \<and> pcs s' 1 = Take_Lock_Counter \<and> (\<forall>s''. reachable (\<lambda>_ _. True) exec_step s s'' \<longrightarrow> pcs s'' 1 \<noteq> Returned)"
proof -
  have "map_option (\<lambda>s. (pcs s 0, pcs s 1, lk_list s, lk_count s)) (exec_run [0, 0] one_running) = Some (Wait_Test, Take_Lock 7, [7], 0)" by code_simp
  then obtain s where s: "exec_run [0, 0] one_running = Some s" "pcs s 0 = Wait_Test" "pcs s 1 = Take_Lock 7" "lk_list s = [7]" "lk_count s = 0"
    by auto
  have "map_option (\<lambda>s. (pcs s 0, pcs s 1, lk_list s)) (Option.bind (exec_run [0, 0] one_running) (exec_run [0, 1, 1])) = Some (Wait_Sleep, Take_Lock_Counter, [])"
    by code_simp
  with s(1) obtain s' where s': "exec_run [0, 1, 1] s = Some s'" "pcs s' 0 = Wait_Sleep" "pcs s' 1 = Take_Lock_Counter" "lk_list s' = []" by auto
  have r: "reachable (\<lambda>_ _. True) exec_step one_running s" "reachable (\<lambda>_ _. True) exec_step s s'"
    by (rule exec_run_reachable, rule s(1) s'(1), rule reachable_init)+
  have "no_calls_running one_running" by (simp add: no_calls_running_def one_running_def)
  from exec_wait_deadlocks [OF this r(1) s(2)] s(3-5)
  have "\<forall>s''. reachable (\<lambda>_ _. True) exec_step s s'' \<longrightarrow> pcs s'' 1 \<noteq> Returned" by fastforce
  with r s' show ?thesis by blast
qed

end
