(* ===== verification/Worker_Locks.thy ===== *)
theory Worker_Locks
  imports Suspension
begin

section \<open>The locks of the resumer\<close>

text \<open>
  The resumer, the calls that end, park and unpark it, and the arrivals in SUSP. READY, one
  C statement at a time. In \<open>Suspension\<close> the wait for a process is a step that is enabled once there
  is one or a signal came; here \<open>cnd_wait\<close> puts the thread to sleep, and \<open>cnd_signal\<close> wakes it only if
  it sleeps already. Wake-ups without a signal, which the C standard allows, are left out. A signal and the
  writes next to it under the same mutexes are one step. Whether
  Kernel Memory agrees to a resumption is the argument \<open>agree\<close> of a step of the resumer.
\<close>

subsection \<open>Statements\<close>

text \<open>The next statement of \<open>thread_resumer\<close> and of the functions it calls.\<close>

datatype worker_pc =
    R_Lock | R_Switch | R_Unlock | R_Last_Unlock | R_Done
  | R_Get_Lock | R_Get | R_Get_Unlock "pcb_ref option" | R_Set_Waiting
  | R_Work_Open pcb_ref | R_Work pcb_ref | R_Take_Lock pcb_ref | R_Take pcb_ref | R_Take_Unlock
  | R_Fail_Lock | R_Fail_Switch | R_Fail_List | R_Fail_Set | R_Fail_Unlock | R_Relock
  | R_Wait_Open | R_Wait_Lock | R_Wait_Test | R_Asleep | R_Signalled | R_Wait_Read | R_Wait_Unlock bool
  | R_Wait_Relock bool | R_Wait_Set bool
  | R_Park | R_Parked | R_Unparked


text \<open>\<open>transition_to_susp_ready\<close>, \<open>transition_take_susp_ready\<close>, \<open>lock_thread_suspended\<close> and \<open>unlock_thread_suspended\<close> in other threads.\<close>

datatype other_pc =
    A_Lock pcb_ref | A_Signal pcb_ref | A_Insert pcb_ref | A_Unlock
  | T_Lock pcb_ref | T_Take pcb_ref | T_Unlock
  | P_Lock | P_Switch | P_List | P_Set | P_Unlock
  | U_Lock | U_Test | U_Unlock
  | O_Returned



subsection \<open>Mutexes and condition variables\<close>





subsection \<open>The resumer\<close>








subsection \<open>The other threads\<close>










subsection \<open>Who holds which mutex\<close>

fun worker_has_state :: "worker_pc \<Rightarrow> bool" where
  "worker_has_state R_Switch = True"
| "worker_has_state R_Unlock = True"
| "worker_has_state R_Last_Unlock = True"
| "worker_has_state R_Get_Lock = True"
| "worker_has_state R_Get = True"
| "worker_has_state (R_Get_Unlock r) = True"
| "worker_has_state R_Set_Waiting = True"
| "worker_has_state (R_Work_Open r) = True"
| "worker_has_state R_Fail_Switch = True"
| "worker_has_state R_Fail_List = True"
| "worker_has_state R_Fail_Set = True"
| "worker_has_state R_Fail_Unlock = True"
| "worker_has_state R_Wait_Open = True"
| "worker_has_state (R_Wait_Set b) = True"
| "worker_has_state R_Park = True"
| "worker_has_state _ = False"


fun other_has_state :: "other_pc \<Rightarrow> bool" where
  "other_has_state P_Switch = True"
| "other_has_state P_List = True"
| "other_has_state P_Set = True"
| "other_has_state P_Unlock = True"
| "other_has_state U_Test = True"
| "other_has_state U_Unlock = True"
| "other_has_state _ = False"

fun other_has_list :: "other_pc \<Rightarrow> bool" where
  "other_has_list (A_Signal r) = True"
| "other_has_list (A_Insert r) = True"
| "other_has_list A_Unlock = True"
| "other_has_list (T_Take r) = True"
| "other_has_list T_Unlock = True"
| "other_has_list P_Set = True"
| "other_has_list _ = False"



text \<open>What a thread that holds the mutex of the state has read there is still true.\<close>

fun saw_running :: "worker_pc \<Rightarrow> bool" where
  "saw_running R_Get_Lock = True"
| "saw_running R_Get = True"
| "saw_running (R_Get_Unlock r) = True"
| "saw_running R_Set_Waiting = True"
| "saw_running (R_Work_Open r) = True"
| "saw_running _ = False"

fun saw_waiting :: "worker_pc \<Rightarrow> bool" where
  "saw_waiting R_Wait_Open = True"
| "saw_waiting R_Fail_List = True"
| "saw_waiting R_Fail_Set = True"
| "saw_waiting _ = False"



lemma other_without_state [simp]:
  "\<not> other_has_state pc \<Longrightarrow> pc \<noteq> P_List" "\<not> other_has_state pc \<Longrightarrow> pc \<noteq> P_Set"
  "\<not> other_has_list pc \<Longrightarrow> pc \<noteq> A_Insert r" "\<not> other_has_list pc \<Longrightarrow> pc \<noteq> P_Set"
  by auto

lemma worker_without_state [simp]:
  "\<not> worker_has_state pc \<Longrightarrow> \<not> saw_running pc" "\<not> worker_has_state pc \<Longrightarrow> \<not> saw_waiting pc"
  by (cases pc; simp)+














subsection \<open>Waiting and the shutdown\<close>















end
