(* ===== verification/Edge_Cases.thy ===== *)
theory Edge_Cases
  imports Resumption
begin

section \<open>Where the scheduler departs from what it means to do\<close>

text \<open>
  Behaviours at the edges: equal priorities in the sorted lists, priorities below zero, and the
  check for free memory when the query has failed.
\<close>

lemma sorted_split:
  assumes "sorted (map f (zs @ ws))" "\<forall>z \<in> set zs. f z < x" "ws = [] \<or> x \<le> f (hd ws)"
  shows "filter (\<lambda>z. f z < x) (zs @ ws) = zs" "filter (\<lambda>z. \<not> f z < x) (zs @ ws) = ws"
proof -
  have "\<forall>w \<in> set ws. x \<le> f w" using assms(1,3) by (cases ws) (auto simp: sorted_append)
  then have "filter (\<lambda>z. f z < x) ws = []" "filter (\<lambda>z. \<not> f z < x) ws = ws" by (auto simp: filter_empty_conv filter_id_conv)
  moreover have "filter (\<lambda>z. f z < x) zs = zs" "filter (\<lambda>z. \<not> f z < x) zs = []" using assms(2) by (auto simp: filter_empty_conv filter_id_conv)
  ultimately show "filter (\<lambda>z. f z < x) (zs @ ws) = zs" "filter (\<lambda>z. \<not> f z < x) (zs @ ws) = ws" by simp_all
qed

text \<open>The lists sorted by priority put a new process before those of the same priority, so among equal
  priorities the last to arrive is the first to leave: in SUSP. READY, where the README gives the
  longest suspended process the first turn, and in the waiting list of a mutex.\<close>

lemma sorted_list_lifo:
  assumes "insert_pcb_sorted xs pcb q = Some (ys, slot)" "sorted (map (prio_of q) xs)"
  shows "ys = filter (\<lambda>r. prio_of q r < prio_of q pcb) xs @ pcb # filter (\<lambda>r. \<not> prio_of q r < prio_of q pcb) xs"
proof -
  obtain zs ws where zw: "xs = zs @ ws" "ys = zs @ pcb # ws" "\<forall>z \<in> set zs. prio_of q z < prio_of q pcb"
    "ws = [] \<or> prio_of q pcb \<le> prio_of q (hd ws)" using insert_pcb_sorted_spec [OF assms(1)] by blast
  have "sorted (map (prio_of q) (zs @ ws))" using assms(2) zw(1) by simp
  note split = sorted_split [OF this zw(3,4)]
  show ?thesis unfolding zw(1,2) split by (rule refl)
qed

text \<open>C40: \<open>check_priority_valid\<close> does not look at the lower bound: with \<open>MULTILEVEL\<close> a new process with a
  negative priority that Kernel Memory accepts is added to a subqueue before the first one, outside
  the array; the model has no next state.\<close>

theorem negative_priority_out_of_bounds:
  assumes "multilevel_queue (ready q)" "prio < 0" "km_open q" "from_km q = send_string OP_PROCESS_STARTED reply @ rest"
    "int (length reply) < INT_MAX"
  shows "check_priority_valid prio (ready q) \<and> transition_new_ready instructions_file prio q = None"
proof
  show valid: "check_priority_valid prio (ready q)" using assms(2) by (simp add: check_priority_valid_def queue_count_def)
  let ?pcb = "\<lparr>pcb_pid = of_nat (next_ref q), pcb_priority = prio, priority_list = [prio], blocked_time = 0,
            pcb_state = PS_NEW, active_instances = 0, blocking_mutex = None\<rparr>"
  let ?q1 = "increment_process_count (q\<lparr>pcbs := (pcbs q)(next_ref q \<mapsto> ?pcb), next_ref := next_ref q + 1\<rparr>)"
  let ?msg = "send_packet (packet_append (packet_append_string (create_packet OP_NEW_PROCESS) instructions_file) (u32_bytes (of_nat (next_ref q))))"
  let ?q2 = "?q1\<lparr>to_km := to_km ?q1 @ [?msg]\<rparr>"
  let ?rest1 = "int_bytes (int (length reply) + 1) @ c_string reply @ rest"
  have "receive_km_opcode [OP_PROCESS_STARTED] ?q2 = Some (OP_PROCESS_STARTED, ?q2\<lparr>from_km := ?rest1\<rparr>)"
    by (rule receive_expected)
      (use assms(4) in \<open>simp_all add: increment_process_count_def send_string_def serialize_packet_def in_int_def INT_MAX_def\<close>)
  moreover have "skip_string (?q2\<lparr>from_km := ?rest1\<rparr>) = Some (?q2\<lparr>from_km := rest\<rparr>)"
    using skip_string_answer [OF assms(5), of "?q2\<lparr>from_km := ?rest1\<rparr>" rest] by simp
  ultimately have n: "notify_new_process instructions_file (of_nat (next_ref q)) ?q1 = Some (True, ?q2\<lparr>from_km := rest\<rparr>)"
    using assms(3) by (simp add: notify_new_process_def send_to_km_def increment_process_count_def)
  have "transition_to_ready (next_ref q) prio (ready q) = None"
    using assms(1,2) by (simp add: to_ready_eq queue_position_def)
  then show "transition_new_ready instructions_file prio q = None"
    using n valid by (simp add: transition_new_ready_def transition_take_new_def create_pcb_def update_pcb_def put_ready_def
        get_priority_pcb_def increment_process_count_def)
qed

theorem negative_priority_out_of_bounds_witness:
  "\<exists>q. sched_run [Km_sends process_started] demo_init = Some q \<and> transition_new_ready ''bad'' (- 1) q = None"
proof -
  have "map_option (\<lambda>q. (multilevel_queue (ready q), km_open q, from_km q = send_string OP_PROCESS_STARTED '''' @ []))
      (sched_run [Km_sends process_started] demo_init) = Some (True, True, True)" by code_simp
  then obtain q where q: "sched_run [Km_sends process_started] demo_init = Some q" "multilevel_queue (ready q)" "km_open q"
    "from_km q = send_string OP_PROCESS_STARTED '''' @ []" by auto
  have "int (length '''') < INT_MAX" by (simp add: INT_MAX_def)
  from negative_priority_out_of_bounds [OF q(2) _ q(3,4) this, of "- 1" "''bad''"] q(1) show ?thesis by auto
qed

text \<open>\<open>has_space\<close> says that there is room when the query itself has failed: \<open>space_available\<close> returns -1
  once Kernel Memory is gone, and the comparison with an unsigned size turns it into the largest
  number.\<close>

lemma has_space_without_memory:
  assumes "\<not> km_open q" "shutdown q \<noteq> None"
  shows "has_space request q = Some (True, q)"
proof -
  have "space_available_no_mutex q = Some (- 1, q)"
    using assms by (simp add: space_available_no_mutex_def send_to_km_def close_kernel_scheduler_def)
  moreover have "sm_size request \<le> (word_of_int (- 1) :: u32)" by simp
  ultimately show ?thesis by (simp add: has_space_def)
qed

end
