(* ===== verification/Spec2Isabelle.thy ===== *)
theory Spec2Isabelle
  imports Context_Switch Isolation System_Start Suspend_Resume KM_System Sched_App Io_Module Mutex_Queues Formats Io_Service Workers Cpu_Threads
    KS_Rounds KS_Logs Sockets Exec_Locks Worker_Locks Edge_Cases
begin

text \<open>
  \<^bold>\<open>A model of the operating system simulator\<close>

  \<^bold>\<open>The program.\<close> Six C modules run as separate processes and talk over sockets. The \<^emph>\<open>Kernel Scheduler\<close>
  creates processes, moves them through seven states and serves the system calls of the CPUs. \<^emph>\<open>CPUs\<close>
  run one instruction at a time and ask for a process, its context and its instructions. \<^emph>\<open>Kernel Memory\<close>
  keeps the segments and the contexts of the processes; the bytes are in \<^emph>\<open>Memory Sticks\<close>, which the CPUs
  also reach directly, and in the blocks of \<^emph>\<open>Swap\<close> while a process is suspended. \<^emph>\<open>IO\<close> modules serve
  one request at a time. \<open>utils\<close> has what they share: lists, dictionaries, strings, the configuration
  parser and the messages.

  \<^bold>\<open>Conventions\<close> (theory \<open>Prelude\<close>). A C \<open>int\<close> is an \<open>int\<close> with the range \<open>in_int\<close>, unsigned integers
  are words, a pointer that may be \<open>NULL\<close> is an option, strings end at their first NUL when they become
  bytes. \<open>None\<close> as the result of an operation is undefined behaviour of the C code (\<open>NULL\<close>, an
  access out of bounds, a plain mutex locked twice) or a wait that is not over. A function that holds one
  lock for its whole body is one step; the files whose locking matters have their statements as
  steps. What comes from a socket is the list of the bytes not yet read, what is sent is bytes or
  the messages they encode. Log lines (other than in \<open>Logging\<close>), \<open>free\<close> and \<open>time_sleep_ms\<close> have no counterpart.

  \<^bold>\<open>Theories and sources.\<close>

  \<^item> \<open>Linked_List\<close>, \<open>Dictionary\<close>, \<open>Strings\<close>, \<open>Msg\<close>: \<open>utils/collections\<close>, \<open>string.c\<close>, \<open>file.c\<close>, \<open>config.c\<close>,
    \<open>msg.c\<close> and \<open>msg.h\<close>. \<open>Formats\<close> has their properties: the hash table refines a map, packets,
    strings, handshakes and configuration files are read back as they were written. \<open>Logging\<close>: the lines of
    \<open>log.c\<close>. \<open>Sockets\<close>: \<open>sockets_linux.c\<close>, over the answers of the operating system.
  \<^item> \<open>Main_Memory\<close> (\<open>holes.c\<close>, \<open>segments.c\<close>, \<open>compaction.c\<close> of Kernel Memory), \<open>Main_Memory_Inv\<close>: holes and
    segments partition the memory. \<open>Memory_Stick\<close> (\<open>memory_stick/\<close>) and \<open>Sticks\<close> (\<open>address_translation.c\<close>):
    transfers over any number of sticks write and read one flat memory. \<open>Swap_Store\<close> (\<open>swap/\<close> and the block
    transfers of \<open>swap.c\<close>), \<open>Kernel_Memory\<close> (\<open>swap.c\<close>, \<open>registry.c\<close>, \<open>initializer.c\<close>), \<open>KM_Listeners\<close>
    (\<open>scheduler_listener.c\<close>, \<open>cpu_listener.c\<close>, the registration of sticks). \<open>KM_System\<close> puts them together:
    no request breaks the partition, whatever its bytes, as long as its size is not 0 and sticks announce sizes that fit;
    and a compaction moves segments but not their bytes. \<open>Suspend_Resume\<close>: what a suspension stores in the swap and that
    a resumption brings it back. \<open>KM_Server\<close> (\<open>server.c\<close>, \<open>connections.c\<close>, \<open>cleanup.c\<close>):
    handshakes, the threads of the listeners as rounds over the bytes of each socket, the shutdown.
    \<open>KM_Server_Inv\<close>: the invariant of the server, and that the shutdown ends every thread.
  \<^item> \<open>Registers\<close>, \<open>Cpu_Memory\<close>, \<open>Cpu\<close>, \<open>Cpu_Cycle\<close>: \<open>registers.c\<close>, \<open>memory.c\<close>, \<open>handlers.c\<close> with \<open>initializer.c\<close>,
    \<open>cpu.c\<close> with \<open>kernel_memory_protocol.c\<close>. \<open>Context_Switch\<close>: a context goes to Kernel Memory and back,
    where jumps land. \<open>Isolation\<close>: the instructions of a process stay in its own segments, except a long
    \<open>COPY_MEM\<close>. \<open>Stick_Tables\<close>: a CPU that joins divides addresses among the sticks as Kernel Memory does.
  \<^item> \<open>Start_Up\<close> (\<open>main.c\<close> and the start of the memory stick, the swap, the CPU and the IO module) and
    \<open>System_Start\<close>: what a started module sends is what the server of Kernel Memory registers.
  \<^item> \<open>Sched_Types\<close> (\<open>pcb.c\<close>, \<open>queue_types.h\<close>, counters, \<open>shutdown.c\<close>), \<open>Ready_Queue\<close>, \<open>Sched_Lists\<close>
    (\<open>exec_list.c\<close>, \<open>blocking_list.c\<close>), \<open>Sched_Memory\<close> (the questions to Kernel Memory), \<open>Queues\<close> (\<open>queues.c\<close> and
    the transitions of \<open>suspension.c\<close>). \<open>Queues_Inv\<close> and \<open>Queues_System\<close>: the invariant \<open>queues_wf\<close> of the
    state machine, and what dispatching, waking up and the shutdown do.
  \<^item> \<open>Mutex\<close> (\<open>syscalls/mutex.c\<close>), \<open>Mutex_Inv\<close> and \<open>Mutex_System\<close>: who holds and who waits, priority
    inheritance along chains of holders. \<open>Mutex_Queues\<close>: mutexes together with the state machine.
  \<^item> \<open>Suspension\<close> (\<open>suspension.c\<close>), \<open>Compaction\<close> (\<open>compaction.c\<close>, \<open>syscalls/memory.c\<close>), \<open>Sched_Io\<close> (\<open>connections/io.c\<close>),
    \<open>Sched_Cpu\<close> (\<open>connections/cpu.c\<close>, \<open>server.c\<close>), \<open>Sched_App\<close> (\<open>app/kernel_scheduler.c\<close>, \<open>main.c\<close>). Their properties
    are in \<open>Resumption\<close> and \<open>Workers\<close> (suspender, resumer), \<open>Io_Service\<close> (the threads of the
    interfaces), \<open>Cpu_Threads\<close> (preemption, quantum, lost CPUs), \<open>Exec_Locks\<close> (the two locks of
    \<open>exec_list.c\<close>, statement by statement), \<open>Worker_Locks\<close> (those of the resumer, likewise) and \<open>Edge_Cases\<close>.
    \<open>KS_Logs\<close>: the lines it logs.
  \<^item> The threads of the scheduler together. \<open>KS_Server\<close>: the state with the threads of the CPUs and of the interfaces,
    and its events: an accepted connection, the next call of \<open>handle_cpu_client\<close> for one CPU, a round of the
    suspender, of the resumer, of an interface, of a routine thread, a message of Kernel Memory; and the window in which the test before a compaction passes too early. \<open>KS_Frames\<close> and
    \<open>KS_Workers\<close>: which processes each of them can take out of EXEC. \<open>KS_Running\<close>: in every reachable state two CPUs
    run the same process only under MULTILEVEL, where a process that inherits a priority in READY is taken twice. \<open>KS_Rounds\<close>: a round of
    \<open>Sched_Cpu\<close> is its calls run one after the other.
  \<^item> \<open>Io_Module\<close>: \<open>io/\<close>.

  \<^bold>\<open>Interfaces.\<close> \<open>invariant_system\<close> and \<open>guarded_system\<close> of \<open>Prelude\<close> are systems of requests with an invariant;
  they are interpreted by the memory of Kernel Memory (\<open>memory\<close>), by the whole module (\<open>kernel_memory\<close>),
  by its server with the threads of the listeners (\<open>server\<close>, \<open>last_rounds\<close>), by the state machine, by the mutexes with and without it, by all threads of the scheduler (\<open>ks\<close>), by the
  calls on EXEC and by the resumer (\<open>resumer_locks\<close>). The list, the
  table and the memories of the sticks and of the swap have locales of their own in their
  theories, each interpreted by the code's model.

  \<^bold>\<open>Properties.\<close> The manifest numbers them by importance. Kernel Memory: the partition of
  memory and what creating and removing a segment do, for single operations and for every message.
  Transfers: what is written is read, by whichever module. Scheduler: the list of a state holds
  exactly the processes in it, and READY gives out the best process; mutexes count
  right, inherit priorities and hand over to the best of those who wait; what interfaces, suspender, resumer
  and shutdown do with the processes they serve. Each property names in its text the states and requests it
  speaks of; the predicates for them (\<open>request_ok\<close>, \<open>km_event_ok\<close>, \<open>server_event_ok\<close>, \<open>mutex_ok\<close>, \<open>queues_wf\<close>) are defined
  beside the invariants. The last group states in which situations the code behaves as its
  documentation does not say, among them requests of size 0, compactions that lose data, \<open>COPY_MEM\<close> into the memory of others, a process
  on two CPUs, a deadlock of the wait before a compaction, lost wake-ups and processes that stay in EXEC.

  \<^bold>\<open>Bounds.\<close> Addresses and sizes stay below \<open>2 ^ 31\<close>, which is what the C \<open>int\<close> needs; the
  invariants prove it from the sizes the sticks announce. There is no fuel except in \<open>script_lines\<close>,
  where the length of the file is enough, and in loops over a list by its length. Loops that read a
  socket end because each round reads an operation code. \<open>propagate_priority_transitive\<close> and
  \<open>split_loop\<close> are partial functions: that they return is proved where it holds, and where it does not
  hold, \<open>None\<close> is the statement.

  \<^bold>\<open>Not modelled.\<close> The calls that start threads, the allocation and release of memory, \<open>vsnprintf\<close>, clocks and file handles: effects of the operating system with no state of the
  program. Opening a connection or accepting one is the conversation that follows it. Two sends in a
  row by one function count as one, and a peer closes between messages, not in the middle of a value. In \<open>KS_Server\<close> the thread of a CPU is cut between the calls of its loop: the dispatch, a swap of processes
  and the handler of a system call are one step each, and what a compaction does before it has to wait is the event
  \<open>Routine_locks\<close>. The waits on condition variables are steps that are enabled once their condition holds,
  except in \<open>Exec_Locks\<close> and \<open>Worker_Locks\<close>; signals that are lost elsewhere between several waiting threads are therefore not
  covered, nor is the order in which different modules lock \<open>km_socket\<close> and the queues. The clock is a field
  of the scheduler's state. Bytes a stick had before a compaction are not moved by the code and not
  by the model.
\<close>

end
